(* ===== verification/Cir_Prelude.thy ===== *)
theory Cir_Prelude
  imports Main "HOL-Library.Char_ord" "HOL-Library.List_Lexorder" "HOL-Library.Product_Lexorder"
begin

text \<open>
  The shared vocabulary of the development: the result type of fallible Rust code
  (\<open>Ok\<close>, \<open>Err\<close> with an error value, \<open>Panic\<close> for a failed \<open>unwrap\<close>, \<open>expect\<close> or index),
  its bind and its list traversals, i64 ranges and checked arithmetic, decimal printing, and
  the collections \<open>outc_simps\<close> and \<open>outc_elims\<close> the component proofs use.
\<close>

named_theorems outc_simps \<open>inversion of computations that returned Ok\<close>
named_theorems bounds_intros \<open>range facts of machine integers\<close>

subsection \<open>Results\<close>

text \<open>
  \<open>Result<'a, 'e>\<close> extended with \<open>Panic\<close>: a Rust panic (failed \<open>unwrap\<close>, map index of a
  missing key, slice index out of range) is a value, never an unspecified one.
\<close>

datatype (dead 'e, 'a) outc = Ok 'a | Err 'e | Panic

fun rbind :: "('e, 'a) outc \<Rightarrow> ('a \<Rightarrow> ('e, 'b) outc) \<Rightarrow> ('e, 'b) outc" where
  "rbind (Ok x) f = f x"
| "rbind (Err e) f = Err e"
| "rbind Panic f = Panic"

definition unwrap :: "'a option \<Rightarrow> ('e, 'a) outc" where
  "unwrap m = (case m of None \<Rightarrow> Panic | Some x \<Rightarrow> Ok x)"

definition ok_or :: "'e \<Rightarrow> 'a option \<Rightarrow> ('e, 'a) outc" where
  "ok_or e m = (case m of None \<Rightarrow> Err e | Some x \<Rightarrow> Ok x)"

definition nth_opt :: "'a list \<Rightarrow> nat \<Rightarrow> 'a option" where
  "nth_opt xs i = (if i < length xs then Some (xs ! i) else None)"

definition index :: "'a list \<Rightarrow> nat \<Rightarrow> ('e, 'a) outc" where
  "index xs i = unwrap (nth_opt xs i)"

lemma rbind_cong [fundef_cong]:
  "m = m' \<Longrightarrow> (\<And>x. m' = Ok x \<Longrightarrow> f x = g x) \<Longrightarrow> rbind m f = rbind m' g"
  by (cases m') auto

lemma rbind_eq_Ok [simp, outc_simps]:
  "rbind m f = Ok y \<longleftrightarrow> (\<exists>x. m = Ok x \<and> f x = Ok y)"
  by (cases m) auto

lemma rbind_eq_Err:
  "rbind m f = Err e \<longleftrightarrow> m = Err e \<or> (\<exists>x. m = Ok x \<and> f x = Err e)"
  by (cases m) auto

lemma rbind_eq_Panic:
  "rbind m f = Panic \<longleftrightarrow> m = Panic \<or> (\<exists>x. m = Ok x \<and> f x = Panic)"
  by (cases m) auto

lemma rbind_assoc: "rbind (rbind m f) g = rbind m (\<lambda>x. rbind (f x) g)"
  by (cases m) auto

lemma unwrap_simps [simp]: "unwrap None = Panic" "unwrap (Some x) = Ok x"
  by (simp_all add: unwrap_def)

lemma unwrap_eq_Ok [simp, outc_simps]: "unwrap m = Ok x \<longleftrightarrow> m = Some x"
  by (cases m) auto

lemma unwrap_eq_Panic: "unwrap m = Panic \<longleftrightarrow> m = None"
  by (cases m) auto

lemma unwrap_neq_Err [simp]: "unwrap m \<noteq> Err e"
  by (cases m) auto

lemma ok_or_simps [simp]: "ok_or e None = Err e" "ok_or e (Some x) = Ok x"
  by (simp_all add: ok_or_def)

lemma ok_or_eq_Ok [simp, outc_simps]: "ok_or e m = Ok x \<longleftrightarrow> m = Some x"
  by (cases m) auto

lemma ok_or_neq_Panic [simp]: "ok_or e m \<noteq> Panic"
  by (cases m) auto

lemma nth_opt_eq_Some [simp]: "nth_opt xs i = Some x \<longleftrightarrow> i < length xs \<and> xs ! i = x"
  by (auto simp: nth_opt_def)

lemma nth_opt_eq_None [simp]: "nth_opt xs i = None \<longleftrightarrow> length xs \<le> i"
  by (auto simp: nth_opt_def)

lemma index_eq_Ok [simp, outc_simps]: "index xs i = Ok x \<longleftrightarrow> i < length xs \<and> xs ! i = x"
  by (simp add: index_def)

lemma index_eq_Panic [simp]: "index xs i = Panic \<longleftrightarrow> length xs \<le> i"
  by (simp add: index_def unwrap_eq_Panic)

lemma index_neq_Err [simp]: "index xs i \<noteq> Err e"
  by (simp add: index_def)

subsection \<open>Traversals\<close>

text \<open>\<open>iter().map(f).collect::<Result<Vec<_>, _>>()\<close>: stops at the first failure.\<close>

fun mapM :: "('a \<Rightarrow> ('e, 'b) outc) \<Rightarrow> 'a list \<Rightarrow> ('e, 'b list) outc" where
  "mapM f [] = Ok []"
| "mapM f (x # xs) = rbind (f x) (\<lambda>y. rbind (mapM f xs) (\<lambda>ys. Ok (y # ys)))"

text \<open>A \<open>for\<close> loop that threads a state and may return early with an error.\<close>

fun foldM :: "('a \<Rightarrow> 's \<Rightarrow> ('e, 's) outc) \<Rightarrow> 'a list \<Rightarrow> 's \<Rightarrow> ('e, 's) outc" where
  "foldM f [] s = Ok s"
| "foldM f (x # xs) s = rbind (f x s) (\<lambda>s'. foldM f xs s')"

text \<open>\<open>iter().position(p)\<close> with a predicate that may panic.\<close>

fun positionM :: "('a \<Rightarrow> ('e, bool) outc) \<Rightarrow> 'a list \<Rightarrow> ('e, nat option) outc" where
  "positionM p [] = Ok None"
| "positionM p (x # xs) = rbind (p x) (\<lambda>b. if b then Ok (Some 0)
      else rbind (positionM p xs) (\<lambda>i. Ok (map_option Suc i)))"

text \<open>\<open>iter().any(p)\<close> and \<open>iter().all(p)\<close>, short-circuiting.\<close>

fun anyM :: "('a \<Rightarrow> ('e, bool) outc) \<Rightarrow> 'a list \<Rightarrow> ('e, bool) outc" where
  "anyM p [] = Ok False"
| "anyM p (x # xs) = rbind (p x) (\<lambda>b. if b then Ok True else anyM p xs)"

fun allM :: "('a \<Rightarrow> ('e, bool) outc) \<Rightarrow> 'a list \<Rightarrow> ('e, bool) outc" where
  "allM p [] = Ok True"
| "allM p (x # xs) = rbind (p x) (\<lambda>b. if b then allM p xs else Ok False)"

text \<open>\<open>iter().filter(p).collect()\<close>.\<close>

fun filterM :: "('a \<Rightarrow> ('e, bool) outc) \<Rightarrow> 'a list \<Rightarrow> ('e, 'a list) outc" where
  "filterM p [] = Ok []"
| "filterM p (x # xs) = rbind (p x) (\<lambda>b. rbind (filterM p xs)
      (\<lambda>ys. Ok (if b then x # ys else ys)))"

text \<open>A loop that pushes a result per element, or skips the element with \<open>continue\<close>.\<close>

fun gatherM :: "('a \<Rightarrow> ('e, 'b option) outc) \<Rightarrow> 'a list \<Rightarrow> ('e, 'b list) outc" where
  "gatherM f [] = Ok []"
| "gatherM f (x # xs) = rbind (f x) (\<lambda>r. rbind (gatherM f xs)
      (\<lambda>ys. Ok (case r of None \<Rightarrow> ys | Some y \<Rightarrow> y # ys)))"

lemma gatherM_set: "gatherM f xs = Ok ys \<Longrightarrow> y \<in> set ys \<Longrightarrow> \<exists>x\<in>set xs. f x = Ok (Some y)"
  by (induction xs arbitrary: ys) (fastforce split: option.splits)+

lemma gatherM_total: "(\<And>x. x \<in> set xs \<Longrightarrow> f x \<noteq> Panic) \<Longrightarrow> gatherM f xs \<noteq> Panic"
  by (induction xs) (auto simp: rbind_eq_Panic)

lemma gatherM_cong [fundef_cong]:
  "xs = ys \<Longrightarrow> (\<And>x. x \<in> set ys \<Longrightarrow> f x = g x) \<Longrightarrow> gatherM f xs = gatherM g ys"
  by (induction ys arbitrary: xs) auto

lemma mapM_cong [fundef_cong]:
  "xs = ys \<Longrightarrow> (\<And>x. x \<in> set ys \<Longrightarrow> f x = g x) \<Longrightarrow> mapM f xs = mapM g ys"
  by (induction ys arbitrary: xs) auto

lemma anyM_cong [fundef_cong]:
  "xs = ys \<Longrightarrow> (\<And>x. x \<in> set ys \<Longrightarrow> f x = g x) \<Longrightarrow> anyM f xs = anyM g ys"
  by (induction ys arbitrary: xs) (auto intro!: rbind_cong)

lemma allM_cong [fundef_cong]:
  "xs = ys \<Longrightarrow> (\<And>x. x \<in> set ys \<Longrightarrow> f x = g x) \<Longrightarrow> allM f xs = allM g ys"
  by (induction ys arbitrary: xs) (auto intro!: rbind_cong)

lemma mapM_Ok_list_all2:
  "mapM f xs = Ok ys \<longleftrightarrow> list_all2 (\<lambda>x y. f x = Ok y) xs ys"
  by (induction xs arbitrary: ys) (auto simp: list_all2_Cons1)

lemma mapM_Ok_length: "mapM f xs = Ok ys \<Longrightarrow> length ys = length xs"
  by (auto simp: mapM_Ok_list_all2 dest: list_all2_lengthD)

lemma mapM_nth: "mapM f xs = Ok ys \<Longrightarrow> i < length xs \<Longrightarrow> f (xs ! i) = Ok (ys ! i)"
  by (auto simp: mapM_Ok_list_all2 list_all2_conv_all_nth)

lemma mapM_Ok_set: "mapM f xs = Ok ys \<Longrightarrow> y \<in> set ys \<Longrightarrow> \<exists>x\<in>set xs. f x = Ok y"
  by (induction xs arbitrary: ys) auto

lemma mapM_total: "(\<And>x. x \<in> set xs \<Longrightarrow> f x = Ok (g x)) \<Longrightarrow> mapM f xs = Ok (map g xs)"
  by (induction xs) auto

lemma mapM_Ok_mono:
  "mapM f xs = Ok ys \<Longrightarrow> (\<And>x y. x \<in> set xs \<Longrightarrow> f x = Ok y \<Longrightarrow> g x = Ok y) \<Longrightarrow> mapM g xs = Ok ys"
  by (induction xs arbitrary: ys) auto

lemma mapM_not_Panic: "(\<And>x. x \<in> set xs \<Longrightarrow> f x \<noteq> Panic) \<Longrightarrow> mapM f xs \<noteq> Panic"
  by (induction xs) (auto simp: rbind_eq_Panic)

lemma positionM_total:
  "(\<And>x. x \<in> set xs \<Longrightarrow> \<exists>b. p x = Ok b) \<Longrightarrow> \<exists>r. positionM p xs = Ok r"
proof (induction xs)
  case (Cons x xs)
  then obtain b r where "p x = Ok b" "positionM p xs = Ok r" by fastforce
  then show ?case by simp
qed simp

lemma positionM_Some:
  "positionM p xs = Ok (Some i) \<Longrightarrow>
    i < length xs \<and> p (xs ! i) = Ok True \<and> (\<forall>j<i. p (xs ! j) = Ok False)"
proof (induction xs arbitrary: i)
  case (Cons x xs)
  show ?case
  proof (cases "p x = Ok True")
    case True
    with Cons.prems show ?thesis by auto
  next
    case False
    with Cons.prems obtain k where k: "positionM p xs = Ok (Some k)" "i = Suc k" "p x = Ok False"
      by (auto split: if_splits)
    with Cons.IH [OF k(1)] show ?thesis by (auto simp: nth_Cons split: nat.splits)
  qed
qed simp

lemma positionM_None: "positionM p xs = Ok None \<Longrightarrow> x \<in> set xs \<Longrightarrow> p x = Ok False"
  by (induction xs) (auto split: if_splits)

lemma anyM_Ok_True: "anyM p xs = Ok True \<Longrightarrow> \<exists>x\<in>set xs. p x = Ok True"
  by (induction xs) (auto split: if_splits)

lemma anyM_Ok_False: "anyM p xs = Ok False \<Longrightarrow> x \<in> set xs \<Longrightarrow> p x = Ok False"
  by (induction xs) (auto split: if_splits)

lemma allM_Ok_True: "allM p xs = Ok True \<Longrightarrow> x \<in> set xs \<Longrightarrow> p x = Ok True"
  by (induction xs) (auto split: if_splits)

lemma allM_Ok_False: "allM p xs = Ok False \<Longrightarrow> \<exists>x\<in>set xs. p x = Ok False"
  by (induction xs) (auto split: if_splits)

lemma allM_True_iff: "allM p xs = Ok True \<longleftrightarrow> (\<forall>x\<in>set xs. p x = Ok True)"
  by (induction xs) (auto split: if_splits)

lemma anyM_TrueI:
  "(\<And>x. x \<in> set xs \<Longrightarrow> \<exists>b. p x = Ok b) \<Longrightarrow> x \<in> set xs \<Longrightarrow> p x = Ok True \<Longrightarrow> anyM p xs = Ok True"
proof (induction xs)
  case (Cons y ys)
  obtain b where b: "p y = Ok b" using Cons.prems(1) [of y] by auto
  show ?case
  proof (cases b)
    case False
    with b Cons.prems(2,3) have "x \<in> set ys" by auto
    moreover have "\<exists>b. p z = Ok b" if "z \<in> set ys" for z using Cons.prems(1) [of z] that by simp
    ultimately have "anyM p ys = Ok True" using Cons.IH Cons.prems(3) by blast
    with b False show ?thesis by simp
  qed (simp add: b)
qed simp

lemma anyM_total: "(\<And>x. x \<in> set xs \<Longrightarrow> \<exists>b. p x = Ok b) \<Longrightarrow> \<exists>b. anyM p xs = Ok b"
proof (induction xs)
  case (Cons x xs)
  then obtain b r where "p x = Ok b" "anyM p xs = Ok r" by fastforce
  then show ?case by (cases b) auto
qed auto

lemma allM_total: "(\<And>x. x \<in> set xs \<Longrightarrow> \<exists>b. p x = Ok b) \<Longrightarrow> \<exists>b. allM p xs = Ok b"
proof (induction xs)
  case (Cons x xs)
  then obtain b r where "p x = Ok b" "allM p xs = Ok r" by fastforce
  then show ?case by (cases b) auto
qed auto

lemma filterM_Ok: "filterM p xs = Ok ys \<Longrightarrow> ys = filter (\<lambda>x. p x = Ok True) xs"
  by (induction xs arbitrary: ys) auto

lemma foldM_invariant:
  assumes "foldM f xs s = Ok t" and "I s"
    and "\<And>x s s'. x \<in> set xs \<Longrightarrow> I s \<Longrightarrow> f x s = Ok s' \<Longrightarrow> I s'"
  shows "I t"
  using assms
proof (induction xs arbitrary: s)
  case (Cons x xs)
  then obtain s' where s': "f x s = Ok s'" "foldM f xs s' = Ok t" by auto
  show ?case
    by (rule Cons.IH [OF s'(2)]) (use Cons.prems s' in \<open>auto intro: Cons.prems(3)\<close>)
qed simp

subsection \<open>Machine integers\<close>

text \<open>
  \<open>i64\<close> values are integers with the range written out; the code only ever adds, subtracts,
  multiplies, divides and negates them with \<open>checked_*\<close>, which yields \<open>None\<close> out of range.
  Division and remainder truncate towards zero.
\<close>

definition i64_min :: int where "i64_min = - (2 ^ 63)"
definition i64_max :: int where "i64_max = 2 ^ 63 - 1"

definition in_i64 :: "int \<Rightarrow> bool" where
  "in_i64 i \<longleftrightarrow> i64_min \<le> i \<and> i \<le> i64_max"

definition checked_i64 :: "int \<Rightarrow> int option" where
  "checked_i64 i = (if in_i64 i then Some i else None)"

definition trunc_div :: "int \<Rightarrow> int \<Rightarrow> int" where
  "trunc_div a b = sgn a * sgn b * (\<bar>a\<bar> div \<bar>b\<bar>)"

definition trunc_rem :: "int \<Rightarrow> int \<Rightarrow> int" where
  "trunc_rem a b = sgn a * (\<bar>a\<bar> mod \<bar>b\<bar>)"

definition checked_add :: "int \<Rightarrow> int \<Rightarrow> int option" where
  "checked_add a b = checked_i64 (a + b)"
definition checked_sub :: "int \<Rightarrow> int \<Rightarrow> int option" where
  "checked_sub a b = checked_i64 (a - b)"
definition checked_mul :: "int \<Rightarrow> int \<Rightarrow> int option" where
  "checked_mul a b = checked_i64 (a * b)"
definition checked_neg :: "int \<Rightarrow> int option" where
  "checked_neg a = checked_i64 (- a)"

text \<open>\<open>checked_div\<close> and \<open>checked_rem\<close> are also \<open>None\<close> for \<open>i64::MIN\<close> by \<open>-1\<close>.\<close>

definition checked_div :: "int \<Rightarrow> int \<Rightarrow> int option" where
  "checked_div a b = (if b = 0 then None else checked_i64 (trunc_div a b))"
definition checked_rem :: "int \<Rightarrow> int \<Rightarrow> int option" where
  "checked_rem a b =
     (if b = 0 \<or> (a = i64_min \<and> b = -1) then None else Some (trunc_rem a b))"

lemma checked_i64_Some [simp]: "checked_i64 i = Some j \<longleftrightarrow> j = i \<and> in_i64 i"
  by (auto simp: checked_i64_def)

lemma checked_i64_None [simp]: "checked_i64 i = None \<longleftrightarrow> \<not> in_i64 i"
  by (auto simp: checked_i64_def)

lemmas checked_defs =
  checked_add_def checked_sub_def checked_mul_def checked_neg_def checked_div_def checked_rem_def

lemma trunc_div_rem: "b \<noteq> 0 \<Longrightarrow> trunc_div a b * b + trunc_rem a b = a"
proof -
  assume "b \<noteq> 0"
  have "trunc_div a b * b = sgn a * (\<bar>a\<bar> div \<bar>b\<bar> * \<bar>b\<bar>)"
    by (simp add: trunc_div_def abs_sgn mult.commute mult.left_commute)
  then have "trunc_div a b * b + trunc_rem a b = sgn a * (\<bar>a\<bar> div \<bar>b\<bar> * \<bar>b\<bar> + \<bar>a\<bar> mod \<bar>b\<bar>)"
    by (simp only: trunc_rem_def distrib_left)
  then show ?thesis by (simp only: div_mult_mod_eq sgn_mult_abs)
qed

lemma trunc_rem_abs: "b \<noteq> 0 \<Longrightarrow> \<bar>trunc_rem a b\<bar> < \<bar>b\<bar>"
  by (cases "a = 0") (simp_all add: trunc_rem_def abs_mult)

lemma trunc_rem_in_i64: "b \<noteq> 0 \<Longrightarrow> in_i64 b \<Longrightarrow> in_i64 (trunc_rem a b)"
  using trunc_rem_abs [of b a] by (auto simp: in_i64_def i64_min_def i64_max_def)

lemma checked_in_i64 [bounds_intros]:
  "checked_add a b = Some c \<Longrightarrow> in_i64 c"
  "checked_sub a b = Some c \<Longrightarrow> in_i64 c"
  "checked_mul a b = Some c \<Longrightarrow> in_i64 c"
  "checked_neg a = Some c \<Longrightarrow> in_i64 c"
  "checked_div a b = Some c \<Longrightarrow> in_i64 c"
  by (auto simp: checked_defs split: if_splits)

lemma checked_rem_in_i64 [bounds_intros]:
  "checked_rem a b = Some c \<Longrightarrow> in_i64 b \<Longrightarrow> in_i64 c"
  by (auto simp: checked_rem_def trunc_rem_in_i64 split: if_splits)

subsection \<open>Decimal text\<close>

text \<open>\<open>to_string\<close> of unsigned and signed integers.\<close>

definition digit_char :: "nat \<Rightarrow> char" where
  "digit_char d = char_of (48 + d)"

fun show_nat :: "nat \<Rightarrow> string" where
  "show_nat n = (if n < 10 then [digit_char n] else show_nat (n div 10) @ [digit_char (n mod 10)])"

declare show_nat.simps [simp del]

definition show_int :: "int \<Rightarrow> string" where
  "show_int i = (if i < 0 then CHR ''-'' # show_nat (nat (- i)) else show_nat (nat i))"

definition is_digit :: "char \<Rightarrow> bool" where
  "is_digit c \<longleftrightarrow> 48 \<le> (of_char c :: nat) \<and> (of_char c :: nat) \<le> 57"

definition digit_val :: "char \<Rightarrow> nat" where
  "digit_val c = of_char c - 48"

definition nat_of_digits :: "string \<Rightarrow> nat" where
  "nat_of_digits cs = foldl (\<lambda>n c. 10 * n + digit_val c) 0 cs"

text \<open>\<open>str::parse::<i64>\<close>: an optional sign, at least one digit, no overflow.\<close>

definition str_parse_i64 :: "string \<Rightarrow> int option" where
  "str_parse_i64 s = (let (neg, ds) = (case s of
        [] \<Rightarrow> (False, [])
      | c # cs \<Rightarrow> if c = CHR ''-'' then (True, cs) else if c = CHR ''+'' then (False, cs) else (False, s))
    in if ds = [] \<or> \<not> list_all is_digit ds then None
       else checked_i64 (if neg then - int (nat_of_digits ds) else int (nat_of_digits ds)))"

lemma digit_char_props:
  "d < 10 \<Longrightarrow> is_digit (digit_char d)" "d < 10 \<Longrightarrow> digit_val (digit_char d) = d"
  by (simp_all add: digit_char_def is_digit_def digit_val_def of_char_of take_bit_nat_eq_self)

lemma show_nat_digits: "\<forall>c\<in>set (show_nat n). is_digit c"
proof (induction n rule: show_nat.induct)
  case (1 n)
  then show ?case by (subst show_nat.simps) (auto simp: digit_char_props)
qed

lemma show_nat_not_Nil [simp]: "show_nat n \<noteq> []"
  by (subst show_nat.simps) simp

lemma nat_of_digits_snoc: "nat_of_digits (cs @ [c]) = 10 * nat_of_digits cs + digit_val c"
  by (simp add: nat_of_digits_def)

lemma nat_of_digits_show [simp]: "nat_of_digits (show_nat n) = n"
proof (induction n rule: show_nat.induct)
  case (1 n)
  show ?case
  proof (cases "n < 10")
    case True
    then show ?thesis
      by (subst show_nat.simps) (simp add: nat_of_digits_def digit_char_props)
  next
    case False
    with "1" show ?thesis
      by (subst show_nat.simps) (simp add: nat_of_digits_snoc digit_char_props)
  qed
qed

lemma show_nat_inj [simp]: "show_nat m = show_nat n \<longleftrightarrow> m = n"
  by (metis nat_of_digits_show)

text \<open>A run of digits followed by a non-digit can be split in one way only.\<close>

lemma digits_delim_unique:
  assumes "\<forall>c\<in>set xs. is_digit c" "\<forall>c\<in>set ys. is_digit c" "\<not> is_digit d" "\<not> is_digit d'"
    and "xs @ d # r = ys @ d' # r'"
  shows "xs = ys \<and> d = d' \<and> r = r'"
  using assms
proof (induction xs arbitrary: ys)
  case Nil
  then show ?case by (cases ys) auto
next
  case (Cons x xs)
  then show ?case by (cases ys) auto
qed

lemma show_nat_delim:
  assumes "\<not> is_digit d" "\<not> is_digit d'" "show_nat m @ d # r = show_nat n @ d' # r'"
  shows "m = n \<and> d = d' \<and> r = r'"
  using digits_delim_unique [OF show_nat_digits show_nat_digits assms] by simp

lemma show_nat_hd_digit: "is_digit (hd (show_nat n))"
  using show_nat_digits [of n] by (metis show_nat_not_Nil hd_in_set)

lemma minus_not_digit [simp]: "\<not> is_digit (CHR ''-'')"
  by (simp add: is_digit_def)

lemma show_nat_not_minus: "show_nat n @ t \<noteq> CHR ''-'' # s"
proof -
  obtain c cs where "show_nat n = c # cs" by (cases "show_nat n") auto
  moreover from this show_nat_hd_digit [of n] have "c \<noteq> CHR ''-''" by auto
  ultimately show ?thesis by simp
qed

lemma show_int_delim:
  assumes "\<not> is_digit d" "\<not> is_digit d'" and eq: "show_int i @ d # r = show_int j @ d' # r'"
  shows "i = j \<and> d = d' \<and> r = r'"
proof (cases "i < 0"; cases "j < 0")
  assume "i < 0" "j < 0"
  with eq show ?thesis
    using show_nat_delim [OF assms(1,2), of "nat (- i)" r "nat (- j)" r']
    by (auto simp: show_int_def)
next
  assume "\<not> i < 0" "\<not> j < 0"
  with eq show ?thesis
    using show_nat_delim [OF assms(1,2), of "nat i" r "nat j" r']
    by (auto simp: show_int_def)
next
  assume "i < 0" "\<not> j < 0"
  with eq show ?thesis
    using show_nat_not_minus [of "nat j" "d' # r'"] by (metis append_Cons show_int_def)
next
  assume "\<not> i < 0" "j < 0"
  with eq show ?thesis
    using show_nat_not_minus [of "nat i" "d # r"] by (metis append_Cons show_int_def)
qed

fun intercalate :: "string \<Rightarrow> string list \<Rightarrow> string" where
  "intercalate sep [] = []"
| "intercalate sep [x] = x"
| "intercalate sep (x # y # xs) = x @ sep @ intercalate sep (y # xs)"

end
