(* ===== verification/Ordered_Map.thy ===== *)
theory Ordered_Map
  imports Cir_Prelude
begin

text \<open>
  The \<open>BTreeMap\<close> and \<open>BTreeSet\<close> of the Rust standard library, which hold every table of the
  machine state: a map is the list of its entries in key order, a set the ordered list of its
  elements, so that iteration follows the list and equality is equality of lists. The locale
  \<open>ordered_map\<close> states what the code relies on (lookup after insert and remove, iteration in
  key order); \<open>bt\<close> interprets it on the list operations, and the later theories use its facts.
\<close>

subsection \<open>The interface\<close>

locale ordered_map =
  fixes get :: "'m \<Rightarrow> 'k::linorder \<Rightarrow> 'v option"
    and insert :: "'k \<Rightarrow> 'v \<Rightarrow> 'm \<Rightarrow> 'm"
    and remove :: "'k \<Rightarrow> 'm \<Rightarrow> 'm"
    and entries :: "'m \<Rightarrow> ('k \<times> 'v) list"
    and empty :: "'m"
    and ok :: "'m \<Rightarrow> bool"
  assumes get_empty: "get empty k = None"
    and get_insert: "get (insert k v m) k' = (if k' = k then Some v else get m k')"
    and get_remove: "get (remove k m) k' = (if k' = k then None else get m k')"
    and ok_empty: "ok empty"
    and ok_insert: "ok m \<Longrightarrow> ok (insert k v m)"
    and ok_remove: "ok m \<Longrightarrow> ok (remove k m)"
    and entries_get: "ok m \<Longrightarrow> (k, v) \<in> set (entries m) \<longleftrightarrow> get m k = Some v"
    and entries_sorted: "ok m \<Longrightarrow> sorted_wrt (<) (map fst (entries m))"
begin

definition contains_key :: "'m \<Rightarrow> 'k \<Rightarrow> bool" where
  "contains_key m k \<longleftrightarrow> get m k \<noteq> None"

lemma contains_insert: "contains_key (insert k v m) k' \<longleftrightarrow> k' = k \<or> contains_key m k'"
  by (simp add: contains_key_def get_insert)

lemma contains_remove: "contains_key (remove k m) k' \<longleftrightarrow> k' \<noteq> k \<and> contains_key m k'"
  by (simp add: contains_key_def get_remove)

lemma keys_distinct: "ok m \<Longrightarrow> distinct (map fst (entries m))"
  using entries_sorted strict_sorted_iff by blast

lemma keys_get: "ok m \<Longrightarrow> k \<in> set (map fst (entries m)) \<longleftrightarrow> contains_key m k"
  by (force simp: contains_key_def entries_get [symmetric])

lemma finite_keys: "ok m \<Longrightarrow> finite {k. contains_key m k}"
  by (rule finite_subset [of _ "set (map fst (entries m))"]) (use keys_get in auto)

text \<open>A predicate on all entries is kept by a removal and by an insertion that satisfies it.\<close>

definition all_entries :: "('k \<Rightarrow> 'v \<Rightarrow> bool) \<Rightarrow> 'm \<Rightarrow> bool" where
  "all_entries P m \<longleftrightarrow> (\<forall>k v. get m k = Some v \<longrightarrow> P k v)"

lemma all_empty: "all_entries P empty"
  by (simp add: all_entries_def get_empty)

lemma all_insert: "all_entries P m \<Longrightarrow> P k v \<Longrightarrow> all_entries P (insert k v m)"
  by (simp add: all_entries_def get_insert)

lemma all_remove: "all_entries P m \<Longrightarrow> all_entries P (remove k m)"
  by (simp add: all_entries_def get_remove)

lemma all_get: "all_entries P m \<Longrightarrow> get m k = Some v \<Longrightarrow> P k v"
  by (simp add: all_entries_def)

lemma all_mono: "all_entries P m \<Longrightarrow> (\<And>k v. P k v \<Longrightarrow> Q k v) \<Longrightarrow> all_entries Q m"
  by (simp add: all_entries_def)

text \<open>Two well-formed maps with the same lookups have the same entries: the order is canonical.\<close>

lemma entries_unique:
  assumes "ok m" "ok m'" "\<And>k. get m k = get m' k"
  shows "entries m = entries m'"
proof -
  have set: "set (entries m) = set (entries m')"
    using entries_get [OF assms(1)] entries_get [OF assms(2)] assms(3) by auto
  have keys: "map fst (entries m) = map fst (entries m')"
    using entries_sorted [OF assms(1)] entries_sorted [OF assms(2)] set
    by (metis list.set_map strict_sorted_equal)
  then have len: "length (entries m) = length (entries m')"
    by (metis length_map)
  show ?thesis
  proof (rule nth_equalityI [OF len])
    fix i assume i: "i < length (entries m)"
    let ?e = "entries m ! i" and ?e' = "entries m' ! i"
    have fst: "fst ?e = fst ?e'" using keys i len by (metis nth_map)
    have "(fst ?e, snd ?e) \<in> set (entries m)" "(fst ?e', snd ?e') \<in> set (entries m')"
      using i len by auto
    then have "get m (fst ?e) = Some (snd ?e)" "get m' (fst ?e') = Some (snd ?e')"
      using entries_get assms by blast+
    with fst assms(3) show "?e = ?e'" by (metis option.inject prod.collapse)
  qed
qed

end

subsection \<open>The list model\<close>

type_synonym ('k, 'v) btree = "('k \<times> 'v) list"

definition bt_get :: "('k, 'v) btree \<Rightarrow> 'k \<Rightarrow> 'v option" where
  "bt_get m k = map_of m k"

fun bt_insert :: "'k::linorder \<Rightarrow> 'v \<Rightarrow> ('k, 'v) btree \<Rightarrow> ('k, 'v) btree" where
  "bt_insert k v [] = [(k, v)]"
| "bt_insert k v ((a, b) # m) =
     (if k < a then (k, v) # (a, b) # m else if k = a then (k, v) # m
      else (a, b) # bt_insert k v m)"

definition bt_remove :: "'k \<Rightarrow> ('k, 'v) btree \<Rightarrow> ('k, 'v) btree" where
  "bt_remove k m = filter (\<lambda>p. fst p \<noteq> k) m"

definition bt_ok :: "('k::linorder, 'v) btree \<Rightarrow> bool" where
  "bt_ok m \<longleftrightarrow> sorted_wrt (<) (map fst m)"

definition bt_has :: "('k, 'v) btree \<Rightarrow> 'k \<Rightarrow> bool" where
  "bt_has m k \<longleftrightarrow> bt_get m k \<noteq> None"

text \<open>\<open>get_mut\<close> followed by an update of the value in place; nothing if the key is absent.\<close>

definition bt_adjust :: "'k::linorder \<Rightarrow> ('v \<Rightarrow> 'v) \<Rightarrow> ('k, 'v) btree \<Rightarrow> ('k, 'v) btree" where
  "bt_adjust k f m = (case bt_get m k of None \<Rightarrow> m | Some v \<Rightarrow> bt_insert k (f v) m)"

definition bt_retain :: "('k \<Rightarrow> 'v \<Rightarrow> bool) \<Rightarrow> ('k, 'v) btree \<Rightarrow> ('k, 'v) btree" where
  "bt_retain P m = filter (\<lambda>(k, v). P k v) m"

definition bt_keys :: "('k, 'v) btree \<Rightarrow> 'k list" where
  "bt_keys m = map fst m"

definition bt_values :: "('k, 'v) btree \<Rightarrow> 'v list" where
  "bt_values m = map snd m"

lemma bt_insert_get: "map_of (bt_insert k v m) = (map_of m)(k \<mapsto> v)"
  by (induction k v m rule: bt_insert.induct) (auto simp: fun_eq_iff)

lemma bt_remove_get: "map_of (bt_remove k m) k' = (if k' = k then None else map_of m k')"
  by (induction m) (auto simp: bt_remove_def)

lemma bt_insert_keys: "fst ` set (bt_insert k v m) = Set.insert k (fst ` set m)"
  by (induction k v m rule: bt_insert.induct) auto

lemma bt_insert_ok: "bt_ok m \<Longrightarrow> bt_ok (bt_insert k v m)"
proof (induction k v m rule: bt_insert.induct)
  case (2 k v a b m)
  have "x \<in> fst ` set (bt_insert k v m) \<Longrightarrow> \<not> k < a \<Longrightarrow> k \<noteq> a \<Longrightarrow> a < x" for x
    using "2.prems" by (auto simp: bt_insert_keys bt_ok_def)
  with "2" show ?case by (auto simp: bt_ok_def)
qed (simp add: bt_ok_def)

lemma bt_filter_ok: "bt_ok m \<Longrightarrow> bt_ok (filter P m)"
  by (induction m) (auto simp: bt_ok_def)

lemma bt_remove_ok: "bt_ok m \<Longrightarrow> bt_ok (bt_remove k m)"
  by (simp add: bt_remove_def bt_filter_ok)

lemma bt_ok_Nil: "bt_ok []"
  by (simp add: bt_ok_def)

lemma bt_ok_keys: "bt_ok m \<Longrightarrow> sorted_wrt (<) (map fst m)"
  by (simp add: bt_ok_def)

lemma bt_ok_set: "bt_ok m \<Longrightarrow> (k, v) \<in> set m \<longleftrightarrow> map_of m k = Some v"
  unfolding bt_ok_def by (metis map_of_eq_Some_iff strict_sorted_iff)

interpretation bt: ordered_map bt_get bt_insert bt_remove "\<lambda>m. m" "[]" bt_ok
proof unfold_locales
  fix m :: "('k::linorder, 'v) btree" and k v
  show "bt_ok m \<Longrightarrow> ((k, v) \<in> set m) = (bt_get m k = Some v)"
    by (simp add: bt_get_def bt_ok_set)
qed (simp_all add: bt_get_def bt_insert_get bt_remove_get bt_insert_ok bt_remove_ok bt_ok_Nil
      bt_ok_keys)

declare bt.get_empty [simp] bt.get_insert [simp] bt.get_remove [simp] bt.ok_empty [simp]
  bt.ok_insert [simp] bt.ok_remove [simp]

lemma bt_get_Nil [simp]: "bt_get [] k = None"
  by (simp add: bt_get_def)

lemma bt_has_insert [simp]: "bt_has (bt_insert k v m) k' \<longleftrightarrow> k' = k \<or> bt_has m k'"
  by (simp add: bt_has_def)

lemma bt_get_adjust [simp]:
  "bt_get (bt_adjust k f m) k' = (if k' = k then map_option f (bt_get m k) else bt_get m k')"
  by (auto simp: bt_adjust_def split: option.splits)

lemma bt_has_adjust [simp]: "bt_has (bt_adjust k f m) k' = bt_has m k'"
  by (auto simp: bt_has_def)

lemma bt_ok_adjust [simp]: "bt_ok m \<Longrightarrow> bt_ok (bt_adjust k f m)"
  by (auto simp: bt_adjust_def split: option.splits)

lemma bt_ok_retain [simp]: "bt_ok m \<Longrightarrow> bt_ok (bt_retain P m)"
  by (simp add: bt_retain_def bt_filter_ok)

lemma option_eqI: "(\<And>v. x = Some v \<longleftrightarrow> y = Some v) \<Longrightarrow> x = y"
  by (cases x; cases y) auto

lemma bt_get_retain:
  "bt_ok m \<Longrightarrow> bt_get (bt_retain P m) k =
    (case bt_get m k of Some v \<Rightarrow> if P k v then Some v else None | None \<Rightarrow> None)"
proof -
  assume ok: "bt_ok m"
  have "bt_get (bt_retain P m) k = Some v \<longleftrightarrow> bt_get m k = Some v \<and> P k v" for v
    using bt_ok_set [OF ok, of k v] bt_ok_set [OF bt_ok_retain [OF ok], of k v P]
    by (auto simp: bt_get_def bt_retain_def)
  then have iff: "bt_get (bt_retain P m) k = Some v \<longleftrightarrow>
      (case bt_get m k of Some v \<Rightarrow> if P k v then Some v else None | None \<Rightarrow> None) = Some v" for v
    by (auto split: option.splits)
  show ?thesis by (rule option_eqI) (use iff in blast)
qed

lemma bt_adjust_entries:
  "bt_ok m \<Longrightarrow> p \<in> set (bt_adjust k f m) \<Longrightarrow>
    p \<in> set m \<or> (\<exists>v. bt_get m k = Some v \<and> p = (k, f v))"
  by (cases p) (auto simp: bt.entries_get split: if_splits)

subsection \<open>Sets\<close>

text \<open>\<open>BTreeSet\<close>: the ordered list of the elements.\<close>

fun bs_insert :: "'k::linorder \<Rightarrow> 'k list \<Rightarrow> 'k list" where
  "bs_insert x [] = [x]"
| "bs_insert x (a # s) = (if x < a then x # a # s else if x = a then a # s else a # bs_insert x s)"

definition bs_remove :: "'k \<Rightarrow> 'k list \<Rightarrow> 'k list" where
  "bs_remove x s = filter (\<lambda>y. y \<noteq> x) s"

definition bs_ok :: "'k::linorder list \<Rightarrow> bool" where
  "bs_ok s \<longleftrightarrow> sorted_wrt (<) s"

lemma set_bs_insert [simp]: "set (bs_insert x s) = Set.insert x (set s)"
  by (induction x s rule: bs_insert.induct) auto

lemma set_bs_remove [simp]: "set (bs_remove x s) = set s - {x}"
  by (auto simp: bs_remove_def)

lemma bs_insert_ok: "bs_ok s \<Longrightarrow> bs_ok (bs_insert x s)"
  by (induction x s rule: bs_insert.induct) (auto simp: bs_ok_def)

lemma bs_remove_ok: "bs_ok s \<Longrightarrow> bs_ok (bs_remove x s)"
  by (simp add: bs_ok_def bs_remove_def sorted_wrt_filter)

end
