(* ===== verification/Sem_Outcome.thy ===== *)
theory Sem_Outcome
  imports Ordered_Map
begin

text \<open>
  Identifiers (\<open>src/src/sem/ids.rs\<close>) and outcomes, errors, analysis bounds, boundary events and
  step labels (\<open>src/src/sem/outcome.rs\<close>). Identifiers are natural numbers: they are only
  compared and allocated from counters. The human-readable message and detail texts of errors and
  boundary events are not modelled; codes, constructs and locations are.
\<close>

subsection \<open>Identifiers\<close>

type_synonym module_id = nat
type_synonym resource_id = nat
type_synonym function_id = nat
type_synonym statement_id = nat
type_synonym thread_id = nat
type_synonym frame_id = nat
type_synonym scope_id = nat
type_synonym handle_id = nat
type_synonym slot_id = nat

datatype slot_ref = Local slot_id | Shared resource_id | Discard

subsection \<open>Outcomes and errors\<close>

datatype outcome = Pass | Fail | Unknown | Invalid_Outcome | Unsupported_Outcome

fun outcome_as_str :: "outcome \<Rightarrow> string" where
  "outcome_as_str Pass = ''PASS''"
| "outcome_as_str Fail = ''FAIL''"
| "outcome_as_str Unknown = ''UNKNOWN''"
| "outcome_as_str Invalid_Outcome = ''INVALID''"
| "outcome_as_str Unsupported_Outcome = ''UNSUPPORTED''"

record unsupported_rec =
  un_construct :: string
  un_location :: "string option"

record invalid_rec =
  inv_code :: string
  inv_location :: "string option"

datatype backend_error = Unsupported unsupported_rec | Invalid invalid_rec

definition unsupported_new :: "string \<Rightarrow> unsupported_rec" where
  "unsupported_new c = \<lparr>un_construct = c, un_location = None\<rparr>"

definition invalid_new :: "string \<Rightarrow> invalid_rec" where
  "invalid_new c = \<lparr>inv_code = c, inv_location = None\<rparr>"

definition unsupported :: "string \<Rightarrow> backend_error" where
  "unsupported c = Unsupported (unsupported_new c)"

definition invalid :: "string \<Rightarrow> backend_error" where
  "invalid c = Invalid (invalid_new c)"

fun error_location :: "backend_error \<Rightarrow> string option" where
  "error_location (Unsupported u) = un_location u"
| "error_location (Invalid i) = inv_location i"

text \<open>\<open>BackendError::at\<close>: the first location attached wins.\<close>

fun error_at :: "string \<Rightarrow> backend_error \<Rightarrow> backend_error" where
  "error_at loc (Unsupported u) =
     Unsupported (if un_location u = None then u\<lparr>un_location := Some loc\<rparr> else u)"
| "error_at loc (Invalid i) =
     Invalid (if inv_location i = None then i\<lparr>inv_location := Some loc\<rparr> else i)"

type_synonym 'a backend_result = "(backend_error, 'a) outc"

lemma error_at_location: "error_location (error_at l e) = Some (case error_location e of None \<Rightarrow> l | Some l' \<Rightarrow> l')"
  by (cases e) (auto split: option.splits)

lemma error_at_idem: "error_at l' (error_at l e) = error_at l e"
  by (cases e) auto

subsection \<open>Analysis bounds and boundary events\<close>

record analysis_bounds =
  max_threads :: nat
  max_frames_per_thread :: nat
  max_states :: nat
  max_depth :: nat
  max_boundary_events :: nat

definition default_bounds :: analysis_bounds where
  "default_bounds = \<lparr>max_threads = 16, max_frames_per_thread = 32, max_states = 200000,
     max_depth = 400, max_boundary_events = 4096\<rparr>"

datatype boundary_kind = ThreadLimit | FrameLimit | StateLimit | DepthLimit | EventLimit | UnboundedData

record boundary_event =
  be_kind :: boundary_kind
  be_thread :: "thread_id option"
  be_frame :: "frame_id option"
  be_function :: "function_id option"

definition boundary_new :: "boundary_kind \<Rightarrow> boundary_event" where
  "boundary_new k = \<lparr>be_kind = k, be_thread = None, be_frame = None, be_function = None\<rparr>"

subsection \<open>Origins and labels of steps\<close>

datatype phase = Statement | Register | Rendezvous | Reacquire | Wake | Complete

record transition_origin =
  or_module :: module_id
  or_function :: function_id
  or_sid :: "nat option"
  or_phase :: phase

record step_label =
  lb_origin :: transition_origin
  lb_thread :: "thread_id option"
  lb_frame :: "frame_id option"

definition label_new :: "transition_origin \<Rightarrow> step_label" where
  "label_new og = \<lparr>lb_origin = og, lb_thread = None, lb_frame = None\<rparr>"

definition with_binding :: "thread_id \<Rightarrow> frame_id \<Rightarrow> step_label \<Rightarrow> step_label" where
  "with_binding t f l = l\<lparr>lb_thread := Some t, lb_frame := Some f\<rparr>"

end
