(* ===== verification/Sem_Value.thy ===== *)
theory Sem_Value
  imports Cir_Prelude "HOL-Library.Word" Sem_Outcome
begin

unbundle bit_operations_syntax

text \<open>
  Rust's \<open>f64\<close> as its 64-bit pattern (what \<open>to_bits\<close> returns): the operations the expression
  evaluator uses, with IEEE 754 binary64 semantics. A finite value is \<open>m * 2 ^ e\<close> with a sign;
  sums and products are computed exactly on integers and rounded to nearest, ties to even.
  The payload of a NaN produced by an operation is unspecified in Rust; the model returns the
  quiet NaN.
\<close>

type_synonym f64 = "64 word"

definition f64_sign :: "f64 \<Rightarrow> bool" where
  "f64_sign w = (2 ^ 63 \<le> uint w)"

definition f64_mag :: "f64 \<Rightarrow> int" where
  "f64_mag w = uint w mod 2 ^ 63"

definition f64_expo :: "f64 \<Rightarrow> int" where
  "f64_expo w = f64_mag w div 2 ^ 52"

definition f64_frac :: "f64 \<Rightarrow> int" where
  "f64_frac w = f64_mag w mod 2 ^ 52"

definition f64_is_nan :: "f64 \<Rightarrow> bool" where
  "f64_is_nan w \<longleftrightarrow> f64_expo w = 2047 \<and> f64_frac w \<noteq> 0"

definition f64_is_inf :: "f64 \<Rightarrow> bool" where
  "f64_is_inf w \<longleftrightarrow> f64_expo w = 2047 \<and> f64_frac w = 0"

definition f64_is_zero :: "f64 \<Rightarrow> bool" where
  "f64_is_zero w \<longleftrightarrow> f64_mag w = 0"

definition f64_pack :: "bool \<Rightarrow> int \<Rightarrow> f64" where
  "f64_pack s mag = word_of_int ((if s then 2 ^ 63 else 0) + mag)"

definition f64_nan :: f64 where "f64_nan = f64_pack False (2047 * 2 ^ 52 + 2 ^ 51)"
definition f64_inf :: "bool \<Rightarrow> f64" where "f64_inf s = f64_pack s (2047 * 2 ^ 52)"
definition f64_zero :: "bool \<Rightarrow> f64" where "f64_zero s = f64_pack s 0"

text \<open>Significand and exponent of a finite value.\<close>

definition f64_mant :: "f64 \<Rightarrow> int" where
  "f64_mant w = (if f64_expo w = 0 then f64_frac w else f64_frac w + 2 ^ 52)"

definition f64_exp :: "f64 \<Rightarrow> int" where
  "f64_exp w = (if f64_expo w = 0 then -1074 else f64_expo w - 1075)"

function bit_len :: "int \<Rightarrow> int" where
  "bit_len n = (if n \<le> 0 then 0 else 1 + bit_len (n div 2))"
  by pat_completeness auto
termination
  by (relation "measure nat") auto

declare bit_len.simps [simp del]

text \<open>
  The binary64 number nearest to \<open>num * 2 ^ e\<close>, plus a positive amount below \<open>2 ^ e\<close> when
  \<open>sticky\<close> holds (the remainder of a division).
\<close>

definition f64_round :: "bool \<Rightarrow> int \<Rightarrow> int \<Rightarrow> bool \<Rightarrow> f64" where
  "f64_round s num e sticky =
    (if num = 0 then f64_zero s
     else let q = max (-1074) (e + bit_len num - 53);
              m = (if q \<le> e then num * 2 ^ nat (e - q)
                   else let sh = nat (q - e); lo = num mod 2 ^ sh; half = 2 ^ (sh - 1);
                            hi = num div 2 ^ sh
                        in if half < lo \<or> (lo = half \<and> (sticky \<or> odd hi)) then hi + 1 else hi);
              (m', q') = (if m = 2 ^ 53 then (2 ^ 52, q + 1) else (m, q))
          in if 971 < q' then f64_inf s
             else if m' < 2 ^ 52 then f64_pack s m'
             else f64_pack s ((q' + 1075) * 2 ^ 52 + (m' - 2 ^ 52)))"

definition f64_neg :: "f64 \<Rightarrow> f64" where
  "f64_neg w = w XOR word_of_int (2 ^ 63)"

text \<open>The value of a finite number as an integer multiple of \<open>2 ^ e\<close>, for \<open>e\<close> at most its own.\<close>

definition f64_scaled :: "f64 \<Rightarrow> int \<Rightarrow> int" where
  "f64_scaled w e = (if f64_sign w then -1 else 1) * (f64_mant w * 2 ^ nat (f64_exp w - e))"

definition f64_add :: "f64 \<Rightarrow> f64 \<Rightarrow> f64" where
  "f64_add a b =
    (if f64_is_nan a \<or> f64_is_nan b then f64_nan
     else if f64_is_inf a then (if f64_is_inf b \<and> f64_sign a \<noteq> f64_sign b then f64_nan else a)
     else if f64_is_inf b then b
     else let e = min (f64_exp a) (f64_exp b); v = f64_scaled a e + f64_scaled b e
          in if v = 0 then f64_zero (f64_sign a \<and> f64_sign b)
             else f64_round (v < 0) \<bar>v\<bar> e False)"

definition f64_sub :: "f64 \<Rightarrow> f64 \<Rightarrow> f64" where
  "f64_sub a b = (if f64_is_nan a \<or> f64_is_nan b then f64_nan else f64_add a (f64_neg b))"

definition f64_mul :: "f64 \<Rightarrow> f64 \<Rightarrow> f64" where
  "f64_mul a b =
    (let s = (f64_sign a \<noteq> f64_sign b)
     in if f64_is_nan a \<or> f64_is_nan b then f64_nan
        else if f64_is_inf a then (if f64_is_zero b then f64_nan else f64_inf s)
        else if f64_is_inf b then (if f64_is_zero a then f64_nan else f64_inf s)
        else f64_round s (f64_mant a * f64_mant b) (f64_exp a + f64_exp b) False)"

definition f64_div :: "f64 \<Rightarrow> f64 \<Rightarrow> f64" where
  "f64_div a b =
    (let s = (f64_sign a \<noteq> f64_sign b)
     in if f64_is_nan a \<or> f64_is_nan b then f64_nan
        else if f64_is_inf a then (if f64_is_inf b then f64_nan else f64_inf s)
        else if f64_is_inf b then f64_zero s
        else if f64_is_zero b then (if f64_is_zero a then f64_nan else f64_inf s)
        else let num = f64_mant a * 2 ^ 110; d = f64_mant b
             in f64_round s (num div d) (f64_exp a - f64_exp b - 110) (num mod d \<noteq> 0))"

text \<open>\<open>%\<close> on floats is \<open>fmod\<close>: exact, with the sign of the dividend.\<close>

definition f64_rem :: "f64 \<Rightarrow> f64 \<Rightarrow> f64" where
  "f64_rem a b =
    (if f64_is_nan a \<or> f64_is_nan b \<or> f64_is_inf a \<or> f64_is_zero b then f64_nan
     else if f64_is_inf b then a
     else let e = min (f64_exp a) (f64_exp b);
              r = \<bar>f64_scaled a e\<bar> mod \<bar>f64_scaled b e\<bar>
          in f64_round (f64_sign a) r e False)"

text \<open>\<open>partial_cmp\<close>: \<open>None\<close> when a NaN is involved; the two zeros are equal.\<close>

datatype ordering = Less | Equal | Greater

definition cmp_of :: "'a::linorder \<Rightarrow> 'a \<Rightarrow> ordering" where
  "cmp_of a b = (if a < b then Less else if a = b then Equal else Greater)"

definition f64_key :: "f64 \<Rightarrow> int" where
  "f64_key w = (if f64_sign w then - f64_mag w else f64_mag w)"

definition f64_cmp :: "f64 \<Rightarrow> f64 \<Rightarrow> ordering option" where
  "f64_cmp a b =
    (if f64_is_nan a \<or> f64_is_nan b then None else Some (cmp_of (f64_key a) (f64_key b)))"

lemma cmp_of_simps [simp]:
  "cmp_of a b = Less \<longleftrightarrow> a < b" "cmp_of a b = Equal \<longleftrightarrow> a = b" "cmp_of a b = Greater \<longleftrightarrow> b < a"
  by (auto simp: cmp_of_def)

lemma f64_neg_neg: "f64_neg (f64_neg w) = w"
  by (simp add: f64_neg_def xor.assoc)

lemma f64_cmp_refl: "\<not> f64_is_nan a \<Longrightarrow> f64_cmp a a = Some Equal"
  by (simp add: f64_cmp_def)

lemma f64_cmp_swap:
  "f64_cmp a b = Some Less \<longleftrightarrow> f64_cmp b a = Some Greater"
  by (auto simp: f64_cmp_def)

section \<open>Values\<close>

text \<open>
  Runtime values and declared types (\<open>src/src/sem/value.rs\<close>; the type syntax is that of
  \<open>src/src/ast.rs\<close>): the domain check \<open>within_type\<close>, default values, conversion of JSON
  literals, the display text \<open>canonical\<close> and the semantic encoding \<open>value_key\<close>.
  Strings are the bytes of the Rust string; floats are bit patterns, which is also how the code
  compares them.
\<close>

subsection \<open>Types and values\<close>

datatype base_type =
    Primitive string
  | EnumT "string list"
  | StructT "(string \<times> base_type) list"
  | ArrayT base_type int
  | BoundedInt int int

datatype cvalue =
    VBool bool
  | VInt int
  | VFloat f64
  | VStr string
  | VEnum string
  | VStruct "(string \<times> cvalue) list"
  | VArray "cvalue list"

fun as_bool :: "cvalue \<Rightarrow> bool option" where
  "as_bool (VBool b) = Some b"
| "as_bool _ = None"

fun as_int :: "cvalue \<Rightarrow> int option" where
  "as_int (VInt i) = Some i"
| "as_int _ = None"

fun as_str :: "cvalue \<Rightarrow> string option" where
  "as_str (VStr s) = Some s"
| "as_str (VEnum s) = Some s"
| "as_str _ = None"

subsection \<open>The declared domain\<close>

definition within_primitive :: "cvalue \<Rightarrow> string \<Rightarrow> bool" where
  "within_primitive v p =
    (if p = ''Bool'' then (case v of VBool _ \<Rightarrow> True | _ \<Rightarrow> False)
     else if p = ''Int'' then (case v of VInt _ \<Rightarrow> True | _ \<Rightarrow> False)
     else if p = ''Float'' then (case v of VFloat _ \<Rightarrow> True | _ \<Rightarrow> False)
     else if p = ''String'' then (case v of VStr _ \<Rightarrow> True | _ \<Rightarrow> False)
     else True)"

fun within_type :: "cvalue \<Rightarrow> base_type \<Rightarrow> bool" where
  "within_type v (Primitive p) = within_primitive v p"
| "within_type v (BoundedInt lo hi) =
     (case v of VInt i \<Rightarrow> lo \<le> i \<and> i \<le> hi | _ \<Rightarrow> False)"
| "within_type v (EnumT vars) = (case v of VEnum e \<Rightarrow> e \<in> set vars | _ \<Rightarrow> False)"
| "within_type v (StructT flds) =
     (case v of VStruct m \<Rightarrow> length m = length flds \<and>
        list_all (\<lambda>kt. case bt_get m (fst kt) of Some x \<Rightarrow> within_type x (snd kt) | None \<Rightarrow> False) flds
      | _ \<Rightarrow> False)"
| "within_type v (ArrayT elem len) =
     (case v of VArray items \<Rightarrow> length items = nat (max 0 len) \<and>
        list_all (\<lambda>x. within_type x elem) items
      | _ \<Rightarrow> False)"

subsection \<open>Default values\<close>

text \<open>\<open>i64::clamp\<close> panics when the bounds are inverted.\<close>

definition clamp_i64 :: "int \<Rightarrow> int \<Rightarrow> int \<Rightarrow> int backend_result" where
  "clamp_i64 x lo hi = (if lo \<le> hi then Ok (if x < lo then lo else if hi < x then hi else x) else Panic)"

definition default_primitive :: "string \<Rightarrow> cvalue" where
  "default_primitive p =
    (if p = ''Bool'' then VBool False
     else if p = ''Int'' then VInt 0
     else if p = ''Float'' then VFloat 0
     else if p = ''String'' then VStr []
     else VInt 0)"

fun default_value :: "base_type \<Rightarrow> cvalue backend_result" where
  "default_value (Primitive p) = Ok (default_primitive p)"
| "default_value (EnumT vars) = Ok (VEnum (case vars of [] \<Rightarrow> [] | v # _ \<Rightarrow> v))"
| "default_value (StructT flds) =
     rbind (mapM (\<lambda>kt. rbind (default_value (snd kt)) (\<lambda>v. Ok (fst kt, v))) flds)
       (\<lambda>m. Ok (VStruct (fold (\<lambda>(k, v). bt_insert k v) m [])))"
| "default_value (ArrayT elem len) =
     rbind (mapM (\<lambda>_. default_value elem) [0..<nat (max 0 len)]) (\<lambda>vs. Ok (VArray vs))"
| "default_value (BoundedInt lo hi) = rbind (clamp_i64 0 lo hi) (\<lambda>i. Ok (VInt i))"

subsection \<open>JSON literals\<close>

text \<open>
  \<open>serde_json::Value\<close> belongs to a third-party crate: its accessors are a parameter.
\<close>

record 'j json_api =
  j_as_bool :: "'j \<Rightarrow> bool option"
  j_as_i64 :: "'j \<Rightarrow> int option"
  j_as_f64 :: "'j \<Rightarrow> f64 option"
  j_as_str :: "'j \<Rightarrow> string option"
  j_as_object :: "'j \<Rightarrow> (string \<times> 'j) list option"
  j_as_array :: "'j \<Rightarrow> 'j list option"

text \<open>The failure of \<open>from_json\<close> is a message; its callers turn every failure into one code.\<close>

definition from_json_primitive :: "('j, 'x) json_api_scheme \<Rightarrow> 'j \<Rightarrow> string \<Rightarrow> (unit, cvalue) outc" where
  "from_json_primitive A j p =
    (if p = ''Bool'' then ok_or () (map_option VBool (j_as_bool A j))
     else if p = ''Int'' then ok_or () (map_option VInt (j_as_i64 A j))
     else if p = ''Float'' then ok_or () (map_option VFloat (j_as_f64 A j))
     else if p = ''String'' then ok_or () (map_option VStr (j_as_str A j))
     else Err ())"

fun from_json :: "('j, 'x) json_api_scheme \<Rightarrow> 'j \<Rightarrow> base_type \<Rightarrow> (unit, cvalue) outc" where
  "from_json A j (Primitive p) = from_json_primitive A j p"
| "from_json A j (BoundedInt lo hi) =
     rbind (ok_or () (j_as_i64 A j)) (\<lambda>i. if i < lo \<or> hi < i then Err () else Ok (VInt i))"
| "from_json A j (EnumT vars) =
     rbind (ok_or () (j_as_str A j)) (\<lambda>s. if s \<notin> set vars then Err () else Ok (VEnum s))"
| "from_json A j (StructT flds) =
     rbind (ok_or () (j_as_object A j)) (\<lambda>obj.
       rbind (mapM (\<lambda>kt. rbind (ok_or () (map_of obj (fst kt)))
                (\<lambda>f. rbind (from_json A f (snd kt)) (\<lambda>v. Ok (fst kt, v)))) flds)
         (\<lambda>m. Ok (VStruct (fold (\<lambda>(k, v). bt_insert k v) m []))))"
| "from_json A j (ArrayT elem len) =
     rbind (ok_or () (j_as_array A j)) (\<lambda>arr.
       if int (length arr) \<noteq> len then Err ()
       else rbind (mapM (\<lambda>x. from_json A x elem) arr) (\<lambda>vs. Ok (VArray vs)))"

subsection \<open>Display text\<close>

text \<open>\<open>serde_json::to_string\<close> on a string (quoting and escaping) is the parameter \<open>esc\<close>.\<close>

fun canonical :: "(string \<Rightarrow> string) \<Rightarrow> cvalue \<Rightarrow> string" where
  "canonical esc (VBool b) = (if b then ''true'' else ''false'')"
| "canonical esc (VInt i) = show_int i"
| "canonical esc (VFloat f) = ''f'' @ show_int (uint f)"
| "canonical esc (VStr s) = esc s"
| "canonical esc (VEnum e) = ''#'' @ e"
| "canonical esc (VStruct fs) =
     ''{'' @ intercalate '','' (map (\<lambda>kv. esc (fst kv) @ '':'' @ canonical esc (snd kv)) fs) @ ''}''"
| "canonical esc (VArray vs) = ''['' @ intercalate '','' (map (canonical esc) vs) @ '']''"

subsection \<open>The semantic key\<close>

definition key_str :: "string \<Rightarrow> string" where
  "key_str s = show_nat (length s) @ '':'' @ s"

fun value_key :: "cvalue \<Rightarrow> string" where
  "value_key (VBool b) = ''B'' @ (if b then ''1'' else ''0'')"
| "value_key (VInt i) = ''I'' @ show_int i @ '';''"
| "value_key (VFloat f) = ''F'' @ show_int (uint f) @ '';''"
| "value_key (VStr s) = ''T'' @ key_str s"
| "value_key (VEnum e) = ''E'' @ key_str e"
| "value_key (VStruct fs) = ''S'' @ show_nat (length fs) @ ''['' @
     concat (map (\<lambda>kv. key_str (fst kv) @ ''='' @ value_key (snd kv) @ '';'') fs) @ '']''"
| "value_key (VArray vs) = ''A'' @ show_nat (length vs) @ ''['' @
     concat (map (\<lambda>v. value_key v @ '';'') vs) @ '']''"

end
