(* ===== verification/Value_Laws.thy ===== *)
theory Value_Laws
  imports Sem_Value
begin

text \<open>
  Laws of values: the semantic key is prefix-free (so keys can be concatenated and equal keys
  mean equal values), default values and converted JSON literals lie in the declared domain of a
  well-formed type, and the domain check reaches into composites.
\<close>

subsection \<open>The key encoding\<close>

lemma key_str_prefix_free: "key_str s @ r = key_str t @ r' \<Longrightarrow> s = t \<and> r = r'"
proof -
  assume "key_str s @ r = key_str t @ r'"
  then have "show_nat (length s) @ CHR '':'' # s @ r = show_nat (length t) @ CHR '':'' # t @ r'"
    by (simp add: key_str_def)
  from show_nat_delim [OF _ _ this] have "length s = length t" "s @ r = t @ r'"
    by (simp_all add: is_digit_def)
  then show ?thesis by simp
qed

text \<open>A sequence of items, each encoded without ambiguity, is unambiguous once its length is known.\<close>

lemma concat_prefix_free:
  assumes "\<And>x y s s'. x \<in> set xs \<Longrightarrow> enc x @ s = enc y @ s' \<Longrightarrow> x = y \<and> s = s'"
    and "length xs = length ys" and "concat (map enc xs) @ r = concat (map enc ys) @ r'"
  shows "xs = ys \<and> r = r'"
  using assms
proof (induction xs arbitrary: ys)
  case (Cons x xs)
  then obtain y ys' where ys: "ys = y # ys'" by (cases ys) auto
  with Cons.prems(3) have "enc x @ concat (map enc xs) @ r = enc y @ concat (map enc ys') @ r'"
    by simp
  with Cons.prems(1) have xy: "x = y" and rest: "concat (map enc xs) @ r = concat (map enc ys') @ r'"
    by auto
  have "xs = ys' \<and> r = r'"
    by (rule Cons.IH) (use Cons.prems(1,2) ys rest in auto)
  with xy ys show ?case by simp
qed simp

lemma counted_prefix_free:
  assumes "\<And>x y s s'. x \<in> set xs \<Longrightarrow> enc x @ s = enc y @ s' \<Longrightarrow> x = y \<and> s = s'"
    and "show_nat (length xs) @ CHR ''['' # concat (map enc xs) @ r =
         show_nat (length ys) @ CHR ''['' # concat (map enc ys) @ r'"
  shows "xs = ys \<and> r = r'"
proof -
  from show_nat_delim [OF _ _ assms(2)]
  have "length xs = length ys" "concat (map enc xs) @ r = concat (map enc ys) @ r'"
    by (simp_all add: is_digit_def)
  with assms(1) show ?thesis by (rule concat_prefix_free)
qed

lemma value_key_prefix_free:
  "value_key v @ r = value_key w @ r' \<Longrightarrow> v = w \<and> r = r'"
proof (induction v arbitrary: w r r')
  case (VBool b)
  then show ?case by (cases w) (auto split: if_splits)
next
  case (VInt i)
  then show ?case
    by (cases w) (auto simp: is_digit_def dest!: show_int_delim [rotated 2] split: if_splits)
next
  case (VFloat f)
  then show ?case
    by (cases w) (auto simp: is_digit_def word_uint_eq_iff dest!: show_int_delim [rotated 2]
        split: if_splits)
next
  case (VStr s)
  then show ?case by (cases w) (auto dest!: key_str_prefix_free split: if_splits)
next
  case (VEnum e)
  then show ?case by (cases w) (auto dest!: key_str_prefix_free split: if_splits)
next
  case (VStruct fs)
  let ?enc = "\<lambda>kv. key_str (fst kv) @ ''='' @ value_key (snd kv) @ '';''"
  obtain gs where w: "w = VStruct gs" using VStruct.prems by (cases w) (auto split: if_splits)
  have item: "x = y \<and> s = s'" if "x \<in> set fs" "?enc x @ s = ?enc y @ s'" for x y s s'
  proof -
    from that(2) have "key_str (fst x) @ CHR ''='' # value_key (snd x) @ CHR '';'' # s =
        key_str (fst y) @ CHR ''='' # value_key (snd y) @ CHR '';'' # s'" by simp
    from key_str_prefix_free [OF this]
    have k: "fst x = fst y" and
      v: "value_key (snd x) @ CHR '';'' # s = value_key (snd y) @ CHR '';'' # s'" by auto
    have "snd x \<in> Basic_BNFs.snds x" by (cases x) simp
    from VStruct.IH [OF that(1) this v] k show ?thesis by (simp add: prod_eq_iff)
  qed
  have eq: "show_nat (length fs) @ CHR ''['' # concat (map ?enc fs) @ CHR '']'' # r =
      show_nat (length gs) @ CHR ''['' # concat (map ?enc gs) @ CHR '']'' # r'"
    using VStruct.prems w by simp
  from counted_prefix_free [OF item eq] w show ?case by simp
next
  case (VArray vs)
  let ?enc = "\<lambda>v. value_key v @ '';''"
  obtain ws where w: "w = VArray ws" using VArray.prems by (cases w) (auto split: if_splits)
  have item: "x = y \<and> s = s'" if "x \<in> set vs" "?enc x @ s = ?enc y @ s'" for x y s s'
  proof -
    from that(2) have "value_key x @ CHR '';'' # s = value_key y @ CHR '';'' # s'" by simp
    from VArray.IH [OF that(1) this] show ?thesis by simp
  qed
  have eq: "show_nat (length vs) @ CHR ''['' # concat (map ?enc vs) @ CHR '']'' # r =
      show_nat (length ws) @ CHR ''['' # concat (map ?enc ws) @ CHR '']'' # r'"
    using VArray.prems w by simp
  from counted_prefix_free [OF item eq] w show ?case by simp
qed

subsection \<open>Well-formed types\<close>

text \<open>
  What the deserialiser of \<open>src/src/ast.rs\<close> guarantees of a type (bounds in order, field maps
  with ordered distinct names), plus enums with at least one variant.
\<close>

fun wf_type :: "base_type \<Rightarrow> bool" where
  "wf_type (Primitive p) = True"
| "wf_type (BoundedInt lo hi) = (lo \<le> hi)"
| "wf_type (EnumT vars) = (vars \<noteq> [])"
| "wf_type (StructT flds) = (bt_ok flds \<and> list_all (\<lambda>kt. wf_type (snd kt)) flds)"
| "wf_type (ArrayT elem len) = wf_type elem"

lemma bt_insert_append:
  "bt_ok (m @ [(k, v)]) \<Longrightarrow> bt_insert k v m = m @ [(k, v)]"
  by (induction k v m rule: bt_insert.induct)
    (auto simp: bt_ok_def sorted_wrt_append)

lemma fold_bt_insert_sorted:
  "bt_ok (acc @ m) \<Longrightarrow> fold (\<lambda>(k, v). bt_insert k v) m acc = acc @ m"
proof (induction m arbitrary: acc)
  case (Cons p m)
  obtain k v where p: "p = (k, v)" by (cases p)
  from Cons.prems have "bt_ok (acc @ [p])"
    by (auto simp: bt_ok_def sorted_wrt_append)
  with p have "bt_insert k v acc = acc @ [p]" by (simp add: bt_insert_append)
  with Cons.IH [of "acc @ [p]"] Cons.prems p show ?case by simp
qed simp

lemma collect_fields:
  "bt_ok flds \<Longrightarrow> list_all2 (\<lambda>kt kv. fst kv = fst kt) flds m \<Longrightarrow>
    fold (\<lambda>(k, v). bt_insert k v) m [] = m"
proof -
  assume ok: "bt_ok flds" and all: "list_all2 (\<lambda>kt kv. fst kv = fst kt) flds m"
  from all have "map fst m = map fst flds"
    by (induction rule: list_all2_induct) auto
  with ok have "bt_ok m" by (simp add: bt_ok_def)
  then show ?thesis using fold_bt_insert_sorted [of "[]" m] by simp
qed

lemma struct_within:
  assumes "bt_ok flds"
    and "list_all2 (\<lambda>kt kv. fst kv = fst kt \<and> within_type (snd kv) (snd kt)) flds m"
  shows "within_type (VStruct m) (StructT flds)"
proof -
  have keys: "map fst m = map fst flds"
    using assms(2) by (induction rule: list_all2_induct) auto
  have dist: "distinct (map fst m)"
    using assms(1) keys by (simp add: bt_ok_def strict_sorted_iff)
  have "\<exists>x. bt_get m (fst kt) = Some x \<and> within_type x (snd kt)" if kt: "kt \<in> set flds" for kt
  proof -
    obtain i where i: "i < length flds" "flds ! i = kt" using kt by (auto simp: in_set_conv_nth)
    with assms(2) have e: "fst (m ! i) = fst kt" "within_type (snd (m ! i)) (snd kt)" "i < length m"
      by (auto simp: list_all2_conv_all_nth)
    then have "bt_get m (fst kt) = Some (snd (m ! i))"
      unfolding bt_get_def using dist by (intro map_of_is_SomeI) (auto simp flip: e(1))
    with e show ?thesis by simp
  qed
  then show ?thesis
    using list_all2_lengthD [OF assms(2)] by (fastforce simp: list_all_iff split: option.splits)
qed

lemma within_primitive_default: "within_primitive (default_primitive p) p"
  by (auto simp: within_primitive_def default_primitive_def)

lemma default_value_within:
  "wf_type t \<Longrightarrow> \<exists>v. default_value t = Ok v \<and> within_type v t"
proof (induction t)
  case (Primitive p)
  then show ?case by (simp add: within_primitive_default)
next
  case (EnumT vars)
  then show ?case by (cases vars) auto
next
  case (BoundedInt lo hi)
  then show ?case by (auto simp: clamp_i64_def)
next
  case (ArrayT elem len)
  then obtain v where v: "default_value elem = Ok v" "within_type v elem" by auto
  have "mapM (\<lambda>_. default_value elem) [0..<nat (max 0 len)] = Ok (map (\<lambda>_. v) [0..<nat (max 0 len)])"
    by (rule mapM_total) (simp add: v)
  with v show ?case by (auto simp: list_all_iff)
next
  case (StructT flds)
  have each: "\<exists>v. default_value (snd kt) = Ok v \<and> within_type v (snd kt)" if "kt \<in> set flds" for kt
    using StructT.IH [of kt "snd kt"] StructT.prems that
    by (cases kt) (auto simp: list_all_iff)
  define dv where "dv kt = (SOME v. default_value (snd kt) = Ok v \<and> within_type v (snd kt))"
    for kt :: "string \<times> base_type"
  have dv: "default_value (snd kt) = Ok (dv kt) \<and> within_type (dv kt) (snd kt)" if "kt \<in> set flds" for kt
    unfolding dv_def by (rule someI_ex) (rule each [OF that])
  let ?m = "map (\<lambda>kt. (fst kt, dv kt)) flds"
  have m: "mapM (\<lambda>kt. rbind (default_value (snd kt)) (\<lambda>v. Ok (fst kt, v))) flds = Ok ?m"
    by (rule mapM_total) (simp add: dv)
  have ok: "bt_ok flds" using StructT.prems by simp
  have "fold (\<lambda>(k, v). bt_insert k v) ?m [] = ?m"
    by (rule collect_fields [OF ok]) (auto simp: list_all2_conv_all_nth)
  moreover have "within_type (VStruct ?m) (StructT flds)"
    by (rule struct_within [OF ok]) (auto simp: list_all2_conv_all_nth dv)
  ultimately show ?case using m by simp
qed

lemma from_json_within:
  "from_json A j t = Ok v \<Longrightarrow> wf_type t \<Longrightarrow> within_type v t"
proof (induction t arbitrary: j v)
  case (Primitive p)
  then show ?case
    by (auto simp: from_json_primitive_def within_primitive_def split: if_splits)
next
  case (EnumT vars)
  then show ?case by (auto split: if_splits)
next
  case (BoundedInt lo hi)
  then show ?case by (auto split: if_splits)
next
  case (ArrayT elem len)
  then obtain arr vs where "int (length arr) = len" and vs: "mapM (\<lambda>x. from_json A x elem) arr = Ok vs"
    and v: "v = VArray vs" by (auto split: if_splits)
  moreover have "within_type y elem" if "y \<in> set vs" for y
    using mapM_Ok_set [OF vs that] ArrayT by auto
  ultimately show ?case by (auto simp: list_all_iff mapM_Ok_length [OF vs])
next
  case (StructT flds)
  then obtain obj m where
    m: "mapM (\<lambda>kt. rbind (ok_or () (map_of obj (fst kt)))
          (\<lambda>f. rbind (from_json A f (snd kt)) (\<lambda>v. Ok (fst kt, v)))) flds = Ok m"
    and v: "v = VStruct (fold (\<lambda>(k, v). bt_insert k v) m [])"
    by auto
  have ok: "bt_ok flds" using StructT.prems by simp
  have "fst (m ! i) = fst (flds ! i) \<and> within_type (snd (m ! i)) (snd (flds ! i))"
    if "i < length flds" for i
  proof -
    from m that have "rbind (ok_or () (map_of obj (fst (flds ! i))))
        (\<lambda>f. rbind (from_json A f (snd (flds ! i))) (\<lambda>v. Ok (fst (flds ! i), v))) = Ok (m ! i)"
      by (simp add: mapM_Ok_list_all2 list_all2_conv_all_nth)
    then obtain f u where "from_json A f (snd (flds ! i)) = Ok u" "m ! i = (fst (flds ! i), u)" by auto
    moreover have "flds ! i \<in> set flds" "wf_type (snd (flds ! i))"
      using that StructT.prems by (auto simp: list_all_iff)
    ultimately show ?thesis
      using StructT.IH [of "flds ! i" "snd (flds ! i)" f u] by (cases "flds ! i") auto
  qed
  then have all: "list_all2 (\<lambda>kt kv. fst kv = fst kt \<and> within_type (snd kv) (snd kt)) flds m"
    using mapM_Ok_length [OF m] by (auto simp: list_all2_conv_all_nth)
  have "fold (\<lambda>(k, v). bt_insert k v) m [] = m"
    by (rule collect_fields [OF ok]) (rule list_all2_mono [OF all], simp)
  with struct_within [OF ok all] v show ?case by simp
qed

text \<open>A member of a composite value that is in its domain is in the member's domain.\<close>

lemma within_struct_field:
  "within_type (VStruct m) (StructT flds) \<Longrightarrow> (k, t) \<in> set flds \<Longrightarrow>
    \<exists>x. bt_get m k = Some x \<and> within_type x t"
  by (auto simp: list_all_iff split: option.splits)

lemma within_array_elem:
  "within_type (VArray vs) (ArrayT elem len) \<Longrightarrow> x \<in> set vs \<Longrightarrow> within_type x elem"
  by (auto simp: list_all_iff)

end
