(* ===== verification/Sem_Eval.thy ===== *)
theory Sem_Eval
  imports Value_Laws
begin

text \<open>
  Lowered expressions and their evaluation (\<open>src/src/sem/eval.rs\<close>; the operators and literals
  are those of \<open>src/src/expr.rs\<close>). The store is read through the two functions of the trait
  \<open>ValueStore\<close>, which are arguments of \<open>eval\<close>. The \<open>at\<close> argument of the code only occurs in
  message texts and is dropped.
\<close>

datatype bin_op = Add | Sub | Mul | Div | Mod
datatype cmp_op = CEq | CNe | CLt | CLe | CGt | CGe

datatype lit = LBool bool | LInt int | LFloat f64 | LString string | LEnum string

datatype lexpr =
    Lit lit
  | Slot slot_ref
  | Field lexpr string
  | Neg lexpr
  | Bin bin_op lexpr lexpr
  | Cmp cmp_op lexpr lexpr
  | StructE "(string \<times> lexpr) list"

fun mentions_float :: "lexpr \<Rightarrow> bool" where
  "mentions_float (Lit (LFloat _)) = True"
| "mentions_float (Lit _) = False"
| "mentions_float (Slot _) = False"
| "mentions_float (Field base _) = mentions_float base"
| "mentions_float (Neg e) = mentions_float e"
| "mentions_float (Bin _ l r) = (mentions_float l \<or> mentions_float r)"
| "mentions_float (Cmp _ l r) = (mentions_float l \<or> mentions_float r)"
| "mentions_float (StructE fs) = list_ex (\<lambda>ke. mentions_float (snd ke)) fs"

fun is_comparison :: "lexpr \<Rightarrow> bool" where
  "is_comparison (Cmp _ _ _) = True"
| "is_comparison _ = False"

fun lit_value :: "lit \<Rightarrow> cvalue" where
  "lit_value (LBool b) = VBool b"
| "lit_value (LInt i) = VInt i"
| "lit_value (LFloat f) = VFloat f"
| "lit_value (LString s) = VStr s"
| "lit_value (LEnum e) = VEnum e"

definition int_bin :: "bin_op \<Rightarrow> int \<Rightarrow> int \<Rightarrow> cvalue backend_result" where
  "int_bin p a b =
    (case p of
       Add \<Rightarrow> ok_or (invalid ''E901'') (map_option VInt (checked_add a b))
     | Sub \<Rightarrow> ok_or (invalid ''E901'') (map_option VInt (checked_sub a b))
     | Mul \<Rightarrow> ok_or (invalid ''E901'') (map_option VInt (checked_mul a b))
     | Div \<Rightarrow> if b = 0 then Err (invalid ''E902'')
              else ok_or (invalid ''E901'') (map_option VInt (checked_div a b))
     | Mod \<Rightarrow> if b = 0 then Err (invalid ''E902'')
              else ok_or (invalid ''E901'') (map_option VInt (checked_rem a b)))"

definition float_bin :: "bin_op \<Rightarrow> f64 \<Rightarrow> f64 \<Rightarrow> f64" where
  "float_bin p a b = (case p of Add \<Rightarrow> f64_add a b | Sub \<Rightarrow> f64_sub a b | Mul \<Rightarrow> f64_mul a b
     | Div \<Rightarrow> f64_div a b | Mod \<Rightarrow> f64_rem a b)"

fun eval_bin :: "bin_op \<Rightarrow> cvalue \<Rightarrow> cvalue \<Rightarrow> cvalue backend_result" where
  "eval_bin p (VInt a) (VInt b) = int_bin p a b"
| "eval_bin p (VFloat a) (VFloat b) = Ok (VFloat (float_bin p a b))"
| "eval_bin p l r = Err (invalid ''E932'')"

fun cmp_holds :: "cmp_op \<Rightarrow> ordering \<Rightarrow> bool" where
  "cmp_holds CEq od = (od = Equal)"
| "cmp_holds CNe od = (od \<noteq> Equal)"
| "cmp_holds CLt od = (od = Less)"
| "cmp_holds CLe od = (od \<noteq> Greater)"
| "cmp_holds CGt od = (od = Greater)"
| "cmp_holds CGe od = (od \<noteq> Less)"

text \<open>The order of two numbers of the same kind: \<open>None\<close> for other operands.\<close>

fun numeric_cmp :: "cvalue \<Rightarrow> cvalue \<Rightarrow> ordering option option" where
  "numeric_cmp (VInt a) (VInt b) = Some (Some (cmp_of a b))"
| "numeric_cmp (VFloat a) (VFloat b) = Some (f64_cmp a b)"
| "numeric_cmp _ _ = None"

definition eval_cmp :: "cmp_op \<Rightarrow> cvalue \<Rightarrow> cvalue \<Rightarrow> cvalue backend_result" where
  "eval_cmp p l r =
    (case numeric_cmp l r of
       Some None \<Rightarrow> Ok (VBool False)
     | Some (Some od) \<Rightarrow> Ok (VBool (cmp_holds p od))
     | None \<Rightarrow> (case p of
           CEq \<Rightarrow> Ok (VBool (l = r))
         | CNe \<Rightarrow> Ok (VBool (l \<noteq> r))
         | _ \<Rightarrow> Err (invalid ''E932'')))"

fun eval_neg :: "cvalue \<Rightarrow> cvalue backend_result" where
  "eval_neg (VInt i) = ok_or (invalid ''E901'') (map_option VInt (checked_neg i))"
| "eval_neg (VFloat f) = Ok (VFloat (f64_neg f))"
| "eval_neg _ = Err (invalid ''E932'')"

fun eval_field :: "cvalue \<Rightarrow> string \<Rightarrow> cvalue backend_result" where
  "eval_field (VStruct fs) f = ok_or (invalid ''E933'') (bt_get fs f)"
| "eval_field _ f = Err (invalid ''E933'')"

fun eval :: "(slot_id \<Rightarrow> cvalue option) \<Rightarrow> (resource_id \<Rightarrow> cvalue option) \<Rightarrow> lexpr \<Rightarrow>
    cvalue backend_result" where
  "eval gs gh (Lit l) = Ok (lit_value l)"
| "eval gs gh (Slot Discard) = Err (invalid ''E931'')"
| "eval gs gh (Slot (Local i)) = ok_or (invalid ''E900'') (gs i)"
| "eval gs gh (Slot (Shared r)) = ok_or (invalid ''E900'') (gh r)"
| "eval gs gh (Field base f) = rbind (eval gs gh base) (\<lambda>v. eval_field v f)"
| "eval gs gh (Neg e) = rbind (eval gs gh e) eval_neg"
| "eval gs gh (Bin p l r) = rbind (eval gs gh l) (\<lambda>a. rbind (eval gs gh r) (\<lambda>b. eval_bin p a b))"
| "eval gs gh (Cmp p l r) = rbind (eval gs gh l) (\<lambda>a. rbind (eval gs gh r) (\<lambda>b. eval_cmp p a b))"
| "eval gs gh (StructE fs) =
     rbind (mapM (\<lambda>ke. rbind (eval gs gh (snd ke)) (\<lambda>v. Ok (fst ke, v))) fs)
       (\<lambda>m. Ok (VStruct (fold (\<lambda>(k, v). bt_insert k v) m [])))"

subsection \<open>Evaluation never panics\<close>

lemma int_bin_not_Panic [simp]: "int_bin p a b \<noteq> Panic"
  by (auto simp: int_bin_def split: bin_op.splits)

lemma eval_bin_not_Panic [simp]: "eval_bin p l r \<noteq> Panic"
  by (induction p l r rule: eval_bin.induct) auto

lemma eval_cmp_not_Panic [simp]: "eval_cmp p l r \<noteq> Panic"
  by (auto simp: eval_cmp_def split: option.splits cmp_op.splits)

lemma eval_neg_not_Panic [simp]: "eval_neg v \<noteq> Panic"
  by (cases v) auto

lemma eval_field_not_Panic [simp]: "eval_field v f \<noteq> Panic"
  by (cases v) auto

lemma eval_not_Panic [simp]: "eval gs gh e \<noteq> Panic"
proof (induction gs gh e rule: eval.induct)
  case (9 gs gh fs)
  have "mapM (\<lambda>ke. rbind (eval gs gh (snd ke)) (\<lambda>v. Ok (fst ke, v))) fs \<noteq> Panic"
    by (rule mapM_not_Panic) (use 9 in \<open>auto simp: rbind_eq_Panic\<close>)
  then show ?case by (simp add: rbind_eq_Panic)
qed (auto simp: rbind_eq_Panic)

subsection \<open>Machine integers stay in range\<close>

text \<open>Every integer inside a value is an \<open>i64\<close>.\<close>

fun ints_ok :: "cvalue \<Rightarrow> bool" where
  "ints_ok (VInt i) = in_i64 i"
| "ints_ok (VStruct fs) = list_all (\<lambda>kv. ints_ok (snd kv)) fs"
| "ints_ok (VArray vs) = list_all ints_ok vs"
| "ints_ok _ = True"

fun lits_ok :: "lexpr \<Rightarrow> bool" where
  "lits_ok (Lit (LInt i)) = in_i64 i"
| "lits_ok (Lit _) = True"
| "lits_ok (Slot _) = True"
| "lits_ok (Field e _) = lits_ok e"
| "lits_ok (Neg e) = lits_ok e"
| "lits_ok (Bin _ l r) = (lits_ok l \<and> lits_ok r)"
| "lits_ok (Cmp _ l r) = (lits_ok l \<and> lits_ok r)"
| "lits_ok (StructE fs) = list_all (\<lambda>ke. lits_ok (snd ke)) fs"

lemma int_bin_range: "int_bin p a b = Ok v \<Longrightarrow> in_i64 a \<Longrightarrow> in_i64 b \<Longrightarrow> ints_ok v"
  by (auto simp: int_bin_def intro: bounds_intros checked_rem_in_i64
      split: bin_op.splits if_splits)

lemma eval_bin_range: "eval_bin p l r = Ok v \<Longrightarrow> ints_ok l \<Longrightarrow> ints_ok r \<Longrightarrow> ints_ok v"
  by (induction p l r rule: eval_bin.induct) (auto intro: int_bin_range)

lemma eval_cmp_bool: "eval_cmp p l r = Ok v \<Longrightarrow> \<exists>b. v = VBool b"
  by (auto simp: eval_cmp_def split: option.splits cmp_op.splits)

lemma bt_insert_ints:
  "list_all (\<lambda>kv. ints_ok (snd kv)) m \<Longrightarrow> ints_ok v \<Longrightarrow>
    list_all (\<lambda>kv. ints_ok (snd kv)) (bt_insert k v m)"
  by (induction k v m rule: bt_insert.induct) auto

lemma fold_insert_ints:
  "list_all (\<lambda>kv. ints_ok (snd kv)) acc \<Longrightarrow> list_all (\<lambda>kv. ints_ok (snd kv)) m \<Longrightarrow>
    list_all (\<lambda>kv. ints_ok (snd kv)) (fold (\<lambda>(k, v). bt_insert k v) m acc)"
  by (induction m arbitrary: acc) (auto simp: bt_insert_ints)

lemma eval_ints_ok:
  assumes "\<And>i v. gs i = Some v \<Longrightarrow> ints_ok v" "\<And>r v. gh r = Some v \<Longrightarrow> ints_ok v"
  shows "eval gs gh e = Ok v \<Longrightarrow> lits_ok e \<Longrightarrow> ints_ok v"
proof (induction e arbitrary: v)
  case (Lit l)
  then show ?case by (cases l) auto
next
  case (Slot s)
  then show ?case by (cases s) (auto intro: assms)
next
  case (Field base f)
  then obtain u where "eval gs gh base = Ok u" "eval_field u f = Ok v" "ints_ok u" by auto
  then show ?case
    by (cases u) (auto simp: bt_get_def list_all_iff dest!: map_of_SomeD)
next
  case (Neg e)
  then obtain u where "eval_neg u = Ok v" "ints_ok u" by auto
  then show ?case by (cases u) (auto intro: bounds_intros)
next
  case (Bin p l r)
  then show ?case by (auto intro: eval_bin_range)
next
  case (Cmp p l r)
  then show ?case by (auto dest!: eval_cmp_bool)
next
  case (StructE fs)
  then obtain m where
    m: "mapM (\<lambda>ke. rbind (eval gs gh (snd ke)) (\<lambda>v. Ok (fst ke, v))) fs = Ok m"
    and v: "v = VStruct (fold (\<lambda>(k, v). bt_insert k v) m [])" by auto
  have "ints_ok (snd kv)" if "kv \<in> set m" for kv
  proof -
    from mapM_Ok_set [OF m that] obtain ke u where
      ke: "ke \<in> set fs" "eval gs gh (snd ke) = Ok u" "kv = (fst ke, u)" by auto
    with StructE.IH [of ke "snd ke" u] StructE.prems show ?thesis
      by (cases ke) (auto simp: list_all_iff)
  qed
  then show ?case using fold_insert_ints [of "[]" m] v by (simp add: list_all_iff)
qed

subsection \<open>Locality\<close>

text \<open>The slots and shared resources an expression reads.\<close>

fun reads_of :: "lexpr \<Rightarrow> slot_ref set" where
  "reads_of (Lit _) = {}"
| "reads_of (Slot s) = {s}"
| "reads_of (Field e _) = reads_of e"
| "reads_of (Neg e) = reads_of e"
| "reads_of (Bin _ l r) = reads_of l \<union> reads_of r"
| "reads_of (Cmp _ l r) = reads_of l \<union> reads_of r"
| "reads_of (StructE fs) = (\<Union>ke\<in>set fs. reads_of (snd ke))"

lemma eval_local:
  assumes "\<And>i. Local i \<in> reads_of e \<Longrightarrow> gs i = gs' i"
    and "\<And>r. Shared r \<in> reads_of e \<Longrightarrow> gh r = gh' r"
  shows "eval gs gh e = eval gs' gh' e"
  using assms
proof (induction e)
  case (Slot s)
  then show ?case by (cases s) auto
next
  case (StructE fs)
  have "eval gs gh (snd ke) = eval gs' gh' (snd ke)" if "ke \<in> set fs" for ke
    using StructE.IH [of ke "snd ke"] StructE.prems that by (cases ke) fastforce
  then have "mapM (\<lambda>ke. rbind (eval gs gh (snd ke)) (\<lambda>v. Ok (fst ke, v))) fs =
      mapM (\<lambda>ke. rbind (eval gs' gh' (snd ke)) (\<lambda>v. Ok (fst ke, v))) fs"
    by (intro mapM_cong) auto
  then show ?case by (simp only: eval.simps)
qed auto

end
