(* ===== verification/Fqn.thy ===== *)
theory Fqn
  imports Cir_Prelude
begin

text \<open>
  Names (\<open>src/src/fqn.rs\<close>): identifiers, fully-qualified names \<open>module::entity\<close> and control
  locations \<open>module::function.sid\<close>, with the splitting functions that invert the printers.
\<close>

definition fqn_sep :: string where "fqn_sep = ''::''"

definition is_alpha :: "char \<Rightarrow> bool" where
  "is_alpha c \<longleftrightarrow> (CHR ''a'' \<le> c \<and> c \<le> CHR ''z'') \<or> (CHR ''A'' \<le> c \<and> c \<le> CHR ''Z'')"

definition is_alnum :: "char \<Rightarrow> bool" where
  "is_alnum c \<longleftrightarrow> is_alpha c \<or> is_digit c"

definition is_ident :: "string \<Rightarrow> bool" where
  "is_ident s = (case s of
      c # cs \<Rightarrow> (is_alpha c \<or> c = CHR ''_'') \<and> list_all (\<lambda>c. is_alnum c \<or> c = CHR ''_'') cs
    | [] \<Rightarrow> False)"

definition fqn :: "string \<Rightarrow> string \<Rightarrow> string" where
  "fqn m e = m @ fqn_sep @ e"

text \<open>\<open>str::split_once\<close>: at the first occurrence of the separator.\<close>

fun split_once :: "string \<Rightarrow> string \<Rightarrow> (string \<times> string) option" where
  "split_once sep s =
    (if take (length sep) s = sep then Some ([], drop (length sep) s)
     else case s of [] \<Rightarrow> None
        | c # cs \<Rightarrow> map_option (\<lambda>(a, b). (c # a, b)) (split_once sep cs))"

declare split_once.simps [simp del]

definition str_contains :: "string \<Rightarrow> string \<Rightarrow> bool" where
  "str_contains sep s \<longleftrightarrow> split_once sep s \<noteq> None"

definition split_fqn :: "string \<Rightarrow> (string \<times> string) option" where
  "split_fqn s = (case split_once fqn_sep s of
      None \<Rightarrow> None
    | Some (m, e) \<Rightarrow> if str_contains fqn_sep e \<or> \<not> is_ident m \<or> \<not> is_ident e then None
                    else Some (m, e))"

definition is_fqn :: "string \<Rightarrow> bool" where
  "is_fqn s \<longleftrightarrow> split_fqn s \<noteq> None"

definition location :: "string \<Rightarrow> string \<Rightarrow> string \<Rightarrow> string" where
  "location m f sid = m @ fqn_sep @ f @ ''.'' @ sid"

text \<open>\<open>str::rsplit_once('.')\<close>: at the last occurrence.\<close>

definition rsplit_dot :: "string \<Rightarrow> (string \<times> string) option" where
  "rsplit_dot s = map_option (\<lambda>(a, b). (rev b, rev a)) (split_once ''.'' (rev s))"

definition split_location :: "string \<Rightarrow> (string \<times> string \<times> string) option" where
  "split_location s = (case rsplit_dot s of
      None \<Rightarrow> None
    | Some (mf, sid) \<Rightarrow> (case split_fqn mf of
        None \<Rightarrow> None
      | Some (m, f) \<Rightarrow> if sid = [] then None else Some (m, f, sid)))"

definition qualify :: "string \<Rightarrow> string \<Rightarrow> string" where
  "qualify from_module name = (if is_fqn name then name else fqn from_module name)"

subsection \<open>Printing and splitting\<close>

lemma split_once_Nil: "sep \<noteq> [] \<Longrightarrow> split_once sep [] = None"
  by (subst split_once.simps) auto

lemma split_once_sound:
  "split_once sep s = Some (a, b) \<Longrightarrow> s = a @ sep @ b"
proof (induction s arbitrary: a)
  case Nil
  then show ?case by (subst (asm) split_once.simps) (auto split: if_splits)
next
  case (Cons c cs)
  from Cons.prems show ?case
    by (subst (asm) split_once.simps)
      (auto split: if_splits intro: Cons.IH, metis append_take_drop_id)
qed

lemma split_once_skip:
  "\<forall>c\<in>set a. c \<noteq> hd sep \<Longrightarrow> sep \<noteq> [] \<Longrightarrow> split_once sep (a @ sep @ b) = Some (a, b)"
proof (induction a)
  case Nil
  then show ?case by (subst split_once.simps) simp
next
  case (Cons c a)
  from Cons.prems have "take (length sep) ((c # a) @ sep @ b) \<noteq> sep"
    by (cases sep) auto
  with Cons show ?case by (subst split_once.simps) simp
qed

lemma split_once_absent:
  "\<forall>c\<in>set s. c \<noteq> hd sep \<Longrightarrow> sep \<noteq> [] \<Longrightarrow> split_once sep s = None"
proof (induction s)
  case (Cons c s)
  from Cons.prems have "take (length sep) (c # s) \<noteq> sep" by (cases sep) auto
  with Cons show ?case by (subst split_once.simps) simp
qed (simp add: split_once_Nil)

lemma ident_chars: "is_ident s \<Longrightarrow> c \<in> set s \<Longrightarrow> c \<noteq> CHR '':'' \<and> c \<noteq> CHR ''.''"
  by (cases s) (auto simp: is_ident_def is_alnum_def is_alpha_def is_digit_def less_eq_char_def
      list_all_iff)

lemma fqn_split_fqn:
  "is_ident m \<Longrightarrow> is_ident e \<Longrightarrow> split_fqn (fqn m e) = Some (m, e)"
  using split_once_skip [of m fqn_sep e] split_once_absent [of e fqn_sep] ident_chars
  by (auto simp: split_fqn_def fqn_def str_contains_def fqn_sep_def)

lemma split_fqn_fqn: "split_fqn s = Some (m, e) \<Longrightarrow> s = fqn m e \<and> is_ident m \<and> is_ident e"
  by (auto simp: split_fqn_def fqn_def dest: split_once_sound split: option.splits if_splits)

lemma split_fqn_iff: "split_fqn s = Some (m, e) \<longleftrightarrow> s = fqn m e \<and> is_ident m \<and> is_ident e"
  using fqn_split_fqn split_fqn_fqn by blast

lemma qualify_idem:
  "is_ident m \<Longrightarrow> is_ident n \<or> is_fqn n \<Longrightarrow> qualify m' (qualify m n) = qualify m n"
  by (auto simp: qualify_def is_fqn_def split_fqn_iff)

lemma rsplit_dot_append:
  "\<forall>c\<in>set sid. c \<noteq> CHR ''.'' \<Longrightarrow> rsplit_dot (s @ ''.'' @ sid) = Some (s, sid)"
  using split_once_skip [of "rev sid" "''.''" "rev s"] by (simp add: rsplit_dot_def)

lemma split_location_location:
  "is_ident m \<Longrightarrow> is_ident f \<Longrightarrow> sid \<noteq> [] \<Longrightarrow> \<forall>c\<in>set sid. c \<noteq> CHR ''.'' \<Longrightarrow>
    split_location (location m f sid) = Some (m, f, sid)"
  using rsplit_dot_append [of sid "fqn m f"] fqn_split_fqn [of m f]
  by (auto simp: split_location_def location_def fqn_def)

end
