(* ===== verification/Sem_Program.thy ===== *)
theory Sem_Program
  imports Sem_Eval Fqn
begin

text \<open>
  The resolved program (\<open>src/src/sem/program.rs\<close>): resources, slots, operations, functions and the
  lookups the engines use. Indexing a table out of range panics.
\<close>

datatype res_kind = KVar | KAtomic | KMutex | KRwLock | KCondvar | KSemaphore | KChannel

record sem_resource =
  r_id :: resource_id
  r_module :: module_id
  r_name :: string
  r_kind :: res_kind
  r_ty :: "base_type option"
  r_capacity :: nat
  r_permits :: int
  r_init :: "cvalue option"
  r_mode :: "string option"

datatype slot_class = PARAM | LOCAL | RETURN

record sem_slot =
  s_name :: string
  s_ty :: base_type
  s_modeled :: bool
  s_class :: slot_class
  s_init :: "cvalue option"

datatype sem_op =
    Nop
  | AssignLocal slot_ref lexpr
  | ReadShared resource_id "slot_ref option"
  | WriteShared resource_id lexpr
  | AtomicLoad resource_id slot_ref
  | AtomicStore resource_id lexpr
  | AtomicCas resource_id lexpr lexpr slot_ref
  | MutexLock resource_id
  | MutexUnlock resource_id
  | ChannelSend resource_id lexpr
  | ChannelRecv resource_id slot_ref
  | CondvarWait resource_id resource_id
  | CondvarNotify resource_id
  | CondvarNotifyAll resource_id
  | SemaphoreAcquire resource_id int
  | SemaphoreRelease resource_id int
  | Call function_id "lexpr list" "slot_ref option"
  | Spawn function_id string
  | Scope "function_id list"
  | Join string
  | Goto nat
  | Branch lexpr nat nat
  | Switch lexpr "(string, nat) btree" nat
  | Return "lexpr option"
  | UnsupportedOp string

record sem_stmt =
  st_id :: statement_id
  st_sid :: string
  st_op :: sem_op

record sem_function =
  f_id :: function_id
  f_module :: module_id
  f_name :: string
  f_kind :: string
  f_is_nobody :: bool
  f_effects_empty :: bool
  f_may_block :: "bool option"
  f_params :: "sem_slot list"
  f_returns :: "sem_slot option"
  f_slots :: "sem_slot list"
  f_body :: "sem_stmt list"
  f_sid_to_idx :: "(string, nat) btree"
  f_requires_held :: "resource_id list"
  f_num_modeled_params :: nat
  f_bound :: "int option"

definition stmt_index :: "sem_function \<Rightarrow> string \<Rightarrow> nat option" where
  "stmt_index f sid = bt_get (f_sid_to_idx f) sid"

definition is_transparent_nobody :: "sem_function \<Rightarrow> bool" where
  "is_transparent_nobody f \<longleftrightarrow>
     f_is_nobody f \<and> f_effects_empty f \<and> f_returns f = None \<and> f_may_block f \<noteq> Some True"

record sem_program =
  p_module_names :: "string list"
  p_functions :: "sem_function list"
  p_resources :: "sem_resource list"
  p_protection :: "(resource_id, resource_id) btree"
  p_entry :: function_id
  p_unsupported :: "unsupported_rec list"

definition mod_name :: "sem_program \<Rightarrow> module_id \<Rightarrow> string backend_result" where
  "mod_name P m = index (p_module_names P) m"

fun position :: "('a \<Rightarrow> bool) \<Rightarrow> 'a list \<Rightarrow> nat option" where
  "position p [] = None"
| "position p (x # xs) = (if p x then Some 0 else map_option Suc (position p xs))"

definition module_id_of :: "sem_program \<Rightarrow> string \<Rightarrow> module_id option" where
  "module_id_of P name = position (\<lambda>n. n = name) (p_module_names P)"

definition function_of :: "sem_program \<Rightarrow> function_id \<Rightarrow> sem_function backend_result" where
  "function_of P f = index (p_functions P) f"

definition resource_of :: "sem_program \<Rightarrow> resource_id \<Rightarrow> sem_resource backend_result" where
  "resource_of P r = index (p_resources P) r"

definition entry_module :: "sem_program \<Rightarrow> module_id backend_result" where
  "entry_module P = rbind (index (p_functions P) (p_entry P)) (\<lambda>f. Ok (f_module f))"

definition protection_lock :: "sem_program \<Rightarrow> resource_id \<Rightarrow> resource_id option" where
  "protection_lock P var = bt_get (p_protection P) var"

definition resolve_in :: "sem_program \<Rightarrow> module_id \<Rightarrow> string \<Rightarrow> (module_id \<times> string) option" where
  "resolve_in P from_m name = (case split_fqn name of
      Some (m, e) \<Rightarrow> map_option (\<lambda>mid. (mid, e)) (module_id_of P m)
    | None \<Rightarrow> Some (from_m, name))"

definition resolve_resource :: "sem_program \<Rightarrow> module_id \<Rightarrow> string \<Rightarrow> resource_id option" where
  "resolve_resource P from_m name = (case resolve_in P from_m name of
      None \<Rightarrow> None
    | Some (mid, e) \<Rightarrow>
        map_option r_id (find (\<lambda>r. r_module r = mid \<and> r_name r = e) (p_resources P)))"

definition resolve_function :: "sem_program \<Rightarrow> module_id \<Rightarrow> string \<Rightarrow> function_id option" where
  "resolve_function P from_m name = (case resolve_in P from_m name of
      None \<Rightarrow> None
    | Some (mid, e) \<Rightarrow>
        map_option f_id (find (\<lambda>f. f_module f = mid \<and> f_name f = e) (p_functions P)))"

text \<open>\<open>location_of\<close> of \<open>outcome.rs\<close>: with the statement's sid when there is one.\<close>

definition location_of :: "sem_program \<Rightarrow> function_id \<Rightarrow> nat option \<Rightarrow> string backend_result" where
  "location_of P f sid =
     rbind (function_of P f) (\<lambda>fn.
     rbind (mod_name P (f_module fn)) (\<lambda>m.
       Ok (case Option.bind sid (nth_opt (f_body fn)) of
             Some s \<Rightarrow> location m (f_name fn) (st_sid s)
           | None \<Rightarrow> fqn m (f_name fn))))"

definition resource_fqn :: "sem_program \<Rightarrow> resource_id \<Rightarrow> string backend_result" where
  "resource_fqn P r = rbind (resource_of P r) (\<lambda>res.
     rbind (mod_name P (r_module res)) (\<lambda>m. Ok (fqn m (r_name res))))"

definition function_fqn :: "sem_program \<Rightarrow> function_id \<Rightarrow> string backend_result" where
  "function_fqn P f = rbind (function_of P f) (\<lambda>fn.
     rbind (mod_name P (f_module fn)) (\<lambda>m. Ok (fqn m (f_name fn))))"

subsection \<open>Resolution\<close>

text \<open>
  Tables whose entries carry their own index as id, as lowering builds them: a resolved name is
  an entity of the module asked for, and a module's own short name and its qualified name resolve
  alike.
\<close>

definition wf_ids :: "sem_program \<Rightarrow> bool" where
  "wf_ids P \<longleftrightarrow>
     (\<forall>i<length (p_resources P). r_id (p_resources P ! i) = i \<and>
        r_module (p_resources P ! i) < length (p_module_names P)) \<and>
     (\<forall>i<length (p_functions P). f_id (p_functions P ! i) = i \<and>
        f_module (p_functions P ! i) < length (p_module_names P)) \<and>
     distinct (p_module_names P) \<and> p_entry P < length (p_functions P)"

lemma position_Some:
  "position p xs = Some i \<Longrightarrow> i < length xs \<and> p (xs ! i) \<and> (\<forall>j<i. \<not> p (xs ! j))"
proof (induction xs arbitrary: i)
  case (Cons x xs)
  then show ?case by (auto simp: nth_Cons split: if_splits nat.splits)
qed simp

lemma position_None: "position p xs = None \<longleftrightarrow> (\<forall>x\<in>set xs. \<not> p x)"
  by (induction xs) auto

lemma position_distinct:
  "distinct xs \<Longrightarrow> i < length xs \<Longrightarrow> position (\<lambda>n. n = xs ! i) xs = Some i"
  using position_Some [of "\<lambda>n. n = xs ! i" xs] position_None [of "\<lambda>n. n = xs ! i" xs]
  by (cases "position (\<lambda>n. n = xs ! i) xs") (auto simp: nth_eq_iff_index_eq)

lemma find_index:
  "find p xs = Some x \<Longrightarrow> \<exists>i<length xs. xs ! i = x \<and> p x"
  by (induction xs) (fastforce split: if_splits)+

lemma resolve_resource_sound:
  assumes "wf_ids P" "resolve_resource P m n = Some r"
  shows "\<exists>res mid e. resource_of P r = Ok res \<and> resolve_in P m n = Some (mid, e) \<and>
    r_module res = mid \<and> r_name res = e"
proof -
  from assms(2) obtain mid e res where "resolve_in P m n = Some (mid, e)" and
    f: "find (\<lambda>r. r_module r = mid \<and> r_name r = e) (p_resources P) = Some res" and r: "r = r_id res"
    by (auto simp: resolve_resource_def split: option.splits prod.splits)
  moreover from find_index [OF f] obtain i where
    "i < length (p_resources P)" "p_resources P ! i = res" "r_module res = mid" "r_name res = e" by auto
  ultimately show ?thesis using assms(1) by (auto simp: resource_of_def wf_ids_def)
qed

lemma resolve_function_sound:
  assumes "wf_ids P" "resolve_function P m n = Some f"
  shows "\<exists>fn mid e. function_of P f = Ok fn \<and> resolve_in P m n = Some (mid, e) \<and>
    f_module fn = mid \<and> f_name fn = e"
proof -
  from assms(2) obtain mid e fn where "resolve_in P m n = Some (mid, e)" and
    f: "find (\<lambda>r. f_module r = mid \<and> f_name r = e) (p_functions P) = Some fn" and r: "f = f_id fn"
    by (auto simp: resolve_function_def split: option.splits prod.splits)
  moreover from find_index [OF f] obtain i where
    "i < length (p_functions P)" "p_functions P ! i = fn" "f_module fn = mid" "f_name fn = e" by auto
  ultimately show ?thesis using assms(1) by (auto simp: function_of_def wf_ids_def)
qed

lemma resolve_in_qualified:
  assumes "wf_ids P" "m < length (p_module_names P)"
    and "is_ident (p_module_names P ! m)" "is_ident e"
  shows "resolve_in P m' (fqn (p_module_names P ! m) e) = Some (m, e)"
    and "resolve_in P m e = Some (m, e)"
proof -
  have "split_fqn e = None"
    using assms(4) ident_chars [OF assms(4)] split_fqn_fqn [of e]
    by (cases "split_fqn e") (fastforce simp: fqn_def fqn_sep_def)+
  then show "resolve_in P m e = Some (m, e)" by (simp add: resolve_in_def)
  show "resolve_in P m' (fqn (p_module_names P ! m) e) = Some (m, e)"
    using assms by (simp add: resolve_in_def fqn_split_fqn module_id_of_def position_distinct wf_ids_def)
qed

end
