(* ===== verification/Sem_System.thy ===== *)
theory Sem_System
  imports Sem_Program
begin

text \<open>
  The predicate language and the transition-system interface (\<open>src/src/sem/system.rs\<close>) and the
  contract-driven completion monitors (\<open>src/src/sem/monitor.rs\<close>).
\<close>

subsection \<open>Predicates\<close>

datatype predicate =
    PTrue
  | PFalse
  | VarEq resource_id cvalue
  | VarCmp resource_id cmp_op cvalue
  | FunctionCompleted function_id
  | FunctionCompletedAtLeast function_id nat
  | ScopeCompleted function_id nat
  | StatementReached function_id nat
  | MutexFree resource_id
  | MutexHeld resource_id
  | HoldsAll function_id "resource_id list"
  | MutexExclusive resource_id
  | NeverHoldsAll function_id "resource_id list"
  | ChannelEmpty resource_id
  | ChannelAtLeast resource_id nat
  | PNot predicate
  | PAnd "predicate list"
  | POr "predicate list"

fun cmp_debug :: "cmp_op \<Rightarrow> string" where
  "cmp_debug CEq = ''Eq''"
| "cmp_debug CNe = ''Ne''"
| "cmp_debug CLt = ''Lt''"
| "cmp_debug CLe = ''Le''"
| "cmp_debug CGt = ''Gt''"
| "cmp_debug CGe = ''Ge''"

definition show_rs :: "resource_id list \<Rightarrow> string" where
  "show_rs rs = intercalate '', '' (map (\<lambda>r. ''r'' @ show_nat r) rs)"

fun description :: "(string \<Rightarrow> string) \<Rightarrow> predicate \<Rightarrow> string" where
  "description esc PTrue = ''true''"
| "description esc PFalse = ''false''"
| "description esc (VarEq r v) = ''r'' @ show_nat r @ '' == '' @ canonical esc v"
| "description esc (VarCmp r p v) =
     ''r'' @ show_nat r @ '' '' @ cmp_debug p @ '' '' @ canonical esc v"
| "description esc (FunctionCompleted f) = ''completed(f'' @ show_nat f @ '')''"
| "description esc (FunctionCompletedAtLeast f n) =
     ''completed(f'' @ show_nat f @ '') >= '' @ show_nat n"
| "description esc (ScopeCompleted f i) = ''scope_done(f'' @ show_nat f @ ''@'' @ show_nat i @ '')''"
| "description esc (StatementReached f i) = ''reached(f'' @ show_nat f @ ''@'' @ show_nat i @ '')''"
| "description esc (MutexFree r) = ''free(r'' @ show_nat r @ '')''"
| "description esc (MutexHeld r) = ''held(r'' @ show_nat r @ '')''"
| "description esc (HoldsAll f rs) = ''holds_all(f'' @ show_nat f @ '', ['' @ show_rs rs @ ''])''"
| "description esc (MutexExclusive r) = ''mutex_exclusive(r'' @ show_nat r @ '')''"
| "description esc (NeverHoldsAll f rs) =
     ''never_holds_all(f'' @ show_nat f @ '', ['' @ show_rs rs @ ''])''"
| "description esc (ChannelEmpty r) = ''channel_empty(r'' @ show_nat r @ '')''"
| "description esc (ChannelAtLeast r n) = ''channel_len(r'' @ show_nat r @ '') >= '' @ show_nat n"
| "description esc (PNot p) = ''!('' @ description esc p @ '')''"
| "description esc (PAnd ps) = ''('' @ intercalate '' && '' (map (description esc) ps) @ '')''"
| "description esc (POr ps) = ''('' @ intercalate '' || '' (map (description esc) ps) @ '')''"

text \<open>\<open>None\<close>: the ordered comparison is not defined for the operands.\<close>

fun value_cmp :: "cvalue \<Rightarrow> cvalue \<Rightarrow> ordering option option" where
  "value_cmp (VInt a) (VInt b) = Some (Some (cmp_of a b))"
| "value_cmp (VFloat a) (VFloat b) = Some (f64_cmp a b)"
| "value_cmp (VStr a) (VStr b) = Some (Some (cmp_of a b))"
| "value_cmp (VEnum a) (VEnum b) = Some (Some (cmp_of a b))"
| "value_cmp (VBool a) (VBool b) = Some (Some (cmp_of a b))"
| "value_cmp _ _ = None"

definition compare_values :: "cmp_op \<Rightarrow> cvalue \<Rightarrow> cvalue \<Rightarrow> bool option" where
  "compare_values p l r = (case value_cmp l r of
      Some None \<Rightarrow> None
    | Some (Some od) \<Rightarrow> Some (cmp_holds p od)
    | None \<Rightarrow> (case p of CEq \<Rightarrow> Some (l = r) | CNe \<Rightarrow> Some (l \<noteq> r) | _ \<Rightarrow> None))"

subsection \<open>Diagnostic records\<close>

datatype block_kind = BLock | BChannelSend | BChannelRecv | BCondvar | BSemaphore | BJoin | BScope

record blocked_record =
  br_thread :: thread_id
  br_kind :: block_kind
  br_resource :: "resource_id option"
  br_resource_name :: "string option"
  br_holder :: "thread_id option"
  br_waiting :: nat

record doom_wait =
  dw_kind :: string
  dw_resource :: "string option"

record doom_thread =
  dt_thread :: nat
  dt_entry_function :: string
  dt_function :: string
  dt_at_sid :: "string option"
  dt_holds :: "string list"
  dt_waiting_on :: "doom_wait option"

record doom_state =
  ds_threads :: "doom_thread list"
  ds_free_resources :: "string list"

definition doom_default :: doom_state where
  "doom_default = \<lparr>ds_threads = [], ds_free_resources = []\<rparr>"

record instance_state =
  is_thread :: thread_id
  is_frame :: "frame_id option"
  is_function :: function_id
  is_sid :: "nat option"
  is_status :: string

subsection \<open>The transition-system interface\<close>

record 's step =
  step_lab :: step_label
  step_state :: 's

record 's enabled =
  en_steps :: "'s step list"
  en_boundary :: "boundary_event list"

definition enabled_empty :: "'s enabled" where
  "enabled_empty = \<lparr>en_steps = [], en_boundary = []\<rparr>"

text \<open>The trait \<open>TransitionSystem\<close>: the operations the explorer calls.\<close>

record 's tsystem =
  ts_program :: sem_program
  ts_initial :: "'s backend_result"
  ts_successors :: "'s \<Rightarrow> 's enabled backend_result"
  ts_is_finished :: "'s \<Rightarrow> bool"
  ts_blocked :: "'s \<Rightarrow> blocked_record list backend_result"
  ts_instances :: "'s \<Rightarrow> instance_state list backend_result"
  ts_doom_snapshot :: "'s \<Rightarrow> doom_state backend_result"
  ts_satisfied :: "'s \<Rightarrow> predicate \<Rightarrow> bool backend_result"
  ts_canonical :: "'s \<Rightarrow> string backend_result"
  ts_state_key :: "'s \<Rightarrow> string backend_result"

subsection \<open>Monitors\<close>

definition usize_max :: nat where "usize_max = 2 ^ 64 - 1"

record monitor_config =
  mc_default_max :: nat
  mc_saturate :: "(function_id, nat) btree"

definition monitor_unbounded :: monitor_config where
  "monitor_unbounded = \<lparr>mc_default_max = usize_max, mc_saturate = []\<rparr>"

definition monitor_finite :: "(function_id, nat) btree \<Rightarrow> monitor_config" where
  "monitor_finite m = \<lparr>mc_default_max = 0, mc_saturate = m\<rparr>"

definition max_for :: "monitor_config \<Rightarrow> function_id \<Rightarrow> nat" where
  "max_for mc f = (case bt_get (mc_saturate mc) f of Some n \<Rightarrow> n | None \<Rightarrow> mc_default_max mc)"

definition raise_to :: "function_id \<Rightarrow> nat \<Rightarrow> (function_id, nat) btree \<Rightarrow> (function_id, nat) btree" where
  "raise_to f n m = bt_insert f (max (case bt_get m f of Some k \<Rightarrow> k | None \<Rightarrow> 0) n) m"

fun collect :: "predicate \<Rightarrow> (function_id, nat) btree \<Rightarrow> (function_id, nat) btree" where
  "collect (FunctionCompleted f) m = raise_to f 1 m"
| "collect (FunctionCompletedAtLeast f n) m = raise_to f n m"
| "collect (PNot p) m = collect p m"
| "collect (PAnd ps) m = fold collect ps m"
| "collect (POr ps) m = fold collect ps m"
| "collect _ m = m"

definition from_predicates :: "predicate list \<Rightarrow> monitor_config" where
  "from_predicates ps = monitor_finite (fold collect ps [])"

subsection \<open>Comparison laws\<close>

lemma compare_values_negate:
  "compare_values CNe l r = map_option Not (compare_values CEq l r)"
  "value_cmp l r \<noteq> None \<Longrightarrow> compare_values CGe l r = map_option Not (compare_values CLt l r)"
  "value_cmp l r \<noteq> None \<Longrightarrow> compare_values CGt l r = map_option Not (compare_values CLe l r)"
proof -
  have od: "(od \<noteq> Less) = (\<not> od = Less)" "(od = Greater) = (\<not> od \<noteq> Greater)" for od :: ordering
    by auto
  show "compare_values CNe l r = map_option Not (compare_values CEq l r)"
    "value_cmp l r \<noteq> None \<Longrightarrow> compare_values CGe l r = map_option Not (compare_values CLt l r)"
    "value_cmp l r \<noteq> None \<Longrightarrow> compare_values CGt l r = map_option Not (compare_values CLe l r)"
    by (auto simp: compare_values_def split: option.splits)
qed

text \<open>Except for NaN, an ordered comparison of two values of one kind agrees with the evaluator's.\<close>

lemma numeric_cmp_value_cmp: "numeric_cmp l r \<noteq> None \<Longrightarrow> value_cmp l r = numeric_cmp l r"
  by (cases l; cases r) auto

lemma compare_values_eval_cmp:
  "numeric_cmp l r = Some (Some od) \<Longrightarrow>
    eval_cmp p l r = Ok (VBool b) \<longleftrightarrow> compare_values p l r = Some b"
  by (auto simp: eval_cmp_def compare_values_def numeric_cmp_value_cmp)

subsection \<open>Monitor thresholds\<close>

definition threshold :: "(function_id, nat) btree \<Rightarrow> function_id \<Rightarrow> nat" where
  "threshold m f = (case bt_get m f of Some k \<Rightarrow> k | None \<Rightarrow> 0)"

lemma threshold_raise: "threshold (raise_to f n m) g = (if g = f then max (threshold m f) n else threshold m g)"
  by (auto simp: threshold_def raise_to_def)

lemma threshold_fold_mono:
  assumes "\<And>p m. p \<in> set ps \<Longrightarrow> threshold m f \<le> threshold (collect p m) f"
  shows "threshold m f \<le> threshold (fold collect ps m) f"
  using assms
proof (induction ps arbitrary: m)
  case (Cons p ps)
  have "threshold m f \<le> threshold (collect p m) f" using Cons.prems by simp
  also have "\<dots> \<le> threshold (fold collect ps (collect p m)) f" by (rule Cons.IH) (use Cons.prems in simp)
  finally show ?case by simp
qed simp

lemma threshold_collect_mono: "threshold m f \<le> threshold (collect p m) f"
proof (induction p arbitrary: m)
  case (PAnd ps)
  then show ?case by (simp add: threshold_fold_mono)
next
  case (POr ps)
  then show ?case by (simp add: threshold_fold_mono)
qed (auto simp: threshold_raise)

text \<open>The completion counts a predicate compares against.\<close>

fun observes :: "predicate \<Rightarrow> function_id \<Rightarrow> nat \<Rightarrow> bool" where
  "observes (FunctionCompleted f) g n = (g = f \<and> n = 1)"
| "observes (FunctionCompletedAtLeast f k) g n = (g = f \<and> n = k)"
| "observes (PNot p) g n = observes p g n"
| "observes (PAnd ps) g n = list_ex (\<lambda>p. observes p g n) ps"
| "observes (POr ps) g n = list_ex (\<lambda>p. observes p g n) ps"
| "observes _ g n = False"

lemma threshold_fold_covers:
  assumes "\<And>m. observes p f n \<Longrightarrow> n \<le> threshold (collect p m) f" "p \<in> set ps" "observes p f n"
  shows "n \<le> threshold (fold collect ps m) f"
  using assms
proof (induction ps arbitrary: m)
  case (Cons q ps)
  show ?case
  proof (cases "p = q")
    case True
    with Cons.prems have "n \<le> threshold (collect q m) f" by simp
    also have "\<dots> \<le> threshold (fold collect ps (collect q m)) f"
      by (rule threshold_fold_mono) (rule threshold_collect_mono)
    finally show ?thesis by simp
  next
    case False
    with Cons.prems have "p \<in> set ps" by simp
    from Cons.IH [OF Cons.prems(1) this Cons.prems(3)] show ?thesis by simp
  qed
qed simp

lemma threshold_collect_covers: "observes p f n \<Longrightarrow> n \<le> threshold (collect p m) f"
proof (induction p arbitrary: m)
  case (PAnd ps)
  then show ?case by (auto simp: list_ex_iff intro: threshold_fold_covers)
next
  case (POr ps)
  then show ?case by (auto simp: list_ex_iff intro: threshold_fold_covers)
qed (auto simp: threshold_raise)

lemma max_for_covers:
  "p \<in> set ps \<Longrightarrow> observes p f n \<Longrightarrow> n \<le> max_for (from_predicates ps) f"
  using threshold_fold_covers [of p f n ps "[]"] threshold_collect_covers
  by (auto simp: max_for_def from_predicates_def monitor_finite_def threshold_def
      split: option.splits)

lemma max_for_unobserved:
  assumes "\<And>p n. p \<in> set ps \<Longrightarrow> \<not> observes p f n"
  shows "max_for (from_predicates ps) f = 0"
proof -
  have one: "threshold (collect p m) f = threshold m f" if "\<And>n. \<not> observes p f n" for p m
    using that
  proof (induction p arbitrary: m)
    case (PAnd qs)
    have "threshold (fold collect rs m) f = threshold m f" if "set rs \<subseteq> set qs" for rs m
      using that PAnd by (induction rs arbitrary: m) (auto simp: list_ex_iff)
    then show ?case by simp
  next
    case (POr qs)
    have "threshold (fold collect rs m) f = threshold m f" if "set rs \<subseteq> set qs" for rs m
      using that POr by (induction rs arbitrary: m) (auto simp: list_ex_iff)
    then show ?case by simp
  qed (auto simp: threshold_raise)
  have "threshold (fold collect ps m) f = threshold m f" for m
    using assms by (induction ps arbitrary: m) (auto simp: one)
  from this [of "[]"] show ?thesis
    by (simp add: max_for_def from_predicates_def monitor_finite_def threshold_def
        split: option.splits)
qed

section \<open>Rendered states\<close>

text \<open>
  The pieces of rendered states that both engines share: names by rank, separators and the derived
  \<open>Debug\<close> texts (\<open>src/src/interp/exec.rs\<close>, \<open>src/src/petri/exec.rs\<close>).
\<close>

definition rank_name :: "string \<Rightarrow> string \<Rightarrow> nat list \<Rightarrow> nat \<Rightarrow> string" where
  "rank_name pre dangling ids i = (case position (\<lambda>x. x = i) ids of
      Some k \<Rightarrow> pre @ show_nat k | None \<Rightarrow> dangling @ show_nat i)"

definition nl :: string where "nl = [char_of (10::nat)]"

definition commas :: "string list \<Rightarrow> string" where "commas = intercalate '',''"

text \<open>The derived \<open>Debug\<close> text of destinations, completion counts and fact sets.\<close>

fun debug_slot :: "slot_ref \<Rightarrow> string" where
  "debug_slot (Local i) = ''Local('' @ show_nat i @ '')''"
| "debug_slot (Shared r) = ''Shared(ResourceId('' @ show_nat r @ ''))''"
| "debug_slot Discard = ''Discard''"

definition debug_counts :: "(function_id, nat) btree \<Rightarrow> string" where
  "debug_counts m = ''{'' @ intercalate '', '' (map (\<lambda>(f, n).
     ''FunctionId('' @ show_nat f @ ''): '' @ show_nat n) m) @ ''}''"

definition debug_pairs :: "(function_id \<times> nat) list \<Rightarrow> string" where
  "debug_pairs s = ''{'' @ intercalate '', '' (map (\<lambda>(f, n).
     ''(FunctionId('' @ show_nat f @ ''), '' @ show_nat n @ '')'') s) @ ''}''"

end
