(* ===== verification/Contract.thy ===== *)
theory Contract
  imports Sem_System
begin

text \<open>
  Verification contracts (\<open>src/src/explore/contract.rs\<close>): the symbolic specification, its
  validation and its resolution against a program. The error messages of resolution are the
  constructors of \<open>resolve_error\<close>; a JSON document is a value of the type the parser parameter
  \<open>'j json_api\<close> reads. Default values of omitted fields are those of \<open>serde\<close>'s default functions.
\<close>

subsection \<open>Data\<close>

record assumptions =
  as_sequential_consistency :: bool
  as_no_spurious_wakeups :: bool

definition assumptions_default :: assumptions where
  "assumptions_default = \<lparr>as_sequential_consistency = True, as_no_spurious_wakeups = True\<rparr>"

record patch_scope =
  sp_functions :: "string list"
  sp_modules :: "string list"
  sp_allow_lock_reorder :: bool
  sp_allow_statement_delete :: bool

definition allows_module :: "patch_scope \<Rightarrow> string \<Rightarrow> bool" where
  "allows_module s name \<longleftrightarrow> sp_modules s = [] \<or> list_ex (\<lambda>m. m = name) (sp_modules s)"

definition allows_function :: "patch_scope \<Rightarrow> string \<Rightarrow> string \<Rightarrow> bool" where
  "allows_function s m f \<longleftrightarrow> sp_functions s = [] \<or>
     list_ex (\<lambda>entry. case split_once fqn_sep entry of
         Some (m', f') \<Rightarrow> m' = m \<and> f' = f
       | None \<Rightarrow> entry = f) (sp_functions s)"

definition patch_scope_unrestricted :: patch_scope where
  "patch_scope_unrestricted = \<lparr>sp_functions = [], sp_modules = [], sp_allow_lock_reorder = True,
     sp_allow_statement_delete = False\<rparr>"

datatype 'j predicate_spec =
    SpTrue
  | SpFalse
  | SpVarEq string 'j
  | SpVarCmp string string 'j
  | SpFunctionCompleted string
  | SpFunctionCompletedAtLeast string nat
  | SpScopeCompleted string string
  | SpStatementReached string string
  | SpMutexFree string
  | SpMutexHeld string
  | SpHoldsAll string "string list"
  | SpMutexExclusive string
  | SpNeverHoldsAll string "string list"
  | SpChannelEmpty string
  | SpChannelAtLeast string nat
  | SpNot "'j predicate_spec"
  | SpAnd "'j predicate_spec list"
  | SpOr "'j predicate_spec list"

datatype 'j property_spec =
    SpecSafety string "'j predicate_spec"
  | SpecDeadlockFree string
  | SpecReachability string "'j predicate_spec"
  | SpecAlwaysReachable string "'j predicate_spec"
  | SpecUnreachable string "'j predicate_spec"

datatype 'j preserved_spec =
    SpecReachable string "'j predicate_spec"
  | SpecAlways string "'j predicate_spec"

datatype property =
    Safety predicate
  | DeadlockFree
  | Reachability predicate
  | AlwaysReachable predicate
  | Unreachable predicate

record property_resolved =
  pr_id :: string
  pr_property :: property

datatype preserved = Reachable predicate | Always predicate

record preserved_behavior =
  pb_description :: string
  pb_behavior :: preserved

record bounds_spec =
  bs_max_threads :: nat
  bs_max_frames_per_thread :: nat
  bs_max_states :: nat
  bs_max_depth :: nat
  bs_max_boundary_events :: nat

definition bounds_spec_default :: bounds_spec where
  "bounds_spec_default = \<lparr>bs_max_threads = 16, bs_max_frames_per_thread = 32,
     bs_max_states = 200000, bs_max_depth = 400, bs_max_boundary_events = 4096\<rparr>"

definition bounds_of_spec :: "bounds_spec \<Rightarrow> analysis_bounds" where
  "bounds_of_spec b = \<lparr>max_threads = bs_max_threads b,
     max_frames_per_thread = bs_max_frames_per_thread b, max_states = bs_max_states b,
     max_depth = bs_max_depth b, max_boundary_events = bs_max_boundary_events b\<rparr>"

record 'j contract_spec =
  cs_name :: string
  cs_properties :: "'j property_spec list"
  cs_preserved :: "'j preserved_spec list"
  cs_assumptions :: assumptions
  cs_bounds :: bounds_spec
  cs_allowed_scope :: patch_scope

record 'j contract =
  ct_name :: string
  ct_properties :: "property_resolved list"
  ct_preserved :: "preserved_behavior list"
  ct_assumptions :: assumptions
  ct_bounds :: analysis_bounds
  ct_allowed_scope :: patch_scope
  ct_source :: "'j contract_spec"

datatype resolve_error =
    UnknownResource string
  | UnknownFunction string
  | NoStatement string string
  | IncompatibleKind string
  | NotData string
  | NoValueType
  | BadValue
  | UnknownOperator string

datatype contract_error =
    AssumptionNotModeled string
  | EmptyPropertyId
  | DuplicatePropertyId string
  | BoundTooSmall string
  | BadPredicate resolve_error

text \<open>\<open>ContractError\<close> has two constructors; the first row above is its \<open>Unsupported\<close>.\<close>

fun contract_unsupported :: "contract_error \<Rightarrow> bool" where
  "contract_unsupported (AssumptionNotModeled n) = True"
| "contract_unsupported _ = False"

subsection \<open>The predicates a contract observes\<close>

fun property_predicates :: "property \<Rightarrow> predicate list" where
  "property_predicates (Safety p) = [p]"
| "property_predicates (Unreachable p) = [p]"
| "property_predicates (Reachability p) = [p]"
| "property_predicates (AlwaysReachable p) = [p]"
| "property_predicates DeadlockFree = []"

fun preserved_predicate :: "preserved \<Rightarrow> predicate" where
  "preserved_predicate (Reachable p) = p"
| "preserved_predicate (Always p) = p"

definition contract_predicates :: "'j contract \<Rightarrow> predicate list" where
  "contract_predicates c =
     concat (map (\<lambda>p. property_predicates (pr_property p)) (ct_properties c)) @
     map (\<lambda>p. preserved_predicate (pb_behavior p)) (ct_preserved c)"

subsection \<open>Validation\<close>

definition validate_assumptions :: "assumptions \<Rightarrow> (contract_error, unit) outc" where
  "validate_assumptions a =
    (if \<not> as_sequential_consistency a then Err (AssumptionNotModeled ''sequential_consistency'')
     else if \<not> as_no_spurious_wakeups a then Err (AssumptionNotModeled ''no_spurious_wakeups'')
     else Ok ())"

fun check_bounds :: "(string \<times> nat) list \<Rightarrow> (contract_error, unit) outc" where
  "check_bounds [] = Ok ()"
| "check_bounds ((name, v) # bs) = (if v = 0 then Err (BoundTooSmall name) else check_bounds bs)"

definition validate_bounds :: "bounds_spec \<Rightarrow> (contract_error, unit) outc" where
  "validate_bounds b = check_bounds
     [(''max_threads'', bs_max_threads b), (''max_frames_per_thread'', bs_max_frames_per_thread b),
      (''max_states'', bs_max_states b), (''max_depth'', bs_max_depth b),
      (''max_boundary_events'', bs_max_boundary_events b)]"

fun property_id :: "'j property_spec \<Rightarrow> string" where
  "property_id (SpecSafety i p) = i"
| "property_id (SpecDeadlockFree i) = i"
| "property_id (SpecReachability i p) = i"
| "property_id (SpecAlwaysReachable i p) = i"
| "property_id (SpecUnreachable i p) = i"

text \<open>\<open>s.trim().is_empty()\<close> on the UTF-8 bytes of a string: only Unicode white space.\<close>

fun blank_bytes :: "nat list \<Rightarrow> bool" where
  "blank_bytes [] = True"
| "blank_bytes (b # bs) =
    (if (9 \<le> b \<and> b \<le> 13) \<or> b = 32 then blank_bytes bs
     else case bs of
         c # cs \<Rightarrow>
           if b = 0xC2 \<and> (c = 0x85 \<or> c = 0xA0) then blank_bytes cs
           else (case cs of
               d # ds \<Rightarrow>
                 (b = 0xE1 \<and> c = 0x9A \<and> d = 0x80 \<or>
                  b = 0xE2 \<and> c = 0x80 \<and> (0x80 \<le> d \<and> d \<le> 0x8A \<or> d = 0xA8 \<or> d = 0xA9 \<or> d = 0xAF) \<or>
                  b = 0xE2 \<and> c = 0x81 \<and> d = 0x9F \<or>
                  b = 0xE3 \<and> c = 0x80 \<and> d = 0x80) \<and> blank_bytes ds
             | [] \<Rightarrow> False)
       | [] \<Rightarrow> False)"

definition is_blank :: "string \<Rightarrow> bool" where
  "is_blank s = blank_bytes (map of_char s)"

fun validate_ids :: "string list \<Rightarrow> string list \<Rightarrow> (contract_error, unit) outc" where
  "validate_ids seen [] = Ok ()"
| "validate_ids seen (i # is) =
    (if is_blank i then Err EmptyPropertyId
     else if i \<in> set seen then Err (DuplicatePropertyId i)
     else validate_ids (i # seen) is)"

subsection \<open>Resolving predicates\<close>

definition lookup_resource :: "sem_program \<Rightarrow> module_id \<Rightarrow> string \<Rightarrow> (resolve_error, resource_id) outc" where
  "lookup_resource P m name = ok_or (UnknownResource name) (resolve_resource P m name)"

definition lookup_function :: "sem_program \<Rightarrow> module_id \<Rightarrow> string \<Rightarrow> (resolve_error, function_id) outc" where
  "lookup_function P m name = ok_or (UnknownFunction name) (resolve_function P m name)"

definition expect_kind ::
  "sem_program \<Rightarrow> resource_id \<Rightarrow> string \<Rightarrow> res_kind list \<Rightarrow> (resolve_error, unit) outc" where
  "expect_kind P r name allowed =
     rbind (index (p_resources P) r) (\<lambda>res.
       if r_kind res \<in> set allowed then Ok () else Err (IncompatibleKind name))"

definition resolve_kinded ::
  "sem_program \<Rightarrow> module_id \<Rightarrow> res_kind list \<Rightarrow> string \<Rightarrow> (resolve_error, resource_id) outc" where
  "resolve_kinded P m allowed name =
     rbind (lookup_resource P m name) (\<lambda>r. rbind (expect_kind P r name allowed) (\<lambda>_. Ok r))"

definition resolve_value ::
  "('j, 'x) json_api_scheme \<Rightarrow> sem_program \<Rightarrow> resource_id \<Rightarrow> 'j \<Rightarrow> (resolve_error, cvalue) outc" where
  "resolve_value A P r j =
     rbind (index (p_resources P) r) (\<lambda>res.
       if r_kind res \<noteq> KVar \<and> r_kind res \<noteq> KAtomic then Err (NotData (r_name res))
       else rbind (ok_or NoValueType (r_ty res)) (\<lambda>ty.
         case from_json A j ty of Ok v \<Rightarrow> Ok v | Err e \<Rightarrow> Err BadValue | Panic \<Rightarrow> Panic))"

definition parse_op :: "string \<Rightarrow> (resolve_error, cmp_op) outc" where
  "parse_op s =
    (if s = ''=='' then Ok CEq else if s = ''!='' then Ok CNe else if s = ''<'' then Ok CLt
     else if s = ''<='' then Ok CLe else if s = ''>'' then Ok CGt else if s = ''>='' then Ok CGe
     else Err (UnknownOperator s))"

definition resolve_statement ::
  "sem_program \<Rightarrow> module_id \<Rightarrow> string \<Rightarrow> string \<Rightarrow> (resolve_error, function_id \<times> nat) outc" where
  "resolve_statement P m f sid =
     rbind (lookup_function P m f) (\<lambda>fid.
     rbind (index (p_functions P) fid) (\<lambda>fn.
     rbind (ok_or (NoStatement f sid) (stmt_index fn sid)) (\<lambda>i. Ok (fid, i))))"

fun resolve_predicate ::
  "('j, 'x) json_api_scheme \<Rightarrow> sem_program \<Rightarrow> module_id \<Rightarrow> 'j predicate_spec \<Rightarrow> (resolve_error, predicate) outc" where
  "resolve_predicate A P m SpTrue = Ok PTrue"
| "resolve_predicate A P m SpFalse = Ok PFalse"
| "resolve_predicate A P m (SpVarEq r j) =
     rbind (lookup_resource P m r) (\<lambda>r. rbind (resolve_value A P r j) (\<lambda>v. Ok (VarEq r v)))"
| "resolve_predicate A P m (SpVarCmp r p j) =
     rbind (lookup_resource P m r) (\<lambda>r. rbind (resolve_value A P r j) (\<lambda>v.
       rbind (parse_op p) (\<lambda>p. Ok (VarCmp r p v))))"
| "resolve_predicate A P m (SpFunctionCompleted f) =
     rbind (lookup_function P m f) (\<lambda>f. Ok (FunctionCompleted f))"
| "resolve_predicate A P m (SpFunctionCompletedAtLeast f n) =
     rbind (lookup_function P m f) (\<lambda>f. Ok (FunctionCompletedAtLeast f n))"
| "resolve_predicate A P m (SpScopeCompleted f sid) =
     rbind (resolve_statement P m f sid) (\<lambda>(f, i). Ok (ScopeCompleted f i))"
| "resolve_predicate A P m (SpStatementReached f sid) =
     rbind (resolve_statement P m f sid) (\<lambda>(f, i). Ok (StatementReached f i))"
| "resolve_predicate A P m (SpMutexFree r) =
     rbind (resolve_kinded P m [KMutex] r) (\<lambda>r. Ok (MutexFree r))"
| "resolve_predicate A P m (SpMutexHeld r) =
     rbind (resolve_kinded P m [KMutex] r) (\<lambda>r. Ok (MutexHeld r))"
| "resolve_predicate A P m (SpHoldsAll f rs) =
     rbind (lookup_function P m f) (\<lambda>f.
     rbind (mapM (resolve_kinded P m [KMutex, KSemaphore]) rs) (\<lambda>rs. Ok (HoldsAll f rs)))"
| "resolve_predicate A P m (SpMutexExclusive r) =
     rbind (resolve_kinded P m [KMutex, KSemaphore] r) (\<lambda>r. Ok (MutexExclusive r))"
| "resolve_predicate A P m (SpNeverHoldsAll f rs) =
     rbind (lookup_function P m f) (\<lambda>f.
     rbind (mapM (resolve_kinded P m [KMutex, KSemaphore]) rs) (\<lambda>rs. Ok (NeverHoldsAll f rs)))"
| "resolve_predicate A P m (SpChannelEmpty r) =
     rbind (resolve_kinded P m [KChannel] r) (\<lambda>r. Ok (ChannelEmpty r))"
| "resolve_predicate A P m (SpChannelAtLeast r n) =
     rbind (resolve_kinded P m [KChannel] r) (\<lambda>r. Ok (ChannelAtLeast r n))"
| "resolve_predicate A P m (SpNot p) =
     rbind (resolve_predicate A P m p) (\<lambda>p. Ok (PNot p))"
| "resolve_predicate A P m (SpAnd ps) =
     rbind (mapM (resolve_predicate A P m) ps) (\<lambda>ps. Ok (PAnd ps))"
| "resolve_predicate A P m (SpOr ps) =
     rbind (mapM (resolve_predicate A P m) ps) (\<lambda>ps. Ok (POr ps))"

subsection \<open>Resolving contracts\<close>

definition invalid_predicate :: "(resolve_error, 'a) outc \<Rightarrow> (contract_error, 'a) outc" where
  "invalid_predicate m = (case m of Ok x \<Rightarrow> Ok x | Err e \<Rightarrow> Err (BadPredicate e) | Panic \<Rightarrow> Panic)"

fun resolve_property ::
  "('j, 'x) json_api_scheme \<Rightarrow> sem_program \<Rightarrow> module_id \<Rightarrow> 'j property_spec \<Rightarrow> (contract_error, property_resolved) outc" where
  "resolve_property A P m (SpecSafety i p) = rbind (invalid_predicate (resolve_predicate A P m p))
     (\<lambda>p. Ok \<lparr>pr_id = i, pr_property = Safety p\<rparr>)"
| "resolve_property A P m (SpecDeadlockFree i) = Ok \<lparr>pr_id = i, pr_property = DeadlockFree\<rparr>"
| "resolve_property A P m (SpecReachability i p) = rbind (invalid_predicate (resolve_predicate A P m p))
     (\<lambda>p. Ok \<lparr>pr_id = i, pr_property = Reachability p\<rparr>)"
| "resolve_property A P m (SpecAlwaysReachable i p) = rbind (invalid_predicate (resolve_predicate A P m p))
     (\<lambda>p. Ok \<lparr>pr_id = i, pr_property = AlwaysReachable p\<rparr>)"
| "resolve_property A P m (SpecUnreachable i p) = rbind (invalid_predicate (resolve_predicate A P m p))
     (\<lambda>p. Ok \<lparr>pr_id = i, pr_property = Unreachable p\<rparr>)"

fun resolve_preserved ::
  "('j, 'x) json_api_scheme \<Rightarrow> sem_program \<Rightarrow> module_id \<Rightarrow> 'j preserved_spec \<Rightarrow> (contract_error, preserved_behavior) outc" where
  "resolve_preserved A P m (SpecReachable d p) = rbind (invalid_predicate (resolve_predicate A P m p))
     (\<lambda>p. Ok \<lparr>pb_description = d, pb_behavior = Reachable p\<rparr>)"
| "resolve_preserved A P m (SpecAlways d p) = rbind (invalid_predicate (resolve_predicate A P m p))
     (\<lambda>p. Ok \<lparr>pb_description = d, pb_behavior = Always p\<rparr>)"

definition module_of_entry :: "sem_program \<Rightarrow> ('e, module_id) outc" where
  "module_of_entry P = rbind (index (p_functions P) (p_entry P)) (\<lambda>f. Ok (f_module f))"

definition resolve_contract ::
  "('j, 'x) json_api_scheme \<Rightarrow> sem_program \<Rightarrow> 'j contract_spec \<Rightarrow> (contract_error, 'j contract) outc" where
  "resolve_contract A P s =
     rbind (validate_assumptions (cs_assumptions s)) (\<lambda>_.
     rbind (validate_bounds (cs_bounds s)) (\<lambda>_.
     rbind (validate_ids [] (map property_id (cs_properties s))) (\<lambda>_.
     rbind (module_of_entry P) (\<lambda>m.
     rbind (mapM (resolve_property A P m) (cs_properties s)) (\<lambda>props.
     rbind (mapM (resolve_preserved A P m) (cs_preserved s)) (\<lambda>pres.
       Ok \<lparr>ct_name = cs_name s, ct_properties = props, ct_preserved = pres,
           ct_assumptions = cs_assumptions s, ct_bounds = bounds_of_spec (cs_bounds s),
           ct_allowed_scope = cs_allowed_scope s, ct_source = s\<rparr>))))))"

definition rebind :: "('j, 'x) json_api_scheme \<Rightarrow> sem_program \<Rightarrow> 'j contract \<Rightarrow> (contract_error, 'j contract) outc" where
  "rebind A P c = resolve_contract A P (ct_source c)"

end
