(* ===== verification/Explore.thy ===== *)
theory Explore
  imports Contract
begin

text \<open>
  The explorer (\<open>src/src/explore/mod.rs\<close>): breadth-first search of a transition system up to the
  analysis bounds and the evaluation of a contract on the explored graph. The loops run with
  fuel; \<open>Explore_Laws\<close> shows that \<open>Suc (max_states)\<close> rounds are always enough. The indices the
  code uses to address the graph's vectors are in range (the invariant \<open>graph_ok\<close> there). The
  human-readable texts (details, messages, hints, proven facts) and the fingerprints are not
  modelled.
\<close>

subsection \<open>The explored graph\<close>

record 's graph =
  g_states :: "'s list"
  g_index :: "(string \<times> nat) list"
  g_edges :: "(nat \<times> step_label) list list"
  g_pred :: "(nat \<times> step_label) option list"
  g_had_boundary :: "bool list"
  g_depth :: "nat list"
  g_processed :: "bool list"

record 's search =
  sr_graph :: "'s graph"
  sr_queue :: "nat list"
  sr_unsupported :: "unsupported_rec list"
  sr_invalid :: "invalid_rec list"
  sr_boundary :: "boundary_event list"
  sr_truncated :: bool
  sr_transitions :: nat

definition graph_init :: "string \<Rightarrow> 's \<Rightarrow> 's graph" where
  "graph_init key init = \<lparr>g_states = [init], g_index = [(key, 0)], g_edges = [[]], g_pred = [None],
     g_had_boundary = [False], g_depth = [0], g_processed = [False]\<rparr>"

definition search_init :: "string \<Rightarrow> 's \<Rightarrow> 's search" where
  "search_init key init = \<lparr>sr_graph = graph_init key init, sr_queue = [0], sr_unsupported = [],
     sr_invalid = [], sr_boundary = [], sr_truncated = False, sr_transitions = 0\<rparr>"

definition add_edge :: "nat \<Rightarrow> nat \<Rightarrow> step_label \<Rightarrow> 's graph \<Rightarrow> 's graph" where
  "add_edge i j l g = g\<lparr>g_edges := (g_edges g)[i := g_edges g ! i @ [(j, l)]]\<rparr>"

definition add_state :: "string \<Rightarrow> 's \<Rightarrow> nat \<Rightarrow> step_label \<Rightarrow> nat \<Rightarrow> 's graph \<Rightarrow> 's graph" where
  "add_state key succ i l depth g =
     \<lparr>g_states = g_states g @ [succ], g_index = (key, length (g_states g)) # g_index g,
      g_edges = g_edges g @ [[]], g_pred = g_pred g @ [Some (i, l)],
      g_had_boundary = g_had_boundary g @ [False], g_depth = g_depth g @ [depth + 1],
      g_processed = g_processed g @ [False]\<rparr>"

text \<open>One enabled step of the state \<open>idx\<close>: an edge to the known state with that key, or a new state.\<close>

definition record_step :: "'s tsystem \<Rightarrow> nat \<Rightarrow> nat \<Rightarrow> 's step \<Rightarrow> 's search \<Rightarrow> 's search backend_result" where
  "record_step sys idx depth stp s =
     rbind (ts_state_key sys (step_state stp)) (\<lambda>key.
       let g = sr_graph s; n = Suc (sr_transitions s) in
       case map_of (g_index g) key of
         Some j \<Rightarrow> Ok (s\<lparr>sr_graph := add_edge idx j (step_lab stp) g, sr_transitions := n\<rparr>)
       | None \<Rightarrow>
           let j = length (g_states g) in
           Ok (s\<lparr>sr_graph := add_edge idx j (step_lab stp)
                  (add_state key (step_state stp) idx (step_lab stp) depth g),
                sr_queue := sr_queue s @ [j], sr_transitions := n\<rparr>))"

definition mark_boundary :: "nat \<Rightarrow> 's search \<Rightarrow> 's search" where
  "mark_boundary i s = s\<lparr>sr_graph := (sr_graph s)
     \<lparr>g_had_boundary := (g_had_boundary (sr_graph s))[i := True]\<rparr>\<rparr>"

definition mark_processed :: "nat \<Rightarrow> 's search \<Rightarrow> 's search" where
  "mark_processed i s = s\<lparr>sr_graph := (sr_graph s)
     \<lparr>g_processed := (g_processed (sr_graph s))[i := True]\<rparr>\<rparr>"

definition expand :: "'s tsystem \<Rightarrow> nat \<Rightarrow> nat \<Rightarrow> 's search \<Rightarrow> 's search backend_result" where
  "expand sys idx depth s =
    (case ts_successors sys (g_states (sr_graph s) ! idx) of
       Ok en \<Rightarrow>
         let s1 = (if en_boundary en = [] then s
                   else (mark_boundary idx s)\<lparr>sr_boundary := sr_boundary s @ en_boundary en\<rparr>)
         in foldM (record_step sys idx depth) (en_steps en) s1
     | Err (Unsupported u) \<Rightarrow>
         Ok ((mark_boundary idx s)\<lparr>sr_unsupported := sr_unsupported s @ [u]\<rparr>)
     | Err (Invalid i) \<Rightarrow> Ok ((mark_boundary idx s)\<lparr>sr_invalid := sr_invalid s @ [i]\<rparr>)
     | Panic \<Rightarrow> Panic)"

subsection \<open>The search loops\<close>

text \<open>The result of one round: go on, or leave the loop.\<close>

datatype 's round = Continue 's | Break 's

definition cut_off :: "boundary_kind \<Rightarrow> 's search \<Rightarrow> 's search" where
  "cut_off k s = s\<lparr>sr_truncated := True, sr_boundary := sr_boundary s @ [boundary_new k]\<rparr>"

definition event_limit :: "analysis_bounds \<Rightarrow> 's search \<Rightarrow> 's search round" where
  "event_limit b s =
    (if length (sr_boundary s) > max_boundary_events b then Break (s\<lparr>sr_truncated := True\<rparr>)
     else Continue s)"

text \<open>One round of the loop of \<open>verify\<close>, then of the loop of \<open>explore\<close>, for the popped index.\<close>

definition verify_round ::
  "'s tsystem \<Rightarrow> analysis_bounds \<Rightarrow> nat \<Rightarrow> 's search \<Rightarrow> 's search round backend_result" where
  "verify_round sys b idx s =
    (if length (g_states (sr_graph s)) \<ge> max_states b then Ok (Break (cut_off StateLimit s))
     else
       let s1 = mark_processed idx s; depth = g_depth (sr_graph s1) ! idx in
       if depth \<ge> max_depth b then Ok (Continue (cut_off DepthLimit (mark_boundary idx s1)))
       else rbind (expand sys idx depth s1) (\<lambda>s2. Ok (event_limit b s2)))"

definition explore_round ::
  "'s tsystem \<Rightarrow> analysis_bounds \<Rightarrow> nat \<Rightarrow> 's search \<Rightarrow> 's search round backend_result" where
  "explore_round sys b idx s =
    (if length (g_states (sr_graph s)) \<ge> max_states b then Ok (Break (cut_off StateLimit s))
     else
       let s1 = mark_processed idx s; depth = g_depth (sr_graph s1) ! idx in
       if depth \<ge> max_depth b then
         let s2 = cut_off DepthLimit (mark_boundary idx s1) in
         Ok (if length (sr_boundary s2) > max_boundary_events b then Break s2 else Continue s2)
       else rbind (expand sys idx depth s1) (\<lambda>s2. Ok (event_limit b s2)))"

text \<open>\<open>while let Some(idx) = queue.pop_front()\<close>; \<open>None\<close> when the fuel runs out.\<close>

fun search_loop ::
  "(nat \<Rightarrow> 's search \<Rightarrow> 's search round backend_result) \<Rightarrow> nat \<Rightarrow> 's search \<Rightarrow> 's search option backend_result" where
  "search_loop rnd fuel s =
    (case sr_queue s of
       [] \<Rightarrow> Ok (Some s)
     | idx # q \<Rightarrow> (case fuel of
           0 \<Rightarrow> Ok None
         | Suc n \<Rightarrow> rbind (rnd idx (s\<lparr>sr_queue := q\<rparr>)) (\<lambda>r. case r of
               Break s' \<Rightarrow> Ok (Some s')
             | Continue s' \<Rightarrow> search_loop rnd n s')))"

declare search_loop.simps [simp del]

definition search_fuel :: "analysis_bounds \<Rightarrow> nat" where
  "search_fuel b = Suc (max_states b)"

record 's reachability =
  re_states :: "'s list"
  re_edges :: "(nat \<times> step_label) list list"
  re_boundary :: "boundary_event list"
  re_unsupported :: "unsupported_rec list"
  re_invalid :: "invalid_rec list"
  re_truncated :: bool

definition explore :: "'s tsystem \<Rightarrow> analysis_bounds \<Rightarrow> 's reachability option backend_result" where
  "explore sys b =
    (case ts_initial sys of
       Panic \<Rightarrow> Panic
     | Err e \<Rightarrow> Ok (Some \<lparr>re_states = [], re_edges = [], re_boundary = [], re_unsupported = [],
         re_invalid = [], re_truncated = False\<rparr>)
     | Ok init \<Rightarrow>
         rbind (ts_state_key sys init) (\<lambda>key.
         rbind (search_loop (explore_round sys b) (search_fuel b) (search_init key init)) (\<lambda>r.
           Ok (map_option (\<lambda>s. \<lparr>re_states = g_states (sr_graph s), re_edges = g_edges (sr_graph s),
             re_boundary = sr_boundary s, re_unsupported = sr_unsupported s,
             re_invalid = sr_invalid s, re_truncated = sr_truncated s\<rparr>) r))))"

text \<open>\<open>reachable_canonical\<close>: the sorted canonical texts of the explored states.\<close>

definition reachable_canonical ::
  "'s tsystem \<Rightarrow> analysis_bounds \<Rightarrow> (string list \<times> boundary_event list) option backend_result" where
  "reachable_canonical sys b =
     rbind (explore sys b) (\<lambda>r. case r of
         None \<Rightarrow> Ok None
       | Some r \<Rightarrow> rbind (mapM (ts_canonical sys) (re_states r)) (\<lambda>cs.
           Ok (Some (remdups (sort cs), re_boundary r))))"

subsection \<open>Diagnostics\<close>

record cir_statement_ref =
  ci_module :: string
  ci_function :: string
  ci_sid :: "string option"

record diagnostic_record =
  di_property :: string
  di_outcome :: outcome
  di_complete :: bool
  di_counterexample :: "step_label list"
  di_final_instances :: "instance_state list"
  di_blocked :: "blocked_record list"
  di_cir_statements :: "cir_statement_ref list"
  di_counterexample_names :: "string list"
  di_doom_state :: doom_state

record property_result =
  rs_id :: string
  rs_outcome :: outcome

text \<open>
  The labels from the root to \<open>idx\<close> along the predecessors; \<open>None\<close> when the fuel runs out.
  A predecessor has a smaller index, so \<open>Suc idx\<close> rounds are enough.
\<close>

fun trace_back :: "(nat \<times> step_label) option list \<Rightarrow> nat \<Rightarrow> nat \<Rightarrow> step_label list \<Rightarrow> step_label list option" where
  "trace_back pred 0 cur labels = None"
| "trace_back pred (Suc n) cur labels = (case pred ! cur of
      None \<Rightarrow> Some labels
    | Some (parent, l) \<Rightarrow> trace_back pred n parent (l # labels))"

definition counterexample :: "'s graph \<Rightarrow> nat \<Rightarrow> step_label list option" where
  "counterexample g idx = trace_back (g_pred g) (Suc idx) idx []"

definition cir_ref :: "sem_program \<Rightarrow> function_id \<Rightarrow> nat option \<Rightarrow> cir_statement_ref backend_result" where
  "cir_ref P f sid =
     rbind (function_of P f) (\<lambda>fn. rbind (mod_name P (f_module fn)) (\<lambda>m.
       Ok \<lparr>ci_module = m, ci_function = f_name fn,
           ci_sid = map_option st_sid (Option.bind sid (nth_opt (f_body fn)))\<rparr>))"

definition render_step_label :: "sem_program \<Rightarrow> step_label \<Rightarrow> string backend_result" where
  "render_step_label P l =
     rbind (cir_ref P (or_function (lb_origin l)) (or_sid (lb_origin l))) (\<lambda>c.
       Ok (ci_module c @ ''::'' @ ci_function c @ ''::'' @
         (case ci_sid c of Some s \<Rightarrow> s | None \<Rightarrow> ''-'')))"

definition trace_names :: "sem_program \<Rightarrow> 's graph \<Rightarrow> nat \<Rightarrow> (step_label list \<times> string list) backend_result" where
  "trace_names P g idx =
     rbind (unwrap (counterexample g idx)) (\<lambda>ce.
     rbind (mapM (render_step_label P) ce) (\<lambda>names. Ok (ce, names)))"

definition make_diagnostic ::
  "'s tsystem \<Rightarrow> 's graph \<Rightarrow> string \<Rightarrow> nat \<Rightarrow> bool \<Rightarrow> diagnostic_record backend_result" where
  "make_diagnostic sys g pid idx complete =
    (let P = ts_program sys; st = g_states g ! idx in
     rbind (ts_instances sys st) (\<lambda>insts.
     rbind (ts_blocked sys st) (\<lambda>bl.
     rbind (mapM (\<lambda>i. cir_ref P (is_function i) (is_sid i)) insts) (\<lambda>refs.
     rbind (trace_names P g idx) (\<lambda>(ce, names).
     rbind (ts_doom_snapshot sys st) (\<lambda>doom.
       Ok \<lparr>di_property = pid, di_outcome = Fail, di_complete = complete, di_counterexample = ce,
           di_final_instances = insts, di_blocked = bl, di_cir_statements = refs,
           di_counterexample_names = names, di_doom_state = doom\<rparr>))))))"

text \<open>\<open>max_by_key\<close> keeps the last of the largest.\<close>

fun last_max :: "nat list \<Rightarrow> (nat \<times> nat) option \<Rightarrow> nat \<Rightarrow> (nat \<times> nat) option" where
  "last_max [] best i = best"
| "last_max (n # ns) best i = last_max ns
     (case best of None \<Rightarrow> Some (i, n) | Some (k, m) \<Rightarrow> if n \<ge> m then Some (i, n) else best) (Suc i)"

definition best_doom_index :: "'s tsystem \<Rightarrow> 's graph \<Rightarrow> nat option backend_result" where
  "best_doom_index sys g =
     rbind (mapM (\<lambda>s. rbind (ts_blocked sys s) (\<lambda>bl. Ok (length bl))) (g_states g)) (\<lambda>ns.
       Ok (case last_max ns None 0 of Some (i, n) \<Rightarrow> if n = 0 then None else Some i | None \<Rightarrow> None))"

definition doom_view :: "'s tsystem \<Rightarrow> 's graph \<Rightarrow> nat option \<Rightarrow> (string list \<times> doom_state) backend_result" where
  "doom_view sys g idx = (case idx of
      Some i \<Rightarrow>
        rbind (ts_doom_snapshot sys (g_states g ! i)) (\<lambda>doom.
        rbind (trace_names (ts_program sys) g i) (\<lambda>(ce, names). Ok (names, doom)))
    | None \<Rightarrow> Ok ([], doom_default))"

text \<open>The diagnostic of a goal that no explored state satisfies has no trace of its own.\<close>

definition unreachable_diagnostic ::
  "'s tsystem \<Rightarrow> 's graph \<Rightarrow> string \<Rightarrow> bool \<Rightarrow> diagnostic_record backend_result" where
  "unreachable_diagnostic sys g pid complete =
     rbind (best_doom_index sys g) (\<lambda>i. rbind (doom_view sys g i) (\<lambda>(names, doom).
       Ok \<lparr>di_property = pid, di_outcome = Fail, di_complete = complete, di_counterexample = [],
           di_final_instances = [], di_blocked = [], di_cir_statements = [],
           di_counterexample_names = names, di_doom_state = doom\<rparr>))"

end
