(* ===== verification/Explore_Verify.thy ===== *)
theory Explore_Verify
  imports Explore
begin

text \<open>
  Property checking and the verification report (\<open>src/src/explore/mod.rs\<close>): backward
  reachability, \<open>check_property\<close>, preserved behaviour, the overall outcome, and the part of
  \<open>verify_program\<close> that follows lowering, for the interpreter engine.
\<close>

subsection \<open>Backward reachability\<close>

text \<open>The code's \<open>rev[t]\<close>: the sources of the edges into \<open>t\<close>, in the order they are pushed.\<close>

definition rev_of :: "(nat \<times> step_label) list list \<Rightarrow> nat \<Rightarrow> nat list" where
  "rev_of edges t =
     concat (map (\<lambda>(i, es). map (\<lambda>_. i) (filter (\<lambda>(j, l). j = t) es)) (enumerate 0 edges))"

fun mark_new :: "nat list \<Rightarrow> nat list \<Rightarrow> nat list \<Rightarrow> nat list \<times> nat list" where
  "mark_new [] seen stack = (seen, stack)"
| "mark_new (p # ps) seen stack =
    (if p \<in> set seen then mark_new ps seen stack else mark_new ps (p # seen) (p # stack))"

lemma rev_of_bound: "p \<in> set (rev_of edges t) \<longleftrightarrow>
    p < length edges \<and> (\<exists>l. (t, l) \<in> set (edges ! p))"
  by (force simp: rev_of_def in_set_enumerate_eq)

lemma mark_new_spec:
  "mark_new ps seen stack = (seen', stack') \<Longrightarrow>
    set seen' = set seen \<union> set ps \<and> set stack' = set stack \<union> (set ps - set seen)"
  by (induction ps arbitrary: seen stack) (auto split: if_splits)

lemma mark_new_measure:
  assumes "mark_new ps seen stack = (seen', stack')" "set ps \<subseteq> {..<n}"
  shows "2 * card ({..<n} - set seen') + length stack' \<le> 2 * card ({..<n} - set seen) + length stack"
  using assms
proof (induction ps arbitrary: seen stack)
  case (Cons p ps)
  show ?case
  proof (cases "p \<in> set seen")
    case True
    with Cons show ?thesis by simp
  next
    case False
    have "{..<n} - set (p # seen) = ({..<n} - set seen) - {p}" by auto
    moreover have "p \<in> {..<n} - set seen" using False Cons.prems(2) by simp
    ultimately have "Suc (card ({..<n} - set (p # seen))) = card ({..<n} - set seen)"
      by (metis card_Suc_Diff1 finite_Diff finite_lessThan)
    moreover have "2 * card ({..<n} - set seen') + length stack'
        \<le> 2 * card ({..<n} - set (p # seen)) + length (p # stack)"
      using Cons False by (metis mark_new.simps(2) set_subset_Cons subset_trans)
    ultimately show ?thesis by simp
  qed
qed simp

function reverse_loop :: "(nat \<times> step_label) list list \<Rightarrow> nat list \<Rightarrow> nat list \<Rightarrow> nat list" where
  "reverse_loop edges seen [] = seen"
| "reverse_loop edges seen (i # stack) =
     reverse_loop edges (fst (mark_new (rev_of edges i) seen stack))
       (snd (mark_new (rev_of edges i) seen stack))"
  by pat_completeness auto

termination
proof (relation "measure (\<lambda>(edges, seen, stack).
    2 * card ({..<length edges} - set seen) + length stack)", goal_cases)
  case (2 edges seen i stack)
  have "set (rev_of edges i) \<subseteq> {..<length edges}" by (auto simp: rev_of_bound)
  from mark_new_measure [OF prod.collapse [symmetric] this] show ?case
    by (simp add: less_Suc_eq_le split: prod.splits) (metis fst_conv snd_conv)
qed simp

definition reverse_reachable :: "'s graph \<Rightarrow> nat list \<Rightarrow> nat list" where
  "reverse_reachable g roots = reverse_loop (g_edges g) roots (rev roots)"

subsection \<open>Checking a property\<close>

definition result_of :: "string \<Rightarrow> outcome \<Rightarrow> property_result" where
  "result_of pid oc = \<lparr>rs_id = pid, rs_outcome = oc\<rparr>"

type_synonym checked = "property_result \<times> diagnostic_record list"

definition if_complete :: "bool \<Rightarrow> outcome \<Rightarrow> outcome" where
  "if_complete complete oc = (if complete then oc else Unknown)"

text \<open>A state was found that refutes the property, or none was.\<close>

definition check_bad ::
  "'s tsystem \<Rightarrow> 's graph \<Rightarrow> string \<Rightarrow> bool \<Rightarrow> nat option \<Rightarrow> checked backend_result" where
  "check_bad sys g pid complete found = (case found of
      Some i \<Rightarrow> rbind (make_diagnostic sys g pid i complete) (\<lambda>d. Ok (result_of pid Fail, [d]))
    | None \<Rightarrow> Ok (result_of pid (if_complete complete Pass), []))"

definition is_deadlock :: "'s tsystem \<Rightarrow> 's graph \<Rightarrow> nat \<Rightarrow> bool" where
  "is_deadlock sys g i \<longleftrightarrow> g_processed g ! i \<and> \<not> g_had_boundary g ! i \<and> g_edges g ! i = [] \<and>
     \<not> ts_is_finished sys (g_states g ! i)"

definition find_state :: "('s \<Rightarrow> bool backend_result) \<Rightarrow> 's graph \<Rightarrow> nat option backend_result" where
  "find_state p g = positionM p (g_states g)"

definition violates :: "'s tsystem \<Rightarrow> predicate \<Rightarrow> 's \<Rightarrow> bool backend_result" where
  "violates sys p s = rbind (ts_satisfied sys s p) (\<lambda>b. Ok (\<not> b))"

definition goal_states :: "'s tsystem \<Rightarrow> predicate \<Rightarrow> 's graph \<Rightarrow> nat list backend_result" where
  "goal_states sys goal g =
     filterM (\<lambda>i. ts_satisfied sys (g_states g ! i) goal) [0..<length (g_states g)]"

definition check_always_reachable ::
  "'s tsystem \<Rightarrow> 's graph \<Rightarrow> string \<Rightarrow> predicate \<Rightarrow> bool \<Rightarrow> checked backend_result" where
  "check_always_reachable sys g pid goal complete =
     rbind (goal_states sys goal g) (\<lambda>goals.
       if goals = [] then
         rbind (unreachable_diagnostic sys g pid complete) (\<lambda>d. Ok (result_of pid Fail, [d]))
       else
         let can_reach = reverse_reachable g goals in
         check_bad sys g pid complete
           (find (\<lambda>i. i \<notin> set can_reach) [0..<length (g_states g)]))"

fun check_property ::
  "'s tsystem \<Rightarrow> 's graph \<Rightarrow> string \<Rightarrow> property \<Rightarrow> bool \<Rightarrow> checked backend_result" where
  "check_property sys g pid (Safety ivt) complete =
     rbind (find_state (violates sys ivt) g) (check_bad sys g pid complete)"
| "check_property sys g pid (Unreachable bad) complete =
     rbind (find_state (\<lambda>s. ts_satisfied sys s bad) g) (check_bad sys g pid complete)"
| "check_property sys g pid DeadlockFree complete =
     check_bad sys g pid complete (position (is_deadlock sys g) [0..<length (g_states g)])"
| "check_property sys g pid (Reachability goal) complete =
     rbind (find_state (\<lambda>s. ts_satisfied sys s goal) g) (\<lambda>found. case found of
         Some i \<Rightarrow> rbind (unwrap (counterexample g i)) (\<lambda>ce. Ok (result_of pid Pass, []))
       | None \<Rightarrow>
           if complete then
             rbind (unreachable_diagnostic sys g pid complete) (\<lambda>d. Ok (result_of pid Fail, [d]))
           else Ok (result_of pid Unknown, []))"
| "check_property sys g pid (AlwaysReachable goal) complete =
     check_always_reachable sys g pid goal complete"

definition preserved_id :: "string \<Rightarrow> string" where
  "preserved_id d = ''preserved: '' @ d"

definition check_preserved ::
  "'s tsystem \<Rightarrow> 's graph \<Rightarrow> preserved_behavior \<Rightarrow> bool \<Rightarrow> checked backend_result" where
  "check_preserved sys g pb complete =
    (let pid = preserved_id (pb_description pb) in
     case pb_behavior pb of
       Reachable goal \<Rightarrow>
         rbind (anyM (\<lambda>s. ts_satisfied sys s goal) (g_states g)) (\<lambda>found.
           let oc = (if found then Pass else if complete then Fail else Unknown) in
           Ok (result_of pid oc, if oc = Fail then
             [\<lparr>di_property = pid, di_outcome = oc, di_complete = complete, di_counterexample = [],
               di_final_instances = [], di_blocked = [], di_cir_statements = [],
               di_counterexample_names = [], di_doom_state = doom_default\<rparr>] else []))
     | Always ivt \<Rightarrow>
         rbind (find_state (violates sys ivt) g) (check_bad sys g pid complete))"

subsection \<open>The report\<close>

record report =
  rp_outcome :: outcome
  rp_complete :: bool
  rp_states_explored :: nat
  rp_transitions_explored :: nat
  rp_properties :: "property_result list"
  rp_diagnostics :: "diagnostic_record list"
  rp_boundary_events :: "boundary_event list"
  rp_unsupported :: "unsupported_rec list"
  rp_invalid :: "invalid_rec list"
  rp_assumptions :: assumptions
  rp_bounds :: analysis_bounds
  rp_analysis_started :: bool

definition report_synthetic :: "outcome \<Rightarrow> bool \<Rightarrow> report" where
  "report_synthetic oc complete = \<lparr>rp_outcome = oc, rp_complete = complete, rp_states_explored = 0,
     rp_transitions_explored = 0, rp_properties = [], rp_diagnostics = [], rp_boundary_events = [],
     rp_unsupported = [], rp_invalid = [], rp_assumptions = assumptions_default,
     rp_bounds = default_bounds, rp_analysis_started = False\<rparr>"

text \<open>\<open>report_early\<close> with the requested configuration filled in.\<close>

definition report_early :: "'j contract \<Rightarrow> backend_error \<Rightarrow> report" where
  "report_early c e = (case e of
      Unsupported u \<Rightarrow> (report_synthetic Unsupported_Outcome False)
        \<lparr>rp_unsupported := [u], rp_assumptions := ct_assumptions c, rp_bounds := ct_bounds c\<rparr>
    | Invalid i \<Rightarrow> (report_synthetic Invalid_Outcome False)
        \<lparr>rp_invalid := [i], rp_assumptions := ct_assumptions c, rp_bounds := ct_bounds c\<rparr>)"

definition search_complete :: "'s search \<Rightarrow> bool" where
  "search_complete s \<longleftrightarrow> \<not> sr_truncated s \<and> sr_boundary s = [] \<and> sr_unsupported s = [] \<and> sr_invalid s = []"

definition overall_outcome :: "property_result list \<Rightarrow> 's search \<Rightarrow> outcome" where
  "overall_outcome results s =
    (if list_ex (\<lambda>r. rs_outcome r = Fail) results then Fail
     else if sr_invalid s \<noteq> [] then Invalid_Outcome
     else if sr_unsupported s \<noteq> [] then Unsupported_Outcome
     else if list_ex (\<lambda>r. rs_outcome r = Unknown) results \<or> \<not> search_complete s then Unknown
     else Pass)"

definition check_all :: "'s tsystem \<Rightarrow> 'j contract \<Rightarrow> 's search \<Rightarrow> report backend_result" where
  "check_all sys c s =
    (let g = sr_graph s; complete = search_complete s in
     rbind (mapM (\<lambda>p. check_property sys g (pr_id p) (pr_property p) complete) (ct_properties c)) (\<lambda>ps.
     rbind (mapM (\<lambda>b. check_preserved sys g b complete) (ct_preserved c)) (\<lambda>bs.
       let results = map fst ps @ map fst bs in
       Ok \<lparr>rp_outcome = overall_outcome results s, rp_complete = complete,
           rp_states_explored = length (g_states g), rp_transitions_explored = sr_transitions s,
           rp_properties = results, rp_diagnostics = concat (map snd ps @ map snd bs),
           rp_boundary_events = sr_boundary s, rp_unsupported = sr_unsupported s,
           rp_invalid = sr_invalid s, rp_assumptions = ct_assumptions c, rp_bounds = ct_bounds c,
           rp_analysis_started = True\<rparr>)))"

text \<open>\<open>None\<close>: the search loop ran out of fuel (never, see \<open>Explore_Laws\<close>).\<close>

definition verify :: "'s tsystem \<Rightarrow> 'j contract \<Rightarrow> report option backend_result" where
  "verify sys c =
    (case ts_initial sys of
       Panic \<Rightarrow> Panic
     | Err e \<Rightarrow> Ok (Some (report_early c e))
     | Ok init \<Rightarrow>
         rbind (ts_state_key sys init) (\<lambda>key.
         rbind (search_loop (verify_round sys (ct_bounds c)) (search_fuel (ct_bounds c))
           (search_init key init)) (\<lambda>r. case r of
             None \<Rightarrow> Ok None
           | Some s \<Rightarrow> rbind (check_all sys c s) (\<lambda>rep. Ok (Some rep)))))"

end
