(* ===== verification/Explore_Laws.thy ===== *)
theory Explore_Laws
  imports Explore_Verify
begin

text \<open>
  Correctness of the explorer: the invariant of the explored graph, enough fuel, reality of
  states, edges and traces, and coverage of the reachable states by a complete search.
\<close>

subsection \<open>Executions of a transition system\<close>

definition sys_step :: "'s tsystem \<Rightarrow> 's \<Rightarrow> step_label \<Rightarrow> 's \<Rightarrow> bool" where
  "sys_step sys s l t \<longleftrightarrow> (case ts_successors sys s of
      Ok en \<Rightarrow> \<lparr>step_lab = l, step_state = t\<rparr> \<in> set (en_steps en) | _ \<Rightarrow> False)"

inductive execution :: "'s tsystem \<Rightarrow> 's \<Rightarrow> step_label list \<Rightarrow> 's \<Rightarrow> bool" for sys where
  execution_refl: "execution sys s [] s"
| execution_step: "execution sys s ls t \<Longrightarrow> sys_step sys t l u \<Longrightarrow> execution sys s (ls @ [l]) u"

inductive reachable :: "'s tsystem \<Rightarrow> 's \<Rightarrow> bool" for sys where
  reachable_init: "ts_initial sys = Ok s \<Longrightarrow> reachable sys s"
| reachable_step: "reachable sys s \<Longrightarrow> sys_step sys s l t \<Longrightarrow> reachable sys t"

lemma execution_reachable:
  "execution sys s ls t \<Longrightarrow> ts_initial sys = Ok s \<Longrightarrow> reachable sys t"
  by (induction rule: execution.induct) (auto intro: reachable.intros)

lemma sys_step_iff:
  "sys_step sys s l t \<longleftrightarrow>
    (\<exists>en. ts_successors sys s = Ok en \<and> \<lparr>step_lab = l, step_state = t\<rparr> \<in> set (en_steps en))"
  by (auto simp: sys_step_def split: outc.splits)

definition same_key :: "'s tsystem \<Rightarrow> 's \<Rightarrow> 's \<Rightarrow> bool" where
  "same_key sys s t \<longleftrightarrow> ts_state_key sys s = ts_state_key sys t"

lemma same_key_refl [simp]: "same_key sys s s"
  by (simp add: same_key_def)

subsection \<open>The invariant of the graph\<close>

definition graph_lengths :: "'s graph \<Rightarrow> bool" where
  "graph_lengths g \<longleftrightarrow> (let n = length (g_states g) in
     0 < n \<and> length (g_edges g) = n \<and> length (g_pred g) = n \<and> length (g_had_boundary g) = n \<and>
     length (g_depth g) = n \<and> length (g_processed g) = n)"

definition index_ok :: "'s tsystem \<Rightarrow> 's graph \<Rightarrow> bool" where
  "index_ok sys g \<longleftrightarrow> (\<forall>k j. map_of (g_index g) k = Some j \<longleftrightarrow>
     j < length (g_states g) \<and> ts_state_key sys (g_states g ! j) = Ok k) \<and>
     (\<forall>j<length (g_states g). \<exists>k. ts_state_key sys (g_states g ! j) = Ok k)"

definition pred_ok :: "'s tsystem \<Rightarrow> 's graph \<Rightarrow> bool" where
  "pred_ok sys g \<longleftrightarrow> (\<forall>j<length (g_states g). case g_pred g ! j of
      None \<Rightarrow> j = 0
    | Some (i, l) \<Rightarrow> i < j \<and> g_depth g ! j = Suc (g_depth g ! i) \<and>
        sys_step sys (g_states g ! i) l (g_states g ! j))"

definition edges_ok :: "'s tsystem \<Rightarrow> 's graph \<Rightarrow> bool" where
  "edges_ok sys g \<longleftrightarrow> (\<forall>i<length (g_states g). \<forall>(j, l) \<in> set (g_edges g ! i).
     j < length (g_states g) \<and>
     (\<exists>t. sys_step sys (g_states g ! i) l t \<and> same_key sys t (g_states g ! j)))"

definition graph_ok :: "'s tsystem \<Rightarrow> 's \<Rightarrow> 's graph \<Rightarrow> bool" where
  "graph_ok sys init g \<longleftrightarrow> graph_lengths g \<and> g_states g ! 0 = init \<and> g_depth g ! 0 = 0 \<and>
     index_ok sys g \<and> pred_ok sys g \<and> edges_ok sys g"

lemma graph_ok_init:
  "ts_state_key sys init = Ok key \<Longrightarrow> graph_ok sys init (graph_init key init)"
  by (auto simp: graph_ok_def graph_init_def graph_lengths_def index_ok_def pred_ok_def edges_ok_def)

text \<open>No two states of the graph have one key.\<close>

lemma graph_distinct:
  assumes "graph_ok sys init g" "i < length (g_states g)" "j < length (g_states g)"
    and "same_key sys (g_states g ! i) (g_states g ! j)"
  shows "i = j"
proof -
  obtain k where "ts_state_key sys (g_states g ! i) = Ok k"
    using assms(1,2) by (auto simp: graph_ok_def index_ok_def)
  with assms have "map_of (g_index g) k = Some i" "map_of (g_index g) k = Some j"
    by (auto simp: graph_ok_def index_ok_def same_key_def)
  then show ?thesis by simp
qed

text \<open>How recording steps of state \<open>i\<close> changes the graph.\<close>

definition grows :: "nat \<Rightarrow> 's graph \<Rightarrow> 's graph \<Rightarrow> bool" where
  "grows i g g' \<longleftrightarrow> (\<exists>ns es. g_states g' = g_states g @ ns \<and>
     g_edges g' = (g_edges g)[i := g_edges g ! i @ es] @ replicate (length ns) [] \<and>
     g_had_boundary g' = g_had_boundary g @ replicate (length ns) False \<and>
     g_processed g' = g_processed g @ replicate (length ns) False)"

lemma grows_refl: "grows i g g"
  unfolding grows_def by (rule exI [of _ "[]"], rule exI [of _ "[]"]) simp

lemma grows_trans:
  assumes "grows i g g'" "grows i g' g''" "i < length (g_edges g)"
  shows "grows i g g''"
proof -
  from assms(1) obtain ns es where 1: "g_states g' = g_states g @ ns"
    "g_edges g' = (g_edges g)[i := g_edges g ! i @ es] @ replicate (length ns) []"
    "g_had_boundary g' = g_had_boundary g @ replicate (length ns) False"
    "g_processed g' = g_processed g @ replicate (length ns) False" by (auto simp: grows_def)
  from assms(2) obtain ns' es' where 2: "g_states g'' = g_states g' @ ns'"
    "g_edges g'' = (g_edges g')[i := g_edges g' ! i @ es'] @ replicate (length ns') []"
    "g_had_boundary g'' = g_had_boundary g' @ replicate (length ns') False"
    "g_processed g'' = g_processed g' @ replicate (length ns') False" by (auto simp: grows_def)
  show ?thesis unfolding grows_def
    by (rule exI [of _ "ns @ ns'"], rule exI [of _ "es @ es'"])
      (use 1 2 assms(3) in \<open>simp add: nth_append list_update_append replicate_add\<close>)
qed

lemma grows_nth:
  assumes "grows i g g'" "graph_lengths g" "j < length (g_states g)"
  shows "j < length (g_states g')" "g_states g' ! j = g_states g ! j"
    "g_had_boundary g' ! j = g_had_boundary g ! j" "g_processed g' ! j = g_processed g ! j"
    "j \<noteq> i \<Longrightarrow> g_edges g' ! j = g_edges g ! j"
  using assms by (auto simp: grows_def graph_lengths_def Let_def nth_append)

lemma grows_new:
  assumes "grows i g g'" "graph_lengths g" "length (g_states g) \<le> j" "j < length (g_states g')"
  shows "\<not> g_had_boundary g' ! j" "\<not> g_processed g' ! j" "g_edges g' ! j = []"
  using assms by (auto simp: grows_def graph_lengths_def Let_def nth_append)

definition step_recorded :: "'s tsystem \<Rightarrow> 's graph \<Rightarrow> 's step \<Rightarrow> nat \<times> step_label \<Rightarrow> bool" where
  "step_recorded sys g stp e \<longleftrightarrow> (case e of (j, l) \<Rightarrow> l = step_lab stp \<and>
     j < length (g_states g) \<and> same_key sys (step_state stp) (g_states g ! j))"

lemma step_recorded_grows:
  "step_recorded sys g stp e \<Longrightarrow> grows i g g' \<Longrightarrow> graph_lengths g \<Longrightarrow> step_recorded sys g' stp e"
  by (cases e) (auto simp: step_recorded_def grows_nth)

lemma add_edge_ok:
  assumes "graph_ok sys init g" "i < length (g_states g)" "j < length (g_states g)"
    and "sys_step sys (g_states g ! i) l t" "same_key sys t (g_states g ! j)"
  shows "graph_ok sys init (add_edge i j l g)"
  using assms
  by (auto simp: graph_ok_def add_edge_def graph_lengths_def Let_def index_ok_def pred_ok_def
      edges_ok_def nth_list_update split: option.splits)

lemma add_state_ok:
  assumes ok: "graph_ok sys init g" and i: "i < length (g_states g)"
    and k: "ts_state_key sys t = Ok key" "map_of (g_index g) key = None"
    and st: "sys_step sys (g_states g ! i) l t"
  shows "graph_ok sys init (add_state key t i l (g_depth g ! i) g)"
proof -
  let ?g = "add_state key t i l (g_depth g ! i) g"
  have len: "graph_lengths g" using ok by (simp add: graph_ok_def)
  have "graph_lengths ?g" using len by (simp add: graph_lengths_def add_state_def Let_def)
  moreover have "g_states ?g ! 0 = init" "g_depth ?g ! 0 = 0"
    using ok by (auto simp: graph_ok_def graph_lengths_def add_state_def Let_def nth_append)
  moreover have "index_ok sys ?g"
  proof -
    have "ts_state_key sys (g_states g ! j) \<noteq> Ok key" if "j < length (g_states g)" for j
    proof
      assume "ts_state_key sys (g_states g ! j) = Ok key"
      with ok that have "map_of (g_index g) key = Some j" by (simp add: graph_ok_def index_ok_def)
      with k(2) show False by simp
    qed
    then show ?thesis
      using ok k by (auto simp: graph_ok_def index_ok_def add_state_def nth_append less_Suc_eq)
  qed
  moreover have "pred_ok sys ?g"
    using ok i st len by (auto simp: graph_ok_def pred_ok_def add_state_def nth_append less_Suc_eq
        graph_lengths_def Let_def split: option.splits)
  moreover have "edges_ok sys ?g"
    using ok len by (fastforce simp: graph_ok_def edges_ok_def add_state_def nth_append less_Suc_eq
        graph_lengths_def Let_def)
  ultimately show ?thesis by (simp add: graph_ok_def)
qed


text \<open>The rest of the search state is untouched, and the queue receives exactly the new states.\<close>

definition same_rest :: "'s search \<Rightarrow> 's search \<Rightarrow> bool" where
  "same_rest s s' \<longleftrightarrow> sr_unsupported s' = sr_unsupported s \<and> sr_invalid s' = sr_invalid s \<and>
     sr_boundary s' = sr_boundary s \<and> sr_truncated s' = sr_truncated s \<and>
     sr_queue s' = sr_queue s @ [length (g_states (sr_graph s))..<length (g_states (sr_graph s'))]"

lemma upt_join: "i \<le> j \<Longrightarrow> j \<le> k \<Longrightarrow> [i..<j] @ [j..<k] = [i..<k]"
  by (metis le_Suc_ex upt_add_eq_append)

lemma add_edge_grows: "i < length (g_states g) \<Longrightarrow> graph_lengths g \<Longrightarrow>
    grows i g (add_edge i j l g) \<and> g_edges (add_edge i j l g) ! i = g_edges g ! i @ [(j, l)]"
  unfolding grows_def
  by (intro conjI, rule exI [of _ "[]"], rule exI [of _ "[(j, l)]"])
    (auto simp: add_edge_def graph_lengths_def Let_def)

lemma add_state_grows: "i < length (g_states g) \<Longrightarrow> graph_lengths g \<Longrightarrow>
    grows i g (add_edge i j l (add_state key t i' l' d g)) \<and>
    g_edges (add_edge i j l (add_state key t i' l' d g)) ! i = g_edges g ! i @ [(j, l)]"
  unfolding grows_def
  by (intro conjI, rule exI [of _ "[t]"], rule exI [of _ "[(j, l)]"])
    (auto simp: add_edge_def add_state_def graph_lengths_def Let_def nth_append list_update_append)

lemma record_step_spec:
  assumes rec: "record_step sys i (g_depth (sr_graph s) ! i) stp s = Ok s'"
    and ok: "graph_ok sys init (sr_graph s)" and i: "i < length (g_states (sr_graph s))"
    and st: "sys_step sys (g_states (sr_graph s) ! i) (step_lab stp) (step_state stp)"
  shows "graph_ok sys init (sr_graph s') \<and> grows i (sr_graph s) (sr_graph s') \<and> same_rest s s' \<and>
    g_depth (sr_graph s') ! i = g_depth (sr_graph s) ! i \<and>
    (\<exists>e. g_edges (sr_graph s') ! i = g_edges (sr_graph s) ! i @ [e] \<and>
       step_recorded sys (sr_graph s') stp e)"
proof -
  let ?g = "sr_graph s" and ?l = "step_lab stp" and ?t = "step_state stp"
  have len: "graph_lengths ?g" using ok by (simp add: graph_ok_def)
  from rec obtain key where key: "ts_state_key sys ?t = Ok key"
    by (auto simp: record_step_def)
  show ?thesis
  proof (cases "map_of (g_index ?g) key")
    case (Some j)
    then have j: "j < length (g_states ?g)" "same_key sys ?t (g_states ?g ! j)"
      using ok key by (auto simp: graph_ok_def index_ok_def same_key_def)
    from rec key Some have g': "sr_graph s' = add_edge i j ?l ?g" and
      rest: "s' = s\<lparr>sr_graph := add_edge i j ?l ?g, sr_transitions := Suc (sr_transitions s)\<rparr>"
      by (auto simp: record_step_def Let_def)
    show ?thesis
      using add_edge_ok [OF ok i j(1) st j(2)] add_edge_grows [OF i len, of j ?l] j
      by (auto simp: g' rest same_rest_def step_recorded_def add_edge_def)
  next
    case None
    let ?g1 = "add_state key ?t i ?l (g_depth ?g ! i) ?g" and ?j = "length (g_states ?g)"
    from rec key None have g': "sr_graph s' = add_edge i ?j ?l ?g1" and
      rest: "s' = s\<lparr>sr_graph := add_edge i ?j ?l ?g1, sr_queue := sr_queue s @ [?j],
        sr_transitions := Suc (sr_transitions s)\<rparr>"
      by (auto simp: record_step_def Let_def)
    have g1: "graph_ok sys init ?g1" by (rule add_state_ok [OF ok i key None st])
    have s1: "g_states ?g1 = g_states ?g @ [?t]" by (simp add: add_state_def)
    have "graph_ok sys init (add_edge i ?j ?l ?g1)"
      by (rule add_edge_ok [OF g1, of i ?j ?l ?t]) (use i st s1 in \<open>auto simp: nth_append\<close>)
    moreover have "g_depth (sr_graph s') ! i = g_depth ?g ! i"
      using i len by (simp add: g' add_edge_def add_state_def nth_append graph_lengths_def Let_def)
    ultimately show ?thesis
      using add_state_grows [OF i len, of ?j ?l key ?t i ?l "g_depth ?g ! i"]
      by (auto simp: g' rest same_rest_def step_recorded_def add_edge_def s1 add_state_def)
  qed
qed

lemma record_steps_spec:
  assumes "foldM (record_step sys i d) stps s = Ok s'"
    and "d = g_depth (sr_graph s) ! i"
    and "graph_ok sys init (sr_graph s)" "i < length (g_states (sr_graph s))"
    and "\<And>stp. stp \<in> set stps \<Longrightarrow>
      sys_step sys (g_states (sr_graph s) ! i) (step_lab stp) (step_state stp)"
  shows "graph_ok sys init (sr_graph s') \<and> grows i (sr_graph s) (sr_graph s') \<and> same_rest s s' \<and>
    (\<exists>es. g_edges (sr_graph s') ! i = g_edges (sr_graph s) ! i @ es \<and>
       list_all2 (step_recorded sys (sr_graph s')) stps es)"
  using assms
proof (induction stps arbitrary: s)
  case Nil
  then show ?case by (auto simp: grows_refl same_rest_def)
next
  case (Cons stp stps)
  from Cons.prems(1) obtain s1 where s1: "record_step sys i d stp s = Ok s1"
    "foldM (record_step sys i d) stps s1 = Ok s'" by auto
  have len: "graph_lengths (sr_graph s)" using Cons.prems(3) by (simp add: graph_ok_def)
  have 1: "graph_ok sys init (sr_graph s1) \<and> grows i (sr_graph s) (sr_graph s1) \<and> same_rest s s1 \<and>
    g_depth (sr_graph s1) ! i = g_depth (sr_graph s) ! i \<and>
    (\<exists>e. g_edges (sr_graph s1) ! i = g_edges (sr_graph s) ! i @ [e] \<and>
       step_recorded sys (sr_graph s1) stp e)"
    by (rule record_step_spec [OF s1(1) [unfolded Cons.prems(2)] Cons.prems(3,4)])
      (use Cons.prems(5) in simp)
  then have g1: "graph_lengths (sr_graph s1)" and gr: "grows i (sr_graph s) (sr_graph s1)"
    by (simp_all add: graph_ok_def)
  have i1: "i < length (g_states (sr_graph s1))" and
    st1: "g_states (sr_graph s1) ! i = g_states (sr_graph s) ! i"
    using grows_nth [OF gr len Cons.prems(4)] by auto
  have 2: "graph_ok sys init (sr_graph s') \<and> grows i (sr_graph s1) (sr_graph s') \<and> same_rest s1 s' \<and>
    (\<exists>es. g_edges (sr_graph s') ! i = g_edges (sr_graph s1) ! i @ es \<and>
       list_all2 (step_recorded sys (sr_graph s')) stps es)"
    by (rule Cons.IH [OF s1(2)]) (use 1 i1 st1 Cons.prems(2,5) in auto)
  have le: "length (g_states (sr_graph s)) \<le> length (g_states (sr_graph s1))"
    "length (g_states (sr_graph s1)) \<le> length (g_states (sr_graph s'))"
    using gr 2 by (auto simp: grows_def)
  have "same_rest s s'"
    using 1 2 le by (simp add: same_rest_def upt_join)
  moreover have "grows i (sr_graph s) (sr_graph s')"
    using grows_trans [OF gr] 2 len Cons.prems(4) by (simp add: graph_lengths_def Let_def)
  moreover have "\<exists>es. g_edges (sr_graph s') ! i = g_edges (sr_graph s) ! i @ es \<and>
       list_all2 (step_recorded sys (sr_graph s')) (stp # stps) es"
  proof -
    from 1 obtain e where e: "g_edges (sr_graph s1) ! i = g_edges (sr_graph s) ! i @ [e]"
      "step_recorded sys (sr_graph s1) stp e" by auto
    from 2 obtain es where es: "g_edges (sr_graph s') ! i = g_edges (sr_graph s1) ! i @ es"
      "list_all2 (step_recorded sys (sr_graph s')) stps es" by auto
    have "step_recorded sys (sr_graph s') stp e"
      using step_recorded_grows [OF e(2)] 2 g1 by blast
    with e es show ?thesis by (intro exI [of _ "e # es"]) simp
  qed
  ultimately show ?case using 2 by simp
qed

subsection \<open>The invariant of the search loop\<close>

definition fully_expanded :: "'s tsystem \<Rightarrow> 's graph \<Rightarrow> nat \<Rightarrow> bool" where
  "fully_expanded sys g i \<longleftrightarrow> (\<exists>en. ts_successors sys (g_states g ! i) = Ok en \<and>
     en_boundary en = [] \<and> list_all2 (step_recorded sys g) (en_steps en) (g_edges g ! i))"

definition node_ok :: "'s tsystem \<Rightarrow> 's graph \<Rightarrow> nat \<Rightarrow> bool" where
  "node_ok sys g i \<longleftrightarrow> (if g_processed g ! i then g_had_boundary g ! i \<or> fully_expanded sys g i
     else \<not> g_had_boundary g ! i \<and> g_edges g ! i = [])"

definition eventless :: "'s search \<Rightarrow> bool" where
  "eventless s \<longleftrightarrow> sr_boundary s = [] \<and> sr_unsupported s = [] \<and> sr_invalid s = []"

definition nodes_ok :: "'s tsystem \<Rightarrow> 's \<Rightarrow> 's search \<Rightarrow> bool" where
  "nodes_ok sys init s \<longleftrightarrow> graph_ok sys init (sr_graph s) \<and>
     (\<forall>i<length (g_states (sr_graph s)). node_ok sys (sr_graph s) i \<and>
        (eventless s \<longrightarrow> \<not> g_had_boundary (sr_graph s) ! i))"

text \<open>Before a round: the first \<open>k\<close> states are processed, the others wait in the queue.\<close>

definition frontier_at :: "nat \<Rightarrow> 's search \<Rightarrow> bool" where
  "frontier_at k s \<longleftrightarrow> k \<le> length (g_states (sr_graph s)) \<and>
     sr_queue s = [k..<length (g_states (sr_graph s))] \<and>
     (\<forall>i<length (g_states (sr_graph s)). g_processed (sr_graph s) ! i \<longleftrightarrow> i < k)"

definition search_ok :: "'s tsystem \<Rightarrow> 's \<Rightarrow> nat \<Rightarrow> 's search \<Rightarrow> bool" where
  "search_ok sys init k s \<longleftrightarrow> nodes_ok sys init s \<and> frontier_at k s"

definition search_done :: "'s tsystem \<Rightarrow> 's \<Rightarrow> 's search \<Rightarrow> bool" where
  "search_done sys init s \<longleftrightarrow> nodes_ok sys init s \<and>
     (\<not> sr_truncated s \<longrightarrow> (\<forall>i<length (g_states (sr_graph s)). g_processed (sr_graph s) ! i))"

lemma search_ok_init:
  "ts_state_key sys init = Ok key \<Longrightarrow> search_ok sys init 0 (search_init key init)"
  using graph_ok_init [of sys init key]
  by (simp add: search_ok_def nodes_ok_def frontier_at_def search_init_def node_ok_def graph_init_def)

lemma graph_ok_mark:
  "length bs = length (g_processed g) \<Longrightarrow>
     graph_ok sys init (g\<lparr>g_processed := bs\<rparr>) = graph_ok sys init g"
  "length bs = length (g_had_boundary g) \<Longrightarrow>
     graph_ok sys init (g\<lparr>g_had_boundary := bs\<rparr>) = graph_ok sys init g"
  by (simp_all add: graph_ok_def graph_lengths_def index_ok_def pred_ok_def edges_ok_def Let_def
      cong: option.case_cong)

lemma step_recorded_mark [simp]:
  "step_recorded sys (g\<lparr>g_processed := ps\<rparr>) = step_recorded sys g"
  "step_recorded sys (g\<lparr>g_had_boundary := bs\<rparr>) = step_recorded sys g"
  by (simp_all add: fun_eq_iff step_recorded_def)

lemma fully_expanded_mark [simp]:
  "fully_expanded sys (g\<lparr>g_processed := ps\<rparr>) i = fully_expanded sys g i"
  "fully_expanded sys (g\<lparr>g_had_boundary := bs\<rparr>) i = fully_expanded sys g i"
  by (simp_all add: fully_expanded_def)

lemma fully_expanded_grows:
  assumes "fully_expanded sys g i" "grows k g g'" "graph_lengths g" "i < length (g_states g)" "i \<noteq> k"
  shows "fully_expanded sys g' i"
proof -
  from assms(1) obtain en where en: "ts_successors sys (g_states g ! i) = Ok en"
    "en_boundary en = []" "list_all2 (step_recorded sys g) (en_steps en) (g_edges g ! i)"
    by (auto simp: fully_expanded_def)
  have "list_all2 (step_recorded sys g') (en_steps en) (g_edges g ! i)"
    using list_all2_mono [OF en(3)] step_recorded_grows [OF _ assms(2,3)] by blast
  then show ?thesis
    using en(1,2) grows_nth [OF assms(2,3,4)] assms(5) by (auto simp: fully_expanded_def)
qed

lemma node_ok_grows:
  assumes "node_ok sys g i" "grows k g g'" "graph_lengths g" "i < length (g_states g)" "i \<noteq> k"
  shows "node_ok sys g' i"
  using assms grows_nth [OF assms(2,3,4)] fully_expanded_grows [OF _ assms(2,3,4,5)]
  by (auto simp: node_ok_def)

lemma node_ok_new:
  assumes "grows k g g'" "graph_lengths g" "length (g_states g) \<le> i" "i < length (g_states g')"
  shows "node_ok sys g' i" "\<not> g_had_boundary g' ! i"
  using grows_new [OF assms] by (auto simp: node_ok_def)

text \<open>A node turned into a boundary node or left as it is.\<close>

lemma node_ok_mark_other:
  "i \<noteq> k \<Longrightarrow> node_ok sys (g\<lparr>g_processed := (g_processed g)[k := b]\<rparr>) i = node_ok sys g i"
  "i \<noteq> k \<Longrightarrow> node_ok sys (g\<lparr>g_had_boundary := (g_had_boundary g)[k := b]\<rparr>) i = node_ok sys g i"
  by (auto simp: node_ok_def)

lemma cut_off_nodes_ok: "nodes_ok sys init s \<Longrightarrow> nodes_ok sys init (cut_off kind s)"
  by (simp add: nodes_ok_def cut_off_def eventless_def)

text \<open>Expanding the state at the head of the queue.\<close>

lemma expand_spec:
  assumes ok: "nodes_ok sys init s" and k: "k < length (g_states (sr_graph s))"
    and fresh: "\<not> g_processed (sr_graph s) ! k" "g_depth (sr_graph s) ! k = d"
    and ex: "expand sys k d (mark_processed k s) = Ok s'"
  shows "nodes_ok sys init s' \<and> length (g_states (sr_graph s)) \<le> length (g_states (sr_graph s')) \<and>
    sr_queue s' = sr_queue s @ [length (g_states (sr_graph s))..<length (g_states (sr_graph s'))] \<and>
    sr_truncated s' = sr_truncated s \<and>
    (\<forall>i<length (g_states (sr_graph s')). g_processed (sr_graph s') ! i \<longleftrightarrow>
       i = k \<or> i < length (g_states (sr_graph s)) \<and> g_processed (sr_graph s) ! i)"
proof -
  let ?g = "sr_graph s" and ?s1 = "mark_processed k s" and ?n = "length (g_states (sr_graph s))"
  have g: "graph_ok sys init ?g" "graph_lengths ?g" using ok by (simp_all add: nodes_ok_def graph_ok_def)
  have nk: "g_edges ?g ! k = []" "\<not> g_had_boundary ?g ! k"
    using ok k fresh by (auto simp: nodes_ok_def node_ok_def)
  have lens: "length (g_processed ?g) = ?n" "length (g_had_boundary ?g) = ?n"
    using g(2) by (simp_all add: graph_lengths_def Let_def)
  have st: "g_states (sr_graph ?s1) ! k = g_states ?g ! k" by (simp add: mark_processed_def)
  have bound: ?thesis if s': "sr_graph s' = (sr_graph ?s1)\<lparr>g_had_boundary := (g_had_boundary ?g)[k := True]\<rparr>"
    and rest: "\<not> eventless s'" "sr_queue s' = sr_queue s" "sr_truncated s' = sr_truncated s"
  proof -
    have "node_ok sys (sr_graph s') i" if "i < ?n" for i
    proof (cases "i = k")
      case True
      then show ?thesis using k lens by (simp add: s' mark_processed_def node_ok_def)
    next
      case False
      moreover have "node_ok sys ?g i" using ok that by (simp add: nodes_ok_def)
      ultimately show ?thesis
        by (simp add: s' mark_processed_def node_ok_def)
    qed
    moreover have "graph_ok sys init (sr_graph s')"
      using g(1) by (simp add: s' mark_processed_def graph_ok_mark)
    ultimately show ?thesis
      using rest lens k by (auto simp: nodes_ok_def s' mark_processed_def nth_list_update)
  qed
  show ?thesis
  proof (cases "ts_successors sys (g_states ?g ! k)")
    case (Err e)
    then show ?thesis
      using ex st by (cases e; intro bound)
        (auto simp: expand_def mark_boundary_def mark_processed_def eventless_def)
  next
    case Panic
    then show ?thesis using ex st by (simp add: expand_def)
  next
    case (Ok en)
    let ?s2 = "if en_boundary en = [] then ?s1
       else (mark_boundary k ?s1)\<lparr>sr_boundary := sr_boundary ?s1 @ en_boundary en\<rparr>"
    have fold: "foldM (record_step sys k d) (en_steps en) ?s2 = Ok s'"
      using ex Ok st by (simp add: expand_def Let_def)
    have g2: "graph_ok sys init (sr_graph ?s2)" and n2: "g_states (sr_graph ?s2) = g_states ?g"
      "g_depth (sr_graph ?s2) = g_depth ?g" "g_edges (sr_graph ?s2) = g_edges ?g"
      using g(1) by (auto simp: mark_processed_def mark_boundary_def graph_ok_mark)
    have steps: "sys_step sys (g_states ?g ! k) (step_lab stp) (step_state stp)"
      if "stp \<in> set (en_steps en)" for stp
      using Ok that by (cases stp) (simp add: sys_step_iff)
    note spec = record_steps_spec [OF fold _ g2]
    have "graph_ok sys init (sr_graph s') \<and> grows k (sr_graph ?s2) (sr_graph s') \<and> same_rest ?s2 s' \<and>
      (\<exists>es. g_edges (sr_graph s') ! k = g_edges (sr_graph ?s2) ! k @ es \<and>
         list_all2 (step_recorded sys (sr_graph s')) (en_steps en) es)"
      by (rule spec) (use k fresh(2) n2 steps in auto)
    then have g': "graph_ok sys init (sr_graph s')" and gr: "grows k (sr_graph ?s2) (sr_graph s')"
      and rest: "same_rest ?s2 s'"
      and es: "list_all2 (step_recorded sys (sr_graph s')) (en_steps en) (g_edges (sr_graph s') ! k)"
      using nk(1) n2 by auto
    have len2: "graph_lengths (sr_graph ?s2)" using g2 by (simp add: graph_ok_def)
    have le: "?n \<le> length (g_states (sr_graph s'))" using gr n2 by (auto simp: grows_def)
    have old: "node_ok sys (sr_graph s') i" if "i < ?n" "i \<noteq> k" for i
    proof (rule node_ok_grows [OF _ gr len2 _ that(2)])
      have "node_ok sys ?g i" using ok that by (simp add: nodes_ok_def)
      then show "node_ok sys (sr_graph ?s2) i"
        using that(2) by (auto simp: node_ok_def mark_processed_def mark_boundary_def)
    qed (use that n2 in simp)
    have procd: "g_processed (sr_graph ?s2) = (g_processed ?g)[k := True]"
      "g_had_boundary (sr_graph ?s2) = (if en_boundary en = [] then g_had_boundary ?g
         else (g_had_boundary ?g)[k := True])"
      by (auto simp: mark_processed_def mark_boundary_def)
    have at_k: "g_processed (sr_graph s') ! k" "g_states (sr_graph s') ! k = g_states ?g ! k"
      "g_had_boundary (sr_graph s') ! k \<longleftrightarrow> en_boundary en \<noteq> []"
      using grows_nth [OF gr len2, of k] k n2 procd lens nk(2) by auto
    have node_k: "node_ok sys (sr_graph s') k"
      using at_k es Ok by (auto simp: node_ok_def fully_expanded_def)
    have ev: "eventless s' \<Longrightarrow> eventless s \<and> en_boundary en = []"
      using rest by (auto simp: same_rest_def eventless_def mark_processed_def mark_boundary_def
          split: if_splits)
    have had: "\<not> g_had_boundary (sr_graph s') ! i" if "eventless s'" "i < length (g_states (sr_graph s'))" for i
    proof (cases "i < ?n")
      case True
      with ev [OF that(1)] ok have "\<not> g_had_boundary ?g ! i" by (simp add: nodes_ok_def)
      with True ev [OF that(1)] show ?thesis
        using grows_nth(3) [OF gr len2, of i] n2 procd by simp
    next
      case False
      then show ?thesis using node_ok_new(2) [OF gr len2] that n2 by simp
    qed
    have "node_ok sys (sr_graph s') i" if "i < length (g_states (sr_graph s'))" for i
      using old [of i] node_k node_ok_new(1) [OF gr len2 _ that] n2 by (cases "i < ?n"; cases "i = k") auto
    with g' had have "nodes_ok sys init s'" by (simp add: nodes_ok_def)
    moreover have "g_processed (sr_graph s') ! i \<longleftrightarrow> i = k \<or> i < ?n \<and> g_processed ?g ! i"
      if "i < length (g_states (sr_graph s'))" for i
      using grows_nth(4) [OF gr len2, of i] grows_new(2) [OF gr len2 _ that] n2 procd k lens
      by (cases "i < ?n") (auto simp: nth_list_update)
    moreover have "sr_queue s' = sr_queue s @ [?n..<length (g_states (sr_graph s'))]"
      "sr_truncated s' = sr_truncated s"
      using rest n2 by (auto simp: same_rest_def mark_processed_def mark_boundary_def)
    ultimately show ?thesis using le by blast
  qed
qed

subsection \<open>The loops\<close>

lemma upt_Cons_eq: "[k..<n] = i # q \<Longrightarrow> i = k \<and> k < n \<and> q = [Suc k..<n]"
  by (cases "k < n") (auto simp: upt_conv_Cons)

lemma upt_Nil_le: "[k..<n] = [] \<Longrightarrow> n \<le> k"
  by (cases "n \<le> k") auto

lemma frontier_queue:
  assumes "search_ok sys init k s"
  shows "sr_queue s = i # q \<Longrightarrow>
      i = k \<and> k < length (g_states (sr_graph s)) \<and> q = [Suc k..<length (g_states (sr_graph s))]"
    and "sr_queue s = [] \<Longrightarrow> length (g_states (sr_graph s)) \<le> k"
proof -
  have q: "sr_queue s = [k..<length (g_states (sr_graph s))]"
    using assms by (simp add: search_ok_def frontier_at_def)
  show "sr_queue s = i # q \<Longrightarrow>
      i = k \<and> k < length (g_states (sr_graph s)) \<and> q = [Suc k..<length (g_states (sr_graph s))]"
    by (rule upt_Cons_eq) (simp add: q [symmetric])
  show "sr_queue s = [] \<Longrightarrow> length (g_states (sr_graph s)) \<le> k"
    by (rule upt_Nil_le) (simp add: q [symmetric])
qed

lemma search_loop_Nil: "sr_queue s = [] \<Longrightarrow> search_loop rnd n s = Ok (Some s)"
  by (subst search_loop.simps) simp

lemma search_loop_0: "sr_queue s = i # q \<Longrightarrow> search_loop rnd 0 s = Ok None"
  by (subst search_loop.simps) simp

lemma search_loop_Suc: "sr_queue s = i # q \<Longrightarrow> search_loop rnd (Suc n) s =
    rbind (rnd i (s\<lparr>sr_queue := q\<rparr>)) (\<lambda>r. case r of
      Break s' \<Rightarrow> Ok (Some s') | Continue s' \<Rightarrow> search_loop rnd n s')"
  by (subst search_loop.simps) simp

text \<open>
  What both search loops rely on: a round of a frontier state keeps the invariant, moves the
  frontier by one and only continues below the state limit.
\<close>

locale round_loop =
  fixes sys :: "'s tsystem" and b :: analysis_bounds
    and rnd :: "nat \<Rightarrow> 's search \<Rightarrow> 's search round backend_result"
  assumes round_continue: "search_ok sys init k s \<Longrightarrow> sr_queue s = k # q \<Longrightarrow>
      rnd k (s\<lparr>sr_queue := q\<rparr>) = Ok (Continue s') \<Longrightarrow>
      search_ok sys init (Suc k) s' \<and> k < max_states b"
    and round_break: "search_ok sys init k s \<Longrightarrow> sr_queue s = k # q \<Longrightarrow>
      rnd k (s\<lparr>sr_queue := q\<rparr>) = Ok (Break s') \<Longrightarrow> search_done sys init s'"
begin

lemma queue_head: "search_ok sys init k s \<Longrightarrow> sr_queue s = i # q \<Longrightarrow> i = k"
  by (drule (1) frontier_queue(1)) simp

lemma queue_empty: "search_ok sys init k s \<Longrightarrow> sr_queue s = [] \<Longrightarrow> search_done sys init s"
proof -
  assume ok: "search_ok sys init k s" and q: "sr_queue s = []"
  have "length (g_states (sr_graph s)) \<le> k" by (rule frontier_queue(2) [OF ok q])
  moreover have "\<forall>i<length (g_states (sr_graph s)). g_processed (sr_graph s) ! i \<longleftrightarrow> i < k"
    using ok unfolding search_ok_def frontier_at_def by blast
  moreover have "nodes_ok sys init s" using ok by (simp add: search_ok_def)
  ultimately show ?thesis unfolding search_done_def by (meson less_le_trans)
qed

lemma loop_done:
  "search_loop rnd n s = Ok (Some s') \<Longrightarrow> search_ok sys init k s \<Longrightarrow> search_done sys init s'"
proof (induction n arbitrary: s k)
  case 0
  show ?case
  proof (cases "sr_queue s")
    case Nil
    with 0 show ?thesis using queue_empty [of init k s] by (simp add: search_loop_Nil)
  next
    case (Cons i q)
    with 0 show ?thesis by (simp add: search_loop_0)
  qed
next
  case (Suc n)
  show ?case
  proof (cases "sr_queue s")
    case Nil
    with Suc.prems show ?thesis using queue_empty [of init k s] by (simp add: search_loop_Nil)
  next
    case (Cons i q)
    with Suc.prems have i: "i = k" by (simp add: queue_head)
    from Suc.prems Cons obtain r where r: "rnd k (s\<lparr>sr_queue := q\<rparr>) = Ok r"
      "(case r of Break t \<Rightarrow> Ok (Some t) | Continue t \<Rightarrow> search_loop rnd n t) = Ok (Some s')"
      by (auto simp: search_loop_Suc i)
    show ?thesis
    proof (cases r)
      case (Continue t)
      with r Suc.IH round_continue [OF Suc.prems(2) Cons [unfolded i]] show ?thesis by auto
    next
      case (Break t)
      with r round_break [OF Suc.prems(2) Cons [unfolded i]] show ?thesis by auto
    qed
  qed
qed

lemma loop_enough:
  "search_ok sys init k s \<Longrightarrow> Suc (max_states b - k) \<le> n \<Longrightarrow> search_loop rnd n s \<noteq> Ok None"
proof (induction n arbitrary: s k)
  case (Suc n)
  show ?case
  proof (cases "sr_queue s")
    case Nil
    then show ?thesis by (simp add: search_loop_Nil)
  next
    case (Cons i q)
    with Suc.prems have i: "i = k" by (simp add: queue_head)
    have "search_loop rnd n t \<noteq> Ok None" if "rnd k (s\<lparr>sr_queue := q\<rparr>) = Ok (Continue t)" for t
    proof (rule Suc.IH [of "Suc k" t])
      show "search_ok sys init (Suc k) t" "Suc (max_states b - Suc k) \<le> n"
        using Suc.prems(2) round_continue [OF Suc.prems(1) Cons [unfolded i] that] by auto
    qed
    with Cons i show ?thesis
      by (auto simp: search_loop_Suc split: round.splits)
  qed
qed simp

lemma run_done:
  assumes "ts_state_key sys init = Ok key"
    and "search_loop rnd (search_fuel b) (search_init key init) = Ok r"
  shows "\<exists>s. r = Some s \<and> search_done sys init s"
  using assms loop_enough [OF search_ok_init [OF assms(1)], of "search_fuel b"]
    loop_done [OF _ search_ok_init [OF assms(1)]]
  by (cases r) (auto simp: search_fuel_def)

end

lemma frontier_pop:
  assumes "search_ok sys init k s" "sr_queue s = k # q"
  shows "k < length (g_states (sr_graph s))" "\<not> g_processed (sr_graph s) ! k"
    "q = [Suc k..<length (g_states (sr_graph s))]" "nodes_ok sys init (s\<lparr>sr_queue := q\<rparr>)"
  using assms frontier_queue(1) [OF assms]
  by (auto simp: search_ok_def frontier_at_def nodes_ok_def eventless_def)

lemma cut_off_done: "nodes_ok sys init s \<Longrightarrow> search_done sys init (cut_off kind s)"
  using cut_off_nodes_ok [of sys init s kind] by (simp add: search_done_def cut_off_def)

lemma truncated_done: "nodes_ok sys init s \<Longrightarrow> sr_truncated s \<Longrightarrow> search_done sys init s"
  by (simp add: search_done_def)

text \<open>The depth limit: the popped state becomes a processed boundary node.\<close>

lemma depth_limit_ok:
  assumes ok: "search_ok sys init k s" and q: "sr_queue s = k # q"
  shows "search_ok sys init (Suc k)
    (cut_off DepthLimit (mark_boundary k (mark_processed k (s\<lparr>sr_queue := q\<rparr>))))"
proof -
  note pop = frontier_pop [OF ok q]
  let ?s' = "cut_off DepthLimit (mark_boundary k (mark_processed k (s\<lparr>sr_queue := q\<rparr>)))"
  have g: "graph_ok sys init (sr_graph s)" using ok by (simp add: search_ok_def nodes_ok_def)
  then have lens: "length (g_processed (sr_graph s)) = length (g_states (sr_graph s))"
    "length (g_had_boundary (sr_graph s)) = length (g_states (sr_graph s))"
    by (simp_all add: graph_ok_def graph_lengths_def Let_def)
  have "node_ok sys (sr_graph ?s') i" if "i < length (g_states (sr_graph s))" for i
  proof (cases "i = k")
    case True
    with pop lens show ?thesis
      by (simp add: node_ok_def cut_off_def mark_boundary_def mark_processed_def)
  next
    case False
    moreover have "node_ok sys (sr_graph s) i" using ok that by (simp add: search_ok_def nodes_ok_def)
    ultimately show ?thesis
      by (simp add: node_ok_def cut_off_def mark_boundary_def mark_processed_def)
  qed
  moreover have "graph_ok sys init (sr_graph ?s')"
    using g by (simp add: cut_off_def mark_boundary_def mark_processed_def graph_ok_mark)
  ultimately have "nodes_ok sys init ?s'"
    by (simp add: nodes_ok_def eventless_def cut_off_def mark_boundary_def mark_processed_def)
  moreover have "frontier_at (Suc k) ?s'"
    using ok pop lens by (auto simp: search_ok_def frontier_at_def cut_off_def mark_boundary_def
        mark_processed_def nth_list_update less_Suc_eq)
  ultimately show ?thesis by (simp add: search_ok_def)
qed

lemma expand_round_ok:
  assumes ok: "search_ok sys init k s" and q: "sr_queue s = k # q"
    and ex: "expand sys k (g_depth (sr_graph s) ! k) (mark_processed k (s\<lparr>sr_queue := q\<rparr>)) = Ok s'"
  shows "search_ok sys init (Suc k) s'"
proof -
  note pop = frontier_pop [OF ok q]
  have spec: "nodes_ok sys init s' \<and> length (g_states (sr_graph s)) \<le> length (g_states (sr_graph s')) \<and>
    sr_queue s' = q @ [length (g_states (sr_graph s))..<length (g_states (sr_graph s'))] \<and>
    sr_truncated s' = sr_truncated s \<and>
    (\<forall>i<length (g_states (sr_graph s')). g_processed (sr_graph s') ! i \<longleftrightarrow>
       i = k \<or> i < length (g_states (sr_graph s)) \<and> g_processed (sr_graph s) ! i)"
    using expand_spec [OF pop(4) _ _ _ ex] pop(1,2) by simp
  have "sr_queue s' = [Suc k..<length (g_states (sr_graph s'))]"
    using spec pop(1,3) by (simp add: upt_join)
  moreover have "g_processed (sr_graph s') ! i \<longleftrightarrow> i < Suc k"
    if "i < length (g_states (sr_graph s'))" for i
    using spec that ok pop(1) by (auto simp: search_ok_def frontier_at_def less_Suc_eq)
  ultimately show ?thesis
    using spec pop(1) by (simp add: search_ok_def frontier_at_def)
qed

lemma event_limit_cases:
  "event_limit b s = Continue s' \<Longrightarrow> s' = s"
  "event_limit b s = Break s' \<Longrightarrow> nodes_ok sys init s \<Longrightarrow> search_done sys init s'"
  by (auto simp: event_limit_def search_done_def nodes_ok_def eventless_def split: if_splits)

lemma search_ok_pop_nodes: "search_ok sys init k s \<Longrightarrow> nodes_ok sys init s"
  by (simp add: search_ok_def)

interpretation verify_loop: round_loop sys b "verify_round sys b" for sys :: "'s tsystem" and b
proof unfold_locales
  fix init :: 's and k s q s'
  assume ok: "search_ok sys init k s" and q: "sr_queue s = k # q"
  note pop = frontier_pop [OF ok q]
  let ?s = "s\<lparr>sr_queue := q\<rparr>"
  have d: "g_depth (sr_graph (mark_processed k ?s)) ! k = g_depth (sr_graph s) ! k"
    by (simp add: mark_processed_def)
  show "verify_round sys b k ?s = Ok (Continue s') \<Longrightarrow> search_ok sys init (Suc k) s' \<and> k < max_states b"
    using pop(1) depth_limit_ok [OF ok q] expand_round_ok [OF ok q]
    by (auto simp: verify_round_def Let_def d dest: event_limit_cases(1) split: if_splits)
  show "verify_round sys b k ?s = Ok (Break s') \<Longrightarrow> search_done sys init s'"
    using pop(4) expand_round_ok [OF ok q]
    by (auto simp: verify_round_def Let_def d cut_off_done split: if_splits
        dest!: search_ok_pop_nodes intro: event_limit_cases(2))
qed

interpretation explore_loop: round_loop sys b "explore_round sys b" for sys :: "'s tsystem" and b
proof unfold_locales
  fix init :: 's and k s q s'
  assume ok: "search_ok sys init k s" and q: "sr_queue s = k # q"
  note pop = frontier_pop [OF ok q]
  let ?s = "s\<lparr>sr_queue := q\<rparr>"
  have d: "g_depth (sr_graph (mark_processed k ?s)) ! k = g_depth (sr_graph s) ! k"
    by (simp add: mark_processed_def)
  have dl: "search_ok sys init (Suc k) (cut_off DepthLimit (mark_boundary k (mark_processed k ?s)))"
    "sr_truncated (cut_off DepthLimit (mark_boundary k (mark_processed k ?s)))"
    using depth_limit_ok [OF ok q] by (simp_all add: cut_off_def)
  show "explore_round sys b k ?s = Ok (Continue s') \<Longrightarrow> search_ok sys init (Suc k) s' \<and> k < max_states b"
    using pop(1) dl expand_round_ok [OF ok q]
    by (auto simp: explore_round_def Let_def d dest: event_limit_cases(1) split: if_splits)
  show "explore_round sys b k ?s = Ok (Break s') \<Longrightarrow> search_done sys init s'"
    using pop(4) dl expand_round_ok [OF ok q]
    by (auto simp: explore_round_def Let_def d cut_off_done truncated_done split: if_splits
        dest!: search_ok_pop_nodes intro: event_limit_cases(2))
qed

end
