(* ===== verification/Explore_Verdicts.thy ===== *)
theory Explore_Verdicts
  imports Explore_Sound
begin

text \<open>
  The semantic reading of the contract's properties and the soundness of the verdicts
  \<open>check_property\<close> and \<open>check_preserved\<close> give on an explored graph.
\<close>

subsection \<open>Semantic properties\<close>

fun holds :: "'s tsystem \<Rightarrow> property \<Rightarrow> bool" where
  "holds sys (Safety ivt) = (\<forall>s. reachable sys s \<longrightarrow> ts_satisfied sys s ivt = Ok True)"
| "holds sys (Unreachable bad) = (\<forall>s. reachable sys s \<longrightarrow> ts_satisfied sys s bad = Ok False)"
| "holds sys DeadlockFree =
     (\<forall>s. reachable sys s \<longrightarrow> ts_is_finished sys s \<or> (\<exists>l t. sys_step sys s l t))"
| "holds sys (Reachability goal) = (\<exists>s. reachable sys s \<and> ts_satisfied sys s goal = Ok True)"
| "holds sys (AlwaysReachable goal) =
     (\<forall>s. reachable sys s \<longrightarrow> (\<exists>ls t. execution sys s ls t \<and> ts_satisfied sys t goal = Ok True))"

fun preserved_holds :: "'s tsystem \<Rightarrow> preserved \<Rightarrow> bool" where
  "preserved_holds sys (Reachable goal) = holds sys (Reachability goal)"
| "preserved_holds sys (Always ivt) = holds sys (Safety ivt)"

lemma find_state_Some:
  "find_state p g = Ok (Some i) \<Longrightarrow> i < length (g_states g) \<and> p (g_states g ! i) = Ok True"
  by (auto simp: find_state_def dest: positionM_Some)

lemma find_state_None:
  "find_state p g = Ok None \<Longrightarrow> i < length (g_states g) \<Longrightarrow> p (g_states g ! i) = Ok False"
  by (simp add: find_state_def positionM_None)

lemma check_bad_Fail:
  "check_bad sys g pid complete found = Ok (r, ds) \<Longrightarrow> rs_outcome r = Fail \<longleftrightarrow> found \<noteq> None"
  by (auto simp: check_bad_def result_of_def if_complete_def split: option.splits if_splits)

lemma check_bad_Pass:
  "check_bad sys g pid complete found = Ok (r, ds) \<Longrightarrow> rs_outcome r = Pass \<Longrightarrow> complete \<and> found = None"
  by (auto simp: check_bad_def result_of_def if_complete_def split: option.splits if_splits)

lemma find_None: "find p xs = None \<longleftrightarrow> (\<forall>x\<in>set xs. \<not> p x)"
  by (induction xs) auto

lemma violates_Ok: "violates sys p s = Ok b \<longleftrightarrow> ts_satisfied sys s p = Ok (\<not> b)"
  by (auto simp: violates_def)

subsection \<open>Passing\<close>

text \<open>On a covered graph every reachable state has an explored state with its key.\<close>

lemma covered_state:
  assumes "key_sound sys" "covered sys init g" "reachable sys s"
  obtains i where "i < length (g_states g)" "same_key sys s (g_states g ! i)"
    "reachable sys (g_states g ! i)"
proof -
  obtain i where i: "i < length (g_states g)" "same_key sys s (g_states g ! i)"
    using covered_reachable [OF assms] by blast
  have g: "graph_ok sys init g" "ts_initial sys = Ok init" using assms(2) by (simp_all add: covered_def)
  show thesis by (rule that [OF i graph_states_reachable [OF g i(1)]])
qed

lemma covered_sat:
  assumes "key_sound sys" "covered sys init g" "reachable sys s"
    and "\<And>i. i < length (g_states g) \<Longrightarrow> ts_satisfied sys (g_states g ! i) p = r"
  shows "ts_satisfied sys s p = r"
proof -
  obtain i where i: "i < length (g_states g)" "same_key sys s (g_states g ! i)"
    "reachable sys (g_states g ! i)" by (rule covered_state [OF assms(1-3)])
  show ?thesis using key_sound_sat [OF assms(1) assms(3) i(3,2)] assms(4) [OF i(1)] by simp
qed

lemma covered_deadlock_free:
  assumes "key_sound sys" "covered sys init g" "\<And>i. i < length (g_states g) \<Longrightarrow> g_processed g ! i"
    and "\<And>i. i < length (g_states g) \<Longrightarrow> \<not> g_had_boundary g ! i"
    and no: "position (is_deadlock sys g) [0..<length (g_states g)] = None"
  shows "holds sys DeadlockFree"
proof (simp, intro allI impI)
  fix s assume s: "reachable sys s"
  obtain i where i: "i < length (g_states g)" "same_key sys s (g_states g ! i)"
    "reachable sys (g_states g ! i)" by (rule covered_state [OF assms(1,2) s])
  have "\<not> is_deadlock sys g i" using no i(1) by (simp add: position_None)
  with assms(3,4) i(1) have "g_edges g ! i \<noteq> [] \<or> ts_is_finished sys (g_states g ! i)"
    by (simp add: is_deadlock_def)
  then show "ts_is_finished sys s \<or> (\<exists>l t. sys_step sys s l t)"
  proof
    assume "ts_is_finished sys (g_states g ! i)"
    then show ?thesis using key_sound_finished [OF assms(1) s i(3,2)] by simp
  next
    assume ne: "g_edges g ! i \<noteq> []"
    then obtain j l where "(j, l) \<in> set (g_edges g ! i)" by (cases "g_edges g ! i") auto
    with i(1) assms(2) obtain t where "sys_step sys (g_states g ! i) l t"
      by (fastforce simp: covered_def graph_ok_def edges_ok_def)
    from key_sound_step [OF assms(1) i(3) s same_key_sym [OF i(2)] this] show ?thesis by blast
  qed
qed

text \<open>A path of explored edges is matched by an execution, up to keys.\<close>

lemma edge_path_execution:
  assumes "key_sound sys" "covered sys init g" "(i, j) \<in> (edge_rel (g_edges g))\<^sup>*"
    and "j < length (g_states g)"
  shows "i < length (g_states g) \<and>
    (\<exists>ls t. execution sys (g_states g ! i) ls t \<and> same_key sys t (g_states g ! j))"
  using assms(3)
proof (induction rule: converse_rtrancl_induct)
  case base
  have "execution sys (g_states g ! j) [] (g_states g ! j)" by (rule execution_refl)
  with assms(4) show ?case
    by (intro conjI exI [of _ "[]"] exI [of _ "g_states g ! j"]) simp_all
next
  case (step i k)
  have ok: "graph_ok sys init g" using assms(2) by (simp add: covered_def)
  from step.hyps(1) ok obtain l where il: "i < length (g_states g)" "(k, l) \<in> set (g_edges g ! i)"
    by (auto simp: edge_rel_def graph_ok_def graph_lengths_def Let_def)
  with ok obtain u where u: "sys_step sys (g_states g ! i) l u" "same_key sys u (g_states g ! k)"
    by (fastforce simp: graph_ok_def edges_ok_def)
  from step.IH obtain ls t where k: "k < length (g_states g)"
    and t: "execution sys (g_states g ! k) ls t" "same_key sys t (g_states g ! j)" by blast
  have r: "reachable sys (g_states g ! k)" "reachable sys (g_states g ! i)"
    using assms(2) graph_states_reachable k il(1) by (auto simp: covered_def)
  have ru: "reachable sys u" using r(2) u(1) by (rule reachable_step)
  from key_sound_execution [OF assms(1) t(1) r(1) ru same_key_sym [OF u(2)]] obtain ls' t' where
    t': "execution sys u ls' t'" "same_key sys t t'" by blast
  have "execution sys (g_states g ! i) [l] u"
    using execution_step [OF execution_refl u(1)] by simp
  then have "execution sys (g_states g ! i) ([l] @ ls') t'" by (rule execution_trans [OF t'(1)])
  moreover have "same_key sys t' (g_states g ! j)"
    by (rule same_key_trans [OF same_key_sym [OF t'(2)] t(2)])
  ultimately show ?case using il(1) by blast
qed

lemma goal_states_Ok:
  assumes "goal_states sys goal g = Ok goals"
  shows "i \<in> set goals \<longleftrightarrow> i < length (g_states g) \<and> ts_satisfied sys (g_states g ! i) goal = Ok True"
  using filterM_Ok [OF assms [unfolded goal_states_def]] by simp

lemma always_reachable_pass:
  assumes "key_sound sys" "covered sys init g" "goal_states sys goal g = Ok goals"
    and all: "\<And>i. i < length (g_states g) \<Longrightarrow> i \<in> set (reverse_reachable g goals)"
  shows "holds sys (AlwaysReachable goal)"
proof (simp, intro allI impI)
  fix s assume s: "reachable sys s"
  obtain i where i: "i < length (g_states g)" "same_key sys s (g_states g ! i)"
    "reachable sys (g_states g ! i)" by (rule covered_state [OF assms(1,2) s])
  from all [OF i(1)] obtain j where j: "j \<in> set goals" "(i, j) \<in> (edge_rel (g_edges g))\<^sup>*"
    by (auto simp: reverse_reachable_exact)
  then have jl: "j < length (g_states g)" "ts_satisfied sys (g_states g ! j) goal = Ok True"
    using goal_states_Ok [OF assms(3)] by auto
  from edge_path_execution [OF assms(1,2) j(2) jl(1)] obtain ls t where
    t: "execution sys (g_states g ! i) ls t" "same_key sys t (g_states g ! j)" by blast
  from key_sound_execution [OF assms(1) t(1) i(3) s same_key_sym [OF i(2)]] obtain ls' t' where
    t': "execution sys s ls' t'" "same_key sys t t'" by blast
  have "reachable sys t'" by (rule reachable_execution [OF t'(1) s])
  moreover have "reachable sys (g_states g ! j)"
    using assms(2) graph_states_reachable jl(1) by (auto simp: covered_def)
  moreover have "same_key sys t' (g_states g ! j)"
    by (rule same_key_trans [OF same_key_sym [OF t'(2)] t(2)])
  ultimately have "ts_satisfied sys t' goal = ts_satisfied sys (g_states g ! j) goal"
    by (rule key_sound_sat [OF assms(1)])
  with jl(2) have "ts_satisfied sys t' goal = Ok True" by simp
  with t'(1) show "\<exists>ls t. execution sys s ls t \<and> ts_satisfied sys t goal = Ok True" by blast
qed

text \<open>What a complete search leaves behind.\<close>

definition complete_graph :: "'s tsystem \<Rightarrow> 's \<Rightarrow> 's graph \<Rightarrow> bool" where
  "complete_graph sys init g \<longleftrightarrow> covered sys init g \<and>
     (\<forall>i<length (g_states g). g_processed g ! i \<and> \<not> g_had_boundary g ! i)"

lemma complete_graphI:
  assumes "search_done sys init s" "search_complete s" "ts_initial sys = Ok init"
  shows "complete_graph sys init (sr_graph s)"
  using complete_covered [OF assms] assms(1,2)
  by (simp add: complete_graph_def search_done_def search_complete_def nodes_ok_def eventless_def)

lemma check_pass_sound:
  assumes ks: "key_sound sys" and g: "graph_ok sys init g" "ts_initial sys = Ok init"
    and cov: "complete \<Longrightarrow> complete_graph sys init g"
    and chk: "check_property sys g pid p complete = Ok (r, ds)" and pass: "rs_outcome r = Pass"
  shows "holds sys p"
proof (cases p)
  case (Safety ivt)
  from chk Safety obtain found where f: "find_state (violates sys ivt) g = Ok found"
    "check_bad sys g pid complete found = Ok (r, ds)" by auto
  with check_bad_Pass [OF f(2) pass] have c: "complete" "find_state (violates sys ivt) g = Ok None" by auto
  have "ts_satisfied sys (g_states g ! i) ivt = Ok True" if "i < length (g_states g)" for i
    using find_state_None [OF c(2) that] by (simp add: violates_Ok)
  with covered_sat [OF ks, of init g _ ivt "Ok True"] cov [OF c(1)] show ?thesis
    by (simp add: Safety complete_graph_def)
next
  case DeadlockFree
  with chk have "check_bad sys g pid complete
      (position (is_deadlock sys g) [0..<length (g_states g)]) = Ok (r, ds)" by simp
  from check_bad_Pass [OF this pass] have c: "complete"
    "position (is_deadlock sys g) [0..<length (g_states g)] = None" by simp_all
  show ?thesis unfolding DeadlockFree
    by (rule covered_deadlock_free [OF ks _ _ _ c(2)])
      (use cov [OF c(1)] in \<open>auto simp: complete_graph_def\<close>)
next
  case (Reachability goal)
  from chk Reachability obtain found where f: "find_state (\<lambda>s. ts_satisfied sys s goal) g = Ok found"
    by auto
  with chk pass Reachability obtain i where "found = Some i"
    by (cases found) (auto simp: result_of_def split: if_splits)
  with f find_state_Some have "i < length (g_states g)" "ts_satisfied sys (g_states g ! i) goal = Ok True"
    by fastforce+
  with graph_states_reachable [OF g] Reachability show ?thesis by auto
next
  case (AlwaysReachable goal)
  with chk pass obtain goals where gs: "goal_states sys goal g = Ok goals" "goals \<noteq> []" and
    bad: "check_bad sys g pid complete
      (find (\<lambda>i. i \<notin> set (reverse_reachable g goals)) [0..<length (g_states g)]) = Ok (r, ds)"
    by (auto simp: check_always_reachable_def result_of_def Let_def split: if_splits)
  from check_bad_Pass [OF bad pass] have c: complete and
    all: "\<forall>i<length (g_states g). i \<in> set (reverse_reachable g goals)"
    by (auto simp: find_None)
  show ?thesis unfolding AlwaysReachable
    by (rule always_reachable_pass [OF ks _ gs(1)]) (use all cov [OF c] in \<open>auto simp: complete_graph_def\<close>)
next
  case (Unreachable bad)
  from chk Unreachable obtain found where f: "find_state (\<lambda>s. ts_satisfied sys s bad) g = Ok found"
    "check_bad sys g pid complete found = Ok (r, ds)" by auto
  with check_bad_Pass [OF f(2) pass] have c: "complete"
    "find_state (\<lambda>s. ts_satisfied sys s bad) g = Ok None" by auto
  with covered_sat [OF ks, of init g _ bad "Ok False"] cov [OF c(1)] find_state_None [OF c(2)]
  show ?thesis by (simp add: Unreachable complete_graph_def)
qed

lemma preserved_pass_sound:
  assumes ks: "key_sound sys" and g: "graph_ok sys init g" "ts_initial sys = Ok init"
    and cov: "complete \<Longrightarrow> complete_graph sys init g"
    and chk: "check_preserved sys g pb complete = Ok (r, ds)" and pass: "rs_outcome r = Pass"
  shows "preserved_holds sys (pb_behavior pb)"
proof (cases "pb_behavior pb")
  case (Reachable goal)
  from chk pass Reachable have "anyM (\<lambda>s. ts_satisfied sys s goal) (g_states g) = Ok True"
    by (auto simp: check_preserved_def result_of_def Let_def split: if_splits)
  from anyM_Ok_True [OF this] obtain i where
    "i < length (g_states g)" "ts_satisfied sys (g_states g ! i) goal = Ok True"
    by (auto simp: in_set_conv_nth)
  with graph_states_reachable [OF g] Reachable show ?thesis by auto
next
  case (Always ivt)
  with chk have "check_property sys g (preserved_id (pb_description pb)) (Safety ivt) complete = Ok (r, ds)"
    by (simp add: check_preserved_def Let_def)
  from check_pass_sound [OF ks g cov this pass] Always show ?thesis by simp
qed

subsection \<open>Failing\<close>

text \<open>A diagnostic whose trace is an execution that ends in a state with a given defect.\<close>

definition refutes :: "'s tsystem \<Rightarrow> ('s \<Rightarrow> bool) \<Rightarrow> diagnostic_record \<Rightarrow> bool" where
  "refutes sys D d \<longleftrightarrow> (\<exists>init t. ts_initial sys = Ok init \<and>
     execution sys init (di_counterexample d) t \<and> D t \<and>
     ts_instances sys t = Ok (di_final_instances d) \<and> ts_blocked sys t = Ok (di_blocked d))"

lemma make_diagnostic_refutes:
  assumes "make_diagnostic sys g pid i complete = Ok d" "graph_ok sys init g"
    "ts_initial sys = Ok init" "i < length (g_states g)" "D (g_states g ! i)"
  shows "refutes sys D d"
proof -
  from counterexample_execution [OF assms(2,4)] obtain ls where
    ls: "counterexample g i = Some ls" "execution sys init ls (g_states g ! i)" by blast
  from assms(1) ls(1) have "di_counterexample d = ls"
    "ts_instances sys (g_states g ! i) = Ok (di_final_instances d)"
    "ts_blocked sys (g_states g ! i) = Ok (di_blocked d)"
    by (auto simp: make_diagnostic_def trace_names_def Let_def split: prod.splits)
  with ls(2) assms(3,5) show ?thesis unfolding refutes_def by blast
qed

definition stuck :: "'s tsystem \<Rightarrow> 's \<Rightarrow> bool" where
  "stuck sys s \<longleftrightarrow> ts_successors sys s = Ok enabled_empty \<and> \<not> ts_is_finished sys s"

fun defect :: "'s tsystem \<Rightarrow> property \<Rightarrow> 's \<Rightarrow> bool" where
  "defect sys (Safety ivt) s = (ts_satisfied sys s ivt = Ok False)"
| "defect sys (Unreachable bad) s = (ts_satisfied sys s bad = Ok True)"
| "defect sys DeadlockFree s = stuck sys s"
| "defect sys _ s = False"

definition state_property :: "property \<Rightarrow> bool" where
  "state_property p = (case p of Safety i \<Rightarrow> True | Unreachable b \<Rightarrow> True | DeadlockFree \<Rightarrow> True | _ \<Rightarrow> False)"

lemma deadlock_stuck:
  assumes "\<And>i. i < length (g_states g) \<Longrightarrow> node_ok sys g i"
    and "position (is_deadlock sys g) [0..<length (g_states g)] = Some i"
  shows "i < length (g_states g) \<and> stuck sys (g_states g ! i)"
proof -
  have i: "i < length (g_states g)" "is_deadlock sys g i"
    using position_Some [OF assms(2)] by auto
  with assms(1) [OF i(1)] have "fully_expanded sys g i" by (simp add: node_ok_def is_deadlock_def)
  then obtain en where "ts_successors sys (g_states g ! i) = Ok en" "en_boundary en = []"
    "en_steps en = []"
    using i(2) by (auto simp: fully_expanded_def is_deadlock_def)
  then show ?thesis using i by (cases en) (simp add: stuck_def enabled_empty_def is_deadlock_def)
qed

lemma check_fail_sound:
  assumes g: "graph_ok sys init g" "ts_initial sys = Ok init"
    and nodes: "\<And>i. i < length (g_states g) \<Longrightarrow> node_ok sys g i"
    and chk: "check_property sys g pid p complete = Ok (r, ds)" and fail: "rs_outcome r = Fail"
    and p: "state_property p"
  shows "\<exists>d. ds = [d] \<and> refutes sys (defect sys p) d"
proof -
  from chk p obtain found where bad: "check_bad sys g pid complete found = Ok (r, ds)" and
    found: "\<And>i. found = Some i \<Longrightarrow> i < length (g_states g) \<and> defect sys p (g_states g ! i)"
    using find_state_Some deadlock_stuck [OF nodes]
    by (cases p) (fastforce simp: state_property_def violates_Ok)+
  from check_bad_Fail [OF bad] fail obtain i where i: "found = Some i" by auto
  with bad obtain d where d: "make_diagnostic sys g pid i complete = Ok d" "ds = [d]"
    by (auto simp: check_bad_def)
  from make_diagnostic_refutes [OF d(1) g] found [OF i] d(2) show ?thesis by blast
qed

lemma check_reachability_fail:
  assumes "key_sound sys" "complete \<Longrightarrow> complete_graph sys init g"
    and "check_property sys g pid (Reachability goal) complete = Ok (r, ds)" "rs_outcome r = Fail"
  shows "complete \<and> \<not> holds sys (Reachability goal)"
proof -
  from assms(3) obtain found where f: "find_state (\<lambda>s. ts_satisfied sys s goal) g = Ok found" by auto
  with assms(3,4) have c: complete and n: "found = None"
    by (auto simp: result_of_def split: option.splits if_splits)
  have "ts_satisfied sys s goal = Ok False" if "reachable sys s" for s
    using covered_sat [OF assms(1) _ that, of init g goal "Ok False"] assms(2) [OF c]
      find_state_None [OF f [unfolded n]]
    by (simp add: complete_graph_def)
  with c show ?thesis by auto
qed


subsection \<open>The report\<close>

lemma verify_started:
  assumes "verify sys c = Ok (Some rep)"
    "rp_analysis_started rep \<or> rp_outcome rep \<in> {Pass, Fail, Unknown}"
  obtains init s where "ts_initial sys = Ok init" "search_done sys init s" "check_all sys c s = Ok rep"
proof (cases "ts_initial sys")
  case (Ok init)
  with assms(1) obtain key r where key: "ts_state_key sys init = Ok key" and
    r: "search_loop (verify_round sys (ct_bounds c)) (search_fuel (ct_bounds c)) (search_init key init) = Ok r"
    and rest: "(case r of None \<Rightarrow> Ok None | Some s \<Rightarrow> rbind (check_all sys c s) (\<lambda>rep. Ok (Some rep))) = Ok (Some rep)"
    by (auto simp: verify_def)
  from verify_loop.run_done [OF key r] obtain s where s: "r = Some s" "search_done sys init s" by blast
  with rest that [OF Ok s(2)] show thesis by auto
next
  case (Err e)
  with assms show thesis
    by (cases e) (auto simp: verify_def report_early_def report_synthetic_def)
next
  case Panic
  with assms show thesis by (simp add: verify_def)
qed

lemma mapM_in:
  "mapM f xs = Ok ys \<Longrightarrow> x \<in> set xs \<Longrightarrow> \<exists>y\<in>set ys. f x = Ok y"
  by (induction xs arbitrary: ys) auto

lemma check_all_parts:
  assumes "check_all sys c s = Ok rep"
  obtains ps bs where
    "mapM (\<lambda>p. check_property sys (sr_graph s) (pr_id p) (pr_property p) (search_complete s)) (ct_properties c) = Ok ps"
    "mapM (\<lambda>b. check_preserved sys (sr_graph s) b (search_complete s)) (ct_preserved c) = Ok bs"
    "rp_properties rep = map fst ps @ map fst bs" "rp_diagnostics rep = concat (map snd ps @ map snd bs)"
    "rp_outcome rep = overall_outcome (map fst ps @ map fst bs) s" "rp_complete rep = search_complete s"
    "rp_boundary_events rep = sr_boundary s" "rp_states_explored rep = length (g_states (sr_graph s))"
  using assms by (auto simp: check_all_def Let_def)

lemma overall_Pass:
  assumes "overall_outcome rs s = Pass"
  shows "search_complete s"
    and "r \<in> set rs \<Longrightarrow> rs_outcome r \<in> {Pass, Fail, Unknown} \<Longrightarrow> rs_outcome r = Pass"
  using assms by (auto simp: overall_outcome_def list_ex_iff split: if_splits)

lemma check_bad_outcome:
  "check_bad sys g pid complete found = Ok (r, ds) \<Longrightarrow> rs_outcome r \<in> {Pass, Fail, Unknown}"
  by (auto simp: check_bad_def result_of_def if_complete_def split: option.splits if_splits)

lemma check_property_outcome:
  "check_property sys g pid p complete = Ok (r, ds) \<Longrightarrow> rs_outcome r \<in> {Pass, Fail, Unknown}"
proof (cases p)
  case (Reachability goal)
  assume "check_property sys g pid p complete = Ok (r, ds)"
  with Reachability show ?thesis by (auto simp: result_of_def split: option.splits if_splits)
next
  case (AlwaysReachable goal)
  assume "check_property sys g pid p complete = Ok (r, ds)"
  with AlwaysReachable show ?thesis
    by (auto simp: check_always_reachable_def Let_def result_of_def split: if_splits
        dest: check_bad_outcome)
qed (auto dest!: check_bad_outcome)

lemma check_preserved_outcome:
  "check_preserved sys g pb complete = Ok (r, ds) \<Longrightarrow> rs_outcome r \<in> {Pass, Fail, Unknown}"
  by (cases "pb_behavior pb") (auto simp: check_preserved_def Let_def result_of_def
      split: if_splits dest!: check_bad_outcome)

lemma verify_pass_parts:
  fixes sys :: "'s tsystem"
  assumes "verify sys c = Ok (Some rep)" "rp_outcome rep = Pass"
  obtains init and s :: "'s search" where "ts_initial sys = Ok init" "complete_graph sys init (sr_graph s)"
    "rp_complete rep" "rp_boundary_events rep = []"
    "\<forall>p \<in> set (ct_properties c). \<exists>r ds. rs_outcome r = Pass \<and>
       check_property sys (sr_graph s) (pr_id p) (pr_property p) True = Ok (r, ds)"
    "\<forall>b \<in> set (ct_preserved c). \<exists>r ds. rs_outcome r = Pass \<and>
       check_preserved sys (sr_graph s) b True = Ok (r, ds)"
proof -
  obtain init s where init: "ts_initial sys = Ok init" and dn: "search_done sys init s" and
    all: "check_all sys c s = Ok rep"
    by (rule verify_started [OF assms(1)]) (simp add: assms(2))
  obtain ps bs where ps:
    "mapM (\<lambda>p. check_property sys (sr_graph s) (pr_id p) (pr_property p) (search_complete s)) (ct_properties c) = Ok ps"
    and bs: "mapM (\<lambda>b. check_preserved sys (sr_graph s) b (search_complete s)) (ct_preserved c) = Ok bs"
    and rep: "rp_outcome rep = overall_outcome (map fst ps @ map fst bs) s"
    "rp_complete rep = search_complete s" "rp_boundary_events rep = sr_boundary s"
    by (rule check_all_parts [OF all])
  have oc: "rs_outcome r \<in> {Pass, Fail, Unknown}" if "r \<in> set (map fst ps @ map fst bs)" for r
  proof -
    from that consider y where "y \<in> set ps" "fst y = r" | y where "y \<in> set bs" "fst y = r" by auto
    then show ?thesis
    proof cases
      case 1
      then show ?thesis
        using mapM_Ok_set [OF ps] check_property_outcome by (metis prod.collapse)
    next
      case 2
      then show ?thesis
        using mapM_Ok_set [OF bs] check_preserved_outcome by (metis prod.collapse)
    qed
  qed
  have pass: "overall_outcome (map fst ps @ map fst bs) s = Pass" using assms(2) rep(1) by simp
  note comp = overall_Pass(1) [OF pass]
  have each: "rs_outcome r = Pass" if "r \<in> set (map fst ps @ map fst bs)" for r
    by (rule overall_Pass(2) [OF pass that oc [OF that]])
  show thesis
  proof (rule that [OF init complete_graphI [OF dn comp init]])
    show "rp_complete rep" "rp_boundary_events rep = []"
      using comp rep by (auto simp: search_complete_def)
    show "\<forall>p \<in> set (ct_properties c). \<exists>r ds. rs_outcome r = Pass \<and>
       check_property sys (sr_graph s) (pr_id p) (pr_property p) True = Ok (r, ds)"
    proof
      fix p assume p: "p \<in> set (ct_properties c)"
      from mapM_in [OF ps p] obtain y where y: "y \<in> set ps"
        "check_property sys (sr_graph s) (pr_id p) (pr_property p) (search_complete s) = Ok y" by blast
      from each [of "fst y"] y(1) have "rs_outcome (fst y) = Pass" by auto
      with y(2) comp show "\<exists>r ds. rs_outcome r = Pass \<and>
          check_property sys (sr_graph s) (pr_id p) (pr_property p) True = Ok (r, ds)"
        by (intro exI [of _ "fst y"] exI [of _ "snd y"]) simp
    qed
    show "\<forall>b \<in> set (ct_preserved c). \<exists>r ds. rs_outcome r = Pass \<and>
       check_preserved sys (sr_graph s) b True = Ok (r, ds)"
    proof
      fix b assume b: "b \<in> set (ct_preserved c)"
      from mapM_in [OF bs b] obtain y where y: "y \<in> set bs"
        "check_preserved sys (sr_graph s) b (search_complete s) = Ok y" by blast
      from each [of "fst y"] y(1) have "rs_outcome (fst y) = Pass" by auto
      with y(2) comp show "\<exists>r ds. rs_outcome r = Pass \<and>
          check_preserved sys (sr_graph s) b True = Ok (r, ds)" by (intro exI [of _ "fst y"] exI [of _ "snd y"]) simp
    qed
  qed
qed

end
