(* ===== verification/Explore_Report.thy ===== *)
theory Explore_Report
  imports Explore_Verdicts
begin

text \<open>
  What the single results of a report mean: a \<open>Fail\<close> of a complete search refutes the property,
  a \<open>Fail\<close> of a state property always comes with an execution, and each result of the report is
  the verdict of its property on the explored graph.
\<close>

subsection \<open>Failing on a complete graph\<close>

text \<open>An execution from an explored state is matched by a path of explored edges, up to keys.\<close>

lemma execution_edge_path:
  assumes "key_sound sys" "covered sys init g" "execution sys (g_states g ! i) ls t" "i < length (g_states g)"
  shows "\<exists>j<length (g_states g). (i, j) \<in> (edge_rel (g_edges g))\<^sup>* \<and> same_key sys t (g_states g ! j)"
  using assms(3,4)
proof (induction "g_states g ! i" ls t rule: execution.induct)
  case execution_refl
  then show ?case by (auto simp: same_key_def)
next
  case (execution_step ls u l v)
  then obtain j where j: "j < length (g_states g)" "(i, j) \<in> (edge_rel (g_edges g))\<^sup>*"
    "same_key sys u (g_states g ! j)" by auto
  have r: "reachable sys (g_states g ! k)" if "k < length (g_states g)" for k
    using assms(2) graph_states_reachable that by (auto simp: covered_def)
  have "reachable sys u" by (rule reachable_execution [OF execution_step.hyps(1) r [OF execution_step.prems]])
  from key_sound_step [OF assms(1) this r [OF j(1)] j(3) execution_step.hyps(3)]
  obtain l' v' where v': "sys_step sys (g_states g ! j) l' v'" "same_key sys v v'" .
  from expanded_edge [OF _ v'(1)] j(1) assms(2) obtain k where k: "(k, l') \<in> set (g_edges g ! j)"
    "k < length (g_states g)" "same_key sys v' (g_states g ! k)" by (auto simp: covered_def)
  have "j < length (g_edges g)"
    using j(1) assms(2) by (simp add: covered_def graph_ok_def graph_lengths_def Let_def)
  with k(1) have "(j, k) \<in> edge_rel (g_edges g)" by (auto simp: edge_rel_def)
  with j(2) have "(i, k) \<in> (edge_rel (g_edges g))\<^sup>*" by (rule rtrancl_into_rtrancl)
  with k v'(2) show ?case by (blast intro: same_key_trans)
qed

lemma check_always_fail:
  assumes ks: "key_sound sys" and cov: "covered sys init g"
    and chk: "check_always_reachable sys g pid goal complete = Ok (r, ds)" "rs_outcome r = Fail"
  shows "\<not> holds sys (AlwaysReachable goal)"
proof
  assume h: "holds sys (AlwaysReachable goal)"
  from chk(1) obtain goals where gs: "goal_states sys goal g = Ok goals"
    by (auto simp: check_always_reachable_def)
  have "i \<in> set (reverse_reachable g goals)" if i: "i < length (g_states g)" for i
  proof -
    have ri: "reachable sys (g_states g ! i)"
      using cov graph_states_reachable i by (auto simp: covered_def)
    with h obtain ls t where t: "execution sys (g_states g ! i) ls t" "ts_satisfied sys t goal = Ok True"
      by auto
    from execution_edge_path [OF ks cov t(1) i] obtain j where j: "j < length (g_states g)"
      "(i, j) \<in> (edge_rel (g_edges g))\<^sup>*" "same_key sys t (g_states g ! j)" by blast
    have "reachable sys (g_states g ! j)"
      using cov graph_states_reachable j(1) by (auto simp: covered_def)
    from key_sound_sat [OF ks reachable_execution [OF t(1) ri] this j(3)] t(2)
    have "j \<in> set goals" using goal_states_Ok [OF gs] j(1) by simp
    with j(2) show ?thesis by (auto simp: reverse_reachable_exact)
  qed
  moreover have "0 < length (g_states g)"
    using cov by (auto simp: covered_def graph_ok_def graph_lengths_def Let_def)
  ultimately have "goals \<noteq> []" "find (\<lambda>i. i \<notin> set (reverse_reachable g goals)) [0..<length (g_states g)] = None"
    by (fastforce simp: reverse_reachable_exact, simp add: find_None)
  with chk gs show False
    by (auto simp: check_always_reachable_def check_bad_def result_of_def if_complete_def Let_def
        split: if_splits)
qed

lemma refutes_not_holds:
  assumes "refutes sys (defect sys p) d" "state_property p"
  shows "\<not> holds sys p"
proof -
  from assms(1) obtain init t where t: "ts_initial sys = Ok init"
    "execution sys init (di_counterexample d) t" "defect sys p t" by (auto simp: refutes_def)
  have r: "reachable sys t" by (rule execution_reachable [OF t(2,1)])
  show ?thesis
  proof (cases p)
    case DeadlockFree
    with r t(3) show ?thesis by (force simp: stuck_def sys_step_iff enabled_empty_def)
  qed (use r t(3) assms(2) in \<open>auto simp: state_property_def\<close>)
qed

lemma check_fail_refuted:
  assumes ks: "key_sound sys" and cg: "complete_graph sys init g"
    and chk: "check_property sys g pid p True = Ok (r, ds)" "rs_outcome r = Fail"
  shows "\<not> holds sys p"
proof (cases "state_property p")
  case True
  from cg have g: "graph_ok sys init g" "ts_initial sys = Ok init"
    and nodes: "\<And>i. i < length (g_states g) \<Longrightarrow> node_ok sys g i"
    by (auto simp: complete_graph_def covered_def node_ok_def)
  from check_fail_sound [OF g nodes chk True] obtain d where "refutes sys (defect sys p) d" by blast
  then show ?thesis by (rule refutes_not_holds [OF _ True])
next
  case False
  then consider goal where "p = Reachability goal" | goal where "p = AlwaysReachable goal"
    by (cases p) (auto simp: state_property_def)
  then show ?thesis
  proof cases
    case 1
    from check_reachability_fail [OF ks, of True init g] cg chk show ?thesis unfolding 1 by blast
  next
    case 2
    from check_always_fail [OF ks, of init g] cg chk show ?thesis
      unfolding 2 by (auto simp: complete_graph_def)
  qed
qed

subsection \<open>The results of a report\<close>

text \<open>Result \<open>i\<close> of the report is the verdict of property \<open>i\<close> on the graph of a finished search.\<close>

lemma report_result:
  fixes sys :: "'s tsystem"
  assumes "verify sys c = Ok (Some rep)" "rp_analysis_started rep" "i < length (ct_properties c)"
  obtains init and s :: "'s search" and ds where "ts_initial sys = Ok init" "search_done sys init s"
    "rp_complete rep = search_complete s" "set ds \<subseteq> set (rp_diagnostics rep)"
    "check_property sys (sr_graph s) (pr_id (ct_properties c ! i)) (pr_property (ct_properties c ! i))
       (search_complete s) = Ok (rp_properties rep ! i, ds)"
proof -
  obtain init s where s: "ts_initial sys = Ok init" "search_done sys init s" "check_all sys c s = Ok rep"
    by (rule verify_started [OF assms(1)]) (simp add: assms(2))
  obtain ps bs where ps:
    "mapM (\<lambda>p. check_property sys (sr_graph s) (pr_id p) (pr_property p) (search_complete s)) (ct_properties c) = Ok ps"
    and rep: "rp_properties rep = map fst ps @ map fst bs" "rp_diagnostics rep = concat (map snd ps @ map snd bs)"
    "rp_complete rep = search_complete s"
    by (rule check_all_parts [OF s(3)])
  have len: "i < length ps" using ps assms(3) by (auto simp: mapM_Ok_list_all2 list_all2_conv_all_nth)
  have "check_property sys (sr_graph s) (pr_id (ct_properties c ! i)) (pr_property (ct_properties c ! i))
       (search_complete s) = Ok (rp_properties rep ! i, snd (ps ! i))"
    using mapM_nth [OF ps assms(3)] len by (simp add: rep(1) nth_append)
  moreover have "set (snd (ps ! i)) \<subseteq> set (rp_diagnostics rep)" using len by (force simp: rep(2))
  ultimately show thesis by (rule that [OF s(1,2) rep(3), rotated])
qed

text \<open>The same for the preserved behaviours, whose results follow those of the properties.\<close>

lemma report_preserved:
  fixes sys :: "'s tsystem"
  assumes "verify sys c = Ok (Some rep)" "rp_analysis_started rep" "i < length (ct_preserved c)"
  obtains init and s :: "'s search" and ds where "ts_initial sys = Ok init" "search_done sys init s"
    "rp_complete rep = search_complete s"
    "check_preserved sys (sr_graph s) (ct_preserved c ! i) (search_complete s) =
       Ok (rp_properties rep ! (length (ct_properties c) + i), ds)"
proof -
  obtain init s where s: "ts_initial sys = Ok init" "search_done sys init s" "check_all sys c s = Ok rep"
    by (rule verify_started [OF assms(1)]) (simp add: assms(2))
  obtain ps bs where ps:
    "mapM (\<lambda>p. check_property sys (sr_graph s) (pr_id p) (pr_property p) (search_complete s)) (ct_properties c) = Ok ps"
    and bs: "mapM (\<lambda>b. check_preserved sys (sr_graph s) b (search_complete s)) (ct_preserved c) = Ok bs"
    and rep: "rp_properties rep = map fst ps @ map fst bs" "rp_complete rep = search_complete s"
    by (rule check_all_parts [OF s(3)])
  have len: "length ps = length (ct_properties c)" "i < length bs"
    using ps bs assms(3) by (auto simp: mapM_Ok_list_all2 list_all2_conv_all_nth)
  have "check_preserved sys (sr_graph s) (ct_preserved c ! i) (search_complete s) =
       Ok (rp_properties rep ! (length (ct_properties c) + i), snd (bs ! i))"
    using mapM_nth [OF bs assms(3)] len by (simp add: rep(1) nth_append)
  then show thesis by (rule that [OF s(1,2) rep(2)])
qed

lemma done_nodes: "search_done sys init s \<Longrightarrow> graph_ok sys init (sr_graph s)"
  "search_done sys init s \<Longrightarrow> i < length (g_states (sr_graph s)) \<Longrightarrow> node_ok sys (sr_graph s) i"
  by (auto simp: search_done_def nodes_ok_def)

lemma done_complete:
  "search_done sys init s \<Longrightarrow> ts_initial sys = Ok init \<Longrightarrow> search_complete s \<Longrightarrow>
    complete_graph sys init (sr_graph s)"
  by (rule complete_graphI)

lemma covered_clean:
  assumes "key_sound sys" "covered sys init g" "reachable sys s"
  shows "clean sys s"
proof -
  obtain i where i: "i < length (g_states g)" "same_key sys s (g_states g ! i)"
    "reachable sys (g_states g ! i)" by (rule covered_state [OF assms])
  from i(1) assms(2) have "clean sys (g_states g ! i)"
    by (auto simp: covered_def fully_expanded_def clean_def)
  with key_sound_clean [OF assms(1,3) i(3,2)] show ?thesis by simp
qed

subsection \<open>The result of an exploration\<close>

lemma explore_Some:
  fixes sys :: "'s tsystem"
  assumes "explore sys b = Ok (Some r)" "re_states r \<noteq> []"
  obtains init and s :: "'s search" where "ts_initial sys = Ok init" "search_done sys init s"
    "re_states r = g_states (sr_graph s)" "re_edges r = g_edges (sr_graph s)"
    "re_truncated r = sr_truncated s" "re_boundary r = sr_boundary s"
    "re_unsupported r = sr_unsupported s" "re_invalid r = sr_invalid s"
proof (cases "ts_initial sys")
  case (Ok init)
  with assms(1) obtain key z where key: "ts_state_key sys init = Ok key" and
    z: "search_loop (explore_round sys b) (search_fuel b) (search_init key init) = Ok z"
    and rest: "map_option (\<lambda>s. \<lparr>re_states = g_states (sr_graph s), re_edges = g_edges (sr_graph s),
             re_boundary = sr_boundary s, re_unsupported = sr_unsupported s,
             re_invalid = sr_invalid s, re_truncated = sr_truncated s\<rparr>) z = Some r"
    by (auto simp: explore_def)
  from explore_loop.run_done [OF key z] obtain s where s: "z = Some s" "search_done sys init s" by blast
  show thesis by (rule that [OF Ok s(2)]) (use rest s(1) in auto)
qed (use assms in \<open>auto simp: explore_def\<close>)

lemma explore_reachable:
  assumes "explore sys b = Ok (Some r)" "s \<in> set (re_states r)"
  shows "reachable sys s"
proof -
  from assms(2) obtain i where i: "i < length (re_states r)" "re_states r ! i = s"
    by (auto simp: in_set_conv_nth)
  then have "re_states r \<noteq> []" by auto
  then obtain init sr where sr: "ts_initial sys = Ok init" "search_done sys init sr"
    "re_states r = g_states (sr_graph sr)" by (rule explore_Some [OF assms(1)])
  from graph_states_reachable [OF done_nodes(1) [OF sr(2)] sr(1)] i show ?thesis by (auto simp: sr(3))
qed

end
