(* ===== verification/Interp_State.thy ===== *)
theory Interp_State
  imports Sem_System
begin

text \<open>
  The machine state of the reference interpreter (\<open>src/src/interp/state.rs\<close>): the store, the
  frames, the threads and scopes, the durable completion facts and the identity counters, with
  the operations that read and update them.
\<close>

subsection \<open>The store\<close>

datatype mutex_state = Free | Held thread_id

record pending_send =
  ps_thread :: thread_id
  ps_value :: cvalue

record channel_state =
  ch_buffer :: "cvalue list"
  ch_pending_send :: "pending_send list"
  ch_pending_recv :: "thread_id list"

definition channel_default :: channel_state where
  "channel_default = \<lparr>ch_buffer = [], ch_pending_send = [], ch_pending_recv = []\<rparr>"

type_synonym condvar_state = "(thread_id \<times> resource_id) list"

record ret_addr =
  ra_pc_next :: nat
  ra_dst :: slot_ref

record frame =
  fr_id :: frame_id
  fr_function :: function_id
  fr_pc :: nat
  fr_locals :: "(nat, cvalue) btree"
  fr_handles :: "(string, handle_id) btree"
  fr_ret :: "ret_addr option"

record store =
  vars :: "(resource_id, cvalue) btree"
  atomics :: "(resource_id, cvalue) btree"
  mutexes :: "(resource_id, mutex_state) btree"
  semaphores :: "(resource_id, int) btree"
  channels :: "(resource_id, channel_state) btree"
  condvars :: "(resource_id, condvar_state) btree"
  frames :: "(frame_id, frame) btree"

definition store_default :: store where
  "store_default = \<lparr>vars = [], atomics = [], mutexes = [], semaphores = [], channels = [],
     condvars = [], frames = []\<rparr>"

definition read_shared :: "store \<Rightarrow> resource_id \<Rightarrow> cvalue option" where
  "read_shared s r = (case bt_get (vars s) r of Some v \<Rightarrow> Some v | None \<Rightarrow> bt_get (atomics s) r)"

definition write_shared :: "resource_id \<Rightarrow> cvalue \<Rightarrow> store \<Rightarrow> store" where
  "write_shared r v s =
    (if bt_has (vars s) r then s\<lparr>vars := bt_insert r v (vars s)\<rparr>
     else s\<lparr>atomics := bt_insert r v (atomics s)\<rparr>)"

definition write_frame :: "frame_id \<Rightarrow> frame \<Rightarrow> store \<Rightarrow> store" where
  "write_frame i f s = s\<lparr>frames := bt_insert i f (frames s)\<rparr>"

subsection \<open>Threads and scopes\<close>

datatype block_reason =
    BrLock resource_id
  | BrChannelSend resource_id
  | BrChannelRecv resource_id
  | BrCondvar resource_id resource_id
  | BrSemaphore resource_id
  | BrJoin handle_id
  | BrScope scope_id

datatype thread_status = Runnable | Blocked block_reason | Finished

record thread_state =
  th_id :: thread_id
  th_status :: thread_status
  th_stack :: "frame_id list"
  th_entry_function :: function_id
  th_handle_children :: "(handle_id, thread_id) btree"
  th_parent_scope :: "scope_id option"

text \<open>The stack is kept in the code's order: the current frame is the last one.\<close>

definition th_current_frame :: "thread_state \<Rightarrow> frame_id option" where
  "th_current_frame t = (if th_stack t = [] then None else Some (last (th_stack t)))"

record scope_state =
  sc_id :: scope_id
  sc_owner :: thread_id
  sc_owner_frame :: frame_id
  sc_remaining :: "thread_id list"

record alloc =
  next_thread :: nat
  next_frame :: nat
  next_scope :: nat
  next_handle :: nat

record machine_state =
  ms_store :: store
  ms_threads :: "(thread_id, thread_state) btree"
  ms_sem_waiters :: "(resource_id, (thread_id \<times> int) list) btree"
  ms_scopes :: "(scope_id, scope_state) btree"
  ms_finished :: "thread_id list"
  ms_completed_functions :: "(function_id, nat) btree"
  ms_completed_scopes :: "(function_id \<times> nat) list"
  ms_reached :: "(function_id \<times> nat) list"
  ms_alloc :: alloc

text \<open>Equality of machine states ignores the identity counters (\<open>PartialEq for Alloc\<close>).\<close>

definition ms_eq :: "machine_state \<Rightarrow> machine_state \<Rightarrow> bool" where
  "ms_eq s t \<longleftrightarrow> s\<lparr>ms_alloc := ms_alloc t\<rparr> = t"

subsection \<open>Reading the state\<close>

definition thread_of :: "machine_state \<Rightarrow> thread_id \<Rightarrow> thread_state backend_result" where
  "thread_of st t = unwrap (bt_get (ms_threads st) t)"

definition current_frame_id :: "machine_state \<Rightarrow> thread_id \<Rightarrow> frame_id option" where
  "current_frame_id st t = Option.bind (bt_get (ms_threads st) t) th_current_frame"

definition frame_of :: "machine_state \<Rightarrow> frame_id \<Rightarrow> frame backend_result" where
  "frame_of st f = unwrap (bt_get (frames (ms_store st)) f)"

definition pc_of :: "machine_state \<Rightarrow> thread_id \<Rightarrow> nat option backend_result" where
  "pc_of st t = (case current_frame_id st t of
      None \<Rightarrow> Ok None
    | Some f \<Rightarrow> rbind (frame_of st f) (\<lambda>fr. Ok (Some (fr_pc fr))))"

text \<open>\<open>FrameView\<close>: the slots of a frame and the shared store.\<close>

definition view_slot :: "frame \<Rightarrow> slot_id \<Rightarrow> cvalue option" where
  "view_slot fr i = bt_get (fr_locals fr) i"

definition view_shared :: "store \<Rightarrow> resource_id \<Rightarrow> cvalue option" where
  "view_shared s r = read_shared s r"

subsection \<open>Updating the state\<close>

definition upd_store :: "(store \<Rightarrow> store) \<Rightarrow> machine_state \<Rightarrow> machine_state" where
  "upd_store g st = st\<lparr>ms_store := g (ms_store st)\<rparr>"

definition modify_frame :: "frame_id \<Rightarrow> (frame \<Rightarrow> frame) \<Rightarrow> machine_state \<Rightarrow> machine_state backend_result" where
  "modify_frame f g st = rbind (frame_of st f) (\<lambda>fr. Ok (upd_store (write_frame f (g fr)) st))"

definition upd_thread :: "thread_id \<Rightarrow> (thread_state \<Rightarrow> thread_state) \<Rightarrow> machine_state \<Rightarrow> machine_state" where
  "upd_thread t g st = st\<lparr>ms_threads := bt_adjust t g (ms_threads st)\<rparr>"

definition modify_thread :: "thread_id \<Rightarrow> (thread_state \<Rightarrow> thread_state) \<Rightarrow> machine_state \<Rightarrow> machine_state backend_result" where
  "modify_thread t g st = rbind (thread_of st t) (\<lambda>_. Ok (upd_thread t g st))"

definition set_runnable :: "thread_id \<Rightarrow> machine_state \<Rightarrow> machine_state" where
  "set_runnable t = upd_thread t (\<lambda>th. th\<lparr>th_status := Runnable\<rparr>)"

definition block :: "thread_id \<Rightarrow> block_reason \<Rightarrow> machine_state \<Rightarrow> machine_state" where
  "block t reason = upd_thread t (\<lambda>th. th\<lparr>th_status := Blocked reason\<rparr>)"

definition advance :: "thread_id \<Rightarrow> machine_state \<Rightarrow> machine_state backend_result" where
  "advance t st = (case current_frame_id st t of
      None \<Rightarrow> Ok st
    | Some f \<Rightarrow> modify_frame f (\<lambda>fr. fr\<lparr>fr_pc := Suc (fr_pc fr)\<rparr>) st)"

definition set_pc :: "frame_id \<Rightarrow> nat \<Rightarrow> machine_state \<Rightarrow> machine_state backend_result" where
  "set_pc f pc st = modify_frame f (\<lambda>fr. fr\<lparr>fr_pc := pc\<rparr>) st"

fun write_dst :: "frame_id \<Rightarrow> slot_ref \<Rightarrow> cvalue \<Rightarrow> machine_state \<Rightarrow> machine_state backend_result" where
  "write_dst f Discard v st = Ok st"
| "write_dst f (Local i) v st = modify_frame f (\<lambda>fr. fr\<lparr>fr_locals := bt_insert i v (fr_locals fr)\<rparr>) st"
| "write_dst f (Shared r) v st = Ok (upd_store (write_shared r v) st)"

fun read_dst :: "frame_id \<Rightarrow> slot_ref \<Rightarrow> machine_state \<Rightarrow> cvalue option backend_result" where
  "read_dst f Discard st = Ok None"
| "read_dst f (Local i) st = rbind (frame_of st f) (\<lambda>fr. Ok (bt_get (fr_locals fr) i))"
| "read_dst f (Shared r) st = Ok (read_shared (ms_store st) r)"

subsection \<open>Allocation and the initial state\<close>

definition slot_initial :: "sem_slot \<Rightarrow> cvalue backend_result" where
  "slot_initial s = (case s_init s of Some v \<Rightarrow> Ok v | None \<Rightarrow> default_value (s_ty s))"

definition alloc_frame :: "sem_program \<Rightarrow> function_id \<Rightarrow> machine_state \<Rightarrow> (frame \<times> machine_state) backend_result" where
  "alloc_frame P f st =
    (let i = next_frame (ms_alloc st); st' = st\<lparr>ms_alloc := (ms_alloc st)\<lparr>next_frame := Suc i\<rparr>\<rparr>
     in rbind (function_of P f) (\<lambda>fn.
        rbind (mapM slot_initial (f_slots fn)) (\<lambda>vs.
          Ok (\<lparr>fr_id = i, fr_function = f, fr_pc = 0, fr_locals = enumerate 0 vs,
               fr_handles = [], fr_ret = None\<rparr>, st'))))"

definition init_resource :: "sem_resource \<Rightarrow> store \<Rightarrow> store" where
  "init_resource r s = (case r_kind r of
      KVar \<Rightarrow> (case r_init r of Some v \<Rightarrow> s\<lparr>vars := bt_insert (r_id r) v (vars s)\<rparr> | None \<Rightarrow> s)
    | KAtomic \<Rightarrow> (case r_init r of Some v \<Rightarrow> s\<lparr>atomics := bt_insert (r_id r) v (atomics s)\<rparr> | None \<Rightarrow> s)
    | KMutex \<Rightarrow> s\<lparr>mutexes := bt_insert (r_id r) Free (mutexes s)\<rparr>
    | KCondvar \<Rightarrow> s\<lparr>condvars := bt_insert (r_id r) [] (condvars s)\<rparr>
    | KSemaphore \<Rightarrow> s\<lparr>semaphores := bt_insert (r_id r) (r_permits r) (semaphores s)\<rparr>
    | KChannel \<Rightarrow> s\<lparr>channels := bt_insert (r_id r) channel_default (channels s)\<rparr>
    | KRwLock \<Rightarrow> s)"

definition init_resources :: "sem_program \<Rightarrow> store \<Rightarrow> store" where
  "init_resources P s = fold init_resource (p_resources P) s"

definition empty_state :: machine_state where
  "empty_state = \<lparr>ms_store = store_default, ms_threads = [], ms_sem_waiters = [], ms_scopes = [],
     ms_finished = [], ms_completed_functions = [], ms_completed_scopes = [], ms_reached = [],
     ms_alloc = \<lparr>next_thread = 0, next_frame = 0, next_scope = 0, next_handle = 0\<rparr>\<rparr>"

definition new_thread :: "thread_id \<Rightarrow> thread_status \<Rightarrow> frame_id list \<Rightarrow> function_id \<Rightarrow> scope_id option \<Rightarrow> thread_state" where
  "new_thread t status stack f scope =
     \<lparr>th_id = t, th_status = status, th_stack = stack, th_entry_function = f,
      th_handle_children = [], th_parent_scope = scope\<rparr>"

definition initial_state :: "sem_program \<Rightarrow> machine_state backend_result" where
  "initial_state P =
    (let st0 = upd_store (init_resources P) empty_state;
         tid = next_thread (ms_alloc st0);
         st = st0\<lparr>ms_alloc := (ms_alloc st0)\<lparr>next_thread := Suc tid\<rparr>\<rparr>;
         entry = p_entry P
     in rbind (function_of P entry) (\<lambda>fn.
        if is_transparent_nobody fn then
          Ok (st\<lparr>ms_threads := bt_insert tid (new_thread tid Finished [] entry None) (ms_threads st),
                ms_finished := bs_insert tid (ms_finished st),
                ms_completed_functions := bt_insert entry 1 (ms_completed_functions st)\<rparr>)
        else
          rbind (alloc_frame P entry st) (\<lambda>(fr, st).
            Ok ((upd_store (write_frame (fr_id fr) fr) st)
                \<lparr>ms_threads := bt_insert tid (new_thread tid Runnable [fr_id fr] entry None) (ms_threads st)\<rparr>))))"

subsection \<open>Lookup laws\<close>

lemma frame_of_Ok [simp]: "frame_of st f = Ok fr \<longleftrightarrow> bt_get (frames (ms_store st)) f = Some fr"
  by (simp add: frame_of_def)

lemma thread_of_Ok [simp]: "thread_of st t = Ok th \<longleftrightarrow> bt_get (ms_threads st) t = Some th"
  by (simp add: thread_of_def)

lemma read_write_shared:
  "read_shared (write_shared r v s) r' = (if r' = r then Some v else read_shared s r')"
  by (auto simp: read_shared_def write_shared_def bt_has_def split: option.splits)

lemma write_read_dst:
  "write_dst f d v st = Ok st' \<Longrightarrow> d \<noteq> Discard \<Longrightarrow> read_dst f d st' = Ok (Some v)"
  by (cases d) (auto simp: modify_frame_def upd_store_def write_frame_def read_write_shared)

end
