(* ===== verification/Interp_Exec.thy ===== *)
theory Interp_Exec
  imports Interp_State
begin

text \<open>
  The steps of the reference interpreter (\<open>src/src/interp/exec.rs\<close>): one definition per handler,
  composed by \<open>step_thread\<close>, \<open>resume_thread\<close> and \<open>successors\<close> as the code composes them. A disabled
  step is the empty list of successors; \<open>call\<close>, \<open>spawn\<close> and \<open>scope\<close> also return the boundary
  events they push.
\<close>

record interp =
  it_program :: sem_program
  it_bounds :: analysis_bounds
  it_monitor :: monitor_config

type_synonym results = "machine_state list"
type_synonym results_b = "machine_state list \<times> boundary_event list"

text \<open>The code's \<open>Interpreter::eval\<close>: the view is built before the expression is evaluated.\<close>

definition ieval :: "machine_state \<Rightarrow> frame_id \<Rightarrow> lexpr \<Rightarrow> cvalue backend_result" where
  "ieval st f e = rbind (frame_of st f) (\<lambda>fr. eval (view_slot fr) (view_shared (ms_store st)) e)"

definition get_type :: "sem_program \<Rightarrow> resource_id \<Rightarrow> base_type backend_result" where
  "get_type P r = rbind (resource_of P r) (\<lambda>res. unwrap (r_ty res))"

definition at_loc :: "string \<Rightarrow> 'a backend_result \<Rightarrow> 'a backend_result" where
  "at_loc loc m = (case m of Err e \<Rightarrow> Err (error_at loc e) | _ \<Rightarrow> m)"

subsection \<open>Helpers\<close>

definition record_completion :: "interp \<Rightarrow> function_id \<Rightarrow> machine_state \<Rightarrow> machine_state" where
  "record_completion ip f st =
    (let mx = max_for (it_monitor ip) f in
     if mx = 0 then st
     else let e = (case bt_get (ms_completed_functions st) f of Some n \<Rightarrow> n | None \<Rightarrow> 0)
          in st\<lparr>ms_completed_functions :=
               bt_insert f (if e < mx then Suc e else e) (ms_completed_functions st)\<rparr>)"

fun dst_type_ok :: "interp \<Rightarrow> machine_state \<Rightarrow> frame_id \<Rightarrow> slot_ref \<Rightarrow> cvalue \<Rightarrow> bool backend_result" where
  "dst_type_ok ip st f Discard v = Ok True"
| "dst_type_ok ip st f (Local i) v =
     rbind (frame_of st f) (\<lambda>fr.
     rbind (function_of (it_program ip) (fr_function fr)) (\<lambda>fn.
       Ok (case nth_opt (f_slots fn) i of Some s \<Rightarrow> within_type v (s_ty s) | None \<Rightarrow> True)))"
| "dst_type_ok ip st f (Shared r) v =
     rbind (resource_of (it_program ip) r) (\<lambda>res.
       Ok (case r_ty res of Some ty \<Rightarrow> within_type v ty | None \<Rightarrow> True))"

text \<open>\<open>None\<close> is the code's \<open>Ok(false)\<close>: the value is outside the domain and nothing is written.\<close>

definition try_write_dst ::
  "interp \<Rightarrow> frame_id \<Rightarrow> slot_ref \<Rightarrow> cvalue \<Rightarrow> machine_state \<Rightarrow> machine_state option backend_result" where
  "try_write_dst ip f d v st =
     rbind (dst_type_ok ip st f d v) (\<lambda>good.
       if \<not> good then Ok None else rbind (write_dst f d v st) (\<lambda>st. Ok (Some st)))"

definition complete :: "thread_id \<Rightarrow> machine_state \<Rightarrow> machine_state backend_result" where
  "complete t st = advance t (set_runnable t st)"

definition recv_dst_of :: "interp \<Rightarrow> machine_state \<Rightarrow> thread_id \<Rightarrow> slot_ref option backend_result" where
  "recv_dst_of ip st t = (case current_frame_id st t of
      None \<Rightarrow> Ok None
    | Some f \<Rightarrow> rbind (frame_of st f) (\<lambda>fr.
        rbind (function_of (it_program ip) (fr_function fr)) (\<lambda>fn.
          Ok (case nth_opt (f_body fn) (fr_pc fr) of
                Some s \<Rightarrow> (case st_op s of ChannelRecv c d \<Rightarrow> Some d | _ \<Rightarrow> None)
              | None \<Rightarrow> None))))"

definition deliver_to_recv ::
  "interp \<Rightarrow> thread_id \<Rightarrow> cvalue \<Rightarrow> machine_state \<Rightarrow> machine_state option backend_result" where
  "deliver_to_recv ip recv v st =
     rbind (recv_dst_of ip st recv) (\<lambda>d. case d of
         None \<Rightarrow> Ok (Some st)
       | Some d \<Rightarrow> (case current_frame_id st recv of
             None \<Rightarrow> Ok (Some st)
           | Some f \<Rightarrow> try_write_dst ip f d v st))"

definition thread_holds :: "interp \<Rightarrow> machine_state \<Rightarrow> thread_id \<Rightarrow> resource_id \<Rightarrow> bool backend_result" where
  "thread_holds ip st t r =
     rbind (resource_of (it_program ip) r) (\<lambda>res. Ok (case r_kind res of
         KMutex \<Rightarrow> bt_get (mutexes (ms_store st)) r = Some (Held t)
       | KSemaphore \<Rightarrow>
           (case bt_get (semaphores (ms_store st)) r of Some n \<Rightarrow> n | None \<Rightarrow> 0) < r_permits res
       | _ \<Rightarrow> False))"

subsection \<open>Ending an activation\<close>

text \<open>
  \<open>finish_thread\<close>: the parent scope is closed when its last member finished (its owner resumes,
  its members and the scope record are reclaimed), then every thread joining this one resumes and
  the joined child is reclaimed.
\<close>

definition close_scope :: "scope_id \<Rightarrow> machine_state \<Rightarrow> machine_state backend_result" where
  "close_scope scope st =
     rbind (unwrap (bt_get (ms_scopes st) scope)) (\<lambda>sc.
     rbind (frame_of st (sc_owner_frame sc)) (\<lambda>fr.
       let st1 = set_runnable (sc_owner sc)
             (st\<lparr>ms_completed_scopes := bs_insert (fr_function fr, fr_pc fr) (ms_completed_scopes st)\<rparr>)
       in rbind (advance (sc_owner sc) st1) (\<lambda>st2.
          let members = map fst (filter (\<lambda>(i, t). th_parent_scope t = Some scope) (ms_threads st2))
          in Ok (st2\<lparr>ms_threads := fold bt_remove members (ms_threads st2),
                     ms_finished := fold bs_remove members (ms_finished st2),
                     ms_scopes := bt_remove scope (ms_scopes st2)\<rparr>))))"

definition leave_scope :: "thread_id \<Rightarrow> machine_state \<Rightarrow> machine_state backend_result" where
  "leave_scope t st =
     rbind (thread_of st t) (\<lambda>th. case th_parent_scope th of
         None \<Rightarrow> Ok st
       | Some scope \<Rightarrow> (case bt_get (ms_scopes st) scope of
             None \<Rightarrow> Ok st
           | Some sc \<Rightarrow>
               let rest = bs_remove t (sc_remaining sc);
                   st' = st\<lparr>ms_scopes := bt_insert scope (sc\<lparr>sc_remaining := rest\<rparr>) (ms_scopes st)\<rparr>
               in if rest = [] then close_scope scope st' else Ok st'))"

definition joiners_of :: "thread_id \<Rightarrow> machine_state \<Rightarrow> thread_id list" where
  "joiners_of t st = map fst (filter (\<lambda>(i, th). case th_status th of
      Blocked (BrJoin h) \<Rightarrow> bt_get (th_handle_children th) h = Some t | _ \<Rightarrow> False) (ms_threads st))"

definition drop_join_handle :: "interp \<Rightarrow> thread_id \<Rightarrow> machine_state \<Rightarrow> machine_state backend_result" where
  "drop_join_handle ip j st = (case current_frame_id st j of
      None \<Rightarrow> Ok st
    | Some jf \<Rightarrow> rbind (frame_of st jf) (\<lambda>fr.
        rbind (function_of (it_program ip) (fr_function fr)) (\<lambda>fn.
          case nth_opt (f_body fn) (fr_pc fr) of
            None \<Rightarrow> Ok st
          | Some s \<Rightarrow> (case st_op s of
                Join h \<Rightarrow> modify_frame jf (\<lambda>fr. fr\<lparr>fr_handles := bt_remove h (fr_handles fr)\<rparr>) st
              | _ \<Rightarrow> Ok st))))"

definition release_joiner ::
  "interp \<Rightarrow> thread_id \<Rightarrow> thread_id \<Rightarrow> machine_state \<Rightarrow> machine_state backend_result" where
  "release_joiner ip t j st =
     rbind (drop_join_handle ip j
        (upd_thread j (\<lambda>th. th\<lparr>th_handle_children :=
             bt_retain (\<lambda>h c. c \<noteq> t) (th_handle_children th)\<rparr>) st)) (complete j)"

definition reclaim :: "thread_id \<Rightarrow> machine_state \<Rightarrow> machine_state" where
  "reclaim t st = st\<lparr>ms_threads := bt_remove t (ms_threads st),
                    ms_finished := bs_remove t (ms_finished st)\<rparr>"

definition finish_thread ::
  "interp \<Rightarrow> thread_id \<Rightarrow> function_id \<Rightarrow> machine_state \<Rightarrow> machine_state backend_result" where
  "finish_thread ip t f st =
    (let st0 = upd_thread t (\<lambda>th. th\<lparr>th_status := Finished\<rparr>) st;
         st1 = record_completion ip f (st0\<lparr>ms_finished := bs_insert t (ms_finished st0)\<rparr>)
     in rbind (leave_scope t st1) (\<lambda>st2.
        let js = joiners_of t st2
        in rbind (foldM (release_joiner ip t) js st2) (\<lambda>st3.
             Ok (if js = [] then st3 else reclaim t st3))))"

definition drop_frame :: "thread_id \<Rightarrow> frame_id \<Rightarrow> machine_state \<Rightarrow> machine_state" where
  "drop_frame t f st =
     upd_store (\<lambda>s. s\<lparr>frames := bt_remove f (frames s)\<rparr>)
       (upd_thread t (\<lambda>th. th\<lparr>th_stack := butlast (th_stack th)\<rparr>) st)"

text \<open>\<open>None\<close>: the callee's return type or the caller's destination rejects the value.\<close>

definition apply_return ::
  "interp \<Rightarrow> thread_id \<Rightarrow> frame_id \<Rightarrow> function_id \<Rightarrow> sem_function \<Rightarrow> cvalue option \<Rightarrow> machine_state
     \<Rightarrow> machine_state option backend_result" where
  "apply_return ip t f function_id fn val st =
    (if (case (f_returns fn, val) of (Some ret, Some v) \<Rightarrow> \<not> within_type v (s_ty ret) | _ \<Rightarrow> False)
     then Ok None
     else rbind (thread_of st t) (\<lambda>th.
       if length (th_stack th) > 1 then
         let caller = th_stack th ! (length (th_stack th) - 2) in
         rbind (frame_of st f) (\<lambda>callee.
         rbind (case (fr_ret callee, val) of
             (Some ret, Some v) \<Rightarrow> dst_type_ok ip st caller (ra_dst ret) v
           | _ \<Rightarrow> Ok True) (\<lambda>good.
         if \<not> good then Ok None
         else let st1 = drop_frame t f st in
           rbind (case fr_ret callee of
               None \<Rightarrow> Ok st1
             | Some ret \<Rightarrow>
                 rbind (case val of Some v \<Rightarrow> write_dst caller (ra_dst ret) v st1 | None \<Rightarrow> Ok st1)
                   (set_pc caller (ra_pc_next ret))) (\<lambda>st2.
             Ok (Some (record_completion ip function_id st2)))))
       else rbind (finish_thread ip t function_id (drop_frame t f st)) (\<lambda>st'. Ok (Some st'))))"

subsection \<open>Creating threads\<close>

definition within_function_bound :: "interp \<Rightarrow> machine_state \<Rightarrow> function_id \<Rightarrow> bool backend_result" where
  "within_function_bound ip st f =
     rbind (function_of (it_program ip) f) (\<lambda>fn. case f_bound fn of
         None \<Rightarrow> Ok True
       | Some b \<Rightarrow>
           rbind (filterM (\<lambda>t. if th_status t = Finished then Ok False
               else case th_stack t of
                   [] \<Rightarrow> Ok False
                 | fid # _ \<Rightarrow> rbind (frame_of st fid) (\<lambda>fr. Ok (fr_function fr = f)))
             (bt_values (ms_threads st))) (\<lambda>active. Ok (length active < nat (max b 0))))"

definition live_threads :: "machine_state \<Rightarrow> nat" where
  "live_threads st = length (filter (\<lambda>t. th_status t \<noteq> Finished) (bt_values (ms_threads st)))"

definition create_thread ::
  "interp \<Rightarrow> function_id \<Rightarrow> scope_id option \<Rightarrow> machine_state
     \<Rightarrow> (thread_id option \<times> machine_state \<times> boundary_event list) backend_result" where
  "create_thread ip f scope st =
    (if live_threads st \<ge> max_threads (it_bounds ip) then
       Ok (None, st, [boundary_new ThreadLimit])
     else
       let t = next_thread (ms_alloc st);
           st1 = st\<lparr>ms_alloc := (ms_alloc st)\<lparr>next_thread := Suc t\<rparr>\<rparr>
       in rbind (function_of (it_program ip) f) (\<lambda>fn.
          if is_transparent_nobody fn then
            let st2 = st1\<lparr>ms_threads := bt_insert t (new_thread t Finished [] f scope) (ms_threads st1),
                          ms_finished := bs_insert t (ms_finished st1)\<rparr>
            in Ok (Some t, record_completion ip f st2, [])
          else
            rbind (alloc_frame (it_program ip) f st1) (\<lambda>(fr, st2).
              let st3 = upd_store (write_frame (fr_id fr) fr) st2
              in Ok (Some t, st3\<lparr>ms_threads :=
                   bt_insert t (new_thread t Runnable [fr_id fr] f scope) (ms_threads st3)\<rparr>, []))))"

definition istep_label ::
  "interp \<Rightarrow> function_id \<Rightarrow> nat \<Rightarrow> thread_id \<Rightarrow> frame_id \<Rightarrow> step_label backend_result" where
  "istep_label ip f sid t fid =
     rbind (function_of (it_program ip) f) (\<lambda>fn.
       Ok (with_binding t fid (label_new
         \<lparr>or_module = f_module fn, or_function = f, or_sid = Some sid, or_phase = Statement\<rparr>)))"

section \<open>Handlers\<close>

text \<open>
  The statement handlers of \<open>Interpreter::step_thread\<close>, one definition per operation in the
  order of the code's match, then \<open>step_notify\<close>, \<open>resume_thread\<close> and \<open>successors\<close>
  (\<open>src/src/interp/exec.rs\<close>).
\<close>

text \<open>The local variables of \<open>step_thread\<close> that its arms use.\<close>

record site =
  sx_tid :: thread_id
  sx_fid :: frame_id
  sx_function_id :: function_id
  sx_function :: sem_function
  sx_pc :: nat
  sx_at :: string

definition one :: "machine_state backend_result \<Rightarrow> results backend_result" where
  "one m = rbind m (\<lambda>st. Ok [st])"

text \<open>A disabled step (\<open>None\<close>) has no successor.\<close>

definition opt_one :: "machine_state option backend_result \<Rightarrow> results backend_result" where
  "opt_one m = rbind m (\<lambda>r. Ok (case r of None \<Rightarrow> [] | Some st \<Rightarrow> [st]))"

definition guarded :: "bool \<Rightarrow> results backend_result \<Rightarrow> results backend_result" where
  "guarded b m = (if b then m else Ok [])"

definition then_advance :: "thread_id \<Rightarrow> machine_state option backend_result \<Rightarrow> results backend_result" where
  "then_advance t m = opt_one (rbind m (\<lambda>r. case r of
      None \<Rightarrow> Ok None | Some st \<Rightarrow> rbind (advance t st) (\<lambda>st. Ok (Some st))))"

definition modify_chan ::
  "resource_id \<Rightarrow> (channel_state \<Rightarrow> channel_state) \<Rightarrow> machine_state \<Rightarrow> machine_state backend_result" where
  "modify_chan c g st = rbind (unwrap (bt_get (channels (ms_store st)) c)) (\<lambda>_.
     Ok (upd_store (\<lambda>s. s\<lparr>channels := bt_adjust c g (channels s)\<rparr>) st))"

definition set_mutex :: "resource_id \<Rightarrow> mutex_state \<Rightarrow> machine_state \<Rightarrow> machine_state" where
  "set_mutex r m = upd_store (\<lambda>s. s\<lparr>mutexes := bt_insert r m (mutexes s)\<rparr>)"

definition set_atomic :: "resource_id \<Rightarrow> cvalue \<Rightarrow> machine_state \<Rightarrow> machine_state" where
  "set_atomic r v = upd_store (\<lambda>s. s\<lparr>atomics := bt_insert r v (atomics s)\<rparr>)"

definition set_var :: "resource_id \<Rightarrow> cvalue \<Rightarrow> machine_state \<Rightarrow> machine_state" where
  "set_var r v = upd_store (\<lambda>s. s\<lparr>vars := bt_insert r v (vars s)\<rparr>)"

definition set_permits :: "resource_id \<Rightarrow> int \<Rightarrow> machine_state \<Rightarrow> machine_state" where
  "set_permits r n = upd_store (\<lambda>s. s\<lparr>semaphores := bt_insert r n (semaphores s)\<rparr>)"

definition permits_of :: "machine_state \<Rightarrow> resource_id \<Rightarrow> int" where
  "permits_of st r = (case bt_get (semaphores (ms_store st)) r of Some n \<Rightarrow> n | None \<Rightarrow> 0)"

definition fail_at :: "site \<Rightarrow> string \<Rightarrow> 'a backend_result" where
  "fail_at x code = Err (error_at (sx_at x) (invalid code))"

subsection \<open>Local and shared data\<close>

definition do_assign_local :: "site \<Rightarrow> slot_ref \<Rightarrow> lexpr \<Rightarrow> machine_state \<Rightarrow> results backend_result" where
  "do_assign_local x target e st =
     rbind (ieval st (sx_fid x) e) (\<lambda>v.
     rbind (case target of
         Local i \<Rightarrow> rbind (index (f_slots (sx_function x)) i) (\<lambda>s. Ok (within_type v (s_ty s)))
       | _ \<Rightarrow> Ok True) (\<lambda>good.
       guarded good (one (rbind (write_dst (sx_fid x) target v st) (advance (sx_tid x))))))"

definition do_read_shared ::
  "interp \<Rightarrow> site \<Rightarrow> resource_id \<Rightarrow> slot_ref option \<Rightarrow> machine_state \<Rightarrow> results backend_result" where
  "do_read_shared ip x r dst st =
     rbind (ok_or (invalid ''E900'') (read_shared (ms_store st) r)) (\<lambda>v.
       then_advance (sx_tid x) (case dst of
           None \<Rightarrow> Ok (Some st) | Some d \<Rightarrow> try_write_dst ip (sx_fid x) d v st))"

definition do_write_shared ::
  "interp \<Rightarrow> site \<Rightarrow> resource_id \<Rightarrow> lexpr \<Rightarrow> machine_state \<Rightarrow> results backend_result" where
  "do_write_shared ip x r e st =
     rbind (ieval st (sx_fid x) e) (\<lambda>v.
     rbind (get_type (it_program ip) r) (\<lambda>ty.
       guarded (within_type v ty) (one (advance (sx_tid x) (set_var r v st)))))"

definition do_atomic_load ::
  "interp \<Rightarrow> site \<Rightarrow> resource_id \<Rightarrow> slot_ref \<Rightarrow> machine_state \<Rightarrow> results backend_result" where
  "do_atomic_load ip x r dst st =
     rbind (ok_or (invalid ''E900'') (bt_get (atomics (ms_store st)) r)) (\<lambda>v.
       then_advance (sx_tid x) (try_write_dst ip (sx_fid x) dst v st))"

definition do_atomic_store ::
  "interp \<Rightarrow> site \<Rightarrow> resource_id \<Rightarrow> lexpr \<Rightarrow> machine_state \<Rightarrow> results backend_result" where
  "do_atomic_store ip x r e st =
     rbind (ieval st (sx_fid x) e) (\<lambda>v.
     rbind (get_type (it_program ip) r) (\<lambda>ty.
       guarded (within_type v ty) (one (advance (sx_tid x) (set_atomic r v st)))))"

definition do_atomic_cas ::
  "interp \<Rightarrow> site \<Rightarrow> resource_id \<Rightarrow> lexpr \<Rightarrow> lexpr \<Rightarrow> slot_ref \<Rightarrow> machine_state \<Rightarrow> results backend_result" where
  "do_atomic_cas ip x r expected desired dst st =
     rbind (ieval st (sx_fid x) expected) (\<lambda>ex.
     rbind (ieval st (sx_fid x) desired) (\<lambda>des.
     rbind (get_type (it_program ip) r) (\<lambda>ty.
       guarded (within_type des ty)
         (rbind (ok_or (invalid ''E900'') (bt_get (atomics (ms_store st)) r)) (\<lambda>old.
          then_advance (sx_tid x)
            (rbind (try_write_dst ip (sx_fid x) dst old st) (\<lambda>w. Ok (case w of
                None \<Rightarrow> None
              | Some st' \<Rightarrow> Some (if old = ex then set_atomic r des st' else st')))))))))"

subsection \<open>Mutexes\<close>

definition do_lock :: "site \<Rightarrow> resource_id \<Rightarrow> machine_state \<Rightarrow> results backend_result" where
  "do_lock x r st =
    (if bt_get (mutexes (ms_store st)) r = Some Free
     then one (advance (sx_tid x) (set_mutex r (Held (sx_tid x)) st))
     else Ok [block (sx_tid x) (BrLock r) st])"

definition do_unlock :: "site \<Rightarrow> resource_id \<Rightarrow> machine_state \<Rightarrow> results backend_result" where
  "do_unlock x r st =
    (if bt_get (mutexes (ms_store st)) r = Some (Held (sx_tid x))
     then one (advance (sx_tid x) (set_mutex r Free st))
     else fail_at x ''E510'')"

subsection \<open>Channels\<close>

definition push_send :: "thread_id \<Rightarrow> cvalue \<Rightarrow> channel_state \<Rightarrow> channel_state" where
  "push_send t v ch = ch\<lparr>ch_pending_send := ch_pending_send ch @ [\<lparr>ps_thread = t, ps_value = v\<rparr>]\<rparr>"

definition push_recv :: "thread_id \<Rightarrow> channel_state \<Rightarrow> channel_state" where
  "push_recv t ch = ch\<lparr>ch_pending_recv := ch_pending_recv ch @ [t]\<rparr>"

definition drop_send :: "thread_id \<Rightarrow> channel_state \<Rightarrow> channel_state" where
  "drop_send t ch = ch\<lparr>ch_pending_send := filter (\<lambda>p. ps_thread p \<noteq> t) (ch_pending_send ch)\<rparr>"

definition drop_recv :: "thread_id \<Rightarrow> channel_state \<Rightarrow> channel_state" where
  "drop_recv t ch = ch\<lparr>ch_pending_recv := filter (\<lambda>r. r \<noteq> t) (ch_pending_recv ch)\<rparr>"

definition push_buffer :: "cvalue \<Rightarrow> channel_state \<Rightarrow> channel_state" where
  "push_buffer v ch = ch\<lparr>ch_buffer := ch_buffer ch @ [v]\<rparr>"

definition pop_buffer :: "channel_state \<Rightarrow> channel_state" where
  "pop_buffer ch = ch\<lparr>ch_buffer := tl (ch_buffer ch)\<rparr>"

definition chan_of :: "machine_state \<Rightarrow> resource_id \<Rightarrow> channel_state option" where
  "chan_of st c = bt_get (channels (ms_store st)) c"

definition has_space :: "machine_state \<Rightarrow> resource_id \<Rightarrow> nat \<Rightarrow> bool" where
  "has_space st c cap = (case chan_of st c of Some ch \<Rightarrow> length (ch_buffer ch) < cap | None \<Rightarrow> False)"

definition chan_head :: "machine_state \<Rightarrow> resource_id \<Rightarrow> cvalue option" where
  "chan_head st c = Option.bind (chan_of st c) (\<lambda>ch. nth_opt (ch_buffer ch) 0)"

definition do_send :: "interp \<Rightarrow> site \<Rightarrow> resource_id \<Rightarrow> lexpr \<Rightarrow> machine_state \<Rightarrow> results backend_result" where
  "do_send ip x c e st =
    (let t = sx_tid x in
     rbind (ieval st (sx_fid x) e) (\<lambda>v.
     rbind (resource_of (it_program ip) c) (\<lambda>res.
       if (case r_ty res of Some ty \<Rightarrow> \<not> within_type v ty | None \<Rightarrow> False) then Ok []
       else if r_capacity res = 0 then
         (case (case chan_of st c of Some ch \<Rightarrow> ch_pending_recv ch | None \<Rightarrow> []) of
            [] \<Rightarrow> one (rbind (modify_chan c (push_send t v) st) (\<lambda>s. Ok (block t (BrChannelSend c) s)))
          | receivers \<Rightarrow> gatherM (\<lambda>r.
              rbind (deliver_to_recv ip r v st) (\<lambda>w. case w of
                  None \<Rightarrow> Ok None
                | Some s \<Rightarrow> rbind (modify_chan c (drop_recv r) s) (\<lambda>s.
                    rbind (complete r s) (\<lambda>s. rbind (advance t s) (\<lambda>s. Ok (Some s)))))) receivers)
       else if has_space st c (r_capacity res)
         then one (rbind (modify_chan c (push_buffer v) st) (advance t))
         else one (rbind (modify_chan c (push_send t v) st) (\<lambda>s. Ok (block t (BrChannelSend c) s))))))"

definition recv_dst_or_discard :: "interp \<Rightarrow> machine_state \<Rightarrow> thread_id \<Rightarrow> slot_ref backend_result" where
  "recv_dst_or_discard ip st t =
     rbind (recv_dst_of ip st t) (\<lambda>d. Ok (case d of Some d \<Rightarrow> d | None \<Rightarrow> Discard))"

definition do_recv :: "interp \<Rightarrow> site \<Rightarrow> resource_id \<Rightarrow> machine_state \<Rightarrow> results backend_result" where
  "do_recv ip x c st =
    (let t = sx_tid x in
     rbind (resource_of (it_program ip) c) (\<lambda>res.
       if r_capacity res = 0 then
         (case (case chan_of st c of Some ch \<Rightarrow> ch_pending_send ch | None \<Rightarrow> []) of
            [] \<Rightarrow> one (rbind (modify_chan c (push_recv t) st) (\<lambda>s. Ok (block t (BrChannelRecv c) s)))
          | senders \<Rightarrow>
              rbind (recv_dst_or_discard ip st t) (\<lambda>dst. gatherM (\<lambda>p.
                rbind (try_write_dst ip (sx_fid x) dst (ps_value p) st) (\<lambda>w. case w of
                    None \<Rightarrow> Ok None
                  | Some s \<Rightarrow> rbind (modify_chan c (drop_send (ps_thread p)) s) (\<lambda>s.
                      rbind (complete (ps_thread p) s) (\<lambda>s.
                      rbind (advance t s) (\<lambda>s. Ok (Some s)))))) senders))
       else (case chan_head st c of
            Some v \<Rightarrow>
              rbind (recv_dst_or_discard ip st t) (\<lambda>dst.
              then_advance t (rbind (try_write_dst ip (sx_fid x) dst v st) (\<lambda>w. case w of
                  None \<Rightarrow> Ok None
                | Some s \<Rightarrow> rbind (modify_chan c pop_buffer s) (\<lambda>s. Ok (Some s)))))
          | None \<Rightarrow> one (rbind (modify_chan c (push_recv t) st) (\<lambda>s. Ok (block t (BrChannelRecv c) s))))))"

subsection \<open>Condition variables and semaphores\<close>

definition set_waiters :: "resource_id \<Rightarrow> condvar_state \<Rightarrow> machine_state \<Rightarrow> machine_state" where
  "set_waiters cv ws = upd_store (\<lambda>s. s\<lparr>condvars := bt_adjust cv (\<lambda>_. ws) (condvars s)\<rparr>)"

definition do_wait :: "site \<Rightarrow> resource_id \<Rightarrow> resource_id \<Rightarrow> machine_state \<Rightarrow> results backend_result" where
  "do_wait x cv lock st =
    (if bt_get (mutexes (ms_store st)) lock = Some (Held (sx_tid x)) then
       rbind (unwrap (bt_get (condvars (ms_store st)) cv)) (\<lambda>ws.
         Ok [block (sx_tid x) (BrCondvar cv lock)
               (set_waiters cv (ws @ [(sx_tid x, lock)]) (set_mutex lock Free st))])
     else fail_at x ''E511'')"

definition do_notify_all :: "site \<Rightarrow> resource_id \<Rightarrow> machine_state \<Rightarrow> results backend_result" where
  "do_notify_all x cv st =
     rbind (unwrap (bt_get (condvars (ms_store st)) cv)) (\<lambda>ws.
       one (advance (sx_tid x)
         (fold (\<lambda>(w, lock). block w (BrLock lock)) ws (set_waiters cv [] st))))"

definition do_acquire :: "site \<Rightarrow> resource_id \<Rightarrow> int \<Rightarrow> machine_state \<Rightarrow> results backend_result" where
  "do_acquire x r count st =
    (if count \<le> 0 then fail_at x ''E904''
     else if permits_of st r \<ge> count
       then one (advance (sx_tid x) (set_permits r (permits_of st r - count) st))
     else let q = (case bt_get (ms_sem_waiters st) r of Some q \<Rightarrow> q | None \<Rightarrow> [])
       in Ok [block (sx_tid x) (BrSemaphore r)
            (st\<lparr>ms_sem_waiters := bt_insert r (q @ [(sx_tid x, count)]) (ms_sem_waiters st)\<rparr>)])"

definition do_release :: "site \<Rightarrow> resource_id \<Rightarrow> int \<Rightarrow> machine_state \<Rightarrow> results backend_result" where
  "do_release x r count st =
    (if count \<le> 0 then fail_at x ''E904''
     else case checked_add (permits_of st r) count of
         None \<Rightarrow> fail_at x ''E905''
       | Some n \<Rightarrow> one (advance (sx_tid x) (set_permits r n st)))"

end
