(* ===== verification/Interp_Step.thy ===== *)
theory Interp_Step
  imports Interp_Exec
begin

text \<open>
  The remaining handlers of \<open>Interpreter::step_thread\<close> (calls, threads, scopes, joins and control
  flow), the step of a runnable thread, \<open>step_notify\<close>, \<open>resume_thread\<close>, \<open>initial\<close>,
  \<open>successors\<close> and \<open>is_finished\<close> (\<open>src/src/interp/exec.rs\<close>).
\<close>

subsection \<open>Calls\<close>

text \<open>The indices of the callee's modelled parameters among its slots.\<close>

definition modeled_params :: "sem_function \<Rightarrow> nat list" where
  "modeled_params fn = map fst (filter (\<lambda>(i, s). s_class s = PARAM \<and> s_modeled s)
     (enumerate 0 (f_slots fn)))"

definition quiet :: "results backend_result \<Rightarrow> results_b backend_result" where
  "quiet m = rbind m (\<lambda>ss. Ok (ss, []))"

definition do_call ::
  "interp \<Rightarrow> site \<Rightarrow> function_id \<Rightarrow> lexpr list \<Rightarrow> slot_ref option \<Rightarrow> machine_state
     \<Rightarrow> results_b backend_result" where
  "do_call ip x f args dst st =
    (let t = sx_tid x in
     rbind (function_of (it_program ip) f) (\<lambda>callee.
       if is_transparent_nobody callee then quiet (one (advance t (record_completion ip f st)))
       else rbind (thread_of st t) (\<lambda>th.
         if length (th_stack th) \<ge> max_frames_per_thread (it_bounds ip)
         then Ok ([], [boundary_new FrameLimit])
         else rbind (mapM (ieval st (sx_fid x)) args) (\<lambda>vals.
           let binds = zip (modeled_params callee) vals in
           rbind (allM (\<lambda>(i, v). rbind (index (f_slots callee) i) (\<lambda>s. Ok (within_type v (s_ty s)))) binds)
             (\<lambda>good. if \<not> good then Ok ([], []) else
              quiet (one (rbind (alloc_frame (it_program ip) f st) (\<lambda>(fr, s).
                let fr' = fr\<lparr>fr_locals := fold (\<lambda>(i, v). bt_insert i v) binds (fr_locals fr),
                             fr_ret := Some \<lparr>ra_pc_next = sx_pc x + 1,
                               ra_dst = (case dst of Some d \<Rightarrow> d | None \<Rightarrow> Discard)\<rparr>\<rparr>
                in Ok (upd_thread t (\<lambda>th. th\<lparr>th_stack := th_stack th @ [fr_id fr]\<rparr>)
                     (upd_store (write_frame (fr_id fr) fr') s)))))))))) "

subsection \<open>Threads\<close>

definition do_spawn :: "interp \<Rightarrow> site \<Rightarrow> function_id \<Rightarrow> string \<Rightarrow> machine_state \<Rightarrow> results_b backend_result" where
  "do_spawn ip x f handle st =
    (let t = sx_tid x in
     rbind (within_function_bound ip st f) (\<lambda>good.
       if \<not> good then Ok ([], [])
       else rbind (create_thread ip f None st) (\<lambda>(child, s, be). case child of
           None \<Rightarrow> Ok ([], be)
         | Some child \<Rightarrow>
             let h = next_handle (ms_alloc s);
                 s1 = s\<lparr>ms_alloc := (ms_alloc s)\<lparr>next_handle := Suc h\<rparr>\<rparr>
             in rbind (modify_frame (sx_fid x) (\<lambda>fr. fr\<lparr>fr_handles := bt_insert handle h (fr_handles fr)\<rparr>) s1)
               (\<lambda>s2. rbind (modify_thread t (\<lambda>th. th\<lparr>th_handle_children :=
                    bt_insert h child (th_handle_children th)\<rparr>) s2)
               (\<lambda>s3. rbind (advance t s3) (\<lambda>s4. Ok ([s4], be)))))))"

text \<open>
  The creation loop of \<open>scope\<close>: \<open>None\<close> when a member could not be created, otherwise the members
  that are not finished at once. Boundary events accumulate.
\<close>

fun create_members ::
  "interp \<Rightarrow> scope_id \<Rightarrow> function_id list \<Rightarrow> thread_id list \<Rightarrow> machine_state
     \<Rightarrow> ((thread_id list \<times> machine_state) option \<times> boundary_event list) backend_result" where
  "create_members ip scope [] rem st = Ok (Some (rem, st), [])"
| "create_members ip scope (f # fs) rem st =
     rbind (create_thread ip f (Some scope) st) (\<lambda>(child, s, be). case child of
         None \<Rightarrow> Ok (None, be)
       | Some child \<Rightarrow> rbind (thread_of s child) (\<lambda>th.
           let rem' = (if th_status th \<noteq> Finished then bs_insert child rem else rem) in
           rbind (create_members ip scope fs rem' s) (\<lambda>(r, be'). Ok (r, be @ be'))))"

definition do_scope :: "interp \<Rightarrow> site \<Rightarrow> function_id list \<Rightarrow> machine_state \<Rightarrow> results_b backend_result" where
  "do_scope ip x funcs st =
    (if funcs = [] then fail_at x ''E410''
     else rbind (allM (within_function_bound ip st) funcs) (\<lambda>good.
       if \<not> good then Ok ([], [])
       else
         let sc = next_scope (ms_alloc st);
             st1 = st\<lparr>ms_alloc := (ms_alloc st)\<lparr>next_scope := Suc sc\<rparr>\<rparr>
         in rbind (create_members ip sc funcs [] st1) (\<lambda>(r, be). case r of
             None \<Rightarrow> Ok ([], be)
           | Some (rem, s) \<Rightarrow>
               if rem = [] then
                 rbind (advance (sx_tid x) (s\<lparr>ms_completed_scopes :=
                     bs_insert (sx_function_id x, sx_pc x) (ms_completed_scopes s)\<rparr>))
                   (\<lambda>s. Ok ([s], be))
               else Ok ([block (sx_tid x) (BrScope sc) (s\<lparr>ms_scopes := bt_insert sc
                   \<lparr>sc_id = sc, sc_owner = sx_tid x, sc_owner_frame = sx_fid x, sc_remaining = rem\<rparr>
                   (ms_scopes s)\<rparr>)], be))))"

definition do_join :: "site \<Rightarrow> string \<Rightarrow> machine_state \<Rightarrow> results backend_result" where
  "do_join x handle st =
    (let t = sx_tid x; f = sx_fid x in
     rbind (frame_of st f) (\<lambda>fr. case bt_get (fr_handles fr) handle of
         None \<Rightarrow> fail_at x ''E402''
       | Some h \<Rightarrow> rbind (thread_of st t) (\<lambda>th. case bt_get (th_handle_children th) h of
           None \<Rightarrow> fail_at x ''E402''
         | Some c \<Rightarrow>
             if c \<in> set (ms_finished st) then
               one (rbind (modify_frame f (\<lambda>fr. fr\<lparr>fr_handles := bt_remove handle (fr_handles fr)\<rparr>) st)
                 (\<lambda>s. advance t (reclaim c (upd_thread t (\<lambda>th. th\<lparr>th_handle_children :=
                    bt_remove h (th_handle_children th)\<rparr>) s))))
             else Ok [block t (BrJoin h) st])))"

subsection \<open>Control flow\<close>

definition do_goto :: "site \<Rightarrow> nat \<Rightarrow> machine_state \<Rightarrow> results backend_result" where
  "do_goto x pc st = one (set_pc (sx_fid x) pc st)"

definition do_branch :: "site \<Rightarrow> lexpr \<Rightarrow> nat \<Rightarrow> nat \<Rightarrow> machine_state \<Rightarrow> results backend_result" where
  "do_branch x cond thn els st =
     rbind (ieval st (sx_fid x) cond) (\<lambda>v. case as_bool v of
         None \<Rightarrow> fail_at x ''E201''
       | Some b \<Rightarrow> one (set_pc (sx_fid x) (if b then thn else els) st))"

definition switch_target :: "cvalue \<Rightarrow> (string, nat) btree \<Rightarrow> nat \<Rightarrow> nat option" where
  "switch_target v cases dflt = (case v of
      VEnum e \<Rightarrow> Some (case bt_get cases e of Some t \<Rightarrow> t | None \<Rightarrow> dflt)
    | VInt i \<Rightarrow> Some (case find (\<lambda>(k, t). str_parse_i64 k = Some i) cases of
          Some (k, t) \<Rightarrow> t | None \<Rightarrow> dflt)
    | _ \<Rightarrow> None)"

definition do_switch ::
  "site \<Rightarrow> lexpr \<Rightarrow> (string, nat) btree \<Rightarrow> nat \<Rightarrow> machine_state \<Rightarrow> results backend_result" where
  "do_switch x var cases dflt st =
     rbind (ieval st (sx_fid x) var) (\<lambda>v. case switch_target v cases dflt of
         None \<Rightarrow> fail_at x ''E202''
       | Some t \<Rightarrow> one (set_pc (sx_fid x) t st))"

definition do_return :: "interp \<Rightarrow> site \<Rightarrow> lexpr option \<Rightarrow> machine_state \<Rightarrow> results backend_result" where
  "do_return ip x e st =
     rbind (case e of
         None \<Rightarrow> Ok None
       | Some e \<Rightarrow> rbind (ieval st (sx_fid x) e) (\<lambda>v. Ok (Some v))) (\<lambda>val.
       opt_one (apply_return ip (sx_tid x) (sx_fid x) (sx_function_id x) (sx_function x) val st))"

subsection \<open>Steps\<close>

text \<open>The code's match on the operation; \<open>notify\<close> is handled before it (\<open>unreachable!\<close>).\<close>

fun exec_op :: "interp \<Rightarrow> site \<Rightarrow> sem_op \<Rightarrow> machine_state \<Rightarrow> results_b backend_result" where
  "exec_op ip x Nop st = quiet (one (advance (sx_tid x) st))"
| "exec_op ip x (AssignLocal target e) st = quiet (do_assign_local x target e st)"
| "exec_op ip x (ReadShared r dst) st = quiet (do_read_shared ip x r dst st)"
| "exec_op ip x (WriteShared r e) st = quiet (do_write_shared ip x r e st)"
| "exec_op ip x (AtomicLoad r dst) st = quiet (do_atomic_load ip x r dst st)"
| "exec_op ip x (AtomicStore r e) st = quiet (do_atomic_store ip x r e st)"
| "exec_op ip x (AtomicCas r ex des dst) st = quiet (do_atomic_cas ip x r ex des dst st)"
| "exec_op ip x (MutexLock r) st = quiet (do_lock x r st)"
| "exec_op ip x (MutexUnlock r) st = quiet (do_unlock x r st)"
| "exec_op ip x (ChannelSend c e) st = quiet (do_send ip x c e st)"
| "exec_op ip x (ChannelRecv c dst) st = quiet (do_recv ip x c st)"
| "exec_op ip x (CondvarWait cv lock) st = quiet (do_wait x cv lock st)"
| "exec_op ip x (CondvarNotify cv) st = Panic"
| "exec_op ip x (CondvarNotifyAll cv) st = quiet (do_notify_all x cv st)"
| "exec_op ip x (SemaphoreAcquire r n) st = quiet (do_acquire x r n st)"
| "exec_op ip x (SemaphoreRelease r n) st = quiet (do_release x r n st)"
| "exec_op ip x (Call f args dst) st = do_call ip x f args dst st"
| "exec_op ip x (Spawn f h) st = do_spawn ip x f h st"
| "exec_op ip x (Scope fs) st = do_scope ip x fs st"
| "exec_op ip x (Join h) st = quiet (do_join x h st)"
| "exec_op ip x (Goto pc) st = quiet (do_goto x pc st)"
| "exec_op ip x (Branch c t e) st = quiet (do_branch x c t e st)"
| "exec_op ip x (Switch v cs d) st = quiet (do_switch x v cs d st)"
| "exec_op ip x (Return e) st = quiet (do_return ip x e st)"
| "exec_op ip x (UnsupportedOp c) st = Err (error_at (sx_at x) (unsupported c))"

definition label_all :: "step_label \<Rightarrow> results \<Rightarrow> machine_state step list" where
  "label_all l ss = map (\<lambda>s. \<lparr>step_lab = l, step_state = s\<rparr>) ss"

definition mark_reached :: "function_id \<Rightarrow> nat \<Rightarrow> machine_state \<Rightarrow> machine_state" where
  "mark_reached f pc st = st\<lparr>ms_reached := bs_insert (f, pc) (ms_reached st)\<rparr>"

definition step_notify ::
  "interp \<Rightarrow> machine_state \<Rightarrow> thread_id \<Rightarrow> function_id \<Rightarrow> nat \<Rightarrow> resource_id
     \<Rightarrow> machine_state step list backend_result" where
  "step_notify ip st t f pc cv =
     rbind (unwrap (current_frame_id st t)) (\<lambda>fid.
     rbind (istep_label ip f pc t fid) (\<lambda>l.
     let ws = (case bt_get (condvars (ms_store st)) cv of Some ws \<Rightarrow> ws | None \<Rightarrow> []);
         st1 = mark_reached f pc st
     in rbind (if ws = [] then one (advance t st1)
          else mapM (\<lambda>(w, lock).
            advance t (block w (BrLock lock) (set_waiters cv (filter (\<lambda>y. y \<noteq> (w, lock)) ws) st1))) ws)
        (\<lambda>ss. Ok (label_all l ss))))"

definition step_thread ::
  "interp \<Rightarrow> machine_state \<Rightarrow> thread_id
     \<Rightarrow> (machine_state step list \<times> boundary_event list) backend_result" where
  "step_thread ip st t =
     rbind (ok_or (invalid ''E999'') (current_frame_id st t)) (\<lambda>fid.
     rbind (frame_of st fid) (\<lambda>fr.
     let f = fr_function fr; pc = fr_pc fr in
     rbind (function_of (it_program ip) f) (\<lambda>fn.
       if pc \<ge> length (f_body fn) then
         rbind (apply_return ip t fid f fn None st) (\<lambda>r. case r of
             None \<Rightarrow> Ok ([], [])
           | Some s \<Rightarrow> rbind (istep_label ip f pc t fid) (\<lambda>l. Ok (label_all l [s], [])))
       else
         rbind (location_of (it_program ip) f (Some pc)) (\<lambda>at.
         rbind (istep_label ip f pc t fid) (\<lambda>l.
           case st_op (f_body fn ! pc) of
             CondvarNotify cv \<Rightarrow> rbind (step_notify ip st t f pc cv) (\<lambda>ss. Ok (ss, []))
           | op \<Rightarrow> rbind (exec_op ip \<lparr>sx_tid = t, sx_fid = fid, sx_function_id = f, sx_function = fn,
                       sx_pc = pc, sx_at = at\<rparr> op (mark_reached f pc st))
                    (\<lambda>(ss, be). Ok (label_all l ss, be)))))))"


subsection \<open>Resuming a blocked thread\<close>

definition resume_lock :: "thread_id \<Rightarrow> resource_id \<Rightarrow> machine_state \<Rightarrow> results backend_result" where
  "resume_lock t r st =
     guarded (bt_get (mutexes (ms_store st)) r = Some Free) (one (complete t (set_mutex r (Held t) st)))"

definition resume_semaphore :: "thread_id \<Rightarrow> resource_id \<Rightarrow> machine_state \<Rightarrow> results backend_result" where
  "resume_semaphore t r st =
    (case Option.bind (bt_get (ms_sem_waiters st) r) (\<lambda>q. find (\<lambda>(w, n). w = t) q) of
       None \<Rightarrow> Ok []
     | Some (w, need) \<Rightarrow>
         guarded (need \<le> permits_of st r)
           (one (complete t ((set_permits r (permits_of st r - need) st)
              \<lparr>ms_sem_waiters := bt_adjust r (filter (\<lambda>(w, n). w \<noteq> t)) (ms_sem_waiters st)\<rparr>))))"

definition remove_nth :: "nat \<Rightarrow> 'a list \<Rightarrow> 'a list" where
  "remove_nth i xs = take i xs @ drop (Suc i) xs"

definition send_position :: "machine_state \<Rightarrow> resource_id \<Rightarrow> thread_id \<Rightarrow> nat option" where
  "send_position st c t =
     Option.bind (chan_of st c) (\<lambda>ch. position (\<lambda>p. ps_thread p = t) (ch_pending_send ch))"

definition remove_send :: "nat \<Rightarrow> channel_state \<Rightarrow> channel_state" where
  "remove_send i ch = ch\<lparr>ch_pending_send := remove_nth i (ch_pending_send ch)\<rparr>"

definition pending_at :: "machine_state \<Rightarrow> resource_id \<Rightarrow> nat \<Rightarrow> pending_send backend_result" where
  "pending_at st c i =
     rbind (unwrap (chan_of st c)) (\<lambda>ch. unwrap (nth_opt (ch_pending_send ch) i))"

definition resume_send :: "interp \<Rightarrow> thread_id \<Rightarrow> resource_id \<Rightarrow> machine_state \<Rightarrow> results backend_result" where
  "resume_send ip t c st =
     rbind (resource_of (it_program ip) c) (\<lambda>res.
       if r_capacity res = 0 then
         (case Option.bind (chan_of st c) (\<lambda>ch. nth_opt (ch_pending_recv ch) 0) of
            None \<Rightarrow> Ok []
          | Some recv \<Rightarrow> (case send_position st c t of
              None \<Rightarrow> Ok []
            | Some i \<Rightarrow> rbind (pending_at st c i) (\<lambda>p.
                opt_one (rbind (deliver_to_recv ip recv (ps_value p) st) (\<lambda>w. case w of
                    None \<Rightarrow> Ok None
                  | Some s \<Rightarrow> rbind (modify_chan c (\<lambda>ch. drop_recv recv (remove_send i ch)) s) (\<lambda>s.
                      rbind (complete recv s) (\<lambda>s. rbind (complete t s) (\<lambda>s. Ok (Some s)))))))))
       else if \<not> has_space st c (r_capacity res) then Ok []
       else (case send_position st c t of
            None \<Rightarrow> Ok []
          | Some i \<Rightarrow> rbind (pending_at st c i) (\<lambda>p.
              one (rbind (modify_chan c (\<lambda>ch. push_buffer (ps_value p) (remove_send i ch)) st)
                (complete t)))))"

definition resume_recv ::
  "interp \<Rightarrow> thread_id \<Rightarrow> frame_id \<Rightarrow> resource_id \<Rightarrow> machine_state \<Rightarrow> results backend_result" where
  "resume_recv ip t f c st =
     rbind (resource_of (it_program ip) c) (\<lambda>res.
       if r_capacity res = 0 then
         (case Option.bind (chan_of st c) (\<lambda>ch. nth_opt (ch_pending_send ch) 0) of
            None \<Rightarrow> Ok []
          | Some p \<Rightarrow> rbind (recv_dst_or_discard ip st t) (\<lambda>dst.
              opt_one (rbind (try_write_dst ip f dst (ps_value p) st) (\<lambda>w. case w of
                  None \<Rightarrow> Ok None
                | Some s \<Rightarrow> rbind (modify_chan c (drop_send (ps_thread p)) s) (\<lambda>s.
                    rbind (complete (ps_thread p) s) (\<lambda>s. rbind (complete t s) (\<lambda>s. Ok (Some s))))))))
       else (case chan_head st c of
            None \<Rightarrow> Ok []
          | Some v \<Rightarrow> rbind (recv_dst_or_discard ip st t) (\<lambda>dst.
              opt_one (rbind (try_write_dst ip f dst v st) (\<lambda>w. case w of
                  None \<Rightarrow> Ok None
                | Some s \<Rightarrow> rbind (modify_chan c (\<lambda>ch. drop_recv t (pop_buffer ch)) s) (\<lambda>s.
                    rbind (complete t s) (\<lambda>s. Ok (Some s))))))))"

fun resume_op ::
  "interp \<Rightarrow> thread_id \<Rightarrow> frame_id \<Rightarrow> block_reason \<Rightarrow> machine_state \<Rightarrow> results backend_result" where
  "resume_op ip t f (BrLock r) st = resume_lock t r st"
| "resume_op ip t f (BrSemaphore r) st = resume_semaphore t r st"
| "resume_op ip t f (BrChannelSend c) st = resume_send ip t c st"
| "resume_op ip t f (BrChannelRecv c) st = resume_recv ip t f c st"
| "resume_op ip t f (BrCondvar cv lock) st = Ok []"
| "resume_op ip t f (BrJoin h) st = Ok []"
| "resume_op ip t f (BrScope s) st = Ok []"

definition resume_thread ::
  "interp \<Rightarrow> machine_state \<Rightarrow> thread_id \<Rightarrow> block_reason \<Rightarrow> machine_state step list backend_result" where
  "resume_thread ip st t reason =
     rbind (ok_or (invalid ''E999'') (current_frame_id st t)) (\<lambda>fid.
     rbind (frame_of st fid) (\<lambda>fr.
     rbind (istep_label ip (fr_function fr) (fr_pc fr) t fid) (\<lambda>l.
     rbind (resume_op ip t fid reason st) (\<lambda>ss. Ok (label_all l ss)))))"

subsection \<open>The transition system\<close>

definition interp_initial :: "interp \<Rightarrow> machine_state backend_result" where
  "interp_initial ip =
     rbind (initial_state (it_program ip)) (\<lambda>st.
       Ok (if max_for (it_monitor ip) (p_entry (it_program ip)) = 0
           then st\<lparr>ms_completed_functions :=
                bt_remove (p_entry (it_program ip)) (ms_completed_functions st)\<rparr>
           else st))"

text \<open>What one thread contributes to \<open>successors\<close>.\<close>

definition thread_steps ::
  "interp \<Rightarrow> machine_state \<Rightarrow> thread_id
     \<Rightarrow> (machine_state step list \<times> boundary_event list) backend_result" where
  "thread_steps ip st t =
     rbind (thread_of st t) (\<lambda>th. case th_status th of
         Runnable \<Rightarrow> step_thread ip st t
       | Blocked reason \<Rightarrow> rbind (resume_thread ip st t reason) (\<lambda>ss. Ok (ss, []))
       | Finished \<Rightarrow> Ok ([], []))"

definition interp_successors :: "interp \<Rightarrow> machine_state \<Rightarrow> machine_state enabled backend_result" where
  "interp_successors ip st =
     rbind (mapM (thread_steps ip st) (bt_keys (ms_threads st))) (\<lambda>rs.
       Ok \<lparr>en_steps = concat (map fst rs), en_boundary = concat (map snd rs)\<rparr>)"

definition interp_is_finished :: "machine_state \<Rightarrow> bool" where
  "interp_is_finished st \<longleftrightarrow> list_all (\<lambda>t. th_status t = Finished) (bt_values (ms_threads st))"

end
