(* ===== verification/System_Interface.thy ===== *)
theory System_Interface
  imports Explore_Verdicts
begin

text \<open>
  The trait \<open>TransitionSystem\<close> (\<open>src/src/sem/system.rs\<close>) as a locale: what the explorer relies on
  of an engine, and what it gets from it.
\<close>

locale transition_system =
  fixes sys :: "'s tsystem"
  assumes key_total: "\<exists>k. ts_state_key sys s = Ok k"
    and satisfied_true: "ts_satisfied sys s PTrue = Ok True"
    and satisfied_not: "ts_satisfied sys s (PNot p) = rbind (ts_satisfied sys s p) (\<lambda>b. Ok (\<not> b))"
    and satisfied_and: "ts_satisfied sys s (PAnd ps) = allM (ts_satisfied sys s) ps"
    and satisfied_or: "ts_satisfied sys s (POr ps) = anyM (ts_satisfied sys s) ps"
begin

text \<open>A forbidden predicate is a safety property of its negation, for every verdict.\<close>

lemma violates_not: "violates sys (PNot p) = (\<lambda>s. ts_satisfied sys s p)"
proof
  fix s show "violates sys (PNot p) s = ts_satisfied sys s p"
    by (cases "ts_satisfied sys s p") (simp_all add: violates_def satisfied_not)
qed

lemma unreachable_as_safety:
  "check_property sys g pid (Unreachable p) complete = check_property sys g pid (Safety (PNot p)) complete"
  by (simp add: violates_not)

text \<open>De Morgan for a predicate that is defined.\<close>

lemma satisfied_de_morgan:
  assumes "\<And>p. p \<in> set ps \<Longrightarrow> \<exists>b. ts_satisfied sys s p = Ok b"
  shows "ts_satisfied sys s (PNot (PAnd ps)) = ts_satisfied sys s (POr (map PNot ps))"
  using assms
proof (induction ps)
  case (Cons p ps)
  then obtain b where b: "ts_satisfied sys s p = Ok b" by auto
  have "ts_satisfied sys s (PNot (PAnd ps)) = ts_satisfied sys s (POr (map PNot ps))"
    using Cons by simp
  with b show ?case by (cases b) (simp_all add: satisfied_not satisfied_and satisfied_or)
qed (simp add: satisfied_not satisfied_and satisfied_or)

text \<open>The engine's successors and keys decide whether the search panics, nothing else does.\<close>

lemma record_step_total:
  "\<exists>s'. record_step sys i d stp s = Ok s'"
proof -
  obtain k where "ts_state_key sys (step_state stp) = Ok k" using key_total by blast
  then show ?thesis by (auto simp: record_step_def Let_def split: option.splits)
qed

lemma record_steps_total: "\<exists>s'. foldM (record_step sys i d) stps s = Ok s'"
proof (induction stps arbitrary: s)
  case (Cons stp stps)
  obtain s1 where "record_step sys i d stp s = Ok s1" using record_step_total by blast
  with Cons show ?case by simp
qed simp

lemma expand_total:
  "ts_successors sys (g_states (sr_graph s) ! i) \<noteq> Panic \<Longrightarrow> \<exists>s'. expand sys i d s = Ok s'"
  using record_steps_total
  by (cases "ts_successors sys (g_states (sr_graph s) ! i)")
    (auto simp: expand_def Let_def split: backend_error.splits)

end

text \<open>An engine whose finished states have no successors, whatever else they hold.\<close>

locale final_system = transition_system +
  assumes finished_no_steps: "ts_is_finished sys s \<Longrightarrow> ts_successors sys s = Ok enabled_empty"
begin

lemma finished_no_step: "ts_is_finished sys s \<Longrightarrow> \<not> sys_step sys s l t"
  by (simp add: sys_step_iff finished_no_steps enabled_empty_def)

lemma finished_not_stuck: "ts_is_finished sys s \<Longrightarrow> \<not> stuck sys s"
  by (simp add: stuck_def)

text \<open>An execution stops at a finished state.\<close>

lemma finished_final: "execution sys s ls t \<Longrightarrow> ts_is_finished sys s \<Longrightarrow> ls = [] \<and> t = s"
  by (induction rule: execution.induct) (auto simp: finished_no_step)

text \<open>Every explored finished state is a leaf of the graph.\<close>

lemma finished_leaf:
  assumes "graph_ok sys init g" "i < length (g_states g)" "ts_is_finished sys (g_states g ! i)"
  shows "g_edges g ! i = []"
proof (rule ccontr)
  assume "g_edges g ! i \<noteq> []"
  then obtain j l where "(j, l) \<in> set (g_edges g ! i)" by (cases "g_edges g ! i") auto
  with assms(1,2) obtain t where "sys_step sys (g_states g ! i) l t"
    by (fastforce simp: graph_ok_def edges_ok_def)
  with finished_no_step [OF assms(3)] show False by blast
qed

end

text \<open>
  A finite set of states that contains the initial state, is closed under steps and has pairwise
  different keys: it holds every reachable state, and the key is sound.
\<close>

definition closed_states :: "'s tsystem \<Rightarrow> 's list \<Rightarrow> bool" where
  "closed_states sys S \<longleftrightarrow>
     (case ts_initial sys of Ok s \<Rightarrow> s \<in> set S | _ \<Rightarrow> False) \<and>
     list_all (\<lambda>s. case ts_successors sys s of
       Ok en \<Rightarrow> list_all (\<lambda>x. step_state x \<in> set S) (en_steps en) | _ \<Rightarrow> True) S \<and>
     distinct (map (ts_state_key sys) S)"

lemma closed_reachable: "closed_states sys S \<Longrightarrow> reachable sys s \<Longrightarrow> s \<in> set S"
proof (rotate_tac, induction rule: reachable.induct)
  case (reachable_init s)
  then show ?case by (simp add: closed_states_def)
next
  case (reachable_step s l t)
  then obtain en where "ts_successors sys s = Ok en" "\<lparr>step_lab = l, step_state = t\<rparr> \<in> set (en_steps en)"
    by (auto simp: sys_step_iff)
  with reachable_step show ?case by (fastforce simp: closed_states_def list_all_iff)
qed

lemma closed_key_sound:
  assumes "closed_states sys S"
  shows "key_sound sys"
proof -
  have "s = t" if "reachable sys s" "reachable sys t" "same_key sys s t" for s t
  proof -
    have "inj_on (ts_state_key sys) (set S)"
      using assms by (simp add: closed_states_def distinct_map)
    with that closed_reachable [OF assms] show ?thesis by (auto simp: same_key_def inj_on_def)
  qed
  then show ?thesis unfolding key_sound_def by (metis same_key_refl)
qed

end
