(* ===== verification/Interp_Observe.thy ===== *)
theory Interp_Observe
  imports Interp_Step Sem_System System_Interface
begin

text \<open>
  What the explorer observes of an interpreter state (\<open>src/src/interp/exec.rs\<close>): predicates,
  blocked threads, instances, deadlock snapshots and the rendered state, and the interpreter as an
  instance of the interface \<open>TransitionSystem\<close>. \<open>esc\<close> stands for \<open>serde_json::to_string\<close> on
  strings. The constant detail texts of blocked records are not modelled.
\<close>

subsection \<open>Predicates\<close>

definition executes :: "machine_state \<Rightarrow> function_id \<Rightarrow> thread_state \<Rightarrow> bool" where
  "executes st f t \<longleftrightarrow> list_ex (\<lambda>i. case bt_get (frames (ms_store st)) i of
      Some fr \<Rightarrow> fr_function fr = f | None \<Rightarrow> False) (th_stack t)"

definition some_thread_holds ::
  "interp \<Rightarrow> machine_state \<Rightarrow> function_id \<Rightarrow> resource_id list \<Rightarrow> bool backend_result" where
  "some_thread_holds ip st f rs =
     anyM (\<lambda>t. if executes st f t then allM (thread_holds ip st (th_id t)) rs else Ok False)
       (bt_values (ms_threads st))"

definition completed_count :: "machine_state \<Rightarrow> function_id \<Rightarrow> nat" where
  "completed_count st f = (case bt_get (ms_completed_functions st) f of Some n \<Rightarrow> n | None \<Rightarrow> 0)"

definition satisfied_mutex_exclusive :: "interp \<Rightarrow> machine_state \<Rightarrow> resource_id \<Rightarrow> bool backend_result" where
  "satisfied_mutex_exclusive ip st r =
     rbind (resource_of (it_program ip) r) (\<lambda>res. Ok (case r_kind res of
         KMutex \<Rightarrow> True
       | KSemaphore \<Rightarrow> 0 \<le> permits_of st r
       | _ \<Rightarrow> False))"

fun interp_satisfied :: "interp \<Rightarrow> machine_state \<Rightarrow> predicate \<Rightarrow> bool backend_result" where
  "interp_satisfied ip st PTrue = Ok True"
| "interp_satisfied ip st PFalse = Ok False"
| "interp_satisfied ip st (VarEq r v) = Ok (read_shared (ms_store st) r = Some v)"
| "interp_satisfied ip st (VarCmp r p v) = Ok (case read_shared (ms_store st) r of
      None \<Rightarrow> False
    | Some w \<Rightarrow> (case compare_values p w v of Some b \<Rightarrow> b | None \<Rightarrow> False))"
| "interp_satisfied ip st (FunctionCompleted f) = Ok (1 \<le> completed_count st f)"
| "interp_satisfied ip st (FunctionCompletedAtLeast f n) = Ok (n \<le> completed_count st f)"
| "interp_satisfied ip st (ScopeCompleted f i) = Ok ((f, i) \<in> set (ms_completed_scopes st))"
| "interp_satisfied ip st (StatementReached f i) = Ok ((f, i) \<in> set (ms_reached st))"
| "interp_satisfied ip st (MutexFree r) = Ok (bt_get (mutexes (ms_store st)) r = Some Free)"
| "interp_satisfied ip st (MutexHeld r) = Ok (case bt_get (mutexes (ms_store st)) r of
      Some (Held t) \<Rightarrow> True | _ \<Rightarrow> False)"
| "interp_satisfied ip st (ChannelEmpty r) = Ok (case chan_of st r of
      Some ch \<Rightarrow> ch_buffer ch = [] \<and> ch_pending_send ch = [] | None \<Rightarrow> True)"
| "interp_satisfied ip st (ChannelAtLeast r n) = Ok (case chan_of st r of
      Some ch \<Rightarrow> n \<le> length (ch_buffer ch) | None \<Rightarrow> False)"
| "interp_satisfied ip st (HoldsAll f rs) = some_thread_holds ip st f rs"
| "interp_satisfied ip st (MutexExclusive r) = satisfied_mutex_exclusive ip st r"
| "interp_satisfied ip st (NeverHoldsAll f rs) =
     rbind (some_thread_holds ip st f rs) (\<lambda>b. Ok (\<not> b))"
| "interp_satisfied ip st (PNot p) = rbind (interp_satisfied ip st p) (\<lambda>b. Ok (\<not> b))"
| "interp_satisfied ip st (PAnd ps) = allM (interp_satisfied ip st) ps"
| "interp_satisfied ip st (POr ps) = anyM (interp_satisfied ip st) ps"

subsection \<open>Blocked threads\<close>

definition holder_of :: "machine_state \<Rightarrow> resource_id \<Rightarrow> thread_id option" where
  "holder_of st r = (case bt_get (mutexes (ms_store st)) r of Some (Held t) \<Rightarrow> Some t | _ \<Rightarrow> None)"

definition count_lock :: "machine_state \<Rightarrow> resource_id \<Rightarrow> nat" where
  "count_lock st r = length (filter (\<lambda>t. th_status t = Blocked (BrLock r)) (bt_values (ms_threads st)))"

definition blocked_on ::
  "interp \<Rightarrow> thread_id \<Rightarrow> block_kind \<Rightarrow> resource_id \<Rightarrow> thread_id option \<Rightarrow> nat \<Rightarrow> blocked_record backend_result" where
  "blocked_on ip t k r holder waiting =
     rbind (resource_fqn (it_program ip) r) (\<lambda>n.
       Ok \<lparr>br_thread = t, br_kind = k, br_resource = Some r, br_resource_name = Some n,
           br_holder = holder, br_waiting = waiting\<rparr>)"

definition blocked_plain :: "thread_id \<Rightarrow> block_kind \<Rightarrow> blocked_record" where
  "blocked_plain t k = \<lparr>br_thread = t, br_kind = k, br_resource = None, br_resource_name = None,
     br_holder = None, br_waiting = 0\<rparr>"

definition len_or_0 :: "'a list option \<Rightarrow> nat" where
  "len_or_0 m = (case m of Some xs \<Rightarrow> length xs | None \<Rightarrow> 0)"

fun block_entry :: "interp \<Rightarrow> machine_state \<Rightarrow> thread_id \<Rightarrow> block_reason \<Rightarrow> blocked_record backend_result" where
  "block_entry ip st t (BrLock r) = blocked_on ip t BLock r (holder_of st r) (count_lock st r)"
| "block_entry ip st t (BrChannelSend c) =
     blocked_on ip t BChannelSend c None (len_or_0 (map_option ch_pending_send (chan_of st c)))"
| "block_entry ip st t (BrChannelRecv c) =
     blocked_on ip t BChannelRecv c None (len_or_0 (map_option ch_pending_recv (chan_of st c)))"
| "block_entry ip st t (BrCondvar cv lk) =
     blocked_on ip t BCondvar cv (holder_of st lk) (len_or_0 (bt_get (condvars (ms_store st)) cv))"
| "block_entry ip st t (BrSemaphore r) =
     blocked_on ip t BSemaphore r None (len_or_0 (bt_get (ms_sem_waiters st) r))"
| "block_entry ip st t (BrJoin h) = Ok (blocked_plain t BJoin)"
| "block_entry ip st t (BrScope s) = Ok (blocked_plain t BScope)"

definition interp_blocked :: "interp \<Rightarrow> machine_state \<Rightarrow> blocked_record list backend_result" where
  "interp_blocked ip st = gatherM (\<lambda>t. case th_status t of
      Blocked reason \<Rightarrow> rbind (block_entry ip st (th_id t) reason) (\<lambda>b. Ok (Some b))
    | _ \<Rightarrow> Ok None) (bt_values (ms_threads st))"

subsection \<open>Instances and deadlock snapshots\<close>

definition interp_instances :: "machine_state \<Rightarrow> instance_state list backend_result" where
  "interp_instances st = mapM (\<lambda>t.
     rbind (if th_status t = Finished then Ok (th_entry_function t, None, ''finished'')
       else case th_current_frame t of
           None \<Rightarrow> Ok (th_entry_function t, None, ''running'')
         | Some f \<Rightarrow> rbind (frame_of st f) (\<lambda>fr. Ok (fr_function fr, Some (fr_pc fr), ''running'')))
       (\<lambda>(f, sid, status). Ok \<lparr>is_thread = th_id t, is_frame = th_current_frame t, is_function = f,
            is_sid = sid, is_status = status\<rparr>)) (bt_values (ms_threads st))"

definition mutex_names :: "interp \<Rightarrow> machine_state \<Rightarrow> mutex_state \<Rightarrow> string list backend_result" where
  "mutex_names ip st m =
     mapM (\<lambda>(r, _). resource_fqn (it_program ip) r) (filter (\<lambda>(_, x). x = m) (mutexes (ms_store st)))"

fun doom_wait_of :: "interp \<Rightarrow> block_reason \<Rightarrow> doom_wait backend_result" where
  "doom_wait_of ip (BrLock r) = rbind (resource_fqn (it_program ip) r)
     (\<lambda>n. Ok \<lparr>dw_kind = ''mutex'', dw_resource = Some n\<rparr>)"
| "doom_wait_of ip (BrSemaphore r) = rbind (resource_fqn (it_program ip) r)
     (\<lambda>n. Ok \<lparr>dw_kind = ''semaphore'', dw_resource = Some n\<rparr>)"
| "doom_wait_of ip (BrCondvar cv lk) = rbind (resource_fqn (it_program ip) cv)
     (\<lambda>n. Ok \<lparr>dw_kind = ''condvar'', dw_resource = Some n\<rparr>)"
| "doom_wait_of ip (BrChannelSend c) = rbind (resource_fqn (it_program ip) c)
     (\<lambda>n. Ok \<lparr>dw_kind = ''channel_send'', dw_resource = Some n\<rparr>)"
| "doom_wait_of ip (BrChannelRecv c) = rbind (resource_fqn (it_program ip) c)
     (\<lambda>n. Ok \<lparr>dw_kind = ''channel_recv'', dw_resource = Some n\<rparr>)"
| "doom_wait_of ip (BrJoin h) = Ok \<lparr>dw_kind = ''join'', dw_resource = None\<rparr>"
| "doom_wait_of ip (BrScope s) = Ok \<lparr>dw_kind = ''scope'', dw_resource = None\<rparr>"

definition doom_thread_of :: "interp \<Rightarrow> machine_state \<Rightarrow> thread_state \<Rightarrow> doom_thread backend_result" where
  "doom_thread_of ip st t =
     rbind (mutex_names ip st (Held (th_id t))) (\<lambda>holds.
     rbind (case th_current_frame t of
         Some fid \<Rightarrow> rbind (frame_of st fid) (\<lambda>fr.
           rbind (function_of (it_program ip) (fr_function fr)) (\<lambda>fn.
           rbind (function_fqn (it_program ip) (fr_function fr)) (\<lambda>n.
             Ok (n, map_option st_sid (nth_opt (f_body fn) (fr_pc fr))))))
       | None \<Rightarrow> rbind (function_fqn (it_program ip) (th_entry_function t)) (\<lambda>n. Ok (n, None)))
       (\<lambda>(f, at_sid).
     rbind (case th_status t of
         Blocked reason \<Rightarrow> rbind (doom_wait_of ip reason) (\<lambda>w. Ok (Some w))
       | _ \<Rightarrow> Ok None) (\<lambda>w.
     rbind (function_fqn (it_program ip) (th_entry_function t)) (\<lambda>entry.
       Ok \<lparr>dt_thread = nat (int (th_id t) mod 2 ^ 32), dt_entry_function = entry, dt_function = f,
           dt_at_sid = at_sid, dt_holds = holds, dt_waiting_on = w\<rparr>))))"

definition interp_doom_snapshot :: "interp \<Rightarrow> machine_state \<Rightarrow> doom_state backend_result" where
  "interp_doom_snapshot ip st =
     rbind (mutex_names ip st Free) (\<lambda>free.
     rbind (mapM (doom_thread_of ip st) (bt_values (ms_threads st))) (\<lambda>ts.
       Ok \<lparr>ds_threads = ts, ds_free_resources = sort free\<rparr>))"

subsection \<open>Rendering\<close>

text \<open>
  Identities are rendered by their rank among the live ones (\<open>T0\<close>, \<open>F1\<close>, ...), so that states
  that differ by a renaming that keeps the order have one key.
\<close>

definition handle_ids :: "machine_state \<Rightarrow> handle_id list" where
  "handle_ids st = remdups (sort
     (concat (map (\<lambda>f. bt_values (fr_handles f)) (bt_values (frames (ms_store st)))) @
      concat (map (\<lambda>t. bt_keys (th_handle_children t)) (bt_values (ms_threads st)))))"

definition tname :: "machine_state \<Rightarrow> thread_id \<Rightarrow> string" where
  "tname st = rank_name ''T'' ''T?'' (bt_keys (ms_threads st))"
definition fname :: "machine_state \<Rightarrow> frame_id \<Rightarrow> string" where
  "fname st = rank_name ''F'' ''F?'' (bt_keys (frames (ms_store st)))"
definition sname :: "machine_state \<Rightarrow> scope_id \<Rightarrow> string" where
  "sname st = rank_name ''S'' ''S?'' (bt_keys (ms_scopes st))"
definition hname :: "machine_state \<Rightarrow> handle_id \<Rightarrow> string" where
  "hname st = rank_name ''h'' ''h?'' (handle_ids st)"

fun block_reason_text :: "machine_state \<Rightarrow> block_reason \<Rightarrow> string" where
  "block_reason_text st (BrLock r) = ''lock:'' @ show_nat r"
| "block_reason_text st (BrChannelSend r) = ''send:'' @ show_nat r"
| "block_reason_text st (BrChannelRecv r) = ''recv:'' @ show_nat r"
| "block_reason_text st (BrCondvar cv lk) = ''condvar:'' @ show_nat cv @ '':'' @ show_nat lk"
| "block_reason_text st (BrSemaphore r) = ''sem:'' @ show_nat r"
| "block_reason_text st (BrJoin h) = ''join:'' @ hname st h"
| "block_reason_text st (BrScope s) = ''scope:'' @ sname st s"

definition render_chan ::
  "(string \<Rightarrow> string) \<Rightarrow> (cvalue \<Rightarrow> string) \<Rightarrow> machine_state \<Rightarrow> resource_id \<times> channel_state \<Rightarrow> string" where
  "render_chan esc enc st rc = (case rc of (r, c) \<Rightarrow>
     ''  chan r'' @ show_nat r @ '' buf=['' @ commas (map (canonical esc) (ch_buffer c)) @
     ''] send=['' @ commas (map (\<lambda>p. tname st (ps_thread p) @ '':'' @ enc (ps_value p)) (ch_pending_send c)) @
     ''] recv=['' @ commas (map (tname st) (ch_pending_recv c)) @ '']'' @ nl)"

definition render_frame :: "(cvalue \<Rightarrow> string) \<Rightarrow> machine_state \<Rightarrow> frame_id \<times> frame \<Rightarrow> string" where
  "render_frame enc st p = (case p of (i, fr) \<Rightarrow>
     ''  frame '' @ fname st i @ '' func=f'' @ show_nat (fr_function fr) @ '' pc='' @ show_nat (fr_pc fr) @
     '' locals={'' @ commas (sort (map (\<lambda>(k, v). show_nat k @ ''='' @ enc v) (fr_locals fr))) @
     ''} handles={'' @ commas (sort (map (\<lambda>(k, h). k @ ''->'' @ hname st h) (fr_handles fr))) @ ''} '' @
     (case fr_ret fr of
        Some r \<Rightarrow> ''ret(pc='' @ show_nat (ra_pc_next r) @ '',dst='' @ debug_slot (ra_dst r) @ '')''
      | None \<Rightarrow> ''ret(none)'') @ nl)"

definition render_thread :: "machine_state \<Rightarrow> thread_id \<times> thread_state \<Rightarrow> string" where
  "render_thread st p = (case p of (i, th) \<Rightarrow>
     ''  '' @ tname st i @ '' status='' @
     (case th_status th of Runnable \<Rightarrow> ''run'' | Finished \<Rightarrow> ''done''
      | Blocked b \<Rightarrow> ''blocked:'' @ block_reason_text st b) @
     '' stack=['' @ commas (map (fname st) (th_stack th)) @
     ''] children=['' @ commas (sort (map (\<lambda>(h, c). hname st h @ ''->'' @ tname st c) (th_handle_children th))) @
     ''] scope='' @ (case th_parent_scope th of Some s \<Rightarrow> sname st s | None \<Rightarrow> ''-'') @ nl)"

definition render_scope :: "machine_state \<Rightarrow> scope_state \<Rightarrow> string" where
  "render_scope st s =
     ''  scope '' @ sname st (sc_id s) @ '' owner='' @ tname st (sc_owner s) @ '' frame='' @
     fname st (sc_owner_frame s) @ '' remaining=['' @ commas (sort (map (tname st) (sc_remaining s))) @
     '']'' @ nl"

fun mutex_text :: "machine_state \<Rightarrow> mutex_state \<Rightarrow> string" where
  "mutex_text st Free = ''free''"
| "mutex_text st (Held t) = ''held('' @ tname st t @ '')''"

definition render_state ::
  "(string \<Rightarrow> string) \<Rightarrow> (cvalue \<Rightarrow> string) \<Rightarrow> machine_state \<Rightarrow> string" where
  "render_state esc enc st =
     ''STORE'' @ nl @
     concat (map (\<lambda>(r, v). ''  var r'' @ show_nat r @ ''='' @ enc v @ nl) (vars (ms_store st))) @
     concat (map (\<lambda>(r, v). ''  atomic r'' @ show_nat r @ ''='' @ enc v @ nl) (atomics (ms_store st))) @
     concat (map (\<lambda>(r, m). ''  mutex r'' @ show_nat r @ ''='' @ mutex_text st m @ nl) (mutexes (ms_store st))) @
     concat (map (\<lambda>(r, n). ''  sem r'' @ show_nat r @ ''='' @ show_int n @ nl) (semaphores (ms_store st))) @
     concat (map (render_chan esc enc st) (channels (ms_store st))) @
     concat (map (\<lambda>(r, ws). ''  condvar r'' @ show_nat r @ '' waiters=['' @
       commas (map (\<lambda>(t, l). tname st t @ '':'' @ show_nat l) ws) @ '']'' @ nl) (condvars (ms_store st))) @
     concat (map (render_frame enc st) (frames (ms_store st))) @
     ''THREADS'' @ nl @
     concat (map (render_thread st) (ms_threads st)) @
     concat (map (\<lambda>(r, q). ''  semq r'' @ show_nat r @ ''=['' @
       commas (map (\<lambda>(t, n). tname st t @ '':'' @ show_int n) q) @ '']'' @ nl) (ms_sem_waiters st)) @
     concat (map (render_scope st) (bt_values (ms_scopes st))) @
     ''COMPLETED funcs='' @ debug_counts (ms_completed_functions st) @ '' scopes='' @
       debug_pairs (ms_completed_scopes st) @ nl @
     ''REACHED '' @ debug_pairs (ms_reached st) @ nl"

definition interp_canonical :: "(string \<Rightarrow> string) \<Rightarrow> machine_state \<Rightarrow> string" where
  "interp_canonical esc st = render_state esc (canonical esc) st"

definition interp_state_key :: "(string \<Rightarrow> string) \<Rightarrow> machine_state \<Rightarrow> string" where
  "interp_state_key esc st = render_state esc value_key st"

definition interp_system :: "(string \<Rightarrow> string) \<Rightarrow> interp \<Rightarrow> machine_state tsystem" where
  "interp_system esc ip =
     \<lparr>ts_program = it_program ip, ts_initial = interp_initial ip,
      ts_successors = interp_successors ip, ts_is_finished = interp_is_finished,
      ts_blocked = interp_blocked ip, ts_instances = interp_instances,
      ts_doom_snapshot = interp_doom_snapshot ip, ts_satisfied = interp_satisfied ip,
      ts_canonical = (\<lambda>st. Ok (interp_canonical esc st)),
      ts_state_key = (\<lambda>st. Ok (interp_state_key esc st))\<rparr>"

section \<open>The interpreter as a transition system\<close>

text \<open>
  The reference interpreter provides the interface \<open>final_system\<close>, for every program,
  bounds, monitor and string escaping.
\<close>

lemma bt_keys_get: "t \<in> set (bt_keys m) \<Longrightarrow> \<exists>v. bt_get m t = Some v \<and> v \<in> set (bt_values m)"
  by (induction m) (auto simp: bt_keys_def bt_get_def bt_values_def)

lemma finished_thread_steps:
  assumes "interp_is_finished st" "t \<in> set (bt_keys (ms_threads st))"
  shows "thread_steps ip st t = Ok ([], [])"
proof -
  from bt_keys_get [OF assms(2)] obtain th where "bt_get (ms_threads st) t = Some th"
    "th \<in> set (bt_values (ms_threads st))" by blast
  with assms(1) show ?thesis by (simp add: thread_steps_def thread_of_def interp_is_finished_def list_all_iff)
qed

lemma finished_successors:
  assumes "interp_is_finished st"
  shows "interp_successors ip st = Ok enabled_empty"
proof -
  have "mapM (thread_steps ip st) (bt_keys (ms_threads st)) =
      Ok (map (\<lambda>_. ([], [])) (bt_keys (ms_threads st)))"
    by (rule mapM_total) (rule finished_thread_steps [OF assms])
  then show ?thesis by (simp add: interp_successors_def enabled_empty_def comp_def)
qed

interpretation interp: final_system "interp_system esc ip" for esc ip
  by unfold_locales (simp_all add: interp_system_def finished_successors)

end
