(* ===== verification/Interp_Inv.thy ===== *)
theory Interp_Inv
  imports Interp_Observe
begin

text \<open>
  Invariants of the interpreter's data: a locale states what an invariant of the store must
  survive (the elementary updates, each with the guard under which the handlers make it) and
  proves once, handler by handler, that every step preserves it.
\<close>

definition accepts :: "sem_program \<Rightarrow> resource_id \<Rightarrow> cvalue \<Rightarrow> bool" where
  "accepts P r v \<longleftrightarrow> (\<exists>res. resource_of P r = Ok res \<and>
     (case r_ty res of Some ty \<Rightarrow> within_type v ty | None \<Rightarrow> True))"

definition stmt_in :: "sem_program \<Rightarrow> sem_op \<Rightarrow> bool" where
  "stmt_in P op \<longleftrightarrow> (\<exists>f fn pc. function_of P f = Ok fn \<and> pc < length (f_body fn) \<and>
     st_op (f_body fn ! pc) = op)"

definition binds_ok :: "sem_function \<Rightarrow> (nat \<times> cvalue) list \<Rightarrow> bool" where
  "binds_ok fn binds \<longleftrightarrow> (\<forall>(i, v) \<in> set binds. i < length (f_slots fn) \<and>
     within_type v (s_ty (f_slots fn ! i)))"

definition channel_shrinks :: "channel_state \<Rightarrow> channel_state \<Rightarrow> bool" where
  "channel_shrinks ch ch' \<longleftrightarrow> length (ch_buffer ch') \<le> length (ch_buffer ch) \<and>
     set (ch_buffer ch') \<subseteq> set (ch_buffer ch) \<and> set (ch_pending_send ch') \<subseteq> set (ch_pending_send ch)"

definition set_chan :: "resource_id \<Rightarrow> channel_state \<Rightarrow> machine_state \<Rightarrow> machine_state" where
  "set_chan c ch = upd_store (\<lambda>s. s\<lparr>channels := bt_insert c ch (channels s)\<rparr>)"

lemma modify_chan_Ok: "modify_chan c g st = Ok st' \<longleftrightarrow>
    (\<exists>ch. chan_of st c = Some ch \<and> st' = set_chan c (g ch) st)"
  by (auto simp: modify_chan_def chan_of_def set_chan_def bt_adjust_def upd_store_def)

lemma modify_frame_Ok: "modify_frame f g st = Ok st' \<longleftrightarrow>
    (\<exists>fr. bt_get (frames (ms_store st)) f = Some fr \<and> st' = upd_store (write_frame f (g fr)) st)"
  by (auto simp: modify_frame_def)

locale store_inv =
  fixes ip :: interp and t :: thread_id and I :: "machine_state \<Rightarrow> bool"
  assumes control: "I st \<Longrightarrow> I (st\<lparr>ms_threads := ths, ms_finished := fin, ms_scopes := scs, ms_alloc := al\<rparr>)"
    and frame_meta: "I st \<Longrightarrow> bt_get (frames (ms_store st)) f = Some fr \<Longrightarrow>
      fr_locals fr' = fr_locals fr \<Longrightarrow> fr_function fr' = fr_function fr \<Longrightarrow>
      I (upd_store (write_frame f fr') st)"
    and frame_new: "I st \<Longrightarrow> function_of (it_program ip) fi = Ok fn \<Longrightarrow>
      mapM slot_initial (f_slots fn) = Ok vs \<Longrightarrow> binds_ok fn binds \<Longrightarrow> fr_function fr' = fi \<Longrightarrow>
      fr_locals fr' = fold (\<lambda>(i, v). bt_insert i v) binds (enumerate 0 vs) \<Longrightarrow>
      I (upd_store (write_frame f fr') st)"
    and frame_drop: "I st \<Longrightarrow> I (upd_store (\<lambda>s. s\<lparr>frames := bt_remove f (frames s)\<rparr>) st)"
    and dst: "I st \<Longrightarrow> dst_type_ok ip st f d v = Ok True \<Longrightarrow> write_dst f d v st = Ok st' \<Longrightarrow> I st'"
    and assign: "I st \<Longrightarrow> stmt_in (it_program ip) (AssignLocal d e) \<Longrightarrow>
      (\<And>i. d = Local i \<Longrightarrow> dst_type_ok ip st f d v = Ok True) \<Longrightarrow> write_dst f d v st = Ok st' \<Longrightarrow> I st'"
    and var: "I st \<Longrightarrow> accepts (it_program ip) r v \<Longrightarrow> I (set_var r v st)"
    and atomic: "I st \<Longrightarrow> accepts (it_program ip) r v \<Longrightarrow> I (set_atomic r v st)"
    and mutex_lock: "I st \<Longrightarrow> bt_get (mutexes (ms_store st)) r = Some Free \<Longrightarrow> I (set_mutex r (Held t) st)"
    and mutex_free: "I st \<Longrightarrow> bt_get (mutexes (ms_store st)) r = Some (Held t) \<Longrightarrow> I (set_mutex r Free st)"
    and chan_send: "I st \<Longrightarrow> chan_of st c = Some ch \<Longrightarrow> accepts (it_program ip) c v \<Longrightarrow>
      I (set_chan c (push_send u v ch) st)"
    and chan_shrink: "I st \<Longrightarrow> chan_of st c = Some ch \<Longrightarrow> channel_shrinks ch ch' \<Longrightarrow> I (set_chan c ch' st)"
    and chan_push: "I st \<Longrightarrow> chan_of st c = Some ch \<Longrightarrow> resource_of (it_program ip) c = Ok res \<Longrightarrow>
      length (ch_buffer ch) < r_capacity res \<Longrightarrow> accepts (it_program ip) c v \<Longrightarrow>
      I (set_chan c (push_buffer v ch) st)"
    and chan_move: "I st \<Longrightarrow> chan_of st c = Some ch \<Longrightarrow> resource_of (it_program ip) c = Ok res \<Longrightarrow>
      length (ch_buffer ch) < r_capacity res \<Longrightarrow> i < length (ch_pending_send ch) \<Longrightarrow>
      I (set_chan c (push_buffer (ps_value (ch_pending_send ch ! i)) (remove_send i ch)) st)"
    and condvar: "I st \<Longrightarrow> I (set_waiters cv ws st)"
    and permits_take: "I st \<Longrightarrow> 0 < n \<Longrightarrow> n \<le> permits_of st r \<Longrightarrow> I (set_permits r (permits_of st r - n) st)"
    and permits_give: "I st \<Longrightarrow> 0 < n \<Longrightarrow> checked_add (permits_of st r) n = Some m \<Longrightarrow> I (set_permits r m st)"
    and permits_wake: "I st \<Longrightarrow> bt_get (ms_sem_waiters st) r = Some q \<Longrightarrow> (u, n) \<in> set q \<Longrightarrow>
      n \<le> permits_of st r \<Longrightarrow> I (set_permits r (permits_of st r - n) st)"
    and waiter_add: "I st \<Longrightarrow> 0 < n \<Longrightarrow>
      I (st\<lparr>ms_sem_waiters := bt_insert r
        ((case bt_get (ms_sem_waiters st) r of Some q \<Rightarrow> q | None \<Rightarrow> []) @ [(u, n)]) (ms_sem_waiters st)\<rparr>)"
    and waiter_drop: "I st \<Longrightarrow>
      I (st\<lparr>ms_sem_waiters := bt_adjust r (filter (\<lambda>(w, n). w \<noteq> u)) (ms_sem_waiters st)\<rparr>)"
    and completion: "I st \<Longrightarrow> I (record_completion ip fi st)"
    and scope_fact: "I st \<Longrightarrow> I (st\<lparr>ms_completed_scopes := bs_insert p (ms_completed_scopes st)\<rparr>)"
    and reached_fact: "I st \<Longrightarrow> I (mark_reached fi pc st)"
begin

subsection \<open>Elementary operations\<close>

lemma threads [intro]: "I st \<Longrightarrow> I (st\<lparr>ms_threads := a\<rparr>)"
  using control [where st = st and ths = "a" and fin = "ms_finished st" and scs = "ms_scopes st" and al = "ms_alloc st"] by simp

lemma allocated [intro]: "I st \<Longrightarrow> I (st\<lparr>ms_alloc := d\<rparr>)"
  using control [where st = st and ths = "ms_threads st" and fin = "ms_finished st" and scs = "ms_scopes st" and al = "d"] by simp

lemma scopes [intro]: "I st \<Longrightarrow> I (st\<lparr>ms_scopes := c\<rparr>)"
  using control [where st = st and ths = "ms_threads st" and fin = "ms_finished st" and scs = "c" and al = "ms_alloc st"] by simp

lemma finisheds [intro]: "I st \<Longrightarrow> I (st\<lparr>ms_finished := b\<rparr>)"
  using control [where st = st and ths = "ms_threads st" and fin = "b" and scs = "ms_scopes st" and al = "ms_alloc st"] by simp

lemma upd_thread [intro]: "I st \<Longrightarrow> I (upd_thread u g st)"
  by (auto simp: upd_thread_def)

lemma set_runnable [intro]: "I st \<Longrightarrow> I (set_runnable u st)"
  by (auto simp: set_runnable_def)

lemma block [intro]: "I st \<Longrightarrow> I (block u reason st)"
  by (auto simp: block_def)

lemma reclaim [intro]: "I st \<Longrightarrow> I (reclaim u st)"
  using control [where st = st and ths = "bt_remove u (ms_threads st)"
      and fin = "bs_remove u (ms_finished st)" and scs = "ms_scopes st" and al = "ms_alloc st"]
  by (simp add: reclaim_def)

lemma modify_frame:
  "I st \<Longrightarrow> modify_frame f g st = Ok st' \<Longrightarrow> (\<And>fr. fr_locals (g fr) = fr_locals fr) \<Longrightarrow>
    (\<And>fr. fr_function (g fr) = fr_function fr) \<Longrightarrow> I st'"
  by (auto simp: modify_frame_Ok intro!: frame_meta)

lemma modify_thread: "I st \<Longrightarrow> modify_thread u g st = Ok st' \<Longrightarrow> I st'"
  by (auto simp: modify_thread_def)

lemma advance: "I st \<Longrightarrow> advance u st = Ok st' \<Longrightarrow> I st'"
  by (auto simp: advance_def split: option.splits elim: modify_frame)

lemma set_pc: "I st \<Longrightarrow> set_pc f pc st = Ok st' \<Longrightarrow> I st'"
  by (auto simp: set_pc_def elim: modify_frame)

lemma complete: "I st \<Longrightarrow> complete u st = Ok st' \<Longrightarrow> I st'"
  by (auto simp: complete_def elim: advance [rotated])

lemma try_write: "I st \<Longrightarrow> try_write_dst ip f d v st = Ok (Some st') \<Longrightarrow> I st'"
  by (auto simp: try_write_dst_def split: if_splits intro: dst)

lemma deliver: "I st \<Longrightarrow> deliver_to_recv ip u v st = Ok (Some st') \<Longrightarrow> I st'"
  by (auto simp: deliver_to_recv_def split: option.splits intro: try_write)

end

end
