(* ===== verification/Interp_Preserve.thy ===== *)
theory Interp_Preserve
  imports Interp_Inv
begin

text \<open>Every handler preserves an invariant of the store: the lemmas of \<open>store_inv\<close>.\<close>

lemma one_Ok: "one m = Ok ss \<longleftrightarrow> (\<exists>st. m = Ok st \<and> ss = [st])"
  by (auto simp: one_def)

lemma opt_one_Ok: "opt_one m = Ok ss \<longleftrightarrow>
    (m = Ok None \<and> ss = []) \<or> (\<exists>st. m = Ok (Some st) \<and> ss = [st])"
  by (auto simp: opt_one_def split: option.splits)

lemma guarded_Ok: "guarded b m = Ok ss \<longleftrightarrow> (if b then m = Ok ss else ss = [])"
  by (auto simp: guarded_def)

lemma quiet_Ok: "quiet m = Ok r \<longleftrightarrow> (\<exists>ss. m = Ok ss \<and> r = (ss, []))"
  by (auto simp: quiet_def)

lemma fail_at_not_Ok [simp]: "fail_at x code \<noteq> Ok r"
  by (simp add: fail_at_def)

lemma then_advance_Ok: "then_advance t m = Ok ss \<longleftrightarrow>
    (m = Ok None \<and> ss = []) \<or> (\<exists>st st'. m = Ok (Some st) \<and> advance t st = Ok st' \<and> ss = [st'])"
  by (auto simp: then_advance_def opt_one_Ok split: option.splits)

lemmas handler_simps = one_Ok opt_one_Ok guarded_Ok quiet_Ok then_advance_Ok

lemma accepts_type: "get_type P r = Ok ty \<Longrightarrow> within_type v ty \<Longrightarrow> accepts P r v"
  by (auto simp: get_type_def accepts_def)

lemma drop_frame_frames: "frames (ms_store (drop_frame t f st)) = bt_remove f (frames (ms_store st))"
  by (simp add: drop_frame_def upd_store_def upd_thread_def)

lemma drop_frame_dst:
  assumes "dst_type_ok ip st c d v = Ok True" "write_dst c d v (drop_frame t f st) = Ok st'"
  shows "dst_type_ok ip (drop_frame t f st) c d v = Ok True"
  using assms by (cases d) (auto simp: modify_frame_Ok drop_frame_frames split: if_splits)

lemma in_set_tlD: "x \<in> set (tl xs) \<Longrightarrow> x \<in> set xs"
  by (cases xs) auto

lemma fold_inv: "(\<And>x s. I s \<Longrightarrow> I (f x s)) \<Longrightarrow> I s \<Longrightarrow> I (fold f xs s)"
  by (induction xs arbitrary: s) auto

context store_inv
begin

lemmas kept = advance [rotated] set_pc [rotated] complete [rotated] try_write [rotated]
  deliver [rotated] modify_thread [rotated]

lemma assign_local:
  assumes "I st" "do_assign_local x d e st = Ok ss" "s \<in> set ss"
    "stmt_in (it_program ip) (AssignLocal d e)"
    "bt_get (frames (ms_store st)) (sx_fid x) = Some fr"
    "function_of (it_program ip) (fr_function fr) = Ok (sx_function x)"
  shows "I s"
proof -
  let ?g = "\<lambda>v. case d of Local i \<Rightarrow> rbind (index (f_slots (sx_function x)) i) (\<lambda>s. Ok (within_type v (s_ty s)))
       | _ \<Rightarrow> Ok True"
  from assms(2) obtain v b where g: "?g v = (Ok b :: bool backend_result)"
    and m: "guarded b (one (rbind (write_dst (sx_fid x) d v st) (advance (sx_tid x)))) = Ok ss"
    by (auto simp: do_assign_local_def)
  with assms(3) have b: b by (auto simp: guarded_Ok split: if_splits)
  with m assms(3) obtain st' where w: "write_dst (sx_fid x) d v st = Ok st'" "advance (sx_tid x) st' = Ok s"
    by (auto simp: handler_simps)
  have "I st'"
    by (rule assign [OF assms(1,4) _ w(1)]) (use g b assms(5,6) in \<open>auto split: option.splits\<close>)
  with w(2) show ?thesis by (rule kept)
qed

lemma read_shared:
  "I st \<Longrightarrow> do_read_shared ip x r d st = Ok ss \<Longrightarrow> s \<in> set ss \<Longrightarrow> I s"
  by (auto simp: do_read_shared_def handler_simps split: option.splits elim!: kept)

lemma write_shared:
  "I st \<Longrightarrow> do_write_shared ip x r e st = Ok ss \<Longrightarrow> s \<in> set ss \<Longrightarrow> I s"
  by (auto simp: do_write_shared_def handler_simps split: if_splits
      elim!: kept intro!: var dest: accepts_type)

lemma atomic_load:
  "I st \<Longrightarrow> do_atomic_load ip x r d st = Ok ss \<Longrightarrow> s \<in> set ss \<Longrightarrow> I s"
  by (auto simp: do_atomic_load_def handler_simps elim!: kept)

lemma atomic_store:
  "I st \<Longrightarrow> do_atomic_store ip x r e st = Ok ss \<Longrightarrow> s \<in> set ss \<Longrightarrow> I s"
  by (auto simp: do_atomic_store_def handler_simps split: if_splits
      elim!: kept intro!: atomic dest: accepts_type)

lemma atomic_cas:
  assumes "I st" "do_atomic_cas ip x r ex des d st = Ok ss" "s \<in> set ss"
  shows "I s"
proof -
  from assms(2,3) obtain v ty old exv st1 where v: "get_type (it_program ip) r = Ok ty" "within_type v ty"
    and w: "try_write_dst ip (sx_fid x) d old st = Ok (Some st1)"
      "advance (sx_tid x) (if old = exv then set_atomic r v st1 else st1) = Ok s"
    by (fastforce simp: do_atomic_cas_def handler_simps split: if_splits option.splits)
  from assms(1) w(1) have "I st1" by (rule try_write)
  then have "I (if old = exv then set_atomic r v st1 else st1)"
    using atomic [OF _ accepts_type [OF v]] by simp
  with w(2) show ?thesis by (rule kept)
qed

lemma lock:
  assumes "sx_tid x = t"
  shows "I st \<Longrightarrow> do_lock x r st = Ok ss \<Longrightarrow> s \<in> set ss \<Longrightarrow> I s"
  by (auto simp: do_lock_def handler_simps assms split: if_splits elim!: kept intro!: mutex_lock)

lemma unlock:
  assumes "sx_tid x = t"
  shows "I st \<Longrightarrow> do_unlock x r st = Ok ss \<Longrightarrow> s \<in> set ss \<Longrightarrow> I s"
  by (auto simp: do_unlock_def handler_simps assms split: if_splits elim!: kept intro!: mutex_free)

lemma drop_shrinks:
  "channel_shrinks ch (push_recv u ch)" "channel_shrinks ch (drop_recv u ch)"
  "channel_shrinks ch (drop_send u ch)" "channel_shrinks ch (pop_buffer ch)"
  "channel_shrinks ch (drop_recv u (pop_buffer ch))"
  "channel_shrinks ch (drop_recv u (remove_send i ch))"
  by (auto simp: channel_shrinks_def push_recv_def drop_recv_def drop_send_def pop_buffer_def
      remove_send_def remove_nth_def dest: in_set_takeD in_set_dropD in_set_tlD)

subsection \<open>Channels\<close>

lemma shrink_chan:
  assumes "I st" "modify_chan c g st = Ok st'" "\<And>ch. channel_shrinks ch (g ch)"
  shows "I st'"
  using assms chan_shrink by (auto simp: modify_chan_Ok)

lemma send_pairing:
  assumes "I st" "rbind (deliver_to_recv ip r v st) (\<lambda>w. case w of
      None \<Rightarrow> Ok None
    | Some s \<Rightarrow> rbind (modify_chan c (drop_recv r) s) (\<lambda>s.
        rbind (complete r s) (\<lambda>s. rbind (advance u s) (\<lambda>s. Ok (Some s))))) = Ok (Some s')"
  shows "I s'"
proof -
  from assms(2) obtain s1 s2 s3 where s: "deliver_to_recv ip r v st = Ok (Some s1)"
    "modify_chan c (drop_recv r) s1 = Ok s2" "complete r s2 = Ok s3" "advance u s3 = Ok s'"
    by (auto split: option.splits)
  from assms(1) s(1) have "I s1" by (rule deliver)
  then have "I s2" using s(2) by (rule shrink_chan) (rule drop_shrinks)
  with s(3) have "I s3" by (rule kept)
  with s(4) show ?thesis by (rule kept)
qed

lemma recv_pairing:
  assumes "I st" "try_write_dst ip f d v st = Ok (Some s1)"
    "modify_chan c (drop_send p) s1 = Ok s2" "complete q s2 = Ok s3"
  shows "I s3"
proof -
  from assms(1,2) have "I s1" by (rule try_write)
  then have "I s2" using assms(3) by (rule shrink_chan) (rule drop_shrinks)
  with assms(4) show ?thesis by (rule kept)
qed

lemma push_send_chan:
  assumes "I st" "modify_chan c (push_send u v) st = Ok st'" "accepts (it_program ip) c v"
  shows "I st'"
  using assms chan_send by (auto simp: modify_chan_Ok)

lemma push_buffer_chan:
  assumes "I st" "modify_chan c (push_buffer v) st = Ok st'" "accepts (it_program ip) c v"
    "resource_of (it_program ip) c = Ok res" "has_space st c (r_capacity res)"
  shows "I st'"
  using assms chan_push by (auto simp: modify_chan_Ok has_space_def)

lemma send:
  assumes "I st" "do_send ip x c e st = Ok ss" "s \<in> set ss"
  shows "I s"
proof -
  from assms(2) obtain v res where v: "ieval st (sx_fid x) e = Ok v"
    "resource_of (it_program ip) c = Ok res" by (auto simp: do_send_def Let_def)
  show ?thesis
  proof (cases "case r_ty res of Some ty \<Rightarrow> \<not> within_type v ty | None \<Rightarrow> False")
    case True
    with assms(2,3) v show ?thesis by (simp add: do_send_def Let_def)
  next
    case ok: False
    have acc: "accepts (it_program ip) c v"
      using ok v(2) by (auto simp: accepts_def split: option.splits)
    have parked: "I s" if "one (rbind (modify_chan c (push_send (sx_tid x) v) st)
        (\<lambda>s. Ok (block (sx_tid x) (BrChannelSend c) s))) = Ok ss"
    proof -
      from that assms(3) obtain s1 where "modify_chan c (push_send (sx_tid x) v) st = Ok s1"
        "s = block (sx_tid x) (BrChannelSend c) s1" by (auto simp: handler_simps)
      then show ?thesis using push_send_chan [OF assms(1) _ acc] by blast
    qed
    show ?thesis
    proof (cases "r_capacity res = 0")
      case True
      show ?thesis
      proof (cases "case chan_of st c of Some ch \<Rightarrow> ch_pending_recv ch | None \<Rightarrow> []")
        case Nil
        with assms(2) v ok True have "one (rbind (modify_chan c (push_send (sx_tid x) v) st)
            (\<lambda>s. Ok (block (sx_tid x) (BrChannelSend c) s))) = Ok ss"
          by (simp add: do_send_def Let_def)
        then show ?thesis by (rule parked)
      next
        case (Cons r rs)
        with assms(2) v ok True have "gatherM (\<lambda>r.
              rbind (deliver_to_recv ip r v st) (\<lambda>w. case w of
                  None \<Rightarrow> Ok None
                | Some s \<Rightarrow> rbind (modify_chan c (drop_recv r) s) (\<lambda>s.
                    rbind (complete r s) (\<lambda>s. rbind (advance (sx_tid x) s) (\<lambda>s. Ok (Some s))))))
              (r # rs) = Ok ss"
          by (simp add: do_send_def Let_def del: gatherM.simps)
        from gatherM_set [OF this assms(3)] show ?thesis
          using send_pairing [OF assms(1)] by blast
      qed
    next
      case False
      with assms(2) v ok consider
          (space) "has_space st c (r_capacity res)"
            "one (rbind (modify_chan c (push_buffer v) st) (advance (sx_tid x))) = Ok ss"
        | (park) "one (rbind (modify_chan c (push_send (sx_tid x) v) st)
            (\<lambda>s. Ok (block (sx_tid x) (BrChannelSend c) s))) = Ok ss"
        by (auto simp: do_send_def Let_def split: if_splits)
      then show ?thesis
      proof cases
        case space
        with assms(3) obtain s1 where "modify_chan c (push_buffer v) st = Ok s1"
          "advance (sx_tid x) s1 = Ok s" by (auto simp: handler_simps)
        with push_buffer_chan [OF assms(1) _ acc v(2) space(1)] show ?thesis by (blast intro: kept)
      next
        case park
        then show ?thesis by (rule parked)
      qed
    qed
  qed
qed

lemma push_recv_chan:
  assumes "I st" "one (rbind (modify_chan c (push_recv u) st) (\<lambda>s. Ok (block w b s))) = Ok ss" "s \<in> set ss"
  shows "I s"
proof -
  from assms(2,3) obtain s1 where "modify_chan c (push_recv u) st = Ok s1" "s = block w b s1"
    by (auto simp: handler_simps)
  then show ?thesis using shrink_chan [OF assms(1)] drop_shrinks(1) by blast
qed

lemma recv:
  assumes "I st" "do_recv ip x c st = Ok ss" "s \<in> set ss"
  shows "I s"
proof -
  from assms(2) obtain res where res: "resource_of (it_program ip) c = Ok res"
    by (auto simp: do_recv_def Let_def)
  show ?thesis
  proof (cases "r_capacity res = 0")
    case True
    show ?thesis
    proof (cases "case chan_of st c of Some ch \<Rightarrow> ch_pending_send ch | None \<Rightarrow> []")
      case Nil
      with assms(2) res True show ?thesis
        by (intro push_recv_chan [OF assms(1) _ assms(3)]) (simp add: do_recv_def Let_def)
    next
      case (Cons p ps)
      with assms(2) res True obtain d where "gatherM (\<lambda>p.
            rbind (try_write_dst ip (sx_fid x) d (ps_value p) st) (\<lambda>w. case w of
                None \<Rightarrow> Ok None
              | Some s \<Rightarrow> rbind (modify_chan c (drop_send (ps_thread p)) s) (\<lambda>s.
                  rbind (complete (ps_thread p) s) (\<lambda>s. rbind (advance (sx_tid x) s) (\<lambda>s. Ok (Some s))))))
            (p # ps) = Ok ss"
        by (auto simp: do_recv_def Let_def simp del: gatherM.simps)
      from gatherM_set [OF this assms(3)] obtain p :: pending_send and s1 s2 s3 where
        p: "try_write_dst ip (sx_fid x) d (ps_value p) st = Ok (Some s1)"
          "modify_chan c (drop_send (ps_thread p)) s1 = Ok s2" "complete (ps_thread p) s2 = Ok s3"
        and adv: "advance (sx_tid x) s3 = Ok s"
        by (fastforce split: option.splits)
      have "I s3" by (rule recv_pairing [OF assms(1) p])
      with adv show ?thesis by (rule kept)
    qed
  next
    case False
    show ?thesis
    proof (cases "chan_head st c")
      case None
      with assms(2) res False show ?thesis
        by (intro push_recv_chan [OF assms(1) _ assms(3)]) (simp add: do_recv_def Let_def)
    next
      case (Some v)
      with assms(2,3) res False obtain d s1 s2 where s: "try_write_dst ip (sx_fid x) d v st = Ok (Some s1)"
        "modify_chan c pop_buffer s1 = Ok s2" "advance (sx_tid x) s2 = Ok s"
        by (auto simp: do_recv_def Let_def handler_simps split: option.splits)
      from assms(1) s(1) have "I s1" by (rule try_write)
      then have "I s2" using s(2) by (rule shrink_chan) (rule drop_shrinks)
      with s(3) show ?thesis by (rule kept)
    qed
  qed
qed

lemma resume_send_keeps:
  assumes "I st" "resume_send ip u c st = Ok ss" "s \<in> set ss"
  shows "I s"
proof -
  from assms(2) obtain res where res: "resource_of (it_program ip) c = Ok res"
    by (auto simp: resume_send_def)
  show ?thesis
  proof (cases "r_capacity res = 0")
    case True
    with assms(2,3) res obtain r i and p :: pending_send where "opt_one (rbind (deliver_to_recv ip r (ps_value p) st) (\<lambda>w. case w of
          None \<Rightarrow> Ok None
        | Some s \<Rightarrow> rbind (modify_chan c (\<lambda>ch. drop_recv r (remove_send i ch)) s) (\<lambda>s.
            rbind (complete r s) (\<lambda>s. rbind (complete u s) (\<lambda>s. Ok (Some s)))))) = Ok ss"
      by (auto simp: resume_send_def split: option.splits)
    with assms(3) obtain s1 s2 s3 where s: "deliver_to_recv ip r (ps_value p) st = Ok (Some s1)"
      "modify_chan c (\<lambda>ch. drop_recv r (remove_send i ch)) s1 = Ok s2" "complete r s2 = Ok s3"
      "complete u s3 = Ok s"
      by (auto simp: handler_simps split: option.splits)
    from assms(1) s(1) have "I s1" by (rule deliver)
    then have "I s2" using s(2) by (rule shrink_chan) (rule drop_shrinks)
    with s(3) have "I s3" by (rule kept)
    with s(4) show ?thesis by (rule kept)
  next
    case False
    with assms(2,3) res obtain i and p :: pending_send where sp: "has_space st c (r_capacity res)" and
      p: "pending_at st c i = Ok p" and
      one: "one (rbind (modify_chan c (\<lambda>ch. push_buffer (ps_value p) (remove_send i ch)) st) (complete u)) = Ok ss"
      by (auto simp: resume_send_def split: option.splits if_splits)
    from p sp obtain ch where ch: "chan_of st c = Some ch" "i < length (ch_pending_send ch)"
      "ch_pending_send ch ! i = p" "length (ch_buffer ch) < r_capacity res"
      by (auto simp: pending_at_def has_space_def)
    from one assms(3) obtain s1 where s: "modify_chan c (\<lambda>ch. push_buffer (ps_value p) (remove_send i ch)) st = Ok s1"
      "complete u s1 = Ok s" by (auto simp: handler_simps)
    have "I s1" using chan_move [OF assms(1) ch(1) res ch(4,2)] s(1) ch by (auto simp: modify_chan_Ok)
    with s(2) show ?thesis by (rule kept)
  qed
qed

lemma resume_recv_keeps:
  assumes "I st" "resume_recv ip u f c st = Ok ss" "s \<in> set ss"
  shows "I s"
proof -
  from assms(2) obtain res where res: "resource_of (it_program ip) c = Ok res"
    by (auto simp: resume_recv_def)
  show ?thesis
  proof (cases "r_capacity res = 0")
    case True
    with assms(2,3) res obtain d and p :: pending_send and s1 s2 s3 where
      p: "try_write_dst ip f d (ps_value p) st = Ok (Some s1)"
        "modify_chan c (drop_send (ps_thread p)) s1 = Ok s2" "complete (ps_thread p) s2 = Ok s3"
      and fin: "complete u s3 = Ok s"
      by (auto simp: resume_recv_def opt_one_Ok split: option.splits)
    have "I s3" by (rule recv_pairing [OF assms(1) p])
    with fin show ?thesis by (rule kept)
  next
    case False
    with assms(2,3) res obtain d v s1 s2 where s: "try_write_dst ip f d v st = Ok (Some s1)"
      "modify_chan c (\<lambda>ch. drop_recv u (pop_buffer ch)) s1 = Ok s2" "complete u s2 = Ok s"
      by (auto simp: resume_recv_def opt_one_Ok split: option.splits)
    from assms(1) s(1) have "I s1" by (rule try_write)
    then have "I s2" using s(2) by (rule shrink_chan) (rule drop_shrinks)
    with s(3) show ?thesis by (rule kept)
  qed
qed

subsection \<open>Condition variables, semaphores, locks\<close>

lemma wait:
  assumes "sx_tid x = t"
  shows "I st \<Longrightarrow> do_wait x cv lk st = Ok ss \<Longrightarrow> s \<in> set ss \<Longrightarrow> I s"
  by (auto simp: do_wait_def assms split: if_splits intro!: condvar mutex_free)

lemma notify_all:
  assumes "I st" "do_notify_all x cv st = Ok ss" "s \<in> set ss"
  shows "I s"
proof -
  from assms(2,3) obtain ws where s: "advance (sx_tid x)
      (fold (\<lambda>(w, lock). block w (BrLock lock)) ws (set_waiters cv [] st)) = Ok s"
    by (auto simp: do_notify_all_def handler_simps)
  have "I (fold (\<lambda>(w, lock). block w (BrLock lock)) ws (set_waiters cv [] st))"
    by (rule fold_inv) (auto intro: condvar assms(1))
  with s show ?thesis by (rule kept)
qed

lemma acquire: "I st \<Longrightarrow> do_acquire x r n st = Ok ss \<Longrightarrow> s \<in> set ss \<Longrightarrow> I s"
  by (auto simp: do_acquire_def handler_simps Let_def not_le split: if_splits
      elim!: kept intro!: permits_take waiter_add block)

lemma release: "I st \<Longrightarrow> do_release x r n st = Ok ss \<Longrightarrow> s \<in> set ss \<Longrightarrow> I s"
  by (auto simp: do_release_def handler_simps not_le split: if_splits option.splits
      elim!: kept intro!: permits_give)

lemma resume_lock_keeps: "I st \<Longrightarrow> resume_lock t r st = Ok ss \<Longrightarrow> s \<in> set ss \<Longrightarrow> I s"
  by (auto simp: resume_lock_def handler_simps split: if_splits elim!: kept intro!: mutex_lock)

lemma set_permits_waiters:
  "(set_permits r n st)\<lparr>ms_sem_waiters := bt_adjust r' g (ms_sem_waiters st)\<rparr> =
   (set_permits r n st)\<lparr>ms_sem_waiters := bt_adjust r' g (ms_sem_waiters (set_permits r n st))\<rparr>"
  by (simp add: set_permits_def upd_store_def)

lemma resume_semaphore_keeps:
  assumes "I st" "resume_semaphore u r st = Ok ss" "s \<in> set ss"
  shows "I s"
proof -
  from assms(2,3) obtain q w n where q: "bt_get (ms_sem_waiters st) r = Some q"
    "find (\<lambda>(w, n). w = u) q = Some (w, n)" "n \<le> permits_of st r" and
    s: "complete u ((set_permits r (permits_of st r - n) st)
      \<lparr>ms_sem_waiters := bt_adjust r (filter (\<lambda>(w, n). w \<noteq> u)) (ms_sem_waiters st)\<rparr>) = Ok s"
    by (auto simp: resume_semaphore_def handler_simps bind_eq_Some_conv split: option.splits if_splits)
  from q(2) have "(w, n) \<in> set q" by (auto simp: find_Some_iff in_set_conv_nth)
  with permits_wake [OF assms(1) q(1) _ q(3)] have "I (set_permits r (permits_of st r - n) st)" by blast
  from waiter_drop [OF this] s show ?thesis
    by (auto simp: set_permits_waiters [symmetric] elim!: kept)
qed

subsection \<open>Ending and starting activations\<close>

lemma frame_gone: "I st \<Longrightarrow> I (drop_frame u f st)"
  by (auto simp: drop_frame_def intro!: frame_drop)

lemma close_scope_keeps:
  assumes "I st" "close_scope sc st = Ok s"
  shows "I s"
proof -
  from assms(2) obtain so :: scope_state and fr :: frame and s2 where s2: "advance (sc_owner so) (set_runnable (sc_owner so)
      (st\<lparr>ms_completed_scopes := bs_insert (fr_function fr, fr_pc fr) (ms_completed_scopes st)\<rparr>)) = Ok s2"
    and s: "s = s2\<lparr>ms_threads := fold bt_remove (map fst (filter (\<lambda>(i, t). th_parent_scope t = Some sc) (ms_threads s2))) (ms_threads s2),
      ms_finished := fold bs_remove (map fst (filter (\<lambda>(i, t). th_parent_scope t = Some sc) (ms_threads s2))) (ms_finished s2),
      ms_scopes := bt_remove sc (ms_scopes s2)\<rparr>"
    by (auto simp: close_scope_def Let_def)
  have "I s2" by (rule kept(1) [OF s2]) (auto intro: scope_fact assms(1))
  from control [OF this, where al = "ms_alloc s2"] s show ?thesis by simp
qed

lemma leave_scope_keeps:
  assumes "I st" "leave_scope u st = Ok s"
  shows "I s"
proof -
  from assms(2) obtain th where th: "bt_get (ms_threads st) u = Some th" by (auto simp: leave_scope_def)
  show ?thesis
  proof (cases "th_parent_scope th")
    case None
    with assms th show ?thesis by (simp add: leave_scope_def)
  next
    case (Some sc)
    show ?thesis
    proof (cases "bt_get (ms_scopes st) sc")
      case None
      with assms th Some show ?thesis by (simp add: leave_scope_def)
    next
      case (Some r)
      with assms th \<open>th_parent_scope th = Some sc\<close> show ?thesis
        by (auto simp: leave_scope_def Let_def split: if_splits elim!: close_scope_keeps [rotated])
    qed
  qed
qed

lemma release_joiner_keeps: "I st \<Longrightarrow> release_joiner ip u j st = Ok s \<Longrightarrow> I s"
  by (auto simp: release_joiner_def drop_join_handle_def split: option.splits sem_op.splits
      elim!: kept modify_frame [rotated])

lemma finish_thread_keeps:
  assumes "I st" "finish_thread ip u fi st = Ok s"
  shows "I s"
proof -
  let ?s0 = "upd_thread u (\<lambda>th. th\<lparr>th_status := Finished\<rparr>) st"
  let ?s1 = "record_completion ip fi (?s0\<lparr>ms_finished := bs_insert u (ms_finished ?s0)\<rparr>)"
  from assms(2) obtain s2 s3 where s: "leave_scope u ?s1 = Ok s2"
    "foldM (release_joiner ip u) (joiners_of u s2) s2 = Ok s3"
    "s = (if joiners_of u s2 = [] then s3 else reclaim u s3)"
    by (auto simp: finish_thread_def Let_def)
  have "I ?s1" using assms(1) by (intro completion finisheds upd_thread)
  then have "I s2" using s(1) by (rule leave_scope_keeps)
  then have "I s3" by (rule foldM_invariant [OF s(2)]) (rule release_joiner_keeps)
  then show ?thesis using s(3) by auto
qed

lemma apply_return_keeps:
  assumes "I st" "apply_return ip u f fi fn val st = Ok (Some s)"
  shows "I s"
proof -
  from assms(2) obtain th where th: "bt_get (ms_threads st) u = Some th"
    by (auto simp: apply_return_def split: if_splits)
  show ?thesis
  proof (cases "length (th_stack th) > 1")
    case False
    with assms(2) th have "finish_thread ip u fi (drop_frame u f st) = Ok s"
      by (auto simp: apply_return_def split: if_splits)
    with frame_gone [OF assms(1)] show ?thesis by (rule finish_thread_keeps)
  next
    case True
    let ?c = "th_stack th ! (length (th_stack th) - 2)"
    have gone: "I (drop_frame u f st)" by (rule frame_gone [OF assms(1)])
    from assms(2) th True obtain callee :: frame and s2 where
      ok: "(case (fr_ret callee, val) of (Some ret, Some v) \<Rightarrow> dst_type_ok ip st ?c (ra_dst ret) v
           | _ \<Rightarrow> Ok True) = Ok True" and
      s2: "(case fr_ret callee of None \<Rightarrow> Ok (drop_frame u f st)
         | Some ret \<Rightarrow> rbind (case val of Some v \<Rightarrow> write_dst ?c (ra_dst ret) v (drop_frame u f st)
               | None \<Rightarrow> Ok (drop_frame u f st)) (set_pc ?c (ra_pc_next ret))) = Ok s2" and
      s: "s = record_completion ip fi s2"
      by (auto simp: apply_return_def Let_def split: if_splits)
    have "I s2"
    proof (cases "fr_ret callee")
      case None
      with s2 gone show ?thesis by simp
    next
      case (Some ret)
      with s2 obtain s1 where s1: "(case val of Some v \<Rightarrow> write_dst ?c (ra_dst ret) v (drop_frame u f st)
               | None \<Rightarrow> Ok (drop_frame u f st)) = Ok s1" "set_pc ?c (ra_pc_next ret) s1 = Ok s2" by auto
      have "I s1"
      proof (cases val)
        case None
        with s1(1) gone show ?thesis by simp
      next
        case (Some v)
        with ok s1(1) \<open>fr_ret callee = Some ret\<close> have "dst_type_ok ip st ?c (ra_dst ret) v = Ok True"
          "write_dst ?c (ra_dst ret) v (drop_frame u f st) = Ok s1" by auto
        then show ?thesis using dst [OF gone drop_frame_dst] by blast
      qed
      with s1(2) show ?thesis by (rule kept)
    qed
    with s show ?thesis by (simp add: completion)
  qed
qed

lemma alloc_frame_Ok:
  "alloc_frame (it_program ip) fi st = Ok (fr, st') \<Longrightarrow>
    \<exists>fn vs. function_of (it_program ip) fi = Ok fn \<and> mapM slot_initial (f_slots fn) = Ok vs \<and>
      fr_function fr = fi \<and> fr_locals fr = enumerate 0 vs \<and>
      st' = st\<lparr>ms_alloc := (ms_alloc st)\<lparr>next_frame := Suc (next_frame (ms_alloc st))\<rparr>\<rparr>"
  by (auto simp: alloc_frame_def Let_def)

lemma write_new_frame:
  assumes "I st" "alloc_frame (it_program ip) fi st = Ok (fr, st')"
    "function_of (it_program ip) fi = Ok fn" "binds_ok fn binds" "fr_function fr' = fi"
    "fr_locals fr' = fold (\<lambda>(i, v). bt_insert i v) binds (fr_locals fr)"
  shows "I (upd_store (write_frame f fr') st')"
proof -
  from alloc_frame_Ok [OF assms(2)] assms(3) obtain vs where vs: "mapM slot_initial (f_slots fn) = Ok vs"
    "fr_locals fr = enumerate 0 vs"
    "st' = st\<lparr>ms_alloc := (ms_alloc st)\<lparr>next_frame := Suc (next_frame (ms_alloc st))\<rparr>\<rparr>" by auto
  have "I st'" using assms(1) vs(3) by auto
  from frame_new [OF this assms(3) vs(1) assms(4,5)] assms(6) vs(2) show ?thesis by simp
qed

lemma create_thread_keeps:
  assumes "I st" "create_thread ip fi sc st = Ok (c, s, be)"
  shows "I s"
proof (cases "live_threads st \<ge> max_threads (it_bounds ip)")
  case True
  with assms show ?thesis by (simp add: create_thread_def)
next
  case False
  let ?u = "next_thread (ms_alloc st)"
  let ?s1 = "st\<lparr>ms_alloc := (ms_alloc st)\<lparr>next_thread := Suc ?u\<rparr>\<rparr>"
  have s1: "I ?s1" using assms(1) by auto
  from assms(2) False obtain fn where fn: "function_of (it_program ip) fi = Ok fn"
    by (auto simp: create_thread_def Let_def)
  show ?thesis
  proof (cases "is_transparent_nobody fn")
    case True
    with assms(2) False fn have "s = record_completion ip fi (?s1\<lparr>ms_threads :=
        bt_insert ?u (new_thread ?u Finished [] fi sc) (ms_threads ?s1), ms_finished := bs_insert ?u (ms_finished ?s1)\<rparr>)"
      by (auto simp: create_thread_def Let_def)
    with s1 show ?thesis by (auto intro!: completion)
  next
    case nt: False
    with assms(2) False fn obtain fr s2 where al: "alloc_frame (it_program ip) fi ?s1 = Ok (fr, s2)" and
      s: "s = (upd_store (write_frame (fr_id fr) fr) s2)\<lparr>ms_threads :=
        bt_insert ?u (new_thread ?u Runnable [fr_id fr] fi sc) (ms_threads (upd_store (write_frame (fr_id fr) fr) s2))\<rparr>"
      by (auto simp: create_thread_def Let_def)
    have "I (upd_store (write_frame (fr_id fr) fr) s2)"
      by (rule write_new_frame [OF s1 al fn, where binds = "[]"])
        (use alloc_frame_Ok [OF al] in \<open>auto simp: binds_ok_def\<close>)
    then show ?thesis unfolding s by (rule threads)
  qed
qed

lemma call:
  assumes "I st" "do_call ip x fi args d st = Ok (ss, be)" "s \<in> set ss"
  shows "I s"
proof -
  from assms(2) obtain callee where c: "function_of (it_program ip) fi = Ok callee"
    by (auto simp: do_call_def Let_def)
  show ?thesis
  proof (cases "is_transparent_nobody callee")
    case True
    with assms c show ?thesis
      by (auto simp: do_call_def Let_def handler_simps elim!: kept intro!: completion)
  next
    case False
    from assms(2,3) c False obtain vals fr s1 where
      good: "allM (\<lambda>(i, v). rbind (index (f_slots callee) i) (\<lambda>s. Ok (within_type v (s_ty s))))
        (zip (modeled_params callee) vals) = (Ok True :: bool backend_result)" and
      al: "alloc_frame (it_program ip) fi st = Ok (fr, s1)" and
      s: "s = upd_thread (sx_tid x) (\<lambda>th. th\<lparr>th_stack := th_stack th @ [fr_id fr]\<rparr>)
        (upd_store (write_frame (fr_id fr) (fr\<lparr>fr_locals :=
          fold (\<lambda>(i, v). bt_insert i v) (zip (modeled_params callee) vals) (fr_locals fr),
          fr_ret := Some \<lparr>ra_pc_next = sx_pc x + 1, ra_dst = (case d of Some d \<Rightarrow> d | None \<Rightarrow> Discard)\<rparr>\<rparr>)) s1)"
      by (auto simp: do_call_def Let_def handler_simps split: if_splits)
    have "binds_ok callee (zip (modeled_params callee) vals)"
      unfolding binds_ok_def using allM_Ok_True [OF good] by fastforce
    from write_new_frame [OF assms(1) al c this, of "fr\<lparr>fr_locals :=
          fold (\<lambda>(i, v). bt_insert i v) (zip (modeled_params callee) vals) (fr_locals fr),
          fr_ret := Some \<lparr>ra_pc_next = sx_pc x + 1, ra_dst = (case d of Some d \<Rightarrow> d | None \<Rightarrow> Discard)\<rparr>\<rparr>" "fr_id fr"]
    show ?thesis unfolding s using alloc_frame_Ok [OF al] by auto
  qed
qed

lemma spawn:
  assumes "I st" "do_spawn ip x fi h st = Ok (ss, be)" "s \<in> set ss"
  shows "I s"
proof -
  from assms(2,3) obtain c s0 be' s2 s3 where c: "create_thread ip fi None st = Ok (Some c, s0, be')" and
    s: "modify_frame (sx_fid x) (\<lambda>fr. fr\<lparr>fr_handles := bt_insert h (next_handle (ms_alloc s0)) (fr_handles fr)\<rparr>)
      (s0\<lparr>ms_alloc := (ms_alloc s0)\<lparr>next_handle := Suc (next_handle (ms_alloc s0))\<rparr>\<rparr>) = Ok s2"
    "modify_thread (sx_tid x) (\<lambda>th. th\<lparr>th_handle_children :=
      bt_insert (next_handle (ms_alloc s0)) c (th_handle_children th)\<rparr>) s2 = Ok s3" "advance (sx_tid x) s3 = Ok s"
    by (auto simp: do_spawn_def Let_def split: if_splits option.splits)
  have "I s0" using assms(1) c by (rule create_thread_keeps)
  then have "I (s0\<lparr>ms_alloc := (ms_alloc s0)\<lparr>next_handle := Suc (next_handle (ms_alloc s0))\<rparr>\<rparr>)" by (rule allocated)
  then have "I s2" using s(1) by (rule modify_frame) simp_all
  with s(2) have "I s3" by (rule kept)
  with s(3) show ?thesis by (rule kept)
qed

lemma create_members_keeps:
  "create_members ip sc fs rem st = Ok (Some (rem', s), be) \<Longrightarrow> I st \<Longrightarrow> I s"
proof (induction fs arbitrary: rem st be)
  case (Cons f fs)
  from Cons.prems(1) obtain c s0 be0 th rem1 be1 where c: "create_thread ip f (Some sc) st = Ok (Some c, s0, be0)"
    "create_members ip sc fs rem1 s0 = Ok (Some (rem', s), be1)"
    by (auto simp: Let_def split: option.splits)
  show ?case by (rule Cons.IH [OF c(2)]) (rule create_thread_keeps [OF Cons.prems(2) c(1)])
qed simp

lemma scope:
  assumes "I st" "do_scope ip x fs st = Ok (ss, be)" "s \<in> set ss"
  shows "I s"
proof -
  let ?sc = "next_scope (ms_alloc st)"
  let ?s1 = "st\<lparr>ms_alloc := (ms_alloc st)\<lparr>next_scope := Suc ?sc\<rparr>\<rparr>"
  let ?fin = "\<lambda>be rem s0. if rem = [] then rbind (advance (sx_tid x) (s0\<lparr>ms_completed_scopes :=
            bs_insert (sx_function_id x, sx_pc x) (ms_completed_scopes s0)\<rparr>)) (\<lambda>s. Ok ([s], be))
        else Ok ([block (sx_tid x) (BrScope ?sc) (s0\<lparr>ms_scopes := bt_insert ?sc
            \<lparr>sc_id = ?sc, sc_owner = sx_tid x, sc_owner_frame = sx_fid x, sc_remaining = rem\<rparr>
            (ms_scopes s0)\<rparr>)], be)"
  from assms(2,3) obtain r be0 where r: "create_members ip ?sc fs [] ?s1 = Ok (r, be0)"
    "(case r of None \<Rightarrow> Ok ([], be0) | Some (rem, s0) \<Rightarrow> ?fin be0 rem s0) = Ok (ss, be)"
    by (auto simp: do_scope_def Let_def split: if_splits)
  with assms(3) obtain rem s0 where c: "create_members ip ?sc fs [] ?s1 = Ok (Some (rem, s0), be0)"
    and s: "?fin be0 rem s0 = Ok (ss, be)"
    by (cases r) auto
  have "I s0" using c by (rule create_members_keeps) (use assms(1) in auto)
  with s assms(3) show ?thesis by (auto split: if_splits elim!: kept intro!: scope_fact block scopes)
qed

lemma join:
  assumes "I st" "do_join x h st = Ok ss" "s \<in> set ss"
  shows "I s"
proof -
  from assms(2) obtain fr where fr: "bt_get (frames (ms_store st)) (sx_fid x) = Some fr"
    by (auto simp: do_join_def Let_def)
  with assms(2) obtain hd where hd: "bt_get (fr_handles fr) h = Some hd"
    by (cases "bt_get (fr_handles fr) h") (auto simp: do_join_def Let_def)
  with assms(2) fr obtain th where th: "bt_get (ms_threads st) (sx_tid x) = Some th"
    by (auto simp: do_join_def Let_def)
  with assms(2) fr hd obtain c where "bt_get (th_handle_children th) hd = Some c"
    by (cases "bt_get (th_handle_children th) hd") (auto simp: do_join_def Let_def)
  with assms(2,3) fr hd th have
    "(\<exists>s1. modify_frame (sx_fid x) (\<lambda>fr. fr\<lparr>fr_handles := bt_remove h (fr_handles fr)\<rparr>) st = Ok s1 \<and>
       advance (sx_tid x) (reclaim c (upd_thread (sx_tid x) (\<lambda>th. th\<lparr>th_handle_children :=
          bt_remove hd (th_handle_children th)\<rparr>) s1)) = Ok s) \<or> s = block (sx_tid x) (BrJoin hd) st"
    by (auto simp: do_join_def Let_def handler_simps split: if_splits)
  then show ?thesis
  proof
    assume "\<exists>s1. modify_frame (sx_fid x) (\<lambda>fr. fr\<lparr>fr_handles := bt_remove h (fr_handles fr)\<rparr>) st = Ok s1 \<and>
       advance (sx_tid x) (reclaim c (upd_thread (sx_tid x) (\<lambda>th. th\<lparr>th_handle_children :=
          bt_remove hd (th_handle_children th)\<rparr>) s1)) = Ok s"
    then obtain s1 where s1: "modify_frame (sx_fid x) (\<lambda>fr. fr\<lparr>fr_handles := bt_remove h (fr_handles fr)\<rparr>) st = Ok s1"
      "advance (sx_tid x) (reclaim c (upd_thread (sx_tid x) (\<lambda>th. th\<lparr>th_handle_children :=
          bt_remove hd (th_handle_children th)\<rparr>) s1)) = Ok s" by blast
    from assms(1) s1(1) have "I s1" by (rule modify_frame) simp_all
    then show ?thesis using s1(2) by (auto elim!: kept)
  qed (use assms(1) in auto)
qed

subsection \<open>Control flow\<close>

lemma goto: "I st \<Longrightarrow> do_goto x pc st = Ok ss \<Longrightarrow> s \<in> set ss \<Longrightarrow> I s"
  by (auto simp: do_goto_def handler_simps elim!: kept)

lemma branch: "I st \<Longrightarrow> do_branch x c thn els st = Ok ss \<Longrightarrow> s \<in> set ss \<Longrightarrow> I s"
  by (auto simp: do_branch_def handler_simps split: option.splits elim!: kept)

lemma switch: "I st \<Longrightarrow> do_switch x v cs d st = Ok ss \<Longrightarrow> s \<in> set ss \<Longrightarrow> I s"
  by (auto simp: do_switch_def handler_simps split: option.splits elim!: kept)

lemma return: "I st \<Longrightarrow> do_return ip x e st = Ok ss \<Longrightarrow> s \<in> set ss \<Longrightarrow> I s"
  by (auto simp: do_return_def handler_simps intro: apply_return_keeps)

subsection \<open>Steps\<close>

lemma notify_step:
  assumes "I st" "step_notify ip st u fi pc cv = Ok stps" "stp \<in> set stps"
  shows "I (step_state stp)"
proof -
  let ?ws = "case bt_get (condvars (ms_store st)) cv of Some ws \<Rightarrow> ws | None \<Rightarrow> []"
  let ?f = "\<lambda>(w, lock). advance u (block w (BrLock lock)
      (set_waiters cv (filter (\<lambda>y. y \<noteq> (w, lock)) ?ws) (mark_reached fi pc st)))"
  from assms(2,3) obtain ss where ss: "(if ?ws = [] then one (advance u (mark_reached fi pc st))
      else mapM ?f ?ws) = Ok ss" "step_state stp \<in> set ss"
    by (auto simp: step_notify_def Let_def label_all_def)
  have r: "I (mark_reached fi pc st)" by (rule reached_fact [OF assms(1)])
  show ?thesis
  proof (cases "?ws = []")
    case True
    with ss obtain s where "advance u (mark_reached fi pc st) = Ok s" "step_state stp = s"
      by (auto simp: handler_simps)
    then show ?thesis using advance [OF r] by blast
  next
    case False
    with ss have "mapM ?f ?ws = Ok ss" by (simp del: mapM.simps)
    from mapM_Ok_set [OF this ss(2)] obtain w lock where
      "advance u (block w (BrLock lock)
        (set_waiters cv (filter (\<lambda>y. y \<noteq> (w, lock)) ?ws) (mark_reached fi pc st))) = Ok (step_state stp)"
      by auto
    then show ?thesis by (rule kept) (intro block condvar r)
  qed
qed

lemmas handled = read_shared [rotated] write_shared [rotated] atomic_load [rotated]
  atomic_store [rotated] atomic_cas [rotated] send [rotated] recv [rotated] notify_all [rotated]
  acquire [rotated] release [rotated] call [rotated] spawn [rotated] scope [rotated] join [rotated]
  goto [rotated] branch [rotated] switch [rotated] return [rotated]

lemma exec_op_keeps:
  assumes "I st" "exec_op ip x op st = Ok (ss, be)" "s \<in> set ss" "sx_tid x = t"
    and "stmt_in (it_program ip) op" "bt_get (frames (ms_store st)) (sx_fid x) = Some fr"
    and "function_of (it_program ip) (fr_function fr) = Ok (sx_function x)"
  shows "I s"
proof (cases op)
  case (AssignLocal d e)
  with assms show ?thesis using assign_local [OF assms(1) _ assms(3) _ assms(6,7), of d e]
    by (auto simp: quiet_Ok)
qed (use assms(1-3) in \<open>auto simp: quiet_Ok one_Ok elim!: kept handled lock [OF assms(4), rotated]
    unlock [OF assms(4), rotated] wait [OF assms(4), rotated]\<close>)

lemma step_thread_keeps:
  assumes "I st" "step_thread ip st t = Ok (stps, be)" "stp \<in> set stps"
  shows "I (step_state stp)"
proof -
  from assms(2) obtain fid fr fn where f: "current_frame_id st t = Some fid"
    "bt_get (frames (ms_store st)) fid = Some fr" "function_of (it_program ip) (fr_function fr) = Ok fn"
    by (auto simp: step_thread_def Let_def)
  show ?thesis
  proof (cases "fr_pc fr \<ge> length (f_body fn)")
    case True
    with assms(2,3) f obtain s where "apply_return ip t fid (fr_function fr) fn None st = Ok (Some s)"
      "step_state stp = s"
      by (auto simp: step_thread_def Let_def frame_of_def label_all_def split: option.splits)
    with apply_return_keeps [OF assms(1)] show ?thesis by blast
  next
    case False
    let ?op = "st_op (f_body fn ! fr_pc fr)"
    have r: "I (mark_reached (fr_function fr) (fr_pc fr) st)" by (rule reached_fact [OF assms(1)])
    have op: "stmt_in (it_program ip) ?op" unfolding stmt_in_def using f(3) False
      by (intro exI [of _ "fr_function fr"] exI [of _ fn] exI [of _ "fr_pc fr"]) simp
    from assms(2) f False obtain at l where at: "location_of (it_program ip) (fr_function fr) (Some (fr_pc fr)) = Ok at"
      "istep_label ip (fr_function fr) (fr_pc fr) t fid = Ok l"
      by (auto simp: step_thread_def Let_def frame_of_def)
    let ?x = "\<lparr>sx_tid = t, sx_fid = fid, sx_function_id = fr_function fr, sx_function = fn,
                       sx_pc = fr_pc fr, sx_at = at\<rparr>"
    show ?thesis
    proof (cases "\<exists>cv. ?op = CondvarNotify cv")
      case True
      then obtain cv where "?op = CondvarNotify cv" by blast
      with assms(2) f False at have "step_notify ip st t (fr_function fr) (fr_pc fr) cv = Ok stps"
        by (auto simp: step_thread_def Let_def frame_of_def)
      from notify_step [OF assms(1) this assms(3)] show ?thesis .
    next
      case ne: False
      with assms(2) f False at have "rbind (exec_op ip ?x ?op (mark_reached (fr_function fr) (fr_pc fr) st))
          (\<lambda>(ss, be). Ok (label_all l ss, be)) = Ok (stps, be)"
        by (cases ?op) (simp_all add: step_thread_def Let_def frame_of_def)
      with assms(3) obtain ss where "exec_op ip ?x ?op (mark_reached (fr_function fr) (fr_pc fr) st) = Ok (ss, be)"
        "step_state stp \<in> set ss"
        by (auto simp: label_all_def)
      then show ?thesis using exec_op_keeps [OF r _ _ _ op, of ?x] f(2,3)
        by (simp add: mark_reached_def)
    qed
  qed
qed

lemma resume_op_keeps:
  "I st \<Longrightarrow> resume_op ip t f reason st = Ok ss \<Longrightarrow> s \<in> set ss \<Longrightarrow> I s"
  by (cases reason) (auto elim!: resume_lock_keeps [rotated] resume_semaphore_keeps [rotated]
      resume_send_keeps [rotated] resume_recv_keeps [rotated])

lemma resume_thread_keeps:
  "I st \<Longrightarrow> resume_thread ip st t reason = Ok stps \<Longrightarrow> stp \<in> set stps \<Longrightarrow> I (step_state stp)"
  by (auto simp: resume_thread_def label_all_def elim!: resume_op_keeps [rotated])

lemma thread_steps_keep:
  assumes "I st" "thread_steps ip st t = Ok (stps, be)" "stp \<in> set stps"
  shows "I (step_state stp)"
proof -
  from assms(2) obtain th where "bt_get (ms_threads st) t = Some th" by (auto simp: thread_steps_def)
  with assms show ?thesis
    by (cases "th_status th") (auto simp: thread_steps_def thread_of_def
        elim!: step_thread_keeps [rotated] resume_thread_keeps [rotated])
qed

end

text \<open>The step relation of the interpreter, by the thread that steps.\<close>

definition interp_step :: "interp \<Rightarrow> thread_id \<Rightarrow> machine_state \<Rightarrow> machine_state \<Rightarrow> bool" where
  "interp_step ip t st st' \<longleftrightarrow> (case thread_steps ip st t of
      Ok (stps, be) \<Rightarrow> st' \<in> set (map step_state stps) | _ \<Rightarrow> False)"

lemma successors_thread:
  assumes "interp_successors ip st = Ok en" "x \<in> set (en_steps en)"
  shows "\<exists>t \<in> set (bt_keys (ms_threads st)). interp_step ip t st (step_state x)"
proof -
  from assms obtain rs where rs: "mapM (thread_steps ip st) (bt_keys (ms_threads st)) = Ok rs"
    "x \<in> set (concat (map fst rs))" by (auto simp: interp_successors_def)
  then obtain r where r: "r \<in> set rs" "x \<in> set (fst r)" by auto
  from mapM_Ok_set [OF rs(1) r(1)] obtain t where "t \<in> set (bt_keys (ms_threads st))"
    "thread_steps ip st t = Ok r" by blast
  moreover from this(2) r(2) have "interp_step ip t st (step_state x)"
    by (cases r) (simp add: interp_step_def)
  ultimately show ?thesis by blast
qed

lemma sys_step_thread:
  "sys_step (interp_system esc ip) st l st' \<Longrightarrow> \<exists>t. interp_step ip t st st'"
  using successors_thread [of ip st] by (fastforce simp: sys_step_iff interp_system_def)

lemma interp_reachable_induct:
  assumes "reachable (interp_system esc ip) st"
    and "\<And>s. interp_initial ip = Ok s \<Longrightarrow> P s"
    and "\<And>s s' t. P s \<Longrightarrow> interp_step ip t s s' \<Longrightarrow> P s'"
  shows "P st"
  using assms(1)
proof (induction rule: reachable.induct)
  case (reachable_init s)
  then show ?case by (simp add: interp_system_def assms(2))
next
  case (reachable_step s l s')
  with sys_step_thread obtain t where "interp_step ip t s s'" by blast
  with reachable_step.IH show ?case by (rule assms(3))
qed

lemma store_inv_step:
  assumes "store_inv ip t I" "I st" "interp_step ip t st st'"
  shows "I st'"
  using assms(2,3) store_inv.thread_steps_keep [OF assms(1)]
  by (auto simp: interp_step_def split: outc.splits)

end
