(* ===== verification/Interp_Safety.thy ===== *)
theory Interp_Safety
  imports Interp_Preserve
begin

text \<open>
  Invariants of the interpreter's data as instances of \<open>store_inv\<close>: every stored value lies in
  its declared type, permit counts and channel buffers stay within their bounds, completion
  counts saturate, the recorded facts only grow, and a mutex is only released by its owner.
\<close>

subsection \<open>Well-formed programs\<close>

text \<open>What lowering guarantees of the tables (it rejects other programs).\<close>

definition wf_slot :: "sem_slot \<Rightarrow> bool" where
  "wf_slot s \<longleftrightarrow> wf_type (s_ty s) \<and> (case s_init s of Some v \<Rightarrow> within_type v (s_ty s) | None \<Rightarrow> True)"

fun wf_op :: "sem_op \<Rightarrow> bool" where
  "wf_op (AssignLocal d e) = (case d of Local i \<Rightarrow> True | _ \<Rightarrow> False)"
| "wf_op _ = True"

definition wf_function :: "sem_function \<Rightarrow> bool" where
  "wf_function fn \<longleftrightarrow> list_all wf_slot (f_slots fn) \<and> list_all (\<lambda>s. wf_op (st_op s)) (f_body fn)"

definition wf_resource :: "sem_resource \<Rightarrow> bool" where
  "wf_resource res \<longleftrightarrow> 0 \<le> r_permits res \<and> r_permits res \<le> i64_max \<and>
     (case r_init res of Some v \<Rightarrow> (case r_ty res of Some ty \<Rightarrow> within_type v ty | None \<Rightarrow> True)
      | None \<Rightarrow> True)"

definition wf_program :: "sem_program \<Rightarrow> bool" where
  "wf_program P \<longleftrightarrow> list_all wf_function (p_functions P) \<and> list_all wf_resource (p_resources P) \<and>
     map r_id (p_resources P) = [0..<length (p_resources P)]"

lemma wf_function_of: "wf_program P \<Longrightarrow> function_of P f = Ok fn \<Longrightarrow> wf_function fn"
  by (auto simp: wf_program_def function_of_def list_all_length)

lemma wf_stmt_in: "wf_program P \<Longrightarrow> stmt_in P op \<Longrightarrow> wf_op op"
proof -
  assume "wf_program P" "stmt_in P op"
  then obtain f fn pc where "function_of P f = Ok fn" "pc < length (f_body fn)" "st_op (f_body fn ! pc) = op"
    by (auto simp: stmt_in_def)
  with wf_function_of [OF \<open>wf_program P\<close>] show ?thesis by (fastforce simp: wf_function_def list_all_length)
qed

lemma wf_resource_of:
  "wf_program P \<Longrightarrow> res \<in> set (p_resources P) \<Longrightarrow> wf_resource res \<and> resource_of P (r_id res) = Ok res"
proof -
  assume wf: "wf_program P" and "res \<in> set (p_resources P)"
  then obtain i where i: "i < length (p_resources P)" "p_resources P ! i = res"
    by (auto simp: in_set_conv_nth)
  from wf have "map r_id (p_resources P) ! i = [0..<length (p_resources P)] ! i"
    by (simp add: wf_program_def)
  with i have "r_id res = i" by simp
  with wf i show ?thesis by (auto simp: wf_program_def resource_of_def list_all_length)
qed

subsection \<open>Typed states\<close>

definition frame_ok :: "sem_program \<Rightarrow> frame \<Rightarrow> bool" where
  "frame_ok P fr \<longleftrightarrow> (\<exists>fn. function_of P (fr_function fr) = Ok fn \<and>
     (\<forall>i v. bt_get (fr_locals fr) i = Some v \<longrightarrow> i < length (f_slots fn) \<longrightarrow>
        within_type v (s_ty (f_slots fn ! i))))"

definition typed_state :: "sem_program \<Rightarrow> machine_state \<Rightarrow> bool" where
  "typed_state P st \<longleftrightarrow>
     bt.all_entries (\<lambda>f fr. frame_ok P fr) (frames (ms_store st)) \<and>
     bt.all_entries (accepts P) (vars (ms_store st)) \<and>
     bt.all_entries (accepts P) (atomics (ms_store st)) \<and>
     bt.all_entries (\<lambda>c ch. \<forall>v \<in> set (ch_buffer ch) \<union> ps_value ` set (ch_pending_send ch). accepts P c v)
       (channels (ms_store st))"

lemma bt_get_enumerate: "bt_get (enumerate n vs) i = (if n \<le> i \<and> i < n + length vs then Some (vs ! (i - n)) else None)"
  by (induction vs arbitrary: n) (auto simp: bt_get_def nth_Cons' Suc_diff_le)

lemma bt_get_fold_insert:
  "bt_get (fold (\<lambda>(i, v). bt_insert i v) kvs m) k = Some v \<Longrightarrow> (k, v) \<in> set kvs \<or> bt_get m k = Some v"
proof (induction kvs arbitrary: m)
  case (Cons p kvs)
  obtain i w where p: "p = (i, w)" by (cases p)
  from Cons.IH [of "bt_insert i w m"] Cons.prems show ?case by (auto simp: p split: if_splits)
qed simp

lemma slot_initial_within:
  "wf_slot s \<Longrightarrow> slot_initial s = Ok v \<Longrightarrow> within_type v (s_ty s)"
  using default_value_within [of "s_ty s"]
  by (auto simp: slot_initial_def wf_slot_def split: option.splits)

lemma new_frame_ok:
  assumes "wf_program P" "function_of P f = Ok fn" "mapM slot_initial (f_slots fn) = Ok vs"
    "binds_ok fn binds" "fr_function fr = f"
    "fr_locals fr = fold (\<lambda>(i, v). bt_insert i v) binds (enumerate 0 vs)"
  shows "frame_ok P fr"
proof -
  have "within_type v (s_ty (f_slots fn ! i))"
    if i: "bt_get (fr_locals fr) i = Some v" "i < length (f_slots fn)" for i v
  proof -
    from bt_get_fold_insert [OF i(1) [unfolded assms(6)]] consider
      "(i, v) \<in> set binds" | "bt_get (enumerate 0 vs) i = Some v" by auto
    then show ?thesis
    proof cases
      case 1
      with assms(4) show ?thesis by (auto simp: binds_ok_def)
    next
      case 2
      then have "i < length vs" "vs ! i = v" by (auto simp: bt_get_enumerate split: if_splits)
      with assms(3) have "slot_initial (f_slots fn ! i) = Ok v"
        by (auto simp: mapM_Ok_list_all2 list_all2_conv_all_nth)
      moreover have "wf_slot (f_slots fn ! i)"
        using wf_function_of [OF assms(1,2)] i(2) by (simp add: wf_function_def list_all_length)
      ultimately show ?thesis by (rule slot_initial_within [rotated])
    qed
  qed
  with assms(2,5) show ?thesis by (auto simp: frame_ok_def)
qed

lemma typed_write_frame:
  "typed_state P st \<Longrightarrow> frame_ok P fr \<Longrightarrow> typed_state P (upd_store (write_frame f fr) st)"
  by (auto simp: typed_state_def upd_store_def write_frame_def bt.all_entries_def)

lemma typed_shared:
  "typed_state P st \<Longrightarrow> accepts P r v \<Longrightarrow> typed_state P (upd_store (write_shared r v) st)"
  by (auto simp: typed_state_def upd_store_def write_shared_def bt.all_entries_def)

lemma typed_write_dst:
  assumes "typed_state (it_program ip) st" "dst_type_ok ip st f d v = Ok True" "write_dst f d v st = Ok st'"
  shows "typed_state (it_program ip) st'"
proof (cases d)
  case (Local i)
  with assms obtain fr fn where fr: "bt_get (frames (ms_store st)) f = Some fr"
    "function_of (it_program ip) (fr_function fr) = Ok fn"
    "i < length (f_slots fn) \<Longrightarrow> within_type v (s_ty (f_slots fn ! i))"
    and st': "st' = upd_store (write_frame f (fr\<lparr>fr_locals := bt_insert i v (fr_locals fr)\<rparr>)) st"
    by (auto simp: modify_frame_Ok split: option.splits)
  have "frame_ok (it_program ip) fr"
    using assms(1) fr(1) by (auto simp: typed_state_def bt.all_entries_def)
  with fr(2,3) have "frame_ok (it_program ip) (fr\<lparr>fr_locals := bt_insert i v (fr_locals fr)\<rparr>)"
    by (auto simp: frame_ok_def)
  with assms(1) st' show ?thesis by (simp add: typed_write_frame)
next
  case (Shared r)
  with assms show ?thesis by (auto simp: accepts_def intro: typed_shared)
next
  case Discard
  with assms show ?thesis by simp
qed

lemmas store_updates = upd_store_def write_frame_def set_chan_def set_var_def set_atomic_def set_mutex_def
  set_permits_def set_waiters_def mark_reached_def record_completion_def Let_def

lemma typed_frame_of: "typed_state P st \<Longrightarrow> bt_get (frames (ms_store st)) f = Some fr \<Longrightarrow> frame_ok P fr"
  by (auto simp: typed_state_def bt.all_entries_def)

lemma frame_ok_same:
  "frame_ok P fr \<Longrightarrow> fr_locals fr' = fr_locals fr \<Longrightarrow> fr_function fr' = fr_function fr \<Longrightarrow> frame_ok P fr'"
  by (simp add: frame_ok_def)

lemma typed_assign:
  assumes "wf_program (it_program ip)" "typed_state (it_program ip) st"
    and "stmt_in (it_program ip) (AssignLocal d e)"
    and "\<And>i. d = Local i \<Longrightarrow> dst_type_ok ip st f d v = Ok True" "write_dst f d v st = Ok st'"
  shows "typed_state (it_program ip) st'"
proof -
  from wf_stmt_in [OF assms(1,3)] obtain i where "d = Local i" by (cases d) auto
  from typed_write_dst [OF assms(2) assms(4) [OF this] assms(5)] show ?thesis .
qed

lemma typed_chan:
  "typed_state P st \<Longrightarrow> (\<And>v. v \<in> set (ch_buffer ch) \<union> ps_value ` set (ch_pending_send ch) \<Longrightarrow> accepts P c v) \<Longrightarrow>
    typed_state P (set_chan c ch st)"
  by (auto simp: typed_state_def bt.all_entries_def set_chan_def upd_store_def)

lemma typed_buffer:
  "typed_state P st \<Longrightarrow> chan_of st c = Some ch \<Longrightarrow> v \<in> set (ch_buffer ch) \<Longrightarrow> accepts P c v"
  by (auto simp: typed_state_def bt.all_entries_def chan_of_def)

lemma typed_pending:
  "typed_state P st \<Longrightarrow> chan_of st c = Some ch \<Longrightarrow> p \<in> set (ch_pending_send ch) \<Longrightarrow> accepts P c (ps_value p)"
  by (auto simp: typed_state_def bt.all_entries_def chan_of_def)

lemmas typed_channel = typed_buffer typed_pending

interpretation typed: store_inv ip t "\<lambda>st. wf_program (it_program ip) \<longrightarrow> typed_state (it_program ip) st" for ip t
proof (unfold_locales, goal_cases)
  case (2 st f fr fr')
  then show ?case by (auto intro!: typed_write_frame intro: frame_ok_same typed_frame_of)
next
  case (3 st fi fn vs binds fr' f)
  then show ?case by (auto intro: typed_write_frame new_frame_ok)
next
  case (5 st f d v st')
  then show ?case by (blast intro: typed_write_dst)
next
  case (6 st d e f v st')
  then show ?case by (blast intro: typed_assign)
next
  case (11 st c ch v u)
  then show ?case by (auto intro!: typed_chan simp: push_send_def intro: typed_channel)
next
  case (12 st c ch ch')
  then show ?case by (auto intro!: typed_chan simp: channel_shrinks_def intro: typed_channel)
next
  case (13 st c ch res v)
  then show ?case by (auto intro!: typed_chan simp: push_buffer_def intro: typed_channel)
next
  case (14 st c ch res i)
  then show ?case
    by (auto intro!: typed_chan simp: push_buffer_def remove_send_def remove_nth_def)
      (blast intro: typed_channel nth_mem dest: in_set_takeD in_set_dropD)+
qed (auto simp: typed_state_def bt.all_entries_def store_updates split: option.splits)

section \<open>Resources\<close>

text \<open>
  Invariants of the synchronisation objects and of the recorded facts, as further instances of
  \<open>store_inv\<close>: permits and buffers within their bounds, saturated completion counts, facts that
  only grow, and the transitions of a mutex within one step of one thread.
\<close>

subsection \<open>Semaphores and channels\<close>

definition permits_ok :: "machine_state \<Rightarrow> bool" where
  "permits_ok st \<longleftrightarrow> bt.all_entries (\<lambda>r n. 0 \<le> n \<and> n \<le> i64_max) (semaphores (ms_store st)) \<and>
     bt.all_entries (\<lambda>r q. \<forall>p \<in> set q. 0 < snd p) (ms_sem_waiters st)"

definition buffers_ok :: "sem_program \<Rightarrow> machine_state \<Rightarrow> bool" where
  "buffers_ok P st \<longleftrightarrow> bt.all_entries (\<lambda>c ch. \<forall>res. resource_of P c = Ok res \<longrightarrow>
     length (ch_buffer ch) \<le> r_capacity res) (channels (ms_store st))"

lemma permits_of_bounds: "permits_ok st \<Longrightarrow> 0 \<le> permits_of st r \<and> permits_of st r \<le> i64_max"
  by (auto simp: permits_ok_def permits_of_def bt.all_entries_def i64_max_def split: option.splits)

lemma permits_set: "permits_ok st \<Longrightarrow> 0 \<le> n \<Longrightarrow> n \<le> i64_max \<Longrightarrow> permits_ok (set_permits r n st)"
  by (auto simp: permits_ok_def set_permits_def upd_store_def bt.all_entries_def)

interpretation permits: store_inv ip t "permits_ok" for ip t
proof (unfold_locales, goal_cases)
  case (5 st f d v st')
  then show ?case
    by (cases d) (auto simp: permits_ok_def store_updates write_shared_def modify_frame_Ok)
next
  case (6 st d e f v st')
  then show ?case
    by (cases d) (auto simp: permits_ok_def store_updates write_shared_def modify_frame_Ok)
next
  case (16 st n r)
  with permits_of_bounds [of st r] show ?case by (auto intro!: permits_set)
next
  case (17 st n r m)
  with permits_of_bounds [of st r] show ?case
    by (auto intro!: permits_set simp: checked_add_def checked_i64_def in_i64_def split: if_splits)
next
  case (18 st r q u n)
  then have "0 < n" by (fastforce simp: permits_ok_def bt.all_entries_def)
  with 18 permits_of_bounds [of st r] show ?case by (auto intro!: permits_set)
next
  case (19 st n r u)
  then show ?case
    by (cases "bt_get (ms_sem_waiters st) r") (fastforce simp: permits_ok_def bt.all_entries_def)+
next
  case (20 st r u)
  then show ?case by (fastforce simp: permits_ok_def bt.all_entries_def)
qed (auto simp: permits_ok_def bt.all_entries_def store_updates split: option.splits if_splits)

interpretation buffers: store_inv ip t "buffers_ok (it_program ip)" for ip t
proof (unfold_locales, goal_cases)
  case (5 st f d v st')
  then show ?case
    by (cases d) (auto simp: buffers_ok_def store_updates write_shared_def modify_frame_Ok)
next
  case (6 st d e f v st')
  then show ?case
    by (cases d) (auto simp: buffers_ok_def store_updates write_shared_def modify_frame_Ok)
qed (auto simp: buffers_ok_def bt.all_entries_def store_updates chan_of_def push_send_def push_buffer_def
    remove_send_def channel_shrinks_def split: option.splits if_splits intro: le_trans)

subsection \<open>Completion counts\<close>

definition completions_ok :: "interp \<Rightarrow> machine_state \<Rightarrow> bool" where
  "completions_ok ip st \<longleftrightarrow> bt.all_entries (\<lambda>f n. 0 < n \<and> n \<le> max_for (it_monitor ip) f)
     (ms_completed_functions st)"

interpretation completions: store_inv ip t "completions_ok ip" for ip t
proof (unfold_locales, goal_cases)
  case (5 st f d v st')
  then show ?case
    by (cases d) (auto simp: completions_ok_def store_updates modify_frame_Ok)
next
  case (6 st d e f v st')
  then show ?case
    by (cases d) (auto simp: completions_ok_def store_updates modify_frame_Ok)
qed (auto simp: completions_ok_def bt.all_entries_def store_updates split: option.splits if_splits
    intro: le_antisym)

subsection \<open>Facts only grow\<close>

definition facts_grow :: "machine_state \<Rightarrow> machine_state \<Rightarrow> bool" where
  "facts_grow st0 st \<longleftrightarrow> (\<forall>f. completed_count st0 f \<le> completed_count st f) \<and>
     set (ms_reached st0) \<subseteq> set (ms_reached st) \<and>
     set (ms_completed_scopes st0) \<subseteq> set (ms_completed_scopes st)"

interpretation facts: store_inv ip t "facts_grow st0" for ip t st0
proof (unfold_locales, goal_cases)
  case (5 st f d v st')
  then show ?case
    by (cases d) (auto simp: facts_grow_def completed_count_def store_updates modify_frame_Ok)
next
  case (6 st d e f v st')
  then show ?case
    by (cases d) (auto simp: facts_grow_def completed_count_def store_updates modify_frame_Ok)
next
  case (21 st fi)
  have "completed_count st f \<le> completed_count (record_completion ip fi st) f" for f
    by (simp add: completed_count_def store_updates split: option.splits)
  with 21 show ?case by (auto simp: facts_grow_def store_updates split: if_splits intro: le_trans)
qed (auto simp: facts_grow_def completed_count_def store_updates)

subsection \<open>Mutexes\<close>

text \<open>What a step of thread \<open>t\<close> may do to a mutex: take it when it is free, or give back its own.\<close>

definition mutex_move :: "thread_id \<Rightarrow> mutex_state option \<Rightarrow> mutex_state option \<Rightarrow> bool" where
  "mutex_move t m m' \<longleftrightarrow> m' = m \<or> m = Some Free \<and> m' = Some (Held t) \<or> m = Some (Held t) \<and> m' = Some Free"

definition mutexes_move :: "thread_id \<Rightarrow> machine_state \<Rightarrow> machine_state \<Rightarrow> bool" where
  "mutexes_move t st0 st \<longleftrightarrow>
     (\<forall>r. mutex_move t (bt_get (mutexes (ms_store st0)) r) (bt_get (mutexes (ms_store st)) r))"

lemma mutex_move_take: "mutex_move t m m' \<Longrightarrow> m' = Some Free \<Longrightarrow> mutex_move t m (Some (Held t))"
  by (auto simp: mutex_move_def)

lemma mutex_move_give: "mutex_move t m m' \<Longrightarrow> m' = Some (Held t) \<Longrightarrow> mutex_move t m (Some Free)"
  by (auto simp: mutex_move_def)

interpretation mutexes: store_inv ip t "mutexes_move t st0" for ip t st0
proof (unfold_locales, goal_cases)
  case (5 st f d v st')
  then show ?case
    by (cases d) (auto simp: mutexes_move_def store_updates write_shared_def modify_frame_Ok)
next
  case (6 st d e f v st')
  then show ?case
    by (cases d) (auto simp: mutexes_move_def store_updates write_shared_def modify_frame_Ok)
next
  case (9 st r)
  then show ?case by (auto simp: mutexes_move_def store_updates intro: mutex_move_take)
next
  case (10 st r)
  then show ?case by (auto simp: mutexes_move_def store_updates intro: mutex_move_give)
qed (auto simp: mutexes_move_def store_updates)

end
