(* ===== verification/Interp_Initial.thy ===== *)
theory Interp_Initial
  imports Interp_Safety
begin

text \<open>The invariants hold initially, hence in every reachable state.\<close>

lemma init_resources_induct:
  assumes "\<And>r s. r \<in> set rs \<Longrightarrow> P s \<Longrightarrow> P (init_resource r s)" "P s"
  shows "P (fold init_resource rs s)"
  using assms by (induction rs arbitrary: s) auto

lemma init_resource_frames [simp]: "frames (init_resource r s) = frames s"
  by (auto simp: init_resource_def split: res_kind.splits option.splits)

text \<open>Everything the initial state holds besides the resources.\<close>

lemma interp_initial_cases:
  assumes "interp_initial ip = Ok st"
  obtains fn where "function_of (it_program ip) (p_entry (it_program ip)) = Ok fn"
    "is_transparent_nobody fn" "ms_store st = init_resources (it_program ip) store_default"
    "ms_sem_waiters st = []"
    "ms_completed_functions st =
      (if max_for (it_monitor ip) (p_entry (it_program ip)) = 0 then [] else [(p_entry (it_program ip), 1)])"
  | fn vs fr where "function_of (it_program ip) (p_entry (it_program ip)) = Ok fn"
    "mapM slot_initial (f_slots fn) = Ok vs" "fr_function fr = p_entry (it_program ip)"
    "fr_locals fr = enumerate 0 vs"
    "ms_store st = write_frame (fr_id fr) fr (init_resources (it_program ip) store_default)"
    "ms_sem_waiters st = []" "ms_completed_functions st = []"
proof -
  let ?P = "it_program ip"
  from assms obtain s where s: "initial_state ?P = Ok s" and st: "st =
      (if max_for (it_monitor ip) (p_entry ?P) = 0
       then s\<lparr>ms_completed_functions := bt_remove (p_entry ?P) (ms_completed_functions s)\<rparr> else s)"
    by (auto simp: interp_initial_def)
  from s obtain fn where fn: "function_of ?P (p_entry ?P) = Ok fn"
    by (auto simp: initial_state_def Let_def)
  show thesis
  proof (cases "is_transparent_nobody fn")
    case True
    with s fn st that(1) [OF fn True] show thesis
      by (auto simp: initial_state_def Let_def upd_store_def empty_state_def bt_remove_def)
  next
    case False
    with s fn obtain vs where vs: "mapM slot_initial (f_slots fn) = Ok vs" and
      s': "ms_store s = write_frame 0 \<lparr>fr_id = 0, fr_function = p_entry ?P, fr_pc = 0,
          fr_locals = enumerate 0 vs, fr_handles = [], fr_ret = None\<rparr> (init_resources ?P store_default)"
      "ms_sem_waiters s = []" "ms_completed_functions s = []"
      by (auto simp: initial_state_def Let_def upd_store_def empty_state_def alloc_frame_def)
    show thesis by (rule that(2) [OF fn vs, of "\<lparr>fr_id = 0, fr_function = p_entry ?P, fr_pc = 0,
          fr_locals = enumerate 0 vs, fr_handles = [], fr_ret = None\<rparr>"])
      (use st s' in \<open>simp_all add: bt_remove_def\<close>)
  qed
qed

lemma init_resource_typed:
  assumes "wf_program P" "res \<in> set (p_resources P)"
    and "bt.all_entries (accepts P) (vars s)" "bt.all_entries (accepts P) (atomics s)"
  shows "bt.all_entries (accepts P) (vars (init_resource res s)) \<and>
    bt.all_entries (accepts P) (atomics (init_resource res s))"
proof -
  have "accepts P (r_id res) v" if "r_init res = Some v" for v
    using wf_resource_of [OF assms(1,2)] that
    by (auto simp: accepts_def wf_resource_def split: option.splits)
  with assms(3,4) show ?thesis
    by (auto simp: init_resource_def bt.all_entries_def split: res_kind.splits option.splits)
qed

definition fresh_channels :: "store \<Rightarrow> bool" where
  "fresh_channels s \<longleftrightarrow> bt.all_entries (\<lambda>c ch. ch = channel_default) (channels s)"

lemma init_resources_fresh: "fresh_channels (init_resources P store_default)"
  unfolding init_resources_def
  by (rule init_resources_induct)
    (auto simp: fresh_channels_def bt.all_entries_def init_resource_def store_default_def
      split: res_kind.splits option.splits)

lemma fresh_channelsD:
  "fresh_channels s \<Longrightarrow> bt_get (channels s) c = Some ch \<Longrightarrow> ch_buffer ch = [] \<and> ch_pending_send ch = []"
proof -
  assume "fresh_channels s" "bt_get (channels s) c = Some ch"
  then have "ch = channel_default" by (simp add: fresh_channels_def bt.all_entries_def)
  then show ?thesis by (simp add: channel_default_def)
qed

lemma init_resources_permits:
  assumes "wf_program P"
  shows "bt.all_entries (\<lambda>r n. 0 \<le> n \<and> n \<le> i64_max) (semaphores (init_resources P store_default))"
  unfolding init_resources_def
  by (rule init_resources_induct)
    (use assms in \<open>auto simp: bt.all_entries_def init_resource_def store_default_def wf_program_def
      list_all_iff wf_resource_def split: res_kind.splits option.splits\<close>)

lemma init_resources_typed:
  assumes "wf_program P"
  shows "bt.all_entries (accepts P) (vars (init_resources P store_default)) \<and>
    bt.all_entries (accepts P) (atomics (init_resources P store_default))"
  unfolding init_resources_def
  by (rule init_resources_induct)
    (use init_resource_typed [OF assms] in \<open>auto simp: store_default_def bt.all_empty\<close>)

lemma init_resources_no_frames: "frames (init_resources P store_default) = []"
proof -
  have "frames (fold init_resource rs s) = frames s" for rs s
    by (induction rs arbitrary: s) auto
  then show ?thesis by (simp add: init_resources_def store_default_def)
qed

lemma initial_typed:
  assumes "interp_initial ip = Ok st" "wf_program (it_program ip)"
  shows "typed_state (it_program ip) st"
  using assms(1)
proof (cases rule: interp_initial_cases)
  case (1 fn)
  with init_resources_fresh [of "it_program ip"] init_resources_typed [OF assms(2)]
  show ?thesis
    by (auto simp: typed_state_def bt.all_entries_def init_resources_no_frames dest: fresh_channelsD)
next
  case (2 fn vs fr)
  have "frame_ok (it_program ip) fr"
    by (rule new_frame_ok [OF assms(2) 2(1,2), of "[]"]) (use 2 in \<open>simp_all add: binds_ok_def\<close>)
  with 2 init_resources_fresh [of "it_program ip"] init_resources_typed [OF assms(2)]
  show ?thesis
    by (auto simp: typed_state_def bt.all_entries_def init_resources_no_frames write_frame_def
        bt_get_def split: if_splits dest: fresh_channelsD)
qed

lemma initial_permits:
  assumes "interp_initial ip = Ok st" "wf_program (it_program ip)"
  shows "permits_ok st"
  using assms(1) init_resources_permits [OF assms(2)]
  by (cases rule: interp_initial_cases) (auto simp: permits_ok_def write_frame_def bt.all_entries_def)

lemma initial_buffers:
  assumes "interp_initial ip = Ok st"
  shows "buffers_ok (it_program ip) st"
  using assms init_resources_fresh [of "it_program ip"]
  by (cases rule: interp_initial_cases)
    (auto simp: buffers_ok_def write_frame_def bt.all_entries_def dest: fresh_channelsD)

lemma initial_completions:
  assumes "interp_initial ip = Ok st"
  shows "completions_ok ip st"
  using assms
  by (cases rule: interp_initial_cases)
    (auto simp: completions_ok_def bt.all_entries_def bt_get_def split: if_splits)

text \<open>An instance of \<open>store_inv\<close> for every thread that holds initially holds of every reachable state.\<close>

lemma reachable_inv:
  assumes "reachable (interp_system esc ip) st" "\<And>t. store_inv ip t I"
    and "\<And>s. interp_initial ip = Ok s \<Longrightarrow> I s"
  shows "I st"
  using assms(1)
  by (rule interp_reachable_induct) (use assms(2,3) store_inv_step in blast)+

lemma reachable_typed_inv:
  "reachable (interp_system esc ip) st \<Longrightarrow> wf_program (it_program ip) \<Longrightarrow> typed_state (it_program ip) st"
  using reachable_inv [OF _ typed.store_inv_axioms] initial_typed by blast

lemma reachable_permits_inv:
  "reachable (interp_system esc ip) st \<Longrightarrow> wf_program (it_program ip) \<Longrightarrow> permits_ok st"
  using reachable_inv [OF _ permits.store_inv_axioms] initial_permits by blast

lemma reachable_buffers_inv:
  "reachable (interp_system esc ip) st \<Longrightarrow> buffers_ok (it_program ip) st"
  using reachable_inv [OF _ buffers.store_inv_axioms] initial_buffers by blast

lemma reachable_completions_inv:
  "reachable (interp_system esc ip) st \<Longrightarrow> completions_ok ip st"
  using reachable_inv [OF _ completions.store_inv_axioms] initial_completions by blast

end
