(* ===== verification/Ast.thy ===== *)
theory Ast
  imports Sem_Value Fqn Cir_Prelude
begin

text \<open>
  The syntax tree of a program (\<open>src/src/ast.rs\<close>): modules with their resources, named types,
  functions and statements, and the queries the validators and the lowering ask of it. Literals are
  JSON values of the third-party type \<open>'j\<close>. Expressions are still the text of the source.
\<close>

subsection \<open>Names a module offers and uses\<close>

record name_set =
  ns_resources :: "string list"
  ns_functions :: "string list"
  ns_types :: "string list"

record param_decl =
  pd_name :: string
  pd_type :: base_type
  pd_modeled :: bool

record lock_effects =
  le_acquires :: "string list"
  le_releases :: "string list"
  le_requires_held :: "string list"

definition lock_effects_is_empty :: "lock_effects \<Rightarrow> bool" where
  "lock_effects_is_empty l \<longleftrightarrow> le_acquires l = [] \<and> le_releases l = [] \<and> le_requires_held l = []"

record function_sig =
  sg_name :: string
  sg_kind :: "string option"
  sg_may_block :: "bool option"
  sg_locks :: lock_effects
  sg_params :: "param_decl list"
  sg_returns :: "param_decl option"

datatype required_function = RName string | RSig function_sig

fun required_name :: "required_function \<Rightarrow> string" where
  "required_name (RName n) = n"
| "required_name (RSig sg) = sg_name sg"

fun required_sig :: "required_function \<Rightarrow> function_sig option" where
  "required_sig (RSig sg) = Some sg"
| "required_sig (RName _) = None"

record require_set =
  rq_resources :: "string list"
  rq_functions :: "required_function list"
  rq_types :: "string list"

definition function_names :: "require_set \<Rightarrow> string list" where
  "function_names q = map required_name (rq_functions q)"

text \<open>\<open>find_map\<close>: the first entry the function maps to a value.\<close>

fun find_map :: "('a \<Rightarrow> 'b option) \<Rightarrow> 'a list \<Rightarrow> 'b option" where
  "find_map f [] = None"
| "find_map f (x # xs) = (case f x of Some y \<Rightarrow> Some y | None \<Rightarrow> find_map f xs)"

lemma find_map_cong [fundef_cong]:
  "xs = ys \<Longrightarrow> (\<And>x. x \<in> set ys \<Longrightarrow> f x = g x) \<Longrightarrow> find_map f xs = find_map g ys"
  by (induction ys arbitrary: xs) (auto split: option.splits)

lemma find_map_Some: "find_map f xs = Some y \<Longrightarrow> \<exists>x\<in>set xs. f x = Some y"
  by (induction xs) (auto split: option.splits)

lemma find_map_None: "find_map f xs = None \<longleftrightarrow> (\<forall>x\<in>set xs. f x = None)"
  by (induction xs) (auto split: option.splits)

definition function_sig_of :: "require_set \<Rightarrow> string \<Rightarrow> function_sig option" where
  "function_sig_of q n = find_map (\<lambda>r. case r of
      RSig sg \<Rightarrow> if sg_name sg = n then Some sg else None | RName _ \<Rightarrow> None) (rq_functions q)"

subsection \<open>Declarations\<close>

record type_def =
  td_name :: string
  td_ty :: base_type

record 'j resource_decl =
  rc_name :: string
  rc_kind :: string
  rc_type :: string
  rc_mode :: "string option"
  rc_count :: "int option"
  rc_base :: "base_type option"
  rc_init :: "'j option"
  rc_capacity :: "int option"

record protection_decl =
  po_var :: string
  po_lock :: string

record 'j local_decl =
  ld_name :: string
  ld_type :: base_type
  ld_modeled :: bool
  ld_init :: "'j option"

record function_effects =
  fe_reads :: "string list"
  fe_writes :: "string list"

subsection \<open>Statements\<close>

datatype select_guard =
    GChannelRecv string string
  | GCondvarWait string string
  | GSemaphoreAcquire string

record select_branch =
  sb_guard :: select_guard
  sb_target :: string

datatype op =
    ANop
  | AAssignLocal string string
  | AReadShared string "string option"
  | AWriteShared string string
  | AAbstractStep "string list" "string list" string
  | ASeqHole string string "string list" "string list"
  | AAtomicLoad string string
  | AAtomicStore string string
  | AAtomicCas string string string string
  | AMutexLock string
  | AMutexUnlock string
  | ARwLockRead string
  | ARwLockWrite string
  | ARwLockUnlock string
  | AChannelSend string string
  | AChannelRecv string string
  | ACondvarWait string string
  | ACondvarNotify string
  | ACondvarNotifyAll string
  | ASemaphoreAcquire string "int option"
  | ASemaphoreRelease string "int option"
  | AFunc string "string list" "string option"
  | ASpawn string "string list" string
  | AScope "string list"
  | AJoin string
  | AAsyncCall string "string list" string
  | AAwait string
  | AGoto string
  | ABranch string string string
  | ASwitch string "(string, string) btree" string
  | AReturn "string option"
  | ASelect "select_branch list" "string option"

record stmt =
  sm_sid :: string
  sm_op :: op

record 'j function_decl =
  fd_name :: string
  fd_kind :: string
  fd_form :: string
  fd_params :: "param_decl list"
  fd_returns :: "param_decl option"
  fd_locals :: "'j local_decl list"
  fd_body :: "stmt list"
  fd_effects :: "function_effects option"
  fd_may_block :: "bool option"
  fd_locks :: lock_effects
  fd_bound :: "int option"

record 'j module_decl =
  md_name :: string
  md_provides :: name_set
  md_requires :: require_set
  md_types :: "type_def list"
  md_resources :: "'j resource_decl list"
  md_protection :: "protection_decl list"
  md_functions :: "'j function_decl list"

record 'j program_decl =
  pg_program :: string
  pg_version :: string
  pg_modules :: "'j module_decl list"
  pg_entry :: string

subsection \<open>Lookups\<close>

definition lookup_module_decl :: "'j program_decl \<Rightarrow> string \<Rightarrow> 'j module_decl option" where
  "lookup_module_decl p n = find (\<lambda>m. md_name m = n) (pg_modules p)"

text \<open>A short name is looked up in the module it is used in, a qualified one in its module.\<close>

definition name_parts :: "string \<Rightarrow> string \<Rightarrow> string \<times> string" where
  "name_parts from_module n = (case split_fqn n of Some pair \<Rightarrow> pair | None \<Rightarrow> (from_module, n))"

definition lookup_function_decl ::
  "'j program_decl \<Rightarrow> string \<Rightarrow> string \<Rightarrow> ('j module_decl \<times> 'j function_decl) option" where
  "lookup_function_decl p from_module n = (case name_parts from_module n of (m, e) \<Rightarrow>
     Option.bind (lookup_module_decl p m) (\<lambda>md.
       map_option (\<lambda>f. (md, f)) (find (\<lambda>f. fd_name f = e) (md_functions md))))"

definition lookup_type_decl ::
  "'j program_decl \<Rightarrow> string \<Rightarrow> string \<Rightarrow> ('j module_decl \<times> type_def) option" where
  "lookup_type_decl p from_module n = (case name_parts from_module n of (m, e) \<Rightarrow>
     Option.bind (lookup_module_decl p m) (\<lambda>md.
       map_option (\<lambda>t. (md, t)) (find (\<lambda>t. td_name t = e) (md_types md))))"

definition lookup_resource_decl ::
  "'j program_decl \<Rightarrow> string \<Rightarrow> string \<Rightarrow> ('j module_decl \<times> 'j resource_decl) option" where
  "lookup_resource_decl p from_module n = (case name_parts from_module n of (m, e) \<Rightarrow>
     Option.bind (lookup_module_decl p m) (\<lambda>md.
       map_option (\<lambda>r. (md, r)) (find (\<lambda>r. rc_name r = e) (md_resources md))))"

definition stmt_location :: "'j module_decl \<Rightarrow> 'j function_decl \<Rightarrow> stmt \<Rightarrow> string" where
  "stmt_location m f s = location (md_name m) (fd_name f) (sm_sid s)"

definition fn_location :: "'j module_decl \<Rightarrow> 'j function_decl \<Rightarrow> string" where
  "fn_location m f = fqn (md_name m) (fd_name f)"

subsection \<open>Queries on operations\<close>

fun is_control_op :: "op \<Rightarrow> bool" where
  "is_control_op (AGoto _) = True"
| "is_control_op (ABranch _ _ _) = True"
| "is_control_op (ASwitch _ _ _) = True"
| "is_control_op (AReturn _) = True"
| "is_control_op (ASelect _ _) = True"
| "is_control_op _ = False"

definition is_control :: "stmt \<Rightarrow> bool" where
  "is_control s = is_control_op (sm_op s)"

definition is_return :: "stmt \<Rightarrow> bool" where
  "is_return s = (case sm_op s of AReturn _ \<Rightarrow> True | _ \<Rightarrow> False)"

text \<open>The named successors of a statement, or the next statement's sid on fallthrough.\<close>

definition stmt_successors :: "stmt \<Rightarrow> stmt option \<Rightarrow> string list" where
  "stmt_successors s nxt = (case sm_op s of
      AGoto t \<Rightarrow> [t]
    | ABranch _ t e \<Rightarrow> [t, e]
    | ASwitch _ cases d \<Rightarrow> bt_values cases @ [d]
    | AReturn _ \<Rightarrow> []
    | ASelect branches d \<Rightarrow> map sb_target branches @ (case d of Some d \<Rightarrow> [d] | None \<Rightarrow> [])
    | _ \<Rightarrow> (case nxt of Some n \<Rightarrow> [sm_sid n] | None \<Rightarrow> []))"

definition fn_successors :: "'j function_decl \<Rightarrow> nat \<Rightarrow> string list backend_result" where
  "fn_successors f i = rbind (index (fd_body f) i) (\<lambda>s.
     Ok (stmt_successors s (nth_opt (fd_body f) (Suc i))))"

fun shared_var_access :: "op \<Rightarrow> (string \<times> bool) option" where
  "shared_var_access (AReadShared r _) = Some (r, False)"
| "shared_var_access (AWriteShared r _) = Some (r, True)"
| "shared_var_access _ = None"

fun rvalue_exprs :: "op \<Rightarrow> string list" where
  "rvalue_exprs (AAssignLocal _ e) = [e]"
| "rvalue_exprs (AWriteShared _ e) = [e]"
| "rvalue_exprs (AAtomicStore _ v) = [v]"
| "rvalue_exprs (AChannelSend _ v) = [v]"
| "rvalue_exprs (AAtomicCas _ e d _) = [e, d]"
| "rvalue_exprs (AFunc _ args _) = args"
| "rvalue_exprs (ASpawn _ args _) = args"
| "rvalue_exprs (AAsyncCall _ args _) = args"
| "rvalue_exprs (AReturn (Some v)) = [v]"
| "rvalue_exprs (ABranch c _ _) = [c]"
| "rvalue_exprs _ = []"

fun callee_funcs :: "op \<Rightarrow> string list" where
  "callee_funcs (AFunc f _ _) = [f]"
| "callee_funcs (ASpawn f _ _) = [f]"
| "callee_funcs (AAsyncCall f _ _) = [f]"
| "callee_funcs (AScope fs) = fs"
| "callee_funcs _ = []"

fun op_resource_name :: "op \<Rightarrow> string option" where
  "op_resource_name (AMutexLock r) = Some r"
| "op_resource_name (AMutexUnlock r) = Some r"
| "op_resource_name (ARwLockRead r) = Some r"
| "op_resource_name (ARwLockWrite r) = Some r"
| "op_resource_name (ARwLockUnlock r) = Some r"
| "op_resource_name (ASemaphoreAcquire r _) = Some r"
| "op_resource_name (ASemaphoreRelease r _) = Some r"
| "op_resource_name (AAtomicLoad r _) = Some r"
| "op_resource_name (AAtomicStore r _) = Some r"
| "op_resource_name (AAtomicCas r _ _ _) = Some r"
| "op_resource_name (AChannelSend c _) = Some c"
| "op_resource_name (AChannelRecv c _) = Some c"
| "op_resource_name (ACondvarWait c _) = Some c"
| "op_resource_name (ACondvarNotify c) = Some c"
| "op_resource_name (ACondvarNotifyAll c) = Some c"
| "op_resource_name (AReadShared r _) = Some r"
| "op_resource_name (AWriteShared r _) = Some r"
| "op_resource_name _ = None"

fun footprint :: "op \<Rightarrow> (string list \<times> string list) option" where
  "footprint (AAbstractStep rs ws _) = Some (rs, ws)"
| "footprint (ASeqHole _ _ rs ws) = Some (rs, ws)"
| "footprint _ = None"

fun is_lock_acquire :: "op \<Rightarrow> string option" where
  "is_lock_acquire (AMutexLock r) = Some r"
| "is_lock_acquire (ARwLockRead r) = Some r"
| "is_lock_acquire (ARwLockWrite r) = Some r"
| "is_lock_acquire _ = None"

fun is_lock_release :: "op \<Rightarrow> string option" where
  "is_lock_release (AMutexUnlock r) = Some r"
| "is_lock_release (ARwLockUnlock r) = Some r"
| "is_lock_release _ = None"

fun is_await_like :: "op \<Rightarrow> bool" where
  "is_await_like (AAwait _) = True"
| "is_await_like _ = False"

fun is_blocking :: "op \<Rightarrow> bool" where
  "is_blocking (AAwait _) = True"
| "is_blocking (AJoin _) = True"
| "is_blocking (AScope _) = True"
| "is_blocking (AChannelSend _ _) = True"
| "is_blocking (AChannelRecv _ _) = True"
| "is_blocking (AMutexLock _) = True"
| "is_blocking (ARwLockRead _) = True"
| "is_blocking (ARwLockWrite _) = True"
| "is_blocking (ASemaphoreAcquire _ _) = True"
| "is_blocking (ACondvarWait _ _) = True"
| "is_blocking (ASelect _ _) = True"
| "is_blocking _ = False"

fun guard_resource_name :: "select_guard \<Rightarrow> string" where
  "guard_resource_name (GChannelRecv c _) = c"
| "guard_resource_name (GCondvarWait c _) = c"
| "guard_resource_name (GSemaphoreAcquire r) = r"

subsection \<open>Queries on functions\<close>

definition is_async :: "'j function_decl \<Rightarrow> bool" where
  "is_async f \<longleftrightarrow> fd_kind f = ''async''"

definition is_closure :: "'j function_decl \<Rightarrow> bool" where
  "is_closure f \<longleftrightarrow> fd_form f = ''closure''"

definition body_may_block :: "'j function_decl \<Rightarrow> bool" where
  "body_may_block f = list_ex (\<lambda>s. is_blocking (sm_op s)) (fd_body f)"

definition effective_may_block :: "'j function_decl \<Rightarrow> bool option" where
  "effective_may_block f =
    (if fd_may_block f \<noteq> None then fd_may_block f
     else if fd_body f = [] then None else Some (body_may_block f))"

definition to_sig :: "'j function_decl \<Rightarrow> string \<Rightarrow> function_sig" where
  "to_sig f n = \<lparr>sg_name = n, sg_kind = Some (fd_kind f), sg_may_block = effective_may_block f,
     sg_locks = fd_locks f, sg_params = fd_params f, sg_returns = fd_returns f\<rparr>"

section \<open>Diagnostics\<close>

text \<open>
  Static diagnostics (\<open>src/src/diagnostic.rs\<close>). The message and fix-hint texts are not kept; the
  code, the severity, the location and the JSON path are.
\<close>

datatype severity = SevError | SevWarning

record diagnostic =
  dg_code :: string
  dg_severity :: severity
  dg_location :: "string option"
  dg_path :: "string option"

record validation_report =
  vr_valid :: bool
  vr_diagnostics :: "diagnostic list"

definition diag_error :: "string \<Rightarrow> diagnostic" where
  "diag_error c = \<lparr>dg_code = c, dg_severity = SevError, dg_location = None, dg_path = None\<rparr>"

definition diag_warning :: "string \<Rightarrow> diagnostic" where
  "diag_warning c = \<lparr>dg_code = c, dg_severity = SevWarning, dg_location = None, dg_path = None\<rparr>"

definition with_location :: "string \<Rightarrow> diagnostic \<Rightarrow> diagnostic" where
  "with_location l d = d\<lparr>dg_location := Some l\<rparr>"

definition with_path :: "string \<Rightarrow> diagnostic \<Rightarrow> diagnostic" where
  "with_path p d = d\<lparr>dg_path := Some p\<rparr>"

definition is_error :: "diagnostic \<Rightarrow> bool" where
  "is_error d \<longleftrightarrow> dg_severity d = SevError"

definition no_errors :: "diagnostic list \<Rightarrow> bool" where
  "no_errors ds \<longleftrightarrow> \<not> list_ex is_error ds"

lemma is_error_simps [simp]:
  "is_error (diag_error c)" "\<not> is_error (diag_warning c)"
  "is_error (with_location l d) = is_error d" "is_error (with_path p d) = is_error d"
  by (simp_all add: is_error_def diag_error_def diag_warning_def with_location_def with_path_def)

lemma no_errors_append [simp]: "no_errors (a @ b) \<longleftrightarrow> no_errors a \<and> no_errors b"
  by (auto simp: no_errors_def)

lemma no_errors_Nil [simp]: "no_errors []"
  by (simp add: no_errors_def)

lemma no_errors_Cons [simp]: "no_errors (d # ds) \<longleftrightarrow> \<not> is_error d \<and> no_errors ds"
  by (simp add: no_errors_def)

lemma no_errors_concat [simp]: "no_errors (concat dss) \<longleftrightarrow> (\<forall>ds\<in>set dss. no_errors ds)"
  by (induction dss) auto

subsection \<open>JSON paths\<close>

text \<open>\<open>name[i]\<close> and the paths of functions and statements (\<open>Program::fn_path\<close>, \<open>stmt_path\<close>).\<close>

definition at_index :: "string \<Rightarrow> nat \<Rightarrow> string" where
  "at_index n i = n @ ''['' @ show_nat i @ '']''"

definition fn_path :: "nat \<Rightarrow> nat \<Rightarrow> string" where
  "fn_path mi fi = at_index ''modules'' mi @ at_index ''.functions'' fi"

definition stmt_path :: "nat \<Rightarrow> nat \<Rightarrow> nat \<Rightarrow> string" where
  "stmt_path mi fi si = at_index ''modules'' mi @ at_index ''.functions'' fi @ at_index ''.body'' si"

text \<open>A loop over a list with its indices that collects diagnostics.\<close>

definition each :: "(nat \<Rightarrow> 'a \<Rightarrow> 'b list) \<Rightarrow> 'a list \<Rightarrow> 'b list" where
  "each f xs = concat (map (\<lambda>(i, x). f i x) (enumerate 0 xs))"

lemma each_cong [fundef_cong]:
  "xs = ys \<Longrightarrow> (\<And>i x. x \<in> set ys \<Longrightarrow> f i x = g i x) \<Longrightarrow> each f xs = each g ys"
  by (auto simp: each_def in_set_enumerate_eq intro!: arg_cong [where f = concat])

lemma set_each: "set (each f xs) = (\<Union>i<length xs. set (f i (xs ! i)))"
  by (force simp: each_def in_set_enumerate_eq)

lemma no_errors_each: "no_errors (each f xs) \<longleftrightarrow> (\<forall>i<length xs. no_errors (f i (xs ! i)))"
  by (auto simp: no_errors_def list_ex_iff set_each)

lemma no_errors_each_in: "no_errors (each f xs) \<Longrightarrow> x \<in> set xs \<Longrightarrow> \<exists>i. no_errors (f i x)"
  by (auto simp: no_errors_each in_set_conv_nth)

end
