(* ===== verification/Named_Types.thy ===== *)
theory Named_Types
  imports Ast
begin

text \<open>
  Module-level named types (\<open>src/src/typedef.rs\<close>): the environment of resolved names, the
  resolution of a type against it, and the diagnostics E110 to E113. A hash map is modelled by the
  ordered map with the same lookups: the code never depends on its iteration order. The stack of
  names being expanded is passed down; the code pops what it pushed, except on a failure, which
  ends the expansion.
\<close>

definition is_builtin :: "string \<Rightarrow> bool" where
  "is_builtin n \<longleftrightarrow> n = ''Bool'' \<or> n = ''Int'' \<or> n = ''Float'' \<or> n = ''String''"

type_synonym type_defs = "(string, string \<times> base_type) btree"
type_synonym type_env = "(string, base_type) btree"

definition type_defs_of :: "'j program_decl \<Rightarrow> type_defs" where
  "type_defs_of p = fold (\<lambda>m. fold (\<lambda>t. bt_insert (fqn (md_name m) (td_name t)) (md_name m, td_ty t))
     (md_types m)) (pg_modules p) []"

definition struct_of :: "(string \<times> base_type) list \<Rightarrow> base_type" where
  "struct_of flds = StructT (fold (\<lambda>(k, v). bt_insert k v) flds [])"

text \<open>How many declared names are not yet on the stack.\<close>

definition names_left :: "type_defs \<Rightarrow> string list \<Rightarrow> nat" where
  "names_left defs stack = card (set (bt_keys defs) - set stack)"

lemma names_left_push:
  "bt_get defs key = Some d \<Longrightarrow> key \<notin> set stack \<Longrightarrow> names_left defs (stack @ [key]) < names_left defs stack"
proof -
  assume "bt_get defs key = Some d" "key \<notin> set stack"
  then have "key \<in> set (bt_keys defs) - set stack"
    by (force simp: bt_keys_def bt_get_def dest: map_of_SomeD)
  then have "set (bt_keys defs) - set (stack @ [key]) \<subset> set (bt_keys defs) - set stack" by auto
  then show ?thesis unfolding names_left_def by (rule psubset_card_mono [rotated]) simp
qed

lemma size_struct_field:
  "kt \<in> set flds \<Longrightarrow> size (snd kt) < size (StructT flds)"
  by (induction flds) (auto simp: less_Suc_eq_le)

lemma size_struct_pair [termination_simp]:
  fixes flds :: "(string \<times> base_type) list"
  shows "(k, t) \<in> set flds \<Longrightarrow> size t < Suc (size_list (size_prod (\<lambda>_. 0) size) flds)"
  using size_struct_field [of "(k, t)" flds] by simp

function resolve_def :: "type_defs \<Rightarrow> string \<Rightarrow> base_type \<Rightarrow> string list \<Rightarrow> (unit, base_type) outc" where
  "resolve_def defs owner (Primitive p) stack =
    (if is_builtin p then Ok (Primitive p)
     else let key = qualify owner p in
       if key \<in> set stack then Err ()
       else case bt_get defs key of
           None \<Rightarrow> Err ()
         | Some (next_owner, ty) \<Rightarrow> resolve_def defs next_owner ty (stack @ [key]))"
| "resolve_def defs owner (StructT flds) stack =
     rbind (mapM (\<lambda>kt. rbind (resolve_def defs owner (snd kt) stack) (\<lambda>t. Ok (fst kt, t))) flds)
       (\<lambda>out. Ok (struct_of out))"
| "resolve_def defs owner (ArrayT elem len) stack =
     rbind (resolve_def defs owner elem stack) (\<lambda>t. Ok (ArrayT t len))"
| "resolve_def defs owner (EnumT vars) stack = Ok (EnumT vars)"
| "resolve_def defs owner (BoundedInt lo hi) stack = Ok (BoundedInt lo hi)"
  by pat_completeness auto
termination
  by (relation "inv_image (less_than <*lex*> less_than) (\<lambda>(defs, _, ty, stack). (names_left defs stack, size ty))")
    (auto simp: names_left_push size_struct_pair)

declare resolve_def.simps [simp del]

subsection \<open>The environment\<close>

definition type_env_of :: "'j program_decl \<Rightarrow> type_env" where
  "type_env_of p =
    (let defs = type_defs_of p in
     fold (\<lambda>(key, owner, ty) env. case resolve_def defs owner ty [] of
         Ok t \<Rightarrow> bt_insert key t env | _ \<Rightarrow> env) defs [])"

fun resolve_with_map :: "type_env \<Rightarrow> string \<Rightarrow> base_type \<Rightarrow> base_type option" where
  "resolve_with_map env m (Primitive p) =
    (if is_builtin p then Some (Primitive p) else bt_get env (qualify m p))"
| "resolve_with_map env m (StructT flds) =
    map_option struct_of (those (map (\<lambda>kt. map_option (Pair (fst kt)) (resolve_with_map env m (snd kt))) flds))"
| "resolve_with_map env m (ArrayT elem len) = map_option (\<lambda>t. ArrayT t len) (resolve_with_map env m elem)"
| "resolve_with_map env m (EnumT vars) = Some (EnumT vars)"
| "resolve_with_map env m (BoundedInt lo hi) = Some (BoundedInt lo hi)"

definition resolve_type :: "type_env \<Rightarrow> string \<Rightarrow> base_type \<Rightarrow> base_type option" where
  "resolve_type env m ty = resolve_with_map env m ty"

definition resolve_type_name :: "type_env \<Rightarrow> string \<Rightarrow> string \<Rightarrow> base_type option" where
  "resolve_type_name env m n = (if is_builtin n then Some (Primitive n) else bt_get env (qualify m n))"

subsection \<open>Diagnostics\<close>

function has_cycle :: "type_defs \<Rightarrow> string \<Rightarrow> base_type \<Rightarrow> string list \<Rightarrow> bool" where
  "has_cycle defs owner (Primitive p) stack =
    (if is_builtin p then False
     else let key = qualify owner p in
       if key \<in> set stack then True
       else case bt_get defs key of
           None \<Rightarrow> False
         | Some (next_owner, ty) \<Rightarrow> has_cycle defs next_owner ty (stack @ [key]))"
| "has_cycle defs owner (StructT flds) stack = list_ex (\<lambda>kt. has_cycle defs owner (snd kt) stack) flds"
| "has_cycle defs owner (ArrayT elem len) stack = has_cycle defs owner elem stack"
| "has_cycle defs owner (EnumT vars) stack = False"
| "has_cycle defs owner (BoundedInt lo hi) stack = False"
  by pat_completeness auto
termination
  by (relation "inv_image (less_than <*lex*> less_than) (\<lambda>(defs, _, ty, stack). (names_left defs stack, size ty))")
    (auto simp: names_left_push size_struct_pair)

declare has_cycle.simps [simp del]

fun first_undefined :: "base_type \<Rightarrow> string option" where
  "first_undefined (Primitive p) = (if is_builtin p then None else Some p)"
| "first_undefined (StructT flds) = find_map (\<lambda>kt. first_undefined (snd kt)) flds"
| "first_undefined (ArrayT elem len) = first_undefined elem"
| "first_undefined _ = None"

text \<open>The declaration of the type \<open>t\<close>, number \<open>i\<close> of the module, after the names \<open>seen\<close>.\<close>

definition check_type_name :: "nat \<Rightarrow> string list \<Rightarrow> nat \<Rightarrow> type_def \<Rightarrow> diagnostic list" where
  "check_type_name mi seen i t =
    (let path = at_index ''modules'' mi @ at_index ''.types'' i in
     (if is_builtin (td_name t) then [with_path (path @ ''.name'') (diag_error ''E112'')] else []) @
     (if \<not> is_ident (td_name t) then [with_path (path @ ''.name'') (diag_error ''E110'')] else []) @
     (if td_name t \<in> set seen then [with_path path (diag_error ''E110'')] else []))"

definition check_type_def :: "type_defs \<Rightarrow> string \<Rightarrow> nat \<Rightarrow> nat \<Rightarrow> type_def \<Rightarrow> diagnostic list" where
  "check_type_def defs m mi i t =
    (let path = at_index ''modules'' mi @ at_index ''.types'' i @ ''.type''; self = fqn m (td_name t) in
     case resolve_def defs m (td_ty t) [self] of
       Ok _ \<Rightarrow> []
     | _ \<Rightarrow> if has_cycle defs m (td_ty t) [self] then [with_path path (diag_error ''E113'')]
           else if first_undefined (td_ty t) \<noteq> None then [with_path path (diag_error ''E111'')] else [])"

definition check_declarations :: "'j program_decl \<Rightarrow> diagnostic list" where
  "check_declarations p =
     each (\<lambda>mi m. each (\<lambda>i t. check_type_name mi (map td_name (take i (md_types m))) i t) (md_types m))
       (pg_modules p) @
     each (\<lambda>mi m. each (\<lambda>i t. check_type_def (type_defs_of p) (md_name m) mi i t) (md_types m)) (pg_modules p)"

fun check_ty_use :: "type_env \<Rightarrow> string \<Rightarrow> base_type \<Rightarrow> string \<Rightarrow> diagnostic list" where
  "check_ty_use env m (Primitive p) path =
    (if is_builtin p then []
     else if resolve_type_name env m p = None then [with_path path (diag_error ''E111'')] else [])"
| "check_ty_use env m (StructT flds) path =
     concat (map (\<lambda>kt. check_ty_use env m (snd kt) (path @ ''.'' @ fst kt)) flds)"
| "check_ty_use env m (ArrayT elem len) path = check_ty_use env m elem (path @ ''.elem'')"
| "check_ty_use env m _ path = []"

definition check_resource_use :: "type_env \<Rightarrow> string \<Rightarrow> nat \<Rightarrow> nat \<Rightarrow> 'j resource_decl \<Rightarrow> diagnostic list" where
  "check_resource_use env m mi i r = (case rc_base r of
      Some base \<Rightarrow> check_ty_use env m base (at_index ''modules'' mi @ at_index ''.resources'' i @ ''.base'')
    | None \<Rightarrow> [])"

definition check_function_uses :: "type_env \<Rightarrow> string \<Rightarrow> nat \<Rightarrow> nat \<Rightarrow> 'j function_decl \<Rightarrow> diagnostic list" where
  "check_function_uses env m mi fi f =
     each (\<lambda>pi pd. check_ty_use env m (pd_type pd) (fn_path mi fi @ at_index ''.params'' pi @ ''.type''))
       (fd_params f) @
     (case fd_returns f of
        Some ret \<Rightarrow> check_ty_use env m (pd_type ret) (fn_path mi fi @ ''.returns.type'')
      | None \<Rightarrow> []) @
     each (\<lambda>li l. check_ty_use env m (ld_type l) (fn_path mi fi @ at_index ''.locals'' li @ ''.type''))
       (fd_locals f)"

definition check_uses :: "'j program_decl \<Rightarrow> diagnostic list" where
  "check_uses p =
    (let env = type_env_of p in
     each (\<lambda>mi m. each (check_resource_use env (md_name m) mi) (md_resources m) @
        each (check_function_uses env (md_name m) mi) (md_functions m)) (pg_modules p))"

definition typedef_check :: "'j program_decl \<Rightarrow> diagnostic list" where
  "typedef_check p = check_declarations p @ check_uses p"

section \<open>Name environments\<close>

text \<open>
  The names visible in one function body (\<open>src/src/env.rs\<close>): \<open>_\<close>, then the locals, the parameters
  and the return slot, then the resources of the module and the imported ones.
\<close>

datatype slot_kind = SkLocal | SkParam | SkReturn | SkVar | SkAtomic | SkDiscard | SkSyncResource

record env_slot =
  es_kind :: slot_kind
  es_ty :: "base_type option"
  es_modeled :: bool

definition is_writable_value :: "env_slot \<Rightarrow> bool" where
  "is_writable_value s \<longleftrightarrow> es_kind s \<in> {SkLocal, SkParam, SkVar, SkAtomic}"

definition is_discard :: "env_slot \<Rightarrow> bool" where
  "is_discard s \<longleftrightarrow> es_kind s = SkDiscard"

definition is_assign_local_target :: "env_slot \<Rightarrow> bool" where
  "is_assign_local_target s \<longleftrightarrow> es_kind s \<in> {SkLocal, SkParam}"

definition is_value_slot :: "env_slot \<Rightarrow> bool" where
  "is_value_slot s \<longleftrightarrow> es_kind s \<in> {SkLocal, SkParam, SkReturn, SkVar, SkAtomic}"

definition is_activation :: "env_slot \<Rightarrow> bool" where
  "is_activation s \<longleftrightarrow> es_kind s \<in> {SkLocal, SkParam, SkReturn}"

type_synonym name_env = "(string, env_slot) btree"

text \<open>\<open>entry(k).or_insert(v)\<close>: an entry that is there stays.\<close>

definition or_insert :: "'k::linorder \<Rightarrow> 'v \<Rightarrow> ('k, 'v) btree \<Rightarrow> ('k, 'v) btree" where
  "or_insert k v m = (if bt_has m k then m else bt_insert k v m)"

definition resolved_or_self :: "type_env \<Rightarrow> string \<Rightarrow> base_type \<Rightarrow> base_type" where
  "resolved_or_self tenv m ty = (case resolve_type tenv m ty of Some t \<Rightarrow> t | None \<Rightarrow> ty)"

definition resource_slot :: "'j resource_decl \<Rightarrow> env_slot" where
  "resource_slot r =
    (if rc_kind r = ''var'' \<and> rc_type r = ''Var'' then \<lparr>es_kind = SkVar, es_ty = rc_base r, es_modeled = True\<rparr>
     else if rc_kind r = ''var'' \<and> rc_type r = ''Atomic''
     then \<lparr>es_kind = SkAtomic, es_ty = rc_base r, es_modeled = True\<rparr>
     else \<lparr>es_kind = SkSyncResource, es_ty = rc_base r, es_modeled = True\<rparr>)"

definition resolve_slot :: "type_env \<Rightarrow> string \<Rightarrow> env_slot \<Rightarrow> env_slot" where
  "resolve_slot tenv owner s = s\<lparr>es_ty := map_option (resolved_or_self tenv owner) (es_ty s)\<rparr>"

definition discard_slot :: env_slot where
  "discard_slot = \<lparr>es_kind = SkDiscard, es_ty = None, es_modeled = False\<rparr>"

definition param_slot :: "type_env \<Rightarrow> string \<Rightarrow> slot_kind \<Rightarrow> param_decl \<Rightarrow> env_slot" where
  "param_slot tenv m k p =
     \<lparr>es_kind = k, es_ty = Some (resolved_or_self tenv m (pd_type p)), es_modeled = pd_modeled p\<rparr>"

definition local_slot :: "type_env \<Rightarrow> string \<Rightarrow> 'j local_decl \<Rightarrow> env_slot" where
  "local_slot tenv m l =
     \<lparr>es_kind = SkLocal, es_ty = Some (resolved_or_self tenv m (ld_type l)), es_modeled = ld_modeled l\<rparr>"

definition add_resource :: "type_env \<Rightarrow> string \<Rightarrow> 'j resource_decl \<Rightarrow> name_env \<Rightarrow> name_env" where
  "add_resource tenv m r env =
    (let s = resolve_slot tenv m (resource_slot r) in
     or_insert (fqn m (rc_name r)) s (or_insert (rc_name r) s env))"

definition add_required :: "'j program_decl \<Rightarrow> type_env \<Rightarrow> string \<Rightarrow> string \<Rightarrow> name_env \<Rightarrow> name_env" where
  "add_required p tenv m req env = (case lookup_resource_decl p m req of
      Some (owner, r) \<Rightarrow> or_insert req (resolve_slot tenv (md_name owner) (resource_slot r)) env
    | None \<Rightarrow> env)"

definition build_env :: "'j program_decl \<Rightarrow> 'j module_decl \<Rightarrow> 'j function_decl \<Rightarrow> name_env" where
  "build_env p md f =
    (let tenv = type_env_of p; m = md_name md;
         e0 = bt_insert ''_'' discard_slot [];
         e1 = fold (\<lambda>pd. bt_insert (pd_name pd) (param_slot tenv m SkParam pd)) (fd_params f) e0;
         e2 = fold (\<lambda>l. bt_insert (ld_name l) (local_slot tenv m l)) (fd_locals f) e1;
         e3 = (case fd_returns f of
                 Some ret \<Rightarrow> or_insert (pd_name ret) (param_slot tenv m SkReturn ret) e2 | None \<Rightarrow> e2);
         e4 = fold (\<lambda>mo. if md_name mo = m then fold (add_resource tenv m) (md_resources mo) else id)
                (pg_modules p) e3
     in fold (add_required p tenv m) (rq_resources (md_requires md)) e4)"

definition env_ty :: "name_env \<Rightarrow> string \<Rightarrow> base_type option" where
  "env_ty env n = Option.bind (bt_get env n) es_ty"

definition enum_variants :: "name_env \<Rightarrow> string list" where
  "enum_variants env = concat (map (\<lambda>s. case es_ty s of Some (EnumT vars) \<Rightarrow> vars | _ \<Rightarrow> []) (bt_values env))"

end
