(* ===== verification/Expr.thy ===== *)
theory Expr
  imports Named_Types Sem_Eval
begin

text \<open>
  The parser of expressions (\<open>src/src/expr.rs\<close>). The code keeps an index into the text; the model
  passes the rest of the text along. Every method that can recurse takes fuel; \<open>parse\<close> gives enough
  of it, so that running out (\<open>Panic\<close>) never happens, which \<open>Expr_Laws\<close> proves. A character is one
  of the first 256 code points; a failure is a message text and carries no value.
\<close>

datatype expr =
    ELit lit
  | EName string
  | EField expr string
  | ENeg expr
  | EBin bin_op expr expr
  | ECmp cmp_op expr expr
  | EStruct "(string \<times> expr) list"

fun expr_is_comparison :: "expr \<Rightarrow> bool" where
  "expr_is_comparison (ECmp _ _ _) = True"
| "expr_is_comparison _ = False"

text \<open>The Var and Atomic resources an expression reads, in order of occurrence.\<close>

fun value_resource_names :: "name_env \<Rightarrow> expr \<Rightarrow> string list" where
  "value_resource_names env (ELit _) = []"
| "value_resource_names env (EName n) = (case bt_get env n of
      Some s \<Rightarrow> if es_kind s \<in> {SkVar, SkAtomic} then [n] else [] | None \<Rightarrow> [])"
| "value_resource_names env (EField base _) = value_resource_names env base"
| "value_resource_names env (ENeg e) = value_resource_names env e"
| "value_resource_names env (EBin _ l r) = value_resource_names env l @ value_resource_names env r"
| "value_resource_names env (ECmp _ l r) = value_resource_names env l @ value_resource_names env r"
| "value_resource_names env (EStruct fs) = concat (map (\<lambda>fe. value_resource_names env (snd fe)) fs)"

subsection \<open>Characters\<close>

text \<open>\<open>char::is_whitespace\<close> on the first 256 code points.\<close>

definition is_white :: "char \<Rightarrow> bool" where
  "is_white c \<longleftrightarrow> (let n = (of_char c :: nat) in (9 \<le> n \<and> n \<le> 13) \<or> n = 32 \<or> n = 133 \<or> n = 160)"

definition skip :: "string \<Rightarrow> string" where
  "skip s = dropWhile is_white s"

fun strip_prefix :: "string \<Rightarrow> string \<Rightarrow> string option" where
  "strip_prefix [] s = Some s"
| "strip_prefix (c # cs) [] = None"
| "strip_prefix (c # cs) (d # ds) = (if c = d then strip_prefix cs ds else None)"

text \<open>\<open>eat\<close> skips white space whether or not the token follows.\<close>

definition eat :: "string \<Rightarrow> string \<Rightarrow> string option" where
  "eat tok s = strip_prefix tok (skip s)"

type_synonym 'a parser = "string \<Rightarrow> (unit, 'a \<times> string) outc"

definition id_start :: "char \<Rightarrow> bool" where
  "id_start c \<longleftrightarrow> is_alpha c \<or> c = CHR ''_''"

definition id_char :: "char \<Rightarrow> bool" where
  "id_char c \<longleftrightarrow> is_alnum c \<or> c = CHR ''_''"

definition parse_ident :: "string parser" where
  "parse_ident s = (case skip s of
      c # cs \<Rightarrow> if id_start c then Ok (c # takeWhile id_char cs, dropWhile id_char cs) else Err ()
    | [] \<Rightarrow> Err ())"

subsection \<open>Literals\<close>

text \<open>\<open>str::parse\<close> on a non-empty string of digits: \<open>i64\<close> fails on overflow, \<open>f64\<close> rounds to nearest.\<close>

definition parse_i64 :: "string \<Rightarrow> int option" where
  "parse_i64 ds = checked_i64 (int (nat_of_digits ds))"

definition f64_of_decimal :: "string \<Rightarrow> string \<Rightarrow> f64" where
  "f64_of_decimal whole frac =
    (let num = int (nat_of_digits (whole @ frac)) * 2 ^ 1200; d = 10 ^ length frac
     in f64_round False (num div d) (-1200) (num mod d \<noteq> 0))"

definition parse_number :: "expr parser" where
  "parse_number s =
    (let ds = takeWhile is_digit s; rest = dropWhile is_digit s in
     case rest of
       p # c # cs \<Rightarrow>
         if p = CHR ''.'' \<and> is_digit c
         then Ok (ELit (LFloat (f64_of_decimal ds (takeWhile is_digit (c # cs)))), dropWhile is_digit (c # cs))
         else rbind (ok_or () (parse_i64 ds)) (\<lambda>n. Ok (ELit (LInt n), rest))
     | _ \<Rightarrow> rbind (ok_or () (parse_i64 ds)) (\<lambda>n. Ok (ELit (LInt n), rest)))"

text \<open>After the opening quote: up to the next quote; there are no escapes.\<close>

definition parse_string :: "expr parser" where
  "parse_string s = (case dropWhile (\<lambda>c. c \<noteq> CHR 0x22) s of
      [] \<Rightarrow> Err ()
    | _ # rest \<Rightarrow> Ok (ELit (LString (takeWhile (\<lambda>c. c \<noteq> CHR 0x22) s)), rest))"

definition classify_name :: "name_env \<Rightarrow> string \<Rightarrow> (unit, expr) outc" where
  "classify_name env n =
    (if bt_has env n then Ok (EName n)
     else if n = ''true'' then Ok (ELit (LBool True))
     else if n = ''false'' then Ok (ELit (LBool False))
     else if n \<in> set (enum_variants env) then Ok (ELit (LEnum n))
     else Err ())"

definition parse_name_or_enum :: "name_env \<Rightarrow> expr parser" where
  "parse_name_or_enum env s =
     rbind (parse_ident s) (\<lambda>(n, s1).
     rbind (case eat ''::'' s1 of
              Some s2 \<Rightarrow> rbind (parse_ident s2) (\<lambda>(ent, s3). Ok (n @ ''::'' @ ent, s3))
            | None \<Rightarrow> Ok (n, skip s1)) (\<lambda>(name, s4).
     rbind (classify_name env name) (\<lambda>e. Ok (e, s4))))"

subsection \<open>The grammar\<close>

definition cmp_token :: "string \<Rightarrow> (cmp_op \<times> string) option" where
  "cmp_token s = find_map (\<lambda>(tok, cop). map_option (Pair cop) (eat tok s))
     [(''=='', CEq), (''!='', CNe), (''<='', CLe), (''>='', CGe), (''<'', CLt), (''>'', CGt)]"

definition add_token :: "string \<Rightarrow> (bin_op \<times> string) option" where
  "add_token s = find_map (\<lambda>(tok, p). map_option (Pair p) (eat tok s)) [(''+'', Add), (''-'', Sub)]"

definition mul_token :: "string \<Rightarrow> (bin_op \<times> string) option" where
  "mul_token s = find_map (\<lambda>(tok, p). map_option (Pair p) (eat tok s))
     [(''*'', Mul), (''/'', Div), (''%'', Mod)]"

text \<open>
  The two loops over operators of one level (\<open>parse_add\<close>, \<open>parse_mul\<close>) and the one over field
  selections are left-associative; each takes the parser of the next level.
\<close>

fun bin_loop :: "nat \<Rightarrow> (string \<Rightarrow> (bin_op \<times> string) option) \<Rightarrow> expr parser \<Rightarrow> expr \<Rightarrow> expr parser" where
  "bin_loop 0 tok p lhs s = Panic"
| "bin_loop (Suc n) tok p lhs s = (case tok s of
      None \<Rightarrow> Ok (lhs, skip s)
    | Some (bop, s1) \<Rightarrow> rbind (p s1) (\<lambda>(rhs, s2). bin_loop n tok p (EBin bop lhs rhs) s2))"

fun field_loop :: "nat \<Rightarrow> expr \<Rightarrow> expr parser" where
  "field_loop 0 e s = Panic"
| "field_loop (Suc n) e s = (case eat ''.'' s of
      None \<Rightarrow> Ok (e, skip s)
    | Some s1 \<Rightarrow> rbind (parse_ident s1) (\<lambda>(f, s2). field_loop n (EField e f) s2))"

text \<open>The fields of a struct literal after \<open>{\<close> and a first look for \<open>}\<close>.\<close>

fun struct_loop :: "nat \<Rightarrow> expr parser \<Rightarrow> (string \<times> expr) list \<Rightarrow> expr parser" where
  "struct_loop 0 p fs s = Panic"
| "struct_loop (Suc n) p fs s =
     rbind (parse_ident s) (\<lambda>(name, s1).
     rbind (ok_or () (eat '':'' s1)) (\<lambda>s2.
     rbind (p s2) (\<lambda>(val, s3).
       let fs' = fs @ [(name, val)] in
       case eat '','' s3 of
         Some s4 \<Rightarrow> (case eat ''}'' s4 of
             Some s5 \<Rightarrow> Ok (EStruct fs', s5)
           | None \<Rightarrow> struct_loop n p fs' (skip s4))
       | None \<Rightarrow> (case eat ''}'' s3 of
             Some s5 \<Rightarrow> Ok (EStruct fs', s5)
           | None \<Rightarrow> Err ()))))"

definition parse_struct :: "nat \<Rightarrow> expr parser \<Rightarrow> expr parser" where
  "parse_struct n p s = (case eat ''}'' s of
      Some s1 \<Rightarrow> Ok (EStruct [], s1)
    | None \<Rightarrow> struct_loop n p [] (skip s))"

text \<open>
  The levels of the grammar call each other in one direction only, down to \<open>parse_primary\<close>, which
  starts again at \<open>parse_cmp\<close> inside brackets: that call is the parameter \<open>inner\<close> of the levels.
\<close>

definition parse_primary :: "name_env \<Rightarrow> expr parser \<Rightarrow> expr parser" where
  "parse_primary env inner s = (case skip s of
      [] \<Rightarrow> Err ()
    | c # cs \<Rightarrow>
        if c = CHR ''('' then
          rbind (inner cs) (\<lambda>(e, s1). rbind (ok_or () (eat '')'' s1)) (\<lambda>s2. Ok (e, s2)))
        else if c = CHR ''{'' then parse_struct (Suc (length cs)) inner cs
        else if c = CHR 0x22 then parse_string cs
        else if is_digit c then parse_number (c # cs)
        else if id_start c then parse_name_or_enum env (c # cs)
        else Err ())"

definition parse_postfix :: "name_env \<Rightarrow> expr parser \<Rightarrow> expr parser" where
  "parse_postfix env inner s =
     rbind (parse_primary env inner s) (\<lambda>(e, s1). field_loop (Suc (length s1)) e s1)"

fun unary_loop :: "nat \<Rightarrow> expr parser \<Rightarrow> expr parser" where
  "unary_loop 0 p s = Panic"
| "unary_loop (Suc n) p s = (case eat ''-'' s of
      Some s1 \<Rightarrow> rbind (unary_loop n p s1) (\<lambda>(e, s2). Ok (ENeg e, s2))
    | None \<Rightarrow> p (skip s))"

definition parse_unary :: "name_env \<Rightarrow> expr parser \<Rightarrow> expr parser" where
  "parse_unary env inner s = unary_loop (Suc (length s)) (parse_postfix env inner) s"

definition parse_mul :: "name_env \<Rightarrow> expr parser \<Rightarrow> expr parser" where
  "parse_mul env inner s = rbind (parse_unary env inner s) (\<lambda>(lhs, s1).
     bin_loop (Suc (length s1)) mul_token (parse_unary env inner) lhs s1)"

definition parse_add :: "name_env \<Rightarrow> expr parser \<Rightarrow> expr parser" where
  "parse_add env inner s = rbind (parse_mul env inner s) (\<lambda>(lhs, s1).
     bin_loop (Suc (length s1)) add_token (parse_mul env inner) lhs s1)"

definition cmp_level :: "name_env \<Rightarrow> expr parser \<Rightarrow> expr parser" where
  "cmp_level env inner s = rbind (parse_add env inner s) (\<lambda>(lhs, s1). case cmp_token s1 of
      None \<Rightarrow> Ok (lhs, skip s1)
    | Some (cop, s2) \<Rightarrow> rbind (parse_add env inner s2) (\<lambda>(rhs, s3). Ok (ECmp cop lhs rhs, s3)))"

text \<open>Brackets can be nested no deeper than the text is long.\<close>

fun parse_cmp :: "nat \<Rightarrow> name_env \<Rightarrow> expr parser" where
  "parse_cmp 0 env s = Panic"
| "parse_cmp (Suc n) env s = cmp_level env (parse_cmp n env) s"

definition parse_expr :: "string \<Rightarrow> name_env \<Rightarrow> (unit, expr) outc" where
  "parse_expr s env = rbind (parse_cmp (Suc (length s)) env s) (\<lambda>(e, rest).
     if skip rest = [] then Ok e else Err ())"

section \<open>Types of expressions\<close>

text \<open>
  The static types of expressions (second half of \<open>src/src/expr.rs\<close>). \<open>None\<close> is an unknown type: an
  enum literal or an activation slot that is not modelled. An error is its code.
\<close>

type_synonym 'a typing = "(string, 'a) outc"

definition is_int :: "base_type \<Rightarrow> bool" where
  "is_int ty \<longleftrightarrow> (case ty of Primitive p \<Rightarrow> p = ''Int'' | BoundedInt _ _ \<Rightarrow> True | _ \<Rightarrow> False)"

definition is_float :: "base_type \<Rightarrow> bool" where
  "is_float ty \<longleftrightarrow> ty = Primitive ''Float''"

definition enum_lit_ok :: "expr \<Rightarrow> base_type \<Rightarrow> bool" where
  "enum_lit_ok e other = (case (e, other) of (ELit (LEnum v), EnumT vars) \<Rightarrow> v \<in> set vars | _ \<Rightarrow> False)"

fun is_enum_lit :: "expr \<Rightarrow> bool" where
  "is_enum_lit (ELit (LEnum _)) = True"
| "is_enum_lit _ = False"

definition type_of_name :: "string \<Rightarrow> name_env \<Rightarrow> base_type option typing" where
  "type_of_name n env = (case bt_get env n of
      None \<Rightarrow> Err ''E931''
    | Some s \<Rightarrow> (case es_kind s of
          SkDiscard \<Rightarrow> Err ''E931''
        | SkSyncResource \<Rightarrow> Err ''E934''
        | SkVar \<Rightarrow> Ok (es_ty s)
        | SkAtomic \<Rightarrow> Ok (es_ty s)
        | _ \<Rightarrow> if es_modeled s then Ok (es_ty s) else Ok None))"

definition check_comparable ::
  "cmp_op \<Rightarrow> base_type option \<Rightarrow> base_type option \<Rightarrow> expr \<Rightarrow> expr \<Rightarrow> unit typing" where
  "check_comparable cop lt rt lhs rhs = (case (lt, rt) of
      (None, None) \<Rightarrow> Ok ()
    | (Some l, None) \<Rightarrow> if is_enum_lit rhs \<and> \<not> enum_lit_ok rhs l then Err ''E932'' else Ok ()
    | (None, Some r) \<Rightarrow> if is_enum_lit lhs \<and> \<not> enum_lit_ok lhs r then Err ''E932'' else Ok ()
    | (Some l, Some r) \<Rightarrow>
        if enum_lit_ok lhs r \<or> enum_lit_ok rhs l then Ok ()
        else if cop \<in> {CLt, CLe, CGt, CGe} then
          (if (is_int l \<and> is_int r) \<or> (is_float l \<and> is_float r) then Ok () else Err ''E932'')
        else if l = r \<or> (is_int l \<and> is_int r) then Ok ()
        else Err ''E932'')"

definition type_of_field :: "base_type option \<Rightarrow> string \<Rightarrow> base_type option typing" where
  "type_of_field t f = (case t of
      None \<Rightarrow> Ok None
    | Some (StructT flds) \<Rightarrow> (case bt_get flds f of Some ft \<Rightarrow> Ok (Some ft) | None \<Rightarrow> Err ''E933'')
    | Some _ \<Rightarrow> Err ''E933'')"

definition type_of_neg :: "base_type option \<Rightarrow> base_type option typing" where
  "type_of_neg t = (case t of
      None \<Rightarrow> Ok None | Some u \<Rightarrow> if is_int u then Ok t else Err ''E932'')"

definition type_of_bin :: "base_type option \<Rightarrow> base_type option \<Rightarrow> base_type option typing" where
  "type_of_bin lt rt = (case (lt, rt) of
      (Some l, Some r) \<Rightarrow>
        if is_int l \<and> is_int r then Ok (Some (Primitive ''Int''))
        else if is_float l \<and> is_float r then Ok (Some (Primitive ''Float''))
        else Err ''E932''
    | _ \<Rightarrow> Ok None)"

fun type_of :: "expr \<Rightarrow> name_env \<Rightarrow> base_type option typing" where
  "type_of (ELit (LBool _)) env = Ok (Some (Primitive ''Bool''))"
| "type_of (ELit (LInt _)) env = Ok (Some (Primitive ''Int''))"
| "type_of (ELit (LFloat _)) env = Ok (Some (Primitive ''Float''))"
| "type_of (ELit (LString _)) env = Ok (Some (Primitive ''String''))"
| "type_of (ELit (LEnum _)) env = Ok None"
| "type_of (EName n) env = type_of_name n env"
| "type_of (EField base f) env = rbind (type_of base env) (\<lambda>t. type_of_field t f)"
| "type_of (ENeg e) env = rbind (type_of e env) type_of_neg"
| "type_of (EBin p l r) env = rbind (type_of l env) (\<lambda>lt. rbind (type_of r env) (type_of_bin lt))"
| "type_of (ECmp cop l r) env = rbind (type_of l env) (\<lambda>lt. rbind (type_of r env) (\<lambda>rt.
     rbind (check_comparable cop lt rt l r) (\<lambda>_. Ok (Some (Primitive ''Bool'')))))"
| "type_of (EStruct fs) env =
     rbind (gatherM (\<lambda>fe. rbind (type_of (snd fe) env) (\<lambda>t. Ok (map_option (Pair (fst fe)) t))) fs)
       (\<lambda>m. Ok (Some (struct_of m)))"

text \<open>The fields of a struct literal against the expected ones, in their order.\<close>

definition assignable_fields ::
  "(string \<times> base_type) list \<Rightarrow> (string \<times> base_type) list \<Rightarrow> unit typing" where
  "assignable_fields g e =
     rbind (foldM (\<lambda>(k, et) _. case bt_get g k of
         None \<Rightarrow> Err ''E933''
       | Some gt \<Rightarrow> if gt \<noteq> et \<and> \<not> (is_int gt \<and> is_int et) then Err ''E932'' else Ok ()) e ())
       (\<lambda>_. if list_all (\<lambda>kt. bt_has e (fst kt)) g then Ok () else Err ''E933'')"

definition assignable :: "base_type option \<Rightarrow> base_type \<Rightarrow> expr \<Rightarrow> unit typing" where
  "assignable got expected e = (case got of
      None \<Rightarrow> (case (e, expected) of
          (ELit (LEnum v), EnumT vars) \<Rightarrow> if v \<in> set vars then Ok () else Err ''E932''
        | _ \<Rightarrow> Ok ())
    | Some g \<Rightarrow>
        if g = expected \<or> (is_int g \<and> is_int expected) then
          (case (expected, e) of
             (BoundedInt lo hi, ELit (LInt v)) \<Rightarrow> if v < lo \<or> hi < v then Err ''E203'' else Ok ()
           | _ \<Rightarrow> Ok ())
        else (case (g, expected) of
            (StructT gf, StructT ef) \<Rightarrow> assignable_fields gf ef
          | _ \<Rightarrow> Err ''E932''))"

end
