(* ===== verification/Lowering.thy ===== *)
theory Lowering
  imports Sem_Program Expr
begin

text \<open>
  Lowering of the syntax tree to the resolved program (\<open>lower\<close> and what it calls in
  \<open>src/src/sem/program.rs\<close>). The \<open>Lowerer\<close> of the code is a record threaded through; only its list
  of unsupported constructs grows while a body is lowered, so the lowering of an operation returns
  the entries it adds.
\<close>

record lowerer =
  lw_module_names :: "string list"
  lw_module_ids :: "(string, module_id) btree"
  lw_resources :: "sem_resource list"
  lw_functions :: "sem_function list"
  lw_entry :: function_id
  lw_unsupported :: "unsupported_rec list"
  lw_type_env :: type_env

definition lw_parts :: "lowerer \<Rightarrow> module_id \<Rightarrow> string \<Rightarrow> (module_id \<times> string) option" where
  "lw_parts l from_m n = (case split_fqn n of
      Some (m, e) \<Rightarrow> map_option (\<lambda>mid. (mid, e)) (bt_get (lw_module_ids l) m)
    | None \<Rightarrow> Some (from_m, n))"

definition lw_resource_of :: "lowerer \<Rightarrow> module_id \<Rightarrow> string \<Rightarrow> resource_id option" where
  "lw_resource_of l from_m n = Option.bind (lw_parts l from_m n) (\<lambda>(mid, e).
     map_option r_id (find (\<lambda>r. r_module r = mid \<and> r_name r = e) (lw_resources l)))"

definition lw_find_function :: "lowerer \<Rightarrow> module_id \<Rightarrow> string \<Rightarrow> function_id option" where
  "lw_find_function l mid e =
     map_option f_id (find (\<lambda>f. f_module f = mid \<and> f_name f = e) (lw_functions l))"

definition lw_function_by_fqn :: "lowerer \<Rightarrow> string \<Rightarrow> function_id option" where
  "lw_function_by_fqn l n = Option.bind (split_fqn n) (\<lambda>(m, e).
     Option.bind (bt_get (lw_module_ids l) m) (\<lambda>mid. lw_find_function l mid e))"

definition lw_resolve_function :: "lowerer \<Rightarrow> module_id \<Rightarrow> string \<Rightarrow> function_id option" where
  "lw_resolve_function l from_m n =
     Option.bind (lw_parts l from_m n) (\<lambda>(mid, e). lw_find_function l mid e)"

definition lw_function :: "lowerer \<Rightarrow> function_id \<Rightarrow> sem_function backend_result" where
  "lw_function l f = index (lw_functions l) f"

definition lw_resource :: "lowerer \<Rightarrow> resource_id \<Rightarrow> sem_resource backend_result" where
  "lw_resource l r = index (lw_resources l) r"

text \<open>\<open>map_err\<close>: the failure of a step replaced by an error.\<close>

fun map_err :: "'e \<Rightarrow> ('d, 'a) outc \<Rightarrow> ('e, 'a) outc" where
  "map_err e (Ok x) = Ok x"
| "map_err e (Err _) = Err e"
| "map_err e Panic = Panic"

lemma map_err_eq_Ok [simp]: "map_err e m = Ok x \<longleftrightarrow> m = Ok x"
  by (cases m) auto

subsection \<open>Resources\<close>

definition res_kind_of :: "string \<Rightarrow> string \<Rightarrow> res_kind option" where
  "res_kind_of k t =
    (if k = ''var'' then
       (if t = ''Var'' then Some KVar else if t = ''Atomic'' then Some KAtomic else None)
     else if k = ''sync'' then
       (if t = ''Mutex'' then Some KMutex else if t = ''RwLock'' then Some KRwLock
        else if t = ''Condvar'' then Some KCondvar else if t = ''Semaphore'' then Some KSemaphore
        else if t = ''Channel'' then Some KChannel else None)
     else None)"

definition lower_base :: "string \<Rightarrow> 'j resource_decl \<Rightarrow> res_kind \<Rightarrow> type_env \<Rightarrow> base_type option backend_result" where
  "lower_base m r kind tenv =
    (if kind \<in> {KVar, KAtomic, KChannel}
     then rbind (ok_or (invalid ''E001'') (rc_base r)) (\<lambda>b. Ok (Some (resolved_or_self tenv m b)))
     else Ok None)"

definition lower_init ::
  "('j, 'x) json_api_scheme \<Rightarrow> 'j resource_decl \<Rightarrow> res_kind \<Rightarrow> base_type option \<Rightarrow> cvalue option backend_result" where
  "lower_init A r kind ty =
    (if kind \<in> {KVar, KAtomic}
     then rbind (unwrap ty) (\<lambda>b. case rc_init r of
         Some j \<Rightarrow> rbind (map_err (invalid ''E203'') (from_json A j b)) (\<lambda>v. Ok (Some v))
       | None \<Rightarrow> rbind (default_value b) (\<lambda>v. Ok (Some v)))
     else Ok None)"

definition lower_resource ::
  "('j, 'x) json_api_scheme \<Rightarrow> string \<Rightarrow> module_id \<Rightarrow> 'j resource_decl \<Rightarrow> resource_id \<Rightarrow> type_env
     \<Rightarrow> sem_resource backend_result" where
  "lower_resource A m mid r rid tenv =
     rbind (ok_or (invalid ''E300'') (res_kind_of (rc_kind r) (rc_type r))) (\<lambda>kind.
     rbind (lower_base m r kind tenv) (\<lambda>ty.
     rbind (lower_init A r kind ty) (\<lambda>init.
       Ok \<lparr>r_id = rid, r_module = mid, r_name = rc_name r, r_kind = kind, r_ty = ty,
           r_capacity = (if kind = KChannel
             then nat (max 0 (case rc_capacity r of Some c \<Rightarrow> c | None \<Rightarrow> -1)) else 0),
           r_permits = (if kind = KSemaphore then (case rc_count r of Some c \<Rightarrow> c | None \<Rightarrow> 1) else 0),
           r_init = init, r_mode = rc_mode r\<rparr>)))"

definition lower_resources ::
  "('j, 'x) json_api_scheme \<Rightarrow> 'j program_decl \<Rightarrow> lowerer \<Rightarrow> lowerer backend_result" where
  "lower_resources A p l =
     foldM (\<lambda>(mi, m). foldM (\<lambda>r l.
         rbind (lower_resource A (md_name m) mi r (length (lw_resources l)) (lw_type_env l)) (\<lambda>res.
           Ok (l\<lparr>lw_resources := lw_resources l @ [res]\<rparr>))) (md_resources m))
       (enumerate 0 (pg_modules p)) l"

subsection \<open>Functions\<close>

definition effects_are_empty :: "'j function_decl \<Rightarrow> bool" where
  "effects_are_empty f = (case fd_effects f of Some e \<Rightarrow> fe_reads e = [] \<and> fe_writes e = [] | None \<Rightarrow> True)"

definition modeled_count :: "'j function_decl \<Rightarrow> nat" where
  "modeled_count f = length (filter pd_modeled (fd_params f))"

definition placeholder_function :: "function_id \<Rightarrow> module_id \<Rightarrow> 'j function_decl \<Rightarrow> sem_function" where
  "placeholder_function fid mid f =
     \<lparr>f_id = fid, f_module = mid, f_name = fd_name f, f_kind = fd_kind f,
      f_is_nobody = (fd_body f = []), f_effects_empty = effects_are_empty f,
      f_may_block = fd_may_block f, f_params = [], f_returns = None, f_slots = [], f_body = [],
      f_sid_to_idx = [], f_requires_held = [], f_num_modeled_params = modeled_count f,
      f_bound = fd_bound f\<rparr>"

definition add_placeholders :: "'j program_decl \<Rightarrow> lowerer \<Rightarrow> lowerer" where
  "add_placeholders p l =
     fold (\<lambda>(mi, m). fold (\<lambda>f l. l\<lparr>lw_functions := lw_functions l @
         [placeholder_function (length (lw_functions l)) mi f]\<rparr>) (md_functions m))
       (enumerate 0 (pg_modules p)) l"

subsection \<open>The context of a body\<close>

record body_ctx =
  cx_module_name :: string
  cx_fn_name :: string
  cx_module :: module_id
  cx_env :: name_env
  cx_slots :: "sem_slot list"
  cx_name_to_slot :: "(string, nat) btree"
  cx_slot_class :: "(nat, slot_class) btree"
  cx_name_to_resource :: "(string, resource_id) btree"
  cx_kinds :: "(resource_id, res_kind) btree"
  cx_tys :: "(resource_id, base_type) btree"
  cx_sid_to_idx :: "(string, nat) btree"

definition ctx_at :: "body_ctx \<Rightarrow> stmt \<Rightarrow> string" where
  "ctx_at c s = location (cx_module_name c) (cx_fn_name c) (sm_sid s)"

definition fail_with :: "string \<Rightarrow> string \<Rightarrow> 'a backend_result" where
  "fail_with at code = Err (error_at at (invalid code))"

definition some_or :: "string \<Rightarrow> string \<Rightarrow> 'a option \<Rightarrow> 'a backend_result" where
  "some_or at code m = (case m of Some x \<Rightarrow> Ok x | None \<Rightarrow> fail_with at code)"

definition value_kind :: "body_ctx \<Rightarrow> resource_id \<Rightarrow> bool" where
  "value_kind c r \<longleftrightarrow> bt_get (cx_kinds c) r \<in> {Some KVar, Some KAtomic}"

definition value_slot :: "body_ctx \<Rightarrow> string \<Rightarrow> string \<Rightarrow> slot_ref backend_result" where
  "value_slot c n at = (case bt_get (cx_name_to_slot c) n of
      Some i \<Rightarrow> Ok (Local i)
    | None \<Rightarrow> (case bt_get (cx_name_to_resource c) n of
        Some r \<Rightarrow> if value_kind c r then Ok (Shared r) else fail_with at ''E934''
      | None \<Rightarrow> fail_with at ''E931''))"

definition writable_slot :: "body_ctx \<Rightarrow> string \<Rightarrow> string \<Rightarrow> slot_ref backend_result" where
  "writable_slot c n at =
    (if n = ''_'' then Ok Discard
     else case bt_get (cx_name_to_slot c) n of
       Some i \<Rightarrow> if bt_get (cx_slot_class c) i = Some RETURN then fail_with at ''E921'' else Ok (Local i)
     | None \<Rightarrow> (case bt_get (cx_name_to_resource c) n of
         Some r \<Rightarrow> if value_kind c r then Ok (Shared r) else fail_with at ''E934''
       | None \<Rightarrow> fail_with at ''E921''))"

fun lower_expr :: "body_ctx \<Rightarrow> expr \<Rightarrow> string \<Rightarrow> lexpr backend_result" where
  "lower_expr c (ELit l) at = Ok (Lit l)"
| "lower_expr c (EName n) at = rbind (value_slot c n at) (\<lambda>s. Ok (Slot s))"
| "lower_expr c (EField base f) at = rbind (lower_expr c base at) (\<lambda>b. Ok (Field b f))"
| "lower_expr c (ENeg e) at = rbind (lower_expr c e at) (\<lambda>x. Ok (Neg x))"
| "lower_expr c (EBin p l r) at =
     rbind (lower_expr c l at) (\<lambda>a. rbind (lower_expr c r at) (\<lambda>b. Ok (Bin p a b)))"
| "lower_expr c (ECmp p l r) at =
     rbind (lower_expr c l at) (\<lambda>a. rbind (lower_expr c r at) (\<lambda>b. Ok (Cmp p a b)))"
| "lower_expr c (EStruct fs) at =
     rbind (mapM (\<lambda>fe. rbind (lower_expr c (snd fe) at) (\<lambda>v. Ok (fst fe, v))) fs) (\<lambda>out. Ok (StructE out))"

definition ctx_expr :: "body_ctx \<Rightarrow> string \<Rightarrow> string \<Rightarrow> lexpr backend_result" where
  "ctx_expr c txt at =
     rbind (map_err (error_at at (invalid ''E931'')) (parse_expr txt (cx_env c))) (\<lambda>e. lower_expr c e at)"

definition is_float_ty :: "base_type \<Rightarrow> bool" where
  "is_float_ty ty \<longleftrightarrow> ty = Primitive ''Float''"

fun expr_is_float :: "body_ctx \<Rightarrow> lexpr \<Rightarrow> bool" where
  "expr_is_float c (Lit (LFloat _)) = True"
| "expr_is_float c (Lit _) = False"
| "expr_is_float c (Slot (Local i)) = (case nth_opt (cx_slots c) i of Some s \<Rightarrow> is_float_ty (s_ty s) | None \<Rightarrow> False)"
| "expr_is_float c (Slot (Shared r)) = (case bt_get (cx_tys c) r of Some t \<Rightarrow> is_float_ty t | None \<Rightarrow> False)"
| "expr_is_float c (Slot Discard) = False"
| "expr_is_float c (Field base _) = expr_is_float c base"
| "expr_is_float c (Neg e) = expr_is_float c e"
| "expr_is_float c (Bin _ l r) = (expr_is_float c l \<or> expr_is_float c r)"
| "expr_is_float c (Cmp _ l r) = (expr_is_float c l \<or> expr_is_float c r)"
| "expr_is_float c (StructE fs) = list_ex (\<lambda>fe. expr_is_float c (snd fe)) fs"

definition reject_float_control :: "body_ctx \<Rightarrow> lexpr \<Rightarrow> string \<Rightarrow> unit backend_result" where
  "reject_float_control c e at =
    (if expr_is_float c e then Err (error_at at (unsupported ''float control flow'')) else Ok ())"

definition ctx_target :: "body_ctx \<Rightarrow> string \<Rightarrow> string \<Rightarrow> nat backend_result" where
  "ctx_target c sid at = some_or at ''E602'' (bt_get (cx_sid_to_idx c) sid)"

definition ctx_resource :: "body_ctx \<Rightarrow> string \<Rightarrow> string \<Rightarrow> resource_id backend_result" where
  "ctx_resource c n at = some_or at ''E100'' (bt_get (cx_name_to_resource c) n)"

text \<open>A resource of the kind an operation needs.\<close>

definition of_kind :: "body_ctx \<Rightarrow> res_kind \<Rightarrow> string \<Rightarrow> string \<Rightarrow> string \<Rightarrow> resource_id backend_result" where
  "of_kind c k code n at = rbind (ctx_resource c n at) (\<lambda>r.
     if bt_get (cx_kinds c) r \<noteq> Some k then fail_with at code else Ok r)"

definition opt_slot :: "body_ctx \<Rightarrow> string option \<Rightarrow> string \<Rightarrow> slot_ref option backend_result" where
  "opt_slot c d at = (case d of
      Some n \<Rightarrow> rbind (writable_slot c n at) (\<lambda>s. Ok (Some s)) | None \<Rightarrow> Ok None)"

section \<open>Bodies\<close>

text \<open>
  Lowering of operations, bodies and whole programs (\<open>lower_op\<close>, \<open>lower_function_body\<close>,
  \<open>lower_protection\<close> and \<open>lower\<close> in \<open>src/src/sem/program.rs\<close>).
\<close>

type_synonym lowered = "(sem_op \<times> unsupported_rec list) backend_result"

definition plain :: "sem_op backend_result \<Rightarrow> lowered" where
  "plain m = rbind m (\<lambda>x. Ok (x, []))"

definition unsupported_op :: "string \<Rightarrow> string \<Rightarrow> lowered" where
  "unsupported_op at construct =
     Ok (UnsupportedOp construct, [\<lparr>un_construct = construct, un_location = Some at\<rparr>])"

definition is_external :: "sem_function \<Rightarrow> bool" where
  "is_external f \<longleftrightarrow> f_is_nobody f \<and> \<not> is_transparent_nobody f"

definition ctx_function :: "lowerer \<Rightarrow> body_ctx \<Rightarrow> string \<Rightarrow> string \<Rightarrow> (function_id \<times> sem_function) backend_result" where
  "ctx_function l c n at = rbind (some_or at ''E101'' (lw_resolve_function l (cx_module c) n)) (\<lambda>fid.
     rbind (lw_function l fid) (\<lambda>f. Ok (fid, f)))"

definition lower_assign :: "body_ctx \<Rightarrow> string \<Rightarrow> string \<Rightarrow> string \<Rightarrow> lowered" where
  "lower_assign c tgt e at = plain (rbind (writable_slot c tgt at) (\<lambda>t.
     case t of Local _ \<Rightarrow> rbind (ctx_expr c e at) (\<lambda>x. Ok (AssignLocal t x))
     | _ \<Rightarrow> fail_with at ''E936''))"

definition lower_wait :: "lowerer \<Rightarrow> body_ctx \<Rightarrow> string \<Rightarrow> string \<Rightarrow> string \<Rightarrow> lowered" where
  "lower_wait l c condvar lock at =
     rbind (of_kind c KCondvar ''E303'' condvar at) (\<lambda>cv.
     rbind (lw_resource l cv) (\<lambda>res.
       if r_mode res = Some ''Async'' then unsupported_op at ''async condvar_wait''
       else plain (rbind (of_kind c KMutex ''E303'' lock at) (\<lambda>lk. Ok (CondvarWait cv lk)))))"

definition lower_call ::
  "lowerer \<Rightarrow> body_ctx \<Rightarrow> string \<Rightarrow> string list \<Rightarrow> string option \<Rightarrow> string \<Rightarrow> lowered" where
  "lower_call l c func args dst at =
     rbind (ctx_function l c func at) (\<lambda>(callee, f).
       if is_external f then unsupported_op at ''external function''
       else if length args \<noteq> f_num_modeled_params f then fail_with at ''E920''
       else plain (rbind (mapM (\<lambda>a. ctx_expr c a at) args) (\<lambda>xs.
              rbind (opt_slot c dst at) (\<lambda>d. Ok (Call callee xs d)))))"

definition lower_spawn :: "lowerer \<Rightarrow> body_ctx \<Rightarrow> string \<Rightarrow> string \<Rightarrow> string \<Rightarrow> lowered" where
  "lower_spawn l c func handle at =
     rbind (ctx_function l c func at) (\<lambda>(callee, f).
       if f_num_modeled_params f \<noteq> 0 then fail_with at ''E922''
       else if is_external f then unsupported_op at ''external function''
       else plain (Ok (Spawn callee handle)))"

text \<open>The members of a scope from the left; the first external one ends the loop.\<close>

fun lower_scope :: "lowerer \<Rightarrow> body_ctx \<Rightarrow> string list \<Rightarrow> function_id list \<Rightarrow> string \<Rightarrow> lowered" where
  "lower_scope l c [] ids at = plain (Ok (Scope ids))"
| "lower_scope l c (func # fs) ids at =
     rbind (ctx_function l c func at) (\<lambda>(callee, f).
       if f_num_modeled_params f \<noteq> 0 then fail_with at ''E922''
       else if is_external f then unsupported_op at ''external function''
       else lower_scope l c fs (ids @ [callee]) at)"

definition lower_branch :: "body_ctx \<Rightarrow> string \<Rightarrow> string \<Rightarrow> string \<Rightarrow> string \<Rightarrow> lowered" where
  "lower_branch c cond thn els at = plain (
     rbind (ctx_expr c cond at) (\<lambda>e.
       if \<not> is_comparison e then fail_with at ''E201''
       else rbind (reject_float_control c e at) (\<lambda>_.
            rbind (ctx_target c thn at) (\<lambda>t. rbind (ctx_target c els at) (\<lambda>u. Ok (Branch e t u))))))"

definition lower_switch :: "body_ctx \<Rightarrow> string \<Rightarrow> (string, string) btree \<Rightarrow> string \<Rightarrow> string \<Rightarrow> lowered" where
  "lower_switch c v cases dflt at = plain (
     rbind (value_slot c v at) (\<lambda>s.
     rbind (reject_float_control c (Slot s) at) (\<lambda>_.
     rbind (foldM (\<lambda>(lab, tgt) m. rbind (ctx_target c tgt at) (\<lambda>t. Ok (bt_insert lab t m))) cases []) (\<lambda>m.
     rbind (ctx_target c dflt at) (\<lambda>d. Ok (Switch (Slot s) m d))))))"

definition count_or_one :: "int option \<Rightarrow> int" where
  "count_or_one n = (case n of Some k \<Rightarrow> k | None \<Rightarrow> 1)"

fun lower_op :: "lowerer \<Rightarrow> body_ctx \<Rightarrow> string \<Rightarrow> op \<Rightarrow> lowered" where
  "lower_op l c at ANop = plain (Ok Nop)"
| "lower_op l c at (AAssignLocal tgt e) = lower_assign c tgt e at"
| "lower_op l c at (AReadShared r d) = plain (rbind (of_kind c KVar ''E308'' r at) (\<lambda>rid.
     rbind (opt_slot c d at) (\<lambda>s. Ok (ReadShared rid s))))"
| "lower_op l c at (AWriteShared r e) = plain (rbind (of_kind c KVar ''E308'' r at) (\<lambda>rid.
     rbind (ctx_expr c e at) (\<lambda>x. Ok (WriteShared rid x))))"
| "lower_op l c at (AAtomicLoad r d) = plain (rbind (of_kind c KAtomic ''E309'' r at) (\<lambda>rid.
     rbind (writable_slot c d at) (\<lambda>s. Ok (AtomicLoad rid s))))"
| "lower_op l c at (AAtomicStore r e) = plain (rbind (of_kind c KAtomic ''E204'' r at) (\<lambda>rid.
     rbind (ctx_expr c e at) (\<lambda>x. Ok (AtomicStore rid x))))"
| "lower_op l c at (AAtomicCas r e d dst) = plain (rbind (of_kind c KAtomic ''E205'' r at) (\<lambda>rid.
     rbind (ctx_expr c e at) (\<lambda>x. rbind (ctx_expr c d at) (\<lambda>y.
     rbind (writable_slot c dst at) (\<lambda>s. Ok (AtomicCas rid x y s))))))"
| "lower_op l c at (AMutexLock r) = plain (rbind (of_kind c KMutex ''E301'' r at) (\<lambda>rid. Ok (MutexLock rid)))"
| "lower_op l c at (AMutexUnlock r) = plain (rbind (of_kind c KMutex ''E301'' r at) (\<lambda>rid. Ok (MutexUnlock rid)))"
| "lower_op l c at (AChannelSend ch e) = plain (rbind (of_kind c KChannel ''E302'' ch at) (\<lambda>rid.
     rbind (ctx_expr c e at) (\<lambda>x. Ok (ChannelSend rid x))))"
| "lower_op l c at (AChannelRecv ch d) = plain (rbind (of_kind c KChannel ''E302'' ch at) (\<lambda>rid.
     rbind (writable_slot c d at) (\<lambda>s. Ok (ChannelRecv rid s))))"
| "lower_op l c at (ACondvarWait cv lk) = lower_wait l c cv lk at"
| "lower_op l c at (ACondvarNotify cv) =
     plain (rbind (of_kind c KCondvar ''E303'' cv at) (\<lambda>rid. Ok (CondvarNotify rid)))"
| "lower_op l c at (ACondvarNotifyAll cv) =
     plain (rbind (of_kind c KCondvar ''E303'' cv at) (\<lambda>rid. Ok (CondvarNotifyAll rid)))"
| "lower_op l c at (ASemaphoreAcquire r n) =
     plain (rbind (of_kind c KSemaphore ''E304'' r at) (\<lambda>rid. Ok (SemaphoreAcquire rid (count_or_one n))))"
| "lower_op l c at (ASemaphoreRelease r n) =
     plain (rbind (of_kind c KSemaphore ''E304'' r at) (\<lambda>rid. Ok (SemaphoreRelease rid (count_or_one n))))"
| "lower_op l c at (AFunc f args d) = lower_call l c f args d at"
| "lower_op l c at (ASpawn f args h) = lower_spawn l c f h at"
| "lower_op l c at (AScope fs) = lower_scope l c fs [] at"
| "lower_op l c at (AJoin h) = plain (Ok (Join h))"
| "lower_op l c at (AGoto t) = plain (rbind (ctx_target c t at) (\<lambda>i. Ok (Goto i)))"
| "lower_op l c at (ABranch e t u) = lower_branch c e t u at"
| "lower_op l c at (ASwitch v cases d) = lower_switch c v cases d at"
| "lower_op l c at (AReturn v) = plain (case v of
     Some e \<Rightarrow> rbind (ctx_expr c e at) (\<lambda>x. Ok (Return (Some x))) | None \<Rightarrow> Ok (Return None))"
| "lower_op l c at (ARwLockRead _) = unsupported_op at ''rwlock''"
| "lower_op l c at (ARwLockWrite _) = unsupported_op at ''rwlock''"
| "lower_op l c at (ARwLockUnlock _) = unsupported_op at ''rwlock''"
| "lower_op l c at (ASelect _ _) = unsupported_op at ''select''"
| "lower_op l c at (AAsyncCall _ _ _) = unsupported_op at ''async_call''"
| "lower_op l c at (AAwait _) = unsupported_op at ''await''"
| "lower_op l c at (AAbstractStep _ _ _) = unsupported_op at ''abstract_step''"
| "lower_op l c at (ASeqHole _ _ _ _) = unsupported_op at ''seq_hole''"

subsection \<open>Bodies\<close>

definition env_ty_or :: "name_env \<Rightarrow> string \<Rightarrow> base_type \<Rightarrow> base_type" where
  "env_ty_or env n ty = (case env_ty env n of Some t \<Rightarrow> t | None \<Rightarrow> ty)"

definition lower_param :: "name_env \<Rightarrow> slot_class \<Rightarrow> param_decl \<Rightarrow> sem_slot" where
  "lower_param env k p = \<lparr>s_name = pd_name p, s_ty = env_ty_or env (pd_name p) (pd_type p),
     s_modeled = pd_modeled p, s_class = k, s_init = None\<rparr>"

definition lower_local ::
  "('j, 'x) json_api_scheme \<Rightarrow> name_env \<Rightarrow> 'j local_decl \<Rightarrow> sem_slot backend_result" where
  "lower_local A env d =
    (let ty = env_ty_or env (ld_name d) (ld_type d) in
     rbind (case ld_init d of
         Some j \<Rightarrow> rbind (map_err (invalid ''E203'') (from_json A j ty)) (\<lambda>v. Ok (Some v))
       | None \<Rightarrow> Ok None) (\<lambda>init.
       Ok \<lparr>s_name = ld_name d, s_ty = ty, s_modeled = ld_modeled d, s_class = LOCAL, s_init = init\<rparr>))"

text \<open>Parameters, locals, and the return slot unless a parameter or local has its name.\<close>

definition lower_slots ::
  "('j, 'x) json_api_scheme \<Rightarrow> name_env \<Rightarrow> 'j function_decl \<Rightarrow> (sem_slot list \<times> sem_slot option) backend_result" where
  "lower_slots A env f =
     rbind (mapM (lower_local A env) (fd_locals f)) (\<lambda>locals.
       let ss = map (lower_param env PARAM) (fd_params f) @ locals;
           ret = map_option (lower_param env RETURN) (fd_returns f)
       in Ok (case ret of
            Some r \<Rightarrow> if s_name r \<in> set (map s_name ss) then (ss, ret) else (ss @ [r], ret)
          | None \<Rightarrow> (ss, ret)))"

definition index_names :: "string list \<Rightarrow> (string, nat) btree" where
  "index_names ns = fold (\<lambda>(i, n). bt_insert n i) (enumerate 0 ns) []"

definition visible_resources :: "'j program_decl \<Rightarrow> 'j module_decl \<Rightarrow> module_id \<Rightarrow> lowerer \<Rightarrow> (string, resource_id) btree" where
  "visible_resources p md mid l =
    (let m = md_name md;
         own = fold (\<lambda>o_md tab. if md_name o_md \<noteq> m then tab
             else fold (\<lambda>r tab. case lw_resource_of l mid (rc_name r) of
                 Some rid \<Rightarrow> bt_insert (fqn m (rc_name r)) rid (bt_insert (rc_name r) rid tab)
               | None \<Rightarrow> tab) (md_resources o_md) tab) (pg_modules p) []
     in fold (\<lambda>req tab. case lw_resource_of l mid req of Some rid \<Rightarrow> bt_insert req rid tab | None \<Rightarrow> tab)
          (rq_resources (md_requires md)) own)"

definition resource_kinds :: "lowerer \<Rightarrow> (resource_id, res_kind) btree" where
  "resource_kinds l = fold (\<lambda>r. bt_insert (r_id r) (r_kind r)) (lw_resources l) []"

definition resource_tys :: "lowerer \<Rightarrow> (resource_id, base_type) btree" where
  "resource_tys l = fold (\<lambda>r tab. case r_ty r of Some t \<Rightarrow> bt_insert (r_id r) t tab | None \<Rightarrow> tab) (lw_resources l) []"

definition body_context ::
  "'j program_decl \<Rightarrow> 'j module_decl \<Rightarrow> 'j function_decl \<Rightarrow> module_id \<Rightarrow> name_env \<Rightarrow> sem_slot list \<Rightarrow> lowerer \<Rightarrow> body_ctx" where
  "body_context p md f mid env slots l =
     \<lparr>cx_module_name = md_name md, cx_fn_name = fd_name f, cx_module = mid, cx_env = env,
      cx_slots = slots, cx_name_to_slot = index_names (map s_name slots),
      cx_slot_class = enumerate 0 (map s_class slots),
      cx_name_to_resource = visible_resources p md mid l,
      cx_kinds = resource_kinds l, cx_tys = resource_tys l,
      cx_sid_to_idx = index_names (map sm_sid (fd_body f))\<rparr>"

definition lower_stmts ::
  "lowerer \<Rightarrow> body_ctx \<Rightarrow> stmt list \<Rightarrow> (sem_stmt list \<times> unsupported_rec list) backend_result" where
  "lower_stmts l c ss =
     rbind (mapM (\<lambda>(i, s). rbind (lower_op l c (ctx_at c s) (sm_op s)) (\<lambda>(x, us).
         Ok (\<lparr>st_id = i, st_sid = sm_sid s, st_op = x\<rparr>, us))) (enumerate 0 ss)) (\<lambda>out.
       Ok (map fst out, concat (map snd out)))"

definition lower_function_body ::
  "('j, 'x) json_api_scheme \<Rightarrow> 'j program_decl \<Rightarrow> 'j module_decl \<Rightarrow> 'j function_decl \<Rightarrow> function_id
     \<Rightarrow> lowerer \<Rightarrow> (sem_function \<times> unsupported_rec list) backend_result" where
  "lower_function_body A p md f fid l =
    (let env = build_env p md f in
     rbind (unwrap (bt_get (lw_module_ids l) (md_name md))) (\<lambda>mid.
     rbind (lower_slots A env f) (\<lambda>(slots, ret).
     let c = body_context p md f mid env slots l in
     rbind (lower_stmts l c (fd_body f)) (\<lambda>(body, us).
       Ok (\<lparr>f_id = fid, f_module = mid, f_name = fd_name f, f_kind = fd_kind f,
            f_is_nobody = (fd_body f = []), f_effects_empty = effects_are_empty f,
            f_may_block = fd_may_block f, f_params = filter (\<lambda>s. s_class s = PARAM) slots,
            f_returns = ret, f_slots = slots, f_body = body, f_sid_to_idx = cx_sid_to_idx c,
            f_requires_held = List.map_filter (lw_resource_of l mid) (le_requires_held (fd_locks f)),
            f_num_modeled_params = modeled_count f, f_bound = fd_bound f\<rparr>, us)))))"

subsection \<open>Programs\<close>

definition lower_function ::
  "('j, 'x) json_api_scheme \<Rightarrow> 'j program_decl \<Rightarrow> 'j module_decl \<Rightarrow> 'j function_decl \<Rightarrow> lowerer \<Rightarrow> lowerer backend_result" where
  "lower_function A p md f l =
     rbind (ok_or (invalid ''E102'') (lw_function_by_fqn l (fqn (md_name md) (fd_name f)))) (\<lambda>fid.
     rbind (lower_function_body A p md f fid l) (\<lambda>(fn, us).
     rbind (lw_function l fid) (\<lambda>_.
       Ok (l\<lparr>lw_functions := (lw_functions l)[fid := fn], lw_unsupported := lw_unsupported l @ us\<rparr>))))"

definition lower_functions ::
  "('j, 'x) json_api_scheme \<Rightarrow> 'j program_decl \<Rightarrow> lowerer \<Rightarrow> lowerer backend_result" where
  "lower_functions A p l =
     foldM (\<lambda>md. foldM (lower_function A p md) (md_functions md)) (pg_modules p) l"

definition lower_protection :: "'j program_decl \<Rightarrow> lowerer \<Rightarrow> (resource_id, resource_id) btree backend_result" where
  "lower_protection p l =
     foldM (\<lambda>(mi, m). foldM (\<lambda>po out.
         rbind (ok_or (invalid ''E703'') (lw_resource_of l mi (po_var po))) (\<lambda>var.
         rbind (ok_or (invalid ''E703'') (lw_resource_of l mi (po_lock po))) (\<lambda>lock.
           Ok (bt_insert var lock out)))) (md_protection m))
       (enumerate 0 (pg_modules p)) []"

text \<open>The locks each condition variable is waited on with; the target binds it to one.\<close>

definition condvar_locks :: "sem_function list \<Rightarrow> (resource_id, resource_id list) btree" where
  "condvar_locks fs =
     fold (\<lambda>f. fold (\<lambda>s tab. case st_op s of
         CondvarWait cv lk \<Rightarrow> bt_insert cv (bs_insert lk (case bt_get tab cv of Some ls \<Rightarrow> ls | None \<Rightarrow> [])) tab
       | _ \<Rightarrow> tab) (f_body f)) fs []"

definition condvar_unsupported :: "sem_function list \<Rightarrow> unsupported_rec list" where
  "condvar_unsupported fs =
     map (\<lambda>_. unsupported_new ''condvar_multiple_locks'') (filter (\<lambda>(_, ls). length ls > 1) (condvar_locks fs))"

definition initial_lowerer :: "'j program_decl \<Rightarrow> lowerer" where
  "initial_lowerer p = \<lparr>lw_module_names = map md_name (pg_modules p),
     lw_module_ids = index_names (map md_name (pg_modules p)), lw_resources = [], lw_functions = [],
     lw_entry = 0, lw_unsupported = [], lw_type_env = type_env_of p\<rparr>"

definition lower :: "('j, 'x) json_api_scheme \<Rightarrow> 'j program_decl \<Rightarrow> sem_program backend_result" where
  "lower A p =
     rbind (lower_resources A p (initial_lowerer p)) (\<lambda>l0.
     let l1 = add_placeholders p l0 in
     rbind (ok_or (invalid ''E100'') (lw_function_by_fqn l1 (pg_entry p))) (\<lambda>entry.
     rbind (lower_functions A p (l1\<lparr>lw_entry := entry\<rparr>)) (\<lambda>l2.
     rbind (lower_protection p l2) (\<lambda>protection.
       Ok \<lparr>p_module_names = lw_module_names l2, p_functions = lw_functions l2,
           p_resources = lw_resources l2, p_protection = protection, p_entry = lw_entry l2,
           p_unsupported = lw_unsupported l2 @ condvar_unsupported (lw_functions l2)\<rparr>))))"

end
