(* ===== verification/Named_Types_Laws.thy ===== *)
theory Named_Types_Laws
  imports Named_Types Value_Laws
begin

text \<open>
  Laws of named types: an expansion never depends on more of the stack than it needs, its result
  mentions builtin names only, and the types of a program without E11x diagnostics all resolve.
\<close>

fun closed_type :: "base_type \<Rightarrow> bool" where
  "closed_type (Primitive p) = is_builtin p"
| "closed_type (StructT flds) = list_all (\<lambda>kt. closed_type (snd kt)) flds"
| "closed_type (ArrayT elem len) = closed_type elem"
| "closed_type _ = True"

lemma fold_bt_insert_set:
  "p \<in> set (fold (\<lambda>(k, v). bt_insert k v) kvs m) \<Longrightarrow> p \<in> set kvs \<or> p \<in> set m"
proof (induction kvs arbitrary: m)
  case (Cons q kvs)
  obtain k v where q: "q = (k, v)" by (cases q)
  have "p \<in> set (bt_insert k v m) \<Longrightarrow> p = (k, v) \<or> p \<in> set m" for m
    by (induction k v m rule: bt_insert.induct) (auto split: if_splits)
  with Cons show ?case by (fastforce simp: q)
qed simp

lemma fold_bt_insert_ok: "bt_ok m \<Longrightarrow> bt_ok (fold (\<lambda>(k, v). bt_insert k v) kvs m)"
  by (induction kvs arbitrary: m) auto

lemma closed_struct_of:
  "(\<And>kt. kt \<in> set flds \<Longrightarrow> closed_type (snd kt)) \<Longrightarrow> closed_type (struct_of flds)"
  by (auto simp: struct_of_def list_all_iff dest: fold_bt_insert_set)

lemma wf_struct_of:
  "(\<And>kt. kt \<in> set flds \<Longrightarrow> wf_type (snd kt)) \<Longrightarrow> wf_type (struct_of flds)"
  by (auto simp: struct_of_def list_all_iff fold_bt_insert_ok dest: fold_bt_insert_set)

subsection \<open>Expansion\<close>

lemma resolve_def_closed: "resolve_def defs owner ty stack = Ok t \<Longrightarrow> closed_type t"
proof (induction defs owner ty stack arbitrary: t rule: resolve_def.induct)
  case (1 defs owner p stack)
  then show ?case
    by (auto simp: resolve_def.simps(1) [of defs] Let_def split: if_splits option.splits prod.splits)
next
  case (2 defs owner flds stack)
  from "2.prems" obtain out where out: "t = struct_of out"
    "mapM (\<lambda>kt. rbind (resolve_def defs owner (snd kt) stack) (\<lambda>t. Ok (fst kt, t))) flds = Ok out"
    by (auto simp: resolve_def.simps(2))
  show ?case unfolding out(1)
    by (rule closed_struct_of) (use "2.IH" mapM_Ok_set [OF out(2)] in fastforce)
qed (auto simp: resolve_def.simps)

lemma resolve_def_wf:
  assumes "\<And>k o' t'. bt_get defs k = Some (o', t') \<Longrightarrow> wf_type t'"
  shows "resolve_def defs owner ty stack = Ok t \<Longrightarrow> wf_type ty \<Longrightarrow> wf_type t"
  using assms
proof (induction defs owner ty stack arbitrary: t rule: resolve_def.induct)
  case (1 defs owner p stack)
  show ?case
  proof (cases "is_builtin p")
    case True
    with 1 show ?thesis by (auto simp: resolve_def.simps)
  next
    case False
    with "1.prems" obtain o' ty' where d: "bt_get defs (qualify owner p) = Some (o', ty')"
      "qualify owner p \<notin> set stack" "resolve_def defs o' ty' (stack @ [qualify owner p]) = Ok t"
      by (auto simp: resolve_def.simps(1) [of defs] Let_def split: if_splits option.splits)
    with "1.IH" False "1.prems"(3) show ?thesis by blast
  qed
next
  case (2 defs owner flds stack)
  from "2.prems" obtain out where out: "t = struct_of out"
    "mapM (\<lambda>kt. rbind (resolve_def defs owner (snd kt) stack) (\<lambda>t. Ok (fst kt, t))) flds = Ok out"
    by (auto simp: resolve_def.simps(2))
  show ?case unfolding out(1)
  proof (rule wf_struct_of)
    fix kt assume "kt \<in> set out"
    with mapM_Ok_set [OF out(2)] obtain kt' where "kt' \<in> set flds"
      "resolve_def defs owner (snd kt') stack = Ok (snd kt)" by fastforce
    with "2.IH" "2.prems" show "wf_type (snd kt)" by (fastforce simp: list_all_iff)
  qed
qed (auto simp: resolve_def.simps)

lemma resolve_def_not_Panic: "resolve_def defs owner ty stack \<noteq> Panic"
proof (induction defs owner ty stack rule: resolve_def.induct)
  case (2 defs owner flds stack)
  have "mapM (\<lambda>kt. rbind (resolve_def defs owner (snd kt) stack) (\<lambda>t. Ok (fst kt, t))) flds \<noteq> Panic"
    by (rule mapM_not_Panic) (use 2 in \<open>auto simp: rbind_eq_Panic\<close>)
  then show ?case by (simp add: resolve_def.simps rbind_eq_Panic)
qed (auto simp: resolve_def.simps Let_def rbind_eq_Panic split: option.splits)

text \<open>A smaller stack expands the same.\<close>

lemma resolve_def_stack:
  "resolve_def defs owner ty stack = Ok t \<Longrightarrow> set stack' \<subseteq> set stack \<Longrightarrow>
    resolve_def defs owner ty stack' = Ok t"
proof (induction defs owner ty stack arbitrary: t stack' rule: resolve_def.induct)
  case (1 defs owner p stack)
  show ?case
  proof (cases "is_builtin p")
    case False
    let ?key = "qualify owner p"
    from False "1.prems" obtain o' ty' where d: "bt_get defs ?key = Some (o', ty')"
      "?key \<notin> set stack" "resolve_def defs o' ty' (stack @ [?key]) = Ok t"
      by (auto simp: resolve_def.simps(1) [of defs] Let_def split: if_splits option.splits)
    have "resolve_def defs o' ty' (stack' @ [?key]) = Ok t"
      by (rule "1.IH" [OF False refl d(2) d(1) refl d(3)]) (use "1.prems"(2) in auto)
    with d "1.prems"(2) False show ?thesis by (subst resolve_def.simps) (auto simp: Let_def)
  qed (use 1 in \<open>auto simp: resolve_def.simps\<close>)
next
  case (2 defs owner flds stack)
  from "2.prems"(1) obtain out where out: "t = struct_of out"
    "mapM (\<lambda>kt. rbind (resolve_def defs owner (snd kt) stack) (\<lambda>t. Ok (fst kt, t))) flds = Ok out"
    by (auto simp: resolve_def.simps(2))
  have "mapM (\<lambda>kt. rbind (resolve_def defs owner (snd kt) stack') (\<lambda>t. Ok (fst kt, t))) flds = Ok out"
  proof (rule mapM_Ok_mono [OF out(2)])
    fix kt y assume kt: "kt \<in> set flds" "rbind (resolve_def defs owner (snd kt) stack) (\<lambda>t. Ok (fst kt, t)) = Ok y"
    then obtain t where t: "resolve_def defs owner (snd kt) stack = Ok t" "y = (fst kt, t)" by auto
    from "2.IH" [OF kt(1) t(1) "2.prems"(2)] t(2)
    show "rbind (resolve_def defs owner (snd kt) stack') (\<lambda>t. Ok (fst kt, t)) = Ok y" by simp
  qed
  then show ?case by (simp add: out(1) resolve_def.simps)
next
  case (3 defs owner elem len stack)
  from "3.prems"(1) obtain u where u: "resolve_def defs owner elem stack = Ok u" "t = ArrayT u len"
    by (auto simp: resolve_def.simps)
  from "3.IH" [OF u(1) "3.prems"(2)] u(2) show ?case by (simp add: resolve_def.simps)
qed ((clarsimp simp: resolve_def.simps)+)

text \<open>An expansion that fails has met a name: a closed type never fails.\<close>

lemma resolve_def_fails: "resolve_def defs owner ty stack = Err () \<Longrightarrow> first_undefined ty \<noteq> None"
proof (induction defs owner ty stack rule: resolve_def.induct)
  case (2 defs owner flds stack)
  have "\<exists>kt\<in>set flds. resolve_def defs owner (snd kt) stack = Err ()"
  proof (rule ccontr)
    assume "\<not> ?thesis"
    then have "\<exists>t. resolve_def defs owner (snd kt) stack = Ok t" if "kt \<in> set flds" for kt
      using that resolve_def_not_Panic [of defs owner "snd kt" stack]
      by (cases "resolve_def defs owner (snd kt) stack") auto
    then have "\<exists>g. \<forall>kt\<in>set flds. resolve_def defs owner (snd kt) stack = Ok (g kt)" by metis
    then obtain g where "\<forall>kt\<in>set flds. resolve_def defs owner (snd kt) stack = Ok (g kt)" by blast
    then have "mapM (\<lambda>kt. rbind (resolve_def defs owner (snd kt) stack) (\<lambda>t. Ok (fst kt, t))) flds =
      Ok (map (\<lambda>kt. (fst kt, g kt)) flds)"
      by (intro mapM_total) auto
    with 2(2) show False by (simp add: resolve_def.simps)
  qed
  with "2.IH" have "\<not> (\<forall>kt\<in>set flds. first_undefined (snd kt) = None)" by blast
  then show ?case by (simp add: find_map_None)
qed (auto simp: resolve_def.simps rbind_eq_Err split: if_splits)

subsection \<open>The environment\<close>

lemma fold_env_get:
  "bt_get (fold (\<lambda>(key, owner, ty) env. case resolve_def defs owner ty [] of
      Ok t \<Rightarrow> bt_insert key t env | _ \<Rightarrow> env) ds env0) k = Some t \<Longrightarrow>
   bt_get env0 k = Some t \<or> (\<exists>o' ty. (k, o', ty) \<in> set ds \<and> resolve_def defs o' ty [] = Ok t)"
  by (induction ds arbitrary: env0) (fastforce split: outc.splits if_splits)+

lemma fold_env_has:
  "bt_get env0 k \<noteq> None \<or> (\<exists>o' ty t. (k, o', ty) \<in> set ds \<and> resolve_def defs o' ty [] = Ok t) \<Longrightarrow>
   bt_get (fold (\<lambda>(key, owner, ty) env. case resolve_def defs owner ty [] of
      Ok t \<Rightarrow> bt_insert key t env | _ \<Rightarrow> env) ds env0) k \<noteq> None"
proof (induction ds arbitrary: env0)
  case (Cons d ds)
  obtain k' o' ty where d: "d = (k', o', ty)" by (cases d) auto
  let ?e = "case resolve_def defs o' ty [] of Ok t \<Rightarrow> bt_insert k' t env0 | _ \<Rightarrow> env0"
  have "bt_get ?e k \<noteq> None \<or> (\<exists>o' ty t. (k, o', ty) \<in> set ds \<and> resolve_def defs o' ty [] = Ok t)"
    using Cons.prems by (auto simp: d split: outc.splits)
  from Cons.IH [OF this] show ?case by (simp add: d)
qed simp

lemma type_env_get:
  assumes "bt_get (type_env_of p) k = Some t"
  obtains o' ty where "(k, o', ty) \<in> set (type_defs_of p)" "resolve_def (type_defs_of p) o' ty [] = Ok t"
  using fold_env_get [OF assms [unfolded type_env_of_def Let_def]] by auto

lemma type_env_closed: "bt_get (type_env_of p) k = Some t \<Longrightarrow> closed_type t"
  by (metis type_env_get resolve_def_closed)

lemma those_map_Some: "those (map f xs) = Some ys \<longleftrightarrow> list_all2 (\<lambda>x y. f x = Some y) xs ys"
  by (induction xs arbitrary: ys) (auto simp: list_all2_Cons1 split: option.splits)

lemma those_map_set: "those (map f xs) = Some ys \<Longrightarrow> y \<in> set ys \<Longrightarrow> \<exists>x\<in>set xs. f x = Some y"
  by (fastforce simp: those_map_Some list_all2_conv_all_nth in_set_conv_nth)

lemma those_map_None: "those (map f xs) = None \<longleftrightarrow> (\<exists>x\<in>set xs. f x = None)"
  by (induction xs) (auto split: option.splits)

lemma resolve_with_map_closed:
  assumes "\<And>k t. bt_get env k = Some t \<Longrightarrow> closed_type t"
  shows "resolve_with_map env m ty = Some t \<Longrightarrow> closed_type t"
  using assms
proof (induction env m ty arbitrary: t rule: resolve_with_map.induct)
  case (2 env m flds)
  then obtain out where out: "t = struct_of out"
    "those (map (\<lambda>kt. map_option (Pair (fst kt)) (resolve_with_map env m (snd kt))) flds) = Some out" by auto
  show ?case unfolding out(1)
    by (rule closed_struct_of) (use "2.IH" "2.prems"(2) those_map_set [OF out(2)] in fastforce)
qed (auto split: if_splits)

lemma resolve_with_map_wf:
  assumes "\<And>k t. bt_get env k = Some t \<Longrightarrow> wf_type t"
  shows "resolve_with_map env m ty = Some t \<Longrightarrow> wf_type ty \<Longrightarrow> wf_type t"
  using assms
proof (induction env m ty arbitrary: t rule: resolve_with_map.induct)
  case (2 env m flds)
  then obtain out where out: "t = struct_of out"
    "those (map (\<lambda>kt. map_option (Pair (fst kt)) (resolve_with_map env m (snd kt))) flds) = Some out" by auto
  have "wf_type (snd kt)" if kt: "kt \<in> set out" for kt
  proof -
    from those_map_set [OF out(2) kt] obtain kt' where "kt' \<in> set flds"
      "resolve_with_map env m (snd kt') = Some (snd kt)" by auto
    with "2.IH" "2.prems"(2,3) show ?thesis by (auto simp: list_all_iff)
  qed
  then show ?case unfolding out(1) by (rule wf_struct_of)
qed (auto split: if_splits)

subsection \<open>What the diagnostics guarantee\<close>

lemma check_ty_use_resolves:
  "no_errors (check_ty_use env m ty path) \<Longrightarrow> resolve_with_map env m ty \<noteq> None"
proof (induction env m ty path rule: check_ty_use.induct)
  case (2 env m flds path)
  then have "resolve_with_map env m (snd kt) \<noteq> None" if "kt \<in> set flds" for kt using that by auto
  then show ?case by (auto simp: those_map_None)
qed (auto simp: resolve_type_name_def split: if_splits)

lemma type_defs_of_in:
  "(k, o', ty) \<in> set (type_defs_of p) \<Longrightarrow>
    \<exists>m\<in>set (pg_modules p). \<exists>t\<in>set (md_types m). o' = md_name m \<and> ty = td_ty t \<and> k = fqn (md_name m) (td_name t)"
proof -
  have step: "e \<in> set (bt_insert k v d) \<Longrightarrow> e = (k, v) \<or> e \<in> set d"
    for e k and v :: "string \<times> base_type" and d
    by (induction k v d rule: bt_insert.induct) (auto split: if_splits)
  have inner: "e \<in> set (fold (\<lambda>t. bt_insert (fqn (md_name m) (td_name t)) (md_name m, td_ty t)) ts d) \<Longrightarrow>
     e \<in> set d \<or> (\<exists>t\<in>set ts. e = (fqn (md_name m) (td_name t), md_name m, td_ty t))"
    for e ts d and m :: "'j module_decl"
    by (induction ts arbitrary: d) (auto dest: step)
  have "e \<in> set (fold (\<lambda>m. fold (\<lambda>t. bt_insert (fqn (md_name m) (td_name t)) (md_name m, td_ty t)) (md_types m)) ms d) \<Longrightarrow>
     e \<in> set d \<or> (\<exists>m\<in>set ms. \<exists>t\<in>set (md_types m). e = (fqn (md_name m) (td_name t), md_name m, td_ty t))"
    for e d and ms :: "'j module_decl list"
    by (induction ms arbitrary: d) (auto dest: inner)
  then show "(k, o', ty) \<in> set (type_defs_of p) \<Longrightarrow> ?thesis"
    by (fastforce simp: type_defs_of_def)
qed

lemma fold_insert_keys:
  "fst ` set (fold (\<lambda>x. bt_insert (f x) (g x)) xs d) = f ` set xs \<union> fst ` set d"
  by (induction xs arbitrary: d) (auto simp: bt_insert_keys)

lemma type_defs_of_has:
  fixes p :: "'j program_decl"
  assumes "m \<in> set (pg_modules p)" "t \<in> set (md_types m)"
  shows "\<exists>o' ty. (fqn (md_name m) (td_name t), o', ty) \<in> set (type_defs_of p)"
proof -
  have "fst ` set (fold (\<lambda>m. fold (\<lambda>t. bt_insert (fqn (md_name m) (td_name t)) (md_name m, td_ty t)) (md_types m)) ms d) =
     (\<Union>m\<in>set ms. (\<lambda>t. fqn (md_name m) (td_name t)) ` set (md_types m)) \<union> fst ` set d"
    for d and ms :: "'j module_decl list"
    by (induction ms arbitrary: d) (auto simp: fold_insert_keys)
  then have "fqn (md_name m) (td_name t) \<in> fst ` set (type_defs_of p)"
    using assms by (auto simp: type_defs_of_def)
  then show ?thesis by force
qed

lemma declared_resolves:
  assumes "no_errors (check_declarations p)" "m \<in> set (pg_modules p)" "t \<in> set (md_types m)"
  shows "bt_get (type_env_of p) (fqn (md_name m) (td_name t)) \<noteq> None"
proof -
  obtain o' ty where d: "(fqn (md_name m) (td_name t), o', ty) \<in> set (type_defs_of p)"
    using type_defs_of_has [OF assms(2,3)] by auto
  from type_defs_of_in [OF d] obtain m' t' where m': "m' \<in> set (pg_modules p)" "t' \<in> set (md_types m')"
    "o' = md_name m'" "ty = td_ty t'" by auto
  from m' obtain mi i where "mi < length (pg_modules p)" "pg_modules p ! mi = m'"
    "i < length (md_types m')" "md_types m' ! i = t'" by (auto simp: in_set_conv_nth)
  with assms(1) have "no_errors (check_type_def (type_defs_of p) (md_name m') mi i t')"
    by (auto simp: check_declarations_def no_errors_each)
  then obtain u where "resolve_def (type_defs_of p) o' ty [fqn (md_name m') (td_name t')] = Ok u"
    using resolve_def_fails [of "type_defs_of p" "md_name m'" "td_ty t'"] resolve_def_not_Panic
    by (fastforce simp: check_type_def_def Let_def m' split: outc.splits if_splits)
  then have "resolve_def (type_defs_of p) o' ty [] = Ok u" by (rule resolve_def_stack) simp
  with d show ?thesis unfolding type_env_of_def Let_def by (intro fold_env_has) blast
qed

text \<open>The types a module's declarations use.\<close>

definition function_types :: "'j function_decl \<Rightarrow> base_type list" where
  "function_types f = map pd_type (fd_params f) @ map pd_type (case fd_returns f of Some r \<Rightarrow> [r] | None \<Rightarrow> [])
     @ map ld_type (fd_locals f)"

definition types_used :: "'j module_decl \<Rightarrow> base_type list" where
  "types_used m = List.map_filter rc_base (md_resources m) @ concat (map function_types (md_functions m))"

lemma used_resolves:
  assumes "no_errors (check_uses p)" "m \<in> set (pg_modules p)" "ty \<in> set (types_used m)"
  shows "resolve_type (type_env_of p) (md_name m) ty \<noteq> None"
proof -
  let ?ok = "\<exists>path. no_errors (check_ty_use (type_env_of p) (md_name m) ty path)"
  from no_errors_each_in [OF assms(1) [unfolded check_uses_def Let_def] assms(2)] obtain mi where
    res: "no_errors (each (check_resource_use (type_env_of p) (md_name m) mi) (md_resources m))" and
    fns: "no_errors (each (check_function_uses (type_env_of p) (md_name m) mi) (md_functions m))" by auto
  from assms(3) consider r where "r \<in> set (md_resources m)" "rc_base r = Some ty"
    | f where "f \<in> set (md_functions m)" "ty \<in> set (function_types f)"
    by (auto simp: types_used_def List.map_filter_def)
  then have ?ok
  proof cases
    case 1
    from no_errors_each_in [OF res 1(1)] 1(2) show ?thesis by (auto simp: check_resource_use_def)
  next
    case 2
    from no_errors_each_in [OF fns 2(1)] obtain fi where
      c: "no_errors (check_function_uses (type_env_of p) (md_name m) mi fi f)" ..
    from 2(2) consider pd where "pd \<in> set (fd_params f)" "ty = pd_type pd"
      | r where "fd_returns f = Some r" "ty = pd_type r" | l where "l \<in> set (fd_locals f)" "ty = ld_type l"
      by (cases "fd_returns f") (auto simp: function_types_def)
    then show ?thesis using c
      by cases (auto simp: check_function_uses_def dest: no_errors_each_in)
  qed
  then show ?thesis by (auto simp: resolve_type_def dest: check_ty_use_resolves)
qed

end
