(* ===== verification/Lower_Laws.thy ===== *)
theory Lower_Laws
  imports Lowering Named_Types_Laws Interp_Safety
begin

text \<open>
  What lowering guarantees: the tables carry their indices as ids, and every name in a body has
  become an index in range, of a resource of the kind the operation needs.
\<close>

subsection \<open>Closed programs\<close>

type_synonym kinds = "resource_id \<Rightarrow> res_kind option"

definition kind_at :: "sem_resource list \<Rightarrow> kinds" where
  "kind_at rs r = map_option r_kind (nth_opt rs r)"

fun slot_closed :: "kinds \<Rightarrow> nat \<Rightarrow> slot_ref \<Rightarrow> bool" where
  "slot_closed K ns (Local i) = (i < ns)"
| "slot_closed K ns (Shared r) = (K r \<in> {Some KVar, Some KAtomic})"
| "slot_closed K ns Discard = True"

fun expr_closed :: "kinds \<Rightarrow> nat \<Rightarrow> lexpr \<Rightarrow> bool" where
  "expr_closed K ns (Lit _) = True"
| "expr_closed K ns (Slot s) = (slot_closed K ns s \<and> s \<noteq> Discard)"
| "expr_closed K ns (Field b _) = expr_closed K ns b"
| "expr_closed K ns (Neg e) = expr_closed K ns e"
| "expr_closed K ns (Bin _ l r) = (expr_closed K ns l \<and> expr_closed K ns r)"
| "expr_closed K ns (Cmp _ l r) = (expr_closed K ns l \<and> expr_closed K ns r)"
| "expr_closed K ns (StructE fs) = list_all (\<lambda>fe. expr_closed K ns (snd fe)) fs"

definition opt_closed :: "('a \<Rightarrow> bool) \<Rightarrow> 'a option \<Rightarrow> bool" where
  "opt_closed P m = (case m of Some x \<Rightarrow> P x | None \<Rightarrow> True)"

text \<open>\<open>nf\<close> functions, \<open>ns\<close> slots of the function, \<open>nb\<close> statements in its body.\<close>

fun op_closed :: "kinds \<Rightarrow> nat \<Rightarrow> nat \<Rightarrow> nat \<Rightarrow> sem_op \<Rightarrow> bool" where
  "op_closed K nf ns nb Nop = True"
| "op_closed K nf ns nb (AssignLocal d e) = (slot_closed K ns d \<and> (\<exists>i. d = Local i) \<and> expr_closed K ns e)"
| "op_closed K nf ns nb (ReadShared r d) = (K r = Some KVar \<and> opt_closed (slot_closed K ns) d)"
| "op_closed K nf ns nb (WriteShared r e) = (K r = Some KVar \<and> expr_closed K ns e)"
| "op_closed K nf ns nb (AtomicLoad r d) = (K r = Some KAtomic \<and> slot_closed K ns d)"
| "op_closed K nf ns nb (AtomicStore r e) = (K r = Some KAtomic \<and> expr_closed K ns e)"
| "op_closed K nf ns nb (AtomicCas r e d s) =
     (K r = Some KAtomic \<and> expr_closed K ns e \<and> expr_closed K ns d \<and> slot_closed K ns s)"
| "op_closed K nf ns nb (MutexLock r) = (K r = Some KMutex)"
| "op_closed K nf ns nb (MutexUnlock r) = (K r = Some KMutex)"
| "op_closed K nf ns nb (ChannelSend r e) = (K r = Some KChannel \<and> expr_closed K ns e)"
| "op_closed K nf ns nb (ChannelRecv r d) = (K r = Some KChannel \<and> slot_closed K ns d)"
| "op_closed K nf ns nb (CondvarWait cv lk) = (K cv = Some KCondvar \<and> K lk = Some KMutex)"
| "op_closed K nf ns nb (CondvarNotify cv) = (K cv = Some KCondvar)"
| "op_closed K nf ns nb (CondvarNotifyAll cv) = (K cv = Some KCondvar)"
| "op_closed K nf ns nb (SemaphoreAcquire r n) = (K r = Some KSemaphore)"
| "op_closed K nf ns nb (SemaphoreRelease r n) = (K r = Some KSemaphore)"
| "op_closed K nf ns nb (Call f args d) =
     (f < nf \<and> list_all (expr_closed K ns) args \<and> opt_closed (slot_closed K ns) d)"
| "op_closed K nf ns nb (Spawn f h) = (f < nf)"
| "op_closed K nf ns nb (Scope fs) = list_all (\<lambda>f. f < nf) fs"
| "op_closed K nf ns nb (Join h) = True"
| "op_closed K nf ns nb (Goto t) = (t < nb)"
| "op_closed K nf ns nb (Branch e t u) = (expr_closed K ns e \<and> is_comparison e \<and> t < nb \<and> u < nb)"
| "op_closed K nf ns nb (Switch e cases d) =
     (expr_closed K ns e \<and> list_all (\<lambda>lt. snd lt < nb) cases \<and> bt_ok cases \<and> d < nb)"
| "op_closed K nf ns nb (Return v) = opt_closed (expr_closed K ns) v"
| "op_closed K nf ns nb (UnsupportedOp _) = True"

definition function_closed :: "kinds \<Rightarrow> nat \<Rightarrow> sem_function \<Rightarrow> bool" where
  "function_closed K nf fn \<longleftrightarrow>
     list_all (\<lambda>s. op_closed K nf (length (f_slots fn)) (length (f_body fn)) (st_op s)) (f_body fn) \<and>
     map st_id (f_body fn) = [0..<length (f_body fn)]"

definition closed_program :: "sem_program \<Rightarrow> bool" where
  "closed_program P \<longleftrightarrow>
     map r_id (p_resources P) = [0..<length (p_resources P)] \<and>
     map f_id (p_functions P) = [0..<length (p_functions P)] \<and>
     p_entry P < length (p_functions P) \<and>
     list_all (\<lambda>r. r_module r < length (p_module_names P)) (p_resources P) \<and>
     list_all (\<lambda>f. f_module f < length (p_module_names P)) (p_functions P) \<and>
     list_all (function_closed (kind_at (p_resources P)) (length (p_functions P))) (p_functions P)"

subsection \<open>Tables\<close>

lemma fold_enumerate_get:
  "bt_get (fold (\<lambda>(i, n). bt_insert n i) (enumerate k ns) m) n = Some i \<Longrightarrow>
    (k \<le> i \<and> i < k + length ns \<and> ns ! (i - k) = n) \<or> bt_get m n = Some i"
proof (induction ns arbitrary: k m)
  case (Cons a ns)
  from Cons.IH [of "Suc k" "bt_insert a k m"] Cons.prems show ?case
    by (auto simp: nth_Cons' split: if_splits)
qed simp

lemma index_names_get: "bt_get (index_names ns) n = Some i \<Longrightarrow> i < length ns \<and> ns ! i = n"
  using fold_enumerate_get [of 0 ns "[]" n i] by (auto simp: index_names_def)

lemma fold_enumerate_has:
  "n \<in> set ns \<or> bt_get m n \<noteq> None \<Longrightarrow> bt_get (fold (\<lambda>(i, n). bt_insert n i) (enumerate k ns) m) n \<noteq> None"
  by (induction ns arbitrary: k m) auto

lemma index_names_has: "n \<in> set ns \<Longrightarrow> bt_get (index_names ns) n \<noteq> None"
  by (simp add: index_names_def fold_enumerate_has)

lemma enumerate_snoc_ids:
  "map g xs = [0..<length xs] \<Longrightarrow> g x = length xs \<Longrightarrow> map g (xs @ [x]) = [0..<length (xs @ [x])]"
  by simp

lemma ids_nth: "map g xs = [0..<length xs] \<Longrightarrow> i < length xs \<Longrightarrow> g (xs ! i) = i"
  by (metis add.left_neutral nth_map nth_upt)

lemma ids_mem: "map g xs = [0..<length xs] \<Longrightarrow> x \<in> set xs \<Longrightarrow> g x < length xs \<and> xs ! g x = x"
  by (metis ids_nth in_set_conv_nth)

lemma bt_insert_set: "e \<in> set (bt_insert k v m) \<Longrightarrow> e = (k, v) \<or> e \<in> set m"
  by (induction k v m rule: bt_insert.induct) (auto split: if_splits)

lemma fold_insert_get:
  "bt_get (fold (\<lambda>x. bt_insert (f x) (g x)) xs m) k = Some v \<Longrightarrow>
    (\<exists>x\<in>set xs. f x = k \<and> g x = v) \<or> bt_get m k = Some v"
  by (induction xs arbitrary: m) (fastforce split: if_splits)+

subsection \<open>The lowerer\<close>

definition lw_ok :: "string list \<Rightarrow> lowerer \<Rightarrow> bool" where
  "lw_ok names l \<longleftrightarrow> lw_module_names l = names \<and> lw_module_ids l = index_names names \<and>
     map r_id (lw_resources l) = [0..<length (lw_resources l)] \<and>
     map f_id (lw_functions l) = [0..<length (lw_functions l)] \<and>
     list_all (\<lambda>r. r_module r < length names) (lw_resources l) \<and>
     list_all (\<lambda>f. f_module f < length names) (lw_functions l)"

lemma lw_ok_init: "lw_ok (map md_name (pg_modules p)) (initial_lowerer p)"
  by (simp add: lw_ok_def initial_lowerer_def)

lemma lw_parts_range:
  "lw_ok names l \<Longrightarrow> lw_parts l m n = Some (mid, e) \<Longrightarrow> m < length names \<Longrightarrow> mid < length names"
  by (auto simp: lw_parts_def lw_ok_def split: option.splits dest: index_names_get)

lemma lw_resource_of_range:
  "lw_ok names l \<Longrightarrow> lw_resource_of l m n = Some r \<Longrightarrow> r < length (lw_resources l)"
  by (auto simp: lw_resource_of_def lw_ok_def bind_eq_Some_conv dest!: find_index dest: ids_nth)

lemma lw_find_function_range:
  "lw_ok names l \<Longrightarrow> lw_find_function l m e = Some f \<Longrightarrow> f < length (lw_functions l)"
  by (auto simp: lw_find_function_def lw_ok_def dest!: find_index dest: ids_nth)

lemma lw_function_by_fqn_range:
  "lw_ok names l \<Longrightarrow> lw_function_by_fqn l n = Some f \<Longrightarrow> f < length (lw_functions l)"
  by (auto simp: lw_function_by_fqn_def bind_eq_Some_conv dest: lw_find_function_range)

lemma lw_resolve_function_range:
  "lw_ok names l \<Longrightarrow> lw_resolve_function l m n = Some f \<Longrightarrow> f < length (lw_functions l)"
  by (auto simp: lw_resolve_function_def bind_eq_Some_conv dest: lw_find_function_range)

lemma resource_kinds_get:
  "lw_ok names l \<Longrightarrow> bt_get (resource_kinds l) r = Some k \<Longrightarrow> kind_at (lw_resources l) r = Some k"
proof -
  assume "lw_ok names l" "bt_get (resource_kinds l) r = Some k"
  then have ids: "map r_id (lw_resources l) = [0..<length (lw_resources l)]" and
    "\<exists>x\<in>set (lw_resources l). r_id x = r \<and> r_kind x = k"
    by (auto simp: lw_ok_def resource_kinds_def dest!: fold_insert_get)
  then obtain x where "x \<in> set (lw_resources l)" "r_id x = r" "r_kind x = k" by blast
  with ids_mem [OF ids this(1)] show ?thesis by (auto simp: kind_at_def nth_opt_def)
qed

subsection \<open>Operations\<close>

text \<open>A context whose tables point into the program being built.\<close>

definition ctx_closed :: "kinds \<Rightarrow> nat \<Rightarrow> nat \<Rightarrow> body_ctx \<Rightarrow> bool" where
  "ctx_closed K ns nb c \<longleftrightarrow>
     (\<forall>n i. bt_get (cx_name_to_slot c) n = Some i \<longrightarrow> i < ns) \<and>
     (\<forall>r k. bt_get (cx_kinds c) r = Some k \<longrightarrow> K r = Some k) \<and>
     (\<forall>s i. bt_get (cx_sid_to_idx c) s = Some i \<longrightarrow> i < nb)"

lemma fail_with_not_Ok [simp]: "fail_with at code \<noteq> Ok x"
  by (simp add: fail_with_def)

lemma some_or_Ok [simp]: "some_or at code m = Ok x \<longleftrightarrow> m = Some x"
  by (cases m) (auto simp: some_or_def)

lemma plain_Ok [simp]: "plain m = Ok (x, us) \<longleftrightarrow> m = Ok x \<and> us = []"
  by (auto simp: plain_def)

lemma unsupported_op_Ok [simp]:
  "unsupported_op at n = Ok (x, us) \<longleftrightarrow>
    x = UnsupportedOp n \<and> us = [\<lparr>un_construct = n, un_location = Some at\<rparr>]"
  by (auto simp: unsupported_op_def)

lemma value_slot_closed:
  "ctx_closed K ns nb c \<Longrightarrow> value_slot c n at = Ok s \<Longrightarrow> slot_closed K ns s \<and> s \<noteq> Discard"
  by (auto simp: value_slot_def ctx_closed_def value_kind_def split: option.splits if_splits)

lemma writable_slot_closed:
  "ctx_closed K ns nb c \<Longrightarrow> writable_slot c n at = Ok s \<Longrightarrow> slot_closed K ns s"
  by (auto simp: writable_slot_def ctx_closed_def value_kind_def split: option.splits if_splits)

lemma of_kind_closed: "ctx_closed K ns nb c \<Longrightarrow> of_kind c k code n at = Ok r \<Longrightarrow> K r = Some k"
  by (auto simp: of_kind_def ctx_closed_def split: if_splits)

lemma ctx_target_closed: "ctx_closed K ns nb c \<Longrightarrow> ctx_target c sid at = Ok i \<Longrightarrow> i < nb"
  by (auto simp: ctx_target_def ctx_closed_def)

lemma opt_slot_closed:
  "ctx_closed K ns nb c \<Longrightarrow> opt_slot c d at = Ok s \<Longrightarrow> opt_closed (slot_closed K ns) s"
  by (auto simp: opt_slot_def opt_closed_def split: option.splits dest: writable_slot_closed)

lemma lower_expr_closed:
  "lower_expr c e at = Ok x \<Longrightarrow> ctx_closed K ns nb c \<Longrightarrow> expr_closed K ns x"
proof (induction c e at arbitrary: x rule: lower_expr.induct)
  case (7 c fs at)
  then obtain out where out: "x = StructE out"
    "mapM (\<lambda>fe. rbind (lower_expr c (snd fe) at) (\<lambda>v. Ok (fst fe, v))) fs = Ok out" by auto
  have "expr_closed K ns (snd fe)" if fe: "fe \<in> set out" for fe
  proof -
    from mapM_Ok_set [OF out(2) fe] obtain fe' where "fe' \<in> set fs" "lower_expr c (snd fe') at = Ok (snd fe)"
      by auto
    with "7.IH" "7.prems"(2) show ?thesis by blast
  qed
  then show ?case by (auto simp: out(1) list_all_iff)
qed (auto dest: value_slot_closed)

lemma ctx_expr_closed: "ctx_closed K ns nb c \<Longrightarrow> ctx_expr c txt at = Ok x \<Longrightarrow> expr_closed K ns x"
  by (auto simp: ctx_expr_def dest: lower_expr_closed)

lemma mapM_ctx_expr_closed:
  "ctx_closed K ns nb c \<Longrightarrow> mapM (\<lambda>a. ctx_expr c a at) args = Ok xs \<Longrightarrow> list_all (expr_closed K ns) xs"
  by (auto simp: list_all_iff dest!: mapM_Ok_set dest: ctx_expr_closed)

lemmas ctx_closed_dests = value_slot_closed writable_slot_closed of_kind_closed ctx_target_closed
  opt_slot_closed ctx_expr_closed mapM_ctx_expr_closed

lemma ctx_function_range:
  "lw_ok names l \<Longrightarrow> ctx_function l c n at = Ok (fid, f) \<Longrightarrow> fid < length (lw_functions l)"
  by (auto simp: ctx_function_def dest: lw_resolve_function_range)

lemma switch_cases_closed:
  assumes "ctx_closed K ns nb c"
    "foldM (\<lambda>(lab, tgt) m. rbind (ctx_target c tgt at) (\<lambda>t. Ok (bt_insert lab t m))) cases [] = Ok m"
  shows "list_all (\<lambda>lt. snd lt < nb) m \<and> bt_ok m"
proof (rule foldM_invariant [OF assms(2)])
  fix x s s' assume s: "list_all (\<lambda>lt. snd lt < nb) s \<and> bt_ok s"
    "(case x of (lab, tgt) \<Rightarrow> \<lambda>m. rbind (ctx_target c tgt at) (\<lambda>t. Ok (bt_insert lab t m))) s = Ok s'"
  then obtain lab t where "t < nb" "s' = bt_insert lab t s"
    by (auto split: prod.splits dest: ctx_target_closed [OF assms(1)])
  with s(1) show "list_all (\<lambda>lt. snd lt < nb) s' \<and> bt_ok s'"
    by (auto simp: list_all_iff dest!: bt_insert_set)
qed simp

lemma lower_scope_closed:
  "lower_scope l c fs ids at = Ok (x, us) \<Longrightarrow> lw_ok names l \<Longrightarrow> \<forall>f\<in>set ids. f < length (lw_functions l) \<Longrightarrow>
    op_closed K (length (lw_functions l)) ns nb x"
  by (induction l c fs ids at rule: lower_scope.induct)
    (auto simp: list_all_iff split: if_splits dest: ctx_function_range)

lemma lower_op_closed:
  assumes "ctx_closed K ns nb c" "lw_ok names l" "lower_op l c at p = Ok (x, us)"
  shows "op_closed K (length (lw_functions l)) ns nb x"
proof (cases p)
  case (AAssignLocal tgt e)
  with assms(3) obtain t where t: "writable_slot c tgt at = Ok t" "us = []"
    "(case t of Local _ \<Rightarrow> rbind (ctx_expr c e at) (\<lambda>x. Ok (AssignLocal t x)) | _ \<Rightarrow> fail_with at ''E936'') = Ok x"
    by (auto simp: lower_assign_def)
  with writable_slot_closed [OF assms(1) t(1)] show ?thesis
    by (cases t) (auto dest: ctx_expr_closed [OF assms(1)])
next
  case (ACondvarWait cv lk)
  with assms show ?thesis by (auto simp: lower_wait_def split: if_splits dest: ctx_closed_dests)
next
  case (AFunc f args d)
  with assms show ?thesis
    by (auto simp: lower_call_def split: if_splits dest: ctx_closed_dests ctx_function_range)
next
  case (ASpawn f args h)
  with assms show ?thesis by (auto simp: lower_spawn_def split: if_splits dest: ctx_function_range)
next
  case (AScope fs)
  with assms show ?thesis by (auto dest!: lower_scope_closed)
next
  case (ABranch e t u)
  with assms show ?thesis by (auto simp: lower_branch_def split: if_splits dest: ctx_closed_dests)
next
  case (ASwitch v cases d)
  with assms show ?thesis
    by (auto simp: lower_switch_def dest: ctx_closed_dests switch_cases_closed)
next
  case (AReturn v)
  with assms show ?thesis by (auto simp: opt_closed_def split: option.splits dest: ctx_closed_dests)
qed (use assms in \<open>auto dest: ctx_closed_dests\<close>)

subsection \<open>Bodies\<close>

lemma lower_stmts_closed:
  assumes "ctx_closed K ns (length ss) c" "lw_ok names l" "lower_stmts l c ss = Ok (body, us)"
  shows "length body = length ss \<and> map st_id body = [0..<length body] \<and>
    list_all (\<lambda>s. op_closed K (length (lw_functions l)) ns (length body) (st_op s)) body"
proof -
  from assms(3) obtain out where out: "body = map fst out"
    "mapM (\<lambda>(i, s). rbind (lower_op l c (ctx_at c s) (sm_op s)) (\<lambda>(x, us).
       Ok (\<lparr>st_id = i, st_sid = sm_sid s, st_op = x\<rparr>, us))) (enumerate 0 ss) = Ok out"
    by (auto simp: lower_stmts_def)
  from mapM_Ok_length [OF out(2)] have len: "length out = length ss" by simp
  have each: "st_id (fst (out ! i)) = i \<and> op_closed K (length (lw_functions l)) ns (length ss) (st_op (fst (out ! i)))"
    if "i < length ss" for i
  proof -
    from mapM_nth [OF out(2), of i] that obtain x us where
      "lower_op l c (ctx_at c (ss ! i)) (sm_op (ss ! i)) = Ok (x, us)"
      "out ! i = (\<lparr>st_id = i, st_sid = sm_sid (ss ! i), st_op = x\<rparr>, us)"
      by (auto simp: nth_enumerate_eq)
    with lower_op_closed [OF assms(1,2)] show ?thesis by auto
  qed
  show ?thesis using each len by (auto simp: out(1) list_all_length intro!: nth_equalityI)
qed

lemma lower_stmts_closed':
  "ctx_closed K ns (length ss) c \<Longrightarrow> lw_ok names l \<Longrightarrow> lower_stmts l c ss = Ok (body, us) \<Longrightarrow> f_slots fn = slots \<Longrightarrow>
    length slots = ns \<Longrightarrow> f_body fn = body \<Longrightarrow> function_closed K (length (lw_functions l)) fn"
  using lower_stmts_closed by (fastforce simp: function_closed_def)

lemma lower_slots_parts:
  assumes "lower_slots A env f = Ok (slots, ret)"
  obtains locals where "mapM (lower_local A env) (fd_locals f) = Ok locals"
    "ret = map_option (lower_param env RETURN) (fd_returns f)"
    "set slots \<subseteq> set (map (lower_param env PARAM) (fd_params f) @ locals) \<union> set_option ret"
  using assms by (fastforce simp: lower_slots_def Let_def split: option.splits if_splits)

lemma body_context_closed:
  assumes "lw_ok names l"
  shows "ctx_closed (kind_at (lw_resources l)) (length slots) (length (fd_body f)) (body_context p md f mid env slots l)"
  using resource_kinds_get [OF assms]
  by (auto simp: ctx_closed_def body_context_def dest: index_names_get)

lemma lower_function_body_closed:
  assumes "lw_ok names l" "lower_function_body A p md f fid l = Ok (fn, us)"
  shows "f_id fn = fid \<and> f_module fn < length names \<and> f_name fn = fd_name f \<and>
    function_closed (kind_at (lw_resources l)) (length (lw_functions l)) fn"
proof -
  from assms(2) obtain mid slots ret body where *:
    "bt_get (lw_module_ids l) (md_name md) = Some mid"
    "lower_stmts l (body_context p md f mid (build_env p md f) slots l) (fd_body f) = Ok (body, us)"
    "f_id fn = fid" "f_module fn = mid" "f_name fn = fd_name f" "f_slots fn = slots" "f_body fn = body"
    by (auto simp: lower_function_body_def Let_def)
  from *(1) assms(1) have "mid < length names" by (auto simp: lw_ok_def dest: index_names_get)
  moreover have "function_closed (kind_at (lw_resources l)) (length (lw_functions l)) fn"
    by (rule lower_stmts_closed' [OF body_context_closed [OF assms(1)] assms(1) *(2)]) (simp_all add: *)
  ultimately show ?thesis by (simp add: *)
qed

subsection \<open>Programs\<close>

lemma foldM_enumerate_invariant:
  assumes "foldM f (enumerate 0 xs) s = Ok t" "I s"
    "\<And>i s s'. i < length xs \<Longrightarrow> I s \<Longrightarrow> f (i, xs ! i) s = Ok s' \<Longrightarrow> I s'"
  shows "I t"
  by (rule foldM_invariant [where I = I, OF assms(1) assms(2)]) (use assms(3) in \<open>auto simp: in_set_enumerate_eq\<close>)

lemma lower_resource_fields:
  "lower_resource A m mid r rid tenv = Ok res \<Longrightarrow> r_id res = rid \<and> r_module res = mid"
  by (auto simp: lower_resource_def)

lemma lower_resources_inv:
  assumes "lower_resources A p l = Ok l'" "I l"
    and step: "\<And>mi m r l res. mi < length (pg_modules p) \<Longrightarrow> pg_modules p ! mi = m \<Longrightarrow> r \<in> set (md_resources m) \<Longrightarrow> I l \<Longrightarrow>
      lower_resource A (md_name m) mi r (length (lw_resources l)) (lw_type_env l) = Ok res \<Longrightarrow>
      I (l\<lparr>lw_resources := lw_resources l @ [res]\<rparr>)"
  shows "I l'"
  using assms(1) unfolding lower_resources_def
proof (rule foldM_enumerate_invariant [where I = I])
  fix mi s s' assume mi: "mi < length (pg_modules p)" "I s"
    "(case (mi, pg_modules p ! mi) of (mi, m) \<Rightarrow> foldM (\<lambda>r l.
         rbind (lower_resource A (md_name m) mi r (length (lw_resources l)) (lw_type_env l)) (\<lambda>res.
           Ok (l\<lparr>lw_resources := lw_resources l @ [res]\<rparr>))) (md_resources m)) s = Ok s'"
  from mi(3) have "foldM (\<lambda>r l.
         rbind (lower_resource A (md_name (pg_modules p ! mi)) mi r (length (lw_resources l)) (lw_type_env l)) (\<lambda>res.
           Ok (l\<lparr>lw_resources := lw_resources l @ [res]\<rparr>))) (md_resources (pg_modules p ! mi)) s = Ok s'"
    by simp
  then show "I s'"
    by (rule foldM_invariant [where I = I]) (use step [OF mi(1) refl] mi(2) in auto)
qed fact

lemma lower_resources_ok:
  assumes "lower_resources A p (initial_lowerer p) = Ok l"
  shows "lw_ok (map md_name (pg_modules p)) l \<and> lw_functions l = [] \<and> lw_type_env l = type_env_of p"
proof (rule lower_resources_inv [OF assms])
  show "lw_ok (map md_name (pg_modules p)) (initial_lowerer p) \<and> lw_functions (initial_lowerer p) = [] \<and>
      lw_type_env (initial_lowerer p) = type_env_of p"
    by (simp add: lw_ok_init) (simp add: initial_lowerer_def)
qed (auto simp: lw_ok_def dest: lower_resource_fields)

lemma add_placeholders_inv:
  assumes "I l" and step: "\<And>mi f l. mi < length (pg_modules p) \<Longrightarrow> f \<in> set (md_functions (pg_modules p ! mi)) \<Longrightarrow>
    I l \<Longrightarrow> I (l\<lparr>lw_functions := lw_functions l @ [placeholder_function (length (lw_functions l)) mi f]\<rparr>)"
  shows "I (add_placeholders p l)"
proof -
  have inner: "I l \<Longrightarrow> set fs \<subseteq> set (md_functions (pg_modules p ! mi)) \<Longrightarrow> mi < length (pg_modules p) \<Longrightarrow>
     I (fold (\<lambda>f l. l\<lparr>lw_functions := lw_functions l @ [placeholder_function (length (lw_functions l)) mi f]\<rparr>) fs l)" for l fs mi
    by (induction fs arbitrary: l) (auto intro: step)
  have "I l \<Longrightarrow> (\<forall>(mi, m) \<in> set ms. mi < length (pg_modules p) \<and> m = pg_modules p ! mi) \<Longrightarrow>
     I (fold (\<lambda>(mi, m). fold (\<lambda>f l. l\<lparr>lw_functions := lw_functions l @
         [placeholder_function (length (lw_functions l)) mi f]\<rparr>) (md_functions m)) ms l)" for l ms
    by (induction ms arbitrary: l) (auto intro: inner)
  moreover have "\<forall>(mi, m) \<in> set (enumerate 0 (pg_modules p)). mi < length (pg_modules p) \<and> m = pg_modules p ! mi"
    by (auto simp: in_set_enumerate_eq)
  ultimately show ?thesis unfolding add_placeholders_def using assms(1) by blast
qed

lemma placeholder_closed: "function_closed K nf (placeholder_function fid mid f)"
  by (simp add: function_closed_def placeholder_function_def)

text \<open>What holds from the placeholders on.\<close>

definition lw_closed :: "string list \<Rightarrow> sem_resource list \<Rightarrow> nat \<Rightarrow> lowerer \<Rightarrow> bool" where
  "lw_closed names ress nf l \<longleftrightarrow> lw_ok names l \<and> lw_resources l = ress \<and> length (lw_functions l) = nf \<and>
     list_all (function_closed (kind_at ress) nf) (lw_functions l)"

lemma add_placeholders_closed:
  assumes "lw_ok names l" "lw_functions l = []" "length names = length (pg_modules p)"
  shows "lw_closed names (lw_resources l) (length (lw_functions (add_placeholders p l))) (add_placeholders p l)"
proof -
  have "lw_ok names (add_placeholders p l) \<and> lw_resources (add_placeholders p l) = lw_resources l \<and>
     (\<forall>nf. list_all (function_closed (kind_at (lw_resources l)) nf) (lw_functions (add_placeholders p l)))"
    by (rule add_placeholders_inv)
      (use assms in \<open>auto simp: lw_ok_def placeholder_closed\<close>, simp_all add: placeholder_function_def)
  then show ?thesis by (simp add: lw_closed_def)
qed

lemma lower_function_closed:
  assumes "lw_closed names ress nf l" "lower_function A p md f l = Ok l'"
  shows "lw_closed names ress nf l' \<and> lw_entry l' = lw_entry l"
proof -
  from assms(2) obtain fid fn us where *: "lower_function_body A p md f fid l = Ok (fn, us)"
    "l' = l\<lparr>lw_functions := (lw_functions l)[fid := fn], lw_unsupported := lw_unsupported l @ us\<rparr>"
    "fid < length (lw_functions l)"
    by (auto simp: lower_function_def lw_function_def)
  have ok: "lw_ok names l" using assms(1) by (simp add: lw_closed_def)
  note fn = lower_function_body_closed [OF ok *(1)]
  have "map f_id ((lw_functions l)[fid := fn]) = [0..<length (lw_functions l)]"
    by (rule nth_equalityI) (use ids_nth [of f_id "lw_functions l"] ok fn *(3) in \<open>auto simp: lw_ok_def nth_list_update\<close>)
  with fn assms(1) ok *(3) show ?thesis
    by (auto simp: lw_closed_def lw_ok_def *(2) list_all_iff dest!: set_update_subset_insert [THEN subsetD])
qed

lemma lower_functions_inv:
  assumes "lower_functions A p l = Ok l'" "I l"
    and step: "\<And>md f l l'. md \<in> set (pg_modules p) \<Longrightarrow> f \<in> set (md_functions md) \<Longrightarrow> I l \<Longrightarrow>
      lower_function A p md f l = Ok l' \<Longrightarrow> I l'"
  shows "I l'"
  using assms(1) unfolding lower_functions_def
proof (rule foldM_invariant [where I = I])
  fix md s s' assume "md \<in> set (pg_modules p)" "I s" "foldM (lower_function A p md) (md_functions md) s = Ok s'"
  then show "I s'"
    by (metis foldM_invariant [where I = I and f = "lower_function A p md"] step)
qed fact

lemma lower_cases:
  assumes "lower A p = Ok P"
  obtains l0 entry l2 where
    "lower_resources A p (initial_lowerer p) = Ok l0"
    "lw_function_by_fqn (add_placeholders p l0) (pg_entry p) = Some entry"
    "lower_functions A p ((add_placeholders p l0)\<lparr>lw_entry := entry\<rparr>) = Ok l2"
    "p_functions P = lw_functions l2" "p_resources P = lw_resources l2" "p_entry P = lw_entry l2"
    "p_module_names P = lw_module_names l2" "lower_protection p l2 = Ok (p_protection P)"
    "p_unsupported P = lw_unsupported l2 @ condvar_unsupported (lw_functions l2)"
  using assms by (auto simp: lower_def Let_def)

lemma lower_closed:
  assumes "lower A p = Ok P"
  shows "closed_program P \<and> p_module_names P = map md_name (pg_modules p)"
  using assms
proof (cases rule: lower_cases)
  case (1 l0 entry l2)
  let ?names = "map md_name (pg_modules p)" and ?l1 = "add_placeholders p l0"
  from lower_resources_ok [OF 1(1)] have l0: "lw_ok ?names l0" "lw_functions l0 = []" by auto
  from add_placeholders_closed [OF l0, of p] have l1: "lw_closed ?names (lw_resources l0) (length (lw_functions ?l1)) ?l1" by simp
  then have entry: "entry < length (lw_functions ?l1)"
    using lw_function_by_fqn_range [OF _ 1(2)] unfolding lw_closed_def by blast
  have "lw_closed ?names (lw_resources l0) (length (lw_functions ?l1)) l2 \<and> lw_entry l2 = entry"
  proof (rule lower_functions_inv [OF 1(3)])
    show "lw_closed ?names (lw_resources l0) (length (lw_functions ?l1)) (?l1\<lparr>lw_entry := entry\<rparr>) \<and>
        lw_entry (?l1\<lparr>lw_entry := entry\<rparr>) = entry"
      using l1 by (auto simp: lw_closed_def lw_ok_def)
  qed (use lower_function_closed in blast)
  with 1 entry show ?thesis by (auto simp: closed_program_def lw_closed_def lw_ok_def)
qed

section \<open>Well-formed programs\<close>

text \<open>
  A lowered program satisfies \<open>wf_program\<close>, the premise of the interpreter's invariants, when the
  types written in the source are well formed (what deserialization guarantees, and that no enum is
  empty) and the permit counts are \<open>i64\<close> values that are not negative.
\<close>

definition source_ok :: "'j program_decl \<Rightarrow> bool" where
  "source_ok p \<longleftrightarrow> (\<forall>m\<in>set (pg_modules p).
     (\<forall>t\<in>set (md_types m). wf_type (td_ty t)) \<and>
     (\<forall>ty\<in>set (types_used m). wf_type ty) \<and>
     (\<forall>r\<in>set (md_resources m). opt_closed (\<lambda>n. 0 \<le> n \<and> n \<le> i64_max) (rc_count r)))"

lemma type_env_wf:
  assumes "source_ok p" "bt_get (type_env_of p) k = Some t"
  shows "wf_type t"
proof -
  from type_env_get [OF assms(2)] obtain o' ty where d: "(k, o', ty) \<in> set (type_defs_of p)"
    "resolve_def (type_defs_of p) o' ty [] = Ok t" .
  have defs: "wf_type t'" if "(k', o'', t') \<in> set (type_defs_of p)" for k' o'' t'
    using type_defs_of_in [OF that] assms(1) by (auto simp: source_ok_def)
  show ?thesis
    by (rule resolve_def_wf [OF _ d(2) defs [OF d(1)]])
      (use defs in \<open>auto simp: bt_get_def dest: map_of_SomeD\<close>)
qed

lemma resolved_wf: "source_ok p \<Longrightarrow> wf_type ty \<Longrightarrow> wf_type (resolved_or_self (type_env_of p) m ty)"
  using resolve_with_map_wf [of "type_env_of p" m ty] type_env_wf [of p]
  by (auto simp: resolved_or_self_def resolve_type_def split: option.splits)

subsection \<open>Environments\<close>

definition env_wf :: "name_env \<Rightarrow> bool" where
  "env_wf env \<longleftrightarrow> bt.all_entries (\<lambda>n s. opt_closed wf_type (es_ty s)) env"

lemma env_wf_insert: "env_wf env \<Longrightarrow> opt_closed wf_type (es_ty s) \<Longrightarrow> env_wf (bt_insert n s env)"
  by (simp add: env_wf_def bt.all_insert)

lemma env_wf_or_insert: "env_wf env \<Longrightarrow> opt_closed wf_type (es_ty s) \<Longrightarrow> env_wf (or_insert n s env)"
  by (simp add: or_insert_def env_wf_insert)

lemma env_wf_fold: "env_wf env \<Longrightarrow> (\<And>x env. x \<in> set xs \<Longrightarrow> env_wf env \<Longrightarrow> env_wf (f x env)) \<Longrightarrow> env_wf (fold f xs env)"
  by (induction xs arbitrary: env) auto

lemma used_wf:
  assumes "source_ok p" "m \<in> set (pg_modules p)"
  shows "f \<in> set (md_functions m) \<Longrightarrow> pd \<in> set (fd_params f) \<Longrightarrow> wf_type (pd_type pd)"
    and "f \<in> set (md_functions m) \<Longrightarrow> fd_returns f = Some pd \<Longrightarrow> wf_type (pd_type pd)"
    and "f \<in> set (md_functions m) \<Longrightarrow> d \<in> set (fd_locals f) \<Longrightarrow> wf_type (ld_type d)"
    and "r \<in> set (md_resources m) \<Longrightarrow> rc_base r = Some b \<Longrightarrow> wf_type b"
proof -
  have wf: "ty \<in> set (types_used m) \<Longrightarrow> wf_type ty" for ty using assms by (simp add: source_ok_def)
  have fn: "wf_type ty" if "f \<in> set (md_functions m)" "ty \<in> set (function_types f)" for ty
    by (rule wf) (use that in \<open>auto simp: types_used_def\<close>)
  show "f \<in> set (md_functions m) \<Longrightarrow> pd \<in> set (fd_params f) \<Longrightarrow> wf_type (pd_type pd)"
    by (erule fn) (simp add: function_types_def)
  show "f \<in> set (md_functions m) \<Longrightarrow> fd_returns f = Some pd \<Longrightarrow> wf_type (pd_type pd)"
    by (erule fn) (simp add: function_types_def)
  show "f \<in> set (md_functions m) \<Longrightarrow> d \<in> set (fd_locals f) \<Longrightarrow> wf_type (ld_type d)"
    by (erule fn) (simp add: function_types_def)
  assume "r \<in> set (md_resources m)" "rc_base r = Some b"
  then have "b \<in> set (List.map_filter rc_base (md_resources m))" by (force simp: List.map_filter_def)
  then show "wf_type b" by (intro wf) (simp add: types_used_def)
qed

lemma resource_slot_wf:
  assumes "source_ok p" "m \<in> set (pg_modules p)" "r \<in> set (md_resources m)"
  shows "opt_closed wf_type (es_ty (resolve_slot (type_env_of p) n (resource_slot r)))"
  using used_wf(4) [OF assms] resolved_wf [OF assms(1)]
  by (auto simp: resolve_slot_def resource_slot_def opt_closed_def split: option.splits)

lemma lookup_resource_in:
  "lookup_resource_decl p m n = Some (md, r) \<Longrightarrow> md \<in> set (pg_modules p) \<and> r \<in> set (md_resources md)"
  by (auto simp: lookup_resource_decl_def lookup_module_decl_def bind_eq_Some_conv split: prod.splits
      dest!: find_index)

lemma build_env_wf:
  assumes "source_ok p" "md \<in> set (pg_modules p)" "f \<in> set (md_functions md)"
  shows "env_wf (build_env p md f)"
proof -
  note wf = used_wf [OF assms(1)] resolved_wf [OF assms(1)]
  have "env_wf (bt_insert ''_'' discard_slot [])"
    unfolding env_wf_def by (rule bt.all_insert [OF bt.all_empty]) (simp add: discard_slot_def opt_closed_def)
  then show ?thesis
    unfolding build_env_def Let_def
    by (intro env_wf_fold)
      (use wf assms resource_slot_wf [OF assms(1)] in \<open>auto intro!: env_wf_insert env_wf_or_insert env_wf_fold
        simp: param_slot_def local_slot_def opt_closed_def add_resource_def add_required_def Let_def
        split: option.splits dest!: lookup_resource_in\<close>)
qed

subsection \<open>Slots, functions and resources\<close>

lemma env_ty_or_wf: "env_wf env \<Longrightarrow> wf_type ty \<Longrightarrow> wf_type (env_ty_or env n ty)"
  by (auto simp: env_ty_or_def env_ty_def bind_eq_Some_conv env_wf_def opt_closed_def split: option.splits
      dest: bt.all_get)

lemma lower_param_wf: "env_wf env \<Longrightarrow> wf_type (pd_type pd) \<Longrightarrow> wf_slot (lower_param env k pd)"
  by (simp add: wf_slot_def lower_param_def env_ty_or_wf)

lemma lower_local_wf:
  "lower_local A env d = Ok s \<Longrightarrow> env_wf env \<Longrightarrow> wf_type (ld_type d) \<Longrightarrow> wf_slot s"
  by (auto simp: wf_slot_def lower_local_def Let_def env_ty_or_wf from_json_within split: option.splits)

lemma op_closed_wf: "op_closed K nf ns nb p \<Longrightarrow> wf_op p"
  by (cases p) (auto split: slot_ref.splits)

lemma function_closed_wf: "function_closed K nf fn \<Longrightarrow> list_all (\<lambda>s. wf_op (st_op s)) (f_body fn)"
  by (auto simp: function_closed_def list_all_iff dest: op_closed_wf)

lemma lower_function_body_wf:
  assumes "source_ok p" "md \<in> set (pg_modules p)" "f \<in> set (md_functions md)"
    and "lower_function_body A p md f fid l = Ok (fn, us)"
  shows "list_all wf_slot (f_slots fn)"
proof -
  from assms(4) obtain slots ret where s: "lower_slots A (build_env p md f) f = Ok (slots, ret)" "f_slots fn = slots"
    by (auto simp: lower_function_body_def Let_def)
  note env = build_env_wf [OF assms(1-3)] and used = used_wf [OF assms(1,2)]
  from s(1) obtain locals where locals: "mapM (lower_local A (build_env p md f)) (fd_locals f) = Ok locals"
    "ret = map_option (lower_param (build_env p md f) RETURN) (fd_returns f)"
    "set slots \<subseteq> set (map (lower_param (build_env p md f) PARAM) (fd_params f) @ locals) \<union> set_option ret"
    by (rule lower_slots_parts)
  have "wf_slot s" if "s \<in> set locals" for s
    using mapM_Ok_set [OF locals(1) that] lower_local_wf env used(3) [OF assms(3)] by blast
  moreover have "wf_slot s" if "s \<in> set_option ret" for s
    using that locals(2) lower_param_wf [OF env used(2) [OF assms(3)]] by auto
  moreover have "wf_slot s" if "s \<in> lower_param (build_env p md f) PARAM ` set (fd_params f)" for s
    using that lower_param_wf [OF env used(1) [OF assms(3)]] by auto
  ultimately show ?thesis using locals(3) by (auto simp: s(2) list_all_iff)
qed

lemma lower_base_wf:
  assumes "source_ok p" "m \<in> set (pg_modules p)" "r \<in> set (md_resources m)"
    and "lower_base n r kind (type_env_of p) = Ok (Some b)"
  shows "wf_type b"
  using assms(4) used_wf(4) [OF assms(1-3)] resolved_wf [OF assms(1)]
  by (auto simp: lower_base_def split: if_splits)

lemma lower_init_within:
  "lower_init A r kind (Some b) = Ok (Some v) \<Longrightarrow> wf_type b \<Longrightarrow> within_type v b"
  using default_value_within [of b] by (auto simp: lower_init_def from_json_within split: if_splits option.splits)

lemma lower_resource_wf:
  assumes "source_ok p" "m \<in> set (pg_modules p)" "r \<in> set (md_resources m)"
    and "lower_resource A n mid r rid (type_env_of p) = Ok res"
  shows "wf_resource res"
proof -
  from assms(4) obtain kind where base: "lower_base n r kind (type_env_of p) = Ok (r_ty res)"
    and init: "lower_init A r kind (r_ty res) = Ok (r_init res)"
    and permits: "r_permits res = (if kind = KSemaphore then (case rc_count r of Some c \<Rightarrow> c | None \<Rightarrow> 1) else 0)"
    by (auto simp: lower_resource_def)
  have "within_type v b" if "r_init res = Some v" "r_ty res = Some b" for v b
    using lower_init_within lower_base_wf [OF assms(1-3)] base init that by metis
  moreover have "0 \<le> r_permits res \<and> r_permits res \<le> i64_max"
    using assms(1-3) permits by (fastforce simp: source_ok_def opt_closed_def i64_max_def split: option.splits)
  ultimately show ?thesis by (auto simp: wf_resource_def split: option.splits)
qed

lemma lower_wf:
  assumes "lower A p = Ok P" "source_ok p"
  shows "wf_program P"
  using assms(1)
proof (cases rule: lower_cases)
  case (1 l0 entry l2)
  let ?l1 = "add_placeholders p l0"
  have "list_all wf_resource (lw_resources l0) \<and> lw_type_env l0 = type_env_of p"
    by (rule lower_resources_inv [OF 1(1)])
      (use lower_resource_wf [OF assms(2) nth_mem] in \<open>auto simp: initial_lowerer_def\<close>)
  then have res: "list_all wf_resource (lw_resources l0)" ..
  have placeholders: "list_all (\<lambda>fn. f_slots fn = []) (lw_functions ?l1) \<and> lw_resources ?l1 = lw_resources l0"
    by (rule add_placeholders_inv)
      (use lower_resources_ok [OF 1(1)] in \<open>auto simp: placeholder_function_def\<close>)
  have "list_all (\<lambda>fn. list_all wf_slot (f_slots fn)) (lw_functions l2) \<and> lw_resources l2 = lw_resources l0"
  proof (rule lower_functions_inv [OF 1(3)])
    show "list_all (\<lambda>fn. list_all wf_slot (f_slots fn)) (lw_functions (?l1\<lparr>lw_entry := entry\<rparr>)) \<and>
        lw_resources (?l1\<lparr>lw_entry := entry\<rparr>) = lw_resources l0"
      using placeholders by (auto simp: list_all_iff)
  next
    fix md f l l' assume md: "md \<in> set (pg_modules p)" "f \<in> set (md_functions md)" and
      l: "list_all (\<lambda>fn. list_all wf_slot (f_slots fn)) (lw_functions l) \<and> lw_resources l = lw_resources l0" and
      l': "lower_function A p md f l = Ok l'"
    from l' obtain fid fn us where fn: "lower_function_body A p md f fid l = Ok (fn, us)"
      "l' = l\<lparr>lw_functions := (lw_functions l)[fid := fn], lw_unsupported := lw_unsupported l @ us\<rparr>"
      by (auto simp: lower_function_def)
    with l lower_function_body_wf [OF assms(2) md fn(1)] show
      "list_all (\<lambda>fn. list_all wf_slot (f_slots fn)) (lw_functions l') \<and> lw_resources l' = lw_resources l0"
      by (auto simp: list_all_iff dest!: set_update_subset_insert [THEN subsetD])
  qed
  moreover from lower_closed [OF assms(1)] have closed: "closed_program P" ..
  moreover have "list_all (\<lambda>s. wf_op (st_op s)) (f_body fn)" if "fn \<in> set (p_functions P)" for fn
  proof (rule function_closed_wf)
    show "function_closed (kind_at (p_resources P)) (length (p_functions P)) fn"
      using closed that by (simp add: closed_program_def list_all_iff)
  qed
  ultimately show ?thesis using 1 res
    by (auto simp: wf_program_def closed_program_def wf_function_def list_all_iff)
qed

end
