(* ===== verification/Demo_Programs.thy ===== *)
theory Demo_Programs
  imports Interp_Initial Explore_Report Lower_Laws
begin

text \<open>
  Small resolved programs with one module \<open>app\<close>, their interpreters and contracts: the concrete
  inputs of the witnesses. Their bounds are small numerals so that the kernel can evaluate the
  search.
\<close>

definition demo_stmt :: "nat \<Rightarrow> sem_op \<Rightarrow> sem_stmt" where
  "demo_stmt i op = \<lparr>st_id = i, st_sid = ''s'' @ show_nat i, st_op = op\<rparr>"

definition demo_fn :: "nat \<Rightarrow> string \<Rightarrow> sem_slot list \<Rightarrow> sem_op list \<Rightarrow> sem_function" where
  "demo_fn i n slots ops = \<lparr>f_id = i, f_module = 0, f_name = n, f_kind = ''thread'',
    f_is_nobody = False, f_effects_empty = True, f_may_block = None, f_params = [],
    f_returns = None, f_slots = slots, f_body = map (\<lambda>(k, op). demo_stmt k op) (enumerate 0 ops),
    f_sid_to_idx = map (\<lambda>k. (''s'' @ show_nat k, k)) [0..<length ops], f_requires_held = [], f_num_modeled_params = 0, f_bound = None\<rparr>"

definition demo_resource :: "nat \<Rightarrow> string \<Rightarrow> res_kind \<Rightarrow> sem_resource" where
  "demo_resource i n k = \<lparr>r_id = i, r_module = 0, r_name = n, r_kind = k, r_ty = None,
    r_capacity = 0, r_permits = 0, r_init = None, r_mode = None\<rparr>"

definition demo_program :: "sem_resource list \<Rightarrow> sem_function list \<Rightarrow> sem_program" where
  "demo_program ress fns = \<lparr>p_module_names = [''app''], p_functions = fns, p_resources = ress,
    p_protection = [], p_entry = 0, p_unsupported = []\<rparr>"

definition demo_bounds :: analysis_bounds where
  "demo_bounds = \<lparr>max_threads = 4, max_frames_per_thread = 3, max_states = 30, max_depth = 20,
    max_boundary_events = 3\<rparr>"

definition demo_interp :: "sem_program \<Rightarrow> interp" where
  "demo_interp P = \<lparr>it_program = P, it_bounds = demo_bounds, it_monitor = monitor_finite []\<rparr>"

definition demo_system :: "sem_program \<Rightarrow> machine_state tsystem" where
  "demo_system P = interp_system (\<lambda>s. s) (demo_interp P)"

definition demo_contract :: "property list \<Rightarrow> preserved_behavior list \<Rightarrow> unit contract" where
  "demo_contract ps bs = \<lparr>ct_name = ''c'',
     ct_properties = map (\<lambda>p. \<lparr>pr_id = ''p'', pr_property = p\<rparr>) ps, ct_preserved = bs,
     ct_assumptions = assumptions_default, ct_bounds = demo_bounds,
     ct_allowed_scope = patch_scope_unrestricted,
     ct_source = \<lparr>cs_name = ''c'', cs_properties = [], cs_preserved = [],
       cs_assumptions = assumptions_default, cs_bounds = \<lparr>bs_max_threads = 4,
         bs_max_frames_per_thread = 3, bs_max_states = 30, bs_max_depth = 20,
         bs_max_boundary_events = 3\<rparr>, cs_allowed_scope = patch_scope_unrestricted\<rparr>\<rparr>"

text \<open>The states an exploration of a demo finds, and whether a verification ends with an outcome.\<close>

definition explored :: "'s tsystem \<Rightarrow> analysis_bounds \<Rightarrow> 's list" where
  "explored sys b = (case explore sys b of Ok (Some r) \<Rightarrow> re_states r | _ \<Rightarrow> [])"

lemma explored_reachable: "s \<in> set (explored sys b) \<Longrightarrow> reachable sys s"
  by (auto simp: explored_def split: outc.splits option.splits dest: explore_reachable [OF sym])

definition verdict_is :: "'s tsystem \<Rightarrow> 'j contract \<Rightarrow> outcome \<Rightarrow> bool" where
  "verdict_is sys c oc \<longleftrightarrow> (case verify sys c of Ok (Some r) \<Rightarrow> rp_outcome r = oc | _ \<Rightarrow> False)"

lemma verdict_report:
  assumes "verdict_is sys c oc"
  obtains rep where "verify sys c = Ok (Some rep)" "rp_outcome rep = oc"
  using assms by (auto simp: verdict_is_def split: outc.splits option.splits)

text \<open>The same for a report that was begun, with the outcomes of its single results.\<close>

definition results_are :: "'s tsystem \<Rightarrow> 'j contract \<Rightarrow> outcome list \<Rightarrow> bool \<Rightarrow> bool" where
  "results_are sys c ocs full \<longleftrightarrow> (case verify sys c of
      Ok (Some r) \<Rightarrow> rp_analysis_started r \<and> rp_complete r = full \<and> map rs_outcome (rp_properties r) = ocs
    | _ \<Rightarrow> False)"

lemma results_report:
  assumes "results_are sys c ocs full"
  obtains rep where "verify sys c = Ok (Some rep)" "rp_analysis_started rep" "rp_complete rep = full"
    "map rs_outcome (rp_properties rep) = ocs"
  using assms by (auto simp: results_are_def split: outc.splits option.splits)

definition explored_fully :: "'s tsystem \<Rightarrow> analysis_bounds \<Rightarrow> bool" where
  "explored_fully sys b \<longleftrightarrow> (case explore sys b of
      Ok (Some r) \<Rightarrow> re_states r \<noteq> [] \<and> \<not> re_truncated r \<and> re_boundary r = [] \<and> re_unsupported r = [] \<and>
        re_invalid r = []
    | _ \<Rightarrow> False)"

text \<open>
  Three programs: one locks, unlocks and ends; one locks the same mutex twice; one takes two
  silent steps.
\<close>

definition demo_lock_unlock :: sem_program where
  "demo_lock_unlock = demo_program [demo_resource 0 ''m'' KMutex]
     [demo_fn 0 ''main'' [] [MutexLock 0, MutexUnlock 0]]"

definition demo_double_lock :: sem_program where
  "demo_double_lock = demo_program [demo_resource 0 ''m'' KMutex]
     [demo_fn 0 ''main'' [] [MutexLock 0, MutexLock 0]]"

definition demo_two_steps :: sem_program where
  "demo_two_steps = demo_program [] [demo_fn 0 ''main'' [] [Nop, Nop]]"

text \<open>
  A pipeline: the main thread spawns a worker and sends it a value over a channel with one place;
  the worker stores it in a shared variable and releases a semaphore the main thread acquires.
\<close>

definition demo_small_int :: base_type where
  "demo_small_int = BoundedInt 0 3"

definition demo_pipeline :: sem_program where
  "demo_pipeline = demo_program
     [(demo_resource 0 ''x'' KVar)\<lparr>r_ty := Some demo_small_int, r_init := Some (VInt 0)\<rparr>,
      (demo_resource 1 ''c'' KChannel)\<lparr>r_ty := Some demo_small_int, r_capacity := 1\<rparr>,
      demo_resource 2 ''s'' KSemaphore]
     [demo_fn 0 ''main'' [] [Spawn 1 ''h'', ChannelSend 1 (Lit (LInt 2)), SemaphoreAcquire 2 1, Join ''h''],
      demo_fn 1 ''work'' [] [ChannelRecv 1 (Shared 0), SemaphoreRelease 2 1]]"

definition demo_pipeline_interp :: interp where
  "demo_pipeline_interp = \<lparr>it_program = demo_pipeline, it_bounds = demo_bounds,
     it_monitor = monitor_finite [(1, 1)]\<rparr>"

definition demo_pipeline_system :: "machine_state tsystem" where
  "demo_pipeline_system = interp_system (\<lambda>s. s) demo_pipeline_interp"

text \<open>The state after taking, from a state, the enabled steps with the given numbers.\<close>

fun follow :: "'s tsystem \<Rightarrow> nat list \<Rightarrow> 's \<Rightarrow> 's option" where
  "follow sys [] s = Some s"
| "follow sys (k # ks) s = (case ts_successors sys s of
      Ok en \<Rightarrow> if k < length (en_steps en) then follow sys ks (step_state (en_steps en ! k)) else None
    | _ \<Rightarrow> None)"

lemma follow_execution: "follow sys ks s = Some t \<Longrightarrow> \<exists>ls. execution sys s ls t"
proof (induction ks arbitrary: s)
  case Nil
  then show ?case using execution_refl by fastforce
next
  case (Cons k ks)
  from Cons.prems obtain en where en: "ts_successors sys s = Ok en" "k < length (en_steps en)"
    "follow sys ks (step_state (en_steps en ! k)) = Some t"
    by (auto split: outc.splits if_splits)
  obtain l u where lu: "en_steps en ! k = \<lparr>step_lab = l, step_state = u\<rparr>"
    by (cases "en_steps en ! k")
  with en(1,2) have "sys_step sys s l u" using nth_mem [OF en(2)] by (simp add: sys_step_iff)
  with execution_step [OF execution_refl] have "execution sys s [l] u" by fastforce
  with Cons.IH [OF en(3)] lu show ?case using execution_trans by fastforce
qed

lemma follow_reachable: "follow sys ks s = Some t \<Longrightarrow> reachable sys s \<Longrightarrow> reachable sys t"
  by (metis follow_execution reachable_execution)

definition run_from_start :: "'s tsystem \<Rightarrow> nat list \<Rightarrow> 's option" where
  "run_from_start sys ks = (case ts_initial sys of Ok s \<Rightarrow> follow sys ks s | _ \<Rightarrow> None)"

lemma run_reachable: "run_from_start sys ks = Some t \<Longrightarrow> reachable sys t"
  by (auto simp: run_from_start_def split: outc.splits intro: follow_reachable reachable_init)

text \<open>One whole run of the pipeline.\<close>

definition demo_run :: "nat list" where
  "demo_run = replicate 8 0"

lemma demo_pipeline_run:
  "wf_program demo_pipeline \<and>
   (case run_from_start demo_pipeline_system demo_run of
      Some s \<Rightarrow> read_shared (ms_store s) 0 = Some (VInt 2) \<and> completed_count s 1 = 1
    | None \<Rightarrow> False) \<and>
   (case run_from_start demo_pipeline_system [0] of
      Some s \<Rightarrow> (0, 0) \<in> set (ms_reached s) \<and> follow demo_pipeline_system (replicate 7 0) s \<noteq> None
    | None \<Rightarrow> False)"
  by code_simp

lemma demo_lock_unlock_facts:
  "explored_fully (demo_system demo_lock_unlock) demo_bounds \<and>
   closed_states (demo_system demo_lock_unlock) (explored (demo_system demo_lock_unlock) demo_bounds) \<and>
   verdict_is (demo_system demo_lock_unlock)
     (demo_contract [DeadlockFree, AlwaysReachable (MutexFree 0)]
       [\<lparr>pb_description = ''d'', pb_behavior = Reachable (MutexHeld 0)\<rparr>]) Pass"
  by code_simp

lemma demo_double_lock_facts:
  "closed_states (demo_system demo_double_lock) (explored (demo_system demo_double_lock) demo_bounds) \<and>
   results_are (demo_system demo_double_lock)
     (demo_contract [DeadlockFree, Reachability (MutexHeld 0)] []) [Fail, Pass] True"
  by code_simp

lemma demo_two_steps_facts:
  "closed_states (demo_system demo_two_steps) (explored (demo_system demo_two_steps) demo_bounds) \<and>
   results_are (demo_system demo_two_steps)
     (demo_contract [AlwaysReachable (StatementReached 0 1)] []) [Pass] True"
  by code_simp

lemmas demo_double_lock_results = demo_double_lock_facts [THEN conjunct2]

lemma demo_key_sound:
  "key_sound (demo_system demo_lock_unlock)" "key_sound (demo_system demo_double_lock)"
  "key_sound (demo_system demo_two_steps)"
  using demo_lock_unlock_facts demo_double_lock_facts demo_two_steps_facts
  by (blast intro: closed_key_sound)+

section \<open>Source programs\<close>

text \<open>Small syntax trees, the inputs of the witnesses about the front end. Their JSON values are integers.\<close>

definition demo_json :: "int json_api" where
  "demo_json = \<lparr>j_as_bool = (\<lambda>_. None), j_as_i64 = Some, j_as_f64 = (\<lambda>_. None), j_as_str = (\<lambda>_. None),
     j_as_object = (\<lambda>_. None), j_as_array = (\<lambda>_. None)\<rparr>"

definition no_locks :: lock_effects where
  "no_locks = \<lparr>le_acquires = [], le_releases = [], le_requires_held = []\<rparr>"

definition src_fn :: "string \<Rightarrow> op list \<Rightarrow> int function_decl" where
  "src_fn n ops = \<lparr>fd_name = n, fd_kind = ''normal'', fd_form = ''function'', fd_params = [],
     fd_returns = None, fd_locals = [],
     fd_body = map (\<lambda>(k, p). \<lparr>sm_sid = ''s'' @ show_nat k, sm_op = p\<rparr>) (enumerate 0 ops),
     fd_effects = None, fd_may_block = None, fd_locks = no_locks, fd_bound = None\<rparr>"

definition src_resource :: "string \<Rightarrow> string \<Rightarrow> string \<Rightarrow> int resource_decl" where
  "src_resource n k t = \<lparr>rc_name = n, rc_kind = k, rc_type = t, rc_mode = None, rc_count = None,
     rc_base = None, rc_init = None, rc_capacity = None\<rparr>"

definition src_module :: "type_def list \<Rightarrow> int resource_decl list \<Rightarrow> int function_decl list \<Rightarrow> int module_decl" where
  "src_module ts rs fs = \<lparr>md_name = ''app'', md_provides = \<lparr>ns_resources = [], ns_functions = [], ns_types = []\<rparr>,
     md_requires = \<lparr>rq_resources = [], rq_functions = [], rq_types = []\<rparr>, md_types = ts,
     md_resources = rs, md_protection = [], md_functions = fs\<rparr>"

definition src_program :: "type_def list \<Rightarrow> int resource_decl list \<Rightarrow> int function_decl list \<Rightarrow> int program_decl" where
  "src_program ts rs fs = \<lparr>pg_program = ''demo'', pg_version = ''3.5.0'', pg_modules = [src_module ts rs fs],
     pg_entry = ''app::main''\<rparr>"

text \<open>A counter of a named type, guarded by a mutex; two workers add to it.\<close>

definition src_counter_fns :: "int function_decl list" where
  "src_counter_fns =
     [src_fn ''main'' [AScope [''work''], AGoto ''s2'', AReturn None],
      src_fn ''work'' [AMutexLock ''m'', AWriteShared ''n'' ''n + 1'', AMutexUnlock ''m'', ABranch ''n < 3'' ''s0'' ''s4'', AReturn None]]"

definition src_counter :: "int program_decl" where
  "src_counter = src_program [\<lparr>td_name = ''Count'', td_ty = BoundedInt 0 3\<rparr>]
     [(src_resource ''n'' ''var'' ''Var'')\<lparr>rc_base := Some (Primitive ''Count''), rc_init := Some 1\<rparr>,
      (src_resource ''m'' ''sync'' ''Mutex'')\<lparr>rc_mode := Some ''Sync''\<rparr>] src_counter_fns"

text \<open>A call of a function without a body that declares a return value, before and after its declaration.\<close>

definition src_external :: "int function_decl" where
  "src_external = (src_fn ''ext'' [])\<lparr>fd_returns := Some \<lparr>pd_name = ''r'', pd_type = Primitive ''Int'', pd_modeled = True\<rparr>\<rparr>"

definition src_caller :: "int function_decl" where
  "src_caller = src_fn ''main'' [AFunc ''ext'' [] None]"

definition unsupported_of :: "int program_decl \<Rightarrow> unsupported_rec list option" where
  "unsupported_of p = (case lower demo_json p of Ok P \<Rightarrow> Some (p_unsupported P) | _ \<Rightarrow> None)"

lemma demo_external_order:
  "unsupported_of (src_program [] [] [src_caller, src_external]) = Some [] \<and>
   unsupported_of (src_program [] [] [src_external, src_caller]) =
     Some [\<lparr>un_construct = ''external function'', un_location = Some ''app::main.s0''\<rparr>]"
  by code_simp

lemma demo_counter_lowered:
  "(case lower demo_json src_counter of Ok P \<Rightarrow> length (p_functions P) = 2 \<and>
      map r_ty (p_resources P) = [Some (BoundedInt 0 3), None] \<and> p_unsupported P = [] | _ \<Rightarrow> False)"
  by code_simp

lemma demo_counter_source: "source_ok src_counter"
  by code_simp

end
