(* ===== verification/Explore_Props.thy ===== *)
theory Explore_Props
  imports Explore_Report Demo_Programs
begin


lemma verify_search_returns:
  assumes "ts_state_key sys init = Ok key"
  shows "search_loop (verify_round sys b) (search_fuel b) (search_init key init) \<noteq> Ok None"
    and "search_loop (explore_round sys b) (search_fuel b) (search_init key init) \<noteq> Ok None"
  using verify_loop.run_done [OF assms] explore_loop.run_done [OF assms] by auto

subsection \<open>The search\<close>

text \<open>C6: Neither search runs out of fuel: the loops of \<open>verify\<close> and of \<open>explore\<close> leave after at
  most \<open>max_states + 1\<close> rounds on every system, also on one with infinitely many states.\<close>

theorem search_returns: "verify sys c \<noteq> Ok None \<and> explore sys b \<noteq> Ok None"
  using verify_search_returns [of sys _ _ "ct_bounds c"] verify_search_returns [of sys _ _ b]
  by (auto simp: verify_def explore_def split: outc.splits option.splits)

text \<open>C5: Every state \<open>explore\<close> returns is reachable, and every edge it returns is a step of the
  system to a state with the key of its target.\<close>

theorem explored_states_real:
  assumes "explore sys b = Ok (Some r)" "i < length (re_states r)"
  shows "reachable sys (re_states r ! i) \<and>
    (\<forall>(j, l) \<in> set (re_edges r ! i). j < length (re_states r) \<and>
       (\<exists>t. sys_step sys (re_states r ! i) l t \<and> same_key sys t (re_states r ! j)))"
proof -
  from assms(2) have "re_states r \<noteq> []" by auto
  then obtain init s where s: "ts_initial sys = Ok init" "search_done sys init s"
    "re_states r = g_states (sr_graph s)" "re_edges r = g_edges (sr_graph s)"
    by (rule explore_Some [OF assms(1)])
  note ok = done_nodes(1) [OF s(2)]
  from graph_states_reachable [OF ok s(1)] ok assms(2) show ?thesis
    by (fastforce simp: s graph_ok_def edges_ok_def)
qed

theorem explored_states_real_witness:
  "\<exists>r. explore (demo_system demo_lock_unlock) demo_bounds = Ok (Some r) \<and>
     reachable (demo_system demo_lock_unlock) (re_states r ! 2)"
proof -
  have "2 < length (explored (demo_system demo_lock_unlock) demo_bounds)" by code_simp
  then obtain r where r: "explore (demo_system demo_lock_unlock) demo_bounds = Ok (Some r)"
    "2 < length (re_states r)"
    by (auto simp: explored_def split: outc.splits option.splits)
  from r(1) explored_states_real [OF r] show ?thesis by blast
qed



text \<open>C7: \<open>reverse_reachable\<close> is exact: its result is the set of states from which a path of
  explored edges leads to one of the roots.\<close>

theorem reverse_reachable_paths:
  "set (reverse_reachable g roots) = {i. \<exists>r\<in>set roots. (i, r) \<in> (edge_rel (g_edges g))\<^sup>*}"
  by (rule reverse_reachable_exact)

subsection \<open>The verdicts\<close>



text \<open>Also in a report that does not pass as a whole, each single result \<open>Pass\<close> is right: the
  property with that id holds of the system.\<close>

theorem result_pass_sound:
  fixes sys :: "'s tsystem"
  assumes "key_sound sys" "verify sys c = Ok (Some rep)" "rp_analysis_started rep"
    and "i < length (ct_properties c)" "rs_outcome (rp_properties rep ! i) = Pass"
  shows "holds sys (pr_property (ct_properties c ! i))"
proof -
  obtain init and s :: "'s search" and ds where s: "ts_initial sys = Ok init" "search_done sys init s"
    "check_property sys (sr_graph s) (pr_id (ct_properties c ! i)) (pr_property (ct_properties c ! i))
       (search_complete s) = Ok (rp_properties rep ! i, ds)"
    by (rule report_result [OF assms(2-4)])
  show ?thesis
    by (rule check_pass_sound [OF assms(1) done_nodes(1) [OF s(2)] s(1) done_complete [OF s(2,1)] s(3) assms(5)])
qed

theorem result_pass_sound_witness:
  "holds (demo_system demo_double_lock) (Reachability (MutexHeld 0))"
proof -
  let ?c = "demo_contract [DeadlockFree, Reachability (MutexHeld 0)] []"
  obtain rep where
    "verify (demo_system demo_double_lock) ?c = Ok (Some rep)" "rp_analysis_started rep"
    "map rs_outcome (rp_properties rep) = [Fail, Pass]"
    by (rule results_report [OF demo_double_lock_results])
  from result_pass_sound [OF demo_key_sound(2) this(1,2), of 1] this(3) show ?thesis
    by (auto simp: demo_contract_def)
qed

text \<open>C2: A \<open>Fail\<close> of a safety, unreachability or deadlock property is always a real defect, also
  when the search was cut off and whatever the state key: the report holds a diagnostic whose
  counterexample is an execution of the system from its initial state to a state with that defect.\<close>

theorem result_fail_executes:
  fixes sys :: "'s tsystem"
  assumes "verify sys c = Ok (Some rep)" "rp_analysis_started rep" "i < length (ct_properties c)"
    and "rs_outcome (rp_properties rep ! i) = Fail" "state_property (pr_property (ct_properties c ! i))"
  shows "\<exists>d \<in> set (rp_diagnostics rep). refutes sys (defect sys (pr_property (ct_properties c ! i))) d"
proof -
  obtain init and s :: "'s search" and ds where s: "ts_initial sys = Ok init" "search_done sys init s"
    "set ds \<subseteq> set (rp_diagnostics rep)"
    "check_property sys (sr_graph s) (pr_id (ct_properties c ! i)) (pr_property (ct_properties c ! i))
       (search_complete s) = Ok (rp_properties rep ! i, ds)"
    by (rule report_result [OF assms(1-3)])
  from check_fail_sound [OF done_nodes(1) [OF s(2)] s(1) done_nodes(2) [OF s(2)] s(4) assms(4,5)] s(3)
  show ?thesis by auto
qed

theorem result_fail_executes_witness:
  "\<exists>d. refutes (demo_system demo_double_lock) (defect (demo_system demo_double_lock) DeadlockFree) d"
proof -
  let ?c = "demo_contract [DeadlockFree, Reachability (MutexHeld 0)] []"
  obtain rep where
    "verify (demo_system demo_double_lock) ?c = Ok (Some rep)" "rp_analysis_started rep"
    "map rs_outcome (rp_properties rep) = [Fail, Pass]"
    by (rule results_report [OF demo_double_lock_results])
  from result_fail_executes [OF this(1,2), of 0] this(3) show ?thesis
    by (cases "rp_properties rep") (auto simp: demo_contract_def state_property_def)
qed



text \<open>C8: \<open>AlwaysReachable\<close> is reported as \<open>Fail\<close> also by a search that was cut off, and then
  nothing is refuted: two steps suffice for the program below to reach the goal from every state,
  and with a depth bound of one step the report says \<open>Fail\<close>.\<close>

theorem always_reachable_incomplete_fail:
  "(case verify (demo_system demo_two_steps)
      ((demo_contract [AlwaysReachable (StatementReached 0 1)] [])\<lparr>ct_bounds := demo_bounds\<lparr>max_depth := 1\<rparr>\<rparr>) of
     Ok (Some rep) \<Rightarrow> map rs_outcome (rp_properties rep) = [Fail] \<and> \<not> rp_complete rep | _ \<Rightarrow> False) \<and>
   holds (demo_system demo_two_steps) (AlwaysReachable (StatementReached 0 1))"
proof
  show "case verify (demo_system demo_two_steps)
      ((demo_contract [AlwaysReachable (StatementReached 0 1)] [])\<lparr>ct_bounds := demo_bounds\<lparr>max_depth := 1\<rparr>\<rparr>) of
     Ok (Some rep) \<Rightarrow> map rs_outcome (rp_properties rep) = [Fail] \<and> \<not> rp_complete rep | _ \<Rightarrow> False"
    by code_simp
  obtain rep where
    "verify (demo_system demo_two_steps) (demo_contract [AlwaysReachable (StatementReached 0 1)] []) = Ok (Some rep)"
    "rp_analysis_started rep" "map rs_outcome (rp_properties rep) = [Pass]"
    by (rule results_report [OF demo_two_steps_facts [THEN conjunct2]])
  obtain init and s :: "machine_state search" and ds where s: "ts_initial (demo_system demo_two_steps) = Ok init"
    "search_done (demo_system demo_two_steps) init s"
    "check_property (demo_system demo_two_steps) (sr_graph s) ''p'' (AlwaysReachable (StatementReached 0 1))
       (search_complete s) = Ok (rp_properties rep ! 0, ds)"
    by (rule report_result [OF \<open>verify _ _ = _\<close> \<open>rp_analysis_started rep\<close>, of 0]) (simp_all add: demo_contract_def)
  have "rs_outcome (rp_properties rep ! 0) = Pass"
    using \<open>map rs_outcome _ = _\<close> by (cases "rp_properties rep") auto
  from check_pass_sound [OF demo_key_sound(3) done_nodes(1) [OF s(2)] s(1) done_complete [OF s(2,1)] s(3) this]
  show "holds (demo_system demo_two_steps) (AlwaysReachable (StatementReached 0 1))" .
qed

end
