(* ===== verification/Interp_Props.thy ===== *)
theory Interp_Props
  imports Demo_Programs
begin

text \<open>Properties of the interpreter: what holds in every reachable state, and along executions.\<close>

text \<open>A state of the pipeline demo in which the worker has ended, for the witnesses.\<close>

lemma demo_pipeline_state:
  obtains s where "run_from_start demo_pipeline_system demo_run = Some s"
    "reachable (interp_system (\<lambda>s. s) demo_pipeline_interp) s"
    "read_shared (ms_store s) 0 = Some (VInt 2)" "completed_count s 1 = 1"
  using demo_pipeline_run run_reachable [of demo_pipeline_system demo_run]
  by (auto simp: demo_pipeline_system_def split: option.splits)

lemma demo_pipeline_wf: "wf_program (it_program demo_pipeline_interp)"
  using demo_pipeline_run by (simp add: demo_pipeline_interp_def)

subsection \<open>Every reachable state\<close>

text \<open>C15: In every reachable state of a well-formed program each value lies in its declared type:
  the slots of every frame, the shared variables and atomics, and what is in a channel, buffered or
  still offered by a blocked sender.\<close>

theorem reachable_typed:
  assumes "wf_program (it_program ip)" "reachable (interp_system esc ip) st"
  shows "typed_state (it_program ip) st"
  using assms(2,1) by (rule reachable_typed_inv)

theorem reachable_typed_witness:
  "\<exists>s. read_shared (ms_store s) 0 = Some (VInt 2) \<and> typed_state demo_pipeline s"
proof -
  obtain s where s: "reachable (interp_system (\<lambda>s. s) demo_pipeline_interp) s"
    "read_shared (ms_store s) 0 = Some (VInt 2)" by (rule demo_pipeline_state)
  from reachable_typed [OF demo_pipeline_wf s(1)] s(2) show ?thesis
    by (auto simp: demo_pipeline_interp_def)
qed



text \<open>A completion count is recorded exactly for the functions the contract observes and never
  passes the largest count it asks for, so the counter cannot make the state space infinite.\<close>

theorem completions_saturate:
  assumes "reachable (interp_system esc ip) st"
  shows "completed_count st f \<le> max_for (it_monitor ip) f \<and>
    (max_for (it_monitor ip) f = 0 \<longrightarrow> bt_get (ms_completed_functions st) f = None)"
  using reachable_completions_inv [OF assms]
  by (cases "bt_get (ms_completed_functions st) f")
    (fastforce simp: completions_ok_def bt.all_entries_def completed_count_def)+

theorem completions_saturate_witness:
  "\<exists>s. completed_count s 1 = 1 \<and> completed_count s 1 \<le> max_for (monitor_finite [(1, 1)]) 1"
proof -
  obtain s where s: "reachable (interp_system (\<lambda>s. s) demo_pipeline_interp) s"
    "completed_count s 1 = 1" by (rule demo_pipeline_state)
  from completions_saturate [OF s(1), of 1] s(2) show ?thesis
    by (auto simp: demo_pipeline_interp_def)
qed

subsection \<open>Along executions\<close>

text \<open>The predicates over the recorded facts, closed under conjunction and disjunction.\<close>

fun monotone_predicate :: "predicate \<Rightarrow> bool" where
  "monotone_predicate (FunctionCompleted f) = True"
| "monotone_predicate (FunctionCompletedAtLeast f n) = True"
| "monotone_predicate (ScopeCompleted f i) = True"
| "monotone_predicate (StatementReached f i) = True"
| "monotone_predicate (PAnd ps) = list_all monotone_predicate ps"
| "monotone_predicate (POr ps) = list_all monotone_predicate ps"
| "monotone_predicate p = (p = PTrue \<or> p = PFalse)"

lemma facts_grow_trans: "facts_grow a b \<Longrightarrow> facts_grow b c \<Longrightarrow> facts_grow a c"
  by (auto simp: facts_grow_def intro: le_trans)

lemma execution_facts:
  "execution (interp_system esc ip) st ls st' \<Longrightarrow> facts_grow st st'"
proof (induction rule: execution.induct)
  case (execution_refl s)
  then show ?case by (simp add: facts_grow_def)
next
  case (execution_step s ls t l u)
  from sys_step_thread [OF execution_step.hyps(2)] obtain v where "interp_step ip v t u" by blast
  then have "facts_grow t u"
    by (rule store_inv_step [OF facts.store_inv_axioms, rotated]) (simp add: facts_grow_def)
  with execution_step.IH show ?case by (rule facts_grow_trans)
qed

lemma monotone_total: "monotone_predicate p \<Longrightarrow> \<exists>b. interp_satisfied ip st p = Ok b"
  by (induction p) (auto simp: list_all_iff intro: allM_total anyM_total)

lemma monotone_satisfied:
  "monotone_predicate p \<Longrightarrow> facts_grow st st' \<Longrightarrow> interp_satisfied ip st p = Ok True \<Longrightarrow>
    interp_satisfied ip st' p = Ok True"
proof (induction p)
  case (PAnd ps)
  then show ?case by (auto simp: allM_True_iff list_all_iff)
next
  case (POr ps)
  then obtain q where q: "q \<in> set ps" "interp_satisfied ip st q = Ok True"
    using anyM_Ok_True by fastforce
  with POr have "interp_satisfied ip st' q = Ok True" by (auto simp: list_all_iff)
  with q(1) POr.prems(1) show ?case
    by (auto simp: list_all_iff intro!: anyM_TrueI monotone_total)
qed (auto simp: facts_grow_def intro: le_trans)

text \<open>The recorded facts never go away: a predicate built from completed functions, completed
  scopes and reached statements by \<open>And\<close> and \<open>Or\<close> that holds in a state holds in every state an
  execution leads to.\<close>

theorem facts_persist:
  assumes "execution (interp_system esc ip) st ls st'" "monotone_predicate p"
    and "interp_satisfied ip st p = Ok True"
  shows "interp_satisfied ip st' p = Ok True"
  by (rule monotone_satisfied [OF assms(2) execution_facts [OF assms(1)] assms(3)])

theorem facts_persist_witness:
  "\<exists>s t. follow demo_pipeline_system (replicate 7 0) s = Some t \<and>
     interp_satisfied demo_pipeline_interp t (POr [FunctionCompleted 5, StatementReached 0 0]) = Ok True"
proof -
  from demo_pipeline_run obtain s t where s: "(0, 0) \<in> set (ms_reached s)"
    "follow demo_pipeline_system (replicate 7 0) s = Some t"
    by (auto split: option.splits)
  then have sat: "interp_satisfied demo_pipeline_interp s (POr [FunctionCompleted 5, StatementReached 0 0]) = Ok True"
    by simp
  from follow_execution [OF s(2)] obtain ls where "execution demo_pipeline_system s ls t" by blast
  from facts_persist [OF this [unfolded demo_pipeline_system_def] _ sat]
  have "interp_satisfied demo_pipeline_interp t (POr [FunctionCompleted 5, StatementReached 0 0]) = Ok True"
    by simp
  with s(2) show ?thesis by (intro exI [of _ s] exI [of _ t]) simp
qed

text \<open>A mutex changes hands only by its owner: a step of thread \<open>t\<close> leaves each mutex as it
  is, or takes a free one for \<open>t\<close>, or frees one that \<open>t\<close> held.\<close>

theorem mutex_step:
  assumes "interp_step ip t st st'"
  shows "mutex_move t (bt_get (mutexes (ms_store st)) r) (bt_get (mutexes (ms_store st')) r)"
proof -
  have "mutexes_move t st st'"
    by (rule store_inv_step [OF mutexes.store_inv_axioms _ assms]) (simp add: mutexes_move_def mutex_move_def)
  then show ?thesis by (simp add: mutexes_move_def)
qed

text \<open>Executions in which a thread takes no step.\<close>

definition others_step :: "interp \<Rightarrow> thread_id \<Rightarrow> machine_state \<Rightarrow> machine_state \<Rightarrow> bool" where
  "others_step ip t st st' \<longleftrightarrow> (\<exists>u. u \<noteq> t \<and> interp_step ip u st st')"

lemma others_mutex:
  assumes "others_step ip t st st'"
  shows "bt_get (mutexes (ms_store st)) r = Some (Held t) \<longleftrightarrow>
    bt_get (mutexes (ms_store st')) r = Some (Held t)"
proof -
  from assms obtain u where u: "u \<noteq> t" "interp_step ip u st st'" by (auto simp: others_step_def)
  have "mutexes_move u st st'"
    by (rule store_inv_step [OF mutexes.store_inv_axioms _ u(2)]) (simp add: mutexes_move_def mutex_move_def)
  then have "mutex_move u (bt_get (mutexes (ms_store st)) r) (bt_get (mutexes (ms_store st')) r)"
    by (simp add: mutexes_move_def)
  with u(1) show ?thesis by (auto simp: mutex_move_def)
qed

text \<open>C17: Mutual exclusion: whatever the other threads do, as long as thread \<open>t\<close> takes no step it
  keeps exactly the mutexes it holds; no other thread can release, steal or hand it one.\<close>

theorem mutex_kept:
  assumes "(others_step ip t)\<^sup>*\<^sup>* st st'"
  shows "bt_get (mutexes (ms_store st)) r = Some (Held t) \<longleftrightarrow>
    bt_get (mutexes (ms_store st')) r = Some (Held t)"
  using assms by (induction rule: rtranclp_induct) (use others_mutex in blast)+

text \<open>A mutex or semaphore never violates \<open>MutexExclusive\<close>: in a well-formed program the
  predicate is satisfied in every reachable state, so a safety property over it cannot fail.\<close>

theorem mutex_exclusive_always:
  assumes "wf_program (it_program ip)" "resource_of (it_program ip) r = Ok res"
    and "r_kind res \<in> {KMutex, KSemaphore}"
  shows "holds (interp_system esc ip) (Safety (MutexExclusive r))"
proof -
  have "interp_satisfied ip st (MutexExclusive r) = Ok True" if "reachable (interp_system esc ip) st" for st
    using assms(2,3) permits_of_bounds [OF reachable_permits_inv [OF that assms(1)]]
    by (auto simp: satisfied_mutex_exclusive_def)
  then show ?thesis by (simp add: interp_system_def)
qed


subsection \<open>Witnesses of the claims about steps\<close>

lemma demo_lock_step:
  obtains s s' where "interp_step (demo_interp demo_lock_unlock) 0 s s'"
    "bt_get (mutexes (ms_store s)) 0 = Some Free" "bt_get (mutexes (ms_store s')) 0 = Some (Held 0)"
proof -
  have "case interp_initial (demo_interp demo_lock_unlock) of
      Ok s \<Rightarrow> (case thread_steps (demo_interp demo_lock_unlock) s 0 of
         Ok (x # _, _) \<Rightarrow> bt_get (mutexes (ms_store s)) 0 = Some Free \<and>
           bt_get (mutexes (ms_store (step_state x))) 0 = Some (Held 0)
       | _ \<Rightarrow> False)
    | _ \<Rightarrow> False" by code_simp
  then show thesis
    using that by (fastforce simp: interp_step_def split: outc.splits list.splits prod.splits)
qed

theorem mutex_step_witness:
  "\<exists>s s'. interp_step (demo_interp demo_lock_unlock) 0 s s' \<and>
     bt_get (mutexes (ms_store s)) 0 \<noteq> bt_get (mutexes (ms_store s')) 0 \<and>
     mutex_move 0 (bt_get (mutexes (ms_store s)) 0) (bt_get (mutexes (ms_store s')) 0)"
proof -
  obtain s s' where s: "interp_step (demo_interp demo_lock_unlock) 0 s s'"
    "bt_get (mutexes (ms_store s)) 0 = Some Free" "bt_get (mutexes (ms_store s')) 0 = Some (Held 0)"
    by (rule demo_lock_step)
  from mutex_step [OF s(1), of 0] s show ?thesis by (metis mutex_state.distinct(1) option.inject)
qed

theorem mutex_kept_witness:
  "\<exists>s s'. interp_step (demo_interp demo_lock_unlock) 0 s s' \<and>
     (bt_get (mutexes (ms_store s)) 0 = Some (Held 7) \<longleftrightarrow> bt_get (mutexes (ms_store s')) 0 = Some (Held 7))"
proof -
  obtain s s' where s: "interp_step (demo_interp demo_lock_unlock) 0 s s'" by (rule demo_lock_step)
  then have "others_step (demo_interp demo_lock_unlock) 7 s s'" by (force simp: others_step_def)
  then have "(others_step (demo_interp demo_lock_unlock) 7)\<^sup>*\<^sup>* s s'" by (rule r_into_rtranclp)
  from mutex_kept [OF this, of 0] s show ?thesis by blast
qed

theorem mutex_exclusive_always_witness:
  "holds (interp_system (\<lambda>s. s) demo_pipeline_interp) (Safety (MutexExclusive 2))"
proof -
  have "resource_of (it_program demo_pipeline_interp) 2 = Ok (demo_resource 2 ''s'' KSemaphore)" by code_simp
  from mutex_exclusive_always [OF demo_pipeline_wf this] show ?thesis by (simp add: demo_resource_def)
qed

end
