(* ===== verification/Contract_Laws.thy ===== *)
theory Contract_Laws
  imports Contract Value_Laws Interp_Observe
begin

text \<open>
  What a resolved contract guarantees: validated bounds and ids, predicates over existing entities
  of the right kinds with literals in the declared domain, and predicates the interpreter decides
  in every state.
\<close>

subsection \<open>Validation\<close>

definition valid_bounds :: "analysis_bounds \<Rightarrow> bool" where
  "valid_bounds b \<longleftrightarrow> 1 \<le> max_threads b \<and> 1 \<le> max_frames_per_thread b \<and> 1 \<le> max_states b \<and>
     1 \<le> max_depth b \<and> 1 \<le> max_boundary_events b"

lemma validate_bounds_Ok: "validate_bounds b = Ok () \<longleftrightarrow> valid_bounds (bounds_of_spec b)"
  by (auto simp: validate_bounds_def valid_bounds_def bounds_of_spec_def)

lemma validate_ids_Ok:
  "validate_ids seen is = Ok () \<longleftrightarrow> distinct is \<and> set is \<inter> set seen = {} \<and> (\<forall>i\<in>set is. \<not> is_blank i)"
  by (induction seen "is" rule: validate_ids.induct) auto

lemma validate_assumptions_Ok:
  "validate_assumptions a = Ok () \<longleftrightarrow> as_sequential_consistency a \<and> as_no_spurious_wakeups a"
  by (simp add: validate_assumptions_def)

subsection \<open>Resolved predicates\<close>

definition kinded :: "sem_program \<Rightarrow> resource_id \<Rightarrow> res_kind set \<Rightarrow> bool" where
  "kinded P r ks \<longleftrightarrow> (\<exists>res. resource_of P r = Ok res \<and> r_kind res \<in> ks)"

definition data_value :: "sem_program \<Rightarrow> resource_id \<Rightarrow> cvalue \<Rightarrow> bool" where
  "data_value P r v \<longleftrightarrow> (\<exists>res ty. resource_of P r = Ok res \<and> r_kind res \<in> {KVar, KAtomic} \<and>
     r_ty res = Some ty \<and> within_type v ty)"

definition statement_at :: "sem_program \<Rightarrow> function_id \<Rightarrow> nat \<Rightarrow> bool" where
  "statement_at P f i \<longleftrightarrow> (\<exists>fn sid. function_of P f = Ok fn \<and> stmt_index fn sid = Some i)"

definition function_at :: "sem_program \<Rightarrow> function_id \<Rightarrow> bool" where
  "function_at P f \<longleftrightarrow> f < length (p_functions P)"

fun predicate_ok :: "sem_program \<Rightarrow> predicate \<Rightarrow> bool" where
  "predicate_ok P PTrue = True"
| "predicate_ok P PFalse = True"
| "predicate_ok P (VarEq r v) = data_value P r v"
| "predicate_ok P (VarCmp r p v) = data_value P r v"
| "predicate_ok P (FunctionCompleted f) = function_at P f"
| "predicate_ok P (FunctionCompletedAtLeast f n) = function_at P f"
| "predicate_ok P (ScopeCompleted f i) = statement_at P f i"
| "predicate_ok P (StatementReached f i) = statement_at P f i"
| "predicate_ok P (MutexFree r) = kinded P r {KMutex}"
| "predicate_ok P (MutexHeld r) = kinded P r {KMutex}"
| "predicate_ok P (HoldsAll f rs) = (function_at P f \<and> list_all (\<lambda>r. kinded P r {KMutex, KSemaphore}) rs)"
| "predicate_ok P (MutexExclusive r) = kinded P r {KMutex, KSemaphore}"
| "predicate_ok P (NeverHoldsAll f rs) = (function_at P f \<and> list_all (\<lambda>r. kinded P r {KMutex, KSemaphore}) rs)"
| "predicate_ok P (ChannelEmpty r) = kinded P r {KChannel}"
| "predicate_ok P (ChannelAtLeast r n) = kinded P r {KChannel}"
| "predicate_ok P (PNot p) = predicate_ok P p"
| "predicate_ok P (PAnd ps) = list_all (predicate_ok P) ps"
| "predicate_ok P (POr ps) = list_all (predicate_ok P) ps"

definition wf_resource_types :: "sem_program \<Rightarrow> bool" where
  "wf_resource_types P \<longleftrightarrow> list_all (\<lambda>res. case r_ty res of Some ty \<Rightarrow> wf_type ty | None \<Rightarrow> True) (p_resources P)"

lemma map_error_Ok: "(case m of Ok v \<Rightarrow> Ok v | Err e \<Rightarrow> Err e' | Panic \<Rightarrow> Panic) = Ok v \<longleftrightarrow> m = Ok v"
  by (cases m) auto

lemma resolve_kinded_Ok:
  "resolve_kinded P m ks n = Ok r \<Longrightarrow> kinded P r (set ks)"
  by (auto simp: resolve_kinded_def expect_kind_def kinded_def resource_of_def split: if_splits)

lemma resolve_value_Ok:
  assumes "resolve_value A P r j = Ok v" "wf_resource_types P"
  shows "data_value P r v"
proof -
  from assms(1) obtain res ty where r: "resource_of P r = Ok res" "r_kind res \<in> {KVar, KAtomic}"
    "r_ty res = Some ty" "from_json A j ty = Ok v"
    by (auto simp: resolve_value_def resource_of_def map_error_Ok split: if_splits)
  then have "wf_type ty" using assms(2) by (auto simp: wf_resource_types_def resource_of_def list_all_length)
  with r from_json_within show ?thesis by (fastforce simp: data_value_def)
qed

lemma lookup_function_Ok: "wf_ids P \<Longrightarrow> lookup_function P m n = Ok f \<Longrightarrow> function_at P f"
  using resolve_function_sound [of P m n f]
  by (auto simp: lookup_function_def function_at_def function_of_def)

lemma resolve_statement_Ok: "resolve_statement P m f sid = Ok (g, i) \<Longrightarrow> statement_at P g i"
  by (auto simp: resolve_statement_def statement_at_def function_of_def)

lemma mapM_all: "mapM f xs = Ok ys \<Longrightarrow> (\<And>x y. x \<in> set xs \<Longrightarrow> f x = Ok y \<Longrightarrow> Q y) \<Longrightarrow> list_all Q ys"
  by (auto simp: list_all_iff dest!: mapM_Ok_set)

lemma resolve_predicate_ok:
  assumes "wf_ids P" "wf_resource_types P"
  shows "resolve_predicate A P m sp = Ok p \<Longrightarrow> predicate_ok P p"
proof (induction sp arbitrary: p)
  case (SpHoldsAll f rs)
  then show ?case
    by (auto dest: lookup_function_Ok [OF assms(1)] elim!: mapM_all
        dest!: resolve_kinded_Ok [of _ _ "[KMutex, KSemaphore]", simplified])
next
  case (SpNeverHoldsAll f rs)
  then show ?case
    by (auto dest: lookup_function_Ok [OF assms(1)] elim!: mapM_all
        dest!: resolve_kinded_Ok [of _ _ "[KMutex, KSemaphore]", simplified])
next
  case (SpAnd ps)
  then show ?case by (auto elim!: mapM_all)
next
  case (SpOr ps)
  then show ?case by (auto elim!: mapM_all)
qed (auto dest: lookup_function_Ok [OF assms(1)] resolve_kinded_Ok resolve_statement_Ok
    resolve_value_Ok [OF _ assms(2)])

lemma invalid_predicate_Ok [simp]: "invalid_predicate m = Ok x \<longleftrightarrow> m = Ok x"
  by (simp add: invalid_predicate_def split: outc.splits)

lemma resolve_property_id: "resolve_property A P m sp = Ok p \<Longrightarrow> pr_id p = property_id sp"
  by (cases sp) auto

lemma resolve_property_ok:
  assumes "wf_ids P" "wf_resource_types P" "resolve_property A P m sp = Ok p"
  shows "list_all (predicate_ok P) (property_predicates (pr_property p))"
  using assms(3) resolve_predicate_ok [OF assms(1,2)] by (cases sp) auto

lemma resolve_preserved_ok:
  assumes "wf_ids P" "wf_resource_types P" "resolve_preserved A P m sp = Ok b"
  shows "predicate_ok P (preserved_predicate (pb_behavior b))"
  using assms(3) resolve_predicate_ok [OF assms(1,2)] by (cases sp) auto

lemma mapM_map_eq: "mapM f xs = Ok ys \<Longrightarrow> (\<And>x y. f x = Ok y \<Longrightarrow> h y = k x) \<Longrightarrow> map h ys = map k xs"
  by (induction xs arbitrary: ys) auto

lemma resolve_contract_predicates:
  assumes "wf_ids P" "wf_resource_types P" "resolve_contract A P s = Ok c" "p \<in> set (contract_predicates c)"
  shows "predicate_ok P p"
proof -
  from assms(3) obtain m where
    props: "mapM (resolve_property A P m) (cs_properties s) = Ok (ct_properties c)" and
    pres: "mapM (resolve_preserved A P m) (cs_preserved s) = Ok (ct_preserved c)"
    by (auto simp: resolve_contract_def)
  from assms(4) consider q where "q \<in> set (ct_properties c)" "p \<in> set (property_predicates (pr_property q))"
    | b where "b \<in> set (ct_preserved c)" "p = preserved_predicate (pb_behavior b)"
    by (auto simp: contract_predicates_def)
  then show ?thesis
  proof cases
    case 1
    from mapM_Ok_set [OF props 1(1)] resolve_property_ok [OF assms(1,2)] 1(2) show ?thesis
      by (fastforce simp: list_all_iff)
  next
    case 2
    from mapM_Ok_set [OF pres 2(1)] resolve_preserved_ok [OF assms(1,2)] 2(2) show ?thesis by blast
  qed
qed

subsection \<open>Decided predicates\<close>

lemma thread_holds_total: "kinded (it_program ip) r ks \<Longrightarrow> \<exists>b. thread_holds ip st t r = Ok b"
  by (auto simp: thread_holds_def kinded_def)

lemma predicate_total:
  "predicate_ok (it_program ip) p \<Longrightarrow> \<exists>b. interp_satisfied ip st p = Ok b"
proof (induction p)
  case (HoldsAll f rs)
  then show ?case
    by (auto simp: some_thread_holds_def list_all_iff intro!: anyM_total allM_total thread_holds_total)
next
  case (NeverHoldsAll f rs)
  then have "\<exists>b. some_thread_holds ip st f rs = Ok b"
    by (auto simp: some_thread_holds_def list_all_iff intro!: anyM_total allM_total thread_holds_total)
  then show ?case by auto
next
  case (PNot p)
  then show ?case by auto
next
  case (PAnd ps)
  then show ?case by (auto simp: list_all_iff intro!: allM_total)
next
  case (POr ps)
  then show ?case by (auto simp: list_all_iff intro!: anyM_total)
qed (auto simp: satisfied_mutex_exclusive_def kinded_def)

end
