(* ===== verification/Sem_Props.thy ===== *)
theory Sem_Props
  imports Contract_Laws Demo_Programs
begin

text \<open>Properties of values, expressions, names, the resolved program, monitors and contracts.\<close>

subsection \<open>Values and expressions\<close>

text \<open>C26: The semantic key identifies values: two values have one key exactly when they are equal
  (floats by their bits), so states that differ in a value are never merged because of it.\<close>

theorem value_key_injective: "value_key v = value_key w \<longleftrightarrow> v = w"
  using value_key_prefix_free [of v "[]" w "[]"] by auto

text \<open>For a well-formed type the default value exists and lies in the type's domain, and so
  does every value that a JSON literal is read to, whatever the JSON accessors return.\<close>

theorem values_within_type:
  assumes "wf_type t"
  shows "(\<exists>v. default_value t = Ok v \<and> within_type v t) \<and>
    (from_json A j t = Ok v \<longrightarrow> within_type v t)"
  using default_value_within [OF assms] from_json_within [of A j t v] assms by blast

theorem values_within_type_witness:
  "\<exists>v. default_value (StructT [(''a'', BoundedInt 2 5), (''b'', ArrayT (EnumT [''x'']) 2)]) = Ok v \<and>
     within_type v (StructT [(''a'', BoundedInt 2 5), (''b'', ArrayT (EnumT [''x'']) 2)])"
proof -
  have "wf_type (StructT [(''a'', BoundedInt 2 5), (''b'', ArrayT (EnumT [''x'']) 2)])" by code_simp
  from values_within_type [OF this, THEN conjunct1] show ?thesis .
qed



text \<open>Contract comparisons and program comparisons agree: where the program's comparison of two
  numbers is ordered, \<open>compare_values\<close> gives the same truth value, and \<open>!=\<close> is always the
  negation of \<open>==\<close> in the contract.\<close>

theorem comparisons_agree:
  "(numeric_cmp l r = Some (Some od) \<longrightarrow> (eval_cmp p l r = Ok (VBool b) \<longleftrightarrow> compare_values p l r = Some b)) \<and>
   compare_values CNe l r = map_option Not (compare_values CEq l r)"
  using compare_values_eval_cmp [of l r od p b] compare_values_negate(1) [of l r] by blast

theorem comparisons_agree_witness:
  "eval_cmp CLt (VInt 1) (VInt 2) = Ok (VBool True) \<longleftrightarrow> compare_values CLt (VInt 1) (VInt 2) = Some True"
proof -
  have "numeric_cmp (VInt 1) (VInt 2) = Some (Some Less)" by code_simp
  with comparisons_agree [of "VInt 1" "VInt 2" Less CLt True] show ?thesis by blast
qed

subsection \<open>Names and the resolved program\<close>

text \<open>Qualified names and control locations are read back exactly: \<open>split_fqn\<close> accepts precisely
  the texts \<open>fqn m e\<close> of two identifiers and returns them, and \<open>split_location\<close> inverts \<open>location\<close>
  on identifiers and a non-empty statement id without a dot.\<close>

theorem names_round_trip:
  "(split_fqn s = Some (m, e) \<longleftrightarrow> s = fqn m e \<and> is_ident m \<and> is_ident e) \<and>
   (is_ident m \<longrightarrow> is_ident e \<longrightarrow> sid \<noteq> [] \<longrightarrow> CHR ''.'' \<notin> set sid \<longrightarrow>
      split_location (location m e sid) = Some (m, e, sid))"
  using split_fqn_iff [of s m e] split_location_location [of m e sid] by blast

theorem names_round_trip_witness:
  "split_location (location ''core'' ''main'' ''s3'') = Some (''core'', ''main'', ''s3'')"
proof -
  have "is_ident ''core''" "is_ident ''main''" "''s3'' \<noteq> []" "CHR ''.'' \<notin> set ''s3''" by code_simp+
  with names_round_trip [of "fqn ''core'' ''main''" "''core''" "''main''" "''s3''"] show ?thesis by blast
qed

text \<open>Name resolution is sound: in a program whose tables carry their own index as id, a resolved
  resource or function exists, carries the name and belongs to the module the text denotes.\<close>

theorem resolution_sound:
  assumes "wf_ids P"
  shows "(resolve_resource P m n = Some r \<longrightarrow> (\<exists>res mid e. resource_of P r = Ok res \<and>
      resolve_in P m n = Some (mid, e) \<and> r_module res = mid \<and> r_name res = e)) \<and>
    (resolve_function P m n = Some f \<longrightarrow> (\<exists>fn mid e. function_of P f = Ok fn \<and>
      resolve_in P m n = Some (mid, e) \<and> f_module fn = mid \<and> f_name fn = e))"
  using resolve_resource_sound [OF assms] resolve_function_sound [OF assms] by blast

theorem resolution_sound_witness:
  "\<exists>res. resource_of demo_pipeline 1 = Ok res \<and> r_name res = ''c''"
proof -
  have "wf_ids demo_pipeline \<and> resolve_resource demo_pipeline 0 ''app::c'' = Some 1 \<and>
     resolve_in demo_pipeline 0 ''app::c'' = Some (0, ''c'')" by code_simp
  with resolution_sound [of demo_pipeline 0 "''app::c''" 1] show ?thesis by auto
qed

text \<open>The monitor derived from the observed predicates counts far enough and no more: its limit
  for a function covers every count a predicate compares with, and a function no predicate observes
  is not counted at all.\<close>

theorem monitor_covers:
  "(p \<in> set ps \<longrightarrow> observes p f n \<longrightarrow> n \<le> max_for (from_predicates ps) f) \<and>
   ((\<forall>p\<in>set ps. \<forall>n. \<not> observes p f n) \<longrightarrow> max_for (from_predicates ps) f = 0)"
  using max_for_covers [of p ps f n] max_for_unobserved [of ps f] by blast

theorem monitor_covers_witness:
  "3 \<le> max_for (from_predicates [FunctionCompletedAtLeast 4 3, FunctionCompleted 4]) 4"
  using monitor_covers [of "FunctionCompletedAtLeast 4 3" "[FunctionCompletedAtLeast 4 3, FunctionCompleted 4]" 4 3]
  by simp

subsection \<open>Contracts\<close>

text \<open>A contract that resolves is valid: every bound is at least one, the two supported
  assumptions are made, and its property ids, kept in their order, are distinct and not blank.\<close>

theorem resolved_contract_valid:
  assumes "resolve_contract A P s = Ok c"
  shows "valid_bounds (ct_bounds c) \<and> ct_bounds c = bounds_of_spec (cs_bounds s) \<and>
    as_sequential_consistency (ct_assumptions c) \<and> as_no_spurious_wakeups (ct_assumptions c) \<and>
    map pr_id (ct_properties c) = map property_id (cs_properties s) \<and>
    distinct (map pr_id (ct_properties c)) \<and> (\<forall>p\<in>set (ct_properties c). \<not> is_blank (pr_id p))"
proof -
  from assms obtain m props where "validate_assumptions (cs_assumptions s) = Ok ()"
    "validate_bounds (cs_bounds s) = Ok ()" "validate_ids [] (map property_id (cs_properties s)) = Ok ()"
    and props: "mapM (resolve_property A P m) (cs_properties s) = Ok props" "ct_properties c = props"
    and c: "ct_bounds c = bounds_of_spec (cs_bounds s)" "ct_assumptions c = cs_assumptions s"
    by (auto simp: resolve_contract_def)
  moreover have ids: "map pr_id props = map property_id (cs_properties s)"
    by (rule mapM_map_eq [OF props(1) resolve_property_id])
  moreover have "\<not> is_blank (pr_id p)" if "p \<in> set props" for p
  proof -
    have "pr_id p \<in> set (map property_id (cs_properties s))"
      unfolding ids [symmetric] using that by simp
    with calculation(3) show ?thesis unfolding validate_ids_Ok by blast
  qed
  ultimately show ?thesis
    by (auto simp: validate_bounds_Ok validate_ids_Ok validate_assumptions_Ok)
qed

text \<open>A contract document, and accessors that read no JSON value.\<close>

definition demo_json :: "unit json_api" where
  "demo_json = \<lparr>j_as_bool = (\<lambda>_. None), j_as_i64 = (\<lambda>_. Some 2), j_as_f64 = (\<lambda>_. None),
     j_as_str = (\<lambda>_. None), j_as_object = (\<lambda>_. None), j_as_array = (\<lambda>_. None)\<rparr>"

definition demo_spec :: "unit contract_spec" where
  "demo_spec = \<lparr>cs_name = ''c'', cs_properties = [SpecDeadlockFree ''p'',
      SpecReachability ''q'' (SpAnd [SpVarEq ''x'' (), SpStatementReached ''app::work'' ''s1''])],
    cs_preserved = [SpecAlways ''d'' (SpNot (SpChannelAtLeast ''c'' 2))],
    cs_assumptions = assumptions_default, cs_bounds = \<lparr>bs_max_threads = 4,
      bs_max_frames_per_thread = 3, bs_max_states = 30, bs_max_depth = 20,
      bs_max_boundary_events = 3\<rparr>, cs_allowed_scope = patch_scope_unrestricted\<rparr>"

lemma demo_spec_resolves:
  obtains c where "resolve_contract demo_json demo_pipeline demo_spec = Ok c" "length (ct_properties c) = 2"
    "contract_predicates c = [PAnd [VarEq 0 (VInt 2), StatementReached 1 1], PNot (ChannelAtLeast 1 2)]"
proof -
  have "case resolve_contract demo_json demo_pipeline demo_spec of
      Ok c \<Rightarrow> length (ct_properties c) = 2 \<and>
        contract_predicates c = [PAnd [VarEq 0 (VInt 2), StatementReached 1 1], PNot (ChannelAtLeast 1 2)]
    | _ \<Rightarrow> False" by code_simp
  then show thesis using that by (auto split: outc.splits)
qed

theorem resolved_contract_valid_witness:
  "\<exists>c. resolve_contract demo_json demo_pipeline demo_spec = Ok c \<and> valid_bounds (ct_bounds c) \<and>
     distinct (map pr_id (ct_properties c))"
proof -
  obtain c where c: "resolve_contract demo_json demo_pipeline demo_spec = Ok c" by (rule demo_spec_resolves)
  from resolved_contract_valid [OF this] c show ?thesis by blast
qed

text \<open>Every predicate of a resolved contract refers to existing functions, statements and resources
  of the kinds the predicate needs, its literals lie in the declared type, and the interpreter decides
  it in every state whatsoever: it never panics on it.\<close>

theorem resolved_predicates_decided:
  assumes "wf_ids P" "wf_resource_types P" "resolve_contract A P s = Ok c"
    and "p \<in> set (contract_predicates c)" "it_program ip = P"
  shows "predicate_ok P p \<and> (\<exists>b. interp_satisfied ip st p = Ok b)"
  using resolve_contract_predicates [OF assms(1-4)] predicate_total [of ip p st] assms(5) by blast

theorem resolved_predicates_decided_witness:
  "predicate_ok demo_pipeline (PNot (ChannelAtLeast 1 2)) \<and>
   (\<exists>b. interp_satisfied demo_pipeline_interp empty_state (PNot (ChannelAtLeast 1 2)) = Ok b)"
proof -
  obtain c where c: "resolve_contract demo_json demo_pipeline demo_spec = Ok c"
    "contract_predicates c = [PAnd [VarEq 0 (VInt 2), StatementReached 1 1], PNot (ChannelAtLeast 1 2)]"
    by (rule demo_spec_resolves)
  have "wf_ids demo_pipeline" "wf_resource_types demo_pipeline" by code_simp+
  from resolved_predicates_decided [OF this c(1), of "PNot (ChannelAtLeast 1 2)" demo_pipeline_interp] c(2)
  show ?thesis by (simp add: demo_pipeline_interp_def)
qed

text \<open>Re-binding a resolved contract against the program it was resolved against changes nothing,
  so re-binding after a patch differs only where the patched program does.\<close>

theorem rebind_same_program:
  assumes "resolve_contract A P s = Ok c"
  shows "rebind A P c = Ok c"
  using assms by (auto simp: rebind_def resolve_contract_def)

theorem rebind_same_program_witness:
  "\<exists>c. length (ct_properties c) = 2 \<and> rebind demo_json demo_pipeline c = Ok c"
proof -
  obtain c where c: "resolve_contract demo_json demo_pipeline demo_spec = Ok c" "length (ct_properties c) = 2"
    by (rule demo_spec_resolves)
  from rebind_same_program [OF c(1)] c(2) show ?thesis by blast
qed

end
