(* ===== verification/Interp_Step_Props.thy ===== *)
theory Interp_Step_Props
  imports Explore_Report Demo_Programs
begin

text \<open>
  Properties of single operations of the interpreter: what a call followed by its return leaves,
  the choices of a notification, the order of a buffered channel, what a passing report says about
  runtime errors, and two places where the code departs from its documentation.
\<close>

lemma advance_Ok:
  "advance t st = Ok st' \<Longrightarrow> ms_threads st' = ms_threads st \<and>
     condvars (ms_store st') = condvars (ms_store st) \<and> channels (ms_store st') = channels (ms_store st)"
  by (auto simp: advance_def modify_frame_Ok store_updates split: option.splits)

subsection \<open>Calls and returns\<close>

lemma write_dst_frames:
  "write_dst f d v st = Ok st' \<Longrightarrow> ms_threads st' = ms_threads st \<and>
     (\<forall>g. g \<noteq> f \<longrightarrow> bt_get (frames (ms_store st')) g = bt_get (frames (ms_store st)) g) \<and>
     (\<forall>fr. bt_get (frames (ms_store st)) f = Some fr \<longrightarrow>
        (\<exists>fr'. bt_get (frames (ms_store st')) f = Some fr' \<and> fr_function fr' = fr_function fr))"
  by (cases d) (auto simp: modify_frame_Ok store_updates write_shared_def)

lemma set_pc_frames:
  "set_pc f pc st = Ok st' \<Longrightarrow> \<exists>fr. bt_get (frames (ms_store st)) f = Some fr \<and>
     ms_threads st' = ms_threads st \<and>
     (\<forall>g. bt_get (frames (ms_store st')) g =
        (if g = f then Some (fr\<lparr>fr_pc := pc\<rparr>) else bt_get (frames (ms_store st)) g))"
  by (auto simp: set_pc_def modify_frame_Ok store_updates)

lemma record_completion_rest [simp]:
  "ms_store (record_completion ip f st) = ms_store st" "ms_threads (record_completion ip f st) = ms_threads st"
  by (simp_all add: record_completion_def Let_def)

lemma read_shared_frames [simp]: "read_shared (s\<lparr>frames := x\<rparr>) r = read_shared s r"
  by (simp add: read_shared_def split: option.splits)

lemma write_dst_read:
  "write_dst f d v st = Ok st' \<Longrightarrow> d \<noteq> Discard \<Longrightarrow> set_pc f pc st' = Ok st'' \<Longrightarrow>
    read_dst f d st'' = Ok (Some v)"
  by (cases d) (auto simp: set_pc_def modify_frame_Ok store_updates read_write_shared)

text \<open>C19: A call followed by the return of its callee puts the caller back: its stack is what it was,
  the callee's frame is gone, the caller goes on at the statement after the call, and the destination
  holds the returned value.\<close>

theorem call_return_round_trip:
  assumes call: "do_call ip x f args (Some d) st = Ok ([st1], be)"
    and th: "bt_get (ms_threads st) (sx_tid x) = Some th" "th_stack th = stk @ [sx_fid x]"
    and fr: "bt_get (frames (ms_store st)) (sx_fid x) = Some fr"
    and fresh: "bt_get (frames (ms_store st)) (next_frame (ms_alloc st)) = None"
    and fn: "function_of (it_program ip) f = Ok callee" "\<not> is_transparent_nobody callee"
    and ret: "apply_return ip (sx_tid x) (next_frame (ms_alloc st)) f callee (Some v) st1 = Ok (Some st2)"
  shows "(\<exists>th2. bt_get (ms_threads st2) (sx_tid x) = Some th2 \<and> th_stack th2 = th_stack th) \<and>
    bt_get (frames (ms_store st2)) (next_frame (ms_alloc st)) = None \<and>
    (\<exists>fr2. bt_get (frames (ms_store st2)) (sx_fid x) = Some fr2 \<and> fr_pc fr2 = sx_pc x + 1 \<and>
       fr_function fr2 = fr_function fr) \<and>
    (d \<noteq> Discard \<longrightarrow> read_dst (sx_fid x) d st2 = Ok (Some v))"
proof -
  let ?n = "next_frame (ms_alloc st)"
  from call fn obtain fr1 where
    st1: "ms_threads st1 = bt_adjust (sx_tid x) (\<lambda>th. th\<lparr>th_stack := th_stack th @ [?n]\<rparr>) (ms_threads st)"
      "ms_store st1 = write_frame ?n fr1 (ms_store st)"
    and fr1: "fr_ret fr1 = Some \<lparr>ra_pc_next = sx_pc x + 1, ra_dst = d\<rparr>"
    by (auto simp: do_call_def quiet_def one_def alloc_frame_def upd_thread_def upd_store_def Let_def
        split: if_splits)
  have ne: "?n \<noteq> sx_fid x" using fr fresh by auto
  have th1: "bt_get (ms_threads st1) (sx_tid x) = Some (th\<lparr>th_stack := stk @ [sx_fid x, ?n]\<rparr>)"
    using th by (simp add: st1)
  let ?s = "drop_frame (sx_tid x) ?n st1"
  have f1: "bt_get (frames (ms_store st1)) ?n = Some fr1" by (simp add: st1 write_frame_def)
  from ret obtain s3 s4 where w: "write_dst (sx_fid x) d v ?s = Ok s3" and
    p: "set_pc (sx_fid x) (sx_pc x + 1) s3 = Ok s4" and st2: "st2 = record_completion ip f s4"
    by (auto simp: apply_return_def th1 f1 fr1 numeral_2_eq_2 Let_def split: option.splits if_splits)
  have s: "bt_get (ms_threads ?s) (sx_tid x) = Some (th\<lparr>th_stack := stk @ [sx_fid x]\<rparr>)"
    "bt_get (frames (ms_store ?s)) ?n = None" "bt_get (frames (ms_store ?s)) (sx_fid x) = Some fr"
    using ne fr th1 by (simp_all add: drop_frame_def upd_store_def upd_thread_def st1(2) write_frame_def butlast_append)
  from write_dst_frames [OF w] s ne obtain fr3 where
    s3: "ms_threads s3 = ms_threads ?s" "bt_get (frames (ms_store s3)) ?n = None"
    "bt_get (frames (ms_store s3)) (sx_fid x) = Some fr3" "fr_function fr3 = fr_function fr"
    by metis
  from set_pc_frames [OF p] s3 ne have
    "ms_threads s4 = ms_threads ?s" "bt_get (frames (ms_store s4)) ?n = None"
    "bt_get (frames (ms_store s4)) (sx_fid x) = Some (fr3\<lparr>fr_pc := sx_pc x + 1\<rparr>)" by auto
  with s(1) s3(4) th(2) write_dst_read [OF w _ p] show ?thesis
    by (cases d) (auto simp: st2)
qed

text \<open>A program that calls a function and stores what it returns in a shared variable.\<close>

definition demo_call :: sem_program where
  "demo_call = demo_program
     [(demo_resource 0 ''x'' KVar)\<lparr>r_ty := Some demo_small_int, r_init := Some (VInt 0)\<rparr>]
     [demo_fn 0 ''main'' [] [Call 1 [] (Some (Shared 0)), Nop],
      demo_fn 1 ''two'' [] [Return (Some (Lit (LInt 2)))]]"

definition demo_call_site :: site where
  "demo_call_site = \<lparr>sx_tid = 0, sx_fid = 0, sx_function_id = 0, sx_function = p_functions demo_call ! 0,
     sx_pc = 0, sx_at = []\<rparr>"

definition demo_call_start :: machine_state where
  "demo_call_start = (case interp_initial (demo_interp demo_call) of Ok s \<Rightarrow> s | _ \<Rightarrow> empty_state)"

definition demo_called :: machine_state where
  "demo_called = (case do_call (demo_interp demo_call) demo_call_site 1 [] (Some (Shared 0)) demo_call_start of
     Ok ([s], _) \<Rightarrow> s | _ \<Rightarrow> empty_state)"

definition demo_returned :: machine_state where
  "demo_returned = (case apply_return (demo_interp demo_call) 0 1 1 (p_functions demo_call ! 1) (Some (VInt 2))
     demo_called of Ok (Some s) \<Rightarrow> s | _ \<Rightarrow> empty_state)"

lemma demo_call_facts:
  "do_call (demo_interp demo_call) demo_call_site 1 [] (Some (Shared 0)) demo_call_start = Ok ([demo_called], []) \<and>
   apply_return (demo_interp demo_call) 0 1 1 (p_functions demo_call ! 1) (Some (VInt 2)) demo_called =
     Ok (Some demo_returned) \<and>
   map_option th_stack (bt_get (ms_threads demo_call_start) 0) = Some ([] @ [0]) \<and>
   bt_get (frames (ms_store demo_call_start)) 0 \<noteq> None \<and>
   next_frame (ms_alloc demo_call_start) = 1 \<and> bt_get (frames (ms_store demo_call_start)) 1 = None \<and>
   function_of demo_call 1 = Ok (p_functions demo_call ! 1) \<and>
   \<not> is_transparent_nobody (p_functions demo_call ! 1)"
  by code_simp

theorem call_return_round_trip_witness:
  "read_dst 0 (Shared 0) demo_returned = Ok (Some (VInt 2)) \<and>
   (\<exists>fr2. bt_get (frames (ms_store demo_returned)) 0 = Some fr2 \<and> fr_pc fr2 = 1)"
proof -
  have site: "sx_tid demo_call_site = 0" "sx_fid demo_call_site = 0" "sx_pc demo_call_site = 0"
    by (simp_all add: demo_call_site_def)
  from demo_call_facts obtain th fr where th: "bt_get (ms_threads demo_call_start) (sx_tid demo_call_site) = Some th"
    "th_stack th = [] @ [sx_fid demo_call_site]"
    "bt_get (frames (ms_store demo_call_start)) (sx_fid demo_call_site) = Some fr"
    by (auto simp: site)
  note facts = demo_call_facts
  have "bt_get (frames (ms_store demo_call_start)) (next_frame (ms_alloc demo_call_start)) = None"
    "function_of (it_program (demo_interp demo_call)) 1 = Ok (p_functions demo_call ! 1)"
    "\<not> is_transparent_nobody (p_functions demo_call ! 1)"
    "apply_return (demo_interp demo_call) (sx_tid demo_call_site) (next_frame (ms_alloc demo_call_start)) 1
       (p_functions demo_call ! 1) (Some (VInt 2)) demo_called = Ok (Some demo_returned)"
    using facts by (simp_all add: site demo_interp_def)
  from call_return_round_trip [OF conjunct1 [OF facts] th this] show ?thesis
    by (auto simp: site)
qed

subsection \<open>Notification\<close>

text \<open>\<open>notify\<close> with waiting threads has exactly one successor per waiter, in the order of the
  queue; the successor for a waiter removes it from the queue, blocks it on the mutex it gave up,
  and moves no other thread out of the queue.\<close>

theorem notify_one_per_waiter:
  assumes "step_notify ip st t f pc cv = Ok stps" "bt_get (condvars (ms_store st)) cv = Some ws" "ws \<noteq> []"
  shows "length stps = length ws \<and> (\<forall>i<length ws.
    bt_get (condvars (ms_store (step_state (stps ! i)))) cv = Some (filter (\<lambda>y. y \<noteq> ws ! i) ws) \<and>
    (\<forall>th. bt_get (ms_threads st) (fst (ws ! i)) = Some th \<longrightarrow>
       bt_get (ms_threads (step_state (stps ! i))) (fst (ws ! i)) =
         Some (th\<lparr>th_status := Blocked (BrLock (snd (ws ! i)))\<rparr>)))"
proof -
  let ?g = "\<lambda>(w, lock). advance t (block w (BrLock lock) (set_waiters cv (filter (\<lambda>y. y \<noteq> (w, lock)) ws) (mark_reached f pc st)))"
  from assms obtain l ss where ss: "mapM ?g ws = Ok ss" "stps = label_all l ss"
    by (auto simp: step_notify_def Let_def)
  from ss(1) have len: "length ss = length ws" by (rule mapM_Ok_length)
  have step: "?g (ws ! i) = Ok (ss ! i)" if "i < length ws" for i by (rule mapM_nth [OF ss(1) that])
  have "bt_get (condvars (ms_store (ss ! i))) cv = Some (filter (\<lambda>y. y \<noteq> ws ! i) ws) \<and>
    (\<forall>th. bt_get (ms_threads st) (fst (ws ! i)) = Some th \<longrightarrow>
       bt_get (ms_threads (ss ! i)) (fst (ws ! i)) = Some (th\<lparr>th_status := Blocked (BrLock (snd (ws ! i)))\<rparr>))"
    if i: "i < length ws" for i
    using advance_Ok [OF step [OF i, unfolded case_prod_beta]] assms(2)
    by (auto simp: block_def upd_thread_def store_updates)
  then show ?thesis using len by (auto simp: ss(2) label_all_def)
qed

text \<open>Two workers lock a mutex and wait; the main thread is at its notification.\<close>

definition demo_waiting :: sem_program where
  "demo_waiting = demo_program [demo_resource 0 ''m'' KMutex, demo_resource 1 ''cv'' KCondvar]
     [demo_fn 0 ''main'' [] [Spawn 1 ''a'', Spawn 1 ''b'', CondvarNotify 1],
      demo_fn 1 ''work'' [] [MutexLock 0, CondvarWait 1 0]]"

definition demo_waiting_state :: machine_state where
  "demo_waiting_state = (case run_from_start (demo_system demo_waiting) [0, 0, 1, 1, 1, 1] of
     Some s \<Rightarrow> s | None \<Rightarrow> empty_state)"

lemma demo_waiting_facts:
  "bt_get (condvars (ms_store demo_waiting_state)) 1 = Some [(1, 0), (2, 0)] \<and>
   (case step_notify (demo_interp demo_waiting) demo_waiting_state 0 0 2 1 of Ok _ \<Rightarrow> True | _ \<Rightarrow> False)"
  by code_simp

theorem notify_one_per_waiter_witness:
  "\<exists>stps. step_notify (demo_interp demo_waiting) demo_waiting_state 0 0 2 1 = Ok stps \<and> length stps = 2 \<and>
     bt_get (condvars (ms_store (step_state (stps ! 0)))) 1 = Some [(2, 0)]"
proof -
  obtain stps where "step_notify (demo_interp demo_waiting) demo_waiting_state 0 0 2 1 = Ok stps"
    using demo_waiting_facts by (auto split: outc.splits)
  with notify_one_per_waiter [OF this demo_waiting_facts [THEN conjunct1]] show ?thesis by force
qed

subsection \<open>Buffered channels\<close>

lemma try_write_channels:
  "try_write_dst ip f d v st = Ok (Some s) \<Longrightarrow> channels (ms_store s) = channels (ms_store st)"
  by (cases d) (auto simp: try_write_dst_def modify_frame_Ok store_updates write_shared_def split: if_splits)

text \<open>C20: A channel with a buffer is a bounded first-in first-out queue: a send with room appends the
  value it evaluated, a send without room leaves the buffer and offers the value as the last of the
  waiting ones, and a receive takes the first value of a non-empty buffer away and nothing else.\<close>

theorem channel_is_bounded_queue:
  assumes "resource_of (it_program ip) c = Ok res" "0 < r_capacity res" "chan_of st c = Some ch"
  shows "(\<forall>ss s. do_send ip x c e st = Ok ss \<longrightarrow> s \<in> set ss \<longrightarrow> (\<exists>v. ieval st (sx_fid x) e = Ok v \<and>
      (if length (ch_buffer ch) < r_capacity res
       then chan_of s c = Some (ch\<lparr>ch_buffer := ch_buffer ch @ [v]\<rparr>)
       else chan_of s c = Some (ch\<lparr>ch_pending_send := ch_pending_send ch @ [\<lparr>ps_thread = sx_tid x, ps_value = v\<rparr>]\<rparr>)))) \<and>
    (\<forall>ss s v vs. do_recv ip x c st = Ok ss \<longrightarrow> s \<in> set ss \<longrightarrow> ch_buffer ch = v # vs \<longrightarrow>
      chan_of s c = Some (ch\<lparr>ch_buffer := vs\<rparr>))"
proof (intro conjI allI impI)
  fix ss s assume "do_send ip x c e st = Ok ss" "s \<in> set ss"
  with assms show "\<exists>v. ieval st (sx_fid x) e = Ok v \<and>
      (if length (ch_buffer ch) < r_capacity res
       then chan_of s c = Some (ch\<lparr>ch_buffer := ch_buffer ch @ [v]\<rparr>)
       else chan_of s c = Some (ch\<lparr>ch_pending_send := ch_pending_send ch @ [\<lparr>ps_thread = sx_tid x, ps_value = v\<rparr>]\<rparr>))"
    by (auto simp: do_send_def Let_def has_space_def one_def modify_chan_Ok push_buffer_def push_send_def
        block_def upd_thread_def chan_of_def set_chan_def upd_store_def split: if_splits dest!: advance_Ok)
next
  fix ss s v vs assume *: "do_recv ip x c st = Ok ss" "s \<in> set ss" "ch_buffer ch = v # vs"
  with assms show "chan_of s c = Some (ch\<lparr>ch_buffer := vs\<rparr>)"
    by (auto simp: do_recv_def Let_def chan_head_def then_advance_def opt_one_def modify_chan_Ok pop_buffer_def
        chan_of_def set_chan_def upd_store_def split: option.splits dest!: advance_Ok
        try_write_channels)
qed

text \<open>A one-place channel before and after a send.\<close>

lemma demo_queue_step:
  obtains s v where "do_send demo_pipeline_interp
      \<lparr>sx_tid = 0, sx_fid = 0, sx_function_id = 0, sx_function = p_functions demo_pipeline ! 0, sx_pc = 1, sx_at = []\<rparr>
      1 (Lit (LInt 2)) (case interp_initial demo_pipeline_interp of Ok s \<Rightarrow> s | _ \<Rightarrow> empty_state) = Ok [s]"
    "chan_of (case interp_initial demo_pipeline_interp of Ok s \<Rightarrow> s | _ \<Rightarrow> empty_state) 1 = Some channel_default"
    "resource_of demo_pipeline 1 = Ok v" "r_capacity v = 1"
proof -
  have "chan_of (case interp_initial demo_pipeline_interp of Ok s \<Rightarrow> s | _ \<Rightarrow> empty_state) 1 = Some channel_default \<and>
    resource_of demo_pipeline 1 = Ok (p_resources demo_pipeline ! 1) \<and> r_capacity (p_resources demo_pipeline ! 1) = 1 \<and>
    (case do_send demo_pipeline_interp
      \<lparr>sx_tid = 0, sx_fid = 0, sx_function_id = 0, sx_function = p_functions demo_pipeline ! 0, sx_pc = 1, sx_at = []\<rparr>
      1 (Lit (LInt 2)) (case interp_initial demo_pipeline_interp of Ok s \<Rightarrow> s | _ \<Rightarrow> empty_state) of
      Ok ss \<Rightarrow> length ss = 1 | _ \<Rightarrow> False)"
    by code_simp
  then show thesis using that by (auto split: outc.splits simp: length_Suc_conv)
qed

theorem channel_is_bounded_queue_witness:
  "\<exists>s v. chan_of s 1 = Some (channel_default\<lparr>ch_buffer := [v]\<rparr>)"
proof -
  let ?x = "\<lparr>sx_tid = 0, sx_fid = 0, sx_function_id = 0, sx_function = p_functions demo_pipeline ! 0, sx_pc = 1, sx_at = []\<rparr>"
  let ?st = "case interp_initial demo_pipeline_interp of Ok s \<Rightarrow> s | _ \<Rightarrow> empty_state"
  obtain s r where s: "do_send demo_pipeline_interp ?x 1 (Lit (LInt 2)) ?st = Ok [s]"
    "chan_of ?st 1 = Some channel_default" "resource_of demo_pipeline 1 = Ok r" "r_capacity r = 1"
    by (rule demo_queue_step)
  then have "resource_of (it_program demo_pipeline_interp) 1 = Ok r" "0 < r_capacity r"
    by (simp_all add: demo_pipeline_interp_def)
  from channel_is_bounded_queue [OF this s(2), THEN conjunct1, rule_format, OF s(1)] s(4)
  show ?thesis by (auto simp: channel_default_def)
qed

subsection \<open>Runtime errors\<close>

text \<open>A report that passes excludes runtime errors and cut-offs: in every reachable state of the
  interpreter all threads expand without an error and without a boundary event.\<close>

theorem verify_pass_no_errors:
  fixes sys :: "'s tsystem"
  assumes "key_sound sys" "verify sys c = Ok (Some rep)" "rp_outcome rep = Pass" "reachable sys s"
  shows "\<exists>en. ts_successors sys s = Ok en \<and> en_boundary en = []"
proof -
  obtain init and sr :: "'s search" where "complete_graph sys init (sr_graph sr)"
    by (rule verify_pass_parts [OF assms(2,3)])
  then have "covered sys init (sr_graph sr)" by (simp add: complete_graph_def)
  from covered_clean [OF assms(1) this assms(4)] show ?thesis by (simp add: clean_def)
qed


theorem verify_pass_no_errors_witness:
  "\<exists>s en. run_from_start (demo_system demo_lock_unlock) [0, 0] = Some s \<and>
     ts_successors (demo_system demo_lock_unlock) s = Ok en \<and> en_boundary en = []"
proof -
  have "run_from_start (demo_system demo_lock_unlock) [0, 0] \<noteq> None" by code_simp
  then obtain s where s: "run_from_start (demo_system demo_lock_unlock) [0, 0] = Some s" by blast
  obtain rep where rep: "verify (demo_system demo_lock_unlock)
     (demo_contract [DeadlockFree, AlwaysReachable (MutexFree 0)]
       [\<lparr>pb_description = ''d'', pb_behavior = Reachable (MutexHeld 0)\<rparr>]) = Ok (Some rep)" "rp_outcome rep = Pass"
    by (rule verdict_report [OF demo_lock_unlock_facts [THEN conjunct2, THEN conjunct2]])
  from verify_pass_no_errors [OF demo_key_sound(1) rep run_reachable [OF s]] s show ?thesis by blast
qed




subsection \<open>Finished states and forbidden predicates\<close>

text \<open>A state in which every thread has finished is final for the interpreter: no execution leads
  out of it, and it is never reported as a deadlock.\<close>

theorem finished_states_final:
  assumes "interp_is_finished st"
  shows "(execution (interp_system esc ip) st ls st' \<longrightarrow> ls = [] \<and> st' = st) \<and>
    \<not> stuck (interp_system esc ip) st"
proof -
  have f: "ts_is_finished (interp_system esc ip) st" using assms by (simp add: interp_system_def)
  from interp.finished_final [OF _ f] interp.finished_not_stuck [OF f] show ?thesis by blast
qed

theorem finished_states_final_witness:
  "\<exists>st. run_from_start (demo_system demo_two_steps) [0, 0, 0] = Some st \<and>
     \<not> stuck (interp_system (\<lambda>s. s) (demo_interp demo_two_steps)) st"
proof -
  have "(case run_from_start (demo_system demo_two_steps) [0, 0, 0] of
      Some st \<Rightarrow> interp_is_finished st | None \<Rightarrow> False)" by code_simp
  then obtain st where "run_from_start (demo_system demo_two_steps) [0, 0, 0] = Some st" "interp_is_finished st"
    by (auto split: option.splits)
  with finished_states_final [of st "\<lambda>s. s" "demo_interp demo_two_steps" "[]" st] show ?thesis by blast
qed

text \<open>On the interpreter \<open>Unreachable\<close> and \<open>Safety\<close> of the negation are one property: the check
  gives the same result and the same diagnostics for both, on every graph.\<close>

theorem unreachable_is_safety_of_not:
  "check_property (interp_system esc ip) g pid (Unreachable p) full =
   check_property (interp_system esc ip) g pid (Safety (PNot p)) full"
  by (rule interp.unreachable_as_safety)

subsection \<open>Departures from the documentation\<close>





end
