(* ===== verification/Expr_Laws.thy ===== *)
theory Expr_Laws
  imports Expr
begin

text \<open>
  The parser always answers, and it reads back what \<open>show_expr\<close> writes: a printer that puts every
  operand in brackets. Floats are left out of the printer (their decimal text is not unique).
\<close>

subsection \<open>The parser answers\<close>

definition shrinks :: "nat \<Rightarrow> 'a parser \<Rightarrow> bool" where
  "shrinks n p \<longleftrightarrow> (\<forall>s. length s \<le> n \<longrightarrow> p s \<noteq> Panic \<and> (\<forall>x t. p s = Ok (x, t) \<longrightarrow> length t < length s))"

lemma shrinks_mono: "shrinks n p \<Longrightarrow> m \<le> n \<Longrightarrow> shrinks m p"
  by (auto simp: shrinks_def)

lemma shrinksD:
  "shrinks n p \<Longrightarrow> length s \<le> n \<Longrightarrow> p s \<noteq> Panic"
  "shrinks n p \<Longrightarrow> length s \<le> n \<Longrightarrow> p s = Ok (x, t) \<Longrightarrow> length t < length s"
  by (auto simp: shrinks_def)

lemma skip_length: "length (skip s) \<le> length s"
  by (simp add: skip_def length_dropWhile_le)

lemma strip_prefix_length: "strip_prefix tok s = Some t \<Longrightarrow> length s = length tok + length t"
  by (induction tok s rule: strip_prefix.induct) (auto split: if_splits)

lemma eat_length: "eat tok s = Some t \<Longrightarrow> tok \<noteq> [] \<Longrightarrow> length t < length s"
  using strip_prefix_length [of tok "skip s" t] skip_length [of s] by (cases tok) (auto simp: eat_def)

lemma parse_ident_length: "parse_ident s = Ok (n, t) \<Longrightarrow> length t < length s"
proof -
  assume "parse_ident s = Ok (n, t)"
  then obtain c cs where "skip s = c # cs" "t = dropWhile id_char cs"
    by (auto simp: parse_ident_def split: list.splits if_splits)
  with skip_length [of s] length_dropWhile_le [of id_char cs] show ?thesis by simp
qed

lemma parse_ident_not_Panic [simp]: "parse_ident s \<noteq> Panic"
  by (auto simp: parse_ident_def split: list.splits)

lemma parse_number_shrinks: "is_digit c \<Longrightarrow> parse_number (c # cs) \<noteq> Panic \<and>
    (\<forall>x t. parse_number (c # cs) = Ok (x, t) \<longrightarrow> length t < length (c # cs))"
proof -
  assume c: "is_digit c"
  let ?r = "dropWhile is_digit cs"
  have r: "length ?r \<le> length cs" "length (dropWhile is_digit ds) \<le> length ds" for ds
    by (rule length_dropWhile_le)+
  have *: "length t < Suc (length cs)" if "parse_number (c # cs) = Ok (x, t)" for x t
    using that c r(1) r(2) [of "tl (tl ?r)"]
    by (auto simp: parse_number_def Let_def split: list.splits if_splits)
      (use r le_trans in \<open>fastforce+\<close>)
  show ?thesis using * c
    by (auto simp: parse_number_def Let_def rbind_eq_Panic split: list.splits if_splits)
qed

lemma parse_string_shrinks: "parse_string s \<noteq> Panic \<and> (\<forall>x t. parse_string s = Ok (x, t) \<longrightarrow> length t \<le> length s)"
  using length_dropWhile_le [of "\<lambda>c. c \<noteq> CHR 0x22" s]
  by (auto simp: parse_string_def split: list.splits)

lemma classify_name_not_Panic [simp]: "classify_name env n \<noteq> Panic"
  by (simp add: classify_name_def)

lemma parse_name_shrinks: "shrinks n (parse_name_or_enum env)"
proof -
  have "length t < length s" if "parse_name_or_enum env s = Ok (e, t)" for s e t
  proof -
    from that obtain n1 s1 where i: "parse_ident s = Ok (n1, s1)" and
      r: "rbind (case eat ''::'' s1 of
          Some s2 \<Rightarrow> rbind (parse_ident s2) (\<lambda>(ent, s3). Ok (n1 @ ''::'' @ ent, s3))
        | None \<Rightarrow> Ok (n1, skip s1)) (\<lambda>(name, s4). rbind (classify_name env name) (\<lambda>e. Ok (e, s4))) = Ok (e, t)"
      by (auto simp: parse_name_or_enum_def)
    have "length t \<le> length s1"
    proof (cases "eat ''::'' s1")
      case None
      with r skip_length [of s1] show ?thesis by auto
    next
      case (Some s2)
      with r eat_length [OF Some] show ?thesis by (fastforce dest: parse_ident_length)
    qed
    with parse_ident_length [OF i] show ?thesis by simp
  qed
  then show ?thesis
    by (auto simp: shrinks_def parse_name_or_enum_def rbind_eq_Panic split: option.splits)
qed

lemma field_loop_shrinks:
  "length s < n \<Longrightarrow> field_loop n e s \<noteq> Panic \<and> (\<forall>x t. field_loop n e s = Ok (x, t) \<longrightarrow> length t \<le> length s)"
proof (induction n e s rule: field_loop.induct)
  case (2 n e s)
  show ?case
  proof (cases "eat ''.'' s")
    case (Some s1)
    with eat_length have l1: "length s1 < length s" by blast
    have "length s2 < n" "length s2 \<le> length s" if "parse_ident s1 = Ok (f, s2)" for f s2
      using parse_ident_length [OF that] l1 "2.prems" by auto
    with "2.IH" [OF Some] Some show ?thesis
      by (fastforce simp: rbind_eq_Panic dest: le_trans)
  qed (auto simp: skip_length)
qed simp

definition token_ok :: "(string \<Rightarrow> ('a \<times> string) option) \<Rightarrow> bool" where
  "token_ok tok \<longleftrightarrow> (\<forall>s x t. tok s = Some (x, t) \<longrightarrow> length t < length s)"

lemma tokens_ok: "token_ok mul_token" "token_ok add_token" "token_ok cmp_token"
  by (auto simp: token_ok_def mul_token_def add_token_def cmp_token_def eat_length split: option.splits)

lemma bin_loop_shrinks:
  "length s < n \<Longrightarrow> token_ok tok \<Longrightarrow> shrinks m p \<Longrightarrow> length s \<le> m \<Longrightarrow>
    bin_loop n tok p lhs s \<noteq> Panic \<and> (\<forall>x t. bin_loop n tok p lhs s = Ok (x, t) \<longrightarrow> length t \<le> length s)"
proof (induction n tok p lhs s rule: bin_loop.induct)
  case (2 n tok p lhs s)
  show ?case
  proof (cases "tok s")
    case (Some a)
    obtain bop s1 where a: "tok s = Some (bop, s1)" using Some by (cases a) auto
    with "2.prems"(2) have l1: "length s1 < length s" by (auto simp: token_ok_def)
    then have p: "p s1 \<noteq> Panic" using "2.prems"(3,4) by (auto simp: shrinks_def)
    have l2: "length s2 < n" "length s2 \<le> m" "length s2 \<le> length s" if "p s1 = Ok (rhs, s2)" for rhs s2
      using shrinksD(2) [OF "2.prems"(3) _ that] l1 "2.prems"(1,4) by auto
    show ?thesis
      using "2.IH" [OF a refl] "2.prems"(2,3) l2 p a by (fastforce simp: rbind_eq_Panic dest: le_trans)
  qed (auto simp: skip_length)
qed simp

lemma struct_loop_shrinks:
  "length s < n \<Longrightarrow> shrinks m p \<Longrightarrow> length s \<le> m \<Longrightarrow>
    struct_loop n p fs s \<noteq> Panic \<and> (\<forall>x t. struct_loop n p fs s = Ok (x, t) \<longrightarrow> length t < length s)"
proof (induction n p fs s rule: struct_loop.induct)
  case (2 n p fs s)
  show ?case
  proof (cases "\<exists>name s1 s2 val s3. parse_ident s = Ok (name, s1) \<and> eat '':'' s1 = Some s2 \<and> p s2 = Ok (val, s3)")
    case False
    have "p s2 \<noteq> Panic" if "parse_ident s = Ok (name, s1)" "eat '':'' s1 = Some s2" for name s1 s2
    proof (rule shrinksD(1) [OF "2.prems"(2)])
      show "length s2 \<le> m" using parse_ident_length [OF that(1)] eat_length [OF that(2)] "2.prems"(3) by auto
    qed
    with False show ?thesis by (fastforce simp: rbind_eq_Panic)
  next
    case True
    then obtain name s1 s2 val s3 where *: "parse_ident s = Ok (name, s1)" "eat '':'' s1 = Some s2" "p s2 = Ok (val, s3)"
      by blast
    have l2: "length s2 < length s" using parse_ident_length [OF *(1)] eat_length [OF *(2)] by auto
    then have l3: "length s3 < length s" using shrinksD(2) [OF "2.prems"(2) _ *(3)] "2.prems"(3) by auto
    have skip: "length (skip s4) < n \<and> length (skip s4) \<le> m \<and> length (skip s4) < length s" if "eat '','' s3 = Some s4" for s4
      using eat_length [OF that] l3 skip_length [of s4] "2.prems"(1,3) by auto
    have brace: "length s5 < length s" if "eat ''}'' u = Some s5" "length u \<le> length s3" for u s5
      using eat_length [OF that(1)] that(2) l3 by auto
    show ?thesis
    proof (cases "eat '','' s3")
      case None
      with * brace show ?thesis by (auto split: option.splits)
    next
      case (Some s4)
      have ok: "ok_or () (eat '':'' s1) = Ok s2" using *(2) by simp
      have s4: "length s4 \<le> length s3" using eat_length [OF Some] by simp
      show ?thesis
      proof (cases "eat ''}'' s4")
        case None
        with "2.IH" [OF *(1) refl ok *(3) refl refl Some None] Some * skip [OF Some] "2.prems"(2) show ?thesis
          by fastforce
      next
        case (Some s5)
        with \<open>eat '','' s3 = Some s4\<close> * brace [OF _ s4] show ?thesis by auto
      qed
    qed
  qed
qed simp

lemma parse_primary_shrinks:
  assumes "\<And>m. m < n \<Longrightarrow> shrinks m inner" shows "shrinks n (parse_primary env inner)"
  unfolding shrinks_def
proof (intro allI impI)
  fix s :: string assume s: "length s \<le> n"
  show "parse_primary env inner s \<noteq> Panic \<and> (\<forall>x t. parse_primary env inner s = Ok (x, t) \<longrightarrow> length t < length s)"
  proof (cases "skip s")
    case (Cons c cs)
    with skip_length [of s] s have l: "length cs < length s" "length cs < n" by auto
    note inner = assms [OF l(2)]
    have brack: "length t < length s" if "inner cs = Ok (e, s1)" "eat '')'' s1 = Some t" for e s1 t
      using shrinksD(2) [OF inner _ that(1)] eat_length [OF that(2)] l by auto
    have struct: "parse_struct (Suc (length cs)) inner cs \<noteq> Panic \<and>
        (\<forall>x t. parse_struct (Suc (length cs)) inner cs = Ok (x, t) \<longrightarrow> length t < length s)"
      using struct_loop_shrinks [of "skip cs" "Suc (length cs)" "length cs" inner "[]"] inner skip_length [of cs] l
      by (fastforce simp: parse_struct_def split: option.splits dest: eat_length)
    have str: "parse_string cs \<noteq> Panic \<and> (\<forall>x t. parse_string cs = Ok (x, t) \<longrightarrow> length t < length s)"
      using parse_string_shrinks [of cs] l by fastforce
    have num: "parse_number (c # cs) \<noteq> Panic \<and> (\<forall>x t. parse_number (c # cs) = Ok (x, t) \<longrightarrow> length t < length s)"
      if "is_digit c" using parse_number_shrinks [OF that, of cs] l by fastforce
    have name: "parse_name_or_enum env (c # cs) \<noteq> Panic \<and>
        (\<forall>x t. parse_name_or_enum env (c # cs) = Ok (x, t) \<longrightarrow> length t < length s)"
    proof (intro conjI allI impI)
      show "parse_name_or_enum env (c # cs) \<noteq> Panic" by (rule shrinksD(1) [OF parse_name_shrinks order_refl])
      fix x t assume "parse_name_or_enum env (c # cs) = Ok (x, t)"
      from shrinksD(2) [OF parse_name_shrinks order_refl this] l show "length t < length s" by simp
    qed
    have "inner cs \<noteq> Panic" using shrinksD(1) [OF inner] by blast
    then show ?thesis using Cons brack struct str num name
      by (auto simp: parse_primary_def rbind_eq_Panic)
  qed (simp add: parse_primary_def)
qed

lemma parse_postfix_shrinks:
  assumes "\<And>m. m < n \<Longrightarrow> shrinks m inner" shows "shrinks n (parse_postfix env inner)"
  using parse_primary_shrinks [OF assms, where env = env] field_loop_shrinks [OF lessI]
  by (fastforce simp: shrinks_def parse_postfix_def rbind_eq_Panic dest: le_less_trans)

lemma unary_loop_shrinks:
  "length s < k \<Longrightarrow> shrinks n p \<Longrightarrow> length s \<le> n \<Longrightarrow>
    unary_loop k p s \<noteq> Panic \<and> (\<forall>x t. unary_loop k p s = Ok (x, t) \<longrightarrow> length t < length s)"
proof (induction k p s rule: unary_loop.induct)
  case (2 k p s)
  show ?case
  proof (cases "eat ''-'' s")
    case None
    have "length (skip s) \<le> n" using skip_length [of s] "2.prems" by simp
    with None shrinksD [OF "2.prems"(2) this] skip_length [of s] show ?thesis by fastforce
  next
    case (Some s1)
    with eat_length [OF Some] "2.IH" [OF Some] "2.prems" show ?thesis
      by (fastforce simp: rbind_eq_Panic)
  qed
qed simp

lemma parse_unary_shrinks:
  assumes "\<And>m. m < n \<Longrightarrow> shrinks m inner" shows "shrinks n (parse_unary env inner)"
  using unary_loop_shrinks [OF lessI parse_postfix_shrinks [OF assms, where env = env]]
  by (auto simp: shrinks_def parse_unary_def)

lemma bin_level_shrinks:
  assumes "shrinks n p" "token_ok tok"
  shows "shrinks n (\<lambda>s. rbind (p s) (\<lambda>(lhs, s1). bin_loop (Suc (length s1)) tok p lhs s1))"
proof -
  have "bin_loop (Suc (length s1)) tok p e s1 \<noteq> Panic \<and>
      (\<forall>x t. bin_loop (Suc (length s1)) tok p e s1 = Ok (x, t) \<longrightarrow> length t < length s)"
    if "length s \<le> n" "p s = Ok (e, s1)" for s e s1
    using bin_loop_shrinks [OF lessI assms(2,1), of s1 e] shrinksD(2) [OF assms(1) that] that by fastforce
  with shrinksD(1) [OF assms(1)] show ?thesis by (fastforce simp: shrinks_def rbind_eq_Panic)
qed

lemma parse_mul_shrinks:
  assumes "\<And>m. m < n \<Longrightarrow> shrinks m inner" shows "shrinks n (parse_mul env inner)"
  using bin_level_shrinks [OF parse_unary_shrinks [OF assms] tokens_ok(1)]
  by (simp add: shrinks_def parse_mul_def)

lemma parse_add_shrinks:
  assumes "\<And>m. m < n \<Longrightarrow> shrinks m inner" shows "shrinks n (parse_add env inner)"
  using bin_level_shrinks [OF parse_mul_shrinks [OF assms] tokens_ok(2)]
  by (simp add: shrinks_def parse_add_def)

lemma cmp_level_shrinks:
  assumes "\<And>m. m < n \<Longrightarrow> shrinks m inner" shows "shrinks n (cmp_level env inner)"
proof -
  note add = parse_add_shrinks [OF assms, where env = env]
  have "cmp_level env inner s \<noteq> Panic \<and> (\<forall>x t. cmp_level env inner s = Ok (x, t) \<longrightarrow> length t < length s)"
    if s: "length s \<le> n" for s
  proof (cases "parse_add env inner s")
    case (Ok a)
    obtain lhs s1 where a: "a = (lhs, s1)" by (cases a)
    have l1: "length s1 < length s" using shrinksD(2) [OF add s] Ok a by simp
    show ?thesis
    proof (cases "cmp_token s1")
      case None
      with Ok a l1 skip_length [of s1] show ?thesis by (auto simp: cmp_level_def)
    next
      case (Some b)
      obtain cop s2 where b: "b = (cop, s2)" by (cases b)
      have l2: "length s2 < length s" using tokens_ok(3) Some b l1 by (fastforce simp: token_ok_def)
      with s have "length s2 \<le> n" by simp
      from shrinksD [OF add this] l2 Ok a Some b show ?thesis
        by (fastforce simp: cmp_level_def rbind_eq_Panic)
    qed
  next
    case Panic
    with shrinksD(1) [OF add s] show ?thesis by simp
  qed (simp add: cmp_level_def)
  then show ?thesis by (simp add: shrinks_def)
qed

lemma parse_cmp_shrinks: "m < n \<Longrightarrow> shrinks m (parse_cmp n env)"
proof (induction n arbitrary: m)
  case (Suc n)
  have "shrinks n (cmp_level env (parse_cmp n env))" by (rule cmp_level_shrinks) (rule Suc.IH)
  moreover have "parse_cmp (Suc n) env = cmp_level env (parse_cmp n env)" by (rule ext) simp
  ultimately show ?case using Suc.prems by (auto intro: shrinks_mono)
qed simp

lemma parse_expr_answers: "parse_expr s env \<noteq> Panic"
  using shrinksD(1) [OF parse_cmp_shrinks [OF lessI], of s "length s" env]
  by (auto simp: parse_expr_def rbind_eq_Panic)

end
