(* ===== verification/Expr_Print.thy ===== *)
theory Expr_Print
  imports Expr_Laws
begin

text \<open>
  A printer for expressions and its round trip through the parser. Every operand is put in brackets;
  floats are left out (their decimal text is not unique), and so are negative integer literals, which
  the grammar writes with the unary minus.
\<close>

fun show_bin :: "bin_op \<Rightarrow> char" where
  "show_bin Add = CHR ''+''" | "show_bin Sub = CHR ''-''" | "show_bin Mul = CHR ''*''"
| "show_bin Div = CHR ''/''" | "show_bin Mod = CHR ''%''"

fun show_cmp :: "cmp_op \<Rightarrow> string" where
  "show_cmp CEq = ''==''" | "show_cmp CNe = ''!=''" | "show_cmp CLe = ''<=''" | "show_cmp CGe = ''>=''"
| "show_cmp CLt = ''<''" | "show_cmp CGt = ''>''"

fun show_lit :: "lit \<Rightarrow> string" where
  "show_lit (LBool b) = (if b then ''true'' else ''false'')"
| "show_lit (LInt i) = show_nat (nat i)"
| "show_lit (LFloat f) = []"
| "show_lit (LString s) = CHR 0x22 # s @ [CHR 0x22]"
| "show_lit (LEnum e) = e"

fun show_expr :: "expr \<Rightarrow> string" where
  "show_expr (ELit l) = show_lit l"
| "show_expr (EName n) = n"
| "show_expr (EField b f) = CHR ''('' # show_expr b @ CHR '')'' # CHR ''.'' # f"
| "show_expr (ENeg e) = CHR ''-'' # CHR ''('' # show_expr e @ [CHR '')'']"
| "show_expr (EBin p l r) = CHR ''('' # show_expr l @ CHR '')'' # show_bin p # CHR ''('' # show_expr r @ [CHR '')'']"
| "show_expr (ECmp p l r) = CHR ''('' # show_expr l @ CHR '')'' # show_cmp p @ CHR ''('' # show_expr r @ [CHR '')'']"
| "show_expr (EStruct fs) =
     CHR ''{'' # concat (map (\<lambda>fe. fst fe @ CHR '':'' # show_expr (snd fe) @ [CHR '','']) fs) @ [CHR ''}'']"

definition is_name :: "string \<Rightarrow> bool" where
  "is_name n \<longleftrightarrow> is_ident n \<or> is_fqn n"

fun printable :: "name_env \<Rightarrow> expr \<Rightarrow> bool" where
  "printable env (ELit (LBool b)) = (\<not> bt_has env (if b then ''true'' else ''false''))"
| "printable env (ELit (LInt i)) = (0 \<le> i \<and> i \<le> i64_max)"
| "printable env (ELit (LFloat _)) = False"
| "printable env (ELit (LString s)) = (CHR 0x22 \<notin> set s)"
| "printable env (ELit (LEnum e)) =
     (is_name e \<and> \<not> bt_has env e \<and> e \<noteq> ''true'' \<and> e \<noteq> ''false'' \<and> e \<in> set (enum_variants env))"
| "printable env (EName n) = (is_name n \<and> bt_has env n)"
| "printable env (EField b f) = (printable env b \<and> is_ident f)"
| "printable env (ENeg e) = printable env e"
| "printable env (EBin _ l r) = (printable env l \<and> printable env r)"
| "printable env (ECmp _ l r) = (printable env l \<and> printable env r)"
| "printable env (EStruct fs) = list_all (\<lambda>fe. is_ident (fst fe) \<and> printable env (snd fe)) fs"

text \<open>How deep brackets are nested in the printed text.\<close>

fun nesting :: "expr \<Rightarrow> nat" where
  "nesting (ELit _) = 0"
| "nesting (EName _) = 0"
| "nesting (EField b _) = Suc (nesting b)"
| "nesting (ENeg e) = Suc (nesting e)"
| "nesting (EBin _ l r) = Suc (max (nesting l) (nesting r))"
| "nesting (ECmp _ l r) = Suc (max (nesting l) (nesting r))"
| "nesting (EStruct fs) = Suc (Max (set (0 # map (\<lambda>fe. nesting (snd fe)) fs)))"

subsection \<open>Tokens\<close>

text \<open>The texts an operand can be followed by, and those a whole expression can.\<close>

definition ends :: "string \<Rightarrow> bool" where
  "ends t \<longleftrightarrow> (case t of [] \<Rightarrow> True | c # _ \<Rightarrow> c \<in> set '')},'')"

lemma skip_Nil [simp]: "skip [] = []"
  by (simp add: skip_def)

lemma skip_Cons [simp]: "\<not> is_white c \<Longrightarrow> skip (c # t) = c # t"
  by (simp add: skip_def)

lemma not_white [simp]:
  "\<not> is_white (CHR ''('')" "\<not> is_white (CHR '')'')" "\<not> is_white (CHR ''{'')" "\<not> is_white (CHR ''}'')"
  "\<not> is_white (CHR '','')" "\<not> is_white (CHR ''.'')" "\<not> is_white (CHR '':'')" "\<not> is_white (CHR ''-'')"
  "\<not> is_white (CHR ''+'')" "\<not> is_white (CHR ''*'')" "\<not> is_white (CHR ''/'')" "\<not> is_white (CHR ''%'')"
  "\<not> is_white (CHR ''='')" "\<not> is_white (CHR ''!'')" "\<not> is_white (CHR ''<'')" "\<not> is_white (CHR ''>'')"
  "\<not> is_white (CHR 0x22)"
  by (simp_all add: is_white_def Let_def)

lemma digit_not_white: "is_digit c \<Longrightarrow> \<not> is_white c"
  by (auto simp: is_digit_def is_white_def Let_def)

lemma id_start_not_white: "id_start c \<Longrightarrow> \<not> is_white c"
  by (auto simp: id_start_def is_alpha_def is_white_def Let_def less_eq_char_def)

lemma skip_ends [simp]: "ends t \<Longrightarrow> skip t = t"
  by (auto simp: ends_def split: list.splits)

lemma eat_Cons [simp]: "\<not> is_white c \<Longrightarrow> eat tok (c # t) = strip_prefix tok (c # t)"
  by (simp add: eat_def)

lemma eat_ends: "ends t \<Longrightarrow> \<forall>c cs. tok = c # cs \<longrightarrow> c \<notin> set '')},'' \<Longrightarrow> tok \<noteq> [] \<Longrightarrow> eat tok t = None"
  by (cases tok; cases t) (auto simp: ends_def eat_def)

lemma tokens_ends [simp]:
  assumes "ends t"
  shows "mul_token t = None" "add_token t = None" "cmp_token t = None" "eat ''.'' t = None" "eat ''::'' t = None"
  using assms by (simp_all add: mul_token_def add_token_def cmp_token_def eat_ends)

text \<open>A text that no field selection and no white space starts.\<close>

definition plain_tail :: "string \<Rightarrow> bool" where
  "plain_tail t \<longleftrightarrow> skip t = t \<and> eat ''.'' t = None"

lemma plain_tail_ends [simp]: "ends t \<Longrightarrow> plain_tail t"
  by (simp add: plain_tail_def)

lemma plain_tail_Cons [simp]: "\<not> is_white c \<Longrightarrow> c \<noteq> CHR ''.'' \<Longrightarrow> plain_tail (c # t)"
  by (simp add: plain_tail_def)

subsection \<open>Bracketed operands\<close>

lemma paren_postfix:
  assumes "inner (u @ CHR '')'' # t) = Ok (e, CHR '')'' # t)" "plain_tail t"
  shows "parse_postfix env inner (CHR ''('' # u @ CHR '')'' # t) = Ok (e, t)"
  using assms by (simp add: parse_postfix_def parse_primary_def plain_tail_def)

lemma paren_unary:
  assumes "inner (u @ CHR '')'' # t) = Ok (e, CHR '')'' # t)" "plain_tail t"
  shows "parse_unary env inner (CHR ''('' # u @ CHR '')'' # t) = Ok (e, t)"
  using paren_postfix [of inner u t e env] assms by (simp add: parse_unary_def)

lemma bin_loop_stop: "tok t = None \<Longrightarrow> skip t = t \<Longrightarrow> bin_loop (Suc n) tok p e t = Ok (e, t)"
  by simp

lemma paren_mul:
  assumes "inner (u @ CHR '')'' # t) = Ok (e, CHR '')'' # t)" "plain_tail t" "mul_token t = None"
  shows "parse_mul env inner (CHR ''('' # u @ CHR '')'' # t) = Ok (e, t)"
  using paren_unary [of inner u t e env] assms by (simp add: parse_mul_def plain_tail_def)

lemma paren_add:
  assumes "inner (u @ CHR '')'' # t) = Ok (e, CHR '')'' # t)" "plain_tail t" "mul_token t = None" "add_token t = None"
  shows "parse_add env inner (CHR ''('' # u @ CHR '')'' # t) = Ok (e, t)"
  using paren_mul [of inner u t e env] assms by (simp add: parse_add_def plain_tail_def)

text \<open>An expression the postfix level reads up to an end is read by all levels above.\<close>

lemma unary_of_postfix:
  assumes "parse_postfix env inner s = Ok (e, t)" "eat ''-'' s = None" "skip s = s"
  shows "parse_unary env inner s = Ok (e, t)"
  using assms by (simp add: parse_unary_def)

lemma cmp_of_unary:
  assumes "parse_unary env inner s = Ok (e, t)" "ends t"
  shows "cmp_level env inner s = Ok (e, t)"
  using assms by (simp add: cmp_level_def parse_add_def parse_mul_def)

lemma cmp_of_primary:
  assumes "parse_primary env inner s = Ok (e, t)" "ends t" "eat ''-'' s = None" "skip s = s"
  shows "cmp_level env inner s = Ok (e, t)"
proof (rule cmp_of_unary [OF unary_of_postfix])
  show "parse_postfix env inner s = Ok (e, t)" using assms(1,2) by (simp add: parse_postfix_def)
qed fact+

subsection \<open>Names and literals\<close>

lemma ident_parts: "is_ident n \<Longrightarrow> \<exists>c cs. n = c # cs \<and> id_start c \<and> (\<forall>x\<in>set cs. id_char x)"
  by (cases n) (auto simp: is_ident_def id_start_def id_char_def list_all_iff)

definition ident_tail :: "string \<Rightarrow> bool" where
  "ident_tail t \<longleftrightarrow> (case t of [] \<Rightarrow> True | c # _ \<Rightarrow> \<not> id_char c)"

lemma ident_tail_ends [simp]: "ends t \<Longrightarrow> ident_tail t"
  by (auto simp: ident_tail_def ends_def id_char_def is_alnum_def is_alpha_def is_digit_def less_eq_char_def
      split: list.splits)

lemma parse_ident_print:
  assumes "is_ident n" "ident_tail t" shows "parse_ident (n @ t) = Ok (n, t)"
proof -
  from ident_parts [OF assms(1)] obtain c cs where n: "n = c # cs" "id_start c" "\<forall>x\<in>set cs. id_char x" by blast
  have "takeWhile id_char (cs @ t) = cs" "dropWhile id_char (cs @ t) = t"
    using n(3) assms(2) by (cases t; simp add: takeWhile_append dropWhile_append ident_tail_def)+
  with n id_start_not_white [OF n(2)] show ?thesis by (simp add: parse_ident_def)
qed

lemma parse_name_print:
  assumes "is_name n" "classify_name env n = Ok e" "ends t"
  shows "parse_name_or_enum env (n @ t) = Ok (e, t)"
proof (cases "is_ident n")
  case True
  with assms show ?thesis by (simp add: parse_name_or_enum_def parse_ident_print)
next
  case False
  with assms(1) obtain m x where n: "n = fqn m x" "is_ident m" "is_ident x"
    by (auto simp: is_name_def is_fqn_def split_fqn_iff)
  have "ident_tail (CHR '':'' # CHR '':'' # x @ t)"
    by (simp add: ident_tail_def id_char_def is_alnum_def is_alpha_def is_digit_def less_eq_char_def)
  with assms n show ?thesis
    by (simp add: parse_name_or_enum_def parse_ident_print fqn_def fqn_sep_def)
qed

lemma name_hd: "is_name n \<Longrightarrow> \<exists>c cs. n = c # cs \<and> id_start c"
proof -
  assume "is_name n"
  then consider "is_ident n" | m x where "n = fqn m x" "is_ident m"
    by (auto simp: is_name_def is_fqn_def split_fqn_iff)
  then show ?thesis by cases (auto simp: fqn_def dest!: ident_parts)
qed

lemma id_start_props:
  assumes "id_start c"
  shows "c \<noteq> CHR ''(''" "c \<noteq> CHR ''{''" "c \<noteq> CHR 0x22" "\<not> is_digit c" "c \<noteq> CHR ''-''"
  using assms by (auto simp: id_start_def is_alpha_def is_digit_def less_eq_char_def)

lemma name_cmp:
  assumes "is_name n" "classify_name env n = Ok e" "ends t"
  shows "cmp_level env inner (n @ t) = Ok (e, t)"
proof (rule cmp_of_primary)
  from name_hd [OF assms(1)] obtain c cs where n: "n = c # cs" "id_start c" by blast
  note c = id_start_props [OF n(2)] id_start_not_white [OF n(2)]
  with n parse_name_print [OF assms] show "parse_primary env inner (n @ t) = Ok (e, t)"
    by (simp add: parse_primary_def)
  show "eat ''-'' (n @ t) = None" "skip (n @ t) = n @ t" using n(1) c by simp_all
qed fact

lemma digits_tail: "ends t \<Longrightarrow> t = [] \<or> \<not> is_digit (hd t)"
  by (auto simp: ends_def is_digit_def split: list.splits)

lemma parse_number_print:
  assumes "0 \<le> i" "i \<le> i64_max" "ends t"
  shows "parse_number (show_nat (nat i) @ t) = Ok (ELit (LInt i), t)"
proof -
  let ?d = "show_nat (nat i)"
  have "takeWhile is_digit (?d @ t) = ?d" "dropWhile is_digit (?d @ t) = t"
    using show_nat_digits [of "nat i"] digits_tail [OF assms(3)]
    by (cases t; simp add: takeWhile_append dropWhile_append)+
  moreover have "parse_i64 ?d = Some i"
    using assms(1,2) by (simp add: parse_i64_def in_i64_def i64_min_def)
  moreover have "t = p # c # cs \<Longrightarrow> p \<noteq> CHR ''.''" for p c cs
    using assms(3) by (auto simp: ends_def)
  ultimately show ?thesis by (auto simp: parse_number_def Let_def split: list.splits)
qed

lemma int_cmp:
  assumes "0 \<le> i" "i \<le> i64_max" "ends t"
  shows "cmp_level env inner (show_nat (nat i) @ t) = Ok (ELit (LInt i), t)"
proof (rule cmp_of_primary)
  obtain c cs where n: "show_nat (nat i) = c # cs" by (cases "show_nat (nat i)") auto
  with show_nat_hd_digit [of "nat i"] have c: "is_digit c" by simp
  then have "c \<noteq> CHR ''(''" "c \<noteq> CHR ''{''" "c \<noteq> CHR 0x22" "c \<noteq> CHR ''-''" by (auto simp: is_digit_def)
  with n c digit_not_white [OF c] parse_number_print [OF assms]
  show "parse_primary env inner (show_nat (nat i) @ t) = Ok (ELit (LInt i), t)"
    "eat ''-'' (show_nat (nat i) @ t) = None" "skip (show_nat (nat i) @ t) = show_nat (nat i) @ t"
    by (simp_all add: parse_primary_def)
qed fact

lemma string_cmp:
  assumes "CHR 0x22 \<notin> set s" "ends t"
  shows "cmp_level env inner (CHR 0x22 # s @ CHR 0x22 # t) = Ok (ELit (LString s), t)"
proof (rule cmp_of_primary)
  have "takeWhile (\<lambda>c. c \<noteq> CHR 0x22) (s @ CHR 0x22 # t) = s"
    "dropWhile (\<lambda>c. c \<noteq> CHR 0x22) (s @ CHR 0x22 # t) = CHR 0x22 # t"
    using assms(1) by (induction s) auto
  then have "parse_string (s @ CHR 0x22 # t) = Ok (ELit (LString s), t)" by (simp add: parse_string_def)
  then show "parse_primary env inner (CHR 0x22 # s @ CHR 0x22 # t) = Ok (ELit (LString s), t)"
    by (simp add: parse_primary_def is_digit_def)
qed (use assms in simp_all)

subsection \<open>The round trip\<close>

lemma ends_simps [simp]:
  "ends []" "ends (CHR '')'' # t)" "ends (CHR ''}'' # t)" "ends (CHR '','' # t)"
  by (simp_all add: ends_def)

lemma bin_mul_print:
  assumes "p \<in> {Mul, Div, Mod}"
    and "inner (u @ CHR '')'' # show_bin p # CHR ''('' # v @ CHR '')'' # t) = Ok (l, CHR '')'' # show_bin p # CHR ''('' # v @ CHR '')'' # t)"
    and "inner (v @ CHR '')'' # t) = Ok (r, CHR '')'' # t)" "ends t"
  shows "cmp_level env inner (CHR ''('' # u @ CHR '')'' # show_bin p # CHR ''('' # v @ CHR '')'' # t) = Ok (EBin p l r, t)"
proof -
  let ?r = "show_bin p # CHR ''('' # v @ CHR '')'' # t"
  have "parse_unary env inner (CHR ''('' # u @ CHR '')'' # ?r) = Ok (l, ?r)"
    by (rule paren_unary) (use assms(1,2) in auto)
  moreover have "parse_unary env inner (CHR ''('' # v @ CHR '')'' # t) = Ok (r, t)"
    by (rule paren_unary) (use assms(3,4) in simp_all)
  moreover have "mul_token ?r = Some (p, CHR ''('' # v @ CHR '')'' # t)"
    using assms(1) by (auto simp: mul_token_def)
  ultimately have "parse_mul env inner (CHR ''('' # u @ CHR '')'' # ?r) = Ok (EBin p l r, t)"
    using assms(4) by (simp add: parse_mul_def)
  with assms(4) show ?thesis by (simp add: cmp_level_def parse_add_def)
qed

lemma bin_add_print:
  assumes "p \<in> {Add, Sub}"
    and "inner (u @ CHR '')'' # show_bin p # CHR ''('' # v @ CHR '')'' # t) = Ok (l, CHR '')'' # show_bin p # CHR ''('' # v @ CHR '')'' # t)"
    and "inner (v @ CHR '')'' # t) = Ok (r, CHR '')'' # t)" "ends t"
  shows "cmp_level env inner (CHR ''('' # u @ CHR '')'' # show_bin p # CHR ''('' # v @ CHR '')'' # t) = Ok (EBin p l r, t)"
proof -
  let ?r = "show_bin p # CHR ''('' # v @ CHR '')'' # t"
  have "parse_mul env inner (CHR ''('' # u @ CHR '')'' # ?r) = Ok (l, ?r)"
    by (rule paren_mul) (use assms(1,2) in \<open>auto simp: mul_token_def\<close>)
  moreover have "parse_mul env inner (CHR ''('' # v @ CHR '')'' # t) = Ok (r, t)"
    by (rule paren_mul) (use assms(3,4) in simp_all)
  moreover have "add_token ?r = Some (p, CHR ''('' # v @ CHR '')'' # t)"
    using assms(1) by (auto simp: add_token_def)
  ultimately show ?thesis using assms(4) by (simp add: cmp_level_def parse_add_def)
qed

lemma cmp_print:
  assumes "inner (u @ CHR '')'' # show_cmp p @ CHR ''('' # v @ CHR '')'' # t) = Ok (l, CHR '')'' # show_cmp p @ CHR ''('' # v @ CHR '')'' # t)"
    and "inner (v @ CHR '')'' # t) = Ok (r, CHR '')'' # t)" "ends t"
  shows "cmp_level env inner (CHR ''('' # u @ CHR '')'' # show_cmp p @ CHR ''('' # v @ CHR '')'' # t) = Ok (ECmp p l r, t)"
proof -
  let ?r = "show_cmp p @ CHR ''('' # v @ CHR '')'' # t"
  have "parse_add env inner (CHR ''('' # u @ CHR '')'' # ?r) = Ok (l, ?r)"
    using assms(1) by (intro paren_add; cases p; simp add: mul_token_def add_token_def)
  moreover have "parse_add env inner (CHR ''('' # v @ CHR '')'' # t) = Ok (r, t)"
    by (rule paren_add) (use assms(2,3) in simp_all)
  moreover have "cmp_token ?r = Some (p, CHR ''('' # v @ CHR '')'' # t)"
    by (cases p) (simp_all add: cmp_token_def)
  ultimately show ?thesis using assms(3) by (simp add: cmp_level_def)
qed

lemma neg_print:
  assumes "inner (u @ CHR '')'' # t) = Ok (e, CHR '')'' # t)" "ends t"
  shows "cmp_level env inner (CHR ''-'' # CHR ''('' # u @ CHR '')'' # t) = Ok (ENeg e, t)"
proof (rule cmp_of_unary)
  have "parse_postfix env inner (CHR ''('' # u @ CHR '')'' # t) = Ok (e, t)"
    by (rule paren_postfix) (use assms in simp_all)
  then show "parse_unary env inner (CHR ''-'' # CHR ''('' # u @ CHR '')'' # t) = Ok (ENeg e, t)"
    by (simp add: parse_unary_def)
qed fact

lemma field_print:
  assumes "inner (u @ CHR '')'' # CHR ''.'' # f @ t) = Ok (e, CHR '')'' # CHR ''.'' # f @ t)" "is_ident f" "ends t"
  shows "cmp_level env inner (CHR ''('' # u @ CHR '')'' # CHR ''.'' # f @ t) = Ok (EField e f, t)"
proof (rule cmp_of_unary [OF unary_of_postfix])
  show "parse_postfix env inner (CHR ''('' # u @ CHR '')'' # CHR ''.'' # f @ t) = Ok (EField e f, t)"
    using assms by (simp add: parse_postfix_def parse_primary_def parse_ident_print)
qed (use assms in simp_all)

definition show_field :: "string \<times> expr \<Rightarrow> string" where
  "show_field fe = fst fe @ CHR '':'' # show_expr (snd fe) @ [CHR '','']"

lemma ident_tail_colon [simp]: "ident_tail (CHR '':'' # t)"
  by (simp add: ident_tail_def id_char_def is_alnum_def is_alpha_def is_digit_def less_eq_char_def)

lemma field_text_start:
  assumes "is_ident n" shows "eat ''}'' (n @ t) = None" "skip (n @ t) = n @ t"
proof -
  from ident_parts [OF assms] obtain c cs where "n = c # cs" "id_start c" by blast
  moreover from this have "c \<noteq> CHR ''}''" by (auto simp: id_start_def is_alpha_def less_eq_char_def)
  ultimately show "eat ''}'' (n @ t) = None" "skip (n @ t) = n @ t" using id_start_not_white by simp_all
qed

lemma struct_loop_print:
  assumes "\<And>fe t. fe \<in> set fs \<Longrightarrow> ends t \<Longrightarrow> p (show_expr (snd fe) @ t) = Ok (snd fe, t)"
    and "list_all (\<lambda>fe. is_ident (fst fe)) fs" "fs \<noteq> []" "length fs \<le> n"
  shows "struct_loop n p acc (concat (map show_field fs) @ CHR ''}'' # t) = Ok (EStruct (acc @ fs), t)"
  using assms
proof (induction fs arbitrary: n acc)
  case (Cons fe fs)
  obtain k where n: "n = Suc k" using Cons.prems(4) by (cases n) auto
  obtain nm e where fe: "fe = (nm, e)" by (cases fe)
  let ?t = "concat (map show_field fs) @ CHR ''}'' # t"
  have nm: "is_ident nm" using Cons.prems(2) by (simp add: fe)
  have full: "concat (map show_field (fe # fs)) @ CHR ''}'' # t = nm @ CHR '':'' # show_expr e @ CHR '','' # ?t"
    by (simp add: fe show_field_def)
  have p: "p (show_expr e @ CHR '','' # ?t) = Ok (e, CHR '','' # ?t)"
    using Cons.prems(1) [of fe "CHR '','' # ?t"] by (simp add: fe)
  show ?case
  proof (cases fs)
    case Nil
    with n nm p show ?thesis unfolding full by (simp add: fe parse_ident_print)
  next
    case (Cons fe' fs')
    then have "is_ident (fst fe')" using Cons.prems(2) by simp
    then have t: "eat ''}'' ?t = None" "skip ?t = ?t"
      unfolding Cons by (simp_all add: show_field_def field_text_start)
    have "struct_loop k p (acc @ [fe]) ?t = Ok (EStruct (acc @ fe # fs), t)"
      using Cons.IH [of k "acc @ [fe]"] Cons.prems n Cons by simp
    with n nm p t show ?thesis unfolding full by (simp add: fe parse_ident_print)
  qed
qed simp

lemma struct_print:
  assumes "\<And>fe t. fe \<in> set fs \<Longrightarrow> ends t \<Longrightarrow> inner (show_expr (snd fe) @ t) = Ok (snd fe, t)"
    and "list_all (\<lambda>fe. is_ident (fst fe)) fs" "ends t"
  shows "cmp_level env inner (CHR ''{'' # concat (map show_field fs) @ CHR ''}'' # t) = Ok (EStruct fs, t)"
proof (rule cmp_of_primary)
  let ?s = "concat (map show_field fs) @ CHR ''}'' # t"
  have len: "length fs \<le> length (concat (map show_field fs))"
    by (induction fs) (auto simp: show_field_def)
  have "parse_struct (Suc (length ?s)) inner ?s = Ok (EStruct fs, t)"
  proof (cases fs)
    case (Cons fe fs')
    then have "eat ''}'' ?s = None" "skip ?s = ?s"
      using assms(2) by (simp_all add: show_field_def field_text_start)
    with struct_loop_print [OF assms(1,2), where n = "Suc (length ?s)" and acc = "[]" and t = t] len Cons
    show ?thesis by (simp add: parse_struct_def)
  qed (simp add: parse_struct_def)
  then show "parse_primary env inner (CHR ''{'' # ?s) = Ok (EStruct fs, t)" by (simp add: parse_primary_def)
qed (use assms in simp_all)

lemma show_expr_struct: "show_expr (EStruct fs) = CHR ''{'' # concat (map show_field fs) @ [CHR ''}'']"
  by (simp add: show_field_def [abs_def])

lemma parse_show:
  "printable env e \<Longrightarrow> nesting e < n \<Longrightarrow> ends t \<Longrightarrow> parse_cmp n env (show_expr e @ t) = Ok (e, t)"
proof (induction e arbitrary: n t)
  case (ELit l)
  then obtain m where m: "n = Suc m" by (cases n) auto
  have names: "is_name ''true''" "is_name ''false''" by code_simp+
  show ?case
  proof (cases l)
    case (LBool b)
    with ELit m name_cmp [of "if b then ''true'' else ''false''" env "ELit (LBool b)" t] names show ?thesis
      by (cases b) (auto simp: classify_name_def)
  next
    case (LEnum x)
    with ELit m name_cmp [of x env "ELit (LEnum x)" t] show ?thesis by (auto simp: classify_name_def)
  qed (use ELit m int_cmp string_cmp in auto)
next
  case (EName x)
  then obtain m where "n = Suc m" by (cases n) auto
  with EName name_cmp [of x env "EName x" t] show ?case by (auto simp: classify_name_def)
next
  case (EField b f)
  then obtain m where m: "n = Suc m" "nesting b < m" by (cases n) auto
  with EField show ?case by (auto intro!: field_print)
next
  case (ENeg e)
  then obtain m where m: "n = Suc m" "nesting e < m" by (cases n) auto
  with ENeg show ?case by (auto intro!: neg_print)
next
  case (EBin p l r)
  then obtain m where m: "n = Suc m" "nesting l < m" "nesting r < m" by (cases n) auto
  show ?case
  proof (cases "p \<in> {Mul, Div, Mod}")
    case True
    with EBin m show ?thesis by (auto intro!: bin_mul_print)
  next
    case False
    then have "p \<in> {Add, Sub}" by (cases p) auto
    with EBin m show ?thesis by (auto intro!: bin_add_print)
  qed
next
  case (ECmp p l r)
  then obtain m where m: "n = Suc m" "nesting l < m" "nesting r < m" by (cases n) auto
  with ECmp show ?case by (auto intro!: cmp_print)
next
  case (EStruct fs)
  then obtain m where m: "n = Suc m" by (cases n) auto
  have inner: "parse_cmp m env (show_expr (snd fe) @ t') = Ok (snd fe, t')" if "fe \<in> set fs" "ends t'" for fe t'
  proof (rule EStruct.IH [OF that(1)])
    have "nesting (snd fe) \<le> Max (set (0 # map (\<lambda>fe. nesting (snd fe)) fs))"
      using that(1) by (intro Max_ge) auto
    with EStruct.prems(2) m show "nesting (snd fe) < m" using that(1) by auto
    show "printable env (snd fe)" using EStruct.prems(1) that(1) by (auto simp: list_all_iff)
    show "snd fe \<in> Basic_BNFs.snds fe" by (cases fe) simp
    show "ends t'" by fact
  qed
  have "list_all (\<lambda>fe. is_ident (fst fe)) fs" using EStruct.prems(1) by (auto simp: list_all_iff)
  from struct_print [OF inner this EStruct.prems(3)] m show ?case
    unfolding show_expr_struct by simp
qed

lemma nesting_length: "nesting e \<le> length (show_expr e)"
proof (induction e)
  case (EStruct fs)
  have "nesting (snd fe) \<le> length (concat (map show_field fs))" if "fe \<in> set fs" for fe
  proof -
    have "length (show_field fe) \<le> length (concat (map show_field fs))"
      using that by (induction fs) auto
    with EStruct [OF that, of "snd fe"] show ?thesis by (cases fe) (auto simp: show_field_def)
  qed
  then have "Max (set (0 # map (\<lambda>fe. nesting (snd fe)) fs)) \<le> length (concat (map show_field fs))"
    by (subst Max_le_iff) auto
  then show ?case unfolding show_expr_struct nesting.simps by (simp add: le_SucI)
qed (auto split: lit.splits)

lemma parse_expr_show: "printable env e \<Longrightarrow> parse_expr (show_expr e) env = Ok e"
  using parse_show [of env e "Suc (length (show_expr e))" "[]"] nesting_length [of e]
  by (simp add: parse_expr_def)

end
