(* ===== verification/Front_Props.thy ===== *)
theory Front_Props
  imports Demo_Programs Expr_Print Interp_Initial
begin

text \<open>The properties of the front end: expressions, named types, lowering and its composition with the interpreter.\<close>

subsection \<open>Expressions\<close>

text \<open>C40: The expression parser always answers, with an expression or an error, and it reads back every
  printed expression: operators, comparisons, field selections, struct literals, names and literals
  come out with the structure that was written.\<close>

theorem expression_round_trip:
  "parse_expr s env \<noteq> Panic \<and> (printable env e \<longrightarrow> parse_expr (show_expr e) env = Ok e)"
  using parse_expr_answers parse_expr_show by blast

theorem expression_round_trip_witness:
  "parse_expr ''(n)+((2)*((p).x))'' [(''n'', discard_slot), (''p'', discard_slot)] =
     Ok (EBin Add (EName ''n'') (EBin Mul (ELit (LInt 2)) (EField (EName ''p'') ''x'')))"
proof -
  let ?env = "[(''n'', discard_slot), (''p'', discard_slot)]"
  let ?e = "EBin Add (EName ''n'') (EBin Mul (ELit (LInt 2)) (EField (EName ''p'') ''x''))"
  have p: "printable ?env ?e" "show_expr ?e = ''(n)+((2)*((p).x))''" by code_simp+
  from expression_round_trip [THEN conjunct2, THEN mp, OF p(1)] show ?thesis unfolding p(2) .
qed

subsection \<open>Named types\<close>

text \<open>C39: When the checks E110 to E113 report no error, every type the program declares or uses resolves,
  and to a type without names: alias chains end, and no alias is cyclic or undefined.\<close>

theorem accepted_types_resolve:
  assumes "no_errors (typedef_check p)" "m \<in> set (pg_modules p)"
  shows "(\<forall>ty\<in>set (types_used m). \<exists>t. resolve_type (type_env_of p) (md_name m) ty = Some t \<and> closed_type t) \<and>
    (\<forall>d\<in>set (md_types m). \<exists>t. bt_get (type_env_of p) (fqn (md_name m) (td_name d)) = Some t \<and> closed_type t)"
proof -
  from assms(1) have ok: "no_errors (check_declarations p)" "no_errors (check_uses p)"
    by (simp_all add: typedef_check_def)
  have "resolve_type (type_env_of p) n ty = Some t \<Longrightarrow> closed_type t" for n ty t
    using resolve_with_map_closed [OF type_env_closed] by (auto simp: resolve_type_def)
  with used_resolves [OF ok(2) assms(2)] declared_resolves [OF ok(1) assms(2)] show ?thesis
    by (fastforce dest: type_env_closed)
qed

theorem accepted_types_resolve_witness:
  "\<exists>t. bt_get (type_env_of src_counter) ''app::Count'' = Some t \<and> closed_type t"
proof -
  have facts: "no_errors (typedef_check src_counter) \<and> fqn ''app'' ''Count'' = ''app::Count''" by code_simp
  let ?m = "pg_modules src_counter ! 0"
  have m: "?m \<in> set (pg_modules src_counter)" "md_name ?m = ''app''"
    "\<lparr>td_name = ''Count'', td_ty = BoundedInt 0 3\<rparr> \<in> set (md_types ?m)"
    by (simp_all add: src_counter_def src_program_def src_module_def)
  from accepted_types_resolve [OF facts [THEN conjunct1] m(1), THEN conjunct2] m(2,3) facts show ?thesis by force
qed

subsection \<open>Lowering\<close>

text \<open>C37: A program that lowers is closed: resources, functions and statements carry their index as id, and
  in every body each jump stays inside the body, each slot and each callee exists, every operation acts
  on a resource of the kind it needs, and branches decide on comparisons.\<close>

theorem lowering_closed:
  assumes "lower A p = Ok P"
  shows "closed_program P \<and> p_module_names P = map md_name (pg_modules p)"
  using assms by (rule lower_closed)

theorem lowering_closed_witness:
  "\<exists>P. lower demo_json src_counter = Ok P \<and> closed_program P \<and> length (p_functions P) = 2"
proof -
  obtain P where P: "lower demo_json src_counter = Ok P" "length (p_functions P) = 2"
    using demo_counter_lowered by (auto split: outc.splits)
  from lowering_closed [OF P(1)] P show ?thesis by blast
qed

text \<open>C38: A source program whose types are well formed and whose permit counts are not negative lowers to a
  program the interpreter runs without ever leaving the declared types: in every reachable state the
  slots, variables, atomics and channel contents lie in their types and the permits in their range.\<close>

theorem lowered_runs_typed:
  assumes "lower A p = Ok P" "source_ok p" "it_program ip = P" "reachable (interp_system esc ip) st"
  shows "typed_state P st \<and> permits_ok st"
  using lower_wf [OF assms(1,2)] reachable_typed_inv [OF assms(4)] reachable_permits_inv [OF assms(4)]
  by (simp add: assms(3))

theorem lowered_runs_typed_witness:
  "\<exists>P st. lower demo_json src_counter = Ok P \<and> typed_state P st \<and> read_shared (ms_store st) 0 = Some (VInt 2)"
proof -
  let ?run = "\<lambda>P. run_from_start (demo_system P) [0, 0, 0]"
  have "case lower demo_json src_counter of Ok P \<Rightarrow> (case ?run P of
      Some st \<Rightarrow> read_shared (ms_store st) 0 = Some (VInt 2) | None \<Rightarrow> False) | _ \<Rightarrow> False"
    by code_simp
  then obtain P st where P: "lower demo_json src_counter = Ok P" "?run P = Some st"
    "read_shared (ms_store st) 0 = Some (VInt 2)" by (auto split: outc.splits option.splits)
  have "reachable (interp_system (\<lambda>s. s) (demo_interp P)) st"
    using run_reachable [OF P(2)] by (simp add: demo_system_def)
  from lowered_runs_typed [OF P(1) demo_counter_source _ this] P show ?thesis
    by (auto simp: demo_interp_def)
qed

text \<open>Whether a call of a body-less function that declares a return value is rejected as unsupported
  depends on the order of the declarations: lowering looks at the callee's placeholder, which has no
  return slot yet, when the caller comes first. The two programs have the same functions.\<close>

theorem external_call_depends_on_order:
  "\<exists>fs gs P Q. set fs = set gs \<and>
     lower demo_json (src_program [] [] fs) = Ok P \<and> p_unsupported P = [] \<and>
     lower demo_json (src_program [] [] gs) = Ok Q \<and> p_unsupported Q \<noteq> []"
proof -
  obtain P where P: "lower demo_json (src_program [] [] [src_caller, src_external]) = Ok P" "p_unsupported P = []"
    using demo_external_order by (auto simp: unsupported_of_def split: outc.splits)
  obtain Q where Q: "lower demo_json (src_program [] [] [src_external, src_caller]) = Ok Q" "p_unsupported Q \<noteq> []"
    using demo_external_order by (auto simp: unsupported_of_def split: outc.splits)
  have "set [src_caller, src_external] = set [src_external, src_caller]" by auto
  with P Q show ?thesis by blast
qed

end
