(* ===== verification/Val_Base.thy ===== *)
theory Val_Base
  imports Expr
begin

text \<open>
  What the validators of \<open>src/src/validate\<close> share: the walk over all statements, the anchors of their
  diagnostics, and the reading of the JSON literals beyond the conversions of \<open>json_api\<close>. The
  collections of the code (\<open>HashMap\<close>, \<open>HashSet\<close>) are ordered maps and lists; where the code iterates
  over one, the diagnostics come in key order here and in an unspecified order there.
\<close>

record 'j json_kinds = "'j json_api" +
  j_is_boolean :: "'j \<Rightarrow> bool"
  j_is_i64 :: "'j \<Rightarrow> bool"
  j_is_f64 :: "'j \<Rightarrow> bool"
  j_is_string :: "'j \<Rightarrow> bool"
  j_is_object :: "'j \<Rightarrow> bool"
  j_is_array :: "'j \<Rightarrow> bool"

definition walk_stmts ::
  "(nat \<Rightarrow> nat \<Rightarrow> nat \<Rightarrow> 'j module_decl \<Rightarrow> 'j function_decl \<Rightarrow> stmt \<Rightarrow> 'd list) \<Rightarrow> 'j program_decl \<Rightarrow> 'd list" where
  "walk_stmts visit p =
     each (\<lambda>mi m. each (\<lambda>fi f. each (\<lambda>si s. visit mi fi si m f s) (fd_body f)) (md_functions m)) (pg_modules p)"

lemma walk_stmts_cong [fundef_cong]:
  "p = q \<Longrightarrow> (\<And>mi fi si m f s. m \<in> set (pg_modules q) \<Longrightarrow> f \<in> set (md_functions m) \<Longrightarrow> s \<in> set (fd_body f) \<Longrightarrow>
     u mi fi si m f s = v mi fi si m f s) \<Longrightarrow> walk_stmts u p = walk_stmts v q"
  by (auto simp: walk_stmts_def intro!: each_cong)

text \<open>A diagnostic that is pushed when a condition holds.\<close>

definition report :: "bool \<Rightarrow> diagnostic \<Rightarrow> diagnostic list" where
  "report b d = (if b then [d] else [])"

lemma report_simps [simp]: "report True d = [d]" "report False d = []"
  by (simp_all add: report_def)

lemma no_errors_report [simp]: "no_errors (report b d) \<longleftrightarrow> (b \<longrightarrow> \<not> is_error d)"
  by (simp add: report_def)

lemma set_report: "d \<in> set (report b e) \<longleftrightarrow> b \<and> d = e"
  by (auto simp: report_def)

text \<open>The usual anchor: a JSON path and a control location.\<close>

definition anchored :: "string \<Rightarrow> string \<Rightarrow> diagnostic \<Rightarrow> diagnostic" where
  "anchored path loc d = with_location loc (with_path path d)"

lemma is_error_anchored [simp]: "is_error (anchored path loc d) = is_error d"
  by (simp add: anchored_def)

definition err_at :: "string \<Rightarrow> string \<Rightarrow> string \<Rightarrow> diagnostic" where
  "err_at path loc c = anchored path loc (diag_error c)"

definition warn_at :: "string \<Rightarrow> string \<Rightarrow> string \<Rightarrow> diagnostic" where
  "warn_at path loc c = anchored path loc (diag_warning c)"

lemma is_error_at [simp]: "is_error (err_at path loc c)" "\<not> is_error (warn_at path loc c)"
  by (simp_all add: err_at_def warn_at_def)

text \<open>A name that occurs among the earlier ones (\<open>!seen.insert(name)\<close>).\<close>

definition seen_before :: "('a \<Rightarrow> string) \<Rightarrow> 'a list \<Rightarrow> nat \<Rightarrow> bool" where
  "seen_before key xs i \<longleftrightarrow> key (xs ! i) \<in> set (map key (take i xs))"

lemma seen_before_iff: "i < length xs \<Longrightarrow> seen_before key xs i \<longleftrightarrow> (\<exists>j<i. key (xs ! j) = key (xs ! i))"
proof -
  assume "i < length xs"
  then have "set (take i xs) = (\<lambda>j. xs ! j) ` {..<i}" by (simp add: nth_image [symmetric] lessThan_atLeast0)
  then show ?thesis by (simp add: seen_before_def) (metis (no_types, lifting) imageE imageI lessThan_iff)
qed

lemma none_seen_before: "(\<forall>i<length xs. \<not> seen_before key xs i) \<longleftrightarrow> distinct (map key xs)"
proof
  assume fresh: "\<forall>i<length xs. \<not> seen_before key xs i"
  have "key (xs ! i) \<noteq> key (xs ! j)" if "i < length xs" "j < length xs" "i \<noteq> j" for i j
    using fresh that by (cases "i < j") (metis seen_before_iff linorder_neqE_nat)+
  then show "distinct (map key xs)" by (simp add: distinct_conv_nth)
next
  assume "distinct (map key xs)"
  then show "\<forall>i<length xs. \<not> seen_before key xs i"
    by (auto simp: seen_before_iff distinct_conv_nth)
qed

lemma in_eachI: "i < length xs \<Longrightarrow> xs ! i = x \<Longrightarrow> d \<in> set (f i x) \<Longrightarrow> d \<in> set (each f xs)"
  by (auto simp: set_each)

lemma in_walkI:
  "mi < length (pg_modules p) \<Longrightarrow> pg_modules p ! mi = m \<Longrightarrow> fi < length (md_functions m) \<Longrightarrow> md_functions m ! fi = f \<Longrightarrow>
    si < length (fd_body f) \<Longrightarrow> fd_body f ! si = s \<Longrightarrow> d \<in> set (visit mi fi si m f s) \<Longrightarrow> d \<in> set (walk_stmts visit p)"
  unfolding walk_stmts_def set_each by blast

lemma no_errors_walk:
  "no_errors (walk_stmts visit p) \<longleftrightarrow>
    (\<forall>mi<length (pg_modules p). let m = pg_modules p ! mi in \<forall>fi<length (md_functions m). let f = md_functions m ! fi in
       \<forall>si<length (fd_body f). no_errors (visit mi fi si m f (fd_body f ! si)))"
  by (simp add: walk_stmts_def no_errors_each Let_def)

lemma no_errors_walkD:
  "no_errors (walk_stmts visit p) \<Longrightarrow> m \<in> set (pg_modules p) \<Longrightarrow> f \<in> set (md_functions m) \<Longrightarrow> s \<in> set (fd_body f) \<Longrightarrow>
    \<exists>mi fi si. no_errors (visit mi fi si m f s)"
  by (auto simp: no_errors_walk Let_def in_set_conv_nth) blast

text \<open>The functions that some statement starts concurrently.\<close>

definition concurrent_entry_callees :: "'j program_decl \<Rightarrow> string list" where
  "concurrent_entry_callees p = walk_stmts (\<lambda>_ _ _ m _ s.
     let entry = (\<lambda>func. case lookup_function_decl p (md_name m) func of
           Some (owner, f) \<Rightarrow> [fqn (md_name owner) (fd_name f)] | None \<Rightarrow> [])
     in case sm_op s of
          ASpawn func _ _ \<Rightarrow> entry func
        | AAsyncCall func _ _ \<Rightarrow> entry func
        | AScope funcs \<Rightarrow> concat (map entry funcs)
        | _ \<Rightarrow> []) p"

end
