(* ===== verification/Val_Names.thy ===== *)
theory Val_Names
  imports Val_Base
begin

text \<open>
  Name resolution checks (\<open>src/src/validate/names.rs\<close>, codes E101 to E109): duplicates, the
  \<open>provides\<close> and \<open>requires\<close> of modules, and references to resources, functions and statement ids.
\<close>

definition check_duplicate_modules :: "'j program_decl \<Rightarrow> diagnostic list" where
  "check_duplicate_modules p = each (\<lambda>i _. report (seen_before md_name (pg_modules p) i)
     (with_path (at_index ''modules'' i @ ''.name'') (diag_error ''E108''))) (pg_modules p)"

definition check_duplicate_resources :: "'j program_decl \<Rightarrow> diagnostic list" where
  "check_duplicate_resources p = each (\<lambda>mi m. each (\<lambda>i _. report (seen_before rc_name (md_resources m) i)
     (with_path (at_index ''modules'' mi @ at_index ''.resources'' i @ ''.name'') (diag_error ''E104'')))
     (md_resources m)) (pg_modules p)"

definition resource_fqns :: "'j program_decl \<Rightarrow> string list" where
  "resource_fqns p = concat (map (\<lambda>m. map (\<lambda>r. fqn (md_name m) (rc_name r)) (md_resources m)) (pg_modules p))"

definition check_duplicate_functions :: "'j program_decl \<Rightarrow> diagnostic list" where
  "check_duplicate_functions p = each (\<lambda>mi m. each (\<lambda>i _. report (seen_before fd_name (md_functions m) i)
     (with_path (at_index ''modules'' mi @ at_index ''.functions'' i @ ''.name'') (diag_error ''E105'')))
     (md_functions m)) (pg_modules p)"

definition function_fqns :: "'j program_decl \<Rightarrow> string list" where
  "function_fqns p = concat (map (\<lambda>m. map (\<lambda>f. fqn (md_name m) (fd_name f)) (md_functions m)) (pg_modules p))"

definition collect_type_fqns :: "'j program_decl \<Rightarrow> string list" where
  "collect_type_fqns p = concat (map (\<lambda>m. map (\<lambda>t. fqn (md_name m) (td_name t)) (md_types m)) (pg_modules p))"

text \<open>The ids of the sequential holes among the given statements.\<close>

definition hole_ids :: "stmt list \<Rightarrow> string list" where
  "hole_ids ss = List.map_filter (\<lambda>s. case sm_op s of ASeqHole i _ _ _ \<Rightarrow> Some i | _ \<Rightarrow> None) ss"

definition check_duplicate_sids :: "'j program_decl \<Rightarrow> diagnostic list" where
  "check_duplicate_sids p = walk_stmts (\<lambda>mi fi si m f s.
     report (seen_before sm_sid (fd_body f) si)
       (err_at (fn_path mi fi @ at_index ''.body'' si @ ''.sid'') (stmt_location m f s) ''E106'') @
     (case sm_op s of
        ASeqHole i _ _ _ \<Rightarrow> report (i \<in> set (hole_ids (take si (fd_body f))))
          (err_at (fn_path mi fi @ at_index ''.body'' si @ ''.id'') (stmt_location m f s) ''E109'')
      | _ \<Rightarrow> [])) p"

subsection \<open>Module contracts\<close>

definition provided_fqns :: "(name_set \<Rightarrow> string list) \<Rightarrow> 'j program_decl \<Rightarrow> string list" where
  "provided_fqns field p = concat (map (\<lambda>m. map (fqn (md_name m)) (field (md_provides m))) (pg_modules p))"

text \<open>The names a module provides, each of which it must declare; \<open>field\<close> is the JSON field.\<close>

definition check_provided :: "nat \<Rightarrow> string \<Rightarrow> string list \<Rightarrow> string list \<Rightarrow> diagnostic list" where
  "check_provided mi field declared names = each (\<lambda>i n. report (n \<notin> set declared)
     (with_path (at_index ''modules'' mi @ at_index (''.provides.'' @ field) i) (diag_error ''E108''))) names"

text \<open>The names a module requires: qualified, declared and provided by their module.\<close>

definition check_required :: "nat \<Rightarrow> string \<Rightarrow> string list \<Rightarrow> string list \<Rightarrow> string list \<Rightarrow> diagnostic list" where
  "check_required mi field declared provided names = each (\<lambda>i n.
     let path = at_index ''modules'' mi @ at_index (''.requires.'' @ field) i in
     if \<not> is_fqn n then [with_path path (diag_error ''E108'')]
     else report (n \<notin> set declared \<or> n \<notin> set provided) (with_path path (diag_error ''E108''))) names"

definition check_contracts :: "'j program_decl \<Rightarrow> diagnostic list" where
  "check_contracts p = each (\<lambda>mi m.
     check_provided mi ''resources'' (map rc_name (md_resources m)) (ns_resources (md_provides m)) @
     check_provided mi ''types'' (map td_name (md_types m)) (ns_types (md_provides m)) @
     check_provided mi ''functions'' (map fd_name (md_functions m)) (ns_functions (md_provides m)) @
     check_required mi ''resources'' (resource_fqns p) (provided_fqns ns_resources p) (rq_resources (md_requires m)) @
     check_required mi ''functions'' (function_fqns p) (provided_fqns ns_functions p) (function_names (md_requires m)) @
     check_required mi ''types'' (collect_type_fqns p) (provided_fqns ns_types p) (rq_types (md_requires m)))
     (pg_modules p)"

subsection \<open>References\<close>

definition resource_defined :: "'j program_decl \<Rightarrow> string \<Rightarrow> string \<Rightarrow> bool" where
  "resource_defined p from_module n \<longleftrightarrow> lookup_resource_decl p from_module n \<noteq> None"

text \<open>The resource names of a statement in the order in which they are checked.\<close>

definition guard_references :: "select_guard \<Rightarrow> string list" where
  "guard_references g = guard_resource_name g # (case g of GCondvarWait _ lock \<Rightarrow> [lock] | _ \<Rightarrow> [])"

definition resource_references :: "op \<Rightarrow> string list" where
  "resource_references x =
     (case op_resource_name x of Some r \<Rightarrow> [r] | None \<Rightarrow> []) @
     (case footprint x of Some (rs, ws) \<Rightarrow> rs @ ws | None \<Rightarrow> []) @
     (case x of ACondvarWait _ lock \<Rightarrow> [lock] | _ \<Rightarrow> []) @
     (case x of ASelect branches _ \<Rightarrow> concat (map (\<lambda>b. guard_references (sb_guard b)) branches) | _ \<Rightarrow> [])"

definition check_resource_references :: "'j program_decl \<Rightarrow> diagnostic list" where
  "check_resource_references p = walk_stmts (\<lambda>mi fi si m f s.
     concat (map (\<lambda>n. report (\<not> resource_defined p (md_name m) n)
       (err_at (stmt_path mi fi si) (stmt_location m f s) ''E101'')) (resource_references (sm_op s)))) p"

definition check_function_references :: "'j program_decl \<Rightarrow> diagnostic list" where
  "check_function_references p = walk_stmts (\<lambda>mi fi si m f s.
     concat (map (\<lambda>func.
       report (lookup_function_decl p (md_name m) func = None)
         (err_at (stmt_path mi fi si) (stmt_location m f s) ''E102'') @
       report (is_fqn func \<and> map_option fst (split_fqn func) \<noteq> Some (md_name m) \<and>
           func \<notin> set (function_names (md_requires m)))
         (err_at (stmt_path mi fi si) (stmt_location m f s) ''E108'')) (callee_funcs (sm_op s)))) p"

definition check_sid_references :: "'j program_decl \<Rightarrow> diagnostic list" where
  "check_sid_references p = walk_stmts (\<lambda>mi fi si m f s.
     concat (map (\<lambda>t. report (t \<notin> set (map sm_sid (fd_body f)))
       (err_at (stmt_path mi fi si) (stmt_location m f s) ''E103''))
       (stmt_successors s (nth_opt (fd_body f) (Suc si))))) p"

definition check_entry :: "'j program_decl \<Rightarrow> diagnostic list" where
  "check_entry p =
    (if \<not> is_fqn (pg_entry p) then [with_path ''entry'' (diag_error ''E107'')]
     else report (pg_entry p \<notin> set (function_fqns p)) (with_path ''entry'' (diag_error ''E107'')))"

definition names_check :: "'j program_decl \<Rightarrow> diagnostic list" where
  "names_check p =
     check_duplicate_modules p @ check_duplicate_resources p @ check_duplicate_functions p @
     check_duplicate_sids p @ check_contracts p @ check_resource_references p @
     check_function_references p @ check_sid_references p @ check_entry p"

section \<open>Structure\<close>

text \<open>
  The structural checks (\<open>src/src/validate/structure.rs\<close>, codes E0xx and E208) on resources,
  functions and statement ids that deserialization does not make.
\<close>

definition check_sync_resource :: "'j resource_decl \<Rightarrow> string \<Rightarrow> diagnostic list" where
  "check_sync_resource r path =
     report (rc_type r \<notin> {''Mutex'', ''RwLock'', ''Condvar'', ''Semaphore'', ''Channel''})
       (with_path (path @ ''.type'') (diag_error ''E008'')) @
     (case rc_mode r of
        None \<Rightarrow> [with_path path (diag_error ''E001'')]
      | Some m \<Rightarrow> report (m \<noteq> ''Sync'' \<and> m \<noteq> ''Async'') (with_path (path @ ''.mode'') (diag_error ''E009''))) @
     report (rc_type r = ''Semaphore'' \<and> rc_count r = None) (with_path path (diag_error ''E001'')) @
     report (rc_type r = ''Channel'' \<and> rc_base r = None) (with_path path (diag_error ''E001'')) @
     (if rc_type r = ''Channel'' then
        (case rc_capacity r of
           None \<Rightarrow> [with_path path (diag_error ''E001'')]
         | Some c \<Rightarrow> report (c < 0) (with_path (path @ ''.capacity'') (diag_error ''E001'')))
      else [])"

fun init_mismatch :: "('j, 'x) json_kinds_scheme \<Rightarrow> base_type \<Rightarrow> 'j \<Rightarrow> bool" where
  "init_mismatch A (Primitive p) j =
    (if p = ''Bool'' then \<not> j_is_boolean A j
     else if p = ''Int'' then \<not> j_is_i64 A j
     else if p = ''Float'' then \<not> j_is_f64 A j \<and> \<not> j_is_i64 A j
     else if p = ''String'' then \<not> j_is_string A j
     else False)"
| "init_mismatch A (EnumT vars) j = (case j_as_str A j of Some s \<Rightarrow> s \<notin> set vars | None \<Rightarrow> True)"
| "init_mismatch A (StructT _) j = (\<not> j_is_object A j)"
| "init_mismatch A (ArrayT _ _) j = (\<not> j_is_array A j)"
| "init_mismatch A (BoundedInt lo hi) j = (case j_as_i64 A j of Some v \<Rightarrow> v < lo \<or> hi < v | None \<Rightarrow> True)"

definition check_init_type_match :: "('j, 'x) json_kinds_scheme \<Rightarrow> base_type \<Rightarrow> 'j \<Rightarrow> string \<Rightarrow> diagnostic list" where
  "check_init_type_match A base j path =
     report (init_mismatch A base j) (with_path (path @ ''.init'') (diag_error ''E208''))"

definition check_var_resource ::
  "('j, 'x) json_kinds_scheme \<Rightarrow> 'j resource_decl \<Rightarrow> string \<Rightarrow> type_env \<Rightarrow> string \<Rightarrow> diagnostic list" where
  "check_var_resource A r m tenv path =
     report (rc_type r \<notin> {''Var'', ''Atomic''}) (with_path (path @ ''.type'') (diag_error ''E008'')) @
     report (rc_base r = None) (with_path path (diag_error ''E001'')) @
     report (rc_init r = None) (with_path path (diag_error ''E001'')) @
     (case (rc_base r, rc_init r) of
        (Some base, Some j) \<Rightarrow> check_init_type_match A (resolved_or_self tenv m base) j path
      | _ \<Rightarrow> [])"

definition check_resource ::
  "('j, 'x) json_kinds_scheme \<Rightarrow> type_env \<Rightarrow> nat \<Rightarrow> string \<Rightarrow> nat \<Rightarrow> 'j resource_decl \<Rightarrow> diagnostic list" where
  "check_resource A tenv mi m i r =
    (let path = at_index ''modules'' mi @ at_index ''.resources'' i in
     if rc_kind r \<noteq> ''sync'' \<and> rc_kind r \<noteq> ''var'' then [with_path (path @ ''.kind'') (diag_error ''E008'')]
     else if rc_kind r = ''sync'' then check_sync_resource r path
     else check_var_resource A r m tenv path)"

definition check_resources :: "('j, 'x) json_kinds_scheme \<Rightarrow> 'j program_decl \<Rightarrow> diagnostic list" where
  "check_resources A p = (let tenv = type_env_of p in
     each (\<lambda>mi m. each (check_resource A tenv mi (md_name m)) (md_resources m)) (pg_modules p))"

definition is_valid_sid :: "string \<Rightarrow> bool" where
  "is_valid_sid sid = (case sid of c # ds \<Rightarrow> c = CHR ''s'' \<and> ds \<noteq> [] \<and> list_all is_digit ds | [] \<Rightarrow> False)"

definition check_stmt_shape ::
  "'j module_decl \<Rightarrow> 'j function_decl \<Rightarrow> string \<Rightarrow> nat \<Rightarrow> stmt \<Rightarrow> diagnostic list" where
  "check_stmt_shape m f path si s =
     report (\<not> is_valid_sid (sm_sid s)) (err_at (path @ at_index ''.body'' si @ ''.sid'') (stmt_location m f s) ''E005'') @
     (case sm_op s of
        ASeqHole hole _ _ _ \<Rightarrow> report (\<not> is_ident hole)
          (err_at (path @ at_index ''.body'' si @ ''.id'') (stmt_location m f s) ''E006'')
      | _ \<Rightarrow> [])"

definition check_function_shape :: "'j module_decl \<Rightarrow> 'j function_decl \<Rightarrow> string \<Rightarrow> diagnostic list" where
  "check_function_shape m f path =
     report (fd_kind f \<notin> {''normal'', ''async''}) (with_path (path @ ''.kind'') (diag_error ''E010'')) @
     report (fd_form f \<noteq> ''function'' \<and> fd_form f \<noteq> ''closure'') (with_path (path @ ''.form'') (diag_error ''E010'')) @
     each (check_stmt_shape m f path) (fd_body f)"

definition check_functions :: "'j program_decl \<Rightarrow> diagnostic list" where
  "check_functions p =
     each (\<lambda>mi m. each (\<lambda>fi f. check_function_shape m f (fn_path mi fi)) (md_functions m)) (pg_modules p)"

definition structure_check :: "('j, 'x) json_kinds_scheme \<Rightarrow> 'j program_decl \<Rightarrow> diagnostic list" where
  "structure_check A p = check_resources A p @ check_functions p"

section \<open>Declarations and destinations\<close>

text \<open>
  Declarations, destinations and call sites (\<open>src/src/validate/dataflow.rs\<close>, codes E910 to E937).
\<close>

text \<open>The names of all resources, short and qualified.\<close>

definition resource_names :: "'j program_decl \<Rightarrow> string list" where
  "resource_names p = concat (map (\<lambda>m. concat (map (\<lambda>r. [rc_name r, fqn (md_name m) (rc_name r)]) (md_resources m)))
     (pg_modules p))"

text \<open>Every function under its short and its qualified name; a later one replaces an earlier one.\<close>

definition callees :: "'j program_decl \<Rightarrow> (string, 'j function_decl) btree" where
  "callees p = fold (\<lambda>m. fold (\<lambda>f tab. bt_insert (fqn (md_name m) (fd_name f)) f (bt_insert (fd_name f) f tab))
     (md_functions m)) (pg_modules p) []"

definition check_param_decls :: "string list \<Rightarrow> 'j function_decl \<Rightarrow> string \<Rightarrow> diagnostic list" where
  "check_param_decls names f fpath = each (\<lambda>i pd.
     report (pd_name pd \<in> set names) (with_path (fpath @ at_index ''.params'' i) (diag_error ''E910'')) @
     report (seen_before pd_name (fd_params f) i) (with_path (fpath @ at_index ''.params'' i) (diag_error ''E911'')))
     (fd_params f)"

definition check_local_decls :: "string list \<Rightarrow> 'j function_decl \<Rightarrow> string \<Rightarrow> diagnostic list" where
  "check_local_decls names f fpath = each (\<lambda>i l.
     report (ld_name l \<in> set names \<or> ld_name l \<in> set (map pd_name (fd_params f)))
       (with_path (fpath @ at_index ''.locals'' i) (diag_error ''E914'')) @
     report (seen_before ld_name (fd_locals f) i) (with_path (fpath @ at_index ''.locals'' i) (diag_error ''E915'')))
     (fd_locals f)"

definition check_return_decl :: "'j function_decl \<Rightarrow> string \<Rightarrow> diagnostic list" where
  "check_return_decl f fpath = (case fd_returns f of
      None \<Rightarrow> []
    | Some ret \<Rightarrow> report (pd_modeled ret \<and> list_ex (\<lambda>s. sm_op s = AReturn None) (fd_body f))
        (with_path (fpath @ ''.returns'') (diag_warning ''E913'')))"

subsection \<open>Names in expressions\<close>

text \<open>
  \<open>char::is_alphanumeric\<close> on the first 256 code points: ASCII letters and digits, the Latin-1 letters,
  and the superscript digits and fractions, which count as numeric.
\<close>

definition is_alphanumeric :: "char \<Rightarrow> bool" where
  "is_alphanumeric c \<longleftrightarrow> is_alnum c \<or>
     (let n = of_char c :: nat in
      n \<in> {170, 178, 179, 181, 185, 186, 188, 189, 190} \<or> 192 \<le> n \<and> n \<noteq> 215 \<and> n \<noteq> 247)"

fun split_words :: "string \<Rightarrow> string list" where
  "split_words [] = [[]]"
| "split_words (c # cs) =
    (if is_alphanumeric c \<or> c = CHR ''_'' then
       (case split_words cs of w # ws \<Rightarrow> (c # w) # ws | [] \<Rightarrow> [[c]])
     else [] # split_words cs)"

definition contains_word :: "string \<Rightarrow> string \<Rightarrow> bool" where
  "contains_word txt n \<longleftrightarrow> n \<in> set (split_words txt)"

definition name_referenced_as_rvalue :: "'j function_decl \<Rightarrow> string \<Rightarrow> bool" where
  "name_referenced_as_rvalue f n = list_ex (\<lambda>s.
     list_ex (\<lambda>t. contains_word t n)
       (rvalue_exprs (sm_op s) @ (case sm_op s of ASwitch v _ _ \<Rightarrow> [v] | _ \<Rightarrow> []))) (fd_body f)"

definition unmodeled_names :: "'j function_decl \<Rightarrow> string list" where
  "unmodeled_names f = map pd_name (filter (\<lambda>pd. \<not> pd_modeled pd) (fd_params f)) @
     map ld_name (filter (\<lambda>l. \<not> ld_modeled l) (fd_locals f))"

definition check_unmodeled_refs :: "'j module_decl \<Rightarrow> 'j function_decl \<Rightarrow> string \<Rightarrow> diagnostic list" where
  "check_unmodeled_refs m f fpath = concat (map (\<lambda>n.
     report (name_referenced_as_rvalue f n) (warn_at fpath (fn_location m f) ''E912'')) (unmodeled_names f))"

subsection \<open>Destinations\<close>

definition slot_satisfies :: "name_env \<Rightarrow> string \<Rightarrow> (env_slot \<Rightarrow> bool) \<Rightarrow> bool" where
  "slot_satisfies env n ok = (case bt_get env n of Some s \<Rightarrow> ok s | None \<Rightarrow> False)"

definition check_assign_local_dst :: "name_env \<Rightarrow> string \<Rightarrow> string \<Rightarrow> string \<Rightarrow> diagnostic list" where
  "check_assign_local_dst env n path loc =
     report (\<not> slot_satisfies env n is_assign_local_target) (err_at path loc ''E936'')"

definition check_value_dst :: "name_env \<Rightarrow> string \<Rightarrow> string \<Rightarrow> string \<Rightarrow> diagnostic list" where
  "check_value_dst env n path loc = report (\<not> slot_satisfies env n is_writable_value) (err_at path loc ''E921'')"

definition check_value_or_discard_dst :: "name_env \<Rightarrow> string \<Rightarrow> string \<Rightarrow> string \<Rightarrow> diagnostic list" where
  "check_value_or_discard_dst env n path loc =
     report (\<not> slot_satisfies env n (\<lambda>s. is_writable_value s \<or> is_discard s)) (err_at path loc ''E921'')"

definition check_destination :: "name_env \<Rightarrow> op \<Rightarrow> string \<Rightarrow> string \<Rightarrow> diagnostic list" where
  "check_destination env x path loc = (case x of
      AAssignLocal tgt _ \<Rightarrow> check_assign_local_dst env tgt path loc
    | AReadShared _ (Some dst) \<Rightarrow> check_value_or_discard_dst env dst path loc
    | AAtomicLoad _ dst \<Rightarrow> check_value_or_discard_dst env dst path loc
    | AAtomicCas _ _ _ dst \<Rightarrow> check_value_dst env dst path loc
    | AChannelRecv _ dst \<Rightarrow> check_value_or_discard_dst env dst path loc
    | ASelect branches _ \<Rightarrow> concat (map (\<lambda>b. case sb_guard b of
          GChannelRecv _ dst \<Rightarrow> check_value_or_discard_dst env dst path loc | _ \<Rightarrow> []) branches)
    | _ \<Rightarrow> [])"

subsection \<open>Call sites\<close>

definition has_modeled_return :: "'j function_decl \<Rightarrow> bool" where
  "has_modeled_return f = (case fd_returns f of Some r \<Rightarrow> pd_modeled r | None \<Rightarrow> False)"

definition check_call_site ::
  "(string, 'j function_decl) btree \<Rightarrow> name_env \<Rightarrow> op \<Rightarrow> string \<Rightarrow> string \<Rightarrow> diagnostic list" where
  "check_call_site tab env x path loc = (case x of
      AFunc func args dst \<Rightarrow> (case bt_get tab func of
          None \<Rightarrow> []
        | Some callee \<Rightarrow>
            report (length args \<noteq> length (filter pd_modeled (fd_params callee))) (err_at path loc ''E920'') @
            (case dst of
               None \<Rightarrow> []
             | Some out \<Rightarrow> check_value_dst env out path loc @
                 report (\<not> has_modeled_return callee) (err_at path loc ''E923'')))
    | _ \<Rightarrow> [])"

definition check_concurrent_callee ::
  "(string, 'j function_decl) btree \<Rightarrow> string \<Rightarrow> string list option \<Rightarrow> string \<Rightarrow> string \<Rightarrow> diagnostic list" where
  "check_concurrent_callee tab func args path loc = (case bt_get tab func of
      None \<Rightarrow> []
    | Some callee \<Rightarrow>
        report (filter pd_modeled (fd_params callee) \<noteq> []) (err_at path loc ''E922'') @
        (case args of
           None \<Rightarrow> []
         | Some xs \<Rightarrow> report (xs \<noteq> [] \<and> length xs \<noteq> length (filter (\<lambda>pd. \<not> pd_modeled pd) (fd_params callee)))
             (err_at path loc ''E924'')))"

definition check_concurrent_site ::
  "(string, 'j function_decl) btree \<Rightarrow> op \<Rightarrow> string \<Rightarrow> string \<Rightarrow> diagnostic list" where
  "check_concurrent_site tab x path loc = (case x of
      ASpawn func args _ \<Rightarrow> check_concurrent_callee tab func (Some args) path loc
    | AAsyncCall func args _ \<Rightarrow> check_concurrent_callee tab func (Some args) path loc
    | AScope funcs \<Rightarrow> concat (map (\<lambda>func. check_concurrent_callee tab func None path loc) funcs)
    | _ \<Rightarrow> [])"

definition check_modeled_activation_on_entry :: "'j module_decl \<Rightarrow> 'j function_decl \<Rightarrow> string \<Rightarrow> diagnostic list" where
  "check_modeled_activation_on_entry m f fpath =
     report (list_ex ld_modeled (fd_locals f) \<or> has_modeled_return f) (warn_at fpath (fn_location m f) ''E937'')"

subsection \<open>The pass\<close>

text \<open>One loop over the body for each of the checks of statements.\<close>

definition each_stmt ::
  "'j module_decl \<Rightarrow> 'j function_decl \<Rightarrow> nat \<Rightarrow> nat \<Rightarrow> (op \<Rightarrow> string \<Rightarrow> string \<Rightarrow> diagnostic list) \<Rightarrow> diagnostic list" where
  "each_stmt m f mi fi check =
     each (\<lambda>si s. check (sm_op s) (stmt_path mi fi si) (stmt_location m f s)) (fd_body f)"

definition check_function_flow ::
  "'j program_decl \<Rightarrow> string list \<Rightarrow> (string, 'j function_decl) btree \<Rightarrow> string list \<Rightarrow> nat \<Rightarrow> 'j module_decl \<Rightarrow> nat
     \<Rightarrow> 'j function_decl \<Rightarrow> diagnostic list" where
  "check_function_flow p names tab entries mi m fi f =
    (let env = build_env p m f; fpath = fn_path mi fi in
     check_param_decls names f fpath @
     check_local_decls names f fpath @
     check_return_decl f fpath @
     check_unmodeled_refs m f fpath @
     each_stmt m f mi fi (check_destination env) @
     each_stmt m f mi fi (check_call_site tab env) @
     each_stmt m f mi fi (check_concurrent_site tab) @
     (if fqn (md_name m) (fd_name f) \<in> set entries then check_modeled_activation_on_entry m f fpath else []))"

definition dataflow_check :: "'j program_decl \<Rightarrow> diagnostic list" where
  "dataflow_check p =
    (let names = resource_names p; tab = callees p; entries = concurrent_entry_callees p in
     each (\<lambda>mi m. each (check_function_flow p names tab entries mi m) (md_functions m)) (pg_modules p))"

end
