(* ===== verification/Val_Types.thy ===== *)
theory Val_Types
  imports Val_Base
begin

text \<open>
  Type checks of statements (\<open>src/src/validate/types.rs\<close>, codes E201 to E207 and E931 to E935), on the
  expressions as \<open>Expr\<close> parses and types them.
\<close>

datatype res_type = RtVar base_type | RtAtomic base_type | RtMutex | RtRwLock | RtCondvar
  | RtSemaphore | RtChannel base_type

definition res_type_of :: "type_env \<Rightarrow> string \<Rightarrow> 'j resource_decl \<Rightarrow> res_type option" where
  "res_type_of tenv m r =
    (if rc_kind r = ''var'' then
       (if rc_type r = ''Var'' then map_option (RtVar \<circ> resolved_or_self tenv m) (rc_base r)
        else if rc_type r = ''Atomic'' then map_option (RtAtomic \<circ> resolved_or_self tenv m) (rc_base r)
        else None)
     else if rc_kind r = ''sync'' then
       (if rc_type r = ''Mutex'' then Some RtMutex
        else if rc_type r = ''RwLock'' then Some RtRwLock
        else if rc_type r = ''Condvar'' then Some RtCondvar
        else if rc_type r = ''Semaphore'' then Some RtSemaphore
        else if rc_type r = ''Channel'' then map_option (RtChannel \<circ> resolved_or_self tenv m) (rc_base r)
        else None)
     else None)"

type_synonym res_type_map = "(string, res_type) btree"

text \<open>Every resource under its short and its qualified name; a later one replaces an earlier one.\<close>

definition add_res_type :: "type_env \<Rightarrow> string \<Rightarrow> 'j resource_decl \<Rightarrow> res_type_map \<Rightarrow> res_type_map" where
  "add_res_type tenv m r tab = (case res_type_of tenv m r of
      Some rt \<Rightarrow> bt_insert (fqn m (rc_name r)) rt (bt_insert (rc_name r) rt tab)
    | None \<Rightarrow> tab)"

definition build_resource_type_map :: "'j program_decl \<Rightarrow> res_type_map" where
  "build_resource_type_map p = (let tenv = type_env_of p in
     fold (\<lambda>m. fold (add_res_type tenv (md_name m)) (md_resources m)) (pg_modules p) [])"

fun var_ty :: "res_type option \<Rightarrow> base_type option" where
  "var_ty (Some (RtVar b)) = Some b"
| "var_ty _ = None"

fun atomic_ty :: "res_type option \<Rightarrow> base_type option" where
  "atomic_ty (Some (RtAtomic b)) = Some b"
| "atomic_ty _ = None"

fun channel_ty :: "res_type option \<Rightarrow> base_type option" where
  "channel_ty (Some (RtChannel b)) = Some b"
| "channel_ty _ = None"

subsection \<open>Expressions\<close>

text \<open>The code of the first complaint about an expression, if any.\<close>

definition expr_complaint :: "string \<Rightarrow> name_env \<Rightarrow> base_type option \<Rightarrow> bool \<Rightarrow> string \<Rightarrow> string option" where
  "expr_complaint txt env expected require_cmp assign_code = (case parse_expr txt env of
      Ok e \<Rightarrow>
        if require_cmp \<and> \<not> expr_is_comparison e then Some ''E201''
        else (case type_of e env of
            Ok got \<Rightarrow> (case expected of
                None \<Rightarrow> None
              | Some ty \<Rightarrow> (case assignable got ty e of
                  Err c \<Rightarrow> Some (if c = ''E203'' then assign_code else c) | _ \<Rightarrow> None))
          | Err c \<Rightarrow> Some c
          | Panic \<Rightarrow> None)
    | _ \<Rightarrow> Some ''E931'')"

definition check_expr ::
  "string \<Rightarrow> name_env \<Rightarrow> base_type option \<Rightarrow> bool \<Rightarrow> string \<Rightarrow> string \<Rightarrow> string \<Rightarrow> diagnostic list" where
  "check_expr txt env expected require_cmp path loc assign_code =
    (case expr_complaint txt env expected require_cmp assign_code of
       Some c \<Rightarrow> [err_at path loc c] | None \<Rightarrow> [])"

definition check_recv_dst :: "name_env \<Rightarrow> res_type_map \<Rightarrow> string \<Rightarrow> string \<Rightarrow> string \<Rightarrow> string \<Rightarrow> diagnostic list" where
  "check_recv_dst env rts channel dst path loc =
    (if dst = ''_'' then []
     else case (bt_get rts channel, env_ty env dst) of
         (Some (RtChannel expected), Some dst_ty) \<Rightarrow>
           report (dst_ty \<noteq> expected \<and> \<not> (is_int dst_ty \<and> is_int expected)) (err_at path loc ''E206'')
       | _ \<Rightarrow> [])"

definition check_cas_types ::
  "name_env \<Rightarrow> base_type \<Rightarrow> string \<Rightarrow> string \<Rightarrow> string \<Rightarrow> string \<Rightarrow> string \<Rightarrow> diagnostic list" where
  "check_cas_types env ty expected desired dst path loc =
     check_expr expected env (Some ty) False path loc ''E205'' @
     check_expr desired env (Some ty) False path loc ''E205'' @
     (case env_ty env dst of
        Some dst_ty \<Rightarrow> report (dst_ty \<noteq> ty \<and> \<not> (is_int dst_ty \<and> is_int ty)) (err_at path loc ''E205'')
      | None \<Rightarrow> [])"

text \<open>The arguments of a call against the modelled parameters of the callee; the others have no expected type.\<close>

definition check_args :: "param_decl list \<Rightarrow> string list \<Rightarrow> name_env \<Rightarrow> string \<Rightarrow> string \<Rightarrow> diagnostic list" where
  "check_args params args env path loc =
     concat (map (\<lambda>(a, pd). check_expr a env (Some (pd_type pd)) False path loc ''E932'') (zip args params)) @
     concat (map (\<lambda>a. check_expr a env None False path loc ''E932'') (drop (length params) args))"

definition check_op_types ::
  "'j program_decl \<Rightarrow> res_type_map \<Rightarrow> 'j module_decl \<Rightarrow> 'j function_decl \<Rightarrow> op \<Rightarrow> string \<Rightarrow> string \<Rightarrow> diagnostic list" where
  "check_op_types p rts m f x path loc =
    (let env = build_env p m f in
     case x of
       ABranch cond _ _ \<Rightarrow> check_expr cond env (Some (Primitive ''Bool'')) True path loc ''E201''
     | AAssignLocal tgt e \<Rightarrow> check_expr e env (env_ty env tgt) False path loc ''E932''
     | AWriteShared r e \<Rightarrow> check_expr e env (var_ty (bt_get rts r)) False path loc ''E203''
     | AAtomicStore r e \<Rightarrow> check_expr e env (atomic_ty (bt_get rts r)) False path loc ''E204''
     | AAtomicCas r expected desired dst \<Rightarrow> (case bt_get rts r of
           Some (RtAtomic ty) \<Rightarrow> check_cas_types env ty expected desired dst path loc
         | _ \<Rightarrow> [])
     | AChannelSend ch e \<Rightarrow> check_expr e env (channel_ty (bt_get rts ch)) False path loc ''E206''
     | AChannelRecv ch dst \<Rightarrow> check_recv_dst env rts ch dst path loc
     | ASelect branches _ \<Rightarrow> concat (map (\<lambda>b. case sb_guard b of
           GChannelRecv ch dst \<Rightarrow> check_recv_dst env rts ch dst path loc | _ \<Rightarrow> []) branches)
     | AReturn (Some e) \<Rightarrow> check_expr e env (map_option pd_type (fd_returns f)) False path loc ''E932''
     | AFunc func args _ \<Rightarrow> (case lookup_function_decl p (md_name m) func of
           Some (_, callee) \<Rightarrow> check_args (filter pd_modeled (fd_params callee)) args env path loc
         | None \<Rightarrow> check_args [] args env path loc)
     | ASpawn _ args _ \<Rightarrow> check_args [] args env path loc
     | AAsyncCall _ args _ \<Rightarrow> check_args [] args env path loc
     | _ \<Rightarrow> [])"

definition check_exprs :: "'j program_decl \<Rightarrow> res_type_map \<Rightarrow> diagnostic list" where
  "check_exprs p rts = walk_stmts (\<lambda>mi fi si m f s.
     check_op_types p rts m f (sm_op s) (stmt_path mi fi si) (stmt_location m f s)) p"

subsection \<open>Switch statements\<close>

definition check_scrutinee_type :: "base_type \<Rightarrow> string list \<Rightarrow> string \<Rightarrow> string \<Rightarrow> diagnostic list" where
  "check_scrutinee_type bt labels path loc =
     report (\<not> is_int bt \<and> (case bt of EnumT _ \<Rightarrow> False | _ \<Rightarrow> True)) (err_at (path @ ''.var'') loc ''E202'') @
     (case bt of
        EnumT vars \<Rightarrow> concat (map (\<lambda>l. report (l \<notin> set vars) (err_at (path @ ''.cases'') loc ''E207'')) labels)
      | _ \<Rightarrow> [])"

definition check_switch :: "name_env \<Rightarrow> string \<Rightarrow> string list \<Rightarrow> string \<Rightarrow> string \<Rightarrow> diagnostic list" where
  "check_switch env v labels path loc = (case bt_get env v of
      None \<Rightarrow> [err_at (path @ ''.var'') loc ''E935'']
    | Some slot \<Rightarrow>
        if \<not> is_value_slot slot then [err_at (path @ ''.var'') loc ''E935'']
        else (case es_ty slot of None \<Rightarrow> [] | Some bt \<Rightarrow> check_scrutinee_type bt labels path loc))"

definition check_switch_variables :: "'j program_decl \<Rightarrow> diagnostic list" where
  "check_switch_variables p = walk_stmts (\<lambda>mi fi si m f s. case sm_op s of
      ASwitch v cases _ \<Rightarrow> check_switch (build_env p m f) v (bt_keys cases) (stmt_path mi fi si) (stmt_location m f s)
    | _ \<Rightarrow> []) p"

definition types_check :: "'j program_decl \<Rightarrow> diagnostic list" where
  "types_check p = check_exprs p (build_resource_type_map p) @ check_switch_variables p"

end
