(* ===== verification/Val_Resources.thy ===== *)
theory Val_Resources
  imports Val_Types
begin

text \<open>
  The checks of operations against the resources they name: \<open>src/src/validate/compat.rs\<close> (E301 to
  E308 and E310), \<open>protection.rs\<close> (E701 to E705) and \<open>concurrency.rs\<close> (E401 to E410).
\<close>

subsection \<open>Operations and the kinds of their resources\<close>

fun is_lock_type :: "res_type \<Rightarrow> bool" where
  "is_lock_type RtMutex = True"
| "is_lock_type RtRwLock = True"
| "is_lock_type _ = False"

fun is_channel_type :: "res_type \<Rightarrow> bool" where
  "is_channel_type (RtChannel _) = True"
| "is_channel_type _ = False"

fun is_atomic_type :: "res_type \<Rightarrow> bool" where
  "is_atomic_type (RtAtomic _) = True"
| "is_atomic_type _ = False"

fun is_var_type :: "res_type \<Rightarrow> bool" where
  "is_var_type (RtVar _) = True"
| "is_var_type _ = False"

definition check_rt ::
  "res_type_map \<Rightarrow> string \<Rightarrow> string \<Rightarrow> string \<Rightarrow> (res_type \<Rightarrow> bool) \<Rightarrow> string \<Rightarrow> diagnostic list" where
  "check_rt rts path loc n ok c = (case bt_get rts n of
      None \<Rightarrow> [] | Some rt \<Rightarrow> report (\<not> ok rt) (err_at path loc c))"

definition check_wait :: "res_type_map \<Rightarrow> string \<Rightarrow> string \<Rightarrow> string \<Rightarrow> string \<Rightarrow> diagnostic list" where
  "check_wait rts path loc condvar lock =
     check_rt rts path loc condvar (\<lambda>t. t = RtCondvar) ''E303'' @
     check_rt rts path loc lock is_lock_type ''E304''"

fun check_op_kinds :: "res_type_map \<Rightarrow> string \<Rightarrow> string \<Rightarrow> op \<Rightarrow> diagnostic list" where
  "check_op_kinds rts path loc (AMutexLock r) = check_rt rts path loc r (\<lambda>t. t = RtMutex) ''E301''"
| "check_op_kinds rts path loc (AMutexUnlock r) = check_rt rts path loc r (\<lambda>t. t = RtMutex) ''E301''"
| "check_op_kinds rts path loc (ARwLockRead r) = check_rt rts path loc r (\<lambda>t. t = RtRwLock) ''E302''"
| "check_op_kinds rts path loc (ARwLockWrite r) = check_rt rts path loc r (\<lambda>t. t = RtRwLock) ''E302''"
| "check_op_kinds rts path loc (ARwLockUnlock r) = check_rt rts path loc r (\<lambda>t. t = RtRwLock) ''E302''"
| "check_op_kinds rts path loc (ACondvarWait cv lk) = check_wait rts path loc cv lk"
| "check_op_kinds rts path loc (ACondvarNotify cv) = check_rt rts path loc cv (\<lambda>t. t = RtCondvar) ''E303''"
| "check_op_kinds rts path loc (ACondvarNotifyAll cv) = check_rt rts path loc cv (\<lambda>t. t = RtCondvar) ''E303''"
| "check_op_kinds rts path loc (ASemaphoreAcquire r _) = check_rt rts path loc r (\<lambda>t. t = RtSemaphore) ''E305''"
| "check_op_kinds rts path loc (ASemaphoreRelease r _) = check_rt rts path loc r (\<lambda>t. t = RtSemaphore) ''E305''"
| "check_op_kinds rts path loc (AChannelSend ch _) = check_rt rts path loc ch is_channel_type ''E306''"
| "check_op_kinds rts path loc (AChannelRecv ch _) = check_rt rts path loc ch is_channel_type ''E306''"
| "check_op_kinds rts path loc (AAtomicLoad r _) = check_rt rts path loc r is_atomic_type ''E307''"
| "check_op_kinds rts path loc (AAtomicStore r _) = check_rt rts path loc r is_atomic_type ''E307''"
| "check_op_kinds rts path loc (AAtomicCas r _ _ _) = check_rt rts path loc r is_atomic_type ''E307''"
| "check_op_kinds rts path loc (ASeqHole _ _ rs ws) =
     concat (map (\<lambda>n. check_rt rts path loc n (\<lambda>t. is_var_type t \<or> is_atomic_type t) ''E310'') (rs @ ws))"
| "check_op_kinds rts path loc (AReadShared r _) = check_rt rts path loc r is_var_type ''E308''"
| "check_op_kinds rts path loc (AWriteShared r _) = check_rt rts path loc r is_var_type ''E308''"
| "check_op_kinds rts path loc _ = []"

fun check_guard_kinds :: "res_type_map \<Rightarrow> string \<Rightarrow> string \<Rightarrow> select_guard \<Rightarrow> diagnostic list" where
  "check_guard_kinds rts path loc (GChannelRecv ch _) = check_rt rts path loc ch is_channel_type ''E306''"
| "check_guard_kinds rts path loc (GCondvarWait cv lk) = check_wait rts path loc cv lk"
| "check_guard_kinds rts path loc (GSemaphoreAcquire r) = check_rt rts path loc r (\<lambda>t. t = RtSemaphore) ''E305''"

definition compat_check :: "'j program_decl \<Rightarrow> diagnostic list" where
  "compat_check p = (let rts = build_resource_type_map p in
     walk_stmts (\<lambda>mi fi si m f s.
       let path = stmt_path mi fi si; loc = stmt_location m f s in
       check_op_kinds rts path loc (sm_op s) @
       (case sm_op s of
          ASelect branches _ \<Rightarrow> concat (map (\<lambda>b. check_guard_kinds rts path loc (sb_guard b)) branches)
        | _ \<Rightarrow> [])) p)"

subsection \<open>Protection mappings\<close>

text \<open>
  One entry: the diagnostics, and the variable when it counts as protected. \<open>seen\<close> holds the variables
  of the earlier entries of all modules.
\<close>

definition check_protection ::
  "res_type_map \<Rightarrow> string \<Rightarrow> string list \<Rightarrow> protection_decl \<Rightarrow> diagnostic list" where
  "check_protection rts path seen po =
     report (po_var po \<in> set seen) (with_path path (diag_error ''E705'')) @
     (case bt_get rts (po_var po) of
        Some (RtVar _) \<Rightarrow> []
      | Some (RtAtomic _) \<Rightarrow> [with_path (path @ ''.var'') (diag_error ''E703'')]
      | Some _ \<Rightarrow> [with_path (path @ ''.var'') (diag_error ''E701'')]
      | None \<Rightarrow> []) @
     (case bt_get rts (po_lock po) of
        Some rt \<Rightarrow> report (\<not> is_lock_type rt) (with_path (path @ ''.lock'') (diag_error ''E702''))
      | None \<Rightarrow> [])"

definition protected_var :: "res_type_map \<Rightarrow> protection_decl \<Rightarrow> string list" where
  "protected_var rts po = (case bt_get rts (po_var po) of Some (RtVar _) \<Rightarrow> [po_var po] | _ \<Rightarrow> [])"

definition protections_upto :: "'j program_decl \<Rightarrow> nat \<Rightarrow> protection_decl list" where
  "protections_upto p mi = concat (map md_protection (take mi (pg_modules p)))"

definition protection_check :: "'j program_decl \<Rightarrow> diagnostic list" where
  "protection_check p = (let rts = build_resource_type_map p in
     each (\<lambda>mi m.
       each (\<lambda>pi po. check_protection rts (at_index ''modules'' mi @ at_index ''.protection'' pi)
           (map po_var (protections_upto p mi @ take pi (md_protection m))) po) (md_protection m) @
       each (\<lambda>i r. report (rc_kind r = ''var'' \<and> rc_type r = ''Var'' \<and>
           rc_name r \<notin> set (concat (map (protected_var rts) (protections_upto p (Suc mi)))))
           (with_path (at_index ''modules'' mi @ at_index ''.resources'' i) (diag_warning ''E704''))) (md_resources m))
       (pg_modules p))"

subsection \<open>Pairing of handles\<close>

record op_info =
  oi_handle :: string
  oi_fn_kind :: string
  oi_path :: string
  oi_location :: string

text \<open>The uses of handles by the operations that \<open>handle_of\<close> picks, in program order.\<close>

definition handle_uses :: "(op \<Rightarrow> string option) \<Rightarrow> 'j program_decl \<Rightarrow> op_info list" where
  "handle_uses handle_of p = walk_stmts (\<lambda>mi fi si m f s. case handle_of (sm_op s) of
      Some h \<Rightarrow> [\<lparr>oi_handle = h, oi_fn_kind = fd_kind f, oi_path = stmt_path mi fi si, oi_location = stmt_location m f s\<rparr>]
    | None \<Rightarrow> []) p"

fun spawn_handle :: "op \<Rightarrow> string option" where
  "spawn_handle (ASpawn _ _ h) = Some h"
| "spawn_handle _ = None"

fun join_handle :: "op \<Rightarrow> string option" where
  "join_handle (AJoin h) = Some h"
| "join_handle _ = None"

fun async_handle :: "op \<Rightarrow> string option" where
  "async_handle (AAsyncCall _ _ h) = Some h"
| "async_handle _ = None"

fun await_handle :: "op \<Rightarrow> string option" where
  "await_handle (AAwait h) = Some h"
| "await_handle _ = None"

text \<open>The map from handles to their uses, in key order.\<close>

definition by_handle :: "op_info list \<Rightarrow> (string, op_info list) btree" where
  "by_handle uses = fold (\<lambda>u tab. bt_insert (oi_handle u)
     ((case bt_get tab (oi_handle u) of Some us \<Rightarrow> us | None \<Rightarrow> []) @ [u]) tab) uses []"

text \<open>A diagnostic for every use of every handle that satisfies the condition.\<close>

definition complain ::
  "(string, op_info list) btree \<Rightarrow> (string \<Rightarrow> op_info \<Rightarrow> bool) \<Rightarrow> diagnostic \<Rightarrow> diagnostic list" where
  "complain tab bad d = concat (map (\<lambda>(h, us). concat (map (\<lambda>u.
     report (bad h u) (anchored (oi_path u) (oi_location u) d)) us)) tab)"

definition check_select_guards :: "'j program_decl \<Rightarrow> diagnostic list" where
  "check_select_guards p = walk_stmts (\<lambda>mi fi si m f s. case sm_op s of
      ASelect branches _ \<Rightarrow> concat (map (\<lambda>b. case sb_guard b of
          GCondvarWait condvar _ \<Rightarrow>
            let d = err_at (stmt_path mi fi si) (stmt_location m f s) ''E409'' in
            if \<not> is_async f then [d]
            else (case lookup_resource_decl p (md_name m) condvar of
                Some (_, r) \<Rightarrow> report (rc_mode r \<noteq> Some ''Async'') d | None \<Rightarrow> [])
        | _ \<Rightarrow> []) branches)
    | _ \<Rightarrow> []) p"

definition check_scopes :: "'j program_decl \<Rightarrow> diagnostic list" where
  "check_scopes p = walk_stmts (\<lambda>mi fi si m f s. case sm_op s of
      AScope [] \<Rightarrow> [err_at (stmt_path mi fi si) (stmt_location m f s) ''E410''] | _ \<Rightarrow> []) p"

definition concurrency_check :: "'j program_decl \<Rightarrow> diagnostic list" where
  "concurrency_check p =
    (let spawns = by_handle (handle_uses spawn_handle p); joins = by_handle (handle_uses join_handle p);
         asyncs = by_handle (handle_uses async_handle p); awaits = by_handle (handle_uses await_handle p) in
     check_scopes p @ check_select_guards p @
     complain spawns (\<lambda>h _. \<not> bt_has joins h) (diag_warning ''E401'') @
     complain joins (\<lambda>h _. \<not> bt_has spawns h) (diag_error ''E402'') @
     complain asyncs (\<lambda>h _. \<not> bt_has awaits h) (diag_warning ''E403'') @
     complain awaits (\<lambda>h _. \<not> bt_has asyncs h) (diag_error ''E404'') @
     complain awaits (\<lambda>h _. bt_has spawns h \<and> \<not> bt_has asyncs h) (diag_error ''E405'') @
     complain joins (\<lambda>h _. bt_has asyncs h \<and> \<not> bt_has spawns h) (diag_error ''E406'') @
     complain joins (\<lambda>_ u. oi_fn_kind u = ''async'') (diag_warning ''E407'') @
     complain awaits (\<lambda>_ u. oi_fn_kind u \<noteq> ''async'') (diag_error ''E408''))"

end
