(* ===== verification/Val_Interface.thy ===== *)
theory Val_Interface
  imports Val_Resources
begin

text \<open>
  The concurrency interface of functions (\<open>src/src/validate/interface.rs\<close>, codes E801 to E804, E960
  and E961): lock effects, the inferred \<open>may_block\<close>, bounds, and imported signatures.
\<close>

subsection \<open>Which functions may block\<close>

definition blocking_bodies :: "'j program_decl \<Rightarrow> string list" where
  "blocking_bodies p = concat (map (\<lambda>m. map (\<lambda>f. fqn (md_name m) (fd_name f))
     (filter (\<lambda>f. fd_body f \<noteq> [] \<and> body_may_block f) (md_functions m))) (pg_modules p))"

definition calls_blocking :: "'j program_decl \<Rightarrow> string list \<Rightarrow> 'j module_decl \<Rightarrow> 'j function_decl \<Rightarrow> bool" where
  "calls_blocking p blk m f = list_ex (\<lambda>s. case sm_op s of
      AFunc func _ _ \<Rightarrow> (case lookup_function_decl p (md_name m) func of
          Some (owner, callee) \<Rightarrow> fqn (md_name owner) (fd_name callee) \<in> set blk | None \<Rightarrow> False)
    | _ \<Rightarrow> False) (fd_body f)"

definition may_block_visit ::
  "'j program_decl \<Rightarrow> 'j module_decl \<Rightarrow> 'j function_decl \<Rightarrow> string list \<times> bool \<Rightarrow> string list \<times> bool" where
  "may_block_visit p m f st = (case st of (blk, changed) \<Rightarrow>
     let fq = fqn (md_name m) (fd_name f) in
     if fq \<in> set blk \<or> fd_body f = [] then (blk, changed)
     else if calls_blocking p blk m f then (fq # blk, True) else (blk, changed))"

definition may_block_round :: "'j program_decl \<Rightarrow> string list \<Rightarrow> string list \<times> bool" where
  "may_block_round p blk = fold (\<lambda>m. fold (may_block_visit p m) (md_functions m)) (pg_modules p) (blk, False)"

text \<open>\<open>loop\<close> until a round changes nothing; \<open>None\<close> would be an endless loop.\<close>

partial_function (option) may_block_loop :: "'j program_decl \<Rightarrow> string list \<Rightarrow> string list option" where
  "may_block_loop p blk = (case may_block_round p blk of
      (blk', changed) \<Rightarrow> if changed then may_block_loop p blk' else Some blk')"

declare may_block_loop.simps [code]

definition may_block_functions :: "'j program_decl \<Rightarrow> string list option" where
  "may_block_functions p = may_block_loop p (blocking_bodies p)"

subsection \<open>Declared interfaces\<close>

definition check_lock_names ::
  "'j program_decl \<Rightarrow> res_type_map \<Rightarrow> 'j module_decl \<Rightarrow> 'j function_decl \<Rightarrow> string \<Rightarrow> string \<Rightarrow> string list \<Rightarrow> diagnostic list" where
  "check_lock_names p rts m f fpath field names = each (\<lambda>i n.
     let path = fpath @ at_index (''.locks.'' @ field) i; d = err_at path (fn_location m f) ''E801'' in
     report (n \<in> set (take i names)) d @
     (if lookup_resource_decl p (md_name m) n = None then [d]
      else (case (case bt_get rts n of Some rt \<Rightarrow> Some rt | None \<Rightarrow> bt_get rts (qualify (md_name m) n)) of
          None \<Rightarrow> [] | Some rt \<Rightarrow> report (\<not> is_lock_type rt) d))) names"

definition check_lock_effect_names ::
  "'j program_decl \<Rightarrow> res_type_map \<Rightarrow> 'j module_decl \<Rightarrow> 'j function_decl \<Rightarrow> string \<Rightarrow> diagnostic list" where
  "check_lock_effect_names p rts m f fpath =
     check_lock_names p rts m f fpath ''acquires'' (le_acquires (fd_locks f)) @
     check_lock_names p rts m f fpath ''releases'' (le_releases (fd_locks f)) @
     check_lock_names p rts m f fpath ''requires_held'' (le_requires_held (fd_locks f))"

definition check_may_block_vs_body ::
  "'j module_decl \<Rightarrow> 'j function_decl \<Rightarrow> string list \<Rightarrow> string \<Rightarrow> diagnostic list" where
  "check_may_block_vs_body m f blk fpath = (case fd_may_block f of
      None \<Rightarrow> []
    | Some declared \<Rightarrow>
        if fd_body f = [] then []
        else let inferred = fqn (md_name m) (fd_name f) \<in> set blk; path = fpath @ ''.may_block'' in
          if declared \<and> \<not> inferred then [warn_at path (fn_location m f) ''E802'']
          else if \<not> declared \<and> inferred then [err_at path (fn_location m f) ''E802''] else [])"

definition check_bound :: "'j module_decl \<Rightarrow> 'j function_decl \<Rightarrow> string \<Rightarrow> diagnostic list" where
  "check_bound m f fpath = (case fd_bound f of
      None \<Rightarrow> [] | Some b \<Rightarrow> report (b < 1) (err_at (fpath @ ''.bound'') (fn_location m f) ''E960''))"

definition check_declared_interfaces :: "'j program_decl \<Rightarrow> res_type_map \<Rightarrow> string list \<Rightarrow> diagnostic list" where
  "check_declared_interfaces p rts blk = each (\<lambda>mi m. each (\<lambda>fi f.
     check_lock_effect_names p rts m f (fn_path mi fi) @
     check_may_block_vs_body m f blk (fn_path mi fi) @
     check_bound m f (fn_path mi fi)) (md_functions m)) (pg_modules p)"

definition check_bound_on_sequential_only :: "'j program_decl \<Rightarrow> diagnostic list" where
  "check_bound_on_sequential_only p = (let spawned = concurrent_entry_callees p in
     each (\<lambda>mi m. each (\<lambda>fi f. report (fd_bound f \<noteq> None \<and> fqn (md_name m) (fd_name f) \<notin> set spawned)
       (warn_at (fn_path mi fi @ ''.bound'') (fn_location m f) ''E961'')) (md_functions m)) (pg_modules p))"

subsection \<open>Imported signatures\<close>

definition defined_may_block :: "string \<Rightarrow> string list \<Rightarrow> 'j function_decl \<Rightarrow> bool option" where
  "defined_may_block from_module blk f =
    (if fd_body f = [] then effective_may_block f else Some (fqn from_module (fd_name f) \<in> set blk))"

definition check_sig_against ::
  "string \<Rightarrow> string list \<Rightarrow> string \<Rightarrow> function_sig \<Rightarrow> 'j function_decl \<Rightarrow> diagnostic list" where
  "check_sig_against from_module blk path sg f =
     (case sg_kind sg of
        Some k \<Rightarrow> report (k \<noteq> fd_kind f) (with_path (path @ ''.kind'') (diag_error ''E804'')) | None \<Rightarrow> []) @
     (case (sg_may_block sg, defined_may_block from_module blk f) of
        (Some imported, Some defined) \<Rightarrow> report (imported \<noteq> defined) (with_path (path @ ''.may_block'') (diag_error ''E804''))
      | _ \<Rightarrow> []) @
     report (\<not> lock_effects_is_empty (sg_locks sg) \<and> sg_locks sg \<noteq> fd_locks f)
       (with_path (path @ ''.locks'') (diag_error ''E804'')) @
     report (sg_params sg \<noteq> [] \<and> sg_params sg \<noteq> fd_params f) (with_path (path @ ''.params'') (diag_error ''E804'')) @
     report (sg_returns sg \<noteq> None \<and> sg_returns sg \<noteq> fd_returns f) (with_path (path @ ''.returns'') (diag_error ''E804''))"

definition check_import_sig ::
  "'j program_decl \<Rightarrow> string list \<Rightarrow> nat \<Rightarrow> 'j module_decl \<Rightarrow> nat \<Rightarrow> required_function \<Rightarrow> diagnostic list" where
  "check_import_sig p blk mi m i req = (case required_sig req of
      None \<Rightarrow> []
    | Some sg \<Rightarrow>
        let path = at_index ''modules'' mi @ at_index ''.requires.functions'' i in
        if \<not> is_fqn (sg_name sg) then [with_path path (diag_error ''E804'')]
        else (case lookup_function_decl p (md_name m) (sg_name sg) of
            None \<Rightarrow> []
          | Some (_, f) \<Rightarrow> check_sig_against (md_name m) blk path sg f))"

definition check_import_sigs :: "'j program_decl \<Rightarrow> string list \<Rightarrow> diagnostic list" where
  "check_import_sigs p blk =
     each (\<lambda>mi m. each (check_import_sig p blk mi m) (rq_functions (md_requires m))) (pg_modules p)"

definition interface_check :: "'j program_decl \<Rightarrow> diagnostic list option" where
  "interface_check p = map_option (\<lambda>blk.
     check_declared_interfaces p (build_resource_type_map p) blk @
     check_import_sigs p blk @
     check_bound_on_sequential_only p) (may_block_functions p)"

end
