(* ===== verification/Val_Flow.thy ===== *)
theory Val_Flow
  imports Val_Base Lowering
begin

text \<open>
  The control-flow graph of a body (\<open>build_cfg\<close> of \<open>src/src/validate/locks.rs\<close>, repeated in
  \<open>control.rs\<close>) and the two searches over it: the depth-first worklist that the five lock analyses
  share, and the breadth-first marking of reachable statements. Both loops are \<open>option\<close>-valued, \<open>None\<close>
  for a loop without end, and both are proved to return.
\<close>

type_synonym cfg = "nat list list"

definition build_cfg :: "'j function_decl \<Rightarrow> cfg" where
  "build_cfg f = (let tab = index_names (map sm_sid (fd_body f)) in
     map (\<lambda>(i, s). List.map_filter (bt_get tab) (stmt_successors s (nth_opt (fd_body f) (Suc i))))
       (enumerate 0 (fd_body f)))"

text \<open>\<open>cfg.successors[idx]\<close>; every index the searches meet is in range (\<open>cfg_closed\<close>).\<close>

definition succ_at :: "cfg \<Rightarrow> nat \<Rightarrow> nat list" where
  "succ_at g i = (case nth_opt g i of Some js \<Rightarrow> js | None \<Rightarrow> [])"

subsection \<open>The worklist\<close>

text \<open>
  \<open>while let Some(x) = worklist.pop()\<close>: a state that was visited before is skipped, any other is
  visited and its successors are pushed. The top of the stack is the head of the list.
\<close>

partial_function (option) flow ::
  "('x \<Rightarrow> 'a \<Rightarrow> 'a) \<Rightarrow> ('x \<Rightarrow> 'x list) \<Rightarrow> 'x list \<Rightarrow> 'x list \<Rightarrow> 'a \<Rightarrow> 'a option" where
  "flow visit nexts visited work acc = (case work of
      [] \<Rightarrow> Some acc
    | x # rest \<Rightarrow>
        if x \<in> set visited then flow visit nexts visited rest acc
        else flow visit nexts (x # visited) (rev (nexts x) @ rest) (visit x acc))"

declare flow.simps [code]

lemma flow_Nil [simp]: "flow visit nexts visited [] acc = Some acc"
  by (subst flow.simps) simp

lemma flow_Cons:
  "flow visit nexts visited (x # rest) acc =
    (if x \<in> set visited then flow visit nexts visited rest acc
     else flow visit nexts (x # visited) (rev (nexts x) @ rest) (visit x acc))"
  by (subst flow.simps) simp

definition steps_to :: "('x \<Rightarrow> 'x list) \<Rightarrow> ('x \<times> 'x) set" where
  "steps_to nexts = {(x, y). y \<in> set (nexts x)}"

definition reached :: "('x \<Rightarrow> 'x list) \<Rightarrow> 'x list \<Rightarrow> 'x set" where
  "reached nexts starts = (steps_to nexts)\<^sup>* `` set starts"

lemma reached_closed:
  assumes "set starts \<subseteq> U" "\<And>x. x \<in> U \<Longrightarrow> set (nexts x) \<subseteq> U"
  shows "reached nexts starts \<subseteq> U"
proof -
  have "y \<in> U" if "(x, y) \<in> (steps_to nexts)\<^sup>*" "x \<in> U" for x y
    using that by (induction rule: rtrancl_induct) (use assms(2) in \<open>auto simp: steps_to_def\<close>)
  then show ?thesis using assms(1) by (auto simp: reached_def)
qed

lemma reached_start: "x \<in> set starts \<Longrightarrow> x \<in> reached nexts starts"
  by (auto simp: reached_def)

lemma reached_step: "x \<in> reached nexts starts \<Longrightarrow> y \<in> set (nexts x) \<Longrightarrow> y \<in> reached nexts starts"
  by (auto simp: reached_def steps_to_def intro: rtrancl_into_rtrancl)

text \<open>
  The loop visits every state that can be reached, each once, when there are finitely many: stated
  for any moment of the loop, with the visited states closed up to the stack.
\<close>

lemma flow_from:
  assumes "finite U" "set work \<subseteq> U" "\<And>x. x \<in> U \<Longrightarrow> set (nexts x) \<subseteq> U"
    and "\<And>x. x \<in> set visited \<Longrightarrow> set (nexts x) \<subseteq> set visited \<union> set work"
  shows "\<exists>xs. distinct xs \<and> set xs \<inter> set visited = {} \<and> set xs \<subseteq> reached nexts work \<and>
    set work \<subseteq> set xs \<union> set visited \<and> (\<forall>x\<in>set xs \<union> set visited. set (nexts x) \<subseteq> set xs \<union> set visited) \<and>
    flow visit nexts visited work acc = Some (fold visit xs acc)"
  using assms
proof (induction "card (U - set visited)" arbitrary: visited work acc rule: less_induct)
  case less
  note outer = less.hyps
  from less.prems(2-) show ?case
  proof (induction work)
    case Nil
    then show ?case by (intro exI [of _ "[]"]) auto
  next
    case (Cons x rest)
    show ?case
    proof (cases "x \<in> set visited")
      case True
      then have "\<And>y. y \<in> set visited \<Longrightarrow> set (nexts y) \<subseteq> set visited \<union> set rest"
        using Cons.prems(3) by auto
      with Cons.IH Cons.prems(1,2) obtain xs where xs: "distinct xs" "set xs \<inter> set visited = {}"
        "set xs \<subseteq> reached nexts rest" "set rest \<subseteq> set xs \<union> set visited"
        "\<forall>y\<in>set xs \<union> set visited. set (nexts y) \<subseteq> set xs \<union> set visited"
        "flow visit nexts visited rest acc = Some (fold visit xs acc)"
        by (metis insert_subset list.simps(15))
      moreover have "reached nexts rest \<subseteq> reached nexts (x # rest)" by (auto simp: reached_def)
      ultimately show ?thesis using True by (intro exI [of _ xs]) (auto simp: flow_Cons)
    next
      case False
      have xU: "x \<in> U" using Cons.prems(1) by simp
      have "U - set (x # visited) \<subset> U - set visited" using False xU by auto
      then have less: "card (U - set (x # visited)) < card (U - set visited)"
        by (rule psubset_card_mono [rotated]) (simp add: \<open>finite U\<close>)
      have "\<exists>xs. distinct xs \<and> set xs \<inter> set (x # visited) = {} \<and> set xs \<subseteq> reached nexts (rev (nexts x) @ rest) \<and>
        set (rev (nexts x) @ rest) \<subseteq> set xs \<union> set (x # visited) \<and>
        (\<forall>y\<in>set xs \<union> set (x # visited). set (nexts y) \<subseteq> set xs \<union> set (x # visited)) \<and>
        flow visit nexts (x # visited) (rev (nexts x) @ rest) (visit x acc) = Some (fold visit xs (visit x acc))"
      proof (rule outer [OF less \<open>finite U\<close>])
        show "set (rev (nexts x) @ rest) \<subseteq> U" using Cons.prems(1) Cons.prems(2) [OF xU] by auto
        show "set (nexts y) \<subseteq> set (x # visited) \<union> set (rev (nexts x) @ rest)" if "y \<in> set (x # visited)" for y
          using that Cons.prems(3) [of y] by auto
      qed (rule Cons.prems(2))
      then obtain xs where xs: "distinct xs" "set xs \<inter> set (x # visited) = {}"
        "set xs \<subseteq> reached nexts (rev (nexts x) @ rest)" "set (rev (nexts x) @ rest) \<subseteq> set xs \<union> set (x # visited)"
        "\<forall>y\<in>set xs \<union> set (x # visited). set (nexts y) \<subseteq> set xs \<union> set (x # visited)"
        "flow visit nexts (x # visited) (rev (nexts x) @ rest) (visit x acc) = Some (fold visit xs (visit x acc))"
        by blast
      have "reached nexts (rev (nexts x) @ rest) \<subseteq> reached nexts (x # rest)"
      proof (rule reached_closed)
        have "x \<in> reached nexts (x # rest)" by (rule reached_start) simp
        then show "set (rev (nexts x) @ rest) \<subseteq> reached nexts (x # rest)"
          by (auto intro: reached_start reached_step [where nexts = nexts and x = x])
        show "set (nexts y) \<subseteq> reached nexts (x # rest)" if "y \<in> reached nexts (x # rest)" for y
          using that by (auto intro: reached_step [where nexts = nexts])
      qed
      with xs False show ?thesis
        by (intro exI [of _ "x # xs"]) (auto simp: flow_Cons intro: reached_start)
    qed
  qed
qed

text \<open>From the start: the visits are an enumeration of the reachable states.\<close>

lemma flow_reaches:
  fixes work :: "'x list"
  assumes "finite U" "set work \<subseteq> U" "\<And>x. x \<in> U \<Longrightarrow> set (nexts x) \<subseteq> U"
  obtains xs where "distinct xs" "set xs = reached nexts work" "flow visit nexts [] work acc = Some (fold visit xs acc)"
proof -
  have "\<exists>xs. distinct xs \<and> set xs \<inter> set ([] :: 'x list) = {} \<and> set xs \<subseteq> reached nexts work \<and>
    set work \<subseteq> set xs \<union> set [] \<and> (\<forall>x\<in>set xs \<union> set []. set (nexts x) \<subseteq> set xs \<union> set []) \<and>
    flow visit nexts [] work acc = Some (fold visit xs acc)"
    by (rule flow_from [where U = U]) (use assms in auto)
  then obtain xs where xs: "distinct xs" "set xs \<subseteq> reached nexts work"
    "set work \<subseteq> set xs" "\<forall>x\<in>set xs. set (nexts x) \<subseteq> set xs" "flow visit nexts [] work acc = Some (fold visit xs acc)"
    by auto
  have "reached nexts work \<subseteq> set xs" by (rule reached_closed) (use xs in auto)
  with xs that show thesis by blast
qed

subsection \<open>Breadth-first marking\<close>

definition bfs_mark :: "nat \<Rightarrow> nat list \<times> nat list \<Rightarrow> nat list \<times> nat list" where
  "bfs_mark j st = (case st of (seen, queue) \<Rightarrow>
     if j \<in> set seen then (seen, queue) else (j # seen, queue @ [j]))"

partial_function (option) bfs :: "cfg \<Rightarrow> nat list \<Rightarrow> nat list \<Rightarrow> nat list option" where
  "bfs g seen queue = (case queue of
      [] \<Rightarrow> Some seen
    | i # rest \<Rightarrow> (case fold bfs_mark (succ_at g i) (seen, rest) of (seen', queue') \<Rightarrow> bfs g seen' queue'))"

declare bfs.simps [code]

lemma bfs_Nil [simp]: "bfs g seen [] = Some seen"
  by (subst bfs.simps) simp

lemma bfs_Cons:
  "bfs g seen (i # rest) =
    (case fold bfs_mark (succ_at g i) (seen, rest) of (seen', queue') \<Rightarrow> bfs g seen' queue')"
  by (subst bfs.simps) simp

text \<open>One round appends the successors that are not marked yet, each once.\<close>

lemma bfs_mark_simps:
  "j \<in> set seen \<Longrightarrow> bfs_mark j (seen, queue) = (seen, queue)"
  "j \<notin> set seen \<Longrightarrow> bfs_mark j (seen, queue) = (j # seen, queue @ [j])"
  by (simp_all add: bfs_mark_def)

lemma fold_bfs_mark:
  obtains new where "fold bfs_mark js (seen, queue) = (rev new @ seen, queue @ new)" "set new = set js - set seen"
proof -
  have "\<exists>new. fold bfs_mark js (seen, queue) = (rev new @ seen, queue @ new) \<and> set new = set js - set seen"
  proof (induction js arbitrary: seen queue)
    case (Cons j js)
    show ?case
    proof (cases "j \<in> set seen")
      case True
      from Cons.IH [of seen queue] obtain new where
        "fold bfs_mark js (seen, queue) = (rev new @ seen, queue @ new)" "set new = set js - set seen" by blast
      moreover from this(2) True have "set new = set (j # js) - set seen" by auto
      ultimately show ?thesis using True by (intro exI [of _ new] conjI) (simp_all add: bfs_mark_simps)
    next
      case False
      from Cons.IH [of "j # seen" "queue @ [j]"] obtain new where
        "fold bfs_mark js (j # seen, queue @ [j]) = (rev new @ j # seen, (queue @ [j]) @ new)"
        "set new = set js - set (j # seen)" by blast
      moreover from this(2) False have "set (j # new) = set (j # js) - set seen" by auto
      ultimately show ?thesis using False by (intro exI [of _ "j # new"] conjI) (simp_all add: bfs_mark_simps)
    qed
  qed simp
  with that show thesis by blast
qed

lemma bfs_from:
  assumes "finite U" "set seen \<subseteq> U" "\<And>i. i \<in> U \<Longrightarrow> set (succ_at g i) \<subseteq> U" "set queue \<subseteq> set seen"
    and "\<And>i. i \<in> set seen \<Longrightarrow> i \<in> set queue \<or> set (succ_at g i) \<subseteq> set seen"
  shows "\<exists>r. bfs g seen queue = Some r \<and> set seen \<subseteq> set r \<and> set r \<subseteq> reached (succ_at g) seen \<and>
    (\<forall>i\<in>set r. set (succ_at g i) \<subseteq> set r)"
  using assms
proof (induction "(card (U - set seen), length queue)" arbitrary: seen queue
    rule: wf_induct_rule [OF wf_lex_prod [OF wf_less_than wf_less_than]])
  case 1
  show ?case
  proof (cases queue)
    case Nil
    with "1.prems"(5) show ?thesis by (auto intro: reached_start)
  next
    case (Cons i rest)
    obtain new where new: "fold bfs_mark (succ_at g i) (seen, rest) = (rev new @ seen, rest @ new)"
      "set new = set (succ_at g i) - set seen" by (rule fold_bfs_mark)
    have iS: "i \<in> set seen" using Cons "1.prems"(4) by simp
    have newU: "set new \<subseteq> U" using new(2) "1.prems"(2,3) iS by blast
    have smaller: "((card (U - set (rev new @ seen)), length (rest @ new)), (card (U - set seen), length queue))
      \<in> less_than <*lex*> less_than"
    proof (cases new)
      case Nil
      then show ?thesis using Cons by simp
    next
      case (Cons j js)
      then have "j \<in> U - set seen" using newU new(2) by auto
      then have "U - set (rev new @ seen) \<subset> U - set seen" using Cons by auto
      then have "card (U - set (rev new @ seen)) < card (U - set seen)"
        by (rule psubset_card_mono [rotated]) (simp add: "1.prems"(1))
      then show ?thesis by simp
    qed
    have "\<exists>r. bfs g (rev new @ seen) (rest @ new) = Some r \<and> set (rev new @ seen) \<subseteq> set r \<and>
      set r \<subseteq> reached (succ_at g) (rev new @ seen) \<and> (\<forall>i\<in>set r. set (succ_at g i) \<subseteq> set r)"
    proof (rule "1.hyps" [OF smaller "1.prems"(1)])
      show "set (rev new @ seen) \<subseteq> U" using newU "1.prems"(2) by simp
      show "set (rest @ new) \<subseteq> set (rev new @ seen)" using "1.prems"(4) Cons by auto
      show "j \<in> set (rest @ new) \<or> set (succ_at g j) \<subseteq> set (rev new @ seen)" if "j \<in> set (rev new @ seen)" for j
        using that "1.prems"(5) [of j] Cons new(2) by (cases "j = i") auto
    qed (rule "1.prems"(3))
    then obtain r where r: "bfs g (rev new @ seen) (rest @ new) = Some r" "set (rev new @ seen) \<subseteq> set r"
      "set r \<subseteq> reached (succ_at g) (rev new @ seen)" "\<forall>i\<in>set r. set (succ_at g i) \<subseteq> set r" by blast
    have "reached (succ_at g) (rev new @ seen) \<subseteq> reached (succ_at g) seen"
    proof (rule reached_closed)
      show "set (rev new @ seen) \<subseteq> reached (succ_at g) seen"
        using new(2) iS by (auto intro: reached_start reached_step [where nexts = "succ_at g" and x = i])
      show "set (succ_at g j) \<subseteq> reached (succ_at g) seen" if "j \<in> reached (succ_at g) seen" for j
        using that by (auto intro: reached_step [where nexts = "succ_at g"])
    qed
    with r new(1) Cons show ?thesis by (auto simp: bfs_Cons)
  qed
qed

lemma bfs_reaches:
  assumes "finite U" "set starts \<subseteq> U" "\<And>i. i \<in> U \<Longrightarrow> set (succ_at g i) \<subseteq> U"
  obtains r where "bfs g starts starts = Some r" "set r = reached (succ_at g) starts"
proof -
  have "\<exists>r. bfs g starts starts = Some r \<and> set starts \<subseteq> set r \<and> set r \<subseteq> reached (succ_at g) starts \<and>
    (\<forall>i\<in>set r. set (succ_at g i) \<subseteq> set r)"
    by (rule bfs_from [where U = U]) (use assms in auto)
  then obtain r where r: "bfs g starts starts = Some r" "set starts \<subseteq> set r" "set r \<subseteq> reached (succ_at g) starts"
    "\<forall>i\<in>set r. set (succ_at g i) \<subseteq> set r" by blast
  have "reached (succ_at g) starts \<subseteq> set r" by (rule reached_closed) (use r in auto)
  with r that show thesis by blast
qed

subsection \<open>The graph of a body\<close>

lemma length_build_cfg [simp]: "length (build_cfg f) = length (fd_body f)"
  by (simp add: build_cfg_def Let_def)

lemma index_names_bound: "bt_get (index_names ns) n = Some i \<Longrightarrow> i < length ns \<and> ns ! i = n"
proof -
  have "bt_get (fold (\<lambda>(i, n). bt_insert n i) (enumerate k ns) tab) n = Some i \<Longrightarrow>
      (k \<le> i \<and> i < k + length ns \<and> ns ! (i - k) = n) \<or> bt_get tab n = Some i" for k tab
  proof (induction ns arbitrary: k tab)
    case (Cons a ns)
    from Cons.IH [of "Suc k" "bt_insert a k tab"] Cons.prems show ?case
      by (auto simp: Suc_le_eq nth_Cons' diff_Suc split: if_splits nat.splits)
  qed simp
  from this [of 0 "[]"] show "bt_get (index_names ns) n = Some i \<Longrightarrow> i < length ns \<and> ns ! i = n"
    by (simp add: index_names_def)
qed

lemma cfg_succ:
  "i < length (fd_body f) \<Longrightarrow> succ_at (build_cfg f) i = List.map_filter (bt_get (index_names (map sm_sid (fd_body f))))
     (stmt_successors (fd_body f ! i) (nth_opt (fd_body f) (Suc i)))"
  by (simp add: succ_at_def build_cfg_def Let_def nth_opt_def nth_enumerate_eq)

lemma cfg_closed: "j \<in> set (succ_at (build_cfg f) i) \<Longrightarrow> i < length (fd_body f) \<and> j < length (fd_body f)"
proof -
  assume j: "j \<in> set (succ_at (build_cfg f) i)"
  then have i: "i < length (fd_body f)"
    by (cases "nth_opt (build_cfg f) i") (auto simp: succ_at_def)
  with j obtain t where "bt_get (index_names (map sm_sid (fd_body f))) t = Some j"
    by (auto simp: cfg_succ map_filter_def)
  with i show ?thesis by (auto dest!: index_names_bound)
qed

end
