(* ===== verification/Val_Control.thy ===== *)
theory Val_Control
  imports Val_Flow
begin

text \<open>
  Control flow (\<open>src/src/validate/control.rs\<close>, codes E114 and E601 to E605), with the search for
  strongly connected components. The graph is the one of \<open>Val_Flow\<close>, which this file of the code
  builds a second time.
\<close>

definition check_fall_off_end :: "'j module_decl \<Rightarrow> 'j function_decl \<Rightarrow> string \<Rightarrow> diagnostic list" where
  "check_fall_off_end m f fpath =
     report (case fd_body f of
         [] \<Rightarrow> True
       | ss \<Rightarrow> (case sm_op (last ss) of
             AReturn _ \<Rightarrow> False | AGoto _ \<Rightarrow> False | ABranch _ _ _ \<Rightarrow> False | ASwitch _ _ _ \<Rightarrow> False | _ \<Rightarrow> True))
       (warn_at fpath (fn_location m f) ''E114'')"

definition at_stmt :: "'j module_decl \<Rightarrow> 'j function_decl \<Rightarrow> string \<Rightarrow> nat \<Rightarrow> diagnostic \<Rightarrow> diagnostic" where
  "at_stmt m f fpath i d = anchored (fpath @ at_index ''.body'' i) (stmt_location m f (fd_body f ! i)) d"

lemma is_error_at_stmt [simp]: "is_error (at_stmt m f fpath i d) = is_error d"
  by (simp add: at_stmt_def)

definition check_reachability :: "'j module_decl \<Rightarrow> 'j function_decl \<Rightarrow> cfg \<Rightarrow> string \<Rightarrow> diagnostic list option" where
  "check_reachability m f g fpath = map_option (\<lambda>seen. each (\<lambda>i _.
     report (i \<notin> set seen) (at_stmt m f fpath i (diag_warning ''E601''))) (fd_body f)) (bfs g [0] [0])"

definition check_return_paths :: "'j module_decl \<Rightarrow> 'j function_decl \<Rightarrow> cfg \<Rightarrow> string \<Rightarrow> diagnostic list" where
  "check_return_paths m f g fpath = each (\<lambda>i s.
     report (succ_at g i = [] \<and> \<not> is_return s) (at_stmt m f fpath i (diag_error ''E602''))) (fd_body f)"

definition check_branch_targets_same :: "'j module_decl \<Rightarrow> 'j function_decl \<Rightarrow> string \<Rightarrow> diagnostic list" where
  "check_branch_targets_same m f fpath = each (\<lambda>i s. case sm_op s of
      ABranch _ t e \<Rightarrow> report (t = e) (at_stmt m f fpath i (diag_warning ''E603'')) | _ \<Rightarrow> []) (fd_body f)"

definition check_switch_exhaustive ::
  "'j module_decl \<Rightarrow> 'j function_decl \<Rightarrow> name_env \<Rightarrow> string \<Rightarrow> diagnostic list" where
  "check_switch_exhaustive m f env fpath = each (\<lambda>i s. case sm_op s of
      ASwitch v cases _ \<Rightarrow> (case env_ty env v of
          Some (EnumT vars) \<Rightarrow> report (filter (\<lambda>x. x \<notin> set (bt_keys cases)) vars \<noteq> [])
            (err_at (fpath @ at_index ''.body'' i @ ''.cases'') (stmt_location m f s) ''E604'')
        | _ \<Rightarrow> [])
    | _ \<Rightarrow> []) (fd_body f)"

subsection \<open>Strongly connected components\<close>

record tarjan =
  ta_counter :: nat
  ta_stack :: "nat list"
  ta_on_stack :: "bool list"
  ta_index :: "nat option list"
  ta_lowlink :: "nat list"
  ta_sccs :: "nat list list"

definition tarjan_init :: "nat \<Rightarrow> tarjan" where
  "tarjan_init n = \<lparr>ta_counter = 0, ta_stack = [], ta_on_stack = replicate n False,
     ta_index = replicate n None, ta_lowlink = replicate n 0, ta_sccs = []\<rparr>"

text \<open>The top of the stack is the head of its list. Panics are indices out of range and failed \<open>unwrap\<close>s.\<close>

definition tarjan_enter :: "nat \<Rightarrow> tarjan \<Rightarrow> tarjan" where
  "tarjan_enter v s = s\<lparr>ta_index := (ta_index s)[v := Some (ta_counter s)],
     ta_lowlink := (ta_lowlink s)[v := ta_counter s], ta_counter := Suc (ta_counter s),
     ta_stack := v # ta_stack s, ta_on_stack := (ta_on_stack s)[v := True]\<rparr>"

definition tarjan_lower :: "nat \<Rightarrow> nat \<Rightarrow> tarjan \<Rightarrow> (unit, tarjan) outc" where
  "tarjan_lower v k s = rbind (index (ta_lowlink s) v) (\<lambda>l.
     Ok (s\<lparr>ta_lowlink := (ta_lowlink s)[v := min l k]\<rparr>))"

definition tarjan_edge :: "(nat \<Rightarrow> tarjan \<Rightarrow> (unit, tarjan) outc) \<Rightarrow> nat \<Rightarrow> nat \<Rightarrow> tarjan \<Rightarrow> (unit, tarjan) outc" where
  "tarjan_edge connect v w s = rbind (index (ta_index s) w) (\<lambda>iw. case iw of
      None \<Rightarrow> rbind (connect w s) (\<lambda>s. rbind (index (ta_lowlink s) w) (\<lambda>l. tarjan_lower v l s))
    | Some k \<Rightarrow> rbind (index (ta_on_stack s) w) (\<lambda>on. if on then tarjan_lower v k s else Ok s))"

text \<open>Pops up to and including \<open>v\<close>; a panic when \<open>v\<close> is not there.\<close>

fun pop_component :: "nat \<Rightarrow> nat list \<Rightarrow> nat list \<Rightarrow> (unit, nat list \<times> nat list) outc" where
  "pop_component v [] scc = Panic"
| "pop_component v (w # stack) scc =
    (if w = v then Ok (scc @ [w], stack) else pop_component v stack (scc @ [w]))"

definition tarjan_leave :: "nat \<Rightarrow> tarjan \<Rightarrow> (unit, tarjan) outc" where
  "tarjan_leave v s =
     rbind (index (ta_lowlink s) v) (\<lambda>l.
     rbind (rbind (index (ta_index s) v) unwrap) (\<lambda>i.
       if l \<noteq> i then Ok s
       else rbind (pop_component v (ta_stack s) []) (\<lambda>(scc, stack).
         Ok (s\<lparr>ta_stack := stack, ta_on_stack := fold (\<lambda>w on. on[w := False]) scc (ta_on_stack s),
               ta_sccs := ta_sccs s @ [scc]\<rparr>))))"

text \<open>
  The recursion descends into vertices without an index and gives one to each, so its depth is at
  most the number of vertices; \<open>Err ()\<close> stands for exhausted fuel.
\<close>

fun strongconnect :: "nat \<Rightarrow> cfg \<Rightarrow> nat \<Rightarrow> tarjan \<Rightarrow> (unit, tarjan) outc" where
  "strongconnect 0 g v s = Err ()"
| "strongconnect (Suc fuel) g v s =
     rbind (index g v) (\<lambda>ws.
     rbind (foldM (\<lambda>w s. tarjan_edge (strongconnect fuel g) v w s) ws (tarjan_enter v s)) (tarjan_leave v))"

definition tarjan_scc :: "cfg \<Rightarrow> (unit, nat list list) outc" where
  "tarjan_scc g =
     rbind (foldM (\<lambda>v s. rbind (index (ta_index s) v) (\<lambda>i.
         if i = None then strongconnect (length g) g v s else Ok s)) [0..<length g] (tarjan_init (length g)))
       (\<lambda>s. Ok (ta_sccs s))"

subsection \<open>Loops without an exit\<close>

definition loop_without_exit :: "'j function_decl \<Rightarrow> cfg \<Rightarrow> nat list \<Rightarrow> bool" where
  "loop_without_exit f g scc \<longleftrightarrow>
     \<not> (length scc < 2 \<and> hd scc \<notin> set (succ_at g (hd scc))) \<and>
     \<not> list_ex (\<lambda>i. list_ex (\<lambda>j. j \<notin> set scc) (succ_at g i) \<or> is_return (fd_body f ! i)) scc \<and>
     \<not> list_ex (\<lambda>i. is_blocking (sm_op (fd_body f ! i))) scc"

definition check_infinite_loop :: "'j module_decl \<Rightarrow> 'j function_decl \<Rightarrow> cfg \<Rightarrow> string \<Rightarrow> diagnostic list option" where
  "check_infinite_loop m f g fpath = (case tarjan_scc g of
      Ok sccs \<Rightarrow> Some (concat (map (\<lambda>scc. report (loop_without_exit f g scc)
          (at_stmt m f fpath (hd scc) (diag_warning ''E605''))) sccs))
    | _ \<Rightarrow> None)"

subsection \<open>The pass\<close>

text \<open>\<open>each\<close> for checks that might not return.\<close>

definition each_opt :: "(nat \<Rightarrow> 'a \<Rightarrow> 'b list option) \<Rightarrow> 'a list \<Rightarrow> 'b list option" where
  "each_opt f xs = map_option concat (those (map (\<lambda>(i, x). f i x) (enumerate 0 xs)))"

definition opt_append :: "'b list option \<Rightarrow> 'b list option \<Rightarrow> 'b list option" where
  "opt_append a b = Option.bind a (\<lambda>xs. map_option (\<lambda>ys. xs @ ys) b)"

definition check_function_control :: "'j program_decl \<Rightarrow> nat \<Rightarrow> 'j module_decl \<Rightarrow> nat \<Rightarrow> 'j function_decl \<Rightarrow> diagnostic list option" where
  "check_function_control p mi m fi f =
    (let fpath = fn_path mi fi; g = build_cfg f; fall = check_fall_off_end m f fpath in
     if fd_body f = [] then Some fall
     else opt_append (Some fall)
       (opt_append (check_reachability m f g fpath)
         (opt_append (Some (check_return_paths m f g fpath @ check_branch_targets_same m f fpath @
             check_switch_exhaustive m f (build_env p m f) fpath))
           (check_infinite_loop m f g fpath))))"

definition control_check :: "'j program_decl \<Rightarrow> diagnostic list option" where
  "control_check p = each_opt (\<lambda>mi m. each_opt (check_function_control p mi m) (md_functions m)) (pg_modules p)"

end
