(* ===== verification/Val_Locks.thy ===== *)
theory Val_Locks
  imports Val_Control Val_Resources
begin

text \<open>
  Lock safety along the paths of a body (\<open>src/src/validate/locks.rs\<close>, codes E309, E501 to E505, E512
  and E803). A state of the analyses is a statement with the sorted set of the locks held before it;
  locks are named by qualified names.
\<close>

definition canonical_resource :: "'j program_decl \<Rightarrow> string \<Rightarrow> string option" where
  "canonical_resource p n = map_option (\<lambda>(owner, r). fqn (md_name owner) (rc_name r)) (lookup_resource_decl p [] n)"

definition canonical_from :: "'j program_decl \<Rightarrow> string \<Rightarrow> string \<Rightarrow> string" where
  "canonical_from p m n = (case lookup_resource_decl p m n of
      Some (owner, r) \<Rightarrow> fqn (md_name owner) (rc_name r) | None \<Rightarrow> n)"

text \<open>Inputs of the analyses: all locks, the locks of mode \<open>Sync\<close>, the protecting locks.\<close>

definition lock_resources :: "'j program_decl \<Rightarrow> string list" where
  "lock_resources p = List.map_filter (\<lambda>(k, rt). if is_lock_type rt then canonical_resource p k else None)
     (build_resource_type_map p)"

definition sync_lock_resources :: "'j program_decl \<Rightarrow> string list" where
  "sync_lock_resources p = map rc_name (filter (\<lambda>r. rc_kind r = ''sync'' \<and>
       (rc_type r = ''Mutex'' \<or> rc_type r = ''RwLock'') \<and> rc_mode r = Some ''Sync'')
     (concat (map md_resources (pg_modules p))))"

definition protection_map :: "'j program_decl \<Rightarrow> (string, string) btree" where
  "protection_map p = fold (\<lambda>m. fold (\<lambda>po tab.
       case (lookup_resource_decl p (md_name m) (po_var po), lookup_resource_decl p (md_name m) (po_lock po)) of
         (Some (vo, v), Some (lo, l)) \<Rightarrow> bt_insert (fqn (md_name vo) (rc_name v)) (fqn (md_name lo) (rc_name l)) tab
       | _ \<Rightarrow> tab) (md_protection m)) (pg_modules p) []"

definition entry_held :: "'j program_decl \<Rightarrow> 'j module_decl \<Rightarrow> 'j function_decl \<Rightarrow> string list" where
  "entry_held p m f = fold bs_insert (map (\<lambda>n. case canonical_resource p (qualify (md_name m) n) of
      Some c \<Rightarrow> c | None \<Rightarrow> n) (le_requires_held (fd_locks f))) []"

subsection \<open>The walk over the paths\<close>

text \<open>The locks held after an operation, as far as they are tracked.\<close>

definition lock_transfer :: "(string \<Rightarrow> bool) \<Rightarrow> (string \<Rightarrow> string) \<Rightarrow> op \<Rightarrow> string list \<Rightarrow> string list" where
  "lock_transfer tracked canon x held = (case is_lock_acquire x of
      Some r \<Rightarrow> if tracked (canon r) then bs_insert (canon r) held else held
    | None \<Rightarrow> (case is_lock_release x of
        Some r \<Rightarrow> if tracked (canon r) then bs_remove (canon r) held else held
      | None \<Rightarrow> held))"

definition lock_nexts ::
  "'j function_decl \<Rightarrow> cfg \<Rightarrow> (op \<Rightarrow> string list \<Rightarrow> string list) \<Rightarrow> nat \<times> string list \<Rightarrow> (nat \<times> string list) list" where
  "lock_nexts f g transfer = (\<lambda>(i, held). map (\<lambda>j. (j, transfer (sm_op (fd_body f ! i)) held)) (succ_at g i))"

definition lock_flow ::
  "'j function_decl \<Rightarrow> cfg \<Rightarrow> (op \<Rightarrow> string list \<Rightarrow> string list) \<Rightarrow> string list
     \<Rightarrow> (nat \<Rightarrow> string list \<Rightarrow> 'a \<Rightarrow> 'a) \<Rightarrow> 'a \<Rightarrow> 'a option" where
  "lock_flow f g transfer entry visit acc =
     flow (\<lambda>(i, held). visit i held) (lock_nexts f g transfer) [] [(0, entry)] acc"

text \<open>The analyses that only push diagnostics.\<close>

definition lock_diags ::
  "'j function_decl \<Rightarrow> cfg \<Rightarrow> (op \<Rightarrow> string list \<Rightarrow> string list) \<Rightarrow> string list
     \<Rightarrow> (nat \<Rightarrow> string list \<Rightarrow> diagnostic list) \<Rightarrow> diagnostic list option" where
  "lock_diags f g transfer entry diags_of =
     lock_flow f g transfer entry (\<lambda>i held ds. ds @ diags_of i held) []"

text \<open>The analyses that report a statement and a name at most once: the accumulator has the reported pairs.\<close>

definition report_once ::
  "nat \<Rightarrow> string \<times> diagnostic \<Rightarrow> (nat \<times> string) list \<times> diagnostic list \<Rightarrow> (nat \<times> string) list \<times> diagnostic list" where
  "report_once i nd acc = (if (i, fst nd) \<in> set (fst acc) then acc
     else ((i, fst nd) # fst acc, snd acc @ [snd nd]))"

definition lock_reports ::
  "'j function_decl \<Rightarrow> cfg \<Rightarrow> (op \<Rightarrow> string list \<Rightarrow> string list) \<Rightarrow> string list
     \<Rightarrow> (nat \<Rightarrow> string list \<Rightarrow> (string \<times> diagnostic) list) \<Rightarrow> diagnostic list option" where
  "lock_reports f g transfer entry missing =
     map_option snd (lock_flow f g transfer entry (\<lambda>i held. fold (report_once i) (missing i held)) ([], []))"

subsection \<open>Pairing of lock and unlock\<close>

definition pairing_diags ::
  "'j program_decl \<Rightarrow> 'j module_decl \<Rightarrow> 'j function_decl \<Rightarrow> string list \<Rightarrow> string list \<Rightarrow> string
     \<Rightarrow> nat \<Rightarrow> string list \<Rightarrow> diagnostic list" where
  "pairing_diags p m f locks entry fpath i held =
    (let s = fd_body f ! i; x = sm_op s; canon = canonical_from p (md_name m);
         after = lock_transfer (\<lambda>l. l \<in> set locks) canon x held in
     (case is_lock_acquire x of
        Some r \<Rightarrow> report (canon r \<in> set locks \<and> canon r \<in> set held) (at_stmt m f fpath i (diag_error ''E503''))
      | None \<Rightarrow> (case is_lock_release x of
          Some r \<Rightarrow> report (canon r \<in> set locks \<and> canon r \<notin> set held) (at_stmt m f fpath i (diag_error ''E502''))
        | None \<Rightarrow> [])) @
     (if is_return s then map (\<lambda>_. at_stmt m f fpath i (diag_error ''E501'')) (filter (\<lambda>l. l \<notin> set entry) after)
      else []))"

definition check_lock_drop_pairing ::
  "'j program_decl \<Rightarrow> 'j module_decl \<Rightarrow> 'j function_decl \<Rightarrow> cfg \<Rightarrow> string list \<Rightarrow> string list \<Rightarrow> string \<Rightarrow> diagnostic list option" where
  "check_lock_drop_pairing p m f g locks entry fpath =
    (if fd_body f = [] then Some []
     else lock_diags f g (lock_transfer (\<lambda>l. l \<in> set locks) (canonical_from p (md_name m))) entry
       (pairing_diags p m f locks entry fpath))"

subsection \<open>Sync locks across await\<close>

definition check_sync_lock_across_await ::
  "'j program_decl \<Rightarrow> 'j module_decl \<Rightarrow> 'j function_decl \<Rightarrow> cfg \<Rightarrow> string list \<Rightarrow> string list \<Rightarrow> string \<Rightarrow> diagnostic list option" where
  "check_sync_lock_across_await p m f g sync_locks entry fpath =
    (if fd_kind f \<noteq> ''async'' \<or> sync_locks = [] \<or> fd_body f = [] then Some []
     else let transfer = lock_transfer (\<lambda>l. l \<in> set sync_locks) (canonical_from p (md_name m)) in
       lock_diags f g transfer entry (\<lambda>i held. let x = sm_op (fd_body f ! i) in
         if is_await_like x then map (\<lambda>_. at_stmt m f fpath i (diag_error ''E504'')) (transfer x held) else []))"

subsection \<open>Lock order\<close>

text \<open>
  The orders in which complete paths acquire locks. The loop stops after \<open>max_iterations\<close> rounds,
  which is the first argument; a path ends at a return or where there is no successor.
\<close>

type_synonym order_state = "nat \<times> string list \<times> string list"

text \<open>One statement: the orders of paths that end here, and the states to push, the top first.\<close>

definition order_step ::
  "'j program_decl \<Rightarrow> 'j module_decl \<Rightarrow> 'j function_decl \<Rightarrow> cfg \<Rightarrow> string list
     \<Rightarrow> order_state \<Rightarrow> string list list \<times> order_state list" where
  "order_step p m f g locks = (\<lambda>(i, order, held).
     let s = fd_body f ! i; x = sm_op s; canon = canonical_from p (md_name m);
         order' = (case is_lock_acquire x of
             Some r \<Rightarrow> if canon r \<in> set locks \<and> canon r \<notin> set held then order @ [canon r] else order
           | None \<Rightarrow> order);
         held' = lock_transfer (\<lambda>l. l \<in> set locks) canon x held
     in (if (is_return s \<or> succ_at g i = []) \<and> 2 \<le> length order' then [order'] else [],
         if is_return s then [] else rev (map (\<lambda>j. (j, order', held')) (succ_at g i))))"

function order_loop ::
  "int \<Rightarrow> (order_state \<Rightarrow> string list list \<times> order_state list)
     \<Rightarrow> order_state list \<Rightarrow> order_state list \<Rightarrow> string list list \<Rightarrow> string list list" where
  "order_loop k nexts visited [] orders = orders"
| "order_loop k nexts visited (x # stack) orders =
    (if k \<le> 0 then orders
     else if x \<in> set visited then order_loop (k - 1) nexts visited stack orders
     else order_loop (k - 1) nexts (x # visited) (snd (nexts x) @ stack) (orders @ fst (nexts x)))"
  by pat_completeness auto
termination by (relation "measure (\<lambda>(k, _). nat k)") auto

fun position_of :: "'a \<Rightarrow> 'a list \<Rightarrow> nat option" where
  "position_of x [] = None"
| "position_of x (y # ys) = (if x = y then Some 0 else map_option Suc (position_of x ys))"

definition has_order_conflict :: "string list \<Rightarrow> string list \<Rightarrow> bool" where
  "has_order_conflict a b = list_ex (\<lambda>i. list_ex (\<lambda>j.
     case (position_of (a ! i) b, position_of (a ! j) b) of (Some p1, Some p2) \<Rightarrow> p2 < p1 | _ \<Rightarrow> False)
     [Suc i..<length a]) [0..<length a]"

definition set_of_order :: "string list \<Rightarrow> string list" where
  "set_of_order a = fold bs_insert a []"

text \<open>Each conflicting pair of orders once per pair of lock sets.\<close>

definition note_conflict ::
  "string list list \<Rightarrow> nat \<times> nat \<Rightarrow> (string list \<times> string list) list \<Rightarrow> (string list \<times> string list) list" where
  "note_conflict orders ij reported =
    (let a = orders ! fst ij; b = orders ! snd ij; key = (set_of_order a, set_of_order b) in
     if has_order_conflict a b \<and> key \<notin> set reported then reported @ [key] else reported)"

definition order_conflicts :: "string list list \<Rightarrow> (string list \<times> string list) list" where
  "order_conflicts orders = fold (note_conflict orders)
     (concat (map (\<lambda>i. map (Pair i) [Suc i..<length orders]) [0..<length orders])) []"

definition check_lock_ordering ::
  "'j program_decl \<Rightarrow> 'j module_decl \<Rightarrow> 'j function_decl \<Rightarrow> cfg \<Rightarrow> string list \<Rightarrow> string list \<Rightarrow> string \<Rightarrow> diagnostic list" where
  "check_lock_ordering p m f g locks entry fpath =
    (if fd_body f = [] then []
     else map (\<lambda>_. err_at fpath (fn_location m f) ''E505'')
       (order_conflicts (order_loop (int (length (fd_body f)) * 100) (order_step p m f g locks) [] [(0, entry, entry)] [])))"

subsection \<open>Locks that must be held\<close>

text \<open>Destinations that an operation writes.\<close>

definition written :: "string \<Rightarrow> string list" where
  "written dst = (if dst = ''_'' then [] else [dst])"

fun dst_writes :: "op \<Rightarrow> string list" where
  "dst_writes (AAtomicLoad _ dst) = written dst"
| "dst_writes (AAtomicCas _ _ _ dst) = written dst"
| "dst_writes (AChannelRecv _ dst) = written dst"
| "dst_writes (AReadShared _ (Some dst)) = written dst"
| "dst_writes (AFunc _ _ (Some dst)) = written dst"
| "dst_writes (ASelect branches _) =
     concat (map (\<lambda>b. case sb_guard b of GChannelRecv _ dst \<Rightarrow> written dst | _ \<Rightarrow> []) branches)"
| "dst_writes _ = []"

definition protected_var_accesses :: "op \<Rightarrow> name_env \<Rightarrow> string list" where
  "protected_var_accesses x env =
     (case shared_var_access x of Some (r, _) \<Rightarrow> [r] | None \<Rightarrow> []) @
     (case x of ASeqHole _ _ rs ws \<Rightarrow> rs @ ws | _ \<Rightarrow> []) @
     (case x of ASwitch v _ _ \<Rightarrow> (case bt_get env v of
          Some slot \<Rightarrow> if es_kind slot = SkVar then [v] else [] | None \<Rightarrow> []) | _ \<Rightarrow> []) @
     concat (map (\<lambda>txt. case parse_expr txt env of Ok e \<Rightarrow> value_resource_names env e | _ \<Rightarrow> []) (rvalue_exprs x)) @
     dst_writes x"

definition unprotected_accesses ::
  "'j program_decl \<Rightarrow> 'j module_decl \<Rightarrow> 'j function_decl \<Rightarrow> (string, string) btree \<Rightarrow> name_env \<Rightarrow> string
     \<Rightarrow> nat \<Rightarrow> string list \<Rightarrow> (string \<times> diagnostic) list" where
  "unprotected_accesses p m f protection env fpath i held = List.map_filter (\<lambda>r.
     let v = canonical_from p (md_name m) r in
     case bt_get protection v of
       Some lock \<Rightarrow> if lock \<in> set held then None else Some (v, at_stmt m f fpath i (diag_error ''E309''))
     | None \<Rightarrow> None) (protected_var_accesses (sm_op (fd_body f ! i)) env)"

definition check_var_access_without_lock ::
  "'j program_decl \<Rightarrow> 'j module_decl \<Rightarrow> 'j function_decl \<Rightarrow> cfg \<Rightarrow> (string, string) btree \<Rightarrow> string list \<Rightarrow> string
     \<Rightarrow> diagnostic list option" where
  "check_var_access_without_lock p m f g protection entry fpath =
    (if fd_body f = [] then Some []
     else lock_reports f g (lock_transfer (\<lambda>_. True) (canonical_from p (md_name m))) entry
       (unprotected_accesses p m f protection (build_env p m f) fpath))"

definition missing_required ::
  "'j program_decl \<Rightarrow> 'j module_decl \<Rightarrow> 'j function_decl \<Rightarrow> string \<Rightarrow> nat \<Rightarrow> string list \<Rightarrow> (string \<times> diagnostic) list" where
  "missing_required p m f fpath i held = (case sm_op (fd_body f ! i) of
      AFunc func _ _ \<Rightarrow> (case lookup_function_decl p (md_name m) func of
          Some (owner, callee) \<Rightarrow> map (\<lambda>n. (n, at_stmt m f fpath i (diag_error ''E803'')))
            (filter (\<lambda>n. fqn (md_name owner) n \<notin> set held) (le_requires_held (fd_locks callee)))
        | None \<Rightarrow> [])
    | _ \<Rightarrow> [])"

definition check_requires_held ::
  "'j program_decl \<Rightarrow> 'j module_decl \<Rightarrow> 'j function_decl \<Rightarrow> cfg \<Rightarrow> string list \<Rightarrow> string \<Rightarrow> diagnostic list option" where
  "check_requires_held p m f g entry fpath =
    (if fd_body f = [] then Some []
     else lock_reports f g (lock_transfer (\<lambda>_. True) (canonical_from p (md_name m))) entry
       (missing_required p m f fpath))"

definition missing_wait_lock ::
  "'j program_decl \<Rightarrow> 'j module_decl \<Rightarrow> 'j function_decl \<Rightarrow> string \<Rightarrow> nat \<Rightarrow> string list \<Rightarrow> (string \<times> diagnostic) list" where
  "missing_wait_lock p m f fpath i held = (case sm_op (fd_body f ! i) of
      ACondvarWait _ lock \<Rightarrow>
        if canonical_from p (md_name m) lock \<in> set held then []
        else [(lock, at_stmt m f fpath i (diag_error ''E512''))]
    | _ \<Rightarrow> [])"

definition check_condvar_ownership ::
  "'j program_decl \<Rightarrow> 'j module_decl \<Rightarrow> 'j function_decl \<Rightarrow> cfg \<Rightarrow> string list \<Rightarrow> string \<Rightarrow> diagnostic list option" where
  "check_condvar_ownership p m f g entry fpath =
    (if fd_body f = [] then Some []
     else lock_reports f g (lock_transfer (\<lambda>_. True) (canonical_from p (md_name m))) entry
       (missing_wait_lock p m f fpath))"

subsection \<open>The pass\<close>

definition check_function_locks :: "'j program_decl \<Rightarrow> nat \<Rightarrow> 'j module_decl \<Rightarrow> nat \<Rightarrow> 'j function_decl \<Rightarrow> diagnostic list option" where
  "check_function_locks p mi m fi f =
    (let g = build_cfg f; fpath = fn_path mi fi; entry = entry_held p m f in
     if fd_body f = [] then Some []
     else opt_append (check_lock_drop_pairing p m f g (lock_resources p) entry fpath)
       (opt_append (check_sync_lock_across_await p m f g (sync_lock_resources p) entry fpath)
       (opt_append (Some (check_lock_ordering p m f g (lock_resources p) entry fpath))
       (opt_append (check_var_access_without_lock p m f g (protection_map p) entry fpath)
       (opt_append (check_requires_held p m f g entry fpath)
         (check_condvar_ownership p m f g entry fpath))))))"

definition locks_check :: "'j program_decl \<Rightarrow> diagnostic list option" where
  "locks_check p = each_opt (\<lambda>mi m. each_opt (check_function_locks p mi m) (md_functions m)) (pg_modules p)"

end
