(* ===== verification/Validate.thy ===== *)
theory Validate
  imports Val_Names Val_Interface Val_Locks
begin

text \<open>
  The validator (\<open>src/src/validate/mod.rs\<close>): all passes in the order of the code, the warning W201,
  and the report.
\<close>

definition last_segment :: "string \<Rightarrow> string" where
  "last_segment s = (case split_once fqn_sep (rev s) of Some (a, _) \<Rightarrow> rev a | None \<Rightarrow> s)"

fun used_resources :: "op \<Rightarrow> string list" where
  "used_resources (ACondvarWait cv lk) = [cv, lk]"
| "used_resources (AAbstractStep rs ws _) = rs @ ws"
| "used_resources (ASeqHole _ _ rs ws) = rs @ ws"
| "used_resources x = (case op_resource_name x of Some r \<Rightarrow> [r] | None \<Rightarrow> [])"

definition module_uses :: "'j module_decl \<Rightarrow> string list" where
  "module_uses m = map last_segment (rq_resources (md_requires m) @
     concat (map (\<lambda>po. [po_var po, po_lock po]) (md_protection m)) @
     concat (map (\<lambda>f. concat (map (\<lambda>s. used_resources (sm_op s)) (fd_body f))) (md_functions m)))"

definition unused_resources :: "'j program_decl \<Rightarrow> diagnostic list" where
  "unused_resources p = concat (map (\<lambda>m. concat (map (\<lambda>r.
     report (rc_name r \<notin> set (module_uses m)) (with_location (fqn (md_name m) (rc_name r)) (diag_warning ''W201'')))
     (md_resources m))) (pg_modules p))"

definition validate :: "('j, 'x) json_kinds_scheme \<Rightarrow> 'j program_decl \<Rightarrow> validation_report option" where
  "validate A p =
     map_option (\<lambda>ds. \<lparr>vr_valid = \<not> list_ex is_error ds, vr_diagnostics = ds\<rparr>)
       (opt_append (Some (structure_check A p @ names_check p @ typedef_check p @ types_check p @
            compat_check p @ protection_check p @ concurrency_check p))
         (opt_append (locks_check p)
           (opt_append (interface_check p)
             (opt_append (control_check p)
               (Some (dataflow_check p @ unused_resources p))))))"

end
