(* ===== verification/Val_Path_Laws.thy ===== *)
theory Val_Path_Laws
  imports Val_Control Val_Locks
begin

text \<open>The control-flow checks return: the search for components never panics, and has enough fuel.\<close>

definition graph_of_size :: "nat \<Rightarrow> cfg \<Rightarrow> bool" where
  "graph_of_size n g \<longleftrightarrow> length g = n \<and> (\<forall>ws\<in>set g. \<forall>w\<in>set ws. w < n)"

definition tarjan_sized :: "nat \<Rightarrow> tarjan \<Rightarrow> bool" where
  "tarjan_sized n s \<longleftrightarrow> length (ta_index s) = n \<and> length (ta_lowlink s) = n \<and> length (ta_on_stack s) = n"

text \<open>The vertices without an index; the descent makes them fewer.\<close>

definition unindexed :: "tarjan \<Rightarrow> nat set" where
  "unindexed s = {v. v < length (ta_index s) \<and> ta_index s ! v = None}"

text \<open>What a step of the search keeps: sizes, indices that were given, and the stack below.\<close>

definition tarjan_after :: "nat \<Rightarrow> tarjan \<Rightarrow> tarjan \<Rightarrow> bool" where
  "tarjan_after n s t \<longleftrightarrow> tarjan_sized n t \<and> unindexed t \<subseteq> unindexed s \<and> (\<exists>pre. ta_stack t = pre @ ta_stack s)"

lemma finite_unindexed [simp]: "finite (unindexed s)"
  by (simp add: unindexed_def)

lemma tarjan_after_refl: "tarjan_sized n s \<Longrightarrow> tarjan_after n s s"
  by (simp add: tarjan_after_def)

lemma tarjan_after_trans: "tarjan_after n s t \<Longrightarrow> tarjan_after n t u \<Longrightarrow> tarjan_after n s u"
  by (auto simp: tarjan_after_def)

lemma tarjan_lower_ok:
  "tarjan_sized n s \<Longrightarrow> v < n \<Longrightarrow> \<exists>t. tarjan_lower v k s = Ok t \<and> tarjan_after n s t"
  by (auto simp: tarjan_lower_def tarjan_after_def tarjan_sized_def unindexed_def)

lemma pop_component_ok: "\<exists>scc pre'. pop_component v (pre @ v # rest) acc = Ok (scc, pre' @ rest)"
proof (induction pre arbitrary: acc)
  case (Cons w pre)
  show ?case
  proof (cases "w = v")
    case True
    then show ?thesis by (auto intro: exI [of _ "pre @ [v]"])
  next
    case False
    with Cons.IH show ?thesis by simp
  qed
qed (auto intro: exI [of _ "[]"])

lemma length_fold_update [simp]: "length (fold (\<lambda>w on. on[w := b]) ws on) = length on"
  by (induction ws arbitrary: on) auto

lemma tarjan_leave_ok:
  assumes "tarjan_sized n s" "v < n" "v \<notin> unindexed s" "ta_stack s = pre @ v # rest"
  shows "\<exists>t. tarjan_leave v s = Ok t \<and> tarjan_sized n t \<and> unindexed t = unindexed s \<and> (\<exists>pre. ta_stack t = pre @ rest)"
proof -
  from assms(1-3) obtain i where i: "ta_index s ! v = Some i" by (auto simp: unindexed_def tarjan_sized_def)
  obtain scc pre' where pop: "pop_component v (ta_stack s) [] = Ok (scc, pre' @ rest)"
    using pop_component_ok assms(4) by metis
  show ?thesis
  proof (cases "ta_lowlink s ! v = i")
    case True
    with i pop assms show ?thesis by (auto simp: tarjan_leave_def tarjan_sized_def unindexed_def index_def nth_opt_def)
  next
    case False
    with i assms show ?thesis
      by (auto simp: tarjan_leave_def tarjan_sized_def unindexed_def index_def nth_opt_def intro: exI [of _ "pre @ [v]"])
  qed
qed

lemma tarjan_enter_ok:
  assumes "tarjan_sized n s" "v < n" "v \<in> unindexed s"
  shows "tarjan_sized n (tarjan_enter v s)" "unindexed (tarjan_enter v s) = unindexed s - {v}"
    "ta_stack (tarjan_enter v s) = v # ta_stack s"
  using assms by (auto simp: tarjan_enter_def tarjan_sized_def unindexed_def nth_list_update)

lemma strongconnect_ok:
  assumes "graph_of_size n g"
  shows "tarjan_sized n s \<Longrightarrow> v \<in> unindexed s \<Longrightarrow> card (unindexed s) \<le> fuel \<Longrightarrow>
    \<exists>t. strongconnect fuel g v s = Ok t \<and> tarjan_after n s t"
proof (induction fuel arbitrary: v s)
  case 0
  then have "unindexed s = {}" by simp
  with 0 show ?case by simp
next
  case (Suc fuel)
  let ?e = "tarjan_enter v s"
  have v: "v < n" using Suc.prems(1,2) by (simp add: unindexed_def tarjan_sized_def)
  note enter = tarjan_enter_ok [OF Suc.prems(1) v Suc.prems(2)]
  have few: "card (unindexed ?e) \<le> fuel"
    using Suc.prems(2,3) enter(2) by (simp add: card_Diff_singleton)
  have edge: "\<exists>t. tarjan_edge (strongconnect fuel g) v w u = Ok t \<and> tarjan_after n ?e t"
    if u: "tarjan_after n ?e u" and w: "w < n" for u w
  proof -
    from u have su: "tarjan_sized n u" by (simp add: tarjan_after_def)
    show ?thesis
    proof (cases "ta_index u ! w")
      case None
      then have wu: "w \<in> unindexed u" using w su by (simp add: unindexed_def tarjan_sized_def)
      have "card (unindexed u) \<le> fuel"
        using u few card_mono [of "unindexed ?e" "unindexed u"] by (auto simp: tarjan_after_def)
      from Suc.IH [OF su wu this] obtain t where t: "strongconnect fuel g w u = Ok t" "tarjan_after n u t" by blast
      then have st: "tarjan_sized n t" by (simp add: tarjan_after_def)
      from tarjan_lower_ok [OF st v, of "ta_lowlink t ! w"] obtain t' where
        "tarjan_lower v (ta_lowlink t ! w) t = Ok t'" "tarjan_after n t t'" by blast
      with t None w su st u show ?thesis
        by (auto simp: tarjan_edge_def index_def nth_opt_def tarjan_sized_def intro: tarjan_after_trans)
    next
      case (Some k)
      from tarjan_lower_ok [OF su v, of k] obtain t' where "tarjan_lower v k u = Ok t'" "tarjan_after n u t'" by blast
      with Some w su u show ?thesis
        by (auto simp: tarjan_edge_def index_def nth_opt_def tarjan_sized_def intro: tarjan_after_trans)
    qed
  qed
  have loop: "\<exists>t. foldM (\<lambda>w s. tarjan_edge (strongconnect fuel g) v w s) ws u = Ok t \<and> tarjan_after n ?e t"
    if "\<forall>w\<in>set ws. w < n" "tarjan_after n ?e u" for ws u
    using that
  proof (induction ws arbitrary: u)
    case (Cons w ws)
    from edge [of u w] Cons.prems obtain t where "tarjan_edge (strongconnect fuel g) v w u = Ok t" "tarjan_after n ?e t"
      by auto
    with Cons.IH [of t] Cons.prems(1) show ?case by simp
  qed simp
  have gv: "v < length g" "\<forall>w\<in>set (g ! v). w < n" using assms v by (auto simp: graph_of_size_def)
  from loop [OF gv(2) tarjan_after_refl [OF enter(1)]] obtain t where
    t: "foldM (\<lambda>w s. tarjan_edge (strongconnect fuel g) v w s) (g ! v) ?e = Ok t" "tarjan_after n ?e t" by blast
  then obtain pre where "ta_stack t = pre @ v # ta_stack s" "tarjan_sized n t" "unindexed t \<subseteq> unindexed s - {v}"
    using enter(2,3) by (auto simp: tarjan_after_def)
  moreover from this tarjan_leave_ok [of n t v pre "ta_stack s"] v obtain t' where
    "tarjan_leave v t = Ok t'" "tarjan_sized n t'" "unindexed t' = unindexed t" "\<exists>pre. ta_stack t' = pre @ ta_stack s" by auto
  ultimately show ?case using t(1) gv(1) by (auto simp: tarjan_after_def index_def nth_opt_def)
qed

lemma tarjan_scc_returns:
  assumes "graph_of_size n g"
  shows "\<exists>sccs. tarjan_scc g = Ok sccs"
proof -
  have n: "length g = n" using assms by (simp add: graph_of_size_def)
  have "\<exists>t. foldM (\<lambda>v s. rbind (index (ta_index s) v) (\<lambda>i. if i = None then strongconnect n g v s else Ok s)) vs s = Ok t"
    if "\<forall>v\<in>set vs. v < n" "tarjan_sized n s" for vs s
    using that
  proof (induction vs arbitrary: s)
    case (Cons v vs)
    show ?case
    proof (cases "ta_index s ! v")
      case None
      have v: "v \<in> unindexed s" using None Cons.prems by (auto simp: unindexed_def tarjan_sized_def)
      have "card (unindexed s) \<le> card {..<n}" using Cons.prems(2)
        by (intro card_mono) (auto simp: unindexed_def tarjan_sized_def)
      with strongconnect_ok [OF assms Cons.prems(2) v, of n] obtain t where
        "strongconnect n g v s = Ok t" "tarjan_sized n t" by (auto simp: tarjan_after_def)
      with Cons.IH [of t] Cons.prems None show ?thesis by (auto simp: index_def nth_opt_def tarjan_sized_def)
    next
      case (Some k)
      with Cons show ?thesis by (auto simp: index_def nth_opt_def tarjan_sized_def)
    qed
  qed simp
  from this [of "[0..<n]" "tarjan_init n"] show ?thesis
    using n by (auto simp: tarjan_scc_def tarjan_sized_def tarjan_init_def)
qed

lemma build_cfg_sized: "graph_of_size (length (fd_body f)) (build_cfg f)"
proof -
  have "w < length (fd_body f)" if "ws \<in> set (build_cfg f)" "w \<in> set ws" for ws w
  proof -
    from that(1) obtain i where "i < length (build_cfg f)" "build_cfg f ! i = ws" by (auto simp: in_set_conv_nth)
    then have "succ_at (build_cfg f) i = ws" by (simp add: succ_at_def nth_opt_def)
    with that(2) cfg_closed [of w f i] show ?thesis by simp
  qed
  then show ?thesis by (auto simp: graph_of_size_def)
qed

subsection \<open>Reachable statements\<close>

lemma cfg_bfs:
  assumes "fd_body f \<noteq> []"
  obtains seen where "bfs (build_cfg f) [0] [0] = Some seen" "set seen = reached (succ_at (build_cfg f)) [0]"
  by (rule bfs_reaches [of "{..<length (fd_body f)}" "[0]" "build_cfg f"]) (use assms in \<open>auto dest: cfg_closed\<close>)

subsection \<open>The pass returns\<close>

lemma opt_append_Some: "opt_append (Some xs) (Some ys) = Some (xs @ ys)"
  by (simp add: opt_append_def)

lemma opt_append_eq_Some: "opt_append a b = Some zs \<longleftrightarrow> (\<exists>xs ys. a = Some xs \<and> b = Some ys \<and> zs = xs @ ys)"
  by (auto simp: opt_append_def bind_eq_Some_conv)

lemma each_opt_returns:
  assumes "\<And>i x. x \<in> set xs \<Longrightarrow> \<exists>ds. f i x = Some ds"
  shows "\<exists>ds. each_opt f xs = Some ds"
proof -
  have "those ys \<noteq> None" if "\<forall>y\<in>set ys. y \<noteq> None" for ys :: "'b list option list"
    using that by (induction ys) (auto split: option.splits)
  moreover have "\<forall>y\<in>set (map (\<lambda>(i, x). f i x) (enumerate 0 xs)). y \<noteq> None"
    using assms by (fastforce simp: in_set_enumerate_eq)
  ultimately show ?thesis by (fastforce simp: each_opt_def)
qed

lemma those_eq_Some: "those ys = Some zs \<longleftrightarrow> ys = map Some zs"
  by (induction ys arbitrary: zs) (auto split: option.splits)

lemma each_opt_elem:
  assumes "each_opt f xs = Some ds" "x \<in> set xs"
  obtains i es where "i < length xs" "xs ! i = x" "f i x = Some es" "set es \<subseteq> set ds"
proof -
  from assms(1) obtain zs where zs: "map (\<lambda>(i, x). f i x) (enumerate 0 xs) = map Some zs" "ds = concat zs"
    by (auto simp: each_opt_def those_eq_Some)
  from assms(2) obtain i where i: "i < length xs" "xs ! i = x" by (auto simp: in_set_conv_nth)
  then have "i < length zs" using arg_cong [OF zs(1), of length] by simp
  moreover from zs(1) i have "f i x = Some (zs ! i)"
    by (metis (mono_tags, lifting) case_prod_conv calculation length_enumerate nth_enumerate_eq nth_map plus_nat.add_0)
  moreover from calculation(1) have "set (zs ! i) \<subseteq> set ds" using zs(2) by (auto dest: nth_mem)
  ultimately show thesis using that i by blast
qed

lemma check_function_control_returns: "\<exists>ds. check_function_control p mi m fi f = Some ds"
proof (cases "fd_body f = []")
  case False
  from cfg_bfs [OF this] obtain seen where "bfs (build_cfg f) [0] [0] = Some seen" by blast
  moreover from tarjan_scc_returns [OF build_cfg_sized] obtain sccs where "tarjan_scc (build_cfg f) = Ok sccs" by blast
  ultimately show ?thesis using False
    by (simp add: check_function_control_def Let_def check_reachability_def check_infinite_loop_def opt_append_Some)
qed (simp add: check_function_control_def Let_def)

lemma control_check_returns: "\<exists>ds. control_check p = Some ds"
  unfolding control_check_def by (intro each_opt_returns check_function_control_returns)

section \<open>Lock analyses\<close>

text \<open>
  The lock analyses return, and what they report is what holds along the paths: a state is visited
  exactly when some path from the entry leads to it.
\<close>

subsection \<open>Paths with the locks they hold\<close>

text \<open>The specification: a statement and the set of locks held before it on some path from the entry.\<close>

inductive lock_path ::
  "'j function_decl \<Rightarrow> (op \<Rightarrow> string list \<Rightarrow> string list) \<Rightarrow> string list \<Rightarrow> nat \<Rightarrow> string list \<Rightarrow> bool"
  for f transfer entry where
  entry: "lock_path f transfer entry 0 entry"
| step: "lock_path f transfer entry i held \<Longrightarrow> j \<in> set (succ_at (build_cfg f) i) \<Longrightarrow>
    lock_path f transfer entry j (transfer (sm_op (fd_body f ! i)) held)"

lemma lock_path_reached:
  "(i, held) \<in> reached (lock_nexts f (build_cfg f) transfer) [(0, entry)] \<longleftrightarrow> lock_path f transfer entry i held"
proof
  assume "(i, held) \<in> reached (lock_nexts f (build_cfg f) transfer) [(0, entry)]"
  then have "((0, entry), (i, held)) \<in> (steps_to (lock_nexts f (build_cfg f) transfer))\<^sup>*"
    by (simp add: reached_def)
  then show "lock_path f transfer entry i held"
    by (induction "(i, held)" arbitrary: i held rule: rtrancl_induct)
      (auto simp: steps_to_def lock_nexts_def intro: lock_path.intros)
next
  assume "lock_path f transfer entry i held"
  then show "(i, held) \<in> reached (lock_nexts f (build_cfg f) transfer) [(0, entry)]"
  proof induction
    case entry
    then show ?case by (rule reached_start) simp
  next
    case (step i held j)
    from step.IH show ?case
      by (rule reached_step) (use step.hyps(2) in \<open>force simp: lock_nexts_def\<close>)
  qed
qed

lemma lock_path_in_body: "lock_path f transfer entry i held \<Longrightarrow> fd_body f \<noteq> [] \<Longrightarrow> i < length (fd_body f)"
  by (induction rule: lock_path.induct) (auto dest: cfg_closed)

subsection \<open>The analyses return\<close>

definition acquired_names :: "(string \<Rightarrow> string) \<Rightarrow> 'j function_decl \<Rightarrow> string set" where
  "acquired_names canon f = {canon r | r s. s \<in> set (fd_body f) \<and> is_lock_acquire (sm_op s) = Some r}"

lemma finite_acquired: "finite (acquired_names canon f)"
proof -
  have "acquired_names canon f \<subseteq> (\<lambda>s. canon (the (is_lock_acquire (sm_op s)))) ` set (fd_body f)"
    by (force simp: acquired_names_def)
  then show ?thesis by (rule finite_subset) simp
qed

definition lock_states :: "(string \<Rightarrow> string) \<Rightarrow> 'j function_decl \<Rightarrow> string list \<Rightarrow> (nat \<times> string list) set" where
  "lock_states canon f entry =
     {..<length (fd_body f)} \<times> {held. bs_ok held \<and> set held \<subseteq> set entry \<union> acquired_names canon f}"

lemma bs_ok_distinct: "bs_ok xs \<Longrightarrow> distinct xs"
  by (simp add: bs_ok_def strict_sorted_iff)

lemma finite_lock_states: "finite (lock_states canon f entry)"
proof -
  have "{held. bs_ok held \<and> set held \<subseteq> set entry \<union> acquired_names canon f} \<subseteq>
    {held. set held \<subseteq> set entry \<union> acquired_names canon f \<and> distinct held}"
    by (auto dest: bs_ok_distinct)
  moreover have "finite {held. set held \<subseteq> set entry \<union> acquired_names canon f \<and> distinct held}"
    by (rule finite_subset_distinct) (simp add: finite_acquired)
  ultimately show ?thesis unfolding lock_states_def by (auto intro: finite_subset)
qed

lemma transfer_states:
  assumes "bs_ok held" "set held \<subseteq> set entry \<union> acquired_names canon f" "i < length (fd_body f)"
  shows "bs_ok (lock_transfer tracked canon (sm_op (fd_body f ! i)) held) \<and>
    set (lock_transfer tracked canon (sm_op (fd_body f ! i)) held) \<subseteq> set entry \<union> acquired_names canon f"
proof -
  have "canon r \<in> acquired_names canon f" if "is_lock_acquire (sm_op (fd_body f ! i)) = Some r" for r
    using that assms(3) by (force simp: acquired_names_def)
  with assms(1,2) show ?thesis
    by (auto simp: lock_transfer_def bs_insert_ok bs_remove_ok split: option.splits)
qed

lemma lock_flow_returns:
  assumes "fd_body f \<noteq> []" "bs_ok entry"
  obtains xs where "distinct xs" "\<And>i held. (i, held) \<in> set xs \<longleftrightarrow> lock_path f (lock_transfer tracked canon) entry i held"
    "lock_flow f (build_cfg f) (lock_transfer tracked canon) entry visit acc = Some (fold (\<lambda>(i, held). visit i held) xs acc)"
proof -
  let ?nexts = "lock_nexts f (build_cfg f) (lock_transfer tracked canon)"
  have U: "set [(0, entry)] \<subseteq> lock_states canon f entry" using assms by (auto simp: lock_states_def)
  have closed: "set (?nexts x) \<subseteq> lock_states canon f entry" if "x \<in> lock_states canon f entry" for x
    using that transfer_states [of "snd x" entry canon f "fst x" tracked]
    by (auto simp: lock_states_def lock_nexts_def dest: cfg_closed)
  obtain xs where "distinct xs" "set xs = reached ?nexts [(0, entry)]"
    "flow (\<lambda>(i, held). visit i held) ?nexts [] [(0, entry)] acc = Some (fold (\<lambda>(i, held). visit i held) xs acc)"
    by (rule flow_reaches [OF finite_lock_states U closed])
  with that lock_path_reached show thesis by (simp add: lock_flow_def) blast
qed

text \<open>An analysis that pushes the diagnostics of every state it visits.\<close>

lemma lock_diags_exact:
  assumes "fd_body f \<noteq> []" "bs_ok entry"
  shows "\<exists>ds. lock_diags f (build_cfg f) (lock_transfer tracked canon) entry diags_of = Some ds \<and>
    (\<forall>d. d \<in> set ds \<longleftrightarrow> (\<exists>i held. lock_path f (lock_transfer tracked canon) entry i held \<and> d \<in> set (diags_of i held)))"
proof -
  obtain xs where xs: "\<And>i held. (i, held) \<in> set xs \<longleftrightarrow> lock_path f (lock_transfer tracked canon) entry i held"
    "lock_flow f (build_cfg f) (lock_transfer tracked canon) entry (\<lambda>i held ds. ds @ diags_of i held) [] =
       Some (fold (\<lambda>(i, held) ds. ds @ diags_of i held) xs [])"
    by (rule lock_flow_returns [OF assms, where visit = "\<lambda>i held ds. ds @ diags_of i held"]) (auto simp: case_prod_unfold)
  have "fold (\<lambda>(i, held) ds. ds @ diags_of i held) ys acc = acc @ concat (map (\<lambda>(i, held). diags_of i held) ys)" for ys acc
    by (induction ys arbitrary: acc) auto
  with xs(2) have "lock_diags f (build_cfg f) (lock_transfer tracked canon) entry diags_of =
    Some (concat (map (\<lambda>(i, held). diags_of i held) xs))" by (simp add: lock_diags_def)
  with xs(1) show ?thesis by force
qed

text \<open>An analysis that reports a name at a statement once; its diagnostics depend on these two.\<close>

lemma lock_reports_exact:
  assumes "fd_body f \<noteq> []" "bs_ok entry"
    and det: "\<And>i held n d. (n, d) \<in> set (missing i held) \<Longrightarrow> d = D i n"
  shows "\<exists>ds. lock_reports f (build_cfg f) (lock_transfer tracked canon) entry missing = Some ds \<and>
    (\<forall>d. d \<in> set ds \<longleftrightarrow> (\<exists>i held. lock_path f (lock_transfer tracked canon) entry i held \<and> d \<in> snd ` set (missing i held)))"
proof -
  let ?visit = "\<lambda>i held. fold (report_once i) (missing i held)"
  obtain xs where xs: "\<And>i held. (i, held) \<in> set xs \<longleftrightarrow> lock_path f (lock_transfer tracked canon) entry i held"
    "lock_flow f (build_cfg f) (lock_transfer tracked canon) entry ?visit ([], []) =
       Some (fold (\<lambda>(i, held). ?visit i held) xs ([], []))"
    by (rule lock_flow_returns [OF assms(1,2), where visit = ?visit]) auto
  define good where "good S acc \<longleftrightarrow> set (fst acc) = S \<and> set (snd acc) = (\<lambda>(i, n). D i n) ` S"
    for S and acc :: "(nat \<times> string) list \<times> diagnostic list"
  have one: "good (S \<union> (\<lambda>nd. (i, fst nd)) ` set ms) (fold (report_once i) ms acc)"
    if "good S acc" "\<forall>nd\<in>set ms. snd nd = D i (fst nd)" for S acc i and ms :: "(string \<times> diagnostic) list"
    using that
  proof (induction ms arbitrary: S acc)
    case (Cons nd ms)
    then have "good (Set.insert (i, fst nd) S) (report_once i nd acc)"
      by (auto simp: good_def report_once_def)
    from Cons.IH [OF this] Cons.prems(2) show ?case by simp
  qed simp
  have "good (S \<union> (\<Union>(i, held)\<in>set ys. (\<lambda>nd. (i, fst nd)) ` set (missing i held))) (fold (\<lambda>(i, held). ?visit i held) ys acc)"
    if "good S acc" for S acc ys
    using that
  proof (induction ys arbitrary: S acc)
    case (Cons y ys)
    obtain i held where y: "y = (i, held)" by (cases y)
    have "good (S \<union> (\<lambda>nd. (i, fst nd)) ` set (missing i held)) (?visit i held acc)"
      by (rule one [OF Cons.prems]) (use det in auto)
    from Cons.IH [OF this] y show ?case by (simp add: Un_assoc)
  qed simp
  from this [of "{}" "([], [])" xs] have good: "good (\<Union>(i, held)\<in>set xs. (\<lambda>nd. (i, fst nd)) ` set (missing i held))
    (fold (\<lambda>(i, held). ?visit i held) xs ([], []))" by (simp add: good_def)
  have img: "(\<lambda>nd. D i (fst nd)) ` set (missing i held) = snd ` set (missing i held)" for i held
    by (rule image_cong) (auto dest: det)
  have "set (snd (fold (\<lambda>(i, held). ?visit i held) xs ([], []))) = (\<Union>x\<in>set xs. snd ` set (missing (fst x) (snd x)))"
    using good by (simp add: good_def image_UN image_image split_def img)
  then have "d \<in> set (snd (fold (\<lambda>(i, held). ?visit i held) xs ([], []))) \<longleftrightarrow>
      (\<exists>i held. lock_path f (lock_transfer tracked canon) entry i held \<and> d \<in> snd ` set (missing i held))" for d
    by (auto simp: xs(1) [symmetric]) force+
  with xs(2) show ?thesis by (simp add: lock_reports_def)
qed

end
