(* ===== verification/Validate_Laws.thy ===== *)
theory Validate_Laws
  imports Validate Val_Path_Laws
begin

text \<open>
  The inferred \<open>may_block\<close> is the least set the code means, every pass returns, and what the report of
  an accepted program guarantees pass by pass.
\<close>

subsection \<open>Functions that may block\<close>

text \<open>The specification: a blocking operation in the body, or a call of a function that may block.\<close>

inductive may_block_fn :: "'j program_decl \<Rightarrow> string \<Rightarrow> bool" for p where
  own: "m \<in> set (pg_modules p) \<Longrightarrow> f \<in> set (md_functions m) \<Longrightarrow> body_may_block f \<Longrightarrow>
    may_block_fn p (fqn (md_name m) (fd_name f))"
| call: "m \<in> set (pg_modules p) \<Longrightarrow> f \<in> set (md_functions m) \<Longrightarrow> s \<in> set (fd_body f) \<Longrightarrow> sm_op s = AFunc func args dst \<Longrightarrow>
    lookup_function_decl p (md_name m) func = Some (owner, callee) \<Longrightarrow>
    may_block_fn p (fqn (md_name owner) (fd_name callee)) \<Longrightarrow> may_block_fn p (fqn (md_name m) (fd_name f))"

definition blk_sound :: "'j program_decl \<Rightarrow> string list \<Rightarrow> bool" where
  "blk_sound p blk \<longleftrightarrow> (\<forall>n\<in>set blk. may_block_fn p n)"

lemma calls_blocking_call:
  assumes "calls_blocking p blk m f"
  obtains s func args dst owner callee where "s \<in> set (fd_body f)" "sm_op s = AFunc func args dst"
    "lookup_function_decl p (md_name m) func = Some (owner, callee)" "fqn (md_name owner) (fd_name callee) \<in> set blk"
proof -
  from assms obtain s where "s \<in> set (fd_body f)" "case sm_op s of
      AFunc func _ _ \<Rightarrow> (case lookup_function_decl p (md_name m) func of
          Some (owner, callee) \<Rightarrow> fqn (md_name owner) (fd_name callee) \<in> set blk | None \<Rightarrow> False)
    | _ \<Rightarrow> False" by (auto simp: calls_blocking_def list_ex_iff)
  with that show thesis by (cases "sm_op s") (auto split: option.splits)
qed

lemma calls_blockingI:
  "s \<in> set (fd_body f) \<Longrightarrow> sm_op s = AFunc func args dst \<Longrightarrow> lookup_function_decl p (md_name m) func = Some (owner, callee) \<Longrightarrow>
    fqn (md_name owner) (fd_name callee) \<in> set blk \<Longrightarrow> calls_blocking p blk m f"
  by (force simp: calls_blocking_def list_ex_iff)

text \<open>What the visits of a round do to the set: it grows by names that may block, or stays and is closed.\<close>

definition blk_step :: "'j program_decl \<Rightarrow> string list \<times> bool \<Rightarrow> string list \<times> bool \<Rightarrow> bool" where
  "blk_step p st st' \<longleftrightarrow> set (fst st) \<subseteq> set (fst st') \<and> (blk_sound p (fst st) \<longrightarrow> blk_sound p (fst st')) \<and>
     (snd st \<longrightarrow> snd st') \<and> (\<not> snd st' \<longrightarrow> st' = st) \<and> (snd st' \<and> \<not> snd st \<longrightarrow> set (fst st) \<subset> set (fst st'))"

lemma blk_step_refl: "blk_step p st st"
  by (simp add: blk_step_def)

lemma blk_step_trans: "blk_step p st st' \<Longrightarrow> blk_step p st' st'' \<Longrightarrow> blk_step p st st''"
proof (cases "snd st''")
  case False
  assume a: "blk_step p st st'" and b: "blk_step p st' st''"
  from b False have "st'' = st'" by (simp add: blk_step_def)
  with a show ?thesis by simp
next
  case True
  assume a: "blk_step p st st'" and b: "blk_step p st' st''"
  show ?thesis
  proof (cases "snd st'")
    case True
    with a b show ?thesis unfolding blk_step_def by (meson psubset_subset_trans subset_trans)
  next
    case False
    with a have "st' = st" by (simp add: blk_step_def)
    with b show ?thesis by simp
  qed
qed

definition fn_closed :: "'j program_decl \<Rightarrow> string list \<Rightarrow> 'j module_decl \<Rightarrow> 'j function_decl \<Rightarrow> bool" where
  "fn_closed p blk m f \<longleftrightarrow> fqn (md_name m) (fd_name f) \<in> set blk \<or> fd_body f = [] \<or> \<not> calls_blocking p blk m f"

lemma may_block_visit_step:
  assumes "m \<in> set (pg_modules p)" "f \<in> set (md_functions m)"
  shows "blk_step p st (may_block_visit p m f st)"
    "\<not> snd (may_block_visit p m f st) \<Longrightarrow> fn_closed p (fst st) m f"
proof -
  obtain blk changed where st: "st = (blk, changed)" by (cases st)
  have "may_block_fn p (fqn (md_name m) (fd_name f))" if "blk_sound p blk" "calls_blocking p blk m f"
    using that(2) assms that(1) by (elim calls_blocking_call) (auto simp: blk_sound_def intro: may_block_fn.call)
  then show "blk_step p st (may_block_visit p m f st)"
    using st by (auto simp: blk_step_def may_block_visit_def Let_def blk_sound_def)
  show "\<not> snd (may_block_visit p m f st) \<Longrightarrow> fn_closed p (fst st) m f"
    using st by (auto simp: may_block_visit_def fn_closed_def Let_def split: if_splits)
qed

lemma may_block_fns_step:
  assumes "m \<in> set (pg_modules p)" "set fs \<subseteq> set (md_functions m)"
  shows "blk_step p st (fold (may_block_visit p m) fs st)"
    "\<not> snd (fold (may_block_visit p m) fs st) \<Longrightarrow> \<forall>f\<in>set fs. fn_closed p (fst st) m f"
proof -
  have "blk_step p st (fold (may_block_visit p m) fs st) \<and>
    (\<not> snd (fold (may_block_visit p m) fs st) \<longrightarrow> (\<forall>f\<in>set fs. fn_closed p (fst st) m f))"
    using assms(2)
  proof (induction fs arbitrary: st)
    case (Cons f fs)
    let ?st = "may_block_visit p m f st"
    have f: "blk_step p st ?st" "\<not> snd ?st \<Longrightarrow> fn_closed p (fst st) m f"
      using may_block_visit_step [OF assms(1)] Cons.prems by auto
    have rest: "blk_step p ?st (fold (may_block_visit p m) fs ?st)"
      "\<not> snd (fold (may_block_visit p m) fs ?st) \<Longrightarrow> \<forall>f\<in>set fs. fn_closed p (fst ?st) m f"
      using Cons.IH [of ?st] Cons.prems by auto
    from blk_step_trans [OF f(1) rest(1)] have step: "blk_step p st (fold (may_block_visit p m) (f # fs) st)" by simp
    moreover have "\<forall>g\<in>set (f # fs). fn_closed p (fst st) m g" if unch: "\<not> snd (fold (may_block_visit p m) (f # fs) st)"
    proof -
      from unch rest(1) have same: "\<not> snd ?st" by (auto simp: blk_step_def)
      with f(1) have "?st = st" by (simp add: blk_step_def)
      with rest(2) f(2) [OF same] unch show ?thesis by simp
    qed
    ultimately show ?case by blast
  qed (simp add: blk_step_refl)
  then show "blk_step p st (fold (may_block_visit p m) fs st)"
    "\<not> snd (fold (may_block_visit p m) fs st) \<Longrightarrow> \<forall>f\<in>set fs. fn_closed p (fst st) m f" by auto
qed

lemma may_block_round_step:
  "blk_step p (blk, False) (may_block_round p blk)"
  "\<not> snd (may_block_round p blk) \<Longrightarrow> m \<in> set (pg_modules p) \<Longrightarrow> f \<in> set (md_functions m) \<Longrightarrow> fn_closed p blk m f"
proof -
  have "blk_step p st (fold (\<lambda>m. fold (may_block_visit p m) (md_functions m)) ms st) \<and>
    (\<not> snd (fold (\<lambda>m. fold (may_block_visit p m) (md_functions m)) ms st) \<longrightarrow>
       (\<forall>m\<in>set ms. \<forall>f\<in>set (md_functions m). fn_closed p (fst st) m f))"
    if "set ms \<subseteq> set (pg_modules p)" for ms st
    using that
  proof (induction ms arbitrary: st)
    case (Cons m ms)
    let ?st = "fold (may_block_visit p m) (md_functions m) st"
    have m: "blk_step p st ?st" "\<not> snd ?st \<Longrightarrow> \<forall>f\<in>set (md_functions m). fn_closed p (fst st) m f"
      using may_block_fns_step [of m p "md_functions m" st] Cons.prems by auto
    have rest: "blk_step p ?st (fold (\<lambda>m. fold (may_block_visit p m) (md_functions m)) ms ?st)"
      "\<not> snd (fold (\<lambda>m. fold (may_block_visit p m) (md_functions m)) ms ?st) \<Longrightarrow>
        \<forall>m\<in>set ms. \<forall>f\<in>set (md_functions m). fn_closed p (fst ?st) m f"
      using Cons.IH [of ?st] Cons.prems by auto
    have "\<forall>m\<in>set (m # ms). \<forall>f\<in>set (md_functions m). fn_closed p (fst st) m f"
      if unch: "\<not> snd (fold (\<lambda>m. fold (may_block_visit p m) (md_functions m)) (m # ms) st)"
    proof -
      from unch rest(1) have same: "\<not> snd ?st" by (auto simp: blk_step_def)
      with m(1) have "?st = st" by (simp add: blk_step_def)
      with rest(2) m(2) [OF same] unch show ?thesis by simp
    qed
    with blk_step_trans [OF m(1) rest(1)] show ?case by simp
  qed (simp add: blk_step_refl)
  from this [of "pg_modules p" "(blk, False)"]
  show "blk_step p (blk, False) (may_block_round p blk)"
    "\<not> snd (may_block_round p blk) \<Longrightarrow> m \<in> set (pg_modules p) \<Longrightarrow> f \<in> set (md_functions m) \<Longrightarrow> fn_closed p blk m f"
    by (auto simp: may_block_round_def)
qed

lemma blocking_bodies_sound: "blk_sound p (blocking_bodies p)"
  by (auto simp: blk_sound_def blocking_bodies_def intro: may_block_fn.own)

lemma body_may_block_nonempty: "body_may_block f \<Longrightarrow> fd_body f \<noteq> []"
  by (auto simp: body_may_block_def)

text \<open>Only functions of the program may block, so the rounds that change the set are finitely many.\<close>

lemma may_block_fn_declared: "may_block_fn p n \<Longrightarrow> n \<in> set (function_fqns p)"
  by (induction rule: may_block_fn.induct) (auto simp: function_fqns_def)

lemma may_block_loop_returns:
  assumes "blk_sound p blk" "set (blocking_bodies p) \<subseteq> set blk"
  shows "\<exists>r. may_block_loop p blk = Some r \<and> (\<forall>n. n \<in> set r \<longleftrightarrow> may_block_fn p n)"
  using assms
proof (induction "card (set (function_fqns p) - set blk)" arbitrary: blk rule: less_induct)
  case less
  obtain blk' changed where rnd: "may_block_round p blk = (blk', changed)" by (cases "may_block_round p blk")
  note step = may_block_round_step(1) [of p blk, unfolded rnd]
  show ?case
  proof (cases changed)
    case True
    then have grow: "set blk \<subset> set blk'" "blk_sound p blk'"
      using step less.prems(1) by (auto simp: blk_step_def)
    then obtain n where "n \<in> set blk' - set blk" by blast
    moreover from this grow(2) have "n \<in> set (function_fqns p)" by (auto simp: blk_sound_def intro: may_block_fn_declared)
    ultimately have "set (function_fqns p) - set blk' \<subset> set (function_fqns p) - set blk" using grow(1) by blast
    then have "card (set (function_fqns p) - set blk') < card (set (function_fqns p) - set blk)"
      by (rule psubset_card_mono [rotated]) simp
    from less.hyps [OF this grow(2)] less.prems(2) grow(1) True rnd show ?thesis
      by (subst may_block_loop.simps) auto
  next
    case False
    then have same: "blk' = blk" using step by (simp add: blk_step_def)
    have "n \<in> set blk" if "may_block_fn p n" for n
      using that
    proof induction
      case (own m f)
      then have "fqn (md_name m) (fd_name f) \<in> set (blocking_bodies p)"
        by (auto simp: blocking_bodies_def body_may_block_nonempty intro!: bexI [of _ m])
      with less.prems(2) show ?case by auto
    next
      case (call m f s func args dst owner callee)
      have "fn_closed p blk m f" by (rule may_block_round_step(2)) (use False rnd call.hyps in auto)
      with call.hyps call.IH show ?case by (auto simp: fn_closed_def dest: calls_blockingI)
    qed
    with less.prems(1) same False rnd show ?thesis
      by (subst may_block_loop.simps) (auto simp: blk_sound_def)
  qed
qed

lemma may_block_functions_exact:
  obtains blk where "may_block_functions p = Some blk" "\<And>n. n \<in> set blk \<longleftrightarrow> may_block_fn p n"
  using may_block_loop_returns [OF blocking_bodies_sound order_refl] by (auto simp: may_block_functions_def)

subsection \<open>Every pass returns\<close>

lemma entry_held_ok: "bs_ok (entry_held p m f)"
proof -
  have "bs_ok (fold bs_insert ns acc)" if "bs_ok acc" for ns and acc :: "string list"
    using that by (induction ns arbitrary: acc) (auto intro: bs_insert_ok)
  then show ?thesis unfolding entry_held_def by (simp add: bs_ok_def)
qed

lemma lock_diags_returns:
  "fd_body f \<noteq> [] \<Longrightarrow> \<exists>ds. lock_diags f (build_cfg f) (lock_transfer tracked canon) (entry_held p m f') diags_of = Some ds"
  using lock_diags_exact [OF _ entry_held_ok] by blast

lemma lock_reports_returns:
  assumes "fd_body f \<noteq> []" "\<And>i held n d. (n, d) \<in> set (missing i held) \<Longrightarrow> d = D i n"
  shows "\<exists>ds. lock_reports f (build_cfg f) (lock_transfer tracked canon) (entry_held p m f') missing = Some ds"
  using lock_reports_exact [OF assms(1) entry_held_ok, of missing D] assms(2) by blast

lemma unprotected_accesses_diag:
  "(n, d) \<in> set (unprotected_accesses p m f prot env fpath i held) \<Longrightarrow> d = at_stmt m f fpath i (diag_error ''E309'')"
  by (auto simp: unprotected_accesses_def map_filter_def Let_def split: option.splits if_splits)

lemma missing_required_diag:
  "(n, d) \<in> set (missing_required p m f fpath i held) \<Longrightarrow> d = at_stmt m f fpath i (diag_error ''E803'')"
  by (auto simp: missing_required_def split: op.splits option.splits)

lemma missing_wait_lock_diag:
  "(n, d) \<in> set (missing_wait_lock p m f fpath i held) \<Longrightarrow> d = at_stmt m f fpath i (diag_error ''E512'')"
  by (auto simp: missing_wait_lock_def split: op.splits if_splits)

lemma check_function_locks_returns: "\<exists>ds. check_function_locks p mi m fi f = Some ds"
proof (cases "fd_body f = []")
  case False
  let ?g = "build_cfg f" and ?path = "fn_path mi fi" and ?entry = "entry_held p m f"
  obtain d1 where "check_lock_drop_pairing p m f ?g (lock_resources p) ?entry ?path = Some d1"
  proof -
    from lock_diags_returns [OF False] obtain ds where
      "lock_diags f ?g (lock_transfer (\<lambda>l. l \<in> set (lock_resources p)) (canonical_from p (md_name m))) ?entry
        (pairing_diags p m f (lock_resources p) ?entry ?path) = Some ds" by blast
    with that False show thesis by (simp add: check_lock_drop_pairing_def)
  qed
  moreover obtain d2 where "check_sync_lock_across_await p m f ?g (sync_lock_resources p) ?entry ?path = Some d2"
  proof (cases "fd_kind f \<noteq> ''async'' \<or> sync_lock_resources p = []")
    case True
    with that show thesis by (auto simp: check_sync_lock_across_await_def)
  next
    case sync: False
    from lock_diags_returns [OF False] obtain ds where
      "lock_diags f ?g (lock_transfer (\<lambda>l. l \<in> set (sync_lock_resources p)) (canonical_from p (md_name m))) ?entry
        (\<lambda>i held. let x = sm_op (fd_body f ! i) in if is_await_like x
           then map (\<lambda>_. at_stmt m f ?path i (diag_error ''E504''))
             (lock_transfer (\<lambda>l. l \<in> set (sync_lock_resources p)) (canonical_from p (md_name m)) x held) else []) = Some ds"
      by blast
    with that sync False show thesis by (simp add: check_sync_lock_across_await_def Let_def)
  qed
  moreover obtain d4 where "check_var_access_without_lock p m f ?g (protection_map p) ?entry ?path = Some d4"
  proof -
    have "\<exists>ds. lock_reports f ?g (lock_transfer (\<lambda>_. True) (canonical_from p (md_name m))) ?entry
        (unprotected_accesses p m f (protection_map p) (build_env p m f) ?path) = Some ds"
      by (rule lock_reports_returns [OF False]) (rule unprotected_accesses_diag)
    with that False show thesis by (auto simp: check_var_access_without_lock_def)
  qed
  moreover obtain d5 where "check_requires_held p m f ?g ?entry ?path = Some d5"
  proof -
    have "\<exists>ds. lock_reports f ?g (lock_transfer (\<lambda>_. True) (canonical_from p (md_name m))) ?entry
        (missing_required p m f ?path) = Some ds"
      by (rule lock_reports_returns [OF False]) (rule missing_required_diag)
    with that False show thesis by (auto simp: check_requires_held_def)
  qed
  moreover obtain d6 where "check_condvar_ownership p m f ?g ?entry ?path = Some d6"
  proof -
    have "\<exists>ds. lock_reports f ?g (lock_transfer (\<lambda>_. True) (canonical_from p (md_name m))) ?entry
        (missing_wait_lock p m f ?path) = Some ds"
      by (rule lock_reports_returns [OF False]) (rule missing_wait_lock_diag)
    with that False show thesis by (auto simp: check_condvar_ownership_def)
  qed
  ultimately show ?thesis using False by (simp add: check_function_locks_def Let_def opt_append_Some)
qed (simp add: check_function_locks_def Let_def)

lemma locks_check_returns: "\<exists>ds. locks_check p = Some ds"
  unfolding locks_check_def by (intro each_opt_returns check_function_locks_returns)

lemma interface_check_returns: "\<exists>ds. interface_check p = Some ds"
  by (rule may_block_functions_exact [of p]) (simp add: interface_check_def)

lemma validate_total: "\<exists>r. validate A p = Some r"
proof -
  obtain a b c where "locks_check p = Some a" "interface_check p = Some b" "control_check p = Some c"
    using locks_check_returns interface_check_returns control_check_returns by meson
  then show ?thesis by (simp add: validate_def opt_append_Some)
qed

end
