(* ===== verification/Validate_Props.thy ===== *)
theory Validate_Props
  imports Validate_Laws Demo_Programs
begin

text \<open>The properties of the validator.\<close>

text \<open>The JSON values of the demos are integers.\<close>

definition demo_kinds :: "int json_kinds" where
  "demo_kinds = \<lparr>j_as_bool = (\<lambda>_. None), j_as_i64 = Some, j_as_f64 = (\<lambda>_. None), j_as_str = (\<lambda>_. None),
     j_as_object = (\<lambda>_. None), j_as_array = (\<lambda>_. None), j_is_boolean = (\<lambda>_. False), j_is_i64 = (\<lambda>_. True),
     j_is_f64 = (\<lambda>_. False), j_is_string = (\<lambda>_. False), j_is_object = (\<lambda>_. False), j_is_array = (\<lambda>_. False)\<rparr>"

subsection \<open>Reports\<close>

text \<open>C28: the validator returns on every program: no pass loops or panics. Its verdict is that no
  diagnostic is an error.\<close>

theorem validate_returns:
  "\<exists>r. validate A p = Some r \<and> (vr_valid r \<longleftrightarrow> no_errors (vr_diagnostics r))"
  using validate_total [of A p] by (auto simp: validate_def no_errors_def opt_append_eq_Some)

text \<open>An error of one pass makes the report invalid.\<close>

lemma validate_passes:
  assumes "validate A p = Some r"
  obtains dl di dc where "locks_check p = Some dl" "interface_check p = Some di" "control_check p = Some dc"
    "vr_diagnostics r = (structure_check A p @ names_check p @ typedef_check p @ types_check p @ compat_check p @
       protection_check p @ concurrency_check p) @ dl @ di @ dc @ dataflow_check p @ unused_resources p"
    "vr_valid r \<longleftrightarrow> no_errors (vr_diagnostics r)"
  using assms by (auto simp: validate_def no_errors_def opt_append_eq_Some)

lemma validate_rejects:
  assumes "d \<in> set (names_check p @ types_check p) \<or>
    (\<exists>ds. interface_check p = Some ds \<and> d \<in> set ds) \<or> (\<exists>ds. control_check p = Some ds \<and> d \<in> set ds)"
    "is_error d"
  shows "\<exists>r. validate A p = Some r \<and> \<not> vr_valid r"
proof -
  obtain r where r: "validate A p = Some r" using validate_total by blast
  then show ?thesis
    by (rule validate_passes) (use r assms in \<open>auto simp: no_errors_def list_ex_iff\<close>)
qed

subsection \<open>Locks along paths\<close>

text \<open>The discipline the pairing check asks of every path through a body.\<close>

definition lock_discipline ::
  "'j program_decl \<Rightarrow> 'j module_decl \<Rightarrow> 'j function_decl \<Rightarrow> string list \<Rightarrow> string list \<Rightarrow> bool" where
  "lock_discipline p m f locks entry \<longleftrightarrow>
    (let canon = canonical_from p (md_name m); transfer = lock_transfer (\<lambda>l. l \<in> set locks) canon in
     \<forall>i held. lock_path f transfer entry i held \<longrightarrow>
       (\<forall>r. is_lock_acquire (sm_op (fd_body f ! i)) = Some r \<longrightarrow> canon r \<in> set locks \<longrightarrow> canon r \<notin> set held) \<and>
       (\<forall>r. is_lock_release (sm_op (fd_body f ! i)) = Some r \<longrightarrow> canon r \<in> set locks \<longrightarrow> canon r \<in> set held) \<and>
       (is_return (fd_body f ! i) \<longrightarrow> set held \<subseteq> set entry))"

lemma acquire_not_return: "is_lock_acquire (sm_op s) \<noteq> None \<Longrightarrow> is_lock_release (sm_op s) = None \<and> \<not> is_return s"
  by (cases "sm_op s") (auto simp: is_return_def)

lemma release_not_return: "is_lock_release (sm_op s) \<noteq> None \<Longrightarrow> \<not> is_return s"
  by (cases "sm_op s") (auto simp: is_return_def)

lemma pairing_diags_clean:
  "no_errors (pairing_diags p m f locks entry fpath i held) \<longleftrightarrow>
    (\<forall>r. is_lock_acquire (sm_op (fd_body f ! i)) = Some r \<longrightarrow> canonical_from p (md_name m) r \<in> set locks \<longrightarrow>
       canonical_from p (md_name m) r \<notin> set held) \<and>
    (\<forall>r. is_lock_release (sm_op (fd_body f ! i)) = Some r \<longrightarrow> canonical_from p (md_name m) r \<in> set locks \<longrightarrow>
       canonical_from p (md_name m) r \<in> set held) \<and>
    (is_return (fd_body f ! i) \<longrightarrow> set held \<subseteq> set entry)"
proof (cases "is_lock_acquire (sm_op (fd_body f ! i))")
  case (Some r)
  with acquire_not_return [of "fd_body f ! i"] show ?thesis by (auto simp: pairing_diags_def Let_def)
next
  case None
  show ?thesis
  proof (cases "is_lock_release (sm_op (fd_body f ! i))")
    case (Some r)
    with None release_not_return [of "fd_body f ! i"] show ?thesis by (auto simp: pairing_diags_def Let_def)
  next
    case no: None
    with None have same: "lock_transfer (\<lambda>l. l \<in> set locks) (canonical_from p (md_name m)) (sm_op (fd_body f ! i)) held = held"
      by (simp add: lock_transfer_def)
    have "no_errors (map (\<lambda>_. at_stmt m f fpath i (diag_error ''E501'')) ls) \<longleftrightarrow> ls = []" for ls :: "string list"
      by (cases ls) auto
    with None no same show ?thesis by (auto simp: pairing_diags_def Let_def filter_empty_conv)
  qed
qed

text \<open>C29: the check of lock pairing is exact: it returns, and it reports no error exactly when on every
  path through the body no lock is taken while held, no lock is released that is not held, and a
  return leaves no lock held beyond those of the entry condition.\<close>

theorem lock_pairing_exact:
  assumes "fd_body f \<noteq> []"
  shows "\<exists>ds. check_lock_drop_pairing p m f (build_cfg f) locks (entry_held p m f) fpath = Some ds \<and>
    (no_errors ds \<longleftrightarrow> lock_discipline p m f locks (entry_held p m f))"
proof -
  from lock_diags_exact [OF assms entry_held_ok [of p m f], of "\<lambda>l. l \<in> set locks" "canonical_from p (md_name m)"
      "pairing_diags p m f locks (entry_held p m f) fpath"] obtain ds where
    ds: "lock_diags f (build_cfg f) (lock_transfer (\<lambda>l. l \<in> set locks) (canonical_from p (md_name m)))
      (entry_held p m f) (pairing_diags p m f locks (entry_held p m f) fpath) = Some ds"
    "\<forall>d. d \<in> set ds \<longleftrightarrow> (\<exists>i held. lock_path f (lock_transfer (\<lambda>l. l \<in> set locks) (canonical_from p (md_name m)))
       (entry_held p m f) i held \<and> d \<in> set (pairing_diags p m f locks (entry_held p m f) fpath i held))" by blast
  have "no_errors ds \<longleftrightarrow> (\<forall>i held. lock_path f (lock_transfer (\<lambda>l. l \<in> set locks) (canonical_from p (md_name m)))
      (entry_held p m f) i held \<longrightarrow> no_errors (pairing_diags p m f locks (entry_held p m f) fpath i held))"
    using ds(2) by (auto simp: no_errors_def list_ex_iff)
  with ds(1) assms show ?thesis
    by (simp add: check_lock_drop_pairing_def lock_discipline_def pairing_diags_clean Let_def)
qed

text \<open>A function that releases its mutex twice on one branch.\<close>

definition twice_released :: "int function_decl" where
  "twice_released = src_fn ''main'' [AMutexLock ''m'', ABranch ''n < 3'' ''s2'' ''s3'', AMutexUnlock ''m'',
     AMutexUnlock ''m'', AReturn None]"

definition one_mutex :: "int function_decl list \<Rightarrow> int program_decl" where
  "one_mutex fs = src_program []
     [(src_resource ''n'' ''var'' ''Var'')\<lparr>rc_base := Some (Primitive ''Int''), rc_init := Some 1\<rparr>,
      (src_resource ''m'' ''sync'' ''Mutex'')\<lparr>rc_mode := Some ''Sync''\<rparr>] fs"

definition only_module :: "int program_decl \<Rightarrow> int module_decl" where
  "only_module p = hd (pg_modules p)"

lemma twice_released_reported:
  "(case check_lock_drop_pairing (one_mutex [twice_released]) (only_module (one_mutex [twice_released])) twice_released
      (build_cfg twice_released) [''app::m''] [] [] of Some ds \<Rightarrow> map dg_code ds = [''E502''] \<and> \<not> no_errors ds | None \<Rightarrow> False)"
  by code_simp


theorem lock_pairing_exact_witness:
  "\<not> lock_discipline (one_mutex [twice_released]) (only_module (one_mutex [twice_released])) twice_released [''app::m'']
     (entry_held (one_mutex [twice_released]) (only_module (one_mutex [twice_released])) twice_released)"
proof -
  let ?p = "one_mutex [twice_released]" and ?f = twice_released
  have nonempty: "fd_body ?f \<noteq> []" and entry: "entry_held ?p (only_module ?p) ?f = []" by code_simp+
  from lock_pairing_exact [OF nonempty, of ?p "only_module ?p" "[''app::m'']" "[]"] twice_released_reported
  show ?thesis by (auto simp: entry split: option.splits)
qed

text \<open>C30: a protected variable is only accessed under its lock: when the check reports no error, every
  access of a statement on a path to a variable with a protecting lock happens with the lock held.\<close>

theorem protected_access_exact:
  assumes "fd_body f \<noteq> []"
  shows "\<exists>ds. check_var_access_without_lock p m f (build_cfg f) prot (entry_held p m f) fpath = Some ds \<and>
    (no_errors ds \<longleftrightarrow> (\<forall>i held. lock_path f (lock_transfer (\<lambda>_. True) (canonical_from p (md_name m))) (entry_held p m f) i held \<longrightarrow>
       (\<forall>r lock. r \<in> set (protected_var_accesses (sm_op (fd_body f ! i)) (build_env p m f)) \<longrightarrow>
          bt_get prot (canonical_from p (md_name m) r) = Some lock \<longrightarrow> lock \<in> set held)))"
proof -
  let ?missing = "unprotected_accesses p m f prot (build_env p m f) fpath"
  have "\<exists>ds. lock_reports f (build_cfg f) (lock_transfer (\<lambda>_. True) (canonical_from p (md_name m)))
      (entry_held p m f) ?missing = Some ds \<and>
    (\<forall>d. d \<in> set ds \<longleftrightarrow> (\<exists>i held. lock_path f (lock_transfer (\<lambda>_. True) (canonical_from p (md_name m)))
       (entry_held p m f) i held \<and> d \<in> snd ` set (?missing i held)))"
    by (rule lock_reports_exact [OF assms entry_held_ok]) (rule unprotected_accesses_diag)
  then obtain ds where ds: "lock_reports f (build_cfg f) (lock_transfer (\<lambda>_. True) (canonical_from p (md_name m)))
      (entry_held p m f) ?missing = Some ds"
    "\<forall>d. d \<in> set ds \<longleftrightarrow> (\<exists>i held. lock_path f (lock_transfer (\<lambda>_. True) (canonical_from p (md_name m)))
       (entry_held p m f) i held \<and> d \<in> snd ` set (?missing i held))" by blast
  have clean: "(\<forall>d\<in>snd ` set (?missing i held). \<not> is_error d) \<longleftrightarrow>
      (\<forall>r lock. r \<in> set (protected_var_accesses (sm_op (fd_body f ! i)) (build_env p m f)) \<longrightarrow>
          bt_get prot (canonical_from p (md_name m) r) = Some lock \<longrightarrow> lock \<in> set held)" for i held
    by (force simp: unprotected_accesses_def map_filter_def Let_def split: option.splits if_splits)
  have "no_errors ds \<longleftrightarrow> (\<forall>i held. lock_path f (lock_transfer (\<lambda>_. True) (canonical_from p (md_name m))) (entry_held p m f) i held \<longrightarrow>
       (\<forall>d\<in>snd ` set (?missing i held). \<not> is_error d))"
    unfolding no_errors_def list_ex_iff using ds(2) by blast
  with ds(1) assms show ?thesis unfolding clean by (simp add: check_var_access_without_lock_def)
qed


text \<open>A function that writes the protected \<open>n\<close> after it has released the mutex.\<close>

definition writes_late :: "int function_decl" where
  "writes_late = src_fn ''main'' [AMutexLock ''m'', AMutexUnlock ''m'', AWriteShared ''n'' ''n + 1'', AReturn None]"

definition late_accesses_allowed :: "string list \<Rightarrow> bool" where
  "late_accesses_allowed entry \<longleftrightarrow> (\<forall>i held. lock_path writes_late
     (lock_transfer (\<lambda>_. True) (canonical_from (one_mutex [writes_late]) (md_name (only_module (one_mutex [writes_late]))))) entry i held \<longrightarrow>
     (\<forall>r lock. r \<in> set (protected_var_accesses (sm_op (fd_body writes_late ! i))
           (build_env (one_mutex [writes_late]) (only_module (one_mutex [writes_late])) writes_late)) \<longrightarrow>
        bt_get [(''app::n'', ''app::m'')] (canonical_from (one_mutex [writes_late]) (md_name (only_module (one_mutex [writes_late]))) r) = Some lock \<longrightarrow>
        lock \<in> set held))"

lemma writes_late_reported:
  "(case check_var_access_without_lock (one_mutex [writes_late]) (only_module (one_mutex [writes_late])) writes_late
      (build_cfg writes_late) [(''app::n'', ''app::m'')] [] [] of
      Some ds \<Rightarrow> map dg_code ds = [''E309''] \<and> \<not> no_errors ds | None \<Rightarrow> False) \<and>
    fd_body writes_late \<noteq> [] \<and> entry_held (one_mutex [writes_late]) (only_module (one_mutex [writes_late])) writes_late = []"
  by code_simp

theorem protected_access_exact_witness: "\<not> late_accesses_allowed []"
proof -
  have nonempty: "fd_body writes_late \<noteq> []" using writes_late_reported by blast
  from protected_access_exact [OF nonempty, of "one_mutex [writes_late]" "only_module (one_mutex [writes_late])"
      "[(''app::n'', ''app::m'')]" "[]"] writes_late_reported
  show ?thesis by (auto simp: late_accesses_allowed_def split: option.splits)
qed

subsection \<open>Blocking functions and reachable statements\<close>

text \<open>C31: the inferred set of blocking functions is exactly the least one: a function is in it when its
  body has a blocking operation or calls a function in it. The fixpoint loop always ends.\<close>

theorem may_block_exact:
  "\<exists>blk. may_block_functions p = Some blk \<and> (\<forall>n. n \<in> set blk \<longleftrightarrow> may_block_fn p n)"
  by (rule may_block_functions_exact [of p]) blast

text \<open>The warning E601 is exact: it is given for the statements that no path from the first one reaches.\<close>

theorem unreachable_exact:
  assumes "fd_body f \<noteq> []"
  shows "check_reachability m f (build_cfg f) fpath = Some (each (\<lambda>i _.
    report ((0, i) \<notin> (steps_to (succ_at (build_cfg f)))\<^sup>*) (at_stmt m f fpath i (diag_warning ''E601''))) (fd_body f))"
proof -
  obtain seen where "bfs (build_cfg f) [0] [0] = Some seen" "set seen = reached (succ_at (build_cfg f)) [0]"
    by (rule cfg_bfs [OF assms])
  then show ?thesis by (simp add: check_reachability_def reached_def)
qed

definition skips_one :: "int function_decl" where
  "skips_one = src_fn ''main'' [AGoto ''s2'', ANop, AReturn None]"

theorem unreachable_exact_witness:
  "(0, 1) \<notin> (steps_to (succ_at (build_cfg skips_one)))\<^sup>* \<and> (0, 2) \<in> (steps_to (succ_at (build_cfg skips_one)))\<^sup>*"
proof -
  let ?m = "only_module (one_mutex [])" and ?R = "(steps_to (succ_at (build_cfg skips_one)))\<^sup>*"
  have "map_option (map dg_path) (check_reachability ?m skips_one (build_cfg skips_one) []) = Some [Some ''.body[1]'']"
    and nonempty: "fd_body skips_one \<noteq> []" and three: "length (fd_body skips_one) = 3" by code_simp+
  with unreachable_exact [OF nonempty, of ?m "[]"] have
    "map dg_path (each (\<lambda>i _. report ((0, i) \<notin> ?R) (at_stmt ?m skips_one [] i (diag_warning ''E601''))) (fd_body skips_one))
      = [Some ''.body[1]'']" by simp
  moreover have "enumerate 0 (fd_body skips_one) = [(0, fd_body skips_one ! 0), (1, fd_body skips_one ! 1), (2, fd_body skips_one ! 2)]"
    by code_simp
  moreover have "dg_path (at_stmt ?m skips_one [] 0 (diag_warning ''E601'')) = Some ''.body[0]'' \<and>
    dg_path (at_stmt ?m skips_one [] 1 (diag_warning ''E601'')) = Some ''.body[1]'' \<and>
    dg_path (at_stmt ?m skips_one [] 2 (diag_warning ''E601'')) = Some ''.body[2]''" by code_simp
  ultimately show ?thesis by (auto simp: each_def report_def split: if_splits)
qed

end
