(* ===== verification/Validate_Cases.thy ===== *)
theory Validate_Cases
  imports Validate_Props
begin

text \<open>Properties of the validator where the code departs from what it says it does.\<close>

subsection \<open>Sync locks across await\<close>

definition resource_idents :: "'j program_decl \<Rightarrow> bool" where
  "resource_idents p \<longleftrightarrow> (\<forall>m\<in>set (pg_modules p). \<forall>r\<in>set (md_resources m). is_ident (rc_name r))"

lemma canonical_not_ident: "lookup_resource_decl p m n \<noteq> None \<Longrightarrow> \<not> is_ident (canonical_from p m n)"
proof -
  assume "lookup_resource_decl p m n \<noteq> None"
  then obtain owner r where "lookup_resource_decl p m n = Some (owner, r)" by auto
  then have "canonical_from p m n = fqn (md_name owner) (rc_name r)" by (simp add: canonical_from_def)
  moreover have "CHR '':'' \<in> set (fqn a b)" for a b by (simp add: fqn_def fqn_sep_def)
  ultimately show ?thesis using ident_chars by metis
qed

lemma sync_lock_idents: "resource_idents p \<Longrightarrow> l \<in> set (sync_lock_resources p) \<Longrightarrow> is_ident l"
  by (auto simp: sync_lock_resources_def resource_idents_def)

text \<open>C33: the check for \<open>Sync\<close> locks held across an await never reports anything in a function without
  \<open>requires_held\<close> whose lock operations name declared resources: it compares short names with
  qualified ones, so it tracks no lock at all.\<close>

theorem sync_await_never_reported:
  assumes "resource_idents p" "le_requires_held (fd_locks f) = []" "fd_body f \<noteq> []"
    and "\<forall>s\<in>set (fd_body f). \<forall>r. is_lock_acquire (sm_op s) = Some r \<longrightarrow> resource_defined p (md_name m) r"
  shows "check_sync_lock_across_await p m f (build_cfg f) (sync_lock_resources p) (entry_held p m f) fpath = Some []"
proof -
  let ?transfer = "lock_transfer (\<lambda>l. l \<in> set (sync_lock_resources p)) (canonical_from p (md_name m))"
  have entry: "entry_held p m f = []" using assms(2) by (simp add: entry_held_def)
  have none: "?transfer (sm_op s) [] = []" if "s \<in> set (fd_body f)" for s
  proof (cases "is_lock_acquire (sm_op s)")
    case (Some r)
    have "\<not> is_ident (canonical_from p (md_name m) r)" by (intro canonical_not_ident) (use assms(4) that Some in \<open>auto simp: resource_defined_def\<close>)
    then have "canonical_from p (md_name m) r \<notin> set (sync_lock_resources p)" using sync_lock_idents [OF assms(1)] by blast
    with Some show ?thesis by (simp add: lock_transfer_def)
  qed (simp add: lock_transfer_def bs_remove_def split: option.splits)
  have empty: "held = []" if "lock_path f ?transfer [] i held" for i held
    using that
  proof induction
    case (step i held j)
    from cfg_closed [OF step.hyps(2)] have "fd_body f ! i \<in> set (fd_body f)" by simp
    with step.IH none show ?case by blast
  qed simp
  let ?diags = "\<lambda>i held. let x = sm_op (fd_body f ! i) in
    if is_await_like x then map (\<lambda>_. at_stmt m f fpath i (diag_error ''E504'')) (?transfer x held) else []"
  from lock_diags_exact [OF assms(3) entry_held_ok [of p m f], of "\<lambda>l. l \<in> set (sync_lock_resources p)"
      "canonical_from p (md_name m)" ?diags] obtain ds where
    ds: "lock_diags f (build_cfg f) ?transfer [] ?diags = Some ds"
    "\<forall>d. d \<in> set ds \<longleftrightarrow> (\<exists>i held. lock_path f ?transfer [] i held \<and> d \<in> set (?diags i held))"
    by (auto simp: entry)
  have clean: "?diags i held = []" if "lock_path f ?transfer [] i held" for i held
    using empty [OF that] none [of "fd_body f ! i"] lock_path_in_body [OF that assms(3)] by (simp add: Let_def)
  have "d \<notin> set ds" for d
  proof
    assume "d \<in> set ds"
    then obtain i held where path: "lock_path f ?transfer [] i held" and "d \<in> set (?diags i held)" using ds(2) by blast
    with clean [OF path] show False by simp
  qed
  then have "ds = []" by (cases ds) auto
  with ds(1) assms(3) show ?thesis by (auto simp: check_sync_lock_across_await_def entry Let_def)
qed

text \<open>An async function that holds a mutex of mode \<open>Sync\<close> while it awaits.\<close>

definition awaits_locked :: "int function_decl" where
  "awaits_locked = (src_fn ''main'' [AAsyncCall ''work'' [] ''h'', AMutexLock ''m'', AAwait ''h'', AMutexUnlock ''m'',
     AReturn None])\<lparr>fd_kind := ''async''\<rparr>"

theorem sync_await_never_reported_witness:
  "check_sync_lock_across_await (one_mutex [awaits_locked]) (only_module (one_mutex [awaits_locked])) awaits_locked
     (build_cfg awaits_locked) (sync_lock_resources (one_mutex [awaits_locked]))
     (entry_held (one_mutex [awaits_locked]) (only_module (one_mutex [awaits_locked])) awaits_locked) [] = Some []"
proof (rule sync_await_never_reported)
  show "resource_idents (one_mutex [awaits_locked])" unfolding resource_idents_def by code_simp
  show "le_requires_held (fd_locks awaits_locked) = []" "fd_body awaits_locked \<noteq> []" by code_simp+
  show "\<forall>s\<in>set (fd_body awaits_locked). \<forall>r. is_lock_acquire (sm_op s) = Some r \<longrightarrow>
      resource_defined (one_mutex [awaits_locked]) (md_name (only_module (one_mutex [awaits_locked]))) r"
  proof -
    have "list_all (\<lambda>s. case is_lock_acquire (sm_op s) of
        Some r \<Rightarrow> resource_defined (one_mutex [awaits_locked]) (md_name (only_module (one_mutex [awaits_locked]))) r
      | None \<Rightarrow> True) (fd_body awaits_locked)" by code_simp
    then show ?thesis by (auto simp: list_all_iff dest!: bspec)
  qed
qed

subsection \<open>Falling off the end\<close>

lemma plain_successors: "\<not> is_control_op (sm_op s) \<Longrightarrow> stmt_successors s None = []"
  by (cases "sm_op s") (auto simp: stmt_successors_def)

text \<open>C34: a body whose last statement is an ordinary operation is rejected (E602), although the
  warning E114 says that falling off the end is an implicit return and stays valid.\<close>

theorem implicit_return_rejected:
  assumes "m \<in> set (pg_modules p)" "f \<in> set (md_functions m)" "fd_body f \<noteq> []"
    and "\<not> is_control_op (sm_op (last (fd_body f)))"
  shows "\<exists>r. validate A p = Some r \<and> \<not> vr_valid r"
proof -
  obtain cs where cs: "control_check p = Some cs" using control_check_returns by blast
  from each_opt_elem [OF cs [unfolded control_check_def] assms(1)] obtain mi es where
    es: "each_opt (check_function_control p mi m) (md_functions m) = Some es" "set es \<subseteq> set cs" by blast
  from each_opt_elem [OF es(1) assms(2)] obtain fi fs where
    fs: "check_function_control p mi m fi f = Some fs" "set fs \<subseteq> set es" by blast
  let ?i = "length (fd_body f) - 1"
  have i: "?i < length (fd_body f)" "fd_body f ! ?i = last (fd_body f)" "nth_opt (fd_body f) (Suc ?i) = None"
    using assms(3) by (simp_all add: last_conv_nth)
  have "succ_at (build_cfg f) ?i = []"
    unfolding cfg_succ [OF i(1)] i(2,3) plain_successors [OF assms(4)] by (simp add: map_filter_def)
  moreover have "\<not> is_return (last (fd_body f))"
    using assms(4) by (cases "sm_op (last (fd_body f))") (auto simp: is_return_def)
  ultimately have "at_stmt m f (fn_path mi fi) ?i (diag_error ''E602'') \<in> set (check_return_paths m f (build_cfg f) (fn_path mi fi))"
    using i(1,2) by (auto simp: check_return_paths_def set_each intro!: bexI [of _ ?i])
  moreover have "set (check_return_paths m f (build_cfg f) (fn_path mi fi)) \<subseteq> set fs"
    using fs(1) assms(3) by (auto simp: check_function_control_def Let_def opt_append_eq_Some)
  ultimately have "at_stmt m f (fn_path mi fi) ?i (diag_error ''E602'') \<in> set cs" using es(2) fs(2) by blast
  with cs show ?thesis by (intro validate_rejects [of "at_stmt m f (fn_path mi fi) ?i (diag_error ''E602'')"]) auto
qed

definition falls_off :: "int program_decl" where
  "falls_off = src_program [] [] [src_fn ''main'' [ANop]]"

theorem implicit_return_rejected_witness: "\<exists>r. validate demo_kinds falls_off = Some r \<and> \<not> vr_valid r"
proof (rule implicit_return_rejected)
  show "only_module falls_off \<in> set (pg_modules falls_off)" "hd (md_functions (only_module falls_off)) \<in> set (md_functions (only_module falls_off))"
    "fd_body (hd (md_functions (only_module falls_off))) \<noteq> []"
    "\<not> is_control_op (sm_op (last (fd_body (hd (md_functions (only_module falls_off))))))"
    by (simp_all add: falls_off_def src_program_def only_module_def src_module_def src_fn_def)
qed

subsection \<open>Parameters of a named type\<close>

lemma named_not_assignable:
  "t \<noteq> Primitive n \<Longrightarrow> \<not> is_builtin n \<Longrightarrow> assignable (Some t) (Primitive n) e = Err ''E932''"
  by (cases t) (auto simp: assignable_def is_int_def is_builtin_def)

text \<open>An argument of known type is rejected when the parameter is declared with a named type:
  the declared type is not resolved before the comparison.\<close>

theorem named_parameter_rejected:
  assumes "m \<in> set (pg_modules p)" "f \<in> set (md_functions m)" "s \<in> set (fd_body f)" "sm_op s = AFunc func args dst"
    and "lookup_function_decl p (md_name m) func = Some (owner, callee)"
    and "(txt, pd) \<in> set (zip args (filter pd_modeled (fd_params callee)))" "pd_type pd = Primitive n" "\<not> is_builtin n"
    and "parse_expr txt (build_env p m f) = Ok e" "type_of e (build_env p m f) = Ok (Some t)" "t \<noteq> Primitive n"
  shows "\<exists>r. validate A p = Some r \<and> \<not> vr_valid r"
proof -
  have "check_expr txt (build_env p m f) (Some (pd_type pd)) False path loc ''E932'' = [err_at path loc ''E932'']" for path loc
    using assms(7-11) by (simp add: check_expr_def expr_complaint_def named_not_assignable)
  then have "err_at path loc ''E932'' \<in> set (check_args (filter pd_modeled (fd_params callee)) args (build_env p m f) path loc)" for path loc
    using assms(6) by (force simp: check_args_def)
  then have "err_at path loc ''E932'' \<in> set (check_op_types p rts m f (sm_op s) path loc)" for rts path loc
    using assms(4,5) by (simp add: check_op_types_def Let_def)
  moreover from assms(1-3) obtain mi fi si where "mi < length (pg_modules p)" "pg_modules p ! mi = m"
    "fi < length (md_functions m)" "md_functions m ! fi = f" "si < length (fd_body f)" "fd_body f ! si = s"
    by (auto simp: in_set_conv_nth)
  ultimately have "err_at (stmt_path mi fi si) (stmt_location m f s) ''E932'' \<in> set (check_exprs p (build_resource_type_map p))"
    unfolding check_exprs_def by (intro in_walkI)
  then show ?thesis by (intro validate_rejects [of "err_at (stmt_path mi fi si) (stmt_location m f s) ''E932''"]) (simp_all add: types_check_def)
qed

definition named_call :: "int program_decl" where
  "named_call = src_program [\<lparr>td_name = ''Count'', td_ty = BoundedInt 0 3\<rparr>] []
     [src_fn ''main'' [AFunc ''work'' [''1''] None, AReturn None],
      (src_fn ''work'' [AReturn None])\<lparr>fd_params := [\<lparr>pd_name = ''c'', pd_type = Primitive ''Count'', pd_modeled = True\<rparr>]\<rparr>]"

theorem named_parameter_rejected_witness: "\<exists>r. validate demo_kinds named_call = Some r \<and> \<not> vr_valid r"
proof -
  let ?m = "only_module named_call"
  let ?f = "hd (md_functions ?m)" and ?g = "md_functions ?m ! 1"
  let ?env = "build_env named_call ?m ?f"
  have "?m \<in> set (pg_modules named_call)" "?f \<in> set (md_functions ?m)" "hd (fd_body ?f) \<in> set (fd_body ?f)"
    by (simp_all add: named_call_def src_program_def only_module_def src_module_def src_fn_def)
  moreover have "sm_op (hd (fd_body ?f)) = AFunc ''work'' [''1''] None" "lookup_function_decl named_call (md_name ?m) ''work'' = Some (?m, ?g)"
    "zip [''1''] (filter pd_modeled (fd_params ?g)) = [(''1'', hd (fd_params ?g))]" "pd_type (hd (fd_params ?g)) = Primitive ''Count''"
    "\<not> is_builtin ''Count''" "parse_expr ''1'' ?env = Ok (ELit (LInt 1))" "type_of (ELit (LInt 1)) ?env = Ok (Some (Primitive ''Int''))"
    by code_simp+
  ultimately show ?thesis
    by (intro named_parameter_rejected [of ?m named_call ?f "hd (fd_body ?f)" "''work''" "[''1'']" None ?m ?g "''1''"
          "hd (fd_params ?g)" "''Count''" "ELit (LInt 1)" "Primitive ''Int''"]) auto
qed


subsection \<open>Imported signatures\<close>

text \<open>An import that declares \<open>may_block: true\<close> for a function with a body is rejected unless the
  importing module itself has a function of that name: the check looks the name up in the wrong module.\<close>

theorem import_may_block_rejected:
  assumes "m \<in> set (pg_modules p)" "RSig sg \<in> set (rq_functions (md_requires m))" "is_fqn (sg_name sg)"
    and "sg_may_block sg = Some True" "lookup_function_decl p (md_name m) (sg_name sg) = Some (owner, f)" "fd_body f \<noteq> []"
    and "fqn (md_name m) (fd_name f) \<notin> set (function_fqns p)"
  shows "\<exists>r. validate A p = Some r \<and> \<not> vr_valid r"
proof -
  obtain blk where blk: "may_block_functions p = Some blk" "\<And>n. n \<in> set blk \<longleftrightarrow> may_block_fn p n"
    by (rule may_block_functions_exact [of p]) blast
  have "fqn (md_name m) (fd_name f) \<notin> set blk" using assms(7) blk(2) may_block_fn_declared by blast
  then have "with_path (path @ ''.may_block'') (diag_error ''E804'') \<in> set (check_sig_against (md_name m) blk path sg f)" for path
    using assms(4,6) by (simp add: check_sig_against_def defined_may_block_def)
  moreover from assms(1,2) obtain mi i where mi: "mi < length (pg_modules p)" "pg_modules p ! mi = m"
    "i < length (rq_functions (md_requires m))" "rq_functions (md_requires m) ! i = RSig sg"
    by (auto simp: in_set_conv_nth)
  ultimately have "with_path ((at_index ''modules'' mi @ at_index ''.requires.functions'' i) @ ''.may_block'') (diag_error ''E804'')
      \<in> set (check_import_sig p blk mi m i (RSig sg))"
    using assms(3,5) by (simp add: check_import_sig_def Let_def del: append_assoc)
  then have "with_path ((at_index ''modules'' mi @ at_index ''.requires.functions'' i) @ ''.may_block'') (diag_error ''E804'')
      \<in> set (check_import_sigs p blk)"
    unfolding check_import_sigs_def by (intro in_eachI [OF mi(1,2)] in_eachI [OF mi(3,4)])
  then obtain d where d: "d \<in> set (check_import_sigs p blk)" "is_error d" by fastforce
  from blk(1) d(1) have "\<exists>ds. interface_check p = Some ds \<and> d \<in> set ds" by (simp add: interface_check_def)
  with d(2) show ?thesis by (intro validate_rejects) auto
qed

text \<open>A module imports \<open>lib::take\<close>, which locks a mutex, with the correct signature.\<close>

definition take_sig :: function_sig where
  "take_sig = \<lparr>sg_name = ''lib::take'', sg_kind = None, sg_may_block = Some True, sg_locks = no_locks, sg_params = [], sg_returns = None\<rparr>"

definition imports_take :: "int program_decl" where
  "imports_take = (src_program [] [] [])\<lparr>pg_modules :=
     [(src_module [] [] [src_fn ''main'' [AFunc ''lib::take'' [] None, AReturn None]])\<lparr>md_requires :=
        \<lparr>rq_resources = [], rq_functions = [RSig take_sig], rq_types = []\<rparr>\<rparr>,
      (src_module [] [(src_resource ''m'' ''sync'' ''Mutex'')\<lparr>rc_mode := Some ''Sync''\<rparr>]
        [src_fn ''take'' [AMutexLock ''m'', AMutexUnlock ''m'', AReturn None]])\<lparr>md_name := ''lib'',
           md_provides := \<lparr>ns_resources = [], ns_functions = [''take''], ns_types = []\<rparr>\<rparr>]\<rparr>"

theorem import_may_block_rejected_witness:
  "may_block_functions imports_take = Some [''app::main'', ''lib::take''] \<and>
   (\<exists>r. validate demo_kinds imports_take = Some r \<and> \<not> vr_valid r)"
proof
  show "may_block_functions imports_take = Some [''app::main'', ''lib::take'']" by code_simp
  let ?m = "hd (pg_modules imports_take)" and ?lib = "pg_modules imports_take ! 1"
  have "?m \<in> set (pg_modules imports_take)" "RSig take_sig \<in> set (rq_functions (md_requires ?m))"
    by (simp_all add: imports_take_def src_program_def src_module_def)
  moreover have "is_fqn (sg_name take_sig)" "sg_may_block take_sig = Some True"
    "lookup_function_decl imports_take (md_name ?m) (sg_name take_sig) = Some (?lib, hd (md_functions ?lib))"
    "fd_body (hd (md_functions ?lib)) \<noteq> []"
    "fqn (md_name ?m) (fd_name (hd (md_functions ?lib))) \<notin> set (function_fqns imports_take)" by code_simp+
  ultimately show "\<exists>r. validate demo_kinds imports_take = Some r \<and> \<not> vr_valid r"
    by (rule import_may_block_rejected)
qed

subsection \<open>Lock order in loops\<close>

lemma order_loop_extends: "\<exists>more. order_loop k nexts visited stack orders = orders @ more"
  by (induction k nexts visited stack orders rule: order_loop.induct) auto

text \<open>More rounds only find more orders.\<close>

lemma order_loop_prefix:
  "k \<le> k' \<Longrightarrow> \<exists>more. order_loop k' nexts visited stack orders = order_loop k nexts visited stack orders @ more"
proof (induction k nexts visited stack orders arbitrary: k' rule: order_loop.induct)
  case (2 k nexts visited x stack orders)
  show ?case
  proof (cases "k \<le> 0")
    case True
    then have "order_loop k nexts visited (x # stack) orders = orders" by simp
    then show ?thesis using order_loop_extends by metis
  next
    case False
    with 2 show ?thesis by auto
  qed
qed simp

lemma note_conflict_nonempty:
  "note_conflict orders ij acc \<noteq> [] \<longleftrightarrow> acc \<noteq> [] \<or> has_order_conflict (orders ! fst ij) (orders ! snd ij)"
  by (auto simp: note_conflict_def Let_def)

lemma order_conflicts_iff:
  "order_conflicts orders \<noteq> [] \<longleftrightarrow> (\<exists>i j. i < j \<and> j < length orders \<and> has_order_conflict (orders ! i) (orders ! j))"
proof -
  have fold: "fold (note_conflict orders) ps acc \<noteq> []
      \<longleftrightarrow> acc \<noteq> [] \<or> (\<exists>ij\<in>set ps. has_order_conflict (orders ! fst ij) (orders ! snd ij))" for ps acc
  proof (induction ps arbitrary: acc)
    case (Cons ij ps)
    from Cons.IH [of "note_conflict orders ij acc"] note_conflict_nonempty [of orders ij acc] show ?case by auto
  qed simp
  have "set (concat (map (\<lambda>i. map (Pair i) [Suc i..<length orders]) [0..<length orders])) = {(i, j). i < j \<and> j < length orders}"
    by (auto simp: image_iff Suc_le_eq)
  then show ?thesis unfolding order_conflicts_def fold by auto
qed

lemma order_conflicts_more: "order_conflicts orders \<noteq> [] \<Longrightarrow> order_conflicts (orders @ later) \<noteq> []"
proof -
  assume "order_conflicts orders \<noteq> []"
  then obtain i j where ij: "i < j" "j < length orders" "has_order_conflict (orders ! i) (orders ! j)"
    by (auto simp: order_conflicts_iff)
  then have "has_order_conflict ((orders @ later) ! i) ((orders @ later) ! j)" "j < length (orders @ later)"
    by (simp_all add: nth_append)
  with ij(1) show ?thesis unfolding order_conflicts_iff by blast
qed

text \<open>A loop that takes \<open>b\<close> while it holds \<open>a\<close>, in every round alike.\<close>

definition nested_loop :: "int function_decl" where
  "nested_loop = src_fn ''main'' [AMutexLock ''a'', AMutexLock ''b'', AMutexUnlock ''b'', AMutexUnlock ''a'',
     ABranch ''n < 3'' ''s0'' ''s5'', AReturn None]"

definition two_mutexes :: "int program_decl" where
  "two_mutexes = src_program []
     [(src_resource ''n'' ''var'' ''Var'')\<lparr>rc_base := Some (Primitive ''Int''), rc_init := Some 1\<rparr>,
      (src_resource ''a'' ''sync'' ''Mutex'')\<lparr>rc_mode := Some ''Sync''\<rparr>,
      (src_resource ''b'' ''sync'' ''Mutex'')\<lparr>rc_mode := Some ''Sync''\<rparr>] [nested_loop]"

abbreviation nested_transfer :: "op \<Rightarrow> string list \<Rightarrow> string list" where
  "nested_transfer \<equiv> lock_transfer (\<lambda>l. l \<in> set (lock_resources two_mutexes)) (canonical_from two_mutexes ''app'')"

definition nested_held :: "string list list" where
  "nested_held = [[], [''app::a''], [''app::a'', ''app::b''], [''app::a''], [], []]"

lemma nested_paths: "lock_path nested_loop nested_transfer [] i held \<Longrightarrow> held = nested_held ! i"
proof (induction rule: lock_path.induct)
  case entry
  then show ?case by (simp add: nested_held_def)
next
  case (step i held j)
  have "list_all (\<lambda>i. list_all (\<lambda>j. nested_transfer (sm_op (fd_body nested_loop ! i)) (nested_held ! i) = nested_held ! j)
      (succ_at (build_cfg nested_loop) i)) [0..<6]" and six: "length (fd_body nested_loop) = 6" by code_simp+
  moreover from step.hyps(2) have "i < 6" using cfg_closed six by fastforce
  ultimately show ?case using step by (auto simp: list_all_iff)
qed

lemma nested_orders:
  "order_conflicts (order_loop 30 (order_step two_mutexes (only_module two_mutexes) nested_loop (build_cfg nested_loop)
      (lock_resources two_mutexes)) [] [(0, [], [])] []) \<noteq> []"
  by code_simp

text \<open>C32: nested locking in a loop is reported as a violation of the lock order (E505), although on every
  path \<open>a\<close> is taken with no lock held and \<open>b\<close> exactly while \<open>a\<close> is held: an order keeps the locks of
  earlier rounds, and \<open>a, b, a, b\<close> counts as a conflict with itself.\<close>

theorem loop_lock_order_reported:
  "check_lock_ordering two_mutexes (only_module two_mutexes) nested_loop (build_cfg nested_loop)
     (lock_resources two_mutexes) [] [] \<noteq> []
   \<and> {(i, held). lock_path nested_loop nested_transfer [] i held} \<subseteq> range (\<lambda>i. (i, nested_held ! i))"
proof
  have six: "fd_body nested_loop \<noteq> []" "int (length (fd_body nested_loop)) * 100 = 600" by code_simp+
  have rounds: "(30 :: int) \<le> 600" by simp
  obtain more where "order_loop 600 (order_step two_mutexes (only_module two_mutexes) nested_loop (build_cfg nested_loop)
      (lock_resources two_mutexes)) [] [(0, [], [])] [] =
    order_loop 30 (order_step two_mutexes (only_module two_mutexes) nested_loop (build_cfg nested_loop)
      (lock_resources two_mutexes)) [] [(0, [], [])] [] @ more"
    using order_loop_prefix [where k = 30 and k' = 600] by (metis rounds)
  with order_conflicts_more [OF nested_orders] six show "check_lock_ordering two_mutexes (only_module two_mutexes) nested_loop
      (build_cfg nested_loop) (lock_resources two_mutexes) [] [] \<noteq> []"
    by (simp add: check_lock_ordering_def)
qed (use nested_paths in blast)

end
