(* ===== verification/Net_State.thy ===== *)
theory Net_State
  imports Sem_System
begin

text \<open>
  The data of the Petri-net backend (\<open>src/src/petri/net.rs\<close>): place keys, tokens, transitions,
  the net, and the net state (marking and store) with its elementary operations.
\<close>

type_synonym place_id = nat
type_synonym transition_id = nat

text \<open>\<open>as u32\<close>: place and transition identifiers keep the low 32 bits of a length.\<close>

definition u32 :: "nat \<Rightarrow> nat" where "u32 n = n mod 2 ^ 32"

lemma u32_code [code]: "u32 n = nat (int n mod 4294967296)"
  by (simp add: u32_def nat_mod_distrib)

subsection \<open>Places\<close>

datatype place_key =
    PlControl function_id nat
  | PlVar resource_id
  | PlAtomic resource_id
  | PlMutex resource_id
  | PlSemaphore resource_id
  | PlChannel resource_id
  | PlChannelSend resource_id
  | PlChannelRecv resource_id
  | PlCondvar resource_id
  | PlLockWait resource_id
  | PlSemWait resource_id
  | PlJoinWait function_id nat
  | PlScopeWait function_id nat

text \<open>The derived order: the position of the variant, then its fields.\<close>

fun pk_rank :: "place_key \<Rightarrow> nat \<times> nat \<times> nat" where
  "pk_rank (PlControl f i) = (0, f, i)"
| "pk_rank (PlVar r) = (1, r, 0)"
| "pk_rank (PlAtomic r) = (2, r, 0)"
| "pk_rank (PlMutex r) = (3, r, 0)"
| "pk_rank (PlSemaphore r) = (4, r, 0)"
| "pk_rank (PlChannel r) = (5, r, 0)"
| "pk_rank (PlChannelSend r) = (6, r, 0)"
| "pk_rank (PlChannelRecv r) = (7, r, 0)"
| "pk_rank (PlCondvar r) = (8, r, 0)"
| "pk_rank (PlLockWait r) = (9, r, 0)"
| "pk_rank (PlSemWait r) = (10, r, 0)"
| "pk_rank (PlJoinWait f i) = (11, f, i)"
| "pk_rank (PlScopeWait f i) = (12, f, i)"

lemma pk_rank_inj: "pk_rank a = pk_rank b \<Longrightarrow> a = b"
  by (cases a; cases b) simp_all

instantiation place_key :: linorder
begin

definition less_eq_place_key :: "place_key \<Rightarrow> place_key \<Rightarrow> bool" where
  "less_eq_place_key a b \<longleftrightarrow> pk_rank a \<le> pk_rank b"

definition less_place_key :: "place_key \<Rightarrow> place_key \<Rightarrow> bool" where
  "less_place_key a b \<longleftrightarrow> pk_rank a < pk_rank b"

instance
  by standard (auto simp: less_eq_place_key_def less_place_key_def intro: pk_rank_inj)

end

record place =
  pl_id :: place_id
  pl_key :: place_key

subsection \<open>Tokens\<close>

datatype mutex_token = MFree | MHeld thread_id

datatype net_token =
    TControl thread_id frame_id
  | TData cvalue
  | TMutex mutex_token
  | TLockWait thread_id frame_id
  | TCondvarWait thread_id frame_id resource_id
  | TSendWait thread_id frame_id cvalue
  | TRecvWait thread_id frame_id
  | TSemWait thread_id frame_id int
  | TJoinWait thread_id frame_id
  | TScopeWait thread_id frame_id

fun tok_thread :: "net_token \<Rightarrow> thread_id option" where
  "tok_thread (TControl t f) = Some t"
| "tok_thread (TLockWait t f) = Some t"
| "tok_thread (TCondvarWait t f l) = Some t"
| "tok_thread (TSendWait t f v) = Some t"
| "tok_thread (TRecvWait t f) = Some t"
| "tok_thread (TSemWait t f n) = Some t"
| "tok_thread (TJoinWait t f) = Some t"
| "tok_thread (TScopeWait t f) = Some t"
| "tok_thread _ = None"

fun tok_frame :: "net_token \<Rightarrow> frame_id option" where
  "tok_frame (TControl t f) = Some f"
| "tok_frame (TLockWait t f) = Some f"
| "tok_frame (TCondvarWait t f l) = Some f"
| "tok_frame (TSendWait t f v) = Some f"
| "tok_frame (TRecvWait t f) = Some f"
| "tok_frame (TSemWait t f n) = Some f"
| "tok_frame (TJoinWait t f) = Some f"
| "tok_frame (TScopeWait t f) = Some f"
| "tok_frame _ = None"

subsection \<open>Transitions\<close>

datatype arc_binding =
    BControl place_id
  | BWait place_id
  | BPair place_id place_id
  | BControlWait place_id place_id
  | BControlChooseWait place_id place_id

datatype net_op =
    NNop
  | NAssignLocal slot_ref lexpr
  | NReadVar resource_id "slot_ref option"
  | NWriteVar resource_id lexpr
  | NAtomicLoad resource_id slot_ref
  | NAtomicStore resource_id lexpr
  | NAtomicCas resource_id lexpr lexpr slot_ref
  | NMutexLockGrant resource_id
  | NMutexLockBlock resource_id
  | NMutexUnlock resource_id
  | NLockWaitAcquire resource_id
  | NCondvarWait resource_id resource_id
  | NCondvarNotifyHit resource_id
  | NCondvarNotifyMiss resource_id
  | NCondvarNotifyAll resource_id
  | NSemAcquire resource_id int
  | NSemAcquireBlock resource_id int
  | NSemRelease resource_id int
  | NSemGrant resource_id
  | NSendRegister resource_id
  | NRecvRegister resource_id
  | NSendPair resource_id
  | NRecvPair resource_id
  | NRendezvous resource_id
  | NSendBuf resource_id lexpr
  | NSendBufBlock resource_id lexpr
  | NRecvBuf resource_id slot_ref
  | NRecvBufBlock resource_id
  | NBufferDeliver resource_id
  | NBufferRecvWait resource_id
  | NGoto nat
  | NBranchThen lexpr nat
  | NBranchElse lexpr nat
  | NSwitchCase lexpr string nat
  | NSwitchDefault lexpr "string list" nat
  | NCall function_id "lexpr list" "slot_ref option"
  | NSpawn function_id string
  | NScope "function_id list"
  | NJoinReady string
  | NJoinBlock string
  | NReturnInner "lexpr option"
  | NReturnFinal "lexpr option"

record net_transition =
  tr_id :: transition_id
  tr_op :: net_op
  tr_binding :: arc_binding
  tr_next :: "place_id option"
  tr_outputs :: "place_id list"
  tr_origin :: transition_origin

record petri_net =
  pn_places :: "place list"
  pn_place_of :: "(place_key, place_id) btree"
  pn_transitions :: "net_transition list"
  pn_entry :: function_id

subsection \<open>The net state\<close>

record net_ret_addr =
  na_pc_next :: nat
  na_dst :: slot_ref

record net_frame =
  nf_id :: frame_id
  nf_function :: function_id
  nf_pc :: nat
  nf_locals :: "(nat, cvalue) btree"
  nf_handles :: "(string, handle_id) btree"
  nf_ret :: "net_ret_addr option"

record net_scope =
  nc_id :: scope_id
  nc_owner :: thread_id
  nc_owner_frame :: frame_id
  nc_owner_sid :: nat
  nc_remaining :: "thread_id list"

record net_thread =
  nt_entry_function :: function_id
  nt_stack :: "frame_id list"
  nt_handle_children :: "(handle_id, thread_id) btree"
  nt_parent_scope :: "scope_id option"
  nt_blocked_at :: "place_key option"

record net_alloc =
  na_thread :: nat
  na_frame :: nat
  na_scope :: nat
  na_handle :: nat

record net_store =
  nst_frames :: "(frame_id, net_frame) btree"
  nst_threads :: "(thread_id, net_thread) btree"
  nst_scopes :: "(scope_id, net_scope) btree"
  nst_finished :: "thread_id list"
  nst_completed_functions :: "(function_id, nat) btree"
  nst_completed_scopes :: "(function_id \<times> nat) list"
  nst_reached :: "(function_id \<times> nat) list"
  nst_alloc :: net_alloc

record net_state =
  ns_marking :: "(place_id, net_token list) btree"
  ns_store :: net_store

text \<open>Equality of net states ignores the counters (\<open>PartialEq for NetAlloc\<close>).\<close>

definition ns_eq :: "net_state \<Rightarrow> net_state \<Rightarrow> bool" where
  "ns_eq s t \<longleftrightarrow> s\<lparr>ns_store := (ns_store s)\<lparr>nst_alloc := nst_alloc (ns_store t)\<rparr>\<rparr> = t"

definition net_alloc_default :: net_alloc where
  "net_alloc_default = \<lparr>na_thread = 0, na_frame = 0, na_scope = 0, na_handle = 0\<rparr>"

definition net_empty :: net_state where
  "net_empty = \<lparr>ns_marking = [], ns_store = \<lparr>nst_frames = [], nst_threads = [], nst_scopes = [],
     nst_finished = [], nst_completed_functions = [], nst_completed_scopes = [],
     nst_reached = [], nst_alloc = net_alloc_default\<rparr>\<rparr>"

subsection \<open>Operations on the store\<close>

definition upd_nstore :: "(net_store \<Rightarrow> net_store) \<Rightarrow> net_state \<Rightarrow> net_state" where
  "upd_nstore g st = st\<lparr>ns_store := g (ns_store st)\<rparr>"

definition net_current_frame :: "net_state \<Rightarrow> thread_id \<Rightarrow> frame_id option" where
  "net_current_frame st t = (case bt_get (nst_threads (ns_store st)) t of
      None \<Rightarrow> None
    | Some th \<Rightarrow> if nt_stack th = [] then None else Some (last (nt_stack th)))"

definition net_frame_of :: "net_state \<Rightarrow> frame_id \<Rightarrow> net_frame backend_result" where
  "net_frame_of st f = unwrap (bt_get (nst_frames (ns_store st)) f)"

definition net_thread_of :: "net_state \<Rightarrow> thread_id \<Rightarrow> net_thread backend_result" where
  "net_thread_of st t = unwrap (bt_get (nst_threads (ns_store st)) t)"

text \<open>\<open>if let Some(x) = map.get_mut(..)\<close>, and \<open>frame_mut\<close>/\<open>get_mut(..).unwrap()\<close>, which panic.\<close>

definition upd_nframe :: "frame_id \<Rightarrow> (net_frame \<Rightarrow> net_frame) \<Rightarrow> net_state \<Rightarrow> net_state" where
  "upd_nframe f g = upd_nstore (\<lambda>s. s\<lparr>nst_frames := bt_adjust f g (nst_frames s)\<rparr>)"

definition upd_nthread :: "thread_id \<Rightarrow> (net_thread \<Rightarrow> net_thread) \<Rightarrow> net_state \<Rightarrow> net_state" where
  "upd_nthread t g = upd_nstore (\<lambda>s. s\<lparr>nst_threads := bt_adjust t g (nst_threads s)\<rparr>)"

definition frame_mut :: "frame_id \<Rightarrow> (net_frame \<Rightarrow> net_frame) \<Rightarrow> net_state \<Rightarrow> net_state backend_result" where
  "frame_mut f g st = rbind (net_frame_of st f) (\<lambda>_. Ok (upd_nframe f g st))"

definition thread_mut :: "thread_id \<Rightarrow> (net_thread \<Rightarrow> net_thread) \<Rightarrow> net_state \<Rightarrow> net_state backend_result" where
  "thread_mut t g st = rbind (net_thread_of st t) (\<lambda>_. Ok (upd_nthread t g st))"

subsection \<open>Operations on the marking\<close>

definition place_tokens :: "net_state \<Rightarrow> place_id \<Rightarrow> net_token list" where
  "place_tokens st p = (case bt_get (ns_marking st) p of Some ts \<Rightarrow> ts | None \<Rightarrow> [])"

definition put_token :: "place_id \<Rightarrow> net_token \<Rightarrow> net_state \<Rightarrow> net_state" where
  "put_token p x st = st\<lparr>ns_marking := bt_insert p (place_tokens st p @ [x]) (ns_marking st)\<rparr>"

definition take_first :: "place_id \<Rightarrow> net_state \<Rightarrow> net_token option \<times> net_state" where
  "take_first p st = (case bt_get (ns_marking st) p of
      None \<Rightarrow> (None, st)
    | Some [] \<Rightarrow> (None, st)
    | Some (x # ts) \<Rightarrow> (Some x, st\<lparr>ns_marking := bt_insert p ts (ns_marking st)\<rparr>))"

text \<open>\<open>remove(position(..))\<close>: the first token equal to the given one.\<close>

definition take_token :: "place_id \<Rightarrow> net_token \<Rightarrow> net_state \<Rightarrow> bool \<times> net_state" where
  "take_token p x st = (case bt_get (ns_marking st) p of
      None \<Rightarrow> (False, st)
    | Some ts \<Rightarrow> if x \<in> set ts
        then (True, st\<lparr>ns_marking := bt_insert p (remove1 x ts) (ns_marking st)\<rparr>) else (False, st))"

definition set_single :: "place_id \<Rightarrow> net_token \<Rightarrow> net_state \<Rightarrow> net_state" where
  "set_single p x st = st\<lparr>ns_marking := bt_insert p [x] (ns_marking st)\<rparr>"

definition single_token :: "net_state \<Rightarrow> place_id \<Rightarrow> net_token option" where
  "single_token st p = (case bt_get (ns_marking st) p of Some (x # ts) \<Rightarrow> Some x | _ \<Rightarrow> None)"

definition read_data :: "net_state \<Rightarrow> place_id \<Rightarrow> cvalue option" where
  "read_data st p = (case single_token st p of Some (TData v) \<Rightarrow> Some v | _ \<Rightarrow> None)"

definition set_data :: "place_id \<Rightarrow> cvalue \<Rightarrow> net_state \<Rightarrow> net_state" where
  "set_data p v = set_single p (TData v)"

definition read_mutex :: "net_state \<Rightarrow> place_id \<Rightarrow> mutex_token option" where
  "read_mutex st p = (case single_token st p of Some (TMutex m) \<Rightarrow> Some m | _ \<Rightarrow> None)"

definition set_mutex_token :: "place_id \<Rightarrow> mutex_token \<Rightarrow> net_state \<Rightarrow> net_state" where
  "set_mutex_token p m = set_single p (TMutex m)"

end
