(* ===== verification/Net_Build.thy ===== *)
theory Net_Build
  imports Net_State
begin

text \<open>
  The translation of a resolved program to a net (\<open>build\<close>, \<open>build_stmt\<close> of
  \<open>src/src/petri/net.rs\<close>). The builder is passed explicitly; places are created on demand and
  transitions are appended in the order of the code.
\<close>

record builder =
  bd_places :: "place list"
  bd_place_of :: "(place_key, place_id) btree"
  bd_transitions :: "net_transition list"

definition builder_empty :: builder where
  "builder_empty = \<lparr>bd_places = [], bd_place_of = [], bd_transitions = []\<rparr>"

definition b_place :: "place_key \<Rightarrow> builder \<Rightarrow> place_id \<times> builder" where
  "b_place k b = (case bt_get (bd_place_of b) k of
      Some p \<Rightarrow> (p, b)
    | None \<Rightarrow> let p = u32 (length (bd_places b)) in
        (p, b\<lparr>bd_place_of := bt_insert k p (bd_place_of b),
              bd_places := bd_places b @ [\<lparr>pl_id = p, pl_key = k\<rparr>]\<rparr>))"

definition b_add ::
  "net_op \<Rightarrow> arc_binding \<Rightarrow> place_id option \<Rightarrow> place_id list \<Rightarrow> transition_origin \<Rightarrow> builder \<Rightarrow> builder" where
  "b_add op bind nxt outs og b = b\<lparr>bd_transitions := bd_transitions b @
     [\<lparr>tr_id = u32 (length (bd_transitions b)), tr_op = op, tr_binding = bind, tr_next = nxt,
       tr_outputs = outs, tr_origin = og\<rparr>]\<rparr>"

definition b_ctrl :: "function_id \<Rightarrow> nat \<Rightarrow> builder \<Rightarrow> place_id \<times> builder" where
  "b_ctrl f i = b_place (PlControl f i)"

definition b_origin :: "sem_program \<Rightarrow> function_id \<Rightarrow> nat \<Rightarrow> phase \<Rightarrow> transition_origin backend_result" where
  "b_origin P f i ph = rbind (function_of P f) (\<lambda>fn.
     Ok \<lparr>or_module = f_module fn, or_function = f, or_sid = Some i, or_phase = ph\<rparr>)"

subsection \<open>Statements\<close>

text \<open>
  Most operations become one transition that moves the control token from its place \<open>inp\<close> to the
  fall-through place \<open>fall\<close>.
\<close>

definition b_move :: "net_op \<Rightarrow> place_id \<Rightarrow> place_id \<Rightarrow> place_id list \<Rightarrow> transition_origin \<Rightarrow> builder \<Rightarrow> builder" where
  "b_move op inp out outs og = b_add op (BControl inp) (Some out) outs og"

definition b_resource_move ::
  "net_op \<Rightarrow> place_key \<Rightarrow> place_id \<Rightarrow> place_id \<Rightarrow> transition_origin \<Rightarrow> builder \<Rightarrow> builder" where
  "b_resource_move op k inp fall og b =
     (let (p, b) = b_place k b in b_move op inp fall [fall, p] og b)"

definition b_lock :: "resource_id \<Rightarrow> place_id \<Rightarrow> place_id \<Rightarrow> transition_origin \<Rightarrow> builder \<Rightarrow> builder" where
  "b_lock r inp fall og b =
     (let (mtx, b) = b_place (PlMutex r) b; (lw, b) = b_place (PlLockWait r) b in
      b_move (NMutexLockBlock r) inp lw [lw, mtx] og
        (b_move (NMutexLockGrant r) inp fall [fall, mtx] og b))"

definition b_send ::
  "sem_program \<Rightarrow> resource_id \<Rightarrow> lexpr \<Rightarrow> place_id \<Rightarrow> place_id \<Rightarrow> transition_origin \<Rightarrow> builder
     \<Rightarrow> builder backend_result" where
  "b_send P c e inp fall og b = rbind (resource_of P c) (\<lambda>res.
     let (_, b) = b_place (PlChannel c) b in
     if r_capacity res = 0 then
       let (send, b) = b_place (PlChannelSend c) b; (recv, b) = b_place (PlChannelRecv c) b in
       Ok (b_add (NSendPair c) (BControlChooseWait inp recv) (Some fall) [fall, send] og
            (b_move (NSendRegister c) inp send [send] og b))
     else
       let b = b_move (NSendBuf c e) inp fall [fall] og b; (send, b) = b_place (PlChannelSend c) b in
       Ok (b_move (NSendBufBlock c e) inp send [send] og b))"

definition b_recv ::
  "sem_program \<Rightarrow> resource_id \<Rightarrow> slot_ref \<Rightarrow> place_id \<Rightarrow> place_id \<Rightarrow> transition_origin \<Rightarrow> builder
     \<Rightarrow> builder backend_result" where
  "b_recv P c dst inp fall og b = rbind (resource_of P c) (\<lambda>res.
     let (_, b) = b_place (PlChannel c) b in
     if r_capacity res = 0 then
       let (send, b) = b_place (PlChannelSend c) b; (recv, b) = b_place (PlChannelRecv c) b in
       Ok (b_add (NRecvPair c) (BControlChooseWait inp send) (Some fall) [fall, recv] og
            (b_move (NRecvRegister c) inp recv [recv] og b))
     else
       let b = b_move (NRecvBuf c dst) inp fall [fall] og b; (recv, b) = b_place (PlChannelRecv c) b in
       Ok (b_move (NRecvBufBlock c) inp recv [recv] og b))"

definition b_wait ::
  "resource_id \<Rightarrow> resource_id \<Rightarrow> place_id \<Rightarrow> transition_origin \<Rightarrow> builder \<Rightarrow> builder" where
  "b_wait cv lock inp og b =
     (let (c, b) = b_place (PlCondvar cv) b; (mtx, b) = b_place (PlMutex lock) b in
      b_move (NCondvarWait cv lock) inp c [c, mtx] og b)"

definition b_notify :: "resource_id \<Rightarrow> place_id \<Rightarrow> place_id \<Rightarrow> transition_origin \<Rightarrow> builder \<Rightarrow> builder" where
  "b_notify cv inp fall og b =
     (let (c, b) = b_place (PlCondvar cv) b in
      b_move (NCondvarNotifyMiss cv) inp fall [fall, c] og
        (b_add (NCondvarNotifyHit cv) (BControlChooseWait inp c) (Some fall) [fall, c] og b))"

definition b_acquire ::
  "resource_id \<Rightarrow> int \<Rightarrow> place_id \<Rightarrow> place_id \<Rightarrow> transition_origin \<Rightarrow> builder \<Rightarrow> builder" where
  "b_acquire r n inp fall og b =
     (let (sem, b) = b_place (PlSemaphore r) b; (sw, b) = b_place (PlSemWait r) b in
      b_move (NSemAcquireBlock r n) inp sw [sw, sem] og
        (b_move (NSemAcquire r n) inp fall [fall, sem] og b))"

text \<open>The places of a list of targets, created in order.\<close>

fun b_ctrls :: "(function_id \<times> nat) list \<Rightarrow> builder \<Rightarrow> place_id list \<times> builder" where
  "b_ctrls [] b = ([], b)"
| "b_ctrls ((f, i) # xs) b =
     (let (p, b) = b_ctrl f i b; (ps, b) = b_ctrls xs b in (p # ps, b))"

definition b_scope ::
  "function_id list \<Rightarrow> function_id \<Rightarrow> nat \<Rightarrow> place_id \<Rightarrow> place_id \<Rightarrow> transition_origin \<Rightarrow> builder \<Rightarrow> builder" where
  "b_scope fs fid si inp fall og b =
     (let (sw, b) = b_place (PlScopeWait fid si) b; (ps, b) = b_ctrls (map (\<lambda>f. (f, 0)) fs) b in
      b_move (NScope fs) inp fall (sw # ps) og b)"

definition b_join ::
  "string \<Rightarrow> function_id \<Rightarrow> nat \<Rightarrow> place_id \<Rightarrow> place_id \<Rightarrow> transition_origin \<Rightarrow> builder \<Rightarrow> builder" where
  "b_join h fid si inp fall og b =
     (let (jw, b) = b_place (PlJoinWait fid si) b in
      b_move (NJoinBlock h) inp jw [jw] og (b_move (NJoinReady h) inp fall [fall] og b))"

definition b_branch ::
  "lexpr \<Rightarrow> nat \<Rightarrow> nat \<Rightarrow> function_id \<Rightarrow> place_id \<Rightarrow> transition_origin \<Rightarrow> builder \<Rightarrow> builder" where
  "b_branch cond thn els fid inp og b =
     (let (tp, b) = b_ctrl fid thn b; (ep, b) = b_ctrl fid els b in
      b_move (NBranchElse cond els) inp ep [ep] og (b_move (NBranchThen cond thn) inp tp [tp] og b))"

definition b_case ::
  "lexpr \<Rightarrow> function_id \<Rightarrow> place_id \<Rightarrow> transition_origin \<Rightarrow> string \<times> nat \<Rightarrow> builder \<Rightarrow> builder" where
  "b_case var fid inp og c b = (case c of (label, target) \<Rightarrow>
     let (out, b) = b_ctrl fid target b in b_move (NSwitchCase var label target) inp out [out] og b)"

definition b_switch ::
  "lexpr \<Rightarrow> (string, nat) btree \<Rightarrow> nat \<Rightarrow> function_id \<Rightarrow> place_id \<Rightarrow> transition_origin \<Rightarrow> builder \<Rightarrow> builder" where
  "b_switch var cases dflt fid inp og b =
     (let b = fold (b_case var fid inp og) cases b; (def, b) = b_ctrl fid dflt b in
      b_move (NSwitchDefault var (bt_keys cases) dflt) inp def [def] og b)"

text \<open>The two return transitions of a control place.\<close>

definition b_return :: "lexpr option \<Rightarrow> place_id \<Rightarrow> transition_origin \<Rightarrow> builder \<Rightarrow> builder" where
  "b_return e inp og b =
     b_add (NReturnFinal e) (BControl inp) None [] og (b_add (NReturnInner e) (BControl inp) None [] og b)"

fun build_op ::
  "sem_program \<Rightarrow> function_id \<Rightarrow> nat \<Rightarrow> place_id \<Rightarrow> place_id \<Rightarrow> transition_origin \<Rightarrow> sem_op \<Rightarrow> builder
     \<Rightarrow> builder backend_result" where
  "build_op P fid si inp fall og Nop b = Ok (b_move NNop inp fall [fall] og b)"
| "build_op P fid si inp fall og (AssignLocal d e) b =
     Ok (b_move (NAssignLocal d e) inp fall [fall] og b)"
| "build_op P fid si inp fall og (ReadShared r dst) b =
     Ok (b_resource_move (NReadVar r dst) (PlVar r) inp fall og b)"
| "build_op P fid si inp fall og (WriteShared r e) b =
     Ok (b_resource_move (NWriteVar r e) (PlVar r) inp fall og b)"
| "build_op P fid si inp fall og (AtomicLoad r dst) b =
     Ok (b_resource_move (NAtomicLoad r dst) (PlAtomic r) inp fall og b)"
| "build_op P fid si inp fall og (AtomicStore r e) b =
     Ok (b_resource_move (NAtomicStore r e) (PlAtomic r) inp fall og b)"
| "build_op P fid si inp fall og (AtomicCas r ex des dst) b =
     Ok (b_resource_move (NAtomicCas r ex des dst) (PlAtomic r) inp fall og b)"
| "build_op P fid si inp fall og (MutexLock r) b = Ok (b_lock r inp fall og b)"
| "build_op P fid si inp fall og (MutexUnlock r) b =
     Ok (b_resource_move (NMutexUnlock r) (PlMutex r) inp fall og b)"
| "build_op P fid si inp fall og (ChannelSend c e) b = b_send P c e inp fall og b"
| "build_op P fid si inp fall og (ChannelRecv c dst) b = b_recv P c dst inp fall og b"
| "build_op P fid si inp fall og (CondvarWait cv lock) b = Ok (b_wait cv lock inp og b)"
| "build_op P fid si inp fall og (CondvarNotify cv) b = Ok (b_notify cv inp fall og b)"
| "build_op P fid si inp fall og (CondvarNotifyAll cv) b =
     Ok (b_resource_move (NCondvarNotifyAll cv) (PlCondvar cv) inp fall og b)"
| "build_op P fid si inp fall og (SemaphoreAcquire r n) b = Ok (b_acquire r n inp fall og b)"
| "build_op P fid si inp fall og (SemaphoreRelease r n) b =
     Ok (b_resource_move (NSemRelease r n) (PlSemaphore r) inp fall og b)"
| "build_op P fid si inp fall og (Call f args dst) b =
     (let (callee, b) = b_ctrl f 0 b in Ok (b_move (NCall f args dst) inp callee [callee] og b))"
| "build_op P fid si inp fall og (Spawn f h) b =
     (let (child, b) = b_ctrl f 0 b in Ok (b_move (NSpawn f h) inp fall [fall, child] og b))"
| "build_op P fid si inp fall og (Scope fs) b = Ok (b_scope fs fid si inp fall og b)"
| "build_op P fid si inp fall og (Join h) b = Ok (b_join h fid si inp fall og b)"
| "build_op P fid si inp fall og (Goto t) b =
     (let (out, b) = b_ctrl fid t b in Ok (b_move (NGoto t) inp out [out] og b))"
| "build_op P fid si inp fall og (Branch c t e) b = Ok (b_branch c t e fid inp og b)"
| "build_op P fid si inp fall og (Switch v cs d) b = Ok (b_switch v cs d fid inp og b)"
| "build_op P fid si inp fall og (Return e) b = Ok (b_return e inp og b)"
| "build_op P fid si inp fall og (UnsupportedOp c) b = Ok b"

definition build_stmt ::
  "sem_program \<Rightarrow> sem_function \<Rightarrow> nat \<Rightarrow> sem_stmt \<Rightarrow> builder \<Rightarrow> builder backend_result" where
  "build_stmt P f si stmt b =
     (let (inp, b) = b_ctrl (f_id f) si b; (fall, b) = b_ctrl (f_id f) (Suc si) b in
      rbind (b_origin P (f_id f) si Statement) (\<lambda>og.
        build_op P (f_id f) si inp fall og (st_op stmt) b))"

text \<open>
  The statements of a body, then the implicit return at the place after the last one.
\<close>

definition build_function :: "sem_program \<Rightarrow> sem_function \<Rightarrow> builder \<Rightarrow> builder backend_result" where
  "build_function P f b =
     rbind (foldM (\<lambda>(si, stmt). build_stmt P f si stmt) (enumerate 0 (f_body f)) b) (\<lambda>b.
       let (inp, b) = b_ctrl (f_id f) (length (f_body f)) b in
       Ok (b_return None inp
         \<lparr>or_module = f_module f, or_function = f_id f, or_sid = None, or_phase = Statement\<rparr> b))"

subsection \<open>Resources\<close>

definition resource_origin :: "sem_program \<Rightarrow> sem_resource \<Rightarrow> phase \<Rightarrow> transition_origin" where
  "resource_origin P res ph =
     \<lparr>or_module = r_module res, or_function = p_entry P, or_sid = None, or_phase = ph\<rparr>"

definition b_waiters ::
  "net_op \<Rightarrow> place_key \<Rightarrow> place_key \<Rightarrow> transition_origin \<Rightarrow> builder \<Rightarrow> builder" where
  "b_waiters op wk rk og b =
     (let (w, b) = b_place wk b; (p, b) = b_place rk b in b_add op (BWait w) None [p] og b)"

definition b_channel :: "sem_program \<Rightarrow> resource_id \<Rightarrow> sem_resource \<Rightarrow> builder \<Rightarrow> builder" where
  "b_channel P r res b =
     (let (ch, b) = b_place (PlChannel r) b; (send, b) = b_place (PlChannelSend r) b;
          (recv, b) = b_place (PlChannelRecv r) b in
      if r_capacity res = 0 then b
      else b_add (NBufferRecvWait r) (BWait recv) None [ch, recv] (resource_origin P res Wake)
        (b_add (NBufferDeliver r) (BWait send) None [ch, send] (resource_origin P res Wake) b))"

definition build_resource :: "sem_program \<Rightarrow> resource_id \<Rightarrow> builder \<Rightarrow> builder backend_result" where
  "build_resource P r b = rbind (resource_of P r) (\<lambda>res. Ok (case r_kind res of
      KVar \<Rightarrow> snd (b_place (PlVar r) b)
    | KAtomic \<Rightarrow> snd (b_place (PlAtomic r) b)
    | KMutex \<Rightarrow> b_waiters (NLockWaitAcquire r) (PlLockWait r) (PlMutex r)
        (resource_origin P res Reacquire) b
    | KSemaphore \<Rightarrow> b_waiters (NSemGrant r) (PlSemWait r) (PlSemaphore r)
        (resource_origin P res Reacquire) b
    | KChannel \<Rightarrow> b_channel P r res b
    | _ \<Rightarrow> b))"

definition net_build :: "sem_program \<Rightarrow> petri_net backend_result" where
  "net_build P =
     rbind (foldM (build_function P) (p_functions P) builder_empty) (\<lambda>b.
     rbind (foldM (build_resource P) (map r_id (p_resources P)) b) (\<lambda>b.
       Ok \<lparr>pn_places = bd_places b, pn_place_of = bd_place_of b, pn_transitions = bd_transitions b,
           pn_entry = p_entry P\<rparr>))"

definition control_places :: "petri_net \<Rightarrow> function_id \<Rightarrow> place_id list" where
  "control_places net f = map pl_id (filter (\<lambda>p. case pl_key p of
     PlControl g i \<Rightarrow> g = f | _ \<Rightarrow> False) (pn_places net))"

end
