(* ===== verification/Net_Exec.thy ===== *)
theory Net_Exec
  imports Net_Build
begin

text \<open>
  The helpers of the Petri-net engine (\<open>src/src/petri/exec.rs\<close>): place lookups, evaluation over a
  net frame, moving control tokens, creating and finishing threads, destinations.
\<close>

record petri_engine =
  pe_program :: sem_program
  pe_net :: petri_net
  pe_bounds :: analysis_bounds
  pe_monitor :: monitor_config

definition engine_with_monitor ::
  "sem_program \<Rightarrow> analysis_bounds \<Rightarrow> monitor_config \<Rightarrow> petri_engine backend_result" where
  "engine_with_monitor P bounds mon = rbind (net_build P) (\<lambda>net.
     Ok \<lparr>pe_program = P, pe_net = net, pe_bounds = bounds, pe_monitor = mon\<rparr>)"

definition engine_new :: "sem_program \<Rightarrow> analysis_bounds \<Rightarrow> petri_engine backend_result" where
  "engine_new P bounds = engine_with_monitor P bounds monitor_unbounded"

definition net_completion :: "petri_engine \<Rightarrow> function_id \<Rightarrow> net_state \<Rightarrow> net_state" where
  "net_completion pe f st =
    (let mx = max_for (pe_monitor pe) f in
     if mx = 0 then st
     else let e = (case bt_get (nst_completed_functions (ns_store st)) f of Some n \<Rightarrow> n | None \<Rightarrow> 0)
          in upd_nstore (\<lambda>s. s\<lparr>nst_completed_functions :=
               bt_insert f (if e < mx then Suc e else e) (nst_completed_functions s)\<rparr>) st)"

subsection \<open>Lookups and evaluation\<close>

definition place_for :: "petri_engine \<Rightarrow> place_key \<Rightarrow> place_id option" where
  "place_for pe k = bt_get (pn_place_of (pe_net pe)) k"

definition ctrl_place :: "petri_engine \<Rightarrow> function_id \<Rightarrow> nat \<Rightarrow> place_id option" where
  "ctrl_place pe f i = place_for pe (PlControl f i)"

text \<open>\<open>NetFrameView::get_shared\<close>: a variable's place shadows an atomic's.\<close>

definition net_shared :: "petri_net \<Rightarrow> net_state \<Rightarrow> resource_id \<Rightarrow> cvalue option" where
  "net_shared net st r =
     Option.bind (bt_get (pn_place_of net)
       (if bt_has (pn_place_of net) (PlVar r) then PlVar r else PlAtomic r)) (read_data st)"

definition net_eval :: "petri_engine \<Rightarrow> net_state \<Rightarrow> frame_id \<Rightarrow> lexpr \<Rightarrow> cvalue backend_result" where
  "net_eval pe st f e = rbind (net_frame_of st f) (\<lambda>fr.
     eval (\<lambda>i. bt_get (nf_locals fr) i) (net_shared (pe_net pe) st) e)"

definition net_slot_initial :: "sem_slot \<Rightarrow> cvalue backend_result" where
  "net_slot_initial s = (case s_init s of Some v \<Rightarrow> Ok v | None \<Rightarrow> default_value (s_ty s))"

definition default_locals :: "sem_program \<Rightarrow> function_id \<Rightarrow> (nat, cvalue) btree backend_result" where
  "default_locals P f = rbind (function_of P f) (\<lambda>fn.
     rbind (mapM net_slot_initial (f_slots fn)) (\<lambda>vs. Ok (enumerate 0 vs)))"

definition net_modeled_params :: "sem_function \<Rightarrow> slot_id list" where
  "net_modeled_params fn = map fst (filter (\<lambda>(i, s). s_class s = PARAM \<and> s_modeled s)
     (enumerate 0 (f_slots fn)))"

subsection \<open>Moving control\<close>

text \<open>A control token is put on a place and the frame's pc follows the place.\<close>

definition place_control :: "petri_engine \<Rightarrow> place_id \<Rightarrow> thread_id \<Rightarrow> frame_id \<Rightarrow> net_state \<Rightarrow> net_state" where
  "place_control pe p t f st =
     put_token p (TControl t f)
       (case nth_opt (pn_places (pe_net pe)) p of
          Some pl \<Rightarrow> (case pl_key pl of
              PlControl fn sid \<Rightarrow> upd_nframe f (\<lambda>fr. fr\<lparr>nf_pc := sid\<rparr>) st
            | _ \<Rightarrow> st)
        | None \<Rightarrow> st)"

definition control_to ::
  "petri_engine \<Rightarrow> function_id \<Rightarrow> nat \<Rightarrow> thread_id \<Rightarrow> frame_id \<Rightarrow> net_state \<Rightarrow> net_state" where
  "control_to pe fn sid t f st = (case ctrl_place pe fn sid of
      Some dest \<Rightarrow> place_control pe dest t f st | None \<Rightarrow> st)"

definition unblock :: "thread_id \<Rightarrow> net_state \<Rightarrow> net_state" where
  "unblock t = upd_nthread t (\<lambda>th. th\<lparr>nt_blocked_at := None\<rparr>)"

definition set_blocked :: "thread_id \<Rightarrow> place_key \<Rightarrow> net_state \<Rightarrow> net_state" where
  "set_blocked t k = upd_nthread t (\<lambda>th. th\<lparr>nt_blocked_at := Some k\<rparr>)"

definition put_control_next :: "petri_engine \<Rightarrow> net_token \<Rightarrow> net_state \<Rightarrow> net_state backend_result" where
  "put_control_next pe x st =
     rbind (unwrap (tok_thread x)) (\<lambda>t.
     rbind (unwrap (tok_frame x)) (\<lambda>f.
     rbind (net_frame_of st f) (\<lambda>fr.
     rbind (ok_or (invalid ''E602'') (ctrl_place pe (nf_function fr) (Suc (nf_pc fr)))) (\<lambda>p.
       Ok (unblock t (place_control pe p t f st))))))"

definition wake_control_next :: "petri_engine \<Rightarrow> net_token \<Rightarrow> net_state \<Rightarrow> net_state backend_result" where
  "wake_control_next pe x st = (case (tok_thread x, tok_frame x) of
      (Some t, Some f) \<Rightarrow> rbind (net_frame_of st f) (\<lambda>fr.
        Ok (unblock t (control_to pe (nf_function fr) (Suc (nf_pc fr)) t f st)))
    | _ \<Rightarrow> Ok st)"

subsection \<open>Creating threads\<close>

definition net_live_threads :: "net_state \<Rightarrow> nat" where
  "net_live_threads st =
     length (filter (\<lambda>t. t \<notin> set (nst_finished (ns_store st))) (bt_keys (nst_threads (ns_store st))))"

definition insert_thread :: "thread_id \<Rightarrow> net_thread \<Rightarrow> net_state \<Rightarrow> net_state" where
  "insert_thread t th = upd_nstore (\<lambda>s. s\<lparr>nst_threads := bt_insert t th (nst_threads s)\<rparr>)"

definition insert_frame :: "frame_id \<Rightarrow> net_frame \<Rightarrow> net_state \<Rightarrow> net_state" where
  "insert_frame f fr = upd_nstore (\<lambda>s. s\<lparr>nst_frames := bt_insert f fr (nst_frames s)\<rparr>)"

definition mark_finished :: "thread_id \<Rightarrow> net_state \<Rightarrow> net_state" where
  "mark_finished t = upd_nstore (\<lambda>s. s\<lparr>nst_finished := bs_insert t (nst_finished s)\<rparr>)"

definition upd_alloc :: "(net_alloc \<Rightarrow> net_alloc) \<Rightarrow> net_state \<Rightarrow> net_state" where
  "upd_alloc g = upd_nstore (\<lambda>s. s\<lparr>nst_alloc := g (nst_alloc s)\<rparr>)"

definition net_new_thread :: "function_id \<Rightarrow> frame_id list \<Rightarrow> scope_id option \<Rightarrow> net_thread" where
  "net_new_thread f stack scope = \<lparr>nt_entry_function = f, nt_stack = stack,
     nt_handle_children = [], nt_parent_scope = scope, nt_blocked_at = None\<rparr>"

definition net_new_frame :: "frame_id \<Rightarrow> function_id \<Rightarrow> (nat, cvalue) btree \<Rightarrow> net_ret_addr option \<Rightarrow> net_frame" where
  "net_new_frame i f locals ret = \<lparr>nf_id = i, nf_function = f, nf_pc = 0, nf_locals = locals,
     nf_handles = [], nf_ret = ret\<rparr>"

text \<open>\<open>Ok (None, ..)\<close>: the thread limit was reached.\<close>

definition net_create_thread ::
  "petri_engine \<Rightarrow> function_id \<Rightarrow> scope_id option \<Rightarrow> net_state
     \<Rightarrow> (thread_id option \<times> net_state \<times> boundary_event list) backend_result" where
  "net_create_thread pe func scope st =
    (if net_live_threads st \<ge> max_threads (pe_bounds pe)
     then Ok (None, st, [boundary_new ThreadLimit])
     else
       let t = na_thread (nst_alloc (ns_store st));
           st1 = upd_alloc (\<lambda>a. a\<lparr>na_thread := Suc (na_thread a)\<rparr>) st
       in rbind (function_of (pe_program pe) func) (\<lambda>fn.
          let st2 = insert_thread t (net_new_thread func [] scope) st1 in
          if is_transparent_nobody fn
          then Ok (Some t, net_completion pe func (mark_finished t st2), [])
          else rbind (default_locals (pe_program pe) func) (\<lambda>locals.
            let f = na_frame (nst_alloc (ns_store st2));
                st3 = insert_frame f (net_new_frame f func locals None)
                        (upd_alloc (\<lambda>a. a\<lparr>na_frame := Suc (na_frame a)\<rparr>) st2);
                st4 = upd_nthread t (\<lambda>th. th\<lparr>nt_stack := nt_stack th @ [f]\<rparr>) st3
            in rbind (ok_or (invalid ''E602'') (ctrl_place pe func 0)) (\<lambda>start.
                 Ok (Some t, place_control pe start t f st4, [])))))"

definition net_within_bound :: "petri_engine \<Rightarrow> net_state \<Rightarrow> function_id \<Rightarrow> bool backend_result" where
  "net_within_bound pe st func = rbind (function_of (pe_program pe) func) (\<lambda>fn.
     Ok (case f_bound fn of
         None \<Rightarrow> True
       | Some bound \<Rightarrow> length (filter (\<lambda>(i, t). i \<notin> set (nst_finished (ns_store st)) \<and>
             nt_entry_function t = func) (nst_threads (ns_store st))) < nat (max bound 0)))"

subsection \<open>Finishing threads\<close>

definition remove_thread :: "thread_id \<Rightarrow> net_state \<Rightarrow> net_state" where
  "remove_thread t = upd_nstore (\<lambda>s. s\<lparr>nst_threads := bt_remove t (nst_threads s),
     nst_finished := bs_remove t (nst_finished s)\<rparr>)"

text \<open>The owner of a finished scope takes its wait token back and moves on.\<close>

definition resume_owner ::
  "petri_engine \<Rightarrow> function_id \<Rightarrow> nat \<Rightarrow> thread_id \<Rightarrow> frame_id \<Rightarrow> net_state \<Rightarrow> net_state" where
  "resume_owner pe fn sid t f st = (case place_for pe (PlScopeWait fn sid) of
      None \<Rightarrow> st
    | Some p \<Rightarrow> (case take_token p (TScopeWait t f) st of
          (False, st) \<Rightarrow> st
        | (True, st) \<Rightarrow> unblock t (control_to pe fn (Suc sid) t f st)))"

definition reclaim_scope :: "scope_id \<Rightarrow> net_state \<Rightarrow> net_state" where
  "reclaim_scope scope st =
    (let members = map fst (filter (\<lambda>(i, t). nt_parent_scope t = Some scope) (nst_threads (ns_store st)))
     in upd_nstore (\<lambda>s. s\<lparr>nst_scopes := bt_remove scope (nst_scopes s)\<rparr>)
          (fold remove_thread members st))"

definition net_close_scope :: "petri_engine \<Rightarrow> scope_id \<Rightarrow> net_state \<Rightarrow> net_state backend_result" where
  "net_close_scope pe scope st =
     rbind (unwrap (bt_get (nst_scopes (ns_store st)) scope)) (\<lambda>sc.
     rbind (net_frame_of st (nc_owner_frame sc)) (\<lambda>fr.
       let fn = nf_function fr; sid = nc_owner_sid sc;
           st1 = upd_nstore (\<lambda>s. s\<lparr>nst_completed_scopes :=
                   bs_insert (fn, sid) (nst_completed_scopes s)\<rparr>) st
       in Ok (reclaim_scope scope (resume_owner pe fn sid (nc_owner sc) (nc_owner_frame sc) st1))))"

definition net_leave_scope :: "petri_engine \<Rightarrow> thread_id \<Rightarrow> net_state \<Rightarrow> net_state backend_result" where
  "net_leave_scope pe t st =
    (case Option.bind (bt_get (nst_threads (ns_store st)) t) nt_parent_scope of
       None \<Rightarrow> Ok st
     | Some scope \<Rightarrow> (case bt_get (nst_scopes (ns_store st)) scope of
         None \<Rightarrow> Ok st
       | Some sc \<Rightarrow>
           let rest = bs_remove t (nc_remaining sc);
               st' = upd_nstore (\<lambda>s. s\<lparr>nst_scopes :=
                       bt_insert scope (sc\<lparr>nc_remaining := rest\<rparr>) (nst_scopes s)\<rparr>) st
           in if rest = [] then net_close_scope pe scope st' else Ok st'))"

text \<open>
  One waiting joiner: when its handle names the finished thread, the joiner moves on, the handle
  binding is consumed and the thread is reclaimed.
\<close>

definition handle_of :: "net_state \<Rightarrow> frame_id \<Rightarrow> string \<Rightarrow> handle_id option" where
  "handle_of st f h = Option.bind (bt_get (nst_frames (ns_store st)) f) (\<lambda>fr. bt_get (nf_handles fr) h)"

definition child_of :: "net_state \<Rightarrow> thread_id \<Rightarrow> handle_id \<Rightarrow> thread_id option" where
  "child_of st t h =
     Option.bind (bt_get (nst_threads (ns_store st)) t) (\<lambda>th. bt_get (nt_handle_children th) h)"

definition consume_handle :: "thread_id \<Rightarrow> frame_id \<Rightarrow> string \<Rightarrow> net_state \<Rightarrow> net_state" where
  "consume_handle t f h st = (case handle_of st f h of
      None \<Rightarrow> st
    | Some i \<Rightarrow> upd_nframe f (\<lambda>fr. fr\<lparr>nf_handles := bt_remove h (nf_handles fr)\<rparr>)
        (upd_nthread t (\<lambda>th. th\<lparr>nt_handle_children := bt_remove i (nt_handle_children th)\<rparr>) st))"

definition wake_joiner ::
  "petri_engine \<Rightarrow> thread_id \<Rightarrow> function_id \<Rightarrow> nat \<Rightarrow> place_id \<Rightarrow> net_token \<Rightarrow> net_state
     \<Rightarrow> net_state backend_result" where
  "wake_joiner pe thread fn sid p x st = (case x of
      TJoinWait jt jf \<Rightarrow>
        rbind (function_of (pe_program pe) fn) (\<lambda>f.
        rbind (index (f_body f) sid) (\<lambda>s. case st_op s of
            Join h \<Rightarrow> Ok (if Option.bind (handle_of st jf h) (child_of st jt) = Some thread
              then remove_thread thread (consume_handle jt jf h (unblock jt
                     (control_to pe fn (Suc sid) jt jf (snd (take_token p x st)))))
              else st)
          | _ \<Rightarrow> Ok st))
    | _ \<Rightarrow> Ok st)"

definition wake_joiners_at :: "petri_engine \<Rightarrow> thread_id \<Rightarrow> place \<Rightarrow> net_state \<Rightarrow> net_state backend_result" where
  "wake_joiners_at pe thread pl st = (case pl_key pl of
      PlJoinWait fn sid \<Rightarrow> (case place_for pe (pl_key pl) of
          None \<Rightarrow> Ok st
        | Some p \<Rightarrow> foldM (wake_joiner pe thread fn sid p) (place_tokens st p) st)
    | _ \<Rightarrow> Ok st)"

definition net_finish_thread ::
  "petri_engine \<Rightarrow> thread_id \<Rightarrow> function_id \<Rightarrow> net_state \<Rightarrow> net_state backend_result" where
  "net_finish_thread pe t func st =
     rbind (net_leave_scope pe t (net_completion pe func (mark_finished t st)))
       (foldM (wake_joiners_at pe t) (pn_places (pe_net pe)))"

subsection \<open>Destinations and payloads\<close>

definition net_payload_ok :: "petri_engine \<Rightarrow> resource_id \<Rightarrow> cvalue \<Rightarrow> bool backend_result" where
  "net_payload_ok pe c v = rbind (resource_of (pe_program pe) c) (\<lambda>res.
     Ok (case r_ty res of Some ty \<Rightarrow> within_type v ty | None \<Rightarrow> True))"

fun net_dst_type_ok ::
  "petri_engine \<Rightarrow> net_state \<Rightarrow> frame_id \<Rightarrow> slot_ref \<Rightarrow> cvalue \<Rightarrow> bool backend_result" where
  "net_dst_type_ok pe st f Discard v = Ok True"
| "net_dst_type_ok pe st f (Local i) v = (case bt_get (nst_frames (ns_store st)) f of
      None \<Rightarrow> Ok True
    | Some fr \<Rightarrow> rbind (function_of (pe_program pe) (nf_function fr)) (\<lambda>fn.
        Ok (case nth_opt (f_slots fn) i of Some s \<Rightarrow> within_type v (s_ty s) | None \<Rightarrow> True)))"
| "net_dst_type_ok pe st f (Shared r) v = net_payload_ok pe r v"

fun net_put_dst ::
  "petri_engine \<Rightarrow> frame_id \<Rightarrow> slot_ref \<Rightarrow> cvalue \<Rightarrow> net_state \<Rightarrow> net_state backend_result" where
  "net_put_dst pe f Discard v st = Ok st"
| "net_put_dst pe f (Local i) v st =
     frame_mut f (\<lambda>fr. fr\<lparr>nf_locals := bt_insert i v (nf_locals fr)\<rparr>) st"
| "net_put_dst pe f (Shared r) v st = (case place_for pe (PlVar r) of
      Some p \<Rightarrow> Ok (set_data p v st)
    | None \<Rightarrow> (case place_for pe (PlAtomic r) of
        Some p \<Rightarrow> Ok (set_data p v st)
      | None \<Rightarrow> Err (invalid ''E900'')))"

text \<open>\<open>None\<close> is the code's \<open>Ok(false)\<close>: the value is outside the domain and nothing is written.\<close>

definition net_write_dst ::
  "petri_engine \<Rightarrow> frame_id \<Rightarrow> slot_ref \<Rightarrow> cvalue \<Rightarrow> net_state \<Rightarrow> net_state option backend_result" where
  "net_write_dst pe f d v st = rbind (net_dst_type_ok pe st f d v) (\<lambda>good.
     if \<not> good then Ok None else rbind (net_put_dst pe f d v st) (\<lambda>st. Ok (Some st)))"

definition net_current_stmt :: "petri_engine \<Rightarrow> net_state \<Rightarrow> frame_id \<Rightarrow> sem_op backend_result" where
  "net_current_stmt pe st f = rbind (net_frame_of st f) (\<lambda>fr.
     rbind (function_of (pe_program pe) (nf_function fr)) (\<lambda>fn.
     rbind (index (f_body fn) (nf_pc fr)) (\<lambda>s. Ok (st_op s))))"

definition net_recv_dst :: "petri_engine \<Rightarrow> net_state \<Rightarrow> frame_id \<Rightarrow> slot_ref option backend_result" where
  "net_recv_dst pe st f = rbind (net_current_stmt pe st f) (\<lambda>op.
     Ok (case op of ChannelRecv c d \<Rightarrow> Some d | _ \<Rightarrow> None))"

text \<open>The destination of a receive, when it has one that is not \<open>_\<close>.\<close>

definition net_receive ::
  "petri_engine \<Rightarrow> frame_id \<Rightarrow> cvalue \<Rightarrow> net_state \<Rightarrow> net_state option backend_result" where
  "net_receive pe f v st = rbind (net_recv_dst pe st f) (\<lambda>d. case d of
      None \<Rightarrow> Ok (Some st)
    | Some d \<Rightarrow> if d = Discard then Ok (Some st) else net_write_dst pe f d v st)"

fun value_matches_label :: "cvalue \<Rightarrow> string \<Rightarrow> bool" where
  "value_matches_label (VEnum e) l = (e = l)"
| "value_matches_label (VInt i) l = (str_parse_i64 l = Some i)"
| "value_matches_label _ l = False"

end
