(* ===== verification/Net_Fire.thy ===== *)
theory Net_Fire
  imports Net_Exec
begin

text \<open>
  Firing a transition (\<open>PetriEngine::fire\<close> of \<open>src/src/petri/exec.rs\<close>): the input control token is
  taken, the statement is recorded as reached, and the operation updates the state. One definition
  per operation, in the order of the code's match; \<open>None\<close> is a disabled firing.
\<close>

datatype fire_bind =
    FControl thread_id frame_id
  | FControlWait thread_id frame_id net_token
  | FControlChooseWait thread_id frame_id net_token
  | FWait net_token
  | FPair net_token net_token

fun bind_control :: "fire_bind \<Rightarrow> (thread_id \<times> frame_id) option" where
  "bind_control (FControl t f) = Some (t, f)"
| "bind_control (FControlWait t f w) = Some (t, f)"
| "bind_control (FControlChooseWait t f w) = Some (t, f)"
| "bind_control _ = None"

fun bound_wait :: "fire_bind \<Rightarrow> net_token option" where
  "bound_wait (FControlWait t f w) = Some w"
| "bound_wait (FControlChooseWait t f w) = Some w"
| "bound_wait _ = None"

fun binding_ids :: "fire_bind \<Rightarrow> thread_id \<times> frame_id" where
  "binding_ids (FControl t f) = (t, f)"
| "binding_ids (FControlWait t f w) = (t, f)"
| "binding_ids (FControlChooseWait t f w) = (t, f)"
| "binding_ids (FWait x) = (case tok_thread x of Some t \<Rightarrow> t | None \<Rightarrow> 0,
     case tok_frame x of Some f \<Rightarrow> f | None \<Rightarrow> 0)"
| "binding_ids (FPair a b) = (case tok_thread a of Some t \<Rightarrow> t | None \<Rightarrow> 0,
     case tok_frame a of Some f \<Rightarrow> f | None \<Rightarrow> 0)"

text \<open>The local variables of \<open>fire\<close> that its arms use.\<close>

record fire_ctx =
  fc_control :: "(thread_id \<times> frame_id) option"
  fc_bind :: fire_bind
  fc_next :: "place_id option"
  fc_at :: string

type_synonym nresult = "net_state option backend_result"

definition with_control :: "fire_ctx \<Rightarrow> (thread_id \<Rightarrow> frame_id \<Rightarrow> ('a) backend_result) \<Rightarrow> 'a backend_result" where
  "with_control c k = rbind (unwrap (fc_control c)) (\<lambda>(t, f). k t f)"

definition with_wait :: "fire_ctx \<Rightarrow> (net_token \<Rightarrow> nresult) \<Rightarrow> nresult" where
  "with_wait c k = (case fc_bind c of FWait x \<Rightarrow> k x | _ \<Rightarrow> Ok None)"

definition with_place :: "petri_engine \<Rightarrow> place_key \<Rightarrow> (place_id \<Rightarrow> 'a backend_result) \<Rightarrow> 'a backend_result" where
  "with_place pe k g = rbind (unwrap (place_for pe k)) g"

definition nguard :: "bool \<Rightarrow> nresult \<Rightarrow> nresult" where
  "nguard b m = (if b then m else Ok None)"

text \<open>The common ending: the control token goes to the transition's output place.\<close>

definition proceed :: "petri_engine \<Rightarrow> fire_ctx \<Rightarrow> net_state \<Rightarrow> nresult" where
  "proceed pe c st = rbind (unwrap (fc_next c)) (\<lambda>out. with_control c (\<lambda>t f.
     Ok (Some (place_control pe out t f st))))"

definition and_then :: "nresult \<Rightarrow> (net_state \<Rightarrow> nresult) \<Rightarrow> nresult" where
  "and_then m k = rbind m (\<lambda>r. case r of None \<Rightarrow> Ok None | Some st \<Rightarrow> k st)"

definition nfail :: "fire_ctx \<Rightarrow> string \<Rightarrow> 'a backend_result" where
  "nfail c code = Err (error_at (fc_at c) (invalid code))"

definition taking :: "place_id \<Rightarrow> net_token \<Rightarrow> net_state \<Rightarrow> (net_state \<Rightarrow> nresult) \<Rightarrow> nresult" where
  "taking p x st k = (case take_token p x st of (True, st') \<Rightarrow> k st' | (False, _) \<Rightarrow> Ok None)"

text \<open>A thread leaves control and waits: its wait token, and the key it is blocked at.\<close>

definition wait_at ::
  "place_id \<Rightarrow> net_token \<Rightarrow> thread_id \<Rightarrow> place_key \<Rightarrow> net_state \<Rightarrow> nresult" where
  "wait_at p x t k st = Ok (Some (set_blocked t k (put_token p x st)))"

definition advance_waiter :: "petri_engine \<Rightarrow> net_token \<Rightarrow> net_state \<Rightarrow> nresult" where
  "advance_waiter pe x st = rbind (put_control_next pe x st) (\<lambda>st. Ok (Some st))"

subsection \<open>Local and shared data\<close>

definition fire_assign_local :: "petri_engine \<Rightarrow> fire_ctx \<Rightarrow> slot_ref \<Rightarrow> lexpr \<Rightarrow> net_state \<Rightarrow> nresult" where
  "fire_assign_local pe c target e st = with_control c (\<lambda>t f.
     rbind (net_eval pe st f e) (\<lambda>v.
     rbind (case target of
         Local i \<Rightarrow> rbind (net_frame_of st f) (\<lambda>fr.
           rbind (function_of (pe_program pe) (nf_function fr)) (\<lambda>fn.
           rbind (index (f_slots fn) i) (\<lambda>s. Ok (within_type v (s_ty s)))))
       | _ \<Rightarrow> Ok True) (\<lambda>good.
       nguard good
         (rbind (frame_mut f (\<lambda>fr. fr\<lparr>nf_locals :=
             bt_insert (case target of Local i \<Rightarrow> i | _ \<Rightarrow> 0) v (nf_locals fr)\<rparr>) st)
           (proceed pe c)))))"

definition fire_read_var ::
  "petri_engine \<Rightarrow> fire_ctx \<Rightarrow> resource_id \<Rightarrow> slot_ref option \<Rightarrow> net_state \<Rightarrow> nresult" where
  "fire_read_var pe c r dst st = with_control c (\<lambda>t f. with_place pe (PlVar r) (\<lambda>p.
     rbind (ok_or (invalid ''E900'') (read_data st p)) (\<lambda>v.
       and_then (case dst of None \<Rightarrow> Ok (Some st) | Some d \<Rightarrow> net_write_dst pe f d v st)
         (proceed pe c))))"

definition net_type_of :: "petri_engine \<Rightarrow> resource_id \<Rightarrow> base_type backend_result" where
  "net_type_of pe r = rbind (resource_of (pe_program pe) r) (\<lambda>res. unwrap (r_ty res))"

definition fire_store ::
  "petri_engine \<Rightarrow> fire_ctx \<Rightarrow> place_key \<Rightarrow> resource_id \<Rightarrow> lexpr \<Rightarrow> net_state \<Rightarrow> nresult" where
  "fire_store pe c k r e st = with_control c (\<lambda>t f.
     rbind (net_eval pe st f e) (\<lambda>v.
     rbind (net_type_of pe r) (\<lambda>ty.
       nguard (within_type v ty) (with_place pe k (\<lambda>p. proceed pe c (set_data p v st))))))"

definition fire_atomic_load ::
  "petri_engine \<Rightarrow> fire_ctx \<Rightarrow> resource_id \<Rightarrow> slot_ref \<Rightarrow> net_state \<Rightarrow> nresult" where
  "fire_atomic_load pe c r dst st = with_control c (\<lambda>t f. with_place pe (PlAtomic r) (\<lambda>p.
     rbind (ok_or (invalid ''E900'') (read_data st p)) (\<lambda>v.
       and_then (net_write_dst pe f dst v st) (proceed pe c))))"

definition fire_atomic_cas ::
  "petri_engine \<Rightarrow> fire_ctx \<Rightarrow> resource_id \<Rightarrow> lexpr \<Rightarrow> lexpr \<Rightarrow> slot_ref \<Rightarrow> net_state \<Rightarrow> nresult" where
  "fire_atomic_cas pe c r expected desired dst st = with_control c (\<lambda>t f.
     rbind (net_eval pe st f expected) (\<lambda>ex.
     rbind (net_eval pe st f desired) (\<lambda>des.
     rbind (net_type_of pe r) (\<lambda>ty.
       nguard (within_type des ty) (with_place pe (PlAtomic r) (\<lambda>p.
         rbind (ok_or (invalid ''E900'') (read_data st p)) (\<lambda>old.
         and_then (net_write_dst pe f dst old st) (\<lambda>st.
           proceed pe c (if old = ex then set_data p des st else st)))))))))"

subsection \<open>Mutexes\<close>

definition fire_lock_grant :: "petri_engine \<Rightarrow> fire_ctx \<Rightarrow> resource_id \<Rightarrow> net_state \<Rightarrow> nresult" where
  "fire_lock_grant pe c r st = with_control c (\<lambda>t f. with_place pe (PlMutex r) (\<lambda>m.
     nguard (read_mutex st m = Some MFree) (proceed pe c (set_mutex_token m (MHeld t) st))))"

definition fire_lock_block :: "petri_engine \<Rightarrow> fire_ctx \<Rightarrow> resource_id \<Rightarrow> net_state \<Rightarrow> nresult" where
  "fire_lock_block pe c r st = with_control c (\<lambda>t f. with_place pe (PlMutex r) (\<lambda>m.
     nguard (case read_mutex st m of Some (MHeld h) \<Rightarrow> True | _ \<Rightarrow> False)
       (rbind (unwrap (fc_next c)) (\<lambda>out. wait_at out (TLockWait t f) t (PlLockWait r) st))))"

definition fire_unlock :: "petri_engine \<Rightarrow> fire_ctx \<Rightarrow> resource_id \<Rightarrow> net_state \<Rightarrow> nresult" where
  "fire_unlock pe c r st = with_control c (\<lambda>t f. with_place pe (PlMutex r) (\<lambda>m.
     if read_mutex st m = Some (MHeld t) then proceed pe c (set_mutex_token m MFree st)
     else nfail c ''E510''))"

definition fire_lock_wait :: "petri_engine \<Rightarrow> fire_ctx \<Rightarrow> resource_id \<Rightarrow> net_state \<Rightarrow> nresult" where
  "fire_lock_wait pe c r st = with_wait c (\<lambda>x.
     rbind (unwrap (tok_thread x)) (\<lambda>t. rbind (unwrap (tok_frame x)) (\<lambda>_.
     with_place pe (PlMutex r) (\<lambda>m.
       nguard (read_mutex st m = Some MFree) (with_place pe (PlLockWait r) (\<lambda>lw.
         taking lw x st (\<lambda>st. advance_waiter pe x (set_mutex_token m (MHeld t) st))))))))"

subsection \<open>Condition variables\<close>

definition fire_wait :: "petri_engine \<Rightarrow> fire_ctx \<Rightarrow> resource_id \<Rightarrow> resource_id \<Rightarrow> net_state \<Rightarrow> nresult" where
  "fire_wait pe c cv lock st = with_control c (\<lambda>t f. with_place pe (PlMutex lock) (\<lambda>m.
     if read_mutex st m = Some (MHeld t) then
       with_place pe (PlCondvar cv) (\<lambda>p.
         wait_at p (TCondvarWait t f lock) t (PlCondvar cv) (set_mutex_token m MFree st))
     else nfail c ''E511''))"

text \<open>A notified waiter is moved to the queue of its own lock.\<close>

definition requeue ::
  "petri_engine \<Rightarrow> thread_id \<Rightarrow> frame_id \<Rightarrow> resource_id \<Rightarrow> net_state \<Rightarrow> net_state backend_result" where
  "requeue pe t f lock st = with_place pe (PlLockWait lock) (\<lambda>lw.
     Ok (set_blocked t (PlLockWait lock) (put_token lw (TLockWait t f) st)))"

definition fire_notify_hit :: "petri_engine \<Rightarrow> fire_ctx \<Rightarrow> resource_id \<Rightarrow> net_state \<Rightarrow> nresult" where
  "fire_notify_hit pe c cv st = with_control c (\<lambda>t f. case fc_bind c of
      FControlChooseWait ct cf (TCondvarWait wt wfr lock) \<Rightarrow> with_place pe (PlCondvar cv) (\<lambda>p.
        taking p (TCondvarWait wt wfr lock) st (\<lambda>st.
          rbind (requeue pe wt wfr lock st) (proceed pe c)))
    | _ \<Rightarrow> Ok None)"

fun is_condvar_wait :: "net_token \<Rightarrow> bool" where
  "is_condvar_wait (TCondvarWait t f l) = True"
| "is_condvar_wait _ = False"

definition fire_notify_miss :: "petri_engine \<Rightarrow> fire_ctx \<Rightarrow> resource_id \<Rightarrow> net_state \<Rightarrow> nresult" where
  "fire_notify_miss pe c cv st = with_control c (\<lambda>t f. with_place pe (PlCondvar cv) (\<lambda>p.
     nguard (list_all (\<lambda>x. \<not> is_condvar_wait x) (place_tokens st p)) (proceed pe c st)))"

fun requeue_waiter :: "petri_engine \<Rightarrow> place_id \<Rightarrow> net_token \<Rightarrow> net_state \<Rightarrow> net_state backend_result" where
  "requeue_waiter pe p (TCondvarWait t f lock) st =
     requeue pe t f lock (snd (take_token p (TCondvarWait t f lock) st))"
| "requeue_waiter pe p _ st = Ok st"

definition fire_notify_all :: "petri_engine \<Rightarrow> fire_ctx \<Rightarrow> resource_id \<Rightarrow> net_state \<Rightarrow> nresult" where
  "fire_notify_all pe c cv st = with_control c (\<lambda>t f. with_place pe (PlCondvar cv) (\<lambda>p.
     rbind (foldM (requeue_waiter pe p) (filter is_condvar_wait (place_tokens st p)) st)
       (proceed pe c)))"

subsection \<open>Semaphores\<close>

definition data_int :: "net_state \<Rightarrow> place_id \<Rightarrow> int option" where
  "data_int st p = Option.bind (read_data st p) as_int"

definition permits_at :: "net_state \<Rightarrow> place_id \<Rightarrow> int" where
  "permits_at st p = (case data_int st p of Some n \<Rightarrow> n | None \<Rightarrow> 0)"

definition fire_acquire :: "petri_engine \<Rightarrow> fire_ctx \<Rightarrow> resource_id \<Rightarrow> int \<Rightarrow> net_state \<Rightarrow> nresult" where
  "fire_acquire pe c r count st =
    (if count \<le> 0 then nfail c ''E904''
     else with_control c (\<lambda>t f. with_place pe (PlSemaphore r) (\<lambda>p.
       rbind (ok_or (invalid ''E900'') (data_int st p)) (\<lambda>avail.
         nguard (\<not> avail < count) (proceed pe c (set_data p (VInt (avail - count)) st))))))"

definition fire_acquire_block ::
  "petri_engine \<Rightarrow> fire_ctx \<Rightarrow> resource_id \<Rightarrow> int \<Rightarrow> net_state \<Rightarrow> nresult" where
  "fire_acquire_block pe c r count st = with_control c (\<lambda>t f. with_place pe (PlSemaphore r) (\<lambda>p.
     nguard (\<not> permits_at st p \<ge> count) (with_place pe (PlSemWait r) (\<lambda>sw.
       wait_at sw (TSemWait t f count) t (PlSemWait r) st))))"

definition fire_release :: "petri_engine \<Rightarrow> fire_ctx \<Rightarrow> resource_id \<Rightarrow> int \<Rightarrow> net_state \<Rightarrow> nresult" where
  "fire_release pe c r count st =
    (if count \<le> 0 then nfail c ''E904''
     else with_control c (\<lambda>t f. with_place pe (PlSemaphore r) (\<lambda>p.
       case checked_add (permits_at st p) count of
         None \<Rightarrow> nfail c ''E905''
       | Some n \<Rightarrow> proceed pe c (set_data p (VInt n) st))))"

definition fire_sem_grant :: "petri_engine \<Rightarrow> fire_ctx \<Rightarrow> resource_id \<Rightarrow> net_state \<Rightarrow> nresult" where
  "fire_sem_grant pe c r st = with_wait c (\<lambda>x. case x of
      TSemWait t f need \<Rightarrow> with_place pe (PlSemaphore r) (\<lambda>p.
        nguard (\<not> permits_at st p < need) (with_place pe (PlSemWait r) (\<lambda>sw.
          taking sw x st (\<lambda>st'. advance_waiter pe x (set_data p (VInt (permits_at st p - need)) st')))))
    | _ \<Rightarrow> Ok None)"

section \<open>Channels\<close>

text \<open>
  Firing the channel operations (\<open>SendRegister\<close> to \<open>BufferRecvWait\<close> of \<open>PetriEngine::fire\<close>,
  \<open>src/src/petri/exec.rs\<close>): rendezvous on unbuffered channels, and the buffer of the others, kept
  as an array value on the channel's place.
\<close>

text \<open>The value a thread at a \<open>send\<close> statement sends; any other statement is an error.\<close>

definition send_value :: "petri_engine \<Rightarrow> fire_ctx \<Rightarrow> frame_id \<Rightarrow> net_state \<Rightarrow> cvalue backend_result" where
  "send_value pe c f st = rbind (net_current_stmt pe st f) (\<lambda>op. case op of
      ChannelSend ch e \<Rightarrow> net_eval pe st f e | _ \<Rightarrow> Err (invalid ''E999''))"

definition buffer_at :: "net_state \<Rightarrow> place_id \<Rightarrow> cvalue list option" where
  "buffer_at st p = (case read_data st p of Some (VArray a) \<Rightarrow> Some a | _ \<Rightarrow> None)"

definition buffered :: "net_state \<Rightarrow> place_id \<Rightarrow> nat" where
  "buffered st p = (case buffer_at st p of Some a \<Rightarrow> length a | None \<Rightarrow> 0)"

definition push_value :: "place_id \<Rightarrow> cvalue \<Rightarrow> net_state \<Rightarrow> net_state" where
  "push_value p v st = (case buffer_at st p of
      Some a \<Rightarrow> set_data p (VArray (a @ [v])) st | None \<Rightarrow> st)"

definition pop_value :: "place_id \<Rightarrow> net_state \<Rightarrow> (cvalue \<times> net_state) option" where
  "pop_value p st = (case buffer_at st p of
      Some (v # a) \<Rightarrow> Some (v, set_data p (VArray a) st) | _ \<Rightarrow> None)"

subsection \<open>Rendezvous\<close>

definition fire_send_register :: "petri_engine \<Rightarrow> fire_ctx \<Rightarrow> resource_id \<Rightarrow> net_state \<Rightarrow> nresult" where
  "fire_send_register pe c ch st = with_control c (\<lambda>t f. with_place pe (PlChannelRecv ch) (\<lambda>recv.
     nguard (place_tokens st recv = [])
       (rbind (send_value pe c f st) (\<lambda>v. rbind (net_payload_ok pe ch v) (\<lambda>good.
         nguard good (rbind (unwrap (fc_next c)) (\<lambda>out.
           wait_at out (TSendWait t f v) t (PlChannelSend ch) st)))))))"

definition fire_recv_register :: "petri_engine \<Rightarrow> fire_ctx \<Rightarrow> resource_id \<Rightarrow> net_state \<Rightarrow> nresult" where
  "fire_recv_register pe c ch st = with_control c (\<lambda>t f. with_place pe (PlChannelSend ch) (\<lambda>send.
     nguard (place_tokens st send = [])
       (rbind (unwrap (fc_next c)) (\<lambda>out.
         wait_at out (TRecvWait t f) t (PlChannelRecv ch) st))))"

definition fire_send_pair :: "petri_engine \<Rightarrow> fire_ctx \<Rightarrow> resource_id \<Rightarrow> net_state \<Rightarrow> nresult" where
  "fire_send_pair pe c ch st = with_control c (\<lambda>t f. case bound_wait (fc_bind c) of
      Some (TRecvWait rt rf) \<Rightarrow>
        rbind (send_value pe c f st) (\<lambda>v. rbind (net_payload_ok pe ch v) (\<lambda>good.
          nguard good (with_place pe (PlChannelRecv ch) (\<lambda>recv.
            taking recv (TRecvWait rt rf) st (\<lambda>st.
              and_then (net_receive pe rf v st) (\<lambda>st.
                rbind (wake_control_next pe (TRecvWait rt rf) st) (proceed pe c)))))))
    | _ \<Rightarrow> Ok None)"

definition fire_recv_pair :: "petri_engine \<Rightarrow> fire_ctx \<Rightarrow> resource_id \<Rightarrow> net_state \<Rightarrow> nresult" where
  "fire_recv_pair pe c ch st = with_control c (\<lambda>t f. case bound_wait (fc_bind c) of
      Some (TSendWait sd sf v) \<Rightarrow>
        rbind (net_payload_ok pe ch v) (\<lambda>good.
          nguard good (with_place pe (PlChannelSend ch) (\<lambda>send.
            taking send (TSendWait sd sf v) st (\<lambda>st.
              and_then (net_receive pe f v st) (\<lambda>st.
                rbind (wake_control_next pe (TSendWait sd sf v) st) (proceed pe c))))))
    | _ \<Rightarrow> Ok None)"

definition fire_rendezvous :: "petri_engine \<Rightarrow> fire_ctx \<Rightarrow> resource_id \<Rightarrow> net_state \<Rightarrow> nresult" where
  "fire_rendezvous pe c ch st = (case fc_bind c of
      FPair (TSendWait sd sf v) (TRecvWait rt rf) \<Rightarrow>
        rbind (net_payload_ok pe ch v) (\<lambda>good.
          nguard good (with_place pe (PlChannelSend ch) (\<lambda>send. with_place pe (PlChannelRecv ch) (\<lambda>recv.
            taking send (TSendWait sd sf v) st (\<lambda>st. taking recv (TRecvWait rt rf) st (\<lambda>st.
              and_then (net_receive pe rf v st) (\<lambda>st.
                rbind (put_control_next pe (TSendWait sd sf v) st)
                  (advance_waiter pe (TRecvWait rt rf)))))))))
    | _ \<Rightarrow> Ok None)"

subsection \<open>Buffered channels\<close>

definition capacity_of :: "petri_engine \<Rightarrow> resource_id \<Rightarrow> nat backend_result" where
  "capacity_of pe ch = rbind (resource_of (pe_program pe) ch) (\<lambda>res. Ok (r_capacity res))"

definition fire_send_buf :: "petri_engine \<Rightarrow> fire_ctx \<Rightarrow> resource_id \<Rightarrow> lexpr \<Rightarrow> net_state \<Rightarrow> nresult" where
  "fire_send_buf pe c ch e st = with_control c (\<lambda>t f.
     rbind (capacity_of pe ch) (\<lambda>cap. with_place pe (PlChannel ch) (\<lambda>p.
       nguard (\<not> buffered st p \<ge> cap)
         (rbind (net_eval pe st f e) (\<lambda>v. rbind (net_payload_ok pe ch v) (\<lambda>good.
           nguard good (proceed pe c (push_value p v st))))))))"

definition fire_send_buf_block ::
  "petri_engine \<Rightarrow> fire_ctx \<Rightarrow> resource_id \<Rightarrow> lexpr \<Rightarrow> net_state \<Rightarrow> nresult" where
  "fire_send_buf_block pe c ch e st = with_control c (\<lambda>t f.
     rbind (capacity_of pe ch) (\<lambda>cap. with_place pe (PlChannel ch) (\<lambda>p.
       nguard (\<not> buffered st p < cap)
         (rbind (net_eval pe st f e) (\<lambda>v. rbind (net_payload_ok pe ch v) (\<lambda>good.
           nguard good (rbind (unwrap (fc_next c)) (\<lambda>out.
             wait_at out (TSendWait t f v) t (PlChannelSend ch) st))))))))"

definition fire_recv_buf :: "petri_engine \<Rightarrow> fire_ctx \<Rightarrow> resource_id \<Rightarrow> slot_ref \<Rightarrow> net_state \<Rightarrow> nresult" where
  "fire_recv_buf pe c ch dst st = with_control c (\<lambda>t f. with_place pe (PlChannel ch) (\<lambda>p.
     case pop_value p st of
       None \<Rightarrow> Ok None
     | Some (v, st) \<Rightarrow> and_then (net_write_dst pe f dst v st) (proceed pe c)))"

definition fire_recv_buf_block :: "petri_engine \<Rightarrow> fire_ctx \<Rightarrow> resource_id \<Rightarrow> net_state \<Rightarrow> nresult" where
  "fire_recv_buf_block pe c ch st = with_control c (\<lambda>t f. with_place pe (PlChannel ch) (\<lambda>p.
     nguard (case buffer_at st p of Some a \<Rightarrow> a = [] | None \<Rightarrow> True)
       (rbind (unwrap (fc_next c)) (\<lambda>out.
         wait_at out (TRecvWait t f) t (PlChannelRecv ch) st))))"

definition fire_deliver :: "petri_engine \<Rightarrow> fire_ctx \<Rightarrow> resource_id \<Rightarrow> net_state \<Rightarrow> nresult" where
  "fire_deliver pe c ch st = with_wait c (\<lambda>x. case x of
      TSendWait t f v \<Rightarrow> rbind (capacity_of pe ch) (\<lambda>cap. with_place pe (PlChannel ch) (\<lambda>p.
        nguard (\<not> buffered st p \<ge> cap)
          (rbind (net_payload_ok pe ch v) (\<lambda>good. nguard good
            (with_place pe (PlChannelSend ch) (\<lambda>send. taking send x st (\<lambda>st.
              advance_waiter pe x (push_value p v st))))))))
    | _ \<Rightarrow> Ok None)"

definition fire_recv_wait :: "petri_engine \<Rightarrow> fire_ctx \<Rightarrow> resource_id \<Rightarrow> net_state \<Rightarrow> nresult" where
  "fire_recv_wait pe c ch st = with_wait c (\<lambda>x. case x of
      TRecvWait t f \<Rightarrow> with_place pe (PlChannel ch) (\<lambda>p. case pop_value p st of
          None \<Rightarrow> Ok None
        | Some (v, st) \<Rightarrow> with_place pe (PlChannelRecv ch) (\<lambda>recv. taking recv x st (\<lambda>st.
            and_then (net_receive pe f v st) (advance_waiter pe x))))
    | _ \<Rightarrow> Ok None)"

end
