(* ===== verification/Net_Step.thy ===== *)
theory Net_Step
  imports Net_Fire
begin

text \<open>
  Firing the control-flow operations, calls, threads, scopes, joins and returns, the whole of
  \<open>PetriEngine::fire\<close>, \<open>initial\<close>, \<open>successors\<close> and \<open>is_finished\<close> (\<open>src/src/petri/exec.rs\<close>).
\<close>

subsection \<open>Control flow\<close>

text \<open>Both halves of a branch: the one whose truth value the condition has is enabled.\<close>

definition fire_branch :: "petri_engine \<Rightarrow> fire_ctx \<Rightarrow> lexpr \<Rightarrow> bool \<Rightarrow> net_state \<Rightarrow> nresult" where
  "fire_branch pe c cond wanted st = with_control c (\<lambda>t f.
     rbind (net_eval pe st f cond) (\<lambda>v. case as_bool v of
         None \<Rightarrow> nfail c ''E201''
       | Some b \<Rightarrow> nguard (b = wanted) (proceed pe c st)))"

definition fire_switch_case :: "petri_engine \<Rightarrow> fire_ctx \<Rightarrow> lexpr \<Rightarrow> string \<Rightarrow> net_state \<Rightarrow> nresult" where
  "fire_switch_case pe c var label st = with_control c (\<lambda>t f.
     rbind (net_eval pe st f var) (\<lambda>v. nguard (value_matches_label v label) (proceed pe c st)))"

definition fire_switch_default ::
  "petri_engine \<Rightarrow> fire_ctx \<Rightarrow> lexpr \<Rightarrow> string list \<Rightarrow> net_state \<Rightarrow> nresult" where
  "fire_switch_default pe c var labels st = with_control c (\<lambda>t f.
     rbind (net_eval pe st f var) (\<lambda>v.
       nguard (\<not> list_ex (value_matches_label v) labels) (proceed pe c st)))"

subsection \<open>Calls and threads\<close>

text \<open>The operations that may hit a bound also return the boundary events they push.\<close>

type_synonym nresult_b = "(net_state option \<times> boundary_event list) backend_result"

definition nquiet :: "nresult \<Rightarrow> nresult_b" where
  "nquiet m = rbind m (\<lambda>r. Ok (r, []))"

definition fire_call ::
  "petri_engine \<Rightarrow> fire_ctx \<Rightarrow> function_id \<Rightarrow> lexpr list \<Rightarrow> slot_ref option \<Rightarrow> net_state \<Rightarrow> nresult_b" where
  "fire_call pe c func args dst st = with_control c (\<lambda>t f.
     rbind (net_thread_of st t) (\<lambda>th.
     if length (nt_stack th) \<ge> max_frames_per_thread (pe_bounds pe)
     then Ok (None, [boundary_new FrameLimit])
     else
       rbind (mapM (net_eval pe st f) args) (\<lambda>vals.
       rbind (function_of (pe_program pe) func) (\<lambda>callee.
       let binds = zip (net_modeled_params callee) vals in
       rbind (allM (\<lambda>(i, v). rbind (index (f_slots callee) i) (\<lambda>s. Ok (within_type v (s_ty s)))) binds) (\<lambda>good.
       if \<not> good then Ok (None, [])
       else
         let i = na_frame (nst_alloc (ns_store st));
             st1 = upd_alloc (\<lambda>a. a\<lparr>na_frame := Suc (na_frame a)\<rparr>) st
         in rbind (default_locals (pe_program pe) func) (\<lambda>locals.
            rbind (net_frame_of st1 f) (\<lambda>fr.
              let ret = \<lparr>na_pc_next = Suc (nf_pc fr), na_dst = (case dst of Some d \<Rightarrow> d | None \<Rightarrow> Discard)\<rparr>;
                  st2 = insert_frame i (net_new_frame i func
                    (fold (\<lambda>(i, v). bt_insert i v) binds locals) (Some ret)) st1
              in rbind (thread_mut t (\<lambda>th. th\<lparr>nt_stack := nt_stack th @ [i]\<rparr>) st2) (\<lambda>st3.
                 rbind (unwrap (fc_next c)) (\<lambda>out.
                   Ok (Some (place_control pe out t i st3), []))))))))))"

definition fire_spawn :: "petri_engine \<Rightarrow> fire_ctx \<Rightarrow> function_id \<Rightarrow> string \<Rightarrow> net_state \<Rightarrow> nresult_b" where
  "fire_spawn pe c func handle st = with_control c (\<lambda>t f.
     rbind (net_within_bound pe st func) (\<lambda>good.
       if \<not> good then Ok (None, [])
       else rbind (net_create_thread pe func None st) (\<lambda>(child, st, be). case child of
           None \<Rightarrow> Ok (None, be)
         | Some child \<Rightarrow>
             let h = na_handle (nst_alloc (ns_store st));
                 st1 = upd_alloc (\<lambda>a. a\<lparr>na_handle := Suc (na_handle a)\<rparr>) st
             in rbind (frame_mut f (\<lambda>fr. fr\<lparr>nf_handles := bt_insert handle h (nf_handles fr)\<rparr>) st1) (\<lambda>st2.
                rbind (thread_mut t (\<lambda>th. th\<lparr>nt_handle_children :=
                    bt_insert h child (nt_handle_children th)\<rparr>) st2) (\<lambda>st3.
                rbind (proceed pe c st3) (\<lambda>r. Ok (r, be)))))))"

fun net_create_members ::
  "petri_engine \<Rightarrow> scope_id \<Rightarrow> function_id list \<Rightarrow> thread_id list \<Rightarrow> net_state
     \<Rightarrow> ((thread_id list \<times> net_state) option \<times> boundary_event list) backend_result" where
  "net_create_members pe scope [] rem st = Ok (Some (rem, st), [])"
| "net_create_members pe scope (func # fs) rem st =
     rbind (net_create_thread pe func (Some scope) st) (\<lambda>(child, st, be). case child of
         None \<Rightarrow> Ok (None, be)
       | Some child \<Rightarrow>
           let rem' = (if child \<notin> set (nst_finished (ns_store st)) then bs_insert child rem else rem)
           in rbind (net_create_members pe scope fs rem' st) (\<lambda>(r, be'). Ok (r, be @ be')))"

definition fire_scope :: "petri_engine \<Rightarrow> fire_ctx \<Rightarrow> function_id list \<Rightarrow> net_state \<Rightarrow> nresult_b" where
  "fire_scope pe c funcs st = with_control c (\<lambda>t f.
     if funcs = [] then nfail c ''E410''
     else rbind (allM (net_within_bound pe st) funcs) (\<lambda>good.
       if \<not> good then Ok (None, [])
       else
         let scope = na_scope (nst_alloc (ns_store st));
             st1 = upd_alloc (\<lambda>a. a\<lparr>na_scope := Suc (na_scope a)\<rparr>) st
         in rbind (net_create_members pe scope funcs [] st1) (\<lambda>(r, be). case r of
             None \<Rightarrow> Ok (None, be)
           | Some (rem, st) \<Rightarrow> rbind (net_frame_of st f) (\<lambda>fr.
               let sid = nf_pc fr; fn = nf_function fr in
               if rem = [] then
                 rbind (proceed pe c (upd_nstore (\<lambda>s. s\<lparr>nst_completed_scopes :=
                     bs_insert (fn, sid) (nst_completed_scopes s)\<rparr>) st)) (\<lambda>r. Ok (r, be))
               else
                 let st2 = upd_nstore (\<lambda>s. s\<lparr>nst_scopes := bt_insert scope
                       \<lparr>nc_id = scope, nc_owner = t, nc_owner_frame = f, nc_owner_sid = sid,
                        nc_remaining = rem\<rparr> (nst_scopes s)\<rparr>) st
                 in with_place pe (PlScopeWait fn sid) (\<lambda>sw.
                    rbind (wait_at sw (TScopeWait t f) t (PlScopeWait fn sid) st2) (\<lambda>r. Ok (r, be)))))))"

definition join_handle :: "fire_ctx \<Rightarrow> frame_id \<Rightarrow> string \<Rightarrow> net_state \<Rightarrow> handle_id backend_result" where
  "join_handle c f handle st = rbind (net_frame_of st f) (\<lambda>fr.
     case bt_get (nf_handles fr) handle of None \<Rightarrow> nfail c ''E402'' | Some h \<Rightarrow> Ok h)"

definition fire_join_ready :: "petri_engine \<Rightarrow> fire_ctx \<Rightarrow> string \<Rightarrow> net_state \<Rightarrow> nresult" where
  "fire_join_ready pe c handle st = with_control c (\<lambda>t f.
     rbind (join_handle c f handle st) (\<lambda>h.
     rbind (net_thread_of st t) (\<lambda>th. case bt_get (nt_handle_children th) h of
         None \<Rightarrow> Ok None
       | Some ch \<Rightarrow> nguard (ch \<in> set (nst_finished (ns_store st)))
           (rbind (frame_mut f (\<lambda>fr. fr\<lparr>nf_handles := bt_remove handle (nf_handles fr)\<rparr>) st) (\<lambda>st.
            rbind (thread_mut t (\<lambda>th. th\<lparr>nt_handle_children := bt_remove h (nt_handle_children th)\<rparr>) st)
              (\<lambda>st. proceed pe c (remove_thread ch st)))))))"

definition fire_join_block :: "petri_engine \<Rightarrow> fire_ctx \<Rightarrow> string \<Rightarrow> net_state \<Rightarrow> nresult" where
  "fire_join_block pe c handle st = with_control c (\<lambda>t f.
     rbind (join_handle c f handle st) (\<lambda>h.
     rbind (net_thread_of st t) (\<lambda>th. case bt_get (nt_handle_children th) h of
         None \<Rightarrow> Ok None
       | Some ch \<Rightarrow> nguard (ch \<notin> set (nst_finished (ns_store st)))
           (rbind (net_frame_of st f) (\<lambda>fr. rbind (unwrap (fc_next c)) (\<lambda>out.
             wait_at out (TJoinWait t f) t (PlJoinWait (nf_function fr) (nf_pc fr)) st))))))"

subsection \<open>Returns\<close>

definition net_return_value ::
  "petri_engine \<Rightarrow> frame_id \<Rightarrow> lexpr option \<Rightarrow> net_state \<Rightarrow> cvalue option backend_result" where
  "net_return_value pe f e st = (case e of
      None \<Rightarrow> Ok None
    | Some e \<Rightarrow> rbind (net_eval pe st f e) (\<lambda>v. Ok (Some v)))"

definition return_type_ok :: "sem_function \<Rightarrow> cvalue option \<Rightarrow> bool" where
  "return_type_ok fn val = (case (f_returns fn, val) of
      (Some ret, Some v) \<Rightarrow> within_type v (s_ty ret) | _ \<Rightarrow> True)"

definition pop_frame :: "thread_id \<Rightarrow> frame_id \<Rightarrow> net_state \<Rightarrow> net_state backend_result" where
  "pop_frame t f st = thread_mut t (\<lambda>th. th\<lparr>nt_stack := butlast (nt_stack th)\<rparr>)
     (upd_nstore (\<lambda>s. s\<lparr>nst_frames := bt_remove f (nst_frames s)\<rparr>) st)"

text \<open>The caller's continuation: its destination gets the value, control its place.\<close>

definition resume_caller ::
  "petri_engine \<Rightarrow> net_ret_addr option \<Rightarrow> cvalue option \<Rightarrow> thread_id \<Rightarrow> frame_id \<Rightarrow> net_state \<Rightarrow> nresult" where
  "resume_caller pe ret val t caller st = (case ret of
      None \<Rightarrow> Ok (Some st)
    | Some ra \<Rightarrow>
        and_then (case val of None \<Rightarrow> Ok (Some st) | Some v \<Rightarrow> net_write_dst pe caller (na_dst ra) v st)
          (\<lambda>st. rbind (net_frame_of st caller) (\<lambda>fr.
             Ok (Some (control_to pe (nf_function fr) (na_pc_next ra) t caller st)))))"

definition fire_return_inner :: "petri_engine \<Rightarrow> fire_ctx \<Rightarrow> lexpr option \<Rightarrow> net_state \<Rightarrow> nresult" where
  "fire_return_inner pe c e st = with_control c (\<lambda>t f.
     rbind (net_thread_of st t) (\<lambda>th.
     nguard (\<not> length (nt_stack th) \<le> 1)
       (rbind (net_return_value pe f e st) (\<lambda>val.
        rbind (net_frame_of st f) (\<lambda>callee.
        rbind (function_of (pe_program pe) (nf_function callee)) (\<lambda>fn.
        nguard (return_type_ok fn val)
          (rbind (pop_frame t f st) (\<lambda>st.
           rbind (net_thread_of st t) (\<lambda>th.
           rbind (unwrap (if nt_stack th = [] then None else Some (last (nt_stack th)))) (\<lambda>caller.
           and_then (resume_caller pe (nf_ret callee) val t caller st) (\<lambda>st.
             Ok (Some (net_completion pe (nf_function callee) st)))))))))))))"

definition fire_return_final :: "petri_engine \<Rightarrow> fire_ctx \<Rightarrow> lexpr option \<Rightarrow> net_state \<Rightarrow> nresult" where
  "fire_return_final pe c e st = with_control c (\<lambda>t f.
     rbind (net_thread_of st t) (\<lambda>th.
     nguard (length (nt_stack th) = 1)
       (rbind (net_return_value pe f e st) (\<lambda>val.
        rbind (net_frame_of st f) (\<lambda>fr.
        rbind (function_of (pe_program pe) (nf_function fr)) (\<lambda>fn.
        nguard (return_type_ok fn val)
          (rbind (pop_frame t f st) (\<lambda>st.
           rbind (net_finish_thread pe t (nf_function fr) st) (\<lambda>st. Ok (Some st))))))))))"

subsection \<open>Firing\<close>

fun fire_op :: "petri_engine \<Rightarrow> fire_ctx \<Rightarrow> net_op \<Rightarrow> net_state \<Rightarrow> nresult_b" where
  "fire_op pe c NNop st = nquiet (proceed pe c st)"
| "fire_op pe c (NAssignLocal d e) st = nquiet (fire_assign_local pe c d e st)"
| "fire_op pe c (NReadVar r d) st = nquiet (fire_read_var pe c r d st)"
| "fire_op pe c (NWriteVar r e) st = nquiet (fire_store pe c (PlVar r) r e st)"
| "fire_op pe c (NAtomicLoad r d) st = nquiet (fire_atomic_load pe c r d st)"
| "fire_op pe c (NAtomicStore r e) st = nquiet (fire_store pe c (PlAtomic r) r e st)"
| "fire_op pe c (NAtomicCas r ex des d) st = nquiet (fire_atomic_cas pe c r ex des d st)"
| "fire_op pe c (NMutexLockGrant r) st = nquiet (fire_lock_grant pe c r st)"
| "fire_op pe c (NMutexLockBlock r) st = nquiet (fire_lock_block pe c r st)"
| "fire_op pe c (NMutexUnlock r) st = nquiet (fire_unlock pe c r st)"
| "fire_op pe c (NLockWaitAcquire r) st = nquiet (fire_lock_wait pe c r st)"
| "fire_op pe c (NCondvarWait cv l) st = nquiet (fire_wait pe c cv l st)"
| "fire_op pe c (NCondvarNotifyHit cv) st = nquiet (fire_notify_hit pe c cv st)"
| "fire_op pe c (NCondvarNotifyMiss cv) st = nquiet (fire_notify_miss pe c cv st)"
| "fire_op pe c (NCondvarNotifyAll cv) st = nquiet (fire_notify_all pe c cv st)"
| "fire_op pe c (NSemAcquire r n) st = nquiet (fire_acquire pe c r n st)"
| "fire_op pe c (NSemAcquireBlock r n) st = nquiet (fire_acquire_block pe c r n st)"
| "fire_op pe c (NSemRelease r n) st = nquiet (fire_release pe c r n st)"
| "fire_op pe c (NSemGrant r) st = nquiet (fire_sem_grant pe c r st)"
| "fire_op pe c (NSendRegister ch) st = nquiet (fire_send_register pe c ch st)"
| "fire_op pe c (NRecvRegister ch) st = nquiet (fire_recv_register pe c ch st)"
| "fire_op pe c (NSendPair ch) st = nquiet (fire_send_pair pe c ch st)"
| "fire_op pe c (NRecvPair ch) st = nquiet (fire_recv_pair pe c ch st)"
| "fire_op pe c (NRendezvous ch) st = nquiet (fire_rendezvous pe c ch st)"
| "fire_op pe c (NSendBuf ch e) st = nquiet (fire_send_buf pe c ch e st)"
| "fire_op pe c (NSendBufBlock ch e) st = nquiet (fire_send_buf_block pe c ch e st)"
| "fire_op pe c (NRecvBuf ch d) st = nquiet (fire_recv_buf pe c ch d st)"
| "fire_op pe c (NRecvBufBlock ch) st = nquiet (fire_recv_buf_block pe c ch st)"
| "fire_op pe c (NBufferDeliver ch) st = nquiet (fire_deliver pe c ch st)"
| "fire_op pe c (NBufferRecvWait ch) st = nquiet (fire_recv_wait pe c ch st)"
| "fire_op pe c (NGoto i) st = nquiet (proceed pe c st)"
| "fire_op pe c (NBranchThen e i) st = nquiet (fire_branch pe c e True st)"
| "fire_op pe c (NBranchElse e i) st = nquiet (fire_branch pe c e False st)"
| "fire_op pe c (NSwitchCase v l i) st = nquiet (fire_switch_case pe c v l st)"
| "fire_op pe c (NSwitchDefault v ls i) st = nquiet (fire_switch_default pe c v ls st)"
| "fire_op pe c (NCall f args d) st = fire_call pe c f args d st"
| "fire_op pe c (NSpawn f h) st = fire_spawn pe c f h st"
| "fire_op pe c (NScope fs) st = fire_scope pe c fs st"
| "fire_op pe c (NJoinReady h) st = nquiet (fire_join_ready pe c h st)"
| "fire_op pe c (NJoinBlock h) st = nquiet (fire_join_block pe c h st)"
| "fire_op pe c (NReturnInner e) st = nquiet (fire_return_inner pe c e st)"
| "fire_op pe c (NReturnFinal e) st = nquiet (fire_return_final pe c e st)"

text \<open>The input place of the binding's control token, when binding and transition fit.\<close>

fun control_place :: "fire_bind \<Rightarrow> arc_binding \<Rightarrow> place_id option" where
  "control_place (FControl t f) (BControl p) = Some p"
| "control_place (FControlWait t f w) (BControlWait p q) = Some p"
| "control_place (FControlChooseWait t f w) (BControlChooseWait p q) = Some p"
| "control_place _ _ = None"

definition net_mark_reached :: "frame_id \<Rightarrow> net_state \<Rightarrow> net_state" where
  "net_mark_reached f st = (case bt_get (nst_frames (ns_store st)) f of
      None \<Rightarrow> st
    | Some fr \<Rightarrow> upd_nstore (\<lambda>s. s\<lparr>nst_reached := bs_insert (nf_function fr, nf_pc fr) (nst_reached s)\<rparr>) st)"

definition take_control :: "fire_bind \<Rightarrow> arc_binding \<Rightarrow> net_state \<Rightarrow> net_state" where
  "take_control bind arc st = (case bind_control bind of
      None \<Rightarrow> st
    | Some (t, f) \<Rightarrow> net_mark_reached f (case control_place bind arc of
          Some p \<Rightarrow> snd (take_token p (TControl t f) st) | None \<Rightarrow> st))"

definition fire_location :: "petri_engine \<Rightarrow> fire_bind \<Rightarrow> net_state \<Rightarrow> string backend_result" where
  "fire_location pe bind st = (case bind_control bind of
      Some (t, f) \<Rightarrow> rbind (net_frame_of st f) (\<lambda>fr.
        location_of (pe_program pe) (nf_function fr) (Some (nf_pc fr)))
    | None \<Rightarrow> Ok ''<net>'')"

definition net_fire :: "petri_engine \<Rightarrow> net_state \<Rightarrow> net_transition \<Rightarrow> fire_bind \<Rightarrow> nresult_b" where
  "net_fire pe st tr bind =
    (let st1 = take_control bind (tr_binding tr) st in
     rbind (fire_location pe bind st1) (\<lambda>at.
       fire_op pe \<lparr>fc_control = bind_control bind, fc_bind = bind, fc_next = tr_next tr, fc_at = at\<rparr>
         (tr_op tr) st1))"

subsection \<open>The engine\<close>

definition net_init_place :: "sem_program \<Rightarrow> place \<Rightarrow> net_state \<Rightarrow> net_state backend_result" where
  "net_init_place P pl st = (case pl_key pl of
      PlVar r \<Rightarrow> rbind (resource_of P r) (\<lambda>res. Ok (case r_init res of
          Some v \<Rightarrow> set_data (pl_id pl) v st | None \<Rightarrow> st))
    | PlAtomic r \<Rightarrow> rbind (resource_of P r) (\<lambda>res. Ok (case r_init res of
          Some v \<Rightarrow> set_data (pl_id pl) v st | None \<Rightarrow> st))
    | PlMutex r \<Rightarrow> Ok (set_mutex_token (pl_id pl) MFree st)
    | PlSemaphore r \<Rightarrow> rbind (resource_of P r) (\<lambda>res. Ok (set_data (pl_id pl) (VInt (r_permits res)) st))
    | PlChannel r \<Rightarrow> Ok (set_data (pl_id pl) (VArray []) st)
    | _ \<Rightarrow> Ok st)"

definition net_initial :: "petri_engine \<Rightarrow> net_state backend_result" where
  "net_initial pe =
     rbind (foldM (net_init_place (pe_program pe)) (pn_places (pe_net pe)) net_empty) (\<lambda>st.
     let entry = p_entry (pe_program pe);
         st1 = insert_thread 0 (net_new_thread entry [] None) (upd_alloc (\<lambda>a. a\<lparr>na_thread := 1\<rparr>) st)
     in rbind (function_of (pe_program pe) entry) (\<lambda>fn.
        if is_transparent_nobody fn
        then Ok (net_completion pe entry (mark_finished 0 st1))
        else rbind (default_locals (pe_program pe) entry) (\<lambda>locals.
          let st2 = insert_frame 0 (net_new_frame 0 entry locals None)
                (upd_alloc (\<lambda>a. a\<lparr>na_frame := 1\<rparr>) st1);
              st3 = upd_nthread 0 (\<lambda>th. th\<lparr>nt_stack := nt_stack th @ [0]\<rparr>) st2
          in rbind (ok_or (invalid ''E602'') (ctrl_place pe entry 0)) (\<lambda>start.
               Ok (place_control pe start 0 0 st3)))))"

text \<open>The bindings of a transition in a state, in the order the code enumerates them.\<close>

definition control_tokens :: "net_state \<Rightarrow> place_id \<Rightarrow> (thread_id \<times> frame_id) list" where
  "control_tokens st p = List.map_filter (\<lambda>x. case x of TControl t f \<Rightarrow> Some (t, f) | _ \<Rightarrow> None)
     (place_tokens st p)"

fun net_bindings :: "net_state \<Rightarrow> arc_binding \<Rightarrow> fire_bind list" where
  "net_bindings st (BControl p) = map (\<lambda>(t, f). FControl t f) (control_tokens st p)"
| "net_bindings st (BWait p) = map FWait (place_tokens st p)"
| "net_bindings st (BPair a b) = (case (place_tokens st a, place_tokens st b) of
      (x # xs, y # ys) \<Rightarrow> [FPair x y] | _ \<Rightarrow> [])"
| "net_bindings st (BControlWait p q) = (case place_tokens st q of
      [] \<Rightarrow> [] | w # ws \<Rightarrow> map (\<lambda>(t, f). FControlWait t f w) (control_tokens st p))"
| "net_bindings st (BControlChooseWait p q) =
     concat (map (\<lambda>w. map (\<lambda>(t, f). FControlChooseWait t f w) (control_tokens st p)) (place_tokens st q))"

definition net_try ::
  "petri_engine \<Rightarrow> net_state \<Rightarrow> net_transition \<times> fire_bind
     \<Rightarrow> (net_state step list \<times> boundary_event list) backend_result" where
  "net_try pe st p = (case p of (tr, bind) \<Rightarrow> rbind (net_fire pe st tr bind) (\<lambda>(r, be). Ok (case r of
      None \<Rightarrow> []
    | Some s \<Rightarrow> (case binding_ids bind of (t, f) \<Rightarrow>
        [\<lparr>step_lab = with_binding t f (label_new (tr_origin tr)), step_state = s\<rparr>]), be)))"

definition net_candidates :: "petri_engine \<Rightarrow> net_state \<Rightarrow> (net_transition \<times> fire_bind) list" where
  "net_candidates pe st =
     concat (map (\<lambda>tr. map (Pair tr) (net_bindings st (tr_binding tr))) (pn_transitions (pe_net pe)))"

definition net_successors :: "petri_engine \<Rightarrow> net_state \<Rightarrow> net_state enabled backend_result" where
  "net_successors pe st = rbind (mapM (net_try pe st) (net_candidates pe st)) (\<lambda>rs.
     Ok \<lparr>en_steps = concat (map fst rs), en_boundary = concat (map snd rs)\<rparr>)"

definition net_is_finished :: "net_state \<Rightarrow> bool" where
  "net_is_finished st =
     list_all (\<lambda>t. t \<in> set (nst_finished (ns_store st))) (bt_keys (nst_threads (ns_store st)))"

end
