(* ===== verification/Net_Core.thy ===== *)
theory Net_Core
  imports Net_Step
begin

text \<open>
  The control structure of a net state: where each thread's token is, the stacks, the frames'
  positions and the scopes' members. The invariant says that every unfinished thread has exactly
  one token, which names its current frame and lies at the place of that frame's position, and
  that the stacks are linked by return addresses the net has places for. The threads \<open>H\<close> are in
  hand: their token has been taken and not yet been put back.
\<close>

record ncore =
  c_tok :: "place_key \<Rightarrow> thread_id \<Rightarrow> net_token list"
  c_thr :: "thread_id \<Rightarrow> (frame_id list \<times> scope_id option) option"
  c_fin :: "thread_id set"
  c_frm :: "frame_id \<Rightarrow> (function_id \<times> nat \<times> net_ret_addr option) option"
  c_rem :: "scope_id \<Rightarrow> thread_id set"
  c_nt :: nat
  c_nf :: nat
  c_ns :: nat
  c_sorted :: bool

definition tokens_at :: "petri_engine \<Rightarrow> net_state \<Rightarrow> place_key \<Rightarrow> net_token list" where
  "tokens_at pe st k = (case place_for pe k of Some p \<Rightarrow> place_tokens st p | None \<Rightarrow> [])"

definition of_thread :: "thread_id \<Rightarrow> net_token list \<Rightarrow> net_token list" where
  "of_thread t xs = filter (\<lambda>x. tok_thread x = Some t) xs"

definition ncore :: "petri_engine \<Rightarrow> net_state \<Rightarrow> ncore" where
  "ncore pe st = (let s = ns_store st in
     \<lparr>c_tok = (\<lambda>k t. of_thread t (tokens_at pe st k)),
      c_thr = (\<lambda>t. map_option (\<lambda>th. (nt_stack th, nt_parent_scope th)) (bt_get (nst_threads s) t)),
      c_fin = set (nst_finished s),
      c_frm = (\<lambda>f. map_option (\<lambda>fr. (nf_function fr, nf_pc fr, nf_ret fr)) (bt_get (nst_frames s) f)),
      c_rem = (\<lambda>i. case bt_get (nst_scopes s) i of Some sc \<Rightarrow> set (nc_remaining sc) | None \<Rightarrow> {}),
      c_nt = na_thread (nst_alloc s), c_nf = na_frame (nst_alloc s), c_ns = na_scope (nst_alloc s),
      c_sorted = bt_ok (nst_threads s)\<rparr>)"

definition live :: "ncore \<Rightarrow> thread_id \<Rightarrow> bool" where
  "live c t \<longleftrightarrow> c_thr c t \<noteq> None \<and> t \<notin> c_fin c"

definition next_ok :: "petri_engine \<Rightarrow> function_id \<Rightarrow> nat \<Rightarrow> bool" where
  "next_ok pe fn pc \<longleftrightarrow> ctrl_place pe fn (Suc pc) \<noteq> None"

text \<open>The place a token of a frame at a position may lie on.\<close>

fun site_ok :: "petri_engine \<Rightarrow> place_key \<Rightarrow> net_token \<Rightarrow> function_id \<Rightarrow> nat \<Rightarrow> bool" where
  "site_ok pe k (TControl t f) fn pc = (k = PlControl fn pc)"
| "site_ok pe k (TLockWait t f) fn pc = ((\<exists>r. k = PlLockWait r) \<and> next_ok pe fn pc)"
| "site_ok pe k (TCondvarWait t f l) fn pc = ((\<exists>r. k = PlCondvar r) \<and> next_ok pe fn pc)"
| "site_ok pe k (TSendWait t f v) fn pc = ((\<exists>r. k = PlChannelSend r) \<and> next_ok pe fn pc)"
| "site_ok pe k (TRecvWait t f) fn pc = ((\<exists>r. k = PlChannelRecv r) \<and> next_ok pe fn pc)"
| "site_ok pe k (TSemWait t f n) fn pc = ((\<exists>r. k = PlSemWait r) \<and> next_ok pe fn pc)"
| "site_ok pe k (TJoinWait t f) fn pc = (k = PlJoinWait fn pc \<and> next_ok pe fn pc)"
| "site_ok pe k (TScopeWait t f) fn pc = (k = PlScopeWait fn pc \<and> next_ok pe fn pc)"
| "site_ok pe k _ fn pc = False"

definition tok_ok :: "petri_engine \<Rightarrow> ncore \<Rightarrow> thread_id \<Rightarrow> place_key \<Rightarrow> net_token \<Rightarrow> bool" where
  "tok_ok pe c t k x \<longleftrightarrow> (\<exists>stk par fn pc ret. c_thr c t = Some (stk, par) \<and> stk \<noteq> [] \<and>
     tok_thread x = Some t \<and> tok_frame x = Some (last stk) \<and> c_frm c (last stk) = Some (fn, pc, ret) \<and>
     site_ok pe k x fn pc)"

text \<open>Each frame above the first has a return address, and its caller a place to go on at.\<close>

fun linked :: "petri_engine \<Rightarrow> (frame_id \<Rightarrow> (function_id \<times> nat \<times> net_ret_addr option) option)
    \<Rightarrow> frame_id list \<Rightarrow> bool" where
  "linked pe frm (f # g # fs) = ((\<exists>fn pc ret gn gpc ra. frm f = Some (fn, pc, ret) \<and>
     frm g = Some (gn, gpc, Some ra) \<and> ctrl_place pe fn (na_pc_next ra) \<noteq> None) \<and> linked pe frm (g # fs))"
| "linked pe frm _ = True"

definition thread_ok :: "petri_engine \<Rightarrow> ncore \<Rightarrow> thread_id \<Rightarrow> frame_id list \<Rightarrow> scope_id option \<Rightarrow> bool" where
  "thread_ok pe c t stk par \<longleftrightarrow> (t \<in> c_fin c \<longleftrightarrow> stk = []) \<and> distinct stk \<and>
     (\<forall>f\<in>set stk. c_frm c f \<noteq> None) \<and> linked pe (c_frm c) stk \<and> t < c_nt c \<and>
     (\<forall>s. par = Some s \<longrightarrow> s < c_ns c)"

definition stacks_ok :: "petri_engine \<Rightarrow> ncore \<Rightarrow> bool" where
  "stacks_ok pe c \<longleftrightarrow>
     (\<forall>t stk par. c_thr c t = Some (stk, par) \<longrightarrow> thread_ok pe c t stk par) \<and>
     (\<forall>t u stk par stk' par'. c_thr c t = Some (stk, par) \<longrightarrow> c_thr c u = Some (stk', par') \<longrightarrow>
        t \<noteq> u \<longrightarrow> set stk \<inter> set stk' = {}) \<and>
     (\<forall>f. c_frm c f \<noteq> None \<longrightarrow> f < c_nf c) \<and> (\<forall>t\<in>c_fin c. t < c_nt c) \<and> c_sorted c"

definition scopes_ok :: "(scope_id \<Rightarrow> thread_id set) \<Rightarrow> ncore \<Rightarrow> bool" where
  "scopes_ok R c \<longleftrightarrow> (\<forall>s. c_rem c s \<noteq> {} \<longrightarrow> s < c_ns c) \<and> (\<forall>t stk s. c_thr c t = Some (stk, Some s) \<longrightarrow> t \<notin> c_fin c \<longrightarrow>
     t \<in> c_rem c s \<union> R s)"

type_synonym locs = "thread_id \<Rightarrow> (place_key \<times> net_token) option"

definition located :: "locs \<Rightarrow> ncore \<Rightarrow> bool" where
  "located L c \<longleftrightarrow> (\<forall>k t. c_tok c k t =
     (case L t of Some (k', x) \<Rightarrow> if k' = k then [x] else [] | None \<Rightarrow> []))"

definition core_inv ::
  "petri_engine \<Rightarrow> locs \<Rightarrow> thread_id set \<Rightarrow> (scope_id \<Rightarrow> thread_id set) \<Rightarrow> ncore \<Rightarrow> bool" where
  "core_inv pe L H R c \<longleftrightarrow> located L c \<and> (\<forall>t. L t \<noteq> None \<longleftrightarrow> live c t \<and> t \<notin> H) \<and>
     (\<forall>t k x. L t = Some (k, x) \<longrightarrow> tok_ok pe c t k x) \<and> stacks_ok pe c \<and> scopes_ok R c"

text \<open>A thread in hand: unfinished, and its current frame is at a position.\<close>

definition in_hand :: "ncore \<Rightarrow> thread_id \<Rightarrow> frame_id \<Rightarrow> function_id \<Rightarrow> nat \<Rightarrow> bool" where
  "in_hand c t f fn pc \<longleftrightarrow> live c t \<and> (\<exists>stk par ret. c_thr c t = Some (stk, par) \<and> stk \<noteq> [] \<and>
     last stk = f \<and> c_frm c f = Some (fn, pc, ret))"

subsection \<open>Tokens\<close>

lemma tok_update [simp]:
  "thread_ok pe (c\<lparr>c_tok := f\<rparr>) = thread_ok pe c" "stacks_ok pe (c\<lparr>c_tok := f\<rparr>) = stacks_ok pe c"
  "scopes_ok R (c\<lparr>c_tok := f\<rparr>) = scopes_ok R c" "live (c\<lparr>c_tok := f\<rparr>) = live c"
  "tok_ok pe (c\<lparr>c_tok := f\<rparr>) = tok_ok pe c" "in_hand (c\<lparr>c_tok := f\<rparr>) = in_hand c"
  by (simp_all add: fun_eq_iff thread_ok_def stacks_ok_def scopes_ok_def live_def tok_ok_def in_hand_def)

lemma core_inv_take:
  assumes inv: "core_inv pe L H R c" and x: "L t = Some (k, x)"
  shows "core_inv pe (L(t := None)) (insert t H) R (c\<lparr>c_tok := (c_tok c)(k := (c_tok c k)(t := []))\<rparr>)"
proof -
  let ?c = "c\<lparr>c_tok := (c_tok c)(k := (c_tok c k)(t := []))\<rparr>"
  have "located (L(t := None)) ?c"
    using inv x by (auto simp: core_inv_def located_def split: option.splits)
  then show ?thesis using inv x by (auto simp: core_inv_def)
qed

lemma core_inv_put:
  assumes inv: "core_inv pe L H R c" and t: "t \<in> H" "live c t" and x: "tok_ok pe c t k x"
  shows "core_inv pe (L(t := Some (k, x))) (H - {t}) R
    (c\<lparr>c_tok := (c_tok c)(k := (c_tok c k)(t := [x]))\<rparr>)"
proof -
  let ?c = "c\<lparr>c_tok := (c_tok c)(k := (c_tok c k)(t := [x]))\<rparr>"
  have "L t = None" using inv t by (auto simp: core_inv_def)
  then have "located (L(t := Some (k, x))) ?c"
    using inv by (auto simp: core_inv_def located_def split: option.splits)
  then show ?thesis using inv t x by (auto simp: core_inv_def)
qed

lemma tok_in_hand:
  assumes "core_inv pe L H R c" "L t = Some (k, x)"
  shows "\<exists>f fn pc. tok_frame x = Some f \<and> tok_thread x = Some t \<and> in_hand c t f fn pc \<and> site_ok pe k x fn pc"
proof -
  have "tok_ok pe c t k x" "live c t" using assms by (auto simp: core_inv_def)
  then show ?thesis by (force simp: tok_ok_def in_hand_def)
qed

lemma in_hand_tok_ok:
  "in_hand c t f fn pc \<Longrightarrow> tok_thread x = Some t \<Longrightarrow> tok_frame x = Some f \<Longrightarrow> site_ok pe k x fn pc \<Longrightarrow>
   tok_ok pe c t k x"
  by (force simp: in_hand_def tok_ok_def)

subsection \<open>Frames\<close>

lemma stack_member:
  assumes "stacks_ok pe c" "c_thr c t = Some (stk, par)" "c_thr c u = Some (stk', par')" "f \<in> set stk" "f \<in> set stk'"
  shows "t = u"
  using assms unfolding stacks_ok_def by blast

lemma linked_cong: "(\<And>f. f \<in> set fs \<Longrightarrow> frm f = frm' f) \<Longrightarrow> linked pe frm fs = linked pe frm' fs"
  by (induction pe frm fs rule: linked.induct) auto

lemma linked_upd_pc:
  "linked pe frm fs \<Longrightarrow> frm f = Some (fn, pc, ret) \<Longrightarrow> linked pe (frm(f := Some (fn, pc', ret))) fs"
  by (induction pe frm fs rule: linked.induct) auto

text \<open>A change of one thread: the others keep their stacks and frames.\<close>

definition others_keep :: "ncore \<Rightarrow> ncore \<Rightarrow> thread_id \<Rightarrow> bool" where
  "others_keep c c' t \<longleftrightarrow> (\<forall>u. u \<noteq> t \<longrightarrow> c_thr c' u = c_thr c u \<and> (u \<in> c_fin c' \<longleftrightarrow> u \<in> c_fin c)) \<and>
     (\<forall>u stk par f. u \<noteq> t \<longrightarrow> c_thr c u = Some (stk, par) \<longrightarrow> f \<in> set stk \<longrightarrow> c_frm c' f = c_frm c f)"

lemma stacks_ok_change:
  assumes st: "stacks_ok pe c" and keep: "others_keep c c' t" and mono: "c_nt c \<le> c_nt c'" "c_ns c \<le> c_ns c'"
    and me: "\<And>stk par. c_thr c' t = Some (stk, par) \<Longrightarrow> thread_ok pe c' t stk par"
    and mine: "\<And>stk par u stk' par'. c_thr c' t = Some (stk, par) \<Longrightarrow> u \<noteq> t \<Longrightarrow> c_thr c u = Some (stk', par') \<Longrightarrow>
      set stk \<inter> set stk' = {}"
    and rest: "\<And>f. c_frm c' f \<noteq> None \<Longrightarrow> f < c_nf c'" "t \<in> c_fin c' \<Longrightarrow> t < c_nt c'" "c_sorted c'"
  shows "stacks_ok pe c'"
proof -
  have "thread_ok pe c' u stk par" if u: "c_thr c' u = Some (stk, par)" for u stk par
  proof (cases "u = t")
    case True
    with u me show ?thesis by simp
  next
    case False
    with keep u have u': "c_thr c u = Some (stk, par)" and f: "u \<in> c_fin c' \<longleftrightarrow> u \<in> c_fin c"
      by (auto simp: others_keep_def)
    have frm: "c_frm c' f = c_frm c f" if "f \<in> set stk" for f
      using keep u' False that by (auto simp: others_keep_def)
    have "thread_ok pe c u stk par" using st u' by (auto simp: stacks_ok_def)
    then show ?thesis using f mono frm linked_cong [of stk "c_frm c'" "c_frm c" pe]
      by (fastforce simp: thread_ok_def)
  qed
  moreover have "set stk \<inter> set stk' = {}"
    if "c_thr c' a = Some (stk, par)" "c_thr c' b = Some (stk', par')" "a \<noteq> b" for a b stk par stk' par'
  proof -
    consider "a = t" | "b = t" | "a \<noteq> t" "b \<noteq> t" by blast
    then show ?thesis
    proof cases
      case 1
      with that keep mine [of stk par b stk' par'] show ?thesis by (auto simp: others_keep_def)
    next
      case 2
      with that keep mine [of stk' par' a stk par] show ?thesis by (auto simp: others_keep_def)
    next
      case 3
      with that keep have "c_thr c a = Some (stk, par)" "c_thr c b = Some (stk', par')"
        by (auto simp: others_keep_def)
      with st \<open>a \<noteq> b\<close> show ?thesis unfolding stacks_ok_def by metis
    qed
  qed
  moreover have "u < c_nt c'" if "u \<in> c_fin c'" for u
    using that keep st mono rest(2) by (cases "u = t") (auto simp: others_keep_def stacks_ok_def)
  ultimately show ?thesis using rest unfolding stacks_ok_def by blast
qed

lemma tok_ok_change:
  assumes "tok_ok pe c u k x" "others_keep c c' t" "u \<noteq> t"
  shows "tok_ok pe c' u k x"
proof -
  from assms(1) obtain stk par fn pc ret where u: "c_thr c u = Some (stk, par)" "stk \<noteq> []"
    "tok_thread x = Some u" "tok_frame x = Some (last stk)" "c_frm c (last stk) = Some (fn, pc, ret)"
    "site_ok pe k x fn pc" by (auto simp: tok_ok_def)
  moreover have "c_thr c' u = c_thr c u" "c_frm c' (last stk) = c_frm c (last stk)"
    using assms(2,3) u(1,2) by (auto simp: others_keep_def)
  ultimately show ?thesis by (auto simp: tok_ok_def)
qed

text \<open>Moving the current frame of a thread in hand to another position.\<close>

lemma core_inv_pc:
  assumes inv: "core_inv pe L H R c" and t: "t \<in> H" "in_hand c t f fn pc" and fr: "c_frm c f = Some (fn, pc, ret)"
  shows "core_inv pe L H R (c\<lparr>c_frm := (c_frm c)(f := Some (fn, pc', ret))\<rparr>)"
    (is "core_inv pe L H R ?c")
proof -
  have st: "stacks_ok pe c" using inv by (simp add: core_inv_def)
  from t(2) obtain stk par where stk: "c_thr c t = Some (stk, par)" "stk \<noteq> []" "last stk = f"
    by (auto simp: in_hand_def)
  have keep: "others_keep c ?c t"
    using stack_member [OF st stk(1), of _ _ _ f] stk(2,3) last_in_set [OF stk(2)]
    by (auto simp: others_keep_def)
  have "stacks_ok pe ?c"
  proof (rule stacks_ok_change [OF st keep])
    fix stk' par' assume "c_thr ?c t = Some (stk', par')"
    with st have "thread_ok pe c t stk' par'" by (simp add: stacks_ok_def)
    then show "thread_ok pe ?c t stk' par'" using fr by (auto simp: thread_ok_def linked_upd_pc)
  next
    fix stk1 par1 u stk2 par2
    assume "c_thr ?c t = Some (stk1, par1)" "u \<noteq> t" "c_thr c u = Some (stk2, par2)"
    with st show "set stk1 \<inter> set stk2 = {}" unfolding stacks_ok_def by (simp, blast)
  qed (use st fr in \<open>auto simp: stacks_ok_def split: if_splits\<close>)
  moreover have "tok_ok pe ?c u k x" if "L u = Some (k, x)" for u k x
    using inv that t(1) by (intro tok_ok_change [OF _ keep]) (auto simp: core_inv_def)
  ultimately show ?thesis using inv by (auto simp: core_inv_def located_def live_def scopes_ok_def)
qed

lemma in_hand_pc:
  "in_hand c t f fn pc \<Longrightarrow> in_hand (c\<lparr>c_frm := (c_frm c)(f := Some (fn, pc', ret))\<rparr>) t f fn pc'"
  by (auto simp: in_hand_def live_def)

lemma linked_snoc:
  "linked pe frm (fs @ [f]) \<Longrightarrow> frm f = Some (fn, pc, ret) \<Longrightarrow> frm g = Some (gn, gpc, Some ra) \<Longrightarrow>
   ctrl_place pe fn (na_pc_next ra) \<noteq> None \<Longrightarrow> linked pe frm (fs @ [f, g])"
proof (induction fs)
  case (Cons h fs)
  then show ?case by (cases fs) auto
qed simp

lemma linked_butlast: "linked pe frm (fs @ [f]) \<Longrightarrow> linked pe frm fs"
proof (induction fs)
  case (Cons h fs)
  then show ?case by (cases fs) auto
qed simp

lemma linked_last:
  "linked pe frm (fs @ [f, g]) \<Longrightarrow> \<exists>fn pc ret gn gpc ra. frm f = Some (fn, pc, ret) \<and>
     frm g = Some (gn, gpc, Some ra) \<and> ctrl_place pe fn (na_pc_next ra) \<noteq> None"
proof (induction fs)
  case (Cons h fs)
  then show ?case by (cases fs) auto
qed simp

text \<open>A call: a fresh frame on the stack of a thread in hand.\<close>

definition push_core :: "thread_id \<Rightarrow> frame_id list \<Rightarrow> scope_id option \<Rightarrow> function_id \<Rightarrow> net_ret_addr option \<Rightarrow> ncore \<Rightarrow> ncore" where
  "push_core t stk par gn ret c = c\<lparr>c_frm := (c_frm c)(c_nf c := Some (gn, 0, ret)),
     c_thr := (c_thr c)(t := Some (stk @ [c_nf c], par)), c_nf := Suc (c_nf c)\<rparr>"

lemma push_core_simps [simp]:
  "c_tok (push_core t stk par gn ret c) = c_tok c" "c_fin (push_core t stk par gn ret c) = c_fin c"
  "c_rem (push_core t stk par gn ret c) = c_rem c" "c_nt (push_core t stk par gn ret c) = c_nt c"
  "c_ns (push_core t stk par gn ret c) = c_ns c" "c_nf (push_core t stk par gn ret c) = Suc (c_nf c)"
  "c_sorted (push_core t stk par gn ret c) = c_sorted c"
  "c_thr (push_core t stk par gn ret c) = (c_thr c)(t := Some (stk @ [c_nf c], par))"
  "c_frm (push_core t stk par gn ret c) = (c_frm c)(c_nf c := Some (gn, 0, ret))"
  by (simp_all add: push_core_def)

lemma fresh_frame:
  assumes "stacks_ok pe c" "c_thr c t = Some (stk, par)" "f \<in> set stk"
  shows "f < c_nf c"
  using assms unfolding stacks_ok_def thread_ok_def by metis

lemma core_inv_push:
  assumes inv: "core_inv pe L H R c" and t: "t \<in> H" "in_hand c t f fn pc"
    and thr: "c_thr c t = Some (stk, par)" and ra: "ctrl_place pe fn (na_pc_next ra) \<noteq> None"
  shows "core_inv pe L H R (push_core t stk par gn (Some ra) c) \<and>
    in_hand (push_core t stk par gn (Some ra) c) t (c_nf c) gn 0"
proof -
  let ?c = "push_core t stk par gn (Some ra) c"
  have st: "stacks_ok pe c" using inv by (simp add: core_inv_def)
  from t(2) thr obtain ret where stk: "stk \<noteq> []" "last stk = f" "c_frm c f = Some (fn, pc, ret)" "t \<notin> c_fin c"
    by (auto simp: in_hand_def live_def)
  have frm: "c_frm ?c g = c_frm c g" if "c_thr c u = Some (stk', par')" "g \<in> set stk'" for u stk' par' g
    using fresh_frame [OF st that] by simp
  have keep: "others_keep c ?c t" using frm by (auto simp: others_keep_def)
  have ok: "thread_ok pe c t stk par" using st thr by (simp add: stacks_ok_def)
  have "linked pe (c_frm ?c) stk"
    using ok linked_cong [of stk "c_frm ?c" "c_frm c" pe] frm [OF thr] by (simp add: thread_ok_def)
  then have "linked pe (c_frm ?c) (butlast stk @ [f])" using stk(1,2) append_butlast_last_id by metis
  moreover have "c_frm ?c f = Some (fn, pc, ret)" using frm [OF thr, of f] stk last_in_set by metis
  ultimately have "linked pe (c_frm ?c) (butlast stk @ [f, c_nf c])"
    using ra by (rule_tac linked_snoc) auto
  then have link: "linked pe (c_frm ?c) (stk @ [c_nf c])"
    using append_butlast_last_id [OF stk(1)] stk(2) by (metis append.assoc append_Cons append_Nil)
  have "stacks_ok pe ?c"
  proof (rule stacks_ok_change [OF st keep])
    fix stk' par' assume "c_thr ?c t = Some (stk', par')"
    then show "thread_ok pe ?c t stk' par'"
      using ok link stk(4) fresh_frame [OF st thr, of "c_nf c"] by (auto simp: thread_ok_def)
  next
    fix stk1 par1 u stk2 par2
    assume a: "c_thr ?c t = Some (stk1, par1)" "u \<noteq> t" "c_thr c u = Some (stk2, par2)"
    then have "set stk \<inter> set stk2 = {}" using st thr unfolding stacks_ok_def by metis
    then show "set stk1 \<inter> set stk2 = {}" using a fresh_frame [OF st a(3), of "c_nf c"] by auto
  qed (use st thr in \<open>auto simp: stacks_ok_def less_Suc_eq split: if_splits\<close>)
  moreover have "tok_ok pe ?c u k x" if "L u = Some (k, x)" for u k x
    using inv that t(1) by (intro tok_ok_change [OF _ keep]) (auto simp: core_inv_def)
  moreover have "scopes_ok R ?c" using inv thr by (auto simp: core_inv_def scopes_ok_def split: if_splits)
  moreover have "live ?c u = live c u" for u using thr by (auto simp: live_def)
  moreover have "live c t" using thr stk by (simp add: live_def)
  ultimately show ?thesis using inv thr stk
    by (auto simp: core_inv_def located_def in_hand_def)
qed

text \<open>A return: the current frame of a thread in hand goes; its caller is in hand at its position.\<close>

definition pop_core :: "thread_id \<Rightarrow> frame_id list \<Rightarrow> scope_id option \<Rightarrow> frame_id \<Rightarrow> ncore \<Rightarrow> ncore" where
  "pop_core t stk par f c = c\<lparr>c_frm := (c_frm c)(f := None), c_thr := (c_thr c)(t := Some (stk, par))\<rparr>"

lemma pop_core_simps [simp]:
  "c_tok (pop_core t stk par f c) = c_tok c" "c_fin (pop_core t stk par f c) = c_fin c"
  "c_rem (pop_core t stk par f c) = c_rem c" "c_nt (pop_core t stk par f c) = c_nt c"
  "c_ns (pop_core t stk par f c) = c_ns c" "c_nf (pop_core t stk par f c) = c_nf c"
  "c_sorted (pop_core t stk par f c) = c_sorted c"
  "c_thr (pop_core t stk par f c) = (c_thr c)(t := Some (stk, par))"
  "c_frm (pop_core t stk par f c) = (c_frm c)(f := None)"
  by (simp_all add: pop_core_def)

lemma pop_others_keep:
  assumes st: "stacks_ok pe c" and thr: "c_thr c t = Some (stk, par)" "f \<in> set stk"
    and c': "c_thr c' = (c_thr c)(t := v)" "c_frm c' = (c_frm c)(f := None)"
      "\<And>u. u \<noteq> t \<Longrightarrow> u \<in> c_fin c' \<longleftrightarrow> u \<in> c_fin c"
  shows "others_keep c c' t"
  using stack_member [OF st thr(1) _ thr(2)] c' by (auto simp: others_keep_def)

lemma core_inv_pop:
  assumes inv: "core_inv pe L H R c" and t: "t \<in> H" "in_hand c t f fn pc"
    and thr: "c_thr c t = Some (stk @ [g, f], par)"
  shows "core_inv pe L H R (pop_core t (stk @ [g]) par f c) \<and>
    (\<exists>gn gpc gret fret ra. c_frm c f = Some (fn, pc, Some ra) \<and> c_frm c g = Some (gn, gpc, gret) \<and>
      in_hand (pop_core t (stk @ [g]) par f c) t g gn gpc \<and> ctrl_place pe gn (na_pc_next ra) \<noteq> None)"
proof -
  let ?c = "pop_core t (stk @ [g]) par f c"
  have st: "stacks_ok pe c" using inv by (simp add: core_inv_def)
  have ok: "thread_ok pe c t (stk @ [g, f]) par" using st thr by (simp add: stacks_ok_def)
  have nf: "t \<notin> c_fin c" using t(2) by (simp add: in_hand_def live_def)
  from ok obtain gn gpc gret ra where fr: "c_frm c g = Some (gn, gpc, gret)" "c_frm c f = Some (fn, pc, Some ra)"
    "ctrl_place pe gn (na_pc_next ra) \<noteq> None"
    using linked_last [of pe "c_frm c" stk g f] t(2) by (auto simp: thread_ok_def in_hand_def)
  have keep: "others_keep c ?c t"
    by (rule pop_others_keep [OF st thr, of f]) auto
  have "linked pe (c_frm c) (stk @ [g])"
    using ok linked_butlast [of pe "c_frm c" "stk @ [g]" f] by (simp add: thread_ok_def)
  moreover have "linked pe (c_frm ?c) (stk @ [g]) = linked pe (c_frm c) (stk @ [g])"
    using ok by (intro linked_cong) (auto simp: thread_ok_def)
  ultimately have link: "linked pe (c_frm ?c) (stk @ [g])" by simp
  have "stacks_ok pe ?c"
  proof (rule stacks_ok_change [OF st keep])
    fix stk' par' assume "c_thr ?c t = Some (stk', par')"
    then show "thread_ok pe ?c t stk' par'" using ok link nf by (auto simp: thread_ok_def)
  next
    fix stk1 par1 u stk2 par2
    assume a: "c_thr ?c t = Some (stk1, par1)" "u \<noteq> t" "c_thr c u = Some (stk2, par2)"
    then have "set (stk @ [g, f]) \<inter> set stk2 = {}" using st thr unfolding stacks_ok_def by metis
    then show "set stk1 \<inter> set stk2 = {}" using a by auto
  qed (use st nf in \<open>auto simp: stacks_ok_def split: if_splits\<close>)
  moreover have "tok_ok pe ?c u k x" if "L u = Some (k, x)" for u k x
    using inv that t(1) by (intro tok_ok_change [OF _ keep]) (auto simp: core_inv_def)
  moreover have "scopes_ok R ?c" using inv thr by (auto simp: core_inv_def scopes_ok_def split: if_splits)
  moreover have "live ?c u = live c u" for u using thr by (auto simp: live_def)
  moreover have "live c t" using thr nf by (simp add: live_def)
  moreover have "g \<noteq> f" using ok by (auto simp: thread_ok_def)
  ultimately show ?thesis using inv thr fr
    by (auto simp: core_inv_def located_def in_hand_def)
qed

text \<open>The last return: the thread is finished, its stack empty.\<close>

definition finish_core :: "thread_id \<Rightarrow> scope_id option \<Rightarrow> frame_id \<Rightarrow> ncore \<Rightarrow> ncore" where
  "finish_core t par f c = (pop_core t [] par f c)\<lparr>c_fin := insert t (c_fin c)\<rparr>"

lemma core_inv_finish:
  assumes inv: "core_inv pe L H R c" and t: "t \<in> H" "in_hand c t f fn pc"
    and thr: "c_thr c t = Some ([f], par)"
  shows "core_inv pe L (H - {t}) R (finish_core t par f c)"
proof -
  let ?c = "finish_core t par f c"
  have st: "stacks_ok pe c" using inv by (simp add: core_inv_def)
  have ok: "thread_ok pe c t [f] par" using st thr by (simp add: stacks_ok_def)
  have keep: "others_keep c ?c t"
    by (rule pop_others_keep [OF st thr, of f]) (auto simp: finish_core_def)
  have "stacks_ok pe ?c"
  proof (rule stacks_ok_change [OF st keep])
    fix stk' par' assume "c_thr ?c t = Some (stk', par')"
    then show "thread_ok pe ?c t stk' par'" using ok by (auto simp: thread_ok_def finish_core_def)
  qed (use st ok in \<open>auto simp: finish_core_def stacks_ok_def thread_ok_def split: if_splits\<close>)
  moreover have "tok_ok pe ?c u k x" if "L u = Some (k, x)" for u k x
    using inv that t(1) by (intro tok_ok_change [OF _ keep]) (auto simp: core_inv_def)
  moreover have "scopes_ok R ?c"
    using inv thr by (auto simp: core_inv_def scopes_ok_def finish_core_def split: if_splits)
  moreover have "live ?c u = (live c u \<and> u \<noteq> t)" for u using thr by (auto simp: live_def finish_core_def)
  moreover have "L t = None" using inv t by (auto simp: core_inv_def)
  ultimately show ?thesis using inv t
    by (auto simp: core_inv_def located_def finish_core_def)
qed

subsection \<open>Threads and scopes\<close>

lemma fresh_thread:
  assumes "stacks_ok pe c"
  shows "c_thr c (c_nt c) = None" "c_nt c \<notin> c_fin c"
proof -
  have "t < c_nt c" if "c_thr c t = Some (stk, par)" for t stk par
    using assms that unfolding stacks_ok_def thread_ok_def by metis
  then have "\<nexists>v. c_thr c (c_nt c) = Some v" by fastforce
  then show "c_thr c (c_nt c) = None" by (cases "c_thr c (c_nt c)") auto
  show "c_nt c \<notin> c_fin c" using assms unfolding stacks_ok_def by auto
qed

lemma no_token: "core_inv pe L H R c \<Longrightarrow> \<not> live c t \<or> t \<in> H \<Longrightarrow> L t = None"
  unfolding core_inv_def by metis

text \<open>A new thread with a first frame, in hand, and one that is finished at once.\<close>

definition spawn_core :: "scope_id option \<Rightarrow> function_id \<Rightarrow> ncore \<Rightarrow> ncore" where
  "spawn_core par gn c = c\<lparr>c_thr := (c_thr c)(c_nt c := Some ([c_nf c], par)),
     c_frm := (c_frm c)(c_nf c := Some (gn, 0, None)), c_nt := Suc (c_nt c), c_nf := Suc (c_nf c)\<rparr>"

definition nobody_core :: "scope_id option \<Rightarrow> ncore \<Rightarrow> ncore" where
  "nobody_core par c = c\<lparr>c_thr := (c_thr c)(c_nt c := Some ([], par)),
     c_fin := insert (c_nt c) (c_fin c), c_nt := Suc (c_nt c)\<rparr>"

lemma core_inv_spawn:
  assumes inv: "core_inv pe L H R c" and par: "\<And>s. par = Some s \<Longrightarrow> s < c_ns c \<and> c_nt c \<in> R' s"
    and R: "\<And>s. R s \<subseteq> R' s"
  shows "core_inv pe L (insert (c_nt c) H) R' (spawn_core par gn c) \<and>
    in_hand (spawn_core par gn c) (c_nt c) (c_nf c) gn 0"
proof -
  let ?c = "spawn_core par gn c" and ?t = "c_nt c"
  have st: "stacks_ok pe c" using inv by (simp add: core_inv_def)
  note fresh = fresh_thread [OF st]
  have frm: "f \<noteq> c_nf c" if "c_thr c u = Some (stk', par')" "f \<in> set stk'" for u stk' par' f
    using fresh_frame [OF st that] by simp
  have keep: "others_keep c ?c ?t" using frm by (auto simp: others_keep_def spawn_core_def)
  have "stacks_ok pe ?c"
  proof (rule stacks_ok_change [OF st keep])
    fix stk' par' assume "c_thr ?c ?t = Some (stk', par')"
    then show "thread_ok pe ?c ?t stk' par'" using fresh par by (auto simp: thread_ok_def spawn_core_def)
  next
    fix stk1 par1 u stk2 par2
    assume "c_thr ?c ?t = Some (stk1, par1)" "u \<noteq> ?t" "c_thr c u = Some (stk2, par2)"
    then show "set stk1 \<inter> set stk2 = {}" using frm by (auto simp: spawn_core_def)
  qed (use st fresh in \<open>auto simp: stacks_ok_def spawn_core_def less_Suc_eq split: if_splits\<close>)
  moreover have L: "L ?t = None" using no_token [OF inv] fresh by (simp add: live_def)
  moreover have "tok_ok pe ?c u k x" if "L u = Some (k, x)" for u k x
    using inv that L by (intro tok_ok_change [OF _ keep]) (auto simp: core_inv_def)
  moreover have "scopes_ok R' ?c"
    using inv R par by (fastforce simp: core_inv_def scopes_ok_def spawn_core_def split: if_splits)
  moreover have "live ?c u = (live c u \<or> u = ?t)" for u using fresh by (auto simp: live_def spawn_core_def)
  moreover have "\<not> live c ?t" using fresh by (simp add: live_def)
  ultimately show ?thesis using inv
    by (auto simp: core_inv_def located_def in_hand_def spawn_core_def)
qed

lemma core_inv_nobody:
  assumes inv: "core_inv pe L H R c" and par: "\<And>s. par = Some s \<Longrightarrow> s < c_ns c"
  shows "core_inv pe L H R (nobody_core par c)"
proof -
  let ?c = "nobody_core par c" and ?t = "c_nt c"
  have st: "stacks_ok pe c" using inv by (simp add: core_inv_def)
  note fresh = fresh_thread [OF st]
  have keep: "others_keep c ?c ?t" by (auto simp: others_keep_def nobody_core_def)
  have "stacks_ok pe ?c"
  proof (rule stacks_ok_change [OF st keep])
    fix stk' par' assume "c_thr ?c ?t = Some (stk', par')"
    then show "thread_ok pe ?c ?t stk' par'" using fresh par by (auto simp: thread_ok_def nobody_core_def)
  qed (use st in \<open>auto simp: stacks_ok_def nobody_core_def split: if_splits\<close>)
  moreover have L: "L ?t = None" using no_token [OF inv] fresh by (simp add: live_def)
  moreover have "tok_ok pe ?c u k x" if "L u = Some (k, x)" for u k x
    using inv that L by (intro tok_ok_change [OF _ keep]) (auto simp: core_inv_def)
  moreover have "scopes_ok R ?c"
    using inv by (auto simp: core_inv_def scopes_ok_def nobody_core_def split: if_splits)
  moreover have "live ?c u = live c u" for u using fresh by (auto simp: live_def nobody_core_def)
  ultimately show ?thesis using inv by (auto simp: core_inv_def located_def nobody_core_def)
qed

text \<open>Reclaiming a finished thread.\<close>

definition remove_core :: "thread_id \<Rightarrow> ncore \<Rightarrow> ncore" where
  "remove_core t c = c\<lparr>c_thr := (c_thr c)(t := None), c_fin := c_fin c - {t}\<rparr>"

lemma core_inv_remove:
  assumes inv: "core_inv pe L H R c" and t: "\<not> live c t"
  shows "core_inv pe L H R (remove_core t c)"
proof -
  let ?c = "remove_core t c"
  have st: "stacks_ok pe c" using inv by (simp add: core_inv_def)
  have keep: "others_keep c ?c t" by (auto simp: others_keep_def remove_core_def)
  have "stacks_ok pe ?c"
    by (rule stacks_ok_change [OF st keep]) (use st in \<open>auto simp: stacks_ok_def remove_core_def\<close>)
  moreover have L: "L t = None" using inv t by (auto simp: core_inv_def)
  moreover have "tok_ok pe ?c u k x" if "L u = Some (k, x)" for u k x
    using inv that L by (intro tok_ok_change [OF _ keep]) (auto simp: core_inv_def)
  moreover have "scopes_ok R ?c"
    using inv t by (fastforce simp: core_inv_def scopes_ok_def remove_core_def live_def split: if_splits)
  moreover have "live ?c u = live c u" for u using t by (auto simp: live_def remove_core_def)
  ultimately show ?thesis using inv by (auto simp: core_inv_def located_def remove_core_def)
qed

lemma in_hand_remove: "in_hand c t f fn pc \<Longrightarrow> u \<noteq> t \<Longrightarrow> in_hand (remove_core u c) t f fn pc"
  by (auto simp: in_hand_def live_def remove_core_def)

text \<open>Changing the members a scope waits for, and opening a scope.\<close>

lemma core_inv_scope:
  assumes inv: "core_inv pe L H R c" and s: "s < c_ns c"
    and rem: "\<And>t stk. c_thr c t = Some (stk, Some s) \<Longrightarrow> t \<notin> c_fin c \<Longrightarrow> t \<in> rem"
    and R: "\<And>u. u \<noteq> s \<Longrightarrow> R u = R' u"
  shows "core_inv pe L H R' (c\<lparr>c_rem := (c_rem c)(s := rem)\<rparr>)"
proof -
  let ?c = "c\<lparr>c_rem := (c_rem c)(s := rem)\<rparr>"
  have "t \<in> c_rem ?c u \<union> R' u" if "c_thr c t = Some (stk, Some u)" "t \<notin> c_fin c" for t stk u
  proof (cases "u = s")
    case False
    have "t \<in> c_rem c u \<union> R u" using inv that unfolding core_inv_def scopes_ok_def by blast
    with False R [of u] show ?thesis by simp
  qed (use that rem in auto)
  then have "scopes_ok R' ?c"
    using inv s by (auto simp: core_inv_def scopes_ok_def)
  moreover have "stacks_ok pe ?c" using inv by (auto simp: core_inv_def stacks_ok_def thread_ok_def)
  moreover have "tok_ok pe ?c u k x = tok_ok pe c u k x" for u k x by (simp add: tok_ok_def)
  ultimately show ?thesis using inv by (auto simp: core_inv_def located_def live_def)
qed

lemma core_inv_new_scope_id:
  assumes "core_inv pe L H R c"
  shows "core_inv pe L H R (c\<lparr>c_ns := Suc (c_ns c)\<rparr>)"
proof -
  let ?c = "c\<lparr>c_ns := Suc (c_ns c)\<rparr>"
  have "scopes_ok R ?c" using assms by (fastforce simp: core_inv_def scopes_ok_def)
  moreover have "stacks_ok pe ?c" using assms by (auto simp: core_inv_def stacks_ok_def thread_ok_def less_Suc_eq)
  moreover have "tok_ok pe ?c u k x = tok_ok pe c u k x" for u k x by (simp add: tok_ok_def)
  ultimately show ?thesis using assms by (auto simp: core_inv_def located_def live_def)
qed

end
