(* ===== verification/Net_Build_Laws.thy ===== *)
theory Net_Build_Laws
  imports Net_Build
begin

text \<open>
  The translation to a net, read through the keys of its places: the transitions of a statement
  are a function of the statement alone (\<open>stmt_arcs\<close>), and the builder appends exactly these, in
  order. Places are created once per key, so a key names one place and a place one key.
\<close>

subsection \<open>The specification of the translation\<close>

datatype key_arc = KControl place_key | KWait place_key | KChoose place_key place_key

type_synonym key_transition = "net_op \<times> key_arc \<times> place_key option \<times> transition_origin"

text \<open>The operations of the transitions of one statement, with the keys of their arcs.\<close>

fun stmt_ops :: "(resource_id \<Rightarrow> nat) \<Rightarrow> function_id \<Rightarrow> nat \<Rightarrow> sem_op \<Rightarrow> (net_op \<times> key_arc \<times> place_key option) list" where
  "stmt_ops cap f i Nop = [(NNop, KControl (PlControl f i), Some (PlControl f (Suc i)))]"
| "stmt_ops cap f i (AssignLocal d e) =
     [(NAssignLocal d e, KControl (PlControl f i), Some (PlControl f (Suc i)))]"
| "stmt_ops cap f i (ReadShared r d) =
     [(NReadVar r d, KControl (PlControl f i), Some (PlControl f (Suc i)))]"
| "stmt_ops cap f i (WriteShared r e) =
     [(NWriteVar r e, KControl (PlControl f i), Some (PlControl f (Suc i)))]"
| "stmt_ops cap f i (AtomicLoad r d) =
     [(NAtomicLoad r d, KControl (PlControl f i), Some (PlControl f (Suc i)))]"
| "stmt_ops cap f i (AtomicStore r e) =
     [(NAtomicStore r e, KControl (PlControl f i), Some (PlControl f (Suc i)))]"
| "stmt_ops cap f i (AtomicCas r ex des d) =
     [(NAtomicCas r ex des d, KControl (PlControl f i), Some (PlControl f (Suc i)))]"
| "stmt_ops cap f i (MutexLock r) =
     [(NMutexLockGrant r, KControl (PlControl f i), Some (PlControl f (Suc i))),
      (NMutexLockBlock r, KControl (PlControl f i), Some (PlLockWait r))]"
| "stmt_ops cap f i (MutexUnlock r) =
     [(NMutexUnlock r, KControl (PlControl f i), Some (PlControl f (Suc i)))]"
| "stmt_ops cap f i (ChannelSend c e) =
     (if cap c = 0 then
       [(NSendRegister c, KControl (PlControl f i), Some (PlChannelSend c)),
        (NSendPair c, KChoose (PlControl f i) (PlChannelRecv c), Some (PlControl f (Suc i)))]
      else
       [(NSendBuf c e, KControl (PlControl f i), Some (PlControl f (Suc i))),
        (NSendBufBlock c e, KControl (PlControl f i), Some (PlChannelSend c))])"
| "stmt_ops cap f i (ChannelRecv c d) =
     (if cap c = 0 then
       [(NRecvRegister c, KControl (PlControl f i), Some (PlChannelRecv c)),
        (NRecvPair c, KChoose (PlControl f i) (PlChannelSend c), Some (PlControl f (Suc i)))]
      else
       [(NRecvBuf c d, KControl (PlControl f i), Some (PlControl f (Suc i))),
        (NRecvBufBlock c, KControl (PlControl f i), Some (PlChannelRecv c))])"
| "stmt_ops cap f i (CondvarWait cv lock) =
     [(NCondvarWait cv lock, KControl (PlControl f i), Some (PlCondvar cv))]"
| "stmt_ops cap f i (CondvarNotify cv) =
     [(NCondvarNotifyHit cv, KChoose (PlControl f i) (PlCondvar cv), Some (PlControl f (Suc i))),
      (NCondvarNotifyMiss cv, KControl (PlControl f i), Some (PlControl f (Suc i)))]"
| "stmt_ops cap f i (CondvarNotifyAll cv) =
     [(NCondvarNotifyAll cv, KControl (PlControl f i), Some (PlControl f (Suc i)))]"
| "stmt_ops cap f i (SemaphoreAcquire r n) =
     [(NSemAcquire r n, KControl (PlControl f i), Some (PlControl f (Suc i))),
      (NSemAcquireBlock r n, KControl (PlControl f i), Some (PlSemWait r))]"
| "stmt_ops cap f i (SemaphoreRelease r n) =
     [(NSemRelease r n, KControl (PlControl f i), Some (PlControl f (Suc i)))]"
| "stmt_ops cap f i (Call g args d) =
     [(NCall g args d, KControl (PlControl f i), Some (PlControl g 0))]"
| "stmt_ops cap f i (Spawn g h) =
     [(NSpawn g h, KControl (PlControl f i), Some (PlControl f (Suc i)))]"
| "stmt_ops cap f i (Scope fs) =
     [(NScope fs, KControl (PlControl f i), Some (PlControl f (Suc i)))]"
| "stmt_ops cap f i (Join h) =
     [(NJoinReady h, KControl (PlControl f i), Some (PlControl f (Suc i))),
      (NJoinBlock h, KControl (PlControl f i), Some (PlJoinWait f i))]"
| "stmt_ops cap f i (Goto t) = [(NGoto t, KControl (PlControl f i), Some (PlControl f t))]"
| "stmt_ops cap f i (Branch e t u) =
     [(NBranchThen e t, KControl (PlControl f i), Some (PlControl f t)),
      (NBranchElse e u, KControl (PlControl f i), Some (PlControl f u))]"
| "stmt_ops cap f i (Switch v cs d) =
     map (\<lambda>(l, t). (NSwitchCase v l t, KControl (PlControl f i), Some (PlControl f t))) cs @
     [(NSwitchDefault v (bt_keys cs) d, KControl (PlControl f i), Some (PlControl f d))]"
| "stmt_ops cap f i (Return e) =
     [(NReturnInner e, KControl (PlControl f i), None), (NReturnFinal e, KControl (PlControl f i), None)]"
| "stmt_ops cap f i (UnsupportedOp c) = []"

definition with_origin ::
  "transition_origin \<Rightarrow> (net_op \<times> key_arc \<times> place_key option) list \<Rightarrow> key_transition list" where
  "with_origin og xs = map (\<lambda>(op, arc, nxt). (op, arc, nxt, og)) xs"

definition res_capacity :: "sem_program \<Rightarrow> resource_id \<Rightarrow> nat" where
  "res_capacity P c = (case resource_of P c of Ok res \<Rightarrow> r_capacity res | _ \<Rightarrow> 0)"

definition stmt_arcs :: "sem_program \<Rightarrow> function_id \<Rightarrow> module_id \<Rightarrow> nat \<Rightarrow> sem_op \<Rightarrow> key_transition list" where
  "stmt_arcs P f m i op = with_origin
     \<lparr>or_module = m, or_function = f, or_sid = Some i, or_phase = Statement\<rparr>
     (stmt_ops (res_capacity P) f i op)"

definition return_arcs :: "function_id \<Rightarrow> module_id \<Rightarrow> nat \<Rightarrow> key_transition list" where
  "return_arcs f m n = with_origin
     \<lparr>or_module = m, or_function = f, or_sid = None, or_phase = Statement\<rparr>
     (stmt_ops (\<lambda>_. 0) f n (Return None))"

text \<open>The statements of a function carry the module its id resolves to.\<close>

definition origin_module :: "sem_program \<Rightarrow> function_id \<Rightarrow> module_id" where
  "origin_module P f = (case function_of P f of Ok fn \<Rightarrow> f_module fn | _ \<Rightarrow> 0)"

definition function_arcs :: "sem_program \<Rightarrow> sem_function \<Rightarrow> key_transition list" where
  "function_arcs P f =
     concat (map (\<lambda>(i, s). stmt_arcs P (f_id f) (origin_module P (f_id f)) i (st_op s))
       (enumerate 0 (f_body f))) @
     return_arcs (f_id f) (f_module f) (length (f_body f))"

definition resource_arcs :: "sem_program \<Rightarrow> resource_id \<Rightarrow> key_transition list" where
  "resource_arcs P r = (case resource_of P r of
      Ok res \<Rightarrow> (case r_kind res of
          KMutex \<Rightarrow> [(NLockWaitAcquire r, KWait (PlLockWait r), None, resource_origin P res Reacquire)]
        | KSemaphore \<Rightarrow> [(NSemGrant r, KWait (PlSemWait r), None, resource_origin P res Reacquire)]
        | KChannel \<Rightarrow> if r_capacity res = 0 then [] else
            [(NBufferDeliver r, KWait (PlChannelSend r), None, resource_origin P res Wake),
             (NBufferRecvWait r, KWait (PlChannelRecv r), None, resource_origin P res Wake)]
        | _ \<Rightarrow> [])
    | _ \<Rightarrow> [])"

definition program_arcs :: "sem_program \<Rightarrow> key_transition list" where
  "program_arcs P = concat (map (function_arcs P) (p_functions P)) @
     concat (map (\<lambda>r. resource_arcs P (r_id r)) (p_resources P))"

subsection \<open>Reading a net through its keys\<close>

fun arc_matches :: "(place_key \<Rightarrow> place_id option) \<Rightarrow> arc_binding \<Rightarrow> key_arc \<Rightarrow> bool" where
  "arc_matches m (BControl p) (KControl k) = (m k = Some p)"
| "arc_matches m (BWait p) (KWait k) = (m k = Some p)"
| "arc_matches m (BControlChooseWait p q) (KChoose k l) = (m k = Some p \<and> m l = Some q)"
| "arc_matches m _ _ = False"

definition tr_matches :: "(place_key \<Rightarrow> place_id option) \<Rightarrow> net_transition \<Rightarrow> key_transition \<Rightarrow> bool" where
  "tr_matches m tr x = (case x of (op, arc, nxt, og) \<Rightarrow>
     tr_op tr = op \<and> arc_matches m (tr_binding tr) arc \<and>
     (case nxt of None \<Rightarrow> tr_next tr = None | Some k \<Rightarrow> \<exists>p. m k = Some p \<and> tr_next tr = Some p) \<and>
     tr_origin tr = og)"

definition keeps :: "(place_key \<Rightarrow> place_id option) \<Rightarrow> (place_key \<Rightarrow> place_id option) \<Rightarrow> bool" where
  "keeps m m' \<longleftrightarrow> (\<forall>k p. m k = Some p \<longrightarrow> m' k = Some p)"

definition places_of :: "builder \<Rightarrow> place_key \<Rightarrow> place_id option" where
  "places_of b k = bt_get (bd_place_of b) k"

lemma keepsD: "keeps m m' \<Longrightarrow> m k = Some p \<Longrightarrow> m' k = Some p"
  by (simp add: keeps_def)

lemma keeps_refl [simp]: "keeps m m"
  by (simp add: keeps_def)

lemma keeps_trans: "keeps m m' \<Longrightarrow> keeps m' m'' \<Longrightarrow> keeps m m''"
  by (simp add: keeps_def)

lemma arc_matches_mono: "arc_matches m bind arc \<Longrightarrow> keeps m m' \<Longrightarrow> arc_matches m' bind arc"
  by (cases bind; cases arc) (auto simp: keeps_def)

lemma tr_matches_mono: "tr_matches m tr x \<Longrightarrow> keeps m m' \<Longrightarrow> tr_matches m' tr x"
  by (cases x) (auto simp: tr_matches_def keeps_def intro: arc_matches_mono split: option.splits)

lemma built_mono: "list_all2 (tr_matches m) trs xs \<Longrightarrow> keeps m m' \<Longrightarrow> list_all2 (tr_matches m') trs xs"
  by (erule list_all2_mono) (rule tr_matches_mono)

text \<open>What a builder operation does: it extends the key map and appends the given transitions.\<close>

definition adds :: "builder \<Rightarrow> key_transition list \<Rightarrow> builder \<Rightarrow> bool" where
  "adds b xs b' \<longleftrightarrow> keeps (places_of b) (places_of b') \<and>
     (\<exists>ts. bd_transitions b' = bd_transitions b @ ts \<and> list_all2 (tr_matches (places_of b')) ts xs)"

lemma adds_refl: "adds b [] b"
  by (simp add: adds_def)

lemma adds_trans: "adds b xs b1 \<Longrightarrow> adds b1 ys b2 \<Longrightarrow> adds b (xs @ ys) b2"
  unfolding adds_def by (metis append.assoc built_mono list_all2_appendI keeps_trans)

lemma adds_keeps: "adds b xs b' \<Longrightarrow> keeps (places_of b) (places_of b')"
  by (simp add: adds_def)

lemma b_place_facts:
  "b_place k b = (p, b') \<Longrightarrow> bd_transitions b' = bd_transitions b \<and>
     (\<forall>l q. places_of b l = Some q \<longrightarrow> places_of b' l = Some q) \<and> places_of b' k = Some p"
  by (auto simp: b_place_def places_of_def Let_def split: option.splits)

lemmas b_place_snd = b_place_facts [OF prod.collapse [symmetric]]

lemma b_ctrl_facts:
  "b_ctrl f i b = (p, b') \<Longrightarrow> bd_transitions b' = bd_transitions b \<and>
     (\<forall>l q. places_of b l = Some q \<longrightarrow> places_of b' l = Some q) \<and> places_of b' (PlControl f i) = Some p"
  by (simp add: b_ctrl_def b_place_facts)

lemma places_of_upd [simp]: "places_of (b\<lparr>bd_transitions := ts\<rparr>) = places_of b"
  by (simp add: places_of_def fun_eq_iff)

lemmas build_defs = adds_def keeps_def b_move_def b_add_def tr_matches_def

subsection \<open>Each statement adds its transitions\<close>

lemma b_send_adds:
  assumes "b_send P c e inp fall og b = Ok b'" "places_of b (PlControl f i) = Some inp"
    "places_of b (PlControl f (Suc i)) = Some fall"
  shows "adds b (with_origin og (stmt_ops (res_capacity P) f i (ChannelSend c e))) b'"
proof -
  obtain res where "resource_of P c = Ok res" using assms(1) by (auto simp: b_send_def)
  then show ?thesis using assms
    by (auto simp: b_send_def build_defs with_origin_def res_capacity_def Let_def
        dest!: b_place_facts split: prod.split_asm if_split_asm)
qed

lemma b_recv_adds:
  assumes "b_recv P c d inp fall og b = Ok b'" "places_of b (PlControl f i) = Some inp"
    "places_of b (PlControl f (Suc i)) = Some fall"
  shows "adds b (with_origin og (stmt_ops (res_capacity P) f i (ChannelRecv c d))) b'"
proof -
  obtain res where "resource_of P c = Ok res" using assms(1) by (auto simp: b_recv_def)
  then show ?thesis using assms
    by (auto simp: b_recv_def build_defs with_origin_def res_capacity_def Let_def
        dest!: b_place_facts split: prod.split_asm if_split_asm)
qed

lemma b_ctrls_facts:
  "b_ctrls xs b = (ps, b') \<Longrightarrow> bd_transitions b' = bd_transitions b \<and>
     (\<forall>l q. places_of b l = Some q \<longrightarrow> places_of b' l = Some q)"
  by (induction xs b arbitrary: ps b' rule: b_ctrls.induct)
    (force dest!: b_ctrl_facts split: prod.splits)+

lemma b_case_adds:
  assumes "places_of b (PlControl f i) = Some inp"
  shows "adds b [(NSwitchCase v (fst c) (snd c), KControl (PlControl f i), Some (PlControl f (snd c)), og)]
     (b_case v f inp og c b)"
  using assms by (cases c) (auto simp: b_case_def build_defs dest!: b_ctrl_facts split: prod.splits)

lemma b_cases_adds:
  "places_of b (PlControl f i) = Some inp \<Longrightarrow>
   adds b (map (\<lambda>c. (NSwitchCase v (fst c) (snd c), KControl (PlControl f i), Some (PlControl f (snd c)), og)) cs)
     (fold (b_case v f inp og) cs b)"
proof (induction cs arbitrary: b)
  case (Cons c cs)
  note first = b_case_adds [OF Cons.prems, of v c og]
  then have "places_of (b_case v f inp og c b) (PlControl f i) = Some inp"
    using Cons.prems by (auto dest!: adds_keeps intro: keepsD)
  from adds_trans [OF first Cons.IH [OF this]] show ?case by simp
qed (simp add: adds_refl)

lemma b_switch_adds:
  assumes "places_of b (PlControl f i) = Some inp"
  shows "adds b (with_origin og (stmt_ops cap f i (Switch v cs d))) (b_switch v cs d f inp og b)"
proof -
  let ?b1 = "fold (b_case v f inp og) cs b"
  note first = b_cases_adds [OF assms, of v og cs]
  then have "places_of ?b1 (PlControl f i) = Some inp"
    using assms by (auto dest!: adds_keeps intro: keepsD)
  then have "adds ?b1 [(NSwitchDefault v (bt_keys cs) d, KControl (PlControl f i), Some (PlControl f d), og)]
      (b_switch v cs d f inp og b)"
    by (auto simp: b_switch_def Let_def build_defs dest!: b_ctrl_facts split: prod.splits)
  from adds_trans [OF first this] show ?thesis
    by (simp add: with_origin_def comp_def case_prod_unfold)
qed

lemma build_op_adds:
  assumes "build_op P f i inp fall og op b = Ok b'" "places_of b (PlControl f i) = Some inp"
    "places_of b (PlControl f (Suc i)) = Some fall"
  shows "adds b (with_origin og (stmt_ops (res_capacity P) f i op)) b'"
proof (cases op)
  case (ChannelSend c e)
  with assms show ?thesis using b_send_adds by simp
next
  case (ChannelRecv c d)
  with assms show ?thesis using b_recv_adds by simp
next
  case (Switch v cs d)
  with assms show ?thesis using b_switch_adds by (auto simp del: stmt_ops.simps)
next
  case (UnsupportedOp c)
  with assms show ?thesis by (simp add: with_origin_def adds_refl)
next
  case (Scope fs)
  with assms show ?thesis
    by (auto simp: with_origin_def b_scope_def build_defs dest!: b_place_facts b_ctrls_facts split: prod.splits)
qed (use assms in \<open>auto simp: with_origin_def b_resource_move_def b_lock_def
    b_wait_def b_notify_def b_acquire_def b_join_def b_branch_def b_return_def build_defs
    dest!: b_place_facts b_ctrl_facts split: prod.splits\<close>)

lemma build_stmt_adds:
  assumes "build_stmt P f i stmt b = Ok b'"
  shows "adds b (stmt_arcs P (f_id f) (origin_module P (f_id f)) i (st_op stmt)) b' \<and>
    places_of b' (PlControl (f_id f) i) \<noteq> None \<and> places_of b' (PlControl (f_id f) (Suc i)) \<noteq> None"
proof -
  obtain inp b1 where inp: "b_ctrl (f_id f) i b = (inp, b1)" by fastforce
  obtain fall b2 where fall: "b_ctrl (f_id f) (Suc i) b1 = (fall, b2)" by fastforce
  note facts = b_ctrl_facts [OF inp] b_ctrl_facts [OF fall]
  from assms inp fall obtain fn where fn: "function_of P (f_id f) = Ok fn"
    and op: "build_op P (f_id f) i inp fall
      \<lparr>or_module = f_module fn, or_function = f_id f, or_sid = Some i, or_phase = Statement\<rparr> (st_op stmt) b2 = Ok b'"
    by (auto simp: build_stmt_def b_origin_def)
  have here: "places_of b2 (PlControl (f_id f) i) = Some inp" "places_of b2 (PlControl (f_id f) (Suc i)) = Some fall"
    using facts by auto
  have "adds b [] b2" using facts by (simp add: adds_def keeps_def)
  from adds_trans [OF this build_op_adds [OF op here]] fn
  have "adds b (stmt_arcs P (f_id f) (origin_module P (f_id f)) i (st_op stmt)) b'"
    by (simp add: stmt_arcs_def origin_module_def)
  moreover have "keeps (places_of b2) (places_of b')"
    using build_op_adds [OF op here] by (rule adds_keeps)
  ultimately show ?thesis using here by (auto dest: keepsD)
qed

text \<open>A fold of building steps appends the concatenation of what each step appends.\<close>

lemma foldM_adds:
  assumes "foldM g xs b = Ok b'" and "\<And>x b b'. x \<in> set xs \<Longrightarrow> g x b = Ok b' \<Longrightarrow> adds b (h x) b'"
  shows "adds b (concat (map h xs)) b'"
  using assms
proof (induction xs arbitrary: b)
  case (Cons x xs)
  then obtain b1 where b1: "g x b = Ok b1" "foldM g xs b1 = Ok b'" by auto
  have "adds b (h x) b1" by (rule Cons.prems(2)) (use b1 in auto)
  moreover have "adds b1 (concat (map h xs)) b'" by (rule Cons.IH [OF b1(2)]) (rule Cons.prems(2), auto)
  ultimately show ?case by (auto intro: adds_trans)
qed (simp add: adds_refl)

text \<open>What one step establishes of the places, the later ones keep.\<close>

lemma foldM_places:
  assumes "foldM g xs b = Ok b'" and "\<And>x b b'. x \<in> set xs \<Longrightarrow> g x b = Ok b' \<Longrightarrow> keeps (places_of b) (places_of b')"
    and "x \<in> set xs" and "\<And>b b'. g x b = Ok b' \<Longrightarrow> places_of b' k \<noteq> None"
  shows "places_of b' k \<noteq> None"
  using assms
proof (induction xs arbitrary: b)
  case (Cons y ys)
  then obtain b1 where b1: "g y b = Ok b1" "foldM g ys b1 = Ok b'" by auto
  have later: "keeps (places_of b1) (places_of b')"
    by (rule foldM_invariant [OF b1(2), of "\<lambda>b. keeps (places_of b1) (places_of b)"])
      (simp, erule keeps_trans, rule Cons.prems(2), auto)
  show ?case
  proof (cases "x = y")
    case True
    with Cons.prems(4) b1(1) have "places_of b1 k \<noteq> None" by simp
    with later show ?thesis by (auto dest: keepsD)
  next
    case False
    with Cons.prems have "x \<in> set ys" by simp
    show ?thesis by (rule Cons.IH [OF b1(2) Cons.prems(2) \<open>x \<in> set ys\<close> Cons.prems(4)]) auto
  qed
qed simp

lemma build_function_adds:
  assumes "build_function P f b = Ok b'"
  shows "adds b (function_arcs P f) b' \<and>
    (\<forall>i\<le>length (f_body f). places_of b' (PlControl (f_id f) i) \<noteq> None)"
proof -
  let ?g = "\<lambda>(si, stmt). build_stmt P f si stmt"
  from assms obtain b1 where b1: "foldM ?g (enumerate 0 (f_body f)) b = Ok b1"
    and b': "b' = (let (inp, b) = b_ctrl (f_id f) (length (f_body f)) b1 in b_return None inp
         \<lparr>or_module = f_module f, or_function = f_id f, or_sid = None, or_phase = Statement\<rparr> b)"
    by (clarsimp simp: build_function_def Let_def) (metis (no_types, lifting) case_prod_conv outc.inject(1) prod.exhaust)
  have body: "adds b (concat (map (\<lambda>(i, s). stmt_arcs P (f_id f) (origin_module P (f_id f)) i (st_op s))
      (enumerate 0 (f_body f)))) b1"
    by (rule foldM_adds [OF b1]) (use build_stmt_adds in \<open>auto split: prod.splits\<close>)
  have ret: "adds b1 (return_arcs (f_id f) (f_module f) (length (f_body f))) b' \<and>
      places_of b' (PlControl (f_id f) (length (f_body f))) \<noteq> None"
    unfolding b' by (auto simp: return_arcs_def with_origin_def b_return_def build_defs
        dest!: b_ctrl_facts split: prod.splits)
  have early: "places_of b1 (PlControl (f_id f) i) \<noteq> None" if "i < length (f_body f)" for i
  proof (rule foldM_places [OF b1])
    show "(i, f_body f ! i) \<in> set (enumerate 0 (f_body f))"
      using that by (auto simp: in_set_enumerate_eq)
  qed (use build_stmt_adds adds_keeps in \<open>fastforce split: prod.splits\<close>)+
  have keeps: "keeps (places_of b1) (places_of b')" using ret adds_keeps by blast
  have "places_of b' (PlControl (f_id f) i) \<noteq> None" if "i \<le> length (f_body f)" for i
  proof (cases "i = length (f_body f)")
    case False
    with that early [of i] obtain q where "places_of b1 (PlControl (f_id f) i) = Some q" by auto
    with keeps show ?thesis by (auto dest: keepsD)
  qed (use ret in simp)
  with adds_trans [OF body] ret show ?thesis by (auto simp: function_arcs_def)
qed

lemma build_resource_adds:
  assumes "build_resource P r b = Ok b'"
  shows "adds b (resource_arcs P r) b' \<and> (\<forall>res. resource_of P r = Ok res \<longrightarrow> (\<forall>k.
    (k = PlVar r \<and> r_kind res = KVar) \<or> (k = PlAtomic r \<and> r_kind res = KAtomic) \<or>
    (k \<in> {PlMutex r, PlLockWait r} \<and> r_kind res = KMutex) \<or>
    (k \<in> {PlSemaphore r, PlSemWait r} \<and> r_kind res = KSemaphore) \<or>
    (k \<in> {PlChannel r, PlChannelSend r, PlChannelRecv r} \<and> r_kind res = KChannel) \<longrightarrow>
    places_of b' k \<noteq> None))"
proof -
  obtain res where res: "resource_of P r = Ok res" using assms by (auto simp: build_resource_def)
  with assms show ?thesis
    using b_place_snd [of "PlVar r" b] b_place_snd [of "PlAtomic r" b] by (cases "r_kind res")
      (auto simp: build_resource_def resource_arcs_def b_waiters_def b_channel_def build_defs Let_def
        dest!: b_place_facts split: prod.splits if_splits)
qed

theorem net_build_arcs:
  assumes "net_build P = Ok net"
  shows "list_all2 (tr_matches (bt_get (pn_place_of net))) (pn_transitions net) (program_arcs P)"
proof -
  from assms obtain b b' where b: "foldM (build_function P) (p_functions P) builder_empty = Ok b"
    and b': "foldM (build_resource P) (map r_id (p_resources P)) b = Ok b'"
    and net: "net = \<lparr>pn_places = bd_places b', pn_place_of = bd_place_of b',
      pn_transitions = bd_transitions b', pn_entry = p_entry P\<rparr>"
    by (auto simp: net_build_def)
  have "adds builder_empty (concat (map (function_arcs P) (p_functions P))) b"
    by (rule foldM_adds [OF b]) (use build_function_adds in blast)
  moreover have "adds b (concat (map (resource_arcs P) (map r_id (p_resources P)))) b'"
    by (rule foldM_adds [OF b']) (use build_resource_adds in blast)
  ultimately have "adds builder_empty (program_arcs P) b'"
    unfolding program_arcs_def by (auto simp: comp_def dest: adds_trans)
  then have "list_all2 (tr_matches (places_of b')) (bd_transitions b') (program_arcs P)"
    by (auto simp: adds_def builder_empty_def)
  moreover have "places_of b' = bt_get (pn_place_of net)" by (simp add: net places_of_def fun_eq_iff)
  ultimately show ?thesis by (simp add: net)
qed

end
