(* ===== verification/Net_Marks.thy ===== *)
theory Net_Marks
  imports Net_Core Net_Build_Laws
begin

text \<open>
  How the operations on a net state act on its control structure, and the well-formedness of the
  engine's net: keys and places correspond, the transitions are those of the program, and every
  position of a body has its control place.
\<close>

subsection \<open>Well-formed engines\<close>

definition places_ok :: "petri_engine \<Rightarrow> bool" where
  "places_ok pe \<longleftrightarrow> (\<forall>k p. place_for pe k = Some p \<longrightarrow>
     p < length (pn_places (pe_net pe)) \<and> pl_key (pn_places (pe_net pe) ! p) = k)"

definition net_wf :: "petri_engine \<Rightarrow> bool" where
  "net_wf pe \<longleftrightarrow> places_ok pe \<and>
     (\<forall>tr\<in>set (pn_transitions (pe_net pe)). \<exists>x\<in>set (program_arcs (pe_program pe)).
        tr_matches (place_for pe) tr x) \<and>
     (\<forall>fn\<in>set (p_functions (pe_program pe)). \<forall>i\<le>length (f_body fn).
        place_for pe (PlControl (f_id fn) i) \<noteq> None)"

lemma place_neq: "places_ok pe \<Longrightarrow> place_for pe k = Some p \<Longrightarrow> l \<noteq> k \<Longrightarrow> place_for pe l = Some q \<Longrightarrow> q \<noteq> p"
  by (auto simp: places_ok_def)

lemma place_inj: "places_ok pe \<Longrightarrow> place_for pe k = Some p \<Longrightarrow> place_for pe l = Some p \<Longrightarrow> k = l"
  by (auto simp: places_ok_def)

subsection \<open>Updates outside the control structure\<close>

lemma tokens_at_store [simp]: "tokens_at pe (upd_nstore g st) = tokens_at pe st"
  by (simp add: tokens_at_def upd_nstore_def place_tokens_def fun_eq_iff split: option.split)

lemma store_upd [simp]: "ns_store (upd_nstore g st) = g (ns_store st)"
  by (simp add: upd_nstore_def)

text \<open>Frames keep function, position and return address; threads keep stack and scope.\<close>

lemma ncore_frame_data:
  assumes "\<And>fr. nf_function (g fr) = nf_function fr \<and> nf_pc (g fr) = nf_pc fr \<and> nf_ret (g fr) = nf_ret fr"
  shows "ncore pe (upd_nframe f g st) = ncore pe st"
  using assms by (auto simp: ncore_def upd_nframe_def Let_def fun_eq_iff option.map_comp comp_def)

lemma ncore_thread_data:
  assumes "\<And>th. nt_stack (g th) = nt_stack th \<and> nt_parent_scope (g th) = nt_parent_scope th"
  shows "ncore pe (upd_nthread t g st) = ncore pe st"
proof -
  have "bt_ok (bt_adjust t g m) = bt_ok m" for m :: "(nat, net_thread) btree"
  proof
    assume ok: "bt_ok (bt_adjust t g m)"
    show "bt_ok m"
    proof (cases "bt_get m t")
      case (Some v)
      have "map fst (bt_insert t w m) = map fst m" if "t \<in> fst ` set m" "sorted_wrt (<) (map fst (bt_insert t w m))" for w
        using that by (induction t w m rule: bt_insert.induct) (force simp: bt_insert_keys)+
      moreover have "t \<in> fst ` set m" using Some by (force simp: bt_get_def dest: map_of_SomeD)
      ultimately show ?thesis using ok Some by (auto simp: bt_adjust_def bt_ok_def)
    qed (use ok in \<open>simp add: bt_adjust_def\<close>)
  qed simp
  with assms show ?thesis
    by (auto simp: ncore_def upd_nthread_def Let_def fun_eq_iff option.map_comp comp_def)
qed

lemma ncore_blocked [simp]:
  "ncore pe (unblock t st) = ncore pe st" "ncore pe (set_blocked t k st) = ncore pe st"
  by (simp_all add: unblock_def set_blocked_def ncore_thread_data)

lemma ncore_completion [simp]: "ncore pe (net_completion pe f st) = ncore pe st"
  by (simp add: net_completion_def ncore_def Let_def)

lemma ncore_facts [simp]:
  "ncore pe (upd_nstore (\<lambda>s. s\<lparr>nst_completed_scopes := g s\<rparr>) st) = ncore pe st"
  "ncore pe (upd_nstore (\<lambda>s. s\<lparr>nst_reached := g s\<rparr>) st) = ncore pe st"
  by (simp_all add: ncore_def Let_def)

lemma ncore_reached [simp]: "ncore pe (net_mark_reached f st) = ncore pe st"
  by (simp add: net_mark_reached_def split: option.split)

lemma ncore_handle_id [simp]: "ncore pe (upd_alloc (\<lambda>a. a\<lparr>na_handle := g a\<rparr>) st) = ncore pe st"
  by (simp add: ncore_def upd_alloc_def Let_def)

subsection \<open>Updates of the marking\<close>

lemma store_marking [simp]:
  "ns_store (put_token p x st) = ns_store st" "ns_store (set_single p x st) = ns_store st"
  by (simp_all add: put_token_def set_single_def)

lemma store_take [simp]: "ns_store (snd (take_token p x st)) = ns_store st"
  by (simp add: take_token_def split: option.split)

lemma ncore_store_eq:
  "ns_store st' = ns_store st \<Longrightarrow>
   ncore pe st' = (ncore pe st)\<lparr>c_tok := (\<lambda>k t. of_thread t (tokens_at pe st' k))\<rparr>"
  by (simp add: ncore_def Let_def)

lemma ncore_tok_eqI:
  assumes "ns_store st' = ns_store st" and "\<And>k t. of_thread t (tokens_at pe st' k) = g k t"
  shows "ncore pe st' = (ncore pe st)\<lparr>c_tok := g\<rparr>"
proof -
  have "(\<lambda>k t. of_thread t (tokens_at pe st' k)) = g" by (intro ext) (rule assms(2))
  then show ?thesis by (simp add: ncore_store_eq [OF assms(1)])
qed

lemma c_tok_ncore [simp]: "c_tok (ncore pe st) k t = of_thread t (tokens_at pe st k)"
  by (simp add: ncore_def Let_def)

lemma tokens_put:
  assumes "places_ok pe" "place_for pe k = Some p"
  shows "tokens_at pe (put_token p x st) l = (if l = k then tokens_at pe st k @ [x] else tokens_at pe st l)"
  using assms(2) place_neq [OF assms, of l]
  by (cases "place_for pe l"; cases "l = k") (auto simp: tokens_at_def put_token_def place_tokens_def split: option.split)

lemma tokens_set:
  assumes "places_ok pe" "place_for pe k = Some p"
  shows "tokens_at pe (set_single p x st) l = (if l = k then [x] else tokens_at pe st l)"
  using assms(2) place_neq [OF assms, of l]
  by (cases "place_for pe l"; cases "l = k") (auto simp: tokens_at_def set_single_def place_tokens_def split: option.split)

lemma tokens_take:
  assumes "places_ok pe" "place_for pe k = Some p"
  shows "tokens_at pe (snd (take_token p x st)) l = (if l = k then remove1 x (tokens_at pe st k) else tokens_at pe st l)"
  using assms(2) place_neq [OF assms, of l]
  by (cases "place_for pe l"; cases "l = k") (auto simp: tokens_at_def take_token_def place_tokens_def remove1_idem split: option.split)

lemma of_thread_append [simp]: "of_thread t (xs @ ys) = of_thread t xs @ of_thread t ys"
  by (simp add: of_thread_def)

lemma of_thread_single [simp]: "of_thread t [x] = (if tok_thread x = Some t then [x] else [])"
  by (simp add: of_thread_def)

lemma of_thread_remove1:
  "of_thread t (remove1 x xs) = (if tok_thread x = Some t then remove1 x (of_thread t xs) else of_thread t xs)"
  by (induction xs) (auto simp: of_thread_def)

lemma ncore_put:
  assumes "places_ok pe" "place_for pe k = Some p" "tok_thread x = Some t" "c_tok (ncore pe st) k t = []"
  shows "ncore pe (put_token p x st) =
    (ncore pe st)\<lparr>c_tok := (c_tok (ncore pe st))(k := (c_tok (ncore pe st) k)(t := [x]))\<rparr>"
  by (rule ncore_tok_eqI) (use assms in \<open>auto simp: tokens_put\<close>)

lemma ncore_take:
  assumes "places_ok pe" "place_for pe k = Some p" "tok_thread x = Some t" "c_tok (ncore pe st) k t = [x]"
  shows "ncore pe (snd (take_token p x st)) =
    (ncore pe st)\<lparr>c_tok := (c_tok (ncore pe st))(k := (c_tok (ncore pe st) k)(t := []))\<rparr>"
  by (rule ncore_tok_eqI) (use assms in \<open>auto simp: tokens_take of_thread_remove1\<close>)

text \<open>Resource places hold no thread's token, so a write there leaves the control structure alone.\<close>

fun res_key :: "place_key \<Rightarrow> bool" where
  "res_key (PlVar r) = True"
| "res_key (PlAtomic r) = True"
| "res_key (PlMutex r) = True"
| "res_key (PlSemaphore r) = True"
| "res_key (PlChannel r) = True"
| "res_key _ = False"

lemma site_not_res: "site_ok pe k x fn pc \<Longrightarrow> \<not> res_key k"
  by (cases x) auto

lemma core_inv_res:
  assumes "core_inv pe L H R c" "res_key k"
  shows "c_tok c k t = []"
proof -
  have "k' \<noteq> k" if "L t = Some (k', x)" for k' x
    using assms that site_not_res tok_in_hand [OF assms(1) that] by blast
  then show ?thesis using assms(1) by (auto simp: core_inv_def located_def split: option.splits)
qed

lemma ncore_set:
  assumes "places_ok pe" "place_for pe k = Some p" "tok_thread x = None" "res_key k"
    and "core_inv pe L H R (ncore pe st)"
  shows "ncore pe (set_single p x st) = ncore pe st"
proof -
  have "of_thread t (tokens_at pe (set_single p x st) l) = of_thread t (tokens_at pe st l)" for t l
    using core_inv_res [OF assms(5,4), of t] assms(1-3) by (auto simp: tokens_set)
  then have "ncore pe (set_single p x st) = (ncore pe st)\<lparr>c_tok := (\<lambda>k t. of_thread t (tokens_at pe st k))\<rparr>"
    by (intro ncore_tok_eqI) auto
  then show ?thesis by (simp add: ncore_def Let_def)
qed

subsection \<open>Threads in hand\<close>

definition held :: "petri_engine \<Rightarrow> thread_id set \<Rightarrow> (scope_id \<Rightarrow> thread_id set) \<Rightarrow> net_state \<Rightarrow> bool" where
  "held pe H R st \<longleftrightarrow> (\<exists>L. core_inv pe L H R (ncore pe st))"

abbreviation no_pending :: "scope_id \<Rightarrow> thread_id set" where "no_pending \<equiv> \<lambda>_. {}"

definition net_inv :: "petri_engine \<Rightarrow> net_state \<Rightarrow> bool" where
  "net_inv pe st \<longleftrightarrow> held pe {} no_pending st"

definition at_pos :: "petri_engine \<Rightarrow> net_state \<Rightarrow> thread_id \<Rightarrow> frame_id \<Rightarrow> function_id \<Rightarrow> nat \<Rightarrow> bool" where
  "at_pos pe st t f fn pc \<longleftrightarrow> in_hand (ncore pe st) t f fn pc"

lemma held_cong: "ncore pe st' = ncore pe st \<Longrightarrow> held pe H R st' = held pe H R st"
  by (simp add: held_def)

lemma at_pos_cong: "ncore pe st' = ncore pe st \<Longrightarrow> at_pos pe st' = at_pos pe st"
  by (simp add: at_pos_def fun_eq_iff)

lemma at_pos_frame: "at_pos pe st t f fn pc \<Longrightarrow>
    \<exists>fr. bt_get (nst_frames (ns_store st)) f = Some fr \<and> nf_function fr = fn \<and> nf_pc fr = pc"
  by (auto simp: at_pos_def in_hand_def ncore_def Let_def)

lemma at_pos_thread: "at_pos pe st t f fn pc \<Longrightarrow>
    \<exists>th. bt_get (nst_threads (ns_store st)) t = Some th \<and> nt_stack th \<noteq> [] \<and> last (nt_stack th) = f"
  by (auto simp: at_pos_def in_hand_def ncore_def Let_def)

lemma ncore_set_held:
  "places_ok pe \<Longrightarrow> place_for pe k = Some p \<Longrightarrow> res_key k \<Longrightarrow> held pe H R st \<Longrightarrow>
   ncore pe (set_data p v st) = ncore pe st \<and> ncore pe (set_mutex_token p m st) = ncore pe st"
  by (auto simp: held_def set_data_def set_mutex_token_def intro!: ncore_set)

lemma of_thread_in: "x \<in> set xs \<Longrightarrow> tok_thread x = Some t \<Longrightarrow> x \<in> set (of_thread t xs)"
  by (simp add: of_thread_def)

text \<open>Taking the token of a thread, which is then in hand at the position of its frame.\<close>

lemma held_take:
  assumes ok: "places_ok pe" and inv: "held pe H R st" and k: "place_for pe k = Some p"
    and x: "x \<in> set (place_tokens st p)" "tok_thread x = Some t"
  shows "take_token p x st = (True, snd (take_token p x st)) \<and>
    held pe (insert t H) R (snd (take_token p x st)) \<and> t \<notin> H \<and>
    (\<exists>f fn pc. tok_frame x = Some f \<and> at_pos pe (snd (take_token p x st)) t f fn pc \<and> site_ok pe k x fn pc)"
proof -
  from inv obtain L where L: "core_inv pe L H R (ncore pe st)" by (auto simp: held_def)
  have "x \<in> set (of_thread t (tokens_at pe st k))" using x k of_thread_in by (simp add: tokens_at_def)
  then have "x \<in> set (c_tok (ncore pe st) k t)" by simp
  then have Lt: "L t = Some (k, x)"
    using L by (auto simp: core_inv_def located_def simp del: c_tok_ncore split: option.splits if_splits)
  then have "c_tok (ncore pe st) k t = [x]"
    using L by (auto simp: core_inv_def located_def simp del: c_tok_ncore)
  note take = ncore_take [OF ok k x(2) this]
  have "take_token p x st = (True, snd (take_token p x st))"
    using x by (cases "bt_get (ns_marking st) p") (auto simp: take_token_def place_tokens_def)
  moreover have "held pe (insert t H) R (snd (take_token p x st))"
    unfolding held_def take using core_inv_take [OF L Lt] by blast
  moreover have "t \<notin> H" using L Lt by (auto simp: core_inv_def)
  ultimately show ?thesis
    using tok_in_hand [OF L Lt] take by (auto simp: at_pos_def)
qed

lemma held_put:
  assumes ok: "places_ok pe" and inv: "held pe H R st" and k: "place_for pe k = Some p"
    and t: "t \<in> H" "at_pos pe st t f fn pc"
    and x: "tok_thread x = Some t" "tok_frame x = Some f" "site_ok pe k x fn pc"
  shows "held pe (H - {t}) R (put_token p x st)"
proof -
  from inv obtain L where L: "core_inv pe L H R (ncore pe st)" by (auto simp: held_def)
  have "L t = None" using L t by (auto simp: core_inv_def)
  then have "c_tok (ncore pe st) k t = []"
    using L by (auto simp: core_inv_def located_def simp del: c_tok_ncore)
  note put = ncore_put [OF ok k x(1) this]
  have "live (ncore pe st) t" using t(2) by (simp add: at_pos_def in_hand_def)
  moreover have "tok_ok pe (ncore pe st) t k x"
    using in_hand_tok_ok [of "ncore pe st" t f fn pc x] t(2) x by (simp add: at_pos_def)
  ultimately show ?thesis
    unfolding held_def put using core_inv_put [OF L t(1)] by blast
qed

lemma tokens_at_frame [simp]: "tokens_at pe (upd_nframe f g st) = tokens_at pe st"
  by (simp add: upd_nframe_def)

lemma ncore_pc:
  assumes "bt_get (nst_frames (ns_store st)) f = Some fr"
  shows "ncore pe (upd_nframe f (\<lambda>fr. fr\<lparr>nf_pc := pc\<rparr>) st) =
    (ncore pe st)\<lparr>c_frm := (c_frm (ncore pe st))(f := Some (nf_function fr, pc, nf_ret fr))\<rparr>"
  using assms by (auto simp: ncore_def upd_nframe_def Let_def fun_eq_iff)

text \<open>A thread in hand gets its control token, at another position of its frame's function.\<close>

lemma held_place_control:
  assumes ok: "places_ok pe" and inv: "held pe H R st" and k: "place_for pe (PlControl fn j) = Some p"
    and t: "t \<in> H" "at_pos pe st t f fn pc"
  shows "held pe (H - {t}) R (place_control pe p t f st)"
proof -
  let ?st = "upd_nframe f (\<lambda>fr. fr\<lparr>nf_pc := j\<rparr>) st"
  from inv obtain L where L: "core_inv pe L H R (ncore pe st)" by (auto simp: held_def)
  obtain fr where fr: "bt_get (nst_frames (ns_store st)) f = Some fr" "nf_function fr = fn" "nf_pc fr = pc"
    using at_pos_frame [OF t(2)] by blast
  have frm: "c_frm (ncore pe st) f = Some (fn, pc, nf_ret fr)" using fr by (simp add: ncore_def Let_def)
  have hand: "in_hand (ncore pe st) t f fn pc" using t(2) by (simp add: at_pos_def)
  have "held pe H R ?st"
    unfolding held_def ncore_pc [OF fr(1)] using core_inv_pc [OF L t(1) hand frm, of j] fr by auto
  moreover have "at_pos pe ?st t f fn j"
    unfolding at_pos_def ncore_pc [OF fr(1)] using in_hand_pc [OF hand] fr by auto
  moreover have "place_control pe p t f st = put_token p (TControl t f) ?st"
    using ok k by (auto simp: place_control_def places_ok_def nth_opt_def)
  ultimately show ?thesis using held_put [OF ok _ k t(1), of R ?st f fn j] by simp
qed

end
