(* ===== verification/Net_Keep.thy ===== *)
theory Net_Keep
  imports Net_Marks
begin

text \<open>
  Every operation of the net keeps the token invariant. An operation either leaves the control
  structure alone and moves the control token on, or puts a wait token, or changes stacks and
  threads; one lemma per kind, then one per operation.
\<close>

subsection \<open>Moving on\<close>

lemma place_control_inv:
  assumes "places_ok pe" "held pe {t} no_pending st" "at_pos pe st t f fn pc"
    "place_for pe (PlControl fn j) = Some out"
  shows "net_inv pe (place_control pe out t f st)"
  using held_place_control [OF assms(1,2,4), of t f pc] assms(3) by (simp add: net_inv_def)

lemma put_dst_core:
  assumes "net_put_dst pe f d v st = Ok st1" "places_ok pe" "held pe H R st"
  shows "ncore pe st1 = ncore pe st"
  using assms
  by (cases d) (auto simp: frame_mut_def ncore_frame_data ncore_set_held split: option.splits)

lemma write_dst_core:
  "net_write_dst pe f d v st = Ok (Some st1) \<Longrightarrow> places_ok pe \<Longrightarrow> held pe H R st \<Longrightarrow> ncore pe st1 = ncore pe st"
  by (auto simp: net_write_dst_def split: if_splits dest: put_dst_core)

lemma receive_core:
  "net_receive pe f v st = Ok (Some st1) \<Longrightarrow> places_ok pe \<Longrightarrow> held pe H R st \<Longrightarrow> ncore pe st1 = ncore pe st"
  by (auto simp: net_receive_def split: option.splits if_splits dest: write_dst_core)

lemma frame_mut_core:
  assumes "frame_mut f g st = Ok st1"
    "\<And>fr. nf_function (g fr) = nf_function fr \<and> nf_pc (g fr) = nf_pc fr \<and> nf_ret (g fr) = nf_ret fr"
  shows "ncore pe st1 = ncore pe st"
  using assms by (auto simp: frame_mut_def ncore_frame_data)

lemma thread_mut_core:
  assumes "thread_mut t g st = Ok st1"
    "\<And>th. nt_stack (g th) = nt_stack th \<and> nt_parent_scope (g th) = nt_parent_scope th"
  shows "ncore pe st1 = ncore pe st"
  using assms by (auto simp: thread_mut_def ncore_thread_data)

lemma push_value_core:
  "places_ok pe \<Longrightarrow> place_for pe (PlChannel ch) = Some p \<Longrightarrow> held pe H R st \<Longrightarrow>
   ncore pe (push_value p v st) = ncore pe st"
  by (auto simp: push_value_def ncore_set_held split: option.split)

lemma pop_value_core:
  "pop_value p st = Some (v, st1) \<Longrightarrow> places_ok pe \<Longrightarrow> place_for pe (PlChannel ch) = Some p \<Longrightarrow> held pe H R st \<Longrightarrow>
   ncore pe st1 = ncore pe st"
  by (auto simp: pop_value_def ncore_set_held split: option.splits list.splits)

subsection \<open>Postconditions of fallible results\<close>

text \<open>\<open>Q\<close> holds of every state the computation yields.\<close>

named_theorems yields_rules \<open>rules that follow the structure of a handler\<close>

definition yields :: "nresult \<Rightarrow> (net_state \<Rightarrow> bool) \<Rightarrow> bool" where
  "yields m Q \<longleftrightarrow> (\<forall>st. m = Ok (Some st) \<longrightarrow> Q st)"

lemma yields_rbind [yields_rules]: "(\<And>x. m = Ok x \<Longrightarrow> yields (k x) Q) \<Longrightarrow> yields (rbind m k) Q"
  by (auto simp: yields_def)

lemma yields_nguard [yields_rules]: "(b \<Longrightarrow> yields m Q) \<Longrightarrow> yields (nguard b m) Q"
  by (simp add: yields_def nguard_def)

lemma yields_if [yields_rules]: "(b \<Longrightarrow> yields m Q) \<Longrightarrow> (\<not> b \<Longrightarrow> yields n Q) \<Longrightarrow> yields (if b then m else n) Q"
  by simp

lemma yields_fail [yields_rules]: "yields (nfail c code) Q" "yields (Ok None) Q" "yields (Err e) Q"
  by (simp_all add: yields_def nfail_def)

lemma yields_place [yields_rules]:
  "(\<And>p. place_for pe k = Some p \<Longrightarrow> yields (g p) Q) \<Longrightarrow> yields (with_place pe k g) Q"
  by (auto simp: with_place_def intro!: yields_rbind)

lemma yields_control:
  "fc_control c = Some (t, f) \<Longrightarrow> yields (k t f) Q \<Longrightarrow> yields (with_control c k) Q"
  by (simp add: with_control_def)

lemma yields_and_then [yields_rules]:
  "(\<And>st. m = Ok (Some st) \<Longrightarrow> yields (k st) Q) \<Longrightarrow> yields (and_then m k) Q"
  by (auto simp: and_then_def yields_def split: option.splits)

lemma yields_option [yields_rules]:
  "(v = None \<Longrightarrow> yields m Q) \<Longrightarrow> (\<And>x. v = Some x \<Longrightarrow> yields (k x) Q) \<Longrightarrow>
   yields (case v of None \<Rightarrow> m | Some x \<Rightarrow> k x) Q"
  by (cases v) auto

lemma yieldsD: "yields m Q \<Longrightarrow> m = Ok (Some st) \<Longrightarrow> Q st"
  by (simp add: yields_def)

subsection \<open>A control token in hand\<close>

definition holding :: "petri_engine \<Rightarrow> fire_ctx \<Rightarrow> thread_id \<Rightarrow> frame_id \<Rightarrow> function_id \<Rightarrow> nat \<Rightarrow> net_state \<Rightarrow> bool" where
  "holding pe c t f fn pc st \<longleftrightarrow> places_ok pe \<and> held pe {t} no_pending st \<and> at_pos pe st t f fn pc \<and>
     fc_control c = Some (t, f)"

lemma holding_parts:
  assumes "holding pe c t f fn pc st"
  shows "places_ok pe" "held pe {t} no_pending st" "at_pos pe st t f fn pc" "fc_control c = Some (t, f)"
  using assms by (simp_all add: holding_def)

lemma holding_eq:
  assumes "holding pe c t f fn pc st" "ncore pe st' = ncore pe st"
  shows "holding pe c t f fn pc st'"
  using assms by (simp add: holding_def held_cong [OF assms(2)] at_pos_cong [OF assms(2)])

lemma holding_set:
  assumes "holding pe c t f fn pc st" "place_for pe k = Some p" "res_key k"
  shows "holding pe c t f fn pc (set_data p v st)" "holding pe c t f fn pc (set_mutex_token p m st)"
proof -
  note core = ncore_set_held [OF holding_parts(1) [OF assms(1)] assms(2,3) holding_parts(2) [OF assms(1)]]
  show "holding pe c t f fn pc (set_data p v st)" by (rule holding_eq [OF assms(1)]) (use core in blast)
  show "holding pe c t f fn pc (set_mutex_token p m st)" by (rule holding_eq [OF assms(1)]) (use core in blast)
qed

lemma yields_proceed:
  assumes "holding pe c t f fn pc st" "fc_next c = place_for pe (PlControl fn j)"
  shows "yields (proceed pe c st) (net_inv pe)"
proof -
  have "net_inv pe (place_control pe out t f st)" if "place_for pe (PlControl fn j) = Some out" for out
    using assms(1) that place_control_inv unfolding holding_def by blast
  moreover have "fc_control c = Some (t, f)" using assms(1) by (simp add: holding_def)
  ultimately show ?thesis using assms(2) by (auto simp: yields_def proceed_def with_control_def)
qed

lemma yields_wait_at:
  assumes "holding pe c t f fn pc st" "place_for pe k = Some p" "tok_thread x = Some t" "tok_frame x = Some f"
    "site_ok pe k x fn pc"
  shows "yields (wait_at p x t l st) (net_inv pe)"
proof -
  have "held pe ({t} - {t}) no_pending (put_token p x st)"
    using assms(1) unfolding holding_def by (intro held_put [OF _ _ assms(2) _ _ assms(3-5)]) auto
  then have "net_inv pe (set_blocked t l (put_token p x st))"
    by (simp add: net_inv_def held_cong [OF ncore_blocked(2)])
  then show ?thesis by (simp add: yields_def wait_at_def)
qed

lemma holding_frame_mut:
  assumes "holding pe c t f fn pc st" "frame_mut g h st = Ok st'"
    "\<And>fr. nf_function (h fr) = nf_function fr \<and> nf_pc (h fr) = nf_pc fr \<and> nf_ret (h fr) = nf_ret fr"
  shows "holding pe c t f fn pc st'"
  by (rule holding_eq [OF assms(1) frame_mut_core [OF assms(2,3)]])

lemma holding_write:
  assumes "holding pe c t f fn pc st" "net_write_dst pe g d v st = Ok (Some st')"
  shows "holding pe c t f fn pc st'"
  by (rule holding_eq [OF assms(1) write_dst_core [OF assms(2) holding_parts(1,2) [OF assms(1)]]])

lemma holding_receive:
  assumes "holding pe c t f fn pc st" "net_receive pe g v st = Ok (Some st')"
  shows "holding pe c t f fn pc st'"
  by (rule holding_eq [OF assms(1) receive_core [OF assms(2) holding_parts(1,2) [OF assms(1)]]])

lemma ctl:
  assumes hold: "holding pe c t f fn pc st" and nxt: "fc_next c = place_for pe (PlControl fn j)"
  shows "yields (k t f) Q \<Longrightarrow> yields (with_control c k) Q"
  using hold by (intro yields_control) (simp add: holding_def)

lemma go:
  assumes hold: "holding pe c t f fn pc st" and nxt: "fc_next c = place_for pe (PlControl fn j)"
  shows "holding pe c t f fn pc st' \<Longrightarrow> yields (proceed pe c st') (net_inv pe)"
  by (rule yields_proceed [OF _ nxt])

lemma assign_inv:
  assumes hold: "holding pe c t f fn pc st" and nxt: "fc_next c = place_for pe (PlControl fn j)"
  shows "yields (fire_assign_local pe c d e st) (net_inv pe)"
  unfolding fire_assign_local_def
  by (intro yields_rules ctl [OF hold nxt] go [OF hold nxt]) (erule holding_frame_mut [OF hold], simp)

lemma read_var_inv:
  assumes hold: "holding pe c t f fn pc st" and nxt: "fc_next c = place_for pe (PlControl fn j)"
  shows "yields (fire_read_var pe c r d st) (net_inv pe)"
  unfolding fire_read_var_def
  by (intro yields_rules ctl [OF hold nxt] go [OF hold nxt])
    (auto split: option.splits intro: hold holding_write [OF hold])

lemma store_inv:
  assumes hold: "holding pe c t f fn pc st" and nxt: "fc_next c = place_for pe (PlControl fn j)"
  shows "res_key k \<Longrightarrow> yields (fire_store pe c k r e st) (net_inv pe)"
  unfolding fire_store_def
  by (intro yields_rules ctl [OF hold nxt] go [OF hold nxt] holding_set [OF hold])

lemma load_inv:
  assumes hold: "holding pe c t f fn pc st" and nxt: "fc_next c = place_for pe (PlControl fn j)"
  shows "yields (fire_atomic_load pe c r d st) (net_inv pe)"
  unfolding fire_atomic_load_def
  by (intro yields_rules ctl [OF hold nxt] go [OF hold nxt] holding_write [OF hold])

lemma cas_inv:
  assumes hold: "holding pe c t f fn pc st" and nxt: "fc_next c = place_for pe (PlControl fn j)"
  shows "yields (fire_atomic_cas pe c r ex des d st) (net_inv pe)"
  unfolding fire_atomic_cas_def
  by (intro yields_rules ctl [OF hold nxt] go [OF hold nxt])
    (auto intro!: holding_set intro: holding_write [OF hold])

lemma grant_inv:
  assumes hold: "holding pe c t f fn pc st" and nxt: "fc_next c = place_for pe (PlControl fn j)"
  shows "yields (fire_lock_grant pe c r st) (net_inv pe)"
  unfolding fire_lock_grant_def
  by (intro yields_rules ctl [OF hold nxt] go [OF hold nxt] holding_set [OF hold]) auto

lemma unlock_inv:
  assumes hold: "holding pe c t f fn pc st" and nxt: "fc_next c = place_for pe (PlControl fn j)"
  shows "yields (fire_unlock pe c r st) (net_inv pe)"
  unfolding fire_unlock_def
  by (intro yields_rules ctl [OF hold nxt] go [OF hold nxt] holding_set [OF hold]) auto

lemma notify_miss_inv:
  assumes hold: "holding pe c t f fn pc st" and nxt: "fc_next c = place_for pe (PlControl fn j)"
  shows "yields (fire_notify_miss pe c cv st) (net_inv pe)"
  unfolding fire_notify_miss_def
  by (intro yields_rules ctl [OF hold nxt] go [OF hold nxt] hold)

lemma acquire_inv:
  assumes hold: "holding pe c t f fn pc st" and nxt: "fc_next c = place_for pe (PlControl fn j)"
  shows "yields (fire_acquire pe c r n st) (net_inv pe)"
  unfolding fire_acquire_def
  by (intro yields_rules ctl [OF hold nxt] go [OF hold nxt] holding_set [OF hold]) auto

lemma release_inv:
  assumes hold: "holding pe c t f fn pc st" and nxt: "fc_next c = place_for pe (PlControl fn j)"
  shows "yields (fire_release pe c r n st) (net_inv pe)"
  unfolding fire_release_def
  by (intro yields_rules ctl [OF hold nxt] go [OF hold nxt] holding_set [OF hold]) auto

lemma branch_inv:
  assumes hold: "holding pe c t f fn pc st" and nxt: "fc_next c = place_for pe (PlControl fn j)"
  shows "yields (fire_branch pe c e b st) (net_inv pe)"
  unfolding fire_branch_def
  by (intro yields_rules ctl [OF hold nxt] go [OF hold nxt] hold)

lemma switch_case_inv:
  assumes hold: "holding pe c t f fn pc st" and nxt: "fc_next c = place_for pe (PlControl fn j)"
  shows "yields (fire_switch_case pe c v l st) (net_inv pe)"
  unfolding fire_switch_case_def
  by (intro yields_rules ctl [OF hold nxt] go [OF hold nxt] hold)

lemma switch_default_inv:
  assumes hold: "holding pe c t f fn pc st" and nxt: "fc_next c = place_for pe (PlControl fn j)"
  shows "yields (fire_switch_default pe c v ls st) (net_inv pe)"
  unfolding fire_switch_default_def
  by (intro yields_rules ctl [OF hold nxt] go [OF hold nxt] hold)

lemma proceed_inv:
  assumes hold: "holding pe c t f fn pc st" and nxt: "fc_next c = place_for pe (PlControl fn j)"
  shows "yields (proceed pe c st) (net_inv pe)"
  by (rule yields_proceed [OF hold nxt])

lemma send_buf_inv:
  assumes hold: "holding pe c t f fn pc st" and nxt: "fc_next c = place_for pe (PlControl fn j)"
  shows "yields (fire_send_buf pe c ch e st) (net_inv pe)"
  unfolding fire_send_buf_def push_value_def
  by (intro yields_rules ctl [OF hold nxt] go [OF hold nxt])
    (auto split: option.split intro: hold holding_set [OF hold])

lemma recv_buf_inv:
  assumes hold: "holding pe c t f fn pc st" and nxt: "fc_next c = place_for pe (PlControl fn j)"
  shows "yields (fire_recv_buf pe c ch d st) (net_inv pe)"
proof -
  have "holding pe c t f fn pc st1" if "pop_value p st = Some (v, st1)" "place_for pe (PlChannel ch) = Some p" for p v st1
    by (rule holding_eq [OF hold pop_value_core [OF that(1) holding_parts(1) [OF hold] that(2) holding_parts(2) [OF hold]]])
  then show ?thesis unfolding fire_recv_buf_def
    by (intro yields_rules ctl [OF hold nxt]) (auto intro!: yields_rules go [OF hold nxt] dest: holding_write)
qed

end
