(* ===== verification/Net_Keep_Waits.thy ===== *)
theory Net_Keep_Waits
  imports Net_Keep
begin

text \<open>
  The operations that block a thread, wake one, or pair two, keep the token invariant.
\<close>

subsection \<open>Blocking\<close>

lemma yields_unwrap [yields_rules]: "(\<And>x. v = Some x \<Longrightarrow> yields (k x) Q) \<Longrightarrow> yields (rbind (unwrap v) k) Q"
  by (auto intro: yields_rbind)

lemma ctl_w:
  assumes hold: "holding pe c t f fn pc st" and nok: "next_ok pe fn pc"
  shows "yields (k t f) Q \<Longrightarrow> yields (with_control c k) Q"
  using hold by (intro yields_control) (simp add: holding_def)

lemma lock_block_inv:
  assumes hold: "holding pe c t f fn pc st" and nok: "next_ok pe fn pc"
  shows "fc_next c = place_for pe (PlLockWait r) \<Longrightarrow> yields (fire_lock_block pe c r st) (net_inv pe)"
  unfolding fire_lock_block_def
  by (intro yields_rules ctl_w [OF hold nok] yields_wait_at [OF hold]) (use nok in auto)

lemma wait_inv:
  assumes hold: "holding pe c t f fn pc st" and nok: "next_ok pe fn pc"
  shows "yields (fire_wait pe c cv l st) (net_inv pe)"
  unfolding fire_wait_def
  by (intro yields_rules ctl_w [OF hold nok] yields_wait_at [OF holding_set(2) [OF hold]]) (use nok in auto)

lemma acquire_block_inv:
  assumes hold: "holding pe c t f fn pc st" and nok: "next_ok pe fn pc"
  shows "yields (fire_acquire_block pe c r n st) (net_inv pe)"
  unfolding fire_acquire_block_def
  by (intro yields_rules ctl_w [OF hold nok] yields_wait_at [OF hold]) (use nok in auto)

lemma send_register_inv:
  assumes hold: "holding pe c t f fn pc st" and nok: "next_ok pe fn pc"
  shows "fc_next c = place_for pe (PlChannelSend ch) \<Longrightarrow> yields (fire_send_register pe c ch st) (net_inv pe)"
  unfolding fire_send_register_def
  by (intro yields_rules ctl_w [OF hold nok] yields_wait_at [OF hold]) (use nok in auto)

lemma recv_register_inv:
  assumes hold: "holding pe c t f fn pc st" and nok: "next_ok pe fn pc"
  shows "fc_next c = place_for pe (PlChannelRecv ch) \<Longrightarrow> yields (fire_recv_register pe c ch st) (net_inv pe)"
  unfolding fire_recv_register_def
  by (intro yields_rules ctl_w [OF hold nok] yields_wait_at [OF hold]) (use nok in auto)

lemma send_buf_block_inv:
  assumes hold: "holding pe c t f fn pc st" and nok: "next_ok pe fn pc"
  shows "fc_next c = place_for pe (PlChannelSend ch) \<Longrightarrow> yields (fire_send_buf_block pe c ch e st) (net_inv pe)"
  unfolding fire_send_buf_block_def
  by (intro yields_rules ctl_w [OF hold nok] yields_wait_at [OF hold]) (use nok in auto)

lemma recv_buf_block_inv:
  assumes hold: "holding pe c t f fn pc st" and nok: "next_ok pe fn pc"
  shows "fc_next c = place_for pe (PlChannelRecv ch) \<Longrightarrow> yields (fire_recv_buf_block pe c ch st) (net_inv pe)"
  unfolding fire_recv_buf_block_def
  by (intro yields_rules ctl_w [OF hold nok] yields_wait_at [OF hold]) (use nok in auto)

lemma join_block_inv:
  assumes hold: "holding pe c t f fn pc st" and nok: "next_ok pe fn pc"
  shows "fc_next c = place_for pe (PlJoinWait fn pc) \<Longrightarrow> yields (fire_join_block pe c h st) (net_inv pe)"
  unfolding fire_join_block_def
  by (intro yields_rules ctl_w [OF hold nok] yields_wait_at [OF hold]) (use nok in auto)

subsection \<open>Taking a waiting token\<close>

lemma at_pos_store: "ns_store st' = ns_store st \<Longrightarrow> at_pos pe st' = at_pos pe st"
  by (simp add: at_pos_def fun_eq_iff ncore_store_eq [of st' st])

lemma yields_taking:
  assumes "places_ok pe" "held pe H R st" "place_for pe k = Some p" "tok_thread x = Some t"
    and "\<And>f fn pc st'. held pe (insert t H) R st' \<Longrightarrow> t \<notin> H \<Longrightarrow> tok_frame x = Some f \<Longrightarrow>
      at_pos pe st' t f fn pc \<Longrightarrow> site_ok pe k x fn pc \<Longrightarrow> ns_store st' = ns_store st \<Longrightarrow> yields (g st') Q"
  shows "yields (taking p x st g) Q"
proof (cases "x \<in> set (place_tokens st p)")
  case True
  from held_take [OF assms(1-3) True assms(4)] assms(5) [of "snd (take_token p x st)"] show ?thesis
    by (auto simp: taking_def split: prod.splits bool.splits)
next
  case False
  then have "fst (take_token p x st) = False"
    by (auto simp: take_token_def place_tokens_def split: option.split)
  then show ?thesis by (auto simp: taking_def yields_def split: prod.splits bool.splits)
qed

lemma control_inv:
  assumes "places_ok pe" "held pe {t} no_pending st" "at_pos pe st t f fn pc" "ctrl_place pe fn j = Some p"
  shows "net_inv pe (unblock t (place_control pe p t f st))"
  using place_control_inv [OF assms(1-3), of j p] assms(4)
  by (simp add: net_inv_def held_cong [OF ncore_blocked(1)] ctrl_place_def)

lemma yields_advance:
  assumes "places_ok pe" "held pe {t} no_pending st" "at_pos pe st t f fn pc"
    "tok_thread x = Some t" "tok_frame x = Some f"
  shows "yields (advance_waiter pe x st) (net_inv pe)"
proof -
  obtain fr where fr: "bt_get (nst_frames (ns_store st)) f = Some fr" "nf_function fr = fn" "nf_pc fr = pc"
    using at_pos_frame [OF assms(3)] by blast
  then show ?thesis using assms(4,5) control_inv [OF assms(1-3), of "Suc pc"]
    by (auto simp: yields_def advance_waiter_def put_control_next_def net_frame_of_def)
qed

lemma yields_wait:
  assumes ok: "places_ok pe" and inv: "net_inv pe st" and bind: "fc_bind c = FWait x"
  shows "yields (k x) Q \<Longrightarrow> yields (with_wait c k) Q"
  using bind by (simp add: with_wait_def)

lemma none_held:
  assumes ok: "places_ok pe" and inv: "net_inv pe st" and bind: "fc_bind c = FWait x"
  shows "held pe {} no_pending st"
  using inv by (simp add: net_inv_def)

lemma held_set:
  assumes ok: "places_ok pe" and inv: "net_inv pe st" and bind: "fc_bind c = FWait x"
  shows "place_for pe k = Some p \<Longrightarrow> res_key k \<Longrightarrow> held pe H R s \<Longrightarrow> held pe H R (set_data p v s)"
  "place_for pe k = Some p \<Longrightarrow> res_key k \<Longrightarrow> held pe H R s \<Longrightarrow> held pe H R (set_mutex_token p m s)"
  using ncore_set_held [OF ok] held_cong by blast+

lemma at_set:
  assumes ok: "places_ok pe" and inv: "net_inv pe st" and bind: "fc_bind c = FWait x"
  shows "place_for pe k = Some p \<Longrightarrow> at_pos pe s t f fn pc \<Longrightarrow> at_pos pe (set_data p v s) t f fn pc"
  "place_for pe k = Some p \<Longrightarrow> at_pos pe s t f fn pc \<Longrightarrow> at_pos pe (set_mutex_token p m s) t f fn pc"
  by (simp_all add: set_data_def set_mutex_token_def at_pos_store [of "set_single p y s" s for y])

lemma lock_wait_inv:
  assumes ok: "places_ok pe" and inv: "net_inv pe st" and bind: "fc_bind c = FWait x"
  shows "yields (fire_lock_wait pe c r st) (net_inv pe)"
proof -
  have "yields (taking lw x st (\<lambda>st. advance_waiter pe x (set_mutex_token m (MHeld t) st))) (net_inv pe)"
    if "tok_thread x = Some t" "place_for pe (PlMutex r) = Some m" "place_for pe (PlLockWait r) = Some lw" for t m lw
    using that by (intro yields_taking [OF ok none_held [OF ok inv bind] that(3)])
      (auto intro!: yields_advance [OF ok] held_set [OF ok inv bind] at_set [OF ok inv bind])
  then show ?thesis unfolding fire_lock_wait_def
    by (intro yields_wait [OF ok inv bind]) (auto intro!: yields_rules)
qed

lemma sem_grant_inv:
  assumes ok: "places_ok pe" and inv: "net_inv pe st" and bind: "fc_bind c = FWait x"
  shows "yields (fire_sem_grant pe c r st) (net_inv pe)"
proof -
  have "yields (taking sw x st (\<lambda>st'. advance_waiter pe x (set_data p v st'))) (net_inv pe)"
    if "x = TSemWait t f n" "place_for pe (PlSemaphore r) = Some p" "place_for pe (PlSemWait r) = Some sw" for t f n p sw v
    using that by (intro yields_taking [OF ok none_held [OF ok inv bind] that(3)])
      (auto intro!: yields_advance [OF ok] held_set [OF ok inv bind] at_set [OF ok inv bind])
  then show ?thesis unfolding fire_sem_grant_def
    by (intro yields_wait [OF ok inv bind]) (cases x; auto intro!: yields_rules)
qed

lemma deliver_inv:
  assumes ok: "places_ok pe" and inv: "net_inv pe st" and bind: "fc_bind c = FWait x"
  shows "yields (fire_deliver pe c ch st) (net_inv pe)"
proof -
  have "yields (advance_waiter pe x (push_value p v s)) (net_inv pe)"
    if "x = TSendWait t f v" "place_for pe (PlChannel ch) = Some p" "held pe {t} no_pending s" "at_pos pe s t f fn pc"
    for t f v p s fn pc
    using that unfolding push_value_def
    by (auto intro!: yields_advance [OF ok] held_set [OF ok inv bind] at_set [OF ok inv bind] split: option.split)
  then have "yields (taking send x st (\<lambda>st. advance_waiter pe x (push_value p v st))) (net_inv pe)"
    if "x = TSendWait t f v" "place_for pe (PlChannel ch) = Some p" "place_for pe (PlChannelSend ch) = Some send" for t f v p send
    using that by (intro yields_taking [OF ok none_held [OF ok inv bind] that(3)]) auto
  then show ?thesis unfolding fire_deliver_def
    by (intro yields_wait [OF ok inv bind]) (cases x; auto intro!: yields_rules)
qed

lemma recv_wait_inv:
  assumes ok: "places_ok pe" and inv: "net_inv pe st" and bind: "fc_bind c = FWait x"
  shows "yields (fire_recv_wait pe c ch st) (net_inv pe)"
proof -
  have "yields (and_then (net_receive pe f v s) (advance_waiter pe x)) (net_inv pe)"
    if "x = TRecvWait t f" "held pe {t} no_pending s" "at_pos pe s t f fn pc" for t f v s fn pc
  proof (rule yields_and_then)
    fix s1 assume "net_receive pe f v s = Ok (Some s1)"
    note core = receive_core [OF this ok that(2)]
    show "yields (advance_waiter pe x s1) (net_inv pe)"
      using that held_cong [OF core] at_pos_cong [OF core] by (intro yields_advance [OF ok]) auto
  qed
  then have "yields (taking recv x s (\<lambda>st. and_then (net_receive pe f v st) (advance_waiter pe x))) (net_inv pe)"
    if "x = TRecvWait t f" "place_for pe (PlChannelRecv ch) = Some recv" "held pe {} no_pending s" for t f v recv s
    using that by (intro yields_taking [OF ok that(3,2)]) auto
  moreover have "held pe {} no_pending s" if "pop_value p st = Some (v, s)" "place_for pe (PlChannel ch) = Some p" for p v s
    using held_cong [OF pop_value_core [OF that(1) ok that(2) none_held [OF ok inv bind]]] none_held [OF ok inv bind] by simp
  ultimately show ?thesis unfolding fire_recv_wait_def
    by (intro yields_wait [OF ok inv bind]) (cases x; auto intro!: yields_rules)
qed

subsection \<open>Pairing a control token with a waiter\<close>

lemma at_pos_distinct:
  assumes "held pe H R st" "at_pos pe st t f fn pc" "at_pos pe st w g gn gpc" "t \<noteq> w"
  shows "f \<noteq> g"
proof -
  from assms(1) obtain L where "core_inv pe L H R (ncore pe st)" by (auto simp: held_def)
  then have st: "stacks_ok pe (ncore pe st)" by (simp add: core_inv_def)
  from assms(2,3) obtain stk par stk' par' where "c_thr (ncore pe st) t = Some (stk, par)" "f \<in> set stk"
    "c_thr (ncore pe st) w = Some (stk', par')" "g \<in> set stk'"
    unfolding at_pos_def in_hand_def by (metis last_in_set)
  with stack_member [OF st] assms(4) show ?thesis by blast
qed

lemma at_pos_place_control:
  assumes "at_pos pe st t f fn pc" "f \<noteq> g"
  shows "at_pos pe (place_control pe p w g st) t f fn pc"
proof -
  have "at_pos pe (upd_nframe g h st) t f fn pc" for h
    using assms by (auto simp: at_pos_def in_hand_def live_def ncore_def Let_def upd_nframe_def)
  then show ?thesis using assms(1)
    by (auto simp: place_control_def at_pos_store [of "put_token p y s" s for y s] split: option.split place_key.split)
qed

text \<open>A waiter in hand beside the control token is sent on to the place after its statement.\<close>

lemma wake_keeps:
  assumes ok: "places_ok pe" and held: "held pe (insert w {t}) no_pending st" and neq: "w \<noteq> t"
    and w: "at_pos pe st w g gn gpc" "next_ok pe gn gpc" "tok_thread x = Some w" "tok_frame x = Some g"
    and t: "at_pos pe st t f fn pc" and wake: "wake_control_next pe x st = Ok st'"
  shows "held pe {t} no_pending st' \<and> at_pos pe st' t f fn pc"
proof -
  obtain fr where fr: "bt_get (nst_frames (ns_store st)) g = Some fr" "nf_function fr = gn" "nf_pc fr = gpc"
    using at_pos_frame [OF w(1)] by blast
  obtain p where p: "ctrl_place pe gn (Suc gpc) = Some p" using w(2) by (auto simp: next_ok_def)
  have st': "st' = unblock w (place_control pe p w g st)"
    using wake w(3,4) fr p by (simp add: wake_control_next_def net_frame_of_def control_to_def)
  have "held pe (insert w {t} - {w}) no_pending (place_control pe p w g st)"
    using held_place_control [OF ok held, of gn "Suc gpc" p w g gpc] p w(1) by (simp add: ctrl_place_def)
  moreover have "insert w {t} - {w} = {t}" using neq by auto
  moreover have "at_pos pe (place_control pe p w g st) t f fn pc"
    using at_pos_place_control [OF t] at_pos_distinct [OF held t w(1)] neq by blast
  ultimately show ?thesis
    unfolding st' using held_cong [OF ncore_blocked(1)] at_pos_cong [OF ncore_blocked(1)] by metis
qed

lemma pair_keeps:
  assumes hold: "holding pe c t f fn pc st" and nxt: "fc_next c = place_for pe (PlControl fn j)"
    and k: "place_for pe k = Some p" "tok_thread x = Some w" "\<And>gn gpc. site_ok pe k x gn gpc \<Longrightarrow> next_ok pe gn gpc"
  shows "yields (taking p x st (\<lambda>st. and_then (net_receive pe r v st) (\<lambda>st.
    rbind (wake_control_next pe x st) (proceed pe c)))) (net_inv pe)"
proof (rule yields_taking [OF holding_parts(1,2) [OF hold] k(1,2)])
  fix g gn gpc s
  assume s: "held pe (insert w {t}) no_pending s" "w \<notin> {t}" "tok_frame x = Some g" "at_pos pe s w g gn gpc"
    "site_ok pe k x gn gpc" "ns_store s = ns_store st"
  have at: "at_pos pe s t f fn pc"
    using holding_parts(3) [OF hold] at_pos_store [OF s(6)] by simp
  show "yields (and_then (net_receive pe r v s) (\<lambda>st. rbind (wake_control_next pe x st) (proceed pe c))) (net_inv pe)"
  proof (intro yields_and_then yields_rbind)
    fix s1 s2 assume s1: "net_receive pe r v s = Ok (Some s1)" and s2: "wake_control_next pe x s1 = Ok s2"
    note core = receive_core [OF s1 holding_parts(1) [OF hold] s(1)]
    have "held pe {t} no_pending s2 \<and> at_pos pe s2 t f fn pc"
      by (rule wake_keeps [OF holding_parts(1) [OF hold] _ _ _ _ k(2) s(3) _ s2])
        (use s at k(3) [OF s(5)] held_cong [OF core] at_pos_cong [OF core] in auto)
    then have "holding pe c t f fn pc s2" using holding_parts [OF hold] by (simp add: holding_def)
    then show "yields (proceed pe c s2) (net_inv pe)" by (rule yields_proceed [OF _ nxt])
  qed
qed

lemma ctl_p:
  assumes hold: "holding pe c t f fn pc st" and nxt: "fc_next c = place_for pe (PlControl fn j)"
  shows "yields (k t f) Q \<Longrightarrow> yields (with_control c k) Q"
  using hold by (intro yields_control) (simp add: holding_def)

lemma send_pair_inv:
  assumes hold: "holding pe c t f fn pc st" and nxt: "fc_next c = place_for pe (PlControl fn j)"
  shows "yields (fire_send_pair pe c ch st) (net_inv pe)"
  unfolding fire_send_pair_def
  by (intro ctl_p [OF hold nxt]) (auto intro!: yields_rules pair_keeps [OF hold nxt] split: option.split net_token.split)

lemma recv_pair_inv:
  assumes hold: "holding pe c t f fn pc st" and nxt: "fc_next c = place_for pe (PlControl fn j)"
  shows "yields (fire_recv_pair pe c ch st) (net_inv pe)"
  unfolding fire_recv_pair_def
  by (intro ctl_p [OF hold nxt]) (auto intro!: yields_rules pair_keeps [OF hold nxt] split: option.split net_token.split)

end
