(* ===== verification/Net_Keep_Calls.thy ===== *)
theory Net_Keep_Calls
  imports Net_Keep_Waits
begin

text \<open>
  Notification, calls, returns and the operations that create, join and finish threads keep the
  token invariant.
\<close>

subsection \<open>Notification\<close>

text \<open>The tokens of threads on one place are pairwise different.\<close>

lemma of_thread_distinct:
  assumes "\<And>t. length (of_thread t xs) \<le> 1"
  shows "distinct (filter (\<lambda>x. tok_thread x \<noteq> None) xs)"
  using assms
proof (induction xs)
  case (Cons x xs)
  have tail: "length (of_thread t xs) \<le> 1" for t
    using Cons.prems [of t] by (auto simp: of_thread_def split: if_splits)
  show ?case
  proof (cases "tok_thread x")
    case (Some t)
    have "of_thread t xs = []" using Cons.prems [of t] Some by (auto simp: of_thread_def)
    then have "x \<notin> set xs" using Some by (auto simp: of_thread_def filter_empty_conv)
    with Cons.IH tail Some show ?thesis by simp
  qed (use Cons.IH tail in simp)
qed simp

lemma held_distinct:
  assumes "held pe H R st" "place_for pe k = Some p"
  shows "distinct (filter (\<lambda>x. tok_thread x \<noteq> None) (place_tokens st p))"
proof (rule of_thread_distinct)
  fix t
  from assms(1) obtain L where "core_inv pe L H R (ncore pe st)" by (auto simp: held_def)
  then have "length (c_tok (ncore pe st) k t) \<le> 1"
    by (auto simp: core_inv_def located_def simp del: c_tok_ncore split: option.split)
  then show "length (of_thread t (place_tokens st p)) \<le> 1" using assms(2) by (simp add: tokens_at_def)
qed

lemma requeue_keeps:
  assumes ok: "places_ok pe" and held: "held pe (insert w {t}) no_pending st" "w \<noteq> t"
    and w: "at_pos pe st w g gn gpc" "next_ok pe gn gpc" and t: "at_pos pe st t f fn pc"
    and req: "requeue pe w g lock st = Ok st'"
  shows "held pe {t} no_pending st' \<and> at_pos pe st' t f fn pc"
proof -
  from req obtain lw where lw: "place_for pe (PlLockWait lock) = Some lw"
    and st': "st' = set_blocked w (PlLockWait lock) (put_token lw (TLockWait w g) st)"
    by (auto simp: requeue_def with_place_def)
  have "held pe (insert w {t} - {w}) no_pending (put_token lw (TLockWait w g) st)"
    using held_put [OF ok held(1) lw, of w g gn gpc "TLockWait w g"] w by simp
  moreover have "insert w {t} - {w} = {t}" using held(2) by auto
  moreover have "at_pos pe (put_token lw (TLockWait w g) st) t f fn pc"
    using t by (simp add: at_pos_store [of "put_token p y s" s for p y s])
  ultimately show ?thesis
    unfolding st' using held_cong [OF ncore_blocked(2)] at_pos_cong [OF ncore_blocked(2)] by metis
qed

lemma take_present:
  "places_ok pe \<Longrightarrow> place_for pe k = Some p \<Longrightarrow> place_tokens (snd (take_token p x st)) p = remove1 x (place_tokens st p)"
  using tokens_take [of pe k p x st k] by (simp add: tokens_at_def)

lemma put_elsewhere:
  "p \<noteq> q \<Longrightarrow> place_tokens (put_token p x st) q = place_tokens st q"
  by (simp add: put_token_def place_tokens_def)

lemma blocked_tokens [simp]: "place_tokens (set_blocked t k st) = place_tokens st" "place_tokens (unblock t st) = place_tokens st"
  by (simp_all add: set_blocked_def unblock_def upd_nthread_def upd_nstore_def place_tokens_def fun_eq_iff)

lemma requeue_all_keeps:
  assumes ok: "places_ok pe" and p: "place_for pe (PlCondvar cv) = Some p"
  shows "held pe {t} no_pending st \<Longrightarrow> at_pos pe st t f fn pc \<Longrightarrow> distinct xs \<Longrightarrow>
    (\<forall>x\<in>set xs. x \<in> set (place_tokens st p) \<and> is_condvar_wait x) \<Longrightarrow>
    foldM (requeue_waiter pe p) xs st = Ok st' \<Longrightarrow> held pe {t} no_pending st' \<and> at_pos pe st' t f fn pc"
proof (induction xs arbitrary: st)
  case (Cons x xs)
  then obtain w g lock where x: "x = TCondvarWait w g lock" by (cases x) auto
  let ?s = "snd (take_token p x st)"
  have "x \<in> set (place_tokens st p)" using Cons.prems(4) by simp
  from held_take [OF ok Cons.prems(1) p this, of w] x obtain gn gpc where
    s: "held pe (insert w {t}) no_pending ?s" "w \<noteq> t" "at_pos pe ?s w g gn gpc" "next_ok pe gn gpc"
    by auto
  have at: "at_pos pe ?s t f fn pc" using Cons.prems(2) by (simp add: at_pos_store [of ?s st])
  from Cons.prems(5) x obtain s1 where s1: "requeue pe w g lock ?s = Ok s1" "foldM (requeue_waiter pe p) xs s1 = Ok st'"
    by auto
  obtain lw where lw: "place_for pe (PlLockWait lock) = Some lw"
    "s1 = set_blocked w (PlLockWait lock) (put_token lw (TLockWait w g) ?s)"
    using s1(1) by (auto simp: requeue_def with_place_def)
  have "lw \<noteq> p" using place_inj [OF ok p, of "PlLockWait lock"] lw(1) by auto
  then have "place_tokens s1 p = remove1 x (place_tokens st p)"
    using take_present [OF ok p] lw(2) by (simp add: put_elsewhere)
  moreover have "y \<in> set (remove1 x (place_tokens st p))" if "y \<in> set xs" for y
  proof -
    have "y \<noteq> x" using that Cons.prems(3) by auto
    with that Cons.prems(4) show ?thesis by simp
  qed
  ultimately have rest: "\<forall>y\<in>set xs. y \<in> set (place_tokens s1 p) \<and> is_condvar_wait y"
    using Cons.prems(4) by simp
  from requeue_keeps [OF ok s at s1(1)] Cons.IH [OF _ _ _ rest s1(2)] Cons.prems(3) show ?case by simp
qed simp

lemma ctl_n:
  assumes hold: "holding pe c t f fn pc st" and nxt: "fc_next c = place_for pe (PlControl fn j)"
  shows "yields (k t f) Q \<Longrightarrow> yields (with_control c k) Q"
  using hold by (intro yields_control) (simp add: holding_def)

lemma go_n:
  assumes hold: "holding pe c t f fn pc st" and nxt: "fc_next c = place_for pe (PlControl fn j)"
  shows "held pe {t} no_pending st' \<and> at_pos pe st' t f fn pc \<Longrightarrow> yields (proceed pe c st') (net_inv pe)"
  using hold by (intro yields_proceed [of pe c t f fn pc st', OF _ nxt]) (simp add: holding_def)

lemma notify_hit_inv:
  assumes hold: "holding pe c t f fn pc st" and nxt: "fc_next c = place_for pe (PlControl fn j)"
  shows "yields (fire_notify_hit pe c cv st) (net_inv pe)"
proof -
  have "yields (taking p (TCondvarWait w g lock) st (\<lambda>st. rbind (requeue pe w g lock st) (proceed pe c))) (net_inv pe)"
    if p: "place_for pe (PlCondvar cv) = Some p" for p w g lock
  proof (rule yields_taking [OF holding_parts(1,2) [OF hold] p])
    fix g' gn gpc s
    assume s: "held pe (insert w {t}) no_pending s" "w \<notin> {t}" "tok_frame (TCondvarWait w g lock) = Some g'"
      "at_pos pe s w g' gn gpc" "site_ok pe (PlCondvar cv) (TCondvarWait w g lock) gn gpc" "ns_store s = ns_store st"
    have "at_pos pe s t f fn pc" using holding_parts(3) [OF hold] at_pos_store [OF s(6)] by simp
    then show "yields (rbind (requeue pe w g lock s) (proceed pe c)) (net_inv pe)"
      using s by (intro yields_rbind go_n [OF hold nxt] requeue_keeps [OF holding_parts(1) [OF hold] s(1)]) auto
  qed simp
  then show ?thesis unfolding fire_notify_hit_def
    by (intro ctl_n [OF hold nxt]) (auto intro!: yields_rules split: fire_bind.split net_token.split)
qed

lemma notify_all_inv:
  assumes hold: "holding pe c t f fn pc st" and nxt: "fc_next c = place_for pe (PlControl fn j)"
  shows "yields (fire_notify_all pe c cv st) (net_inv pe)"
  unfolding fire_notify_all_def
proof (intro ctl_n [OF hold nxt] yields_place yields_rbind go_n [OF hold nxt])
  fix p s assume p: "place_for pe (PlCondvar cv) = Some p"
    and s: "foldM (requeue_waiter pe p) (filter is_condvar_wait (place_tokens st p)) st = Ok s"
  have eq: "filter is_condvar_wait ys = filter is_condvar_wait (filter (\<lambda>x. tok_thread x \<noteq> None) ys)" for ys
  proof -
    have "is_condvar_wait x \<longleftrightarrow> tok_thread x \<noteq> None \<and> is_condvar_wait x" for x by (cases x) auto
    then show ?thesis by (auto simp: filter_filter intro: filter_cong)
  qed
  have "distinct (filter is_condvar_wait (place_tokens st p))"
    by (subst eq) (rule distinct_filter [OF held_distinct [OF holding_parts(2) [OF hold] p]])
  then show "held pe {t} no_pending s \<and> at_pos pe s t f fn pc"
    by (intro requeue_all_keeps [OF holding_parts(1) [OF hold] p holding_parts(2,3) [OF hold] _ _ s]) auto
qed

section \<open>Calls\<close>

text \<open>
  Calls and returns: how they act on the control structure, and that they keep the token
  invariant. A call pushes a frame whose return address is a place of the net; a return inside a
  stack resumes the caller at the address its callee was pushed with.
\<close>

subsection \<open>The control structure\<close>

lemma held_sorted: "held pe H R st \<Longrightarrow> bt_ok (nst_threads (ns_store st))"
  by (auto simp: held_def core_inv_def stacks_ok_def ncore_def Let_def)

lemma ncore_push:
  assumes "bt_ok (nst_threads (ns_store st))" "bt_get (nst_threads (ns_store st)) t = Some th"
    and "nf_pc fr = 0" "i = na_frame (nst_alloc (ns_store st))"
  shows "ncore pe (upd_nthread t (\<lambda>th. th\<lparr>nt_stack := nt_stack th @ [i]\<rparr>)
      (insert_frame i fr (upd_alloc (\<lambda>a. a\<lparr>na_frame := Suc (na_frame a)\<rparr>) st))) =
    push_core t (nt_stack th) (nt_parent_scope th) (nf_function fr) (nf_ret fr) (ncore pe st)"
  using assms
  by (auto simp: ncore_def push_core_def upd_nthread_def insert_frame_def upd_alloc_def Let_def fun_eq_iff)

lemma ncore_pop:
  assumes "bt_ok (nst_threads (ns_store st))" "bt_get (nst_threads (ns_store st)) t = Some th"
  shows "ncore pe (upd_nthread t (\<lambda>th. th\<lparr>nt_stack := butlast (nt_stack th)\<rparr>)
      (upd_nstore (\<lambda>s. s\<lparr>nst_frames := bt_remove f (nst_frames s)\<rparr>) st)) =
    pop_core t (butlast (nt_stack th)) (nt_parent_scope th) f (ncore pe st)"
  using assms by (auto simp: ncore_def pop_core_def upd_nthread_def Let_def fun_eq_iff)

lemma ncore_thread:
  "bt_get (nst_threads (ns_store st)) t = Some th \<Longrightarrow>
   c_thr (ncore pe st) t = Some (nt_stack th, nt_parent_scope th)"
  by (simp add: ncore_def Let_def)

lemma net_thread_of_Ok [simp]: "net_thread_of st t = Ok th \<longleftrightarrow> bt_get (nst_threads (ns_store st)) t = Some th"
  by (simp add: net_thread_of_def unwrap_def split: option.split)

lemma net_frame_of_Ok [simp]: "net_frame_of st f = Ok fr \<longleftrightarrow> bt_get (nst_frames (ns_store st)) f = Some fr"
  by (simp add: net_frame_of_def unwrap_def split: option.split)

lemma place_control_out:
  assumes "holding pe c t f fn pc st" "place_for pe (PlControl fn j) = Some p"
  shows "net_inv pe (place_control pe p t f st)"
  using assms place_control_inv unfolding holding_def by blast

lemma control_to_inv:
  assumes "places_ok pe" "held pe {t} no_pending st" "at_pos pe st t f fn pc" "ctrl_place pe fn j \<noteq> None"
  shows "net_inv pe (control_to pe fn j t f st)"
  using assms place_control_inv [OF assms(1-3)] by (auto simp: control_to_def ctrl_place_def)

subsection \<open>Calls\<close>

lemma held_push:
  assumes held: "held pe H R st" "t \<in> H" "at_pos pe st t f fn pc"
    and th: "bt_get (nst_threads (ns_store st)) t = Some th"
    and fr: "nf_pc fr = 0" "nf_ret fr = Some ra" "ctrl_place pe fn (na_pc_next ra) \<noteq> None"
    and i: "i = na_frame (nst_alloc (ns_store st))"
    and st': "st' = upd_nthread t (\<lambda>th. th\<lparr>nt_stack := nt_stack th @ [i]\<rparr>)
      (insert_frame i fr (upd_alloc (\<lambda>a. a\<lparr>na_frame := Suc (na_frame a)\<rparr>) st))"
  shows "held pe H R st' \<and> at_pos pe st' t i (nf_function fr) 0"
proof -
  from held(1) obtain L where L: "core_inv pe L H R (ncore pe st)" by (auto simp: held_def)
  have nf: "c_nf (ncore pe st) = i" using i by (simp add: ncore_def Let_def)
  show ?thesis
    unfolding held_def at_pos_def st' ncore_push [OF held_sorted [OF held(1)] th fr(1) i] fr(2)
    using core_inv_push [OF L held(2) held(3) [unfolded at_pos_def] ncore_thread [OF th] fr(3)] nf by auto
qed

lemma call_inv:
  assumes hold: "holding pe c t f fn pc st" and nok: "next_ok pe fn pc"
    and nxt: "fc_next c = place_for pe (PlControl g 0)"
    and call: "fire_call pe c g args dst st = Ok (Some st', be)"
  shows "net_inv pe st'"
proof -
  let ?i = "na_frame (nst_alloc (ns_store st))"
  let ?st1 = "upd_alloc (\<lambda>a. a\<lparr>na_frame := Suc (na_frame a)\<rparr>) st"
  from call obtain th fr vals callee locals st3 out where
    th: "bt_get (nst_threads (ns_store st)) t = Some th"
    and fr: "bt_get (nst_frames (ns_store ?st1)) f = Some fr"
    and st3: "thread_mut t (\<lambda>th. th\<lparr>nt_stack := nt_stack th @ [?i]\<rparr>)
        (insert_frame ?i (net_new_frame ?i g (fold (\<lambda>(i, v). bt_insert i v) (zip (net_modeled_params callee) vals) locals)
           (Some \<lparr>na_pc_next = Suc (nf_pc fr), na_dst = (case dst of Some d \<Rightarrow> d | None \<Rightarrow> Discard)\<rparr>)) ?st1) = Ok st3"
    and out: "fc_next c = Some out" "st' = place_control pe out t ?i st3"
    using holding_parts(4) [OF hold]
    by (auto simp: fire_call_def with_control_def Let_def split: if_splits)
  let ?fr = "net_new_frame ?i g (fold (\<lambda>(i, v). bt_insert i v) (zip (net_modeled_params callee) vals) locals)
           (Some \<lparr>na_pc_next = Suc (nf_pc fr), na_dst = (case dst of Some d \<Rightarrow> d | None \<Rightarrow> Discard)\<rparr>)"
  have pc: "nf_pc fr = pc" using fr at_pos_frame [OF holding_parts(3) [OF hold]] by (auto simp: upd_alloc_def)
  have "st3 = upd_nthread t (\<lambda>th. th\<lparr>nt_stack := nt_stack th @ [?i]\<rparr>) (insert_frame ?i ?fr ?st1)"
    using st3 by (auto simp: thread_mut_def)
  from held_push [OF holding_parts(2) [OF hold] _ holding_parts(3) [OF hold] th _ _ _ refl this] nok pc
  have "held pe {t} no_pending st3 \<and> at_pos pe st3 t ?i g 0"
    by (auto simp: net_new_frame_def next_ok_def)
  then show ?thesis using out nxt place_control_inv [OF holding_parts(1) [OF hold], of t st3 ?i g 0 0 out] by auto
qed

subsection \<open>Returns\<close>

lemma butlast_two: "length xs > 1 \<Longrightarrow> \<exists>ys a b. xs = ys @ [a, b]"
  by (cases xs rule: rev_cases; cases "butlast xs" rule: rev_cases) auto

lemma pop_frame_Ok:
  "pop_frame t f st = Ok st' \<Longrightarrow> \<exists>th. bt_get (nst_threads (ns_store st)) t = Some th \<and>
     st' = upd_nthread t (\<lambda>th. th\<lparr>nt_stack := butlast (nt_stack th)\<rparr>)
      (upd_nstore (\<lambda>s. s\<lparr>nst_frames := bt_remove f (nst_frames s)\<rparr>) st)"
  by (auto simp: pop_frame_def thread_mut_def)

lemma held_pop:
  assumes held: "held pe H R st" "t \<in> H" "at_pos pe st t f fn pc"
    and th: "bt_get (nst_threads (ns_store st)) t = Some th" "nt_stack th = stk @ [g, f]"
    and pop: "pop_frame t f st = Ok st'"
  shows "held pe H R st' \<and> (\<exists>gn gpc ra. at_pos pe st' t g gn gpc \<and> ctrl_place pe gn (na_pc_next ra) \<noteq> None \<and>
    (\<forall>fr. bt_get (nst_frames (ns_store st)) f = Some fr \<longrightarrow> nf_ret fr = Some ra))"
proof -
  from held(1) obtain L where L: "core_inv pe L H R (ncore pe st)" by (auto simp: held_def)
  have st': "ncore pe st' = pop_core t (stk @ [g]) (nt_parent_scope th) f (ncore pe st)"
    using pop_frame_Ok [OF pop] th ncore_pop [OF held_sorted [OF held(1)] th(1), of pe f]
    by (auto simp: butlast_append)
  from core_inv_pop [OF L held(2) held(3) [unfolded at_pos_def], of stk g "nt_parent_scope th"] ncore_thread [OF th(1)] th(2)
  show ?thesis unfolding held_def at_pos_def st' by (fastforce simp: ncore_def Let_def)
qed

lemma return_inner_inv:
  assumes hold: "holding pe c t f fn pc st" and ret: "fire_return_inner pe c e st = Ok (Some st')"
  shows "net_inv pe st'"
proof -
  from ret holding_parts(4) [OF hold] obtain th callee v s1 th1 s2 where
    th: "bt_get (nst_threads (ns_store st)) t = Some th" "length (nt_stack th) > 1"
    and callee: "bt_get (nst_frames (ns_store st)) f = Some callee"
    and pop: "pop_frame t f st = Ok s1"
    and th1: "bt_get (nst_threads (ns_store s1)) t = Some th1" "nt_stack th1 \<noteq> []"
    and res: "resume_caller pe (nf_ret callee) v t (last (nt_stack th1)) s1 = Ok (Some s2)"
    and st': "st' = net_completion pe (nf_function callee) s2"
    by (auto simp: fire_return_inner_def with_control_def nguard_def and_then_def unwrap_def
        split: if_splits option.splits)
  obtain stk g f' where stk: "nt_stack th = stk @ [g, f']" using butlast_two [OF th(2)] by blast
  moreover have "last (nt_stack th) = f" using at_pos_thread [OF holding_parts(3) [OF hold]] th by auto
  ultimately have stk: "nt_stack th = stk @ [g, f]" by simp
  from held_pop [OF holding_parts(2) [OF hold] _ holding_parts(3) [OF hold] th(1) stk pop] callee
  obtain gn gpc ra where s1: "held pe {t} no_pending s1" "at_pos pe s1 t g gn gpc"
    "ctrl_place pe gn (na_pc_next ra) \<noteq> None" "nf_ret callee = Some ra"
    by auto
  have g: "last (nt_stack th1) = g" using at_pos_thread [OF s1(2)] th1 by auto
  from res s1(4) g obtain s0 fr where
    s0: "v = None \<and> s0 = s1 \<or> (\<exists>x. net_write_dst pe g (na_dst ra) x s1 = Ok (Some s0))"
    and fr: "bt_get (nst_frames (ns_store s0)) g = Some fr"
    and s2: "s2 = control_to pe (nf_function fr) (na_pc_next ra) t g s0"
    by (cases v; clarsimp simp: resume_caller_def and_then_def split: option.splits) metis+
  have core: "ncore pe s0 = ncore pe s1"
    using s0 write_dst_core [OF _ holding_parts(1) [OF hold] s1(1)] by auto
  have at0: "at_pos pe s0 t g gn gpc" using s1(2) at_pos_cong [OF core] by simp
  have "nf_function fr = gn" using at_pos_frame [OF at0] fr by auto
  moreover have "held pe {t} no_pending s0" using s1(1) held_cong [OF core] by simp
  ultimately have "net_inv pe s2" using control_to_inv [OF holding_parts(1) [OF hold] _ at0 s1(3)] s2 by simp
  then show ?thesis unfolding net_inv_def st' using held_cong [OF ncore_completion] by simp
qed

end
