(* ===== verification/Net_Keep_Finish.thy ===== *)
theory Net_Keep_Finish
  imports Net_Keep_Calls
begin

text \<open>
  Finishing a thread keeps the token invariant: its scope loses a member and may close, which wakes
  the owner and reclaims the members; waiting joiners are woken and the thread is reclaimed.
\<close>

definition not_live :: "net_state \<Rightarrow> thread_id \<Rightarrow> bool" where
  "not_live st t \<longleftrightarrow> bt_get (nst_threads (ns_store st)) t = None \<or> t \<in> set (nst_finished (ns_store st))"

lemma not_live_core: "not_live st t \<longleftrightarrow> \<not> live (ncore pe st) t"
  by (auto simp: not_live_def live_def ncore_def Let_def)

lemma not_live_cong: "ncore pe st' = ncore pe st \<Longrightarrow> not_live st' t = not_live st t"
  by (simp add: not_live_core [of _ _ pe])

text \<open>Taking tokens and moving control change neither threads nor the finished ones.\<close>

definition same_threads :: "net_state \<Rightarrow> net_state \<Rightarrow> bool" where
  "same_threads st st' \<longleftrightarrow> (\<forall>t. not_live st' t = not_live st t) \<and> nst_scopes (ns_store st') = nst_scopes (ns_store st) \<and>
     (\<forall>t. map_option nt_parent_scope (bt_get (nst_threads (ns_store st')) t) =
        map_option nt_parent_scope (bt_get (nst_threads (ns_store st)) t))"

lemma same_threads_refl [simp]: "same_threads st st"
  by (simp add: same_threads_def)

lemma same_threads_trans: "same_threads a b \<Longrightarrow> same_threads b c \<Longrightarrow> same_threads a c"
  by (simp add: same_threads_def)

lemma same_threads_store: "ns_store st' = ns_store st \<Longrightarrow> same_threads st st'"
  by (simp add: same_threads_def not_live_def)

lemma same_threads_frame [simp]: "same_threads st (upd_nframe f g st)"
  by (simp add: same_threads_def not_live_def upd_nframe_def)

lemma same_threads_take [simp]: "same_threads st (snd (take_token p x st))"
  by (rule same_threads_store) simp

lemma same_threads_put [simp]: "same_threads st (put_token p x st)"
  by (rule same_threads_store) simp

lemma same_threads_unblock [simp]: "same_threads st (unblock t st)"
  by (simp add: same_threads_def not_live_def unblock_def upd_nthread_def option.map_comp comp_def)

lemma same_threads_control [simp]: "same_threads st (control_to pe fn j t f st)"
proof -
  have "same_threads st (place_control pe p t f st)" for p
    unfolding place_control_def
    by (rule same_threads_trans [OF _ same_threads_put]) (auto split: option.split place_key.split)
  then show ?thesis by (auto simp: control_to_def split: option.split)
qed

subsection \<open>Reclaiming\<close>

lemma ncore_remove:
  assumes "bt_ok (nst_threads (ns_store st))"
  shows "ncore pe (remove_thread t st) = remove_core t (ncore pe st)"
  using assms by (auto simp: ncore_def remove_core_def remove_thread_def Let_def fun_eq_iff)

lemma held_remove:
  assumes "held pe H R st" "not_live st t"
  shows "held pe H R (remove_thread t st)"
proof -
  from assms(1) obtain L where "core_inv pe L H R (ncore pe st)" by (auto simp: held_def)
  from core_inv_remove [OF this] assms(2) show ?thesis
    unfolding held_def ncore_remove [OF held_sorted [OF assms(1)]] not_live_core [of _ _ pe] by blast
qed

lemma not_live_remove: "not_live st u \<Longrightarrow> not_live (remove_thread t st) u"
  by (auto simp: not_live_def remove_thread_def)

lemma at_pos_remove:
  assumes "held pe H R st" "at_pos pe st t f fn pc" "u \<noteq> t"
  shows "at_pos pe (remove_thread u st) t f fn pc"
  using assms in_hand_remove ncore_remove [OF held_sorted [OF assms(1)]] by (simp add: at_pos_def)

lemma held_remove_all:
  "held pe H R st \<Longrightarrow> (\<And>t. t \<in> set ts \<Longrightarrow> not_live st t) \<Longrightarrow> held pe H R (fold remove_thread ts st)"
  by (induction ts arbitrary: st) (simp_all add: held_remove not_live_remove)

lemma scopes_remove_all: "nst_scopes (ns_store (fold remove_thread ts st)) = nst_scopes (ns_store st)"
  by (induction ts arbitrary: st) (simp_all add: remove_thread_def)

lemma ncore_drop_scope:
  assumes "c_rem (ncore pe st) s = {}"
  shows "ncore pe (upd_nstore (\<lambda>x. x\<lparr>nst_scopes := bt_remove s (nst_scopes x)\<rparr>) st) = ncore pe st"
  using assms by (auto simp: ncore_def Let_def fun_eq_iff)

lemma held_members:
  assumes "held pe H no_pending st" "c_rem (ncore pe st) s = {}"
    "bt_get (nst_threads (ns_store st)) t = Some th" "nt_parent_scope th = Some s"
  shows "not_live st t"
proof -
  from assms(1) have "scopes_ok no_pending (ncore pe st)" by (auto simp: held_def core_inv_def)
  moreover have "c_thr (ncore pe st) t = Some (nt_stack th, Some s)"
    using ncore_thread [OF assms(3)] assms(4) by simp
  ultimately have "t \<in> c_fin (ncore pe st)" using assms(2) unfolding scopes_ok_def by blast
  then show ?thesis by (simp add: not_live_def ncore_def Let_def)
qed

lemma reclaim_inv:
  assumes held: "held pe H no_pending st" and rem: "c_rem (ncore pe st) s = {}"
  shows "held pe H no_pending (reclaim_scope s st)"
proof -
  let ?ts = "map fst (filter (\<lambda>(i, t). nt_parent_scope t = Some s) (nst_threads (ns_store st)))"
  have "not_live st t" if t: "t \<in> set ?ts" for t
  proof -
    from t obtain th where "(t, th) \<in> set (nst_threads (ns_store st))" "nt_parent_scope th = Some s" by auto
    with bt_ok_set [OF held_sorted [OF held]] held_members [OF held rem] show ?thesis by (simp add: bt_get_def)
  qed
  then have all: "held pe H no_pending (fold remove_thread ?ts st)" by (rule held_remove_all [OF held])
  have none: "c_rem (ncore pe (fold remove_thread ?ts st)) s = {}"
    using rem by (simp add: ncore_def Let_def scopes_remove_all)
  from all show ?thesis
    unfolding reclaim_scope_def Let_def held_cong [OF ncore_drop_scope [OF none]] .
qed

subsection \<open>Scopes\<close>

lemma resume_owner_inv:
  assumes ok: "places_ok pe" and inv: "net_inv pe st"
  shows "net_inv pe (resume_owner pe fn sid t f st) \<and> same_threads st (resume_owner pe fn sid t f st)"
proof (cases "place_for pe (PlScopeWait fn sid)")
  case (Some p)
  let ?x = "TScopeWait t f" and ?s = "snd (take_token p (TScopeWait t f) st)"
  show ?thesis
  proof (cases "?x \<in> set (place_tokens st p)")
    case True
    from held_take [OF ok inv [unfolded net_inv_def] Some True, of t]
    obtain pc where s: "take_token p ?x st = (True, ?s)" "held pe {t} no_pending ?s" "at_pos pe ?s t f fn sid"
      "next_ok pe fn sid" by auto
    have "net_inv pe (control_to pe fn (Suc sid) t f ?s)"
      using control_to_inv [OF ok s(2,3)] s(4) by (simp add: next_ok_def)
    moreover have "same_threads st (unblock t (control_to pe fn (Suc sid) t f ?s))"
      by (intro same_threads_trans [OF _ same_threads_unblock] same_threads_trans [OF _ same_threads_control]) simp
    moreover have "resume_owner pe fn sid t f st = unblock t (control_to pe fn (Suc sid) t f ?s)"
      unfolding resume_owner_def Some by (simp, subst s(1), simp)
    ultimately show ?thesis by (simp add: net_inv_def held_cong [OF ncore_blocked(1)])
  next
    case False
    then have "take_token p ?x st = (False, st)"
      by (auto simp: take_token_def place_tokens_def split: option.split)
    then show ?thesis using Some inv by (simp add: resume_owner_def)
  qed
qed (use inv in \<open>simp add: resume_owner_def\<close>)

lemma close_scope_inv:
  assumes ok: "places_ok pe" and inv: "net_inv pe st" and rem: "c_rem (ncore pe st) s = {}"
    and close: "net_close_scope pe s st = Ok st'"
  shows "net_inv pe st' \<and> (\<forall>t. not_live st t \<longrightarrow> not_live st' t)"
proof -
  let ?c = "\<lambda>g. upd_nstore (\<lambda>x. x\<lparr>nst_completed_scopes := g (nst_completed_scopes x)\<rparr>) st"
  from close obtain fn sid t f where
    st': "st' = reclaim_scope s (resume_owner pe fn sid t f (?c (bs_insert (fn, sid))))"
    by (auto simp: net_close_scope_def Let_def)
  let ?s = "resume_owner pe fn sid t f (?c (bs_insert (fn, sid)))"
  have core: "ncore pe (?c (bs_insert (fn, sid))) = ncore pe st" by (simp add: ncore_def Let_def)
  then have "net_inv pe (?c (bs_insert (fn, sid)))" using inv held_cong [OF core] by (simp add: net_inv_def)
  from resume_owner_inv [OF ok this] have s: "net_inv pe ?s" "same_threads (?c (bs_insert (fn, sid))) ?s" by auto
  have "c_rem (ncore pe ?s) s = {}"
    using s(2) rem by (simp add: same_threads_def ncore_def Let_def)
  then have "net_inv pe st'" using reclaim_inv s(1) by (simp add: net_inv_def st')
  moreover have "not_live st' t" if "not_live st t" for t
  proof -
    have "not_live ?s t" using that s(2) not_live_cong [OF core] by (simp add: same_threads_def)
    then have "not_live (fold remove_thread ts ?s) t" for ts
      by (induction ts rule: rev_induct) (simp_all add: not_live_remove)
    then show ?thesis by (simp add: st' reclaim_scope_def Let_def not_live_def)
  qed
  ultimately show ?thesis by blast
qed

lemma leave_scope_inv:
  assumes ok: "places_ok pe" and inv: "net_inv pe st" and t: "not_live st t"
    and leave: "net_leave_scope pe t st = Ok st'"
  shows "net_inv pe st' \<and> not_live st' t"
proof (cases "\<exists>s sc. Option.bind (bt_get (nst_threads (ns_store st)) t) nt_parent_scope = Some s \<and>
    bt_get (nst_scopes (ns_store st)) s = Some sc")
  case True
  then obtain s sc th where th: "bt_get (nst_threads (ns_store st)) t = Some th" "nt_parent_scope th = Some s"
    and sc: "bt_get (nst_scopes (ns_store st)) s = Some sc"
    by (auto simp: bind_eq_Some_conv)
  let ?rest = "bs_remove t (nc_remaining sc)"
  let ?st = "upd_nstore (\<lambda>x. x\<lparr>nst_scopes := bt_insert s (sc\<lparr>nc_remaining := ?rest\<rparr>) (nst_scopes x)\<rparr>) st"
  from inv obtain L where L: "core_inv pe L {} no_pending (ncore pe st)" by (auto simp: net_inv_def held_def)
  have core: "ncore pe ?st = (ncore pe st)\<lparr>c_rem := (c_rem (ncore pe st))(s := set ?rest)\<rparr>"
    by (auto simp: ncore_def Let_def fun_eq_iff)
  have rem: "c_rem (ncore pe st) s = set (nc_remaining sc)" using sc by (simp add: ncore_def Let_def)
  have "thread_ok pe (ncore pe st) t (nt_stack th) (Some s)"
    using L ncore_thread [OF th(1)] th(2) by (auto simp: core_inv_def stacks_ok_def)
  then have s: "s < c_ns (ncore pe st)" by (simp add: thread_ok_def)
  have fin: "t \<in> c_fin (ncore pe st)" using t th(1) by (simp add: not_live_def ncore_def Let_def)
  have "core_inv pe L {} no_pending (ncore pe ?st)" unfolding core
  proof (rule core_inv_scope [OF L s])
    fix u stk assume u: "c_thr (ncore pe st) u = Some (stk, Some s)" "u \<notin> c_fin (ncore pe st)"
    have "scopes_ok no_pending (ncore pe st)" using L by (simp add: core_inv_def)
    then have "u \<in> c_rem (ncore pe st) s" using u unfolding scopes_ok_def by blast
    then show "u \<in> set ?rest" using rem fin u(2) by auto
  qed simp
  then have inv1: "net_inv pe ?st" by (auto simp: net_inv_def held_def)
  have live1: "not_live ?st t" using t by (simp add: not_live_def)
  have rem1: "c_rem (ncore pe ?st) s = {}" if "?rest = []" unfolding core using that by simp
  show ?thesis
  proof (cases "?rest = []")
    case empty: True
    then have "net_close_scope pe s ?st = Ok st'" using leave th sc by (simp add: net_leave_scope_def)
    from close_scope_inv [OF ok inv1 rem1 [OF empty] this] live1 show ?thesis by blast
  next
    case False
    then have "st' = ?st" using leave th sc by (simp add: net_leave_scope_def)
    then show ?thesis using inv1 live1 by simp
  qed
next
  case False
  then have "st' = st" using leave by (auto simp: net_leave_scope_def split: option.splits)
  then show ?thesis using inv t by simp
qed

subsection \<open>Joiners\<close>

lemma ncore_consume: "ncore pe (consume_handle t f h st) = ncore pe st"
  by (auto simp: consume_handle_def ncore_frame_data ncore_thread_data split: option.split)

lemma tokens_consume [simp]: "place_tokens (consume_handle t f h st) = place_tokens st"
  by (auto simp: consume_handle_def upd_nframe_def upd_nthread_def upd_nstore_def place_tokens_def fun_eq_iff
      split: option.split)

lemma tokens_remove [simp]: "place_tokens (remove_thread t st) = place_tokens st"
  by (simp add: remove_thread_def upd_nstore_def place_tokens_def fun_eq_iff)

lemma tokens_control_to:
  assumes "places_ok pe" "place_for pe k = Some p" "\<And>fn j. k \<noteq> PlControl fn j"
  shows "place_tokens (control_to pe fn j t f st) p = place_tokens st p"
proof -
  have "q \<noteq> p" if "ctrl_place pe fn j = Some q" for q
    using that assms(3) [of fn j] place_inj [OF assms(1,2), of "PlControl fn j"] by (auto simp: ctrl_place_def)
  moreover have "place_tokens (place_control pe q t f st) p = place_tokens st p" if "q \<noteq> p" for q
    using put_elsewhere [OF that]
    by (auto simp: place_control_def upd_nframe_def upd_nstore_def place_tokens_def split: option.split place_key.split)
  ultimately show ?thesis by (auto simp: control_to_def split: option.split)
qed

text \<open>One joiner: either nothing happens, or its token is taken and the finished thread goes.\<close>

lemma wake_joiner_cases:
  "wake_joiner pe u fn sid p x st = Ok st' \<Longrightarrow> st' = st \<or> (\<exists>jt jf h. x = TJoinWait jt jf \<and>
     st' = remove_thread u (consume_handle jt jf h (unblock jt
       (control_to pe fn (Suc sid) jt jf (snd (take_token p x st))))))"
proof (cases x)
  case (TJoinWait jt jf)
  assume wake: "wake_joiner pe u fn sid p x st = Ok st'"
  then obtain f s where "function_of (pe_program pe) fn = Ok f" "sid < length (f_body f)" "s = f_body f ! sid"
    by (auto simp: wake_joiner_def TJoinWait)
  with wake TJoinWait show ?thesis
    by (cases "st_op s") (auto simp: wake_joiner_def split: if_splits)
qed (auto simp: wake_joiner_def)

lemma wake_joiner_inv:
  assumes ok: "places_ok pe" and p: "place_for pe (PlJoinWait fn sid) = Some p"
    and inv: "net_inv pe st" "not_live st u" and x: "x \<in> set (place_tokens st p)"
    and wake: "wake_joiner pe u fn sid p x st = Ok st'"
  shows "net_inv pe st' \<and> not_live st' u \<and>
    (place_tokens st' p = place_tokens st p \<or> place_tokens st' p = remove1 x (place_tokens st p))"
proof (cases "\<exists>jt jf h. x = TJoinWait jt jf \<and> st' = remove_thread u (consume_handle jt jf h (unblock jt
    (control_to pe fn (Suc sid) jt jf (snd (take_token p x st)))))")
  case True
  then obtain jt jf h where x': "x = TJoinWait jt jf"
    and st': "st' = remove_thread u (consume_handle jt jf h (unblock jt
      (control_to pe fn (Suc sid) jt jf (snd (take_token p x st)))))" by blast
  let ?s = "snd (take_token p x st)"
  let ?d = "consume_handle jt jf h (unblock jt (control_to pe fn (Suc sid) jt jf ?s))"
  from held_take [OF ok inv(1) [unfolded net_inv_def] p x, of jt] x'
  have s: "held pe {jt} no_pending ?s" "at_pos pe ?s jt jf fn sid" "next_ok pe fn sid" by auto
  have "net_inv pe (control_to pe fn (Suc sid) jt jf ?s)"
    using control_to_inv [OF ok s(1,2)] s(3) by (simp add: next_ok_def)
  then have d: "held pe {} no_pending ?d"
    unfolding net_inv_def held_cong [OF ncore_consume] held_cong [OF ncore_blocked(1)] .
  have "same_threads st (control_to pe fn (Suc sid) jt jf ?s)"
    by (rule same_threads_trans [OF same_threads_take same_threads_control])
  then have "not_live (control_to pe fn (Suc sid) jt jf ?s) u" using inv(2) by (simp add: same_threads_def)
  then have live: "not_live ?d u"
    unfolding not_live_cong [OF ncore_consume [of pe]] not_live_cong [OF ncore_blocked(1) [of pe]] .
  have "place_tokens st' p = remove1 x (place_tokens st p)"
    unfolding st' using tokens_control_to [OF ok p] take_present [OF ok p] by simp
  then show ?thesis using held_remove [OF d live] not_live_remove [OF live] unfolding st' net_inv_def by blast
next
  case False
  then have "st' = st" using wake_joiner_cases [OF wake] by blast
  then show ?thesis using inv by simp
qed

lemma wake_joiners_tokens:
  assumes ok: "places_ok pe" and p: "place_for pe (PlJoinWait fn sid) = Some p"
  shows "net_inv pe st \<Longrightarrow> not_live st u \<Longrightarrow> distinct (filter (\<lambda>x. tok_thread x \<noteq> None) xs) \<Longrightarrow>
    (\<forall>x\<in>set xs. x \<in> set (place_tokens st p)) \<Longrightarrow> foldM (wake_joiner pe u fn sid p) xs st = Ok st' \<Longrightarrow>
    net_inv pe st' \<and> not_live st' u"
proof (induction xs arbitrary: st)
  case (Cons x xs)
  then obtain s where s: "wake_joiner pe u fn sid p x st = Ok s" "foldM (wake_joiner pe u fn sid p) xs s = Ok st'"
    by auto
  show ?case
  proof (cases "tok_thread x")
    case None
    then have "s = st" using s(1) by (cases x) (auto simp: wake_joiner_def)
    then show ?thesis using Cons s None by simp
  next
    case (Some t)
    have x: "x \<in> set (place_tokens st p)" using Cons.prems(4) by simp
    from wake_joiner_inv [OF ok p Cons.prems(1,2) x s(1)] have step: "net_inv pe s" "not_live s u"
      "place_tokens s p = place_tokens st p \<or> place_tokens s p = remove1 x (place_tokens st p)" by auto
    have "y \<in> set (place_tokens s p)" if "y \<in> set xs" for y
    proof -
      have "y \<noteq> x" using that Cons.prems(3) Some by auto
      with step(3) that Cons.prems(4) show ?thesis by auto
    qed
    then show ?thesis using Cons.IH [OF step(1,2) _ _ s(2)] Cons.prems(3) Some by simp
  qed
qed simp

lemma wake_all_joiners:
  assumes ok: "places_ok pe"
  shows "net_inv pe st \<Longrightarrow> not_live st u \<Longrightarrow> foldM (wake_joiners_at pe u) pls st = Ok st' \<Longrightarrow> net_inv pe st'"
proof (induction pls arbitrary: st)
  case (Cons pl pls)
  then obtain s where s: "wake_joiners_at pe u pl st = Ok s" "foldM (wake_joiners_at pe u) pls s = Ok st'" by auto
  have "net_inv pe s \<and> not_live s u"
  proof (cases "\<exists>fn sid p. pl_key pl = PlJoinWait fn sid \<and> place_for pe (PlJoinWait fn sid) = Some p")
    case True
    then obtain fn sid p where p: "pl_key pl = PlJoinWait fn sid" "place_for pe (PlJoinWait fn sid) = Some p" by blast
    then have "foldM (wake_joiner pe u fn sid p) (place_tokens st p) st = Ok s"
      using s(1) by (simp add: wake_joiners_at_def)
    then show ?thesis
      using wake_joiners_tokens [OF ok p(2) Cons.prems(1,2) held_distinct [OF Cons.prems(1) [unfolded net_inv_def] p(2)]]
      by simp
  next
    case False
    then have "s = st" using s(1) by (auto simp: wake_joiners_at_def split: place_key.splits option.splits)
    then show ?thesis using Cons.prems by simp
  qed
  then show ?case using Cons.IH s(2) by blast
qed simp

subsection \<open>The last return\<close>

lemma ncore_finish: "ncore pe (mark_finished t st) = (ncore pe st)\<lparr>c_fin := insert t (c_fin (ncore pe st))\<rparr>"
  by (simp add: ncore_def mark_finished_def Let_def)

lemma not_live_completion [simp]: "not_live (net_completion pe f st) t = not_live st t"
  by (rule not_live_cong [OF ncore_completion])

lemma return_final_inv:
  assumes hold: "holding pe c t f fn pc st" and ret: "fire_return_final pe c e st = Ok (Some st')"
  shows "net_inv pe st'"
proof -
  from ret holding_parts(4) [OF hold] obtain th and fr :: net_frame and s1 where
    th: "bt_get (nst_threads (ns_store st)) t = Some th" "length (nt_stack th) = 1"
    and pop: "pop_frame t f st = Ok s1" and fin: "net_finish_thread pe t (nf_function fr) s1 = Ok st'"
    by (clarsimp simp: fire_return_final_def with_control_def nguard_def split: if_splits)
  have stk: "nt_stack th = [f]"
    using th at_pos_thread [OF holding_parts(3) [OF hold]] by (cases "nt_stack th") auto
  note held = holding_parts(2) [OF hold]
  let ?s = "net_completion pe (nf_function fr) (mark_finished t s1)"
  from held obtain L where L: "core_inv pe L {t} no_pending (ncore pe st)" by (auto simp: held_def)
  have "ncore pe s1 = pop_core t [] (nt_parent_scope th) f (ncore pe st)"
    using pop_frame_Ok [OF pop] th ncore_pop [OF held_sorted [OF held] th(1), of pe f] stk by auto
  then have "ncore pe ?s = finish_core t (nt_parent_scope th) f (ncore pe st)"
    by (simp add: ncore_finish finish_core_def)
  with core_inv_finish [OF L _ holding_parts(3) [OF hold, unfolded at_pos_def]] ncore_thread [OF th(1)] stk
  have inv: "net_inv pe ?s" by (auto simp: net_inv_def held_def)
  have live: "not_live ?s t" by (subst not_live_completion) (simp add: not_live_def mark_finished_def)
  from fin obtain s2 where s2: "net_leave_scope pe t ?s = Ok s2"
    "foldM (wake_joiners_at pe t) (pn_places (pe_net pe)) s2 = Ok st'" by (auto simp: net_finish_thread_def)
  from leave_scope_inv [OF holding_parts(1) [OF hold] inv live s2(1)] wake_all_joiners [OF holding_parts(1) [OF hold] _ _ s2(2)]
  show ?thesis by blast
qed

end
