(* ===== verification/Net_Keep_Create.thy ===== *)
theory Net_Keep_Create
  imports Net_Keep_Finish
begin

text \<open>
  Creating threads keeps the token invariant: \<open>spawn\<close>, the members of a scope, and a join whose
  child has finished.
\<close>

subsection \<open>One thread\<close>

lemma ncore_spawn:
  assumes "bt_ok (nst_threads (ns_store st))" "t = na_thread (nst_alloc (ns_store st))" "f = na_frame (nst_alloc (ns_store st))"
  shows "ncore pe (upd_nthread t (\<lambda>th. th\<lparr>nt_stack := nt_stack th @ [f]\<rparr>)
      (insert_frame f (net_new_frame f g ls None) (upd_alloc (\<lambda>a. a\<lparr>na_frame := Suc (na_frame a)\<rparr>)
        (insert_thread t (net_new_thread g [] par) (upd_alloc (\<lambda>a. a\<lparr>na_thread := Suc (na_thread a)\<rparr>) st))))) =
    spawn_core par g (ncore pe st)"
  using assms
  by (auto simp: ncore_def spawn_core_def upd_nthread_def insert_frame_def insert_thread_def upd_alloc_def
      net_new_thread_def net_new_frame_def Let_def fun_eq_iff)

lemma ncore_nobody:
  assumes "bt_ok (nst_threads (ns_store st))" "t = na_thread (nst_alloc (ns_store st))"
  shows "ncore pe (mark_finished t
        (insert_thread t (net_new_thread g [] par) (upd_alloc (\<lambda>a. a\<lparr>na_thread := Suc (na_thread a)\<rparr>) st))) =
    nobody_core par (ncore pe st)"
  using assms
  by (auto simp: ncore_def nobody_core_def insert_thread_def mark_finished_def upd_alloc_def
      net_new_thread_def Let_def fun_eq_iff)

lemma held_more:
  assumes "held pe H R st" "\<And>s. R s \<subseteq> R' s"
  shows "held pe H R' st"
proof -
  from assms(1) obtain L where L: "core_inv pe L H R (ncore pe st)" by (auto simp: held_def)
  have "scopes_ok R' (ncore pe st)" if "scopes_ok R (ncore pe st)"
    using that assms(2) unfolding scopes_ok_def by blast
  with L have "core_inv pe L H R' (ncore pe st)" by (simp add: core_inv_def)
  then show ?thesis by (auto simp: held_def)
qed

lemma in_hand_spawn:
  "stacks_ok pe c \<Longrightarrow> in_hand c t f fn pc \<Longrightarrow> in_hand (spawn_core par g c) t f fn pc \<and> t \<noteq> c_nt c"
  using fresh_thread [of pe c] by (force simp: in_hand_def live_def spawn_core_def stacks_ok_def)

lemma in_hand_nobody:
  "stacks_ok pe c \<Longrightarrow> in_hand c t f fn pc \<Longrightarrow> in_hand (nobody_core par c) t f fn pc"
  using fresh_thread [of pe c] by (force simp: in_hand_def live_def nobody_core_def)

lemma at_pos_control:
  assumes "places_ok pe" "at_pos pe st t f fn pc" "at_pos pe st u g gn gpc" "held pe H R st" "t \<noteq> u"
  shows "at_pos pe (place_control pe p u g st) t f fn pc"
proof -
  obtain fr where fr: "bt_get (nst_frames (ns_store st)) g = Some fr"
    using at_pos_frame [OF assms(3)] by blast
  from assms(4) obtain L where "core_inv pe L H R (ncore pe st)" by (auto simp: held_def)
  then have st: "stacks_ok pe (ncore pe st)" by (simp add: core_inv_def)
  from assms(2) obtain stk par where a: "c_thr (ncore pe st) t = Some (stk, par)" "stk \<noteq> []" "last stk = f"
    by (auto simp: at_pos_def in_hand_def)
  from assms(3) obtain stk' par' where b: "c_thr (ncore pe st) u = Some (stk', par')" "stk' \<noteq> []" "last stk' = g"
    by (auto simp: at_pos_def in_hand_def)
  have "f \<noteq> g"
    using stack_member [OF st a(1) b(1), of f] last_in_set [OF a(2)] last_in_set [OF b(2)] a(3) b(3) assms(5) by auto
  then have "at_pos pe (upd_nframe g (\<lambda>fr. fr\<lparr>nf_pc := j\<rparr>) st) t f fn pc" for j
    using assms(2) unfolding at_pos_def ncore_pc [OF fr] by (auto simp: in_hand_def live_def)
  then show ?thesis using assms(2) at_pos_store [of "put_token p x s" s for x s]
    by (auto simp: place_control_def split: option.split place_key.split)
qed

text \<open>The created thread is a pending member of its scope unless it has finished at once.\<close>

lemma create_inv:
  assumes ok: "places_ok pe" and held: "held pe {t} R st" "at_pos pe st t f fn pc"
    and R: "\<And>s. R s \<subseteq> R' s" and par: "\<And>s. par = Some s \<Longrightarrow> s < na_scope (nst_alloc (ns_store st))"
    and create: "net_create_thread pe g par st = Ok (Some ch, st', be)"
    and R': "\<And>s. par = Some s \<Longrightarrow> ch \<notin> set (nst_finished (ns_store st')) \<Longrightarrow> ch \<in> R' s"
  shows "held pe {t} R' st' \<and> at_pos pe st' t f fn pc \<and>
    nst_scopes (ns_store st') = nst_scopes (ns_store st) \<and>
    na_scope (nst_alloc (ns_store st')) = na_scope (nst_alloc (ns_store st))"
proof -
  let ?t = "na_thread (nst_alloc (ns_store st))" and ?f = "na_frame (nst_alloc (ns_store st))"
  let ?st2 = "insert_thread ?t (net_new_thread g [] par) (upd_alloc (\<lambda>a. a\<lparr>na_thread := Suc (na_thread a)\<rparr>) st)"
  let ?st4 = "\<lambda>ls. upd_nthread ?t (\<lambda>th. th\<lparr>nt_stack := nt_stack th @ [?f]\<rparr>)
      (insert_frame ?f (net_new_frame ?f g ls None) (upd_alloc (\<lambda>a. a\<lparr>na_frame := Suc (na_frame a)\<rparr>) ?st2))"
  from create obtain gd where ch: "ch = ?t" and
    cases: "is_transparent_nobody gd \<and> st' = net_completion pe g (mark_finished ?t ?st2) \<or>
      (\<exists>ls start. ctrl_place pe g 0 = Some start \<and> st' = place_control pe start ?t ?f (?st4 ls))"
    by (auto simp: net_create_thread_def Let_def insert_thread_def upd_alloc_def split: if_splits)
  from held(1) obtain L where L: "core_inv pe L {t} R (ncore pe st)" by (auto simp: held_def)
  then have st: "stacks_ok pe (ncore pe st)" by (simp add: core_inv_def)
  have nt: "c_nt (ncore pe st) = ?t" "c_nf (ncore pe st) = ?f" "c_ns (ncore pe st) = na_scope (nst_alloc (ns_store st))"
    by (simp_all add: ncore_def Let_def)
  note sorted = held_sorted [OF held(1)]
  have same: "nst_scopes (ns_store st') = nst_scopes (ns_store st) \<and>
    na_scope (nst_alloc (ns_store st')) = na_scope (nst_alloc (ns_store st))"
    using cases
    by (auto simp: net_completion_def mark_finished_def insert_thread_def insert_frame_def upd_alloc_def upd_nthread_def
        place_control_def upd_nframe_def Let_def split: option.split place_key.split)
  from cases consider (nobody) "st' = net_completion pe g (mark_finished ?t ?st2)"
    | (body) ls start where "ctrl_place pe g 0 = Some start" "st' = place_control pe start ?t ?f (?st4 ls)" by blast
  then have "held pe {t} R' st' \<and> at_pos pe st' t f fn pc"
  proof cases
    case nobody
    have core: "ncore pe st' = nobody_core par (ncore pe st)"
      using nobody ncore_nobody [OF sorted refl, of pe g par] by simp
    have "held pe {t} R st'"
      unfolding held_def core using core_inv_nobody [OF L, of par] par nt(3) by auto
    moreover have "at_pos pe st' t f fn pc"
      unfolding at_pos_def core by (rule in_hand_nobody [OF st held(2) [unfolded at_pos_def]])
    ultimately show ?thesis using held_more [of pe "{t}" R st' R'] R by blast
  next
    case body
    have core: "ncore pe (?st4 ls) = spawn_core par g (ncore pe st)"
      by (rule ncore_spawn [OF sorted refl refl])
    have neq: "t \<noteq> ?t" and at4: "at_pos pe (?st4 ls) t f fn pc"
      unfolding at_pos_def core using in_hand_spawn [OF st held(2) [unfolded at_pos_def]] nt(1) by auto
    have fin: "nst_finished (ns_store st') = nst_finished (ns_store st)"
      using body(2) by (auto simp: insert_thread_def insert_frame_def upd_alloc_def upd_nthread_def
        place_control_def upd_nframe_def split: option.split place_key.split)
    have "?t \<notin> set (nst_finished (ns_store st'))"
      unfolding fin using fresh_thread(2) [OF st] by (simp add: ncore_def Let_def)
    then have "s < c_ns (ncore pe st) \<and> c_nt (ncore pe st) \<in> R' s" if "par = Some s" for s
      using par [OF that] R' [OF that] nt ch by simp
    from core_inv_spawn [OF L this R, of par g] nt
    have s4: "held pe (insert ?t {t}) R' (?st4 ls)" "at_pos pe (?st4 ls) ?t ?f g 0"
      unfolding held_def at_pos_def core by auto
    have "held pe (insert ?t {t} - {?t}) R' st'"
      using held_place_control [OF ok s4(1) _ _ s4(2), of 0 start] body by (simp add: ctrl_place_def)
    moreover have "insert ?t {t} - {?t} = {t}" using neq by auto
    moreover have "at_pos pe st' t f fn pc"
      unfolding body(2) by (rule at_pos_control [OF ok at4 s4(2) s4(1) neq])
    ultimately show ?thesis by simp
  qed
  with same show ?thesis by blast
qed

subsection \<open>Spawn\<close>

lemma spawn_inv:
  assumes hold: "holding pe c t f fn pc st" and nxt: "fc_next c = place_for pe (PlControl fn j)"
    and spawn: "fire_spawn pe c g h st = Ok (Some st', be)"
  shows "net_inv pe st'"
proof -
  let ?h = "\<lambda>s. upd_alloc (\<lambda>a. a\<lparr>na_handle := Suc (na_handle a)\<rparr>) s"
  from spawn holding_parts(4) [OF hold] obtain ch s be' s2 s3 where
    create: "net_create_thread pe g None st = Ok (Some ch, s, be')"
    and s2: "frame_mut f (\<lambda>fr. fr\<lparr>nf_handles := bt_insert h (na_handle (nst_alloc (ns_store s))) (nf_handles fr)\<rparr>) (?h s) = Ok s2"
    and s3: "thread_mut t (\<lambda>th. th\<lparr>nt_handle_children := bt_insert (na_handle (nst_alloc (ns_store s))) ch (nt_handle_children th)\<rparr>) s2 = Ok s3"
    and out: "proceed pe c s3 = Ok (Some st')"
    by (clarsimp simp: fire_spawn_def with_control_def Let_def split: if_splits prod.splits option.splits)
  have s: "held pe {t} no_pending s" "at_pos pe s t f fn pc"
    using create_inv [OF holding_parts(1-3) [OF hold] _ _ create, of no_pending] by auto
  have "ncore pe s3 = ncore pe s2" by (rule thread_mut_core [OF s3]) simp
  also have "\<dots> = ncore pe (?h s)" by (rule frame_mut_core [OF s2]) simp
  finally have core: "ncore pe s3 = ncore pe s" by simp
  have "holding pe c t f fn pc s3"
    using s holding_parts(1,4) [OF hold] by (simp only: holding_def held_cong [OF core] at_pos_cong [OF core])
  from yieldsD [OF yields_proceed [OF this nxt] out] show ?thesis .
qed

subsection \<open>Scopes\<close>

text \<open>The members created so far, before the scope is entered in the table.\<close>

definition pending :: "scope_id \<Rightarrow> thread_id list \<Rightarrow> scope_id \<Rightarrow> thread_id set" where
  "pending s ts i = (if i = s then set ts else {})"

lemma members_inv:
  assumes ok: "places_ok pe"
  shows "net_create_members pe s gs rem st = Ok (Some (rem', st'), be) \<Longrightarrow>
    held pe {t} (pending s rem) st \<Longrightarrow> at_pos pe st t f fn pc \<Longrightarrow> s < na_scope (nst_alloc (ns_store st)) \<Longrightarrow>
    held pe {t} (pending s rem') st' \<and> at_pos pe st' t f fn pc \<and>
    nst_scopes (ns_store st') = nst_scopes (ns_store st) \<and> s < na_scope (nst_alloc (ns_store st'))"
proof (induction gs arbitrary: rem st be)
  case (Cons g gs)
  from Cons.prems(1) obtain ch st1 be1 be2 where
    create: "net_create_thread pe g (Some s) st = Ok (Some ch, st1, be1)"
    and rest: "net_create_members pe s gs
      (if ch \<notin> set (nst_finished (ns_store st1)) then bs_insert ch rem else rem) st1 = Ok (Some (rem', st'), be2)"
    by (auto simp: Let_def split: option.splits prod.splits)
  let ?rem = "if ch \<notin> set (nst_finished (ns_store st1)) then bs_insert ch rem else rem"
  have "held pe {t} (pending s ?rem) st1 \<and> at_pos pe st1 t f fn pc \<and>
    nst_scopes (ns_store st1) = nst_scopes (ns_store st) \<and>
    na_scope (nst_alloc (ns_store st1)) = na_scope (nst_alloc (ns_store st))"
    by (rule create_inv [OF ok Cons.prems(2,3) _ _ create]) (use Cons.prems(4) in \<open>auto simp: pending_def split: if_splits\<close>)
  with Cons.IH [OF rest] Cons.prems(4) show ?case by auto
qed simp

lemma scope_inv:
  assumes hold: "holding pe c t f fn pc st" and nxt: "fc_next c = place_for pe (PlControl fn j)"
    and nok: "next_ok pe fn pc" and scope: "fire_scope pe c gs st = Ok (Some st', be)"
  shows "net_inv pe st'"
proof -
  note ok = holding_parts(1) [OF hold]
  let ?s = "na_scope (nst_alloc (ns_store st))"
  let ?st1 = "upd_alloc (\<lambda>a. a\<lparr>na_scope := Suc (na_scope a)\<rparr>) st"
  from scope holding_parts(4) [OF hold] obtain rem s be' and fr :: net_frame where
    members: "net_create_members pe ?s gs [] ?st1 = Ok (Some (rem, s), be')"
    and fr: "bt_get (nst_frames (ns_store s)) f = Some fr"
    and out: "rem = [] \<and> proceed pe c (upd_nstore (\<lambda>x. x\<lparr>nst_completed_scopes :=
          bs_insert (nf_function fr, nf_pc fr) (nst_completed_scopes x)\<rparr>) s) = Ok (Some st') \<or>
      rem \<noteq> [] \<and> (\<exists>sw. place_for pe (PlScopeWait (nf_function fr) (nf_pc fr)) = Some sw \<and>
        wait_at sw (TScopeWait t f) t (PlScopeWait (nf_function fr) (nf_pc fr))
          (upd_nstore (\<lambda>x. x\<lparr>nst_scopes := bt_insert ?s \<lparr>nc_id = ?s, nc_owner = t, nc_owner_frame = f,
             nc_owner_sid = nf_pc fr, nc_remaining = rem\<rparr> (nst_scopes x)\<rparr>) s) = Ok (Some st'))"
    by (auto simp: fire_scope_def with_control_def with_place_def nfail_def Let_def
        split: if_splits prod.splits option.splits)
  have core1: "ncore pe ?st1 = (ncore pe st)\<lparr>c_ns := Suc (c_ns (ncore pe st))\<rparr>"
    by (simp add: ncore_def upd_alloc_def Let_def)
  have "held pe {t} no_pending ?st1"
    using holding_parts(2) [OF hold] core_inv_new_scope_id unfolding held_def core1 by blast
  moreover have "pending ?s [] = no_pending" by (simp add: pending_def fun_eq_iff)
  moreover have "at_pos pe ?st1 t f fn pc"
    using holding_parts(3) [OF hold] unfolding at_pos_def core1 by (simp add: in_hand_def live_def)
  ultimately have s: "held pe {t} (pending ?s rem) s" "at_pos pe s t f fn pc"
    "nst_scopes (ns_store s) = nst_scopes (ns_store st)" "?s < na_scope (nst_alloc (ns_store s))"
    using members_inv [OF ok members, of t f fn pc] by (auto simp: upd_alloc_def)
  have pos: "nf_function fr = fn" "nf_pc fr = pc" using at_pos_frame [OF s(2)] fr by auto
  from out show ?thesis
  proof (elim disjE conjE exE)
    assume rem: "rem = []"
    let ?s1 = "upd_nstore (\<lambda>x. x\<lparr>nst_completed_scopes :=
          bs_insert (nf_function fr, nf_pc fr) (nst_completed_scopes x)\<rparr>) s"
    assume out: "proceed pe c ?s1 = Ok (Some st')"
    have "pending ?s rem = no_pending" using rem by (simp add: pending_def fun_eq_iff)
    with s(1) have held0: "held pe {t} no_pending s" by simp
    have core: "ncore pe ?s1 = ncore pe s" by (simp add: ncore_def Let_def)
    have "holding pe c t f fn pc ?s1"
      using held0 s(2) ok holding_parts(4) [OF hold]
      by (simp only: holding_def held_cong [OF core] at_pos_cong [OF core])
    from yieldsD [OF yields_proceed [OF this nxt] out] show ?thesis .
  next
    fix sw assume sw: "place_for pe (PlScopeWait (nf_function fr) (nf_pc fr)) = Some sw"
    let ?s2 = "upd_nstore (\<lambda>x. x\<lparr>nst_scopes := bt_insert ?s \<lparr>nc_id = ?s, nc_owner = t, nc_owner_frame = f,
             nc_owner_sid = nf_pc fr, nc_remaining = rem\<rparr> (nst_scopes x)\<rparr>) s"
    assume out: "wait_at sw (TScopeWait t f) t (PlScopeWait (nf_function fr) (nf_pc fr)) ?s2 = Ok (Some st')"
    have core2: "ncore pe ?s2 = (ncore pe s)\<lparr>c_rem := (c_rem (ncore pe s))(?s := set rem)\<rparr>"
      by (auto simp: ncore_def Let_def fun_eq_iff)
    from holding_parts(2) [OF hold] obtain L0 where "core_inv pe L0 {t} no_pending (ncore pe st)" by (auto simp: held_def)
    then have "c_rem (ncore pe st) ?s = {}" by (auto simp: core_inv_def scopes_ok_def ncore_def Let_def)
    then have none: "c_rem (ncore pe s) ?s = {}" using s(3) by (simp add: ncore_def Let_def)
    from s(1) obtain L where L: "core_inv pe L {t} (pending ?s rem) (ncore pe s)" by (auto simp: held_def)
    have "core_inv pe L {t} no_pending (ncore pe ?s2)" unfolding core2
    proof (rule core_inv_scope [OF L])
      show "?s < c_ns (ncore pe s)" using s(4) by (simp add: ncore_def Let_def)
      fix u stk assume u: "c_thr (ncore pe s) u = Some (stk, Some ?s)" "u \<notin> c_fin (ncore pe s)"
      have "scopes_ok (pending ?s rem) (ncore pe s)" using L by (simp add: core_inv_def)
      then have "u \<in> c_rem (ncore pe s) ?s \<union> (pending ?s rem) ?s" using u unfolding scopes_ok_def by blast
      then show "u \<in> set rem" using none by (simp add: pending_def)
    qed (simp add: pending_def)
    then have "held pe {t} no_pending ?s2" by (auto simp: held_def)
    moreover have "at_pos pe ?s2 t f fn pc"
      using s(2) unfolding at_pos_def core2 by (simp add: in_hand_def live_def)
    ultimately have "holding pe c t f fn pc ?s2" using ok holding_parts(4) [OF hold] by (simp add: holding_def)
    from yieldsD [OF yields_wait_at [OF this sw _ _ _] out] nok pos show ?thesis by simp
  qed
qed

subsection \<open>A join whose child has finished\<close>

lemma join_ready_inv:
  assumes hold: "holding pe c t f fn pc st" and nxt: "fc_next c = place_for pe (PlControl fn j)"
    and join: "fire_join_ready pe c h st = Ok (Some st')"
  shows "net_inv pe st'"
proof -
  from join holding_parts(4) [OF hold] obtain i ch s1 s2 where
    fin: "ch \<in> set (nst_finished (ns_store st))"
    and s1: "frame_mut f (\<lambda>fr. fr\<lparr>nf_handles := bt_remove h (nf_handles fr)\<rparr>) st = Ok s1"
    and s2: "thread_mut t (\<lambda>th. th\<lparr>nt_handle_children := bt_remove i (nt_handle_children th)\<rparr>) s1 = Ok s2"
    and out: "proceed pe c (remove_thread ch s2) = Ok (Some st')"
    by (auto simp: fire_join_ready_def with_control_def nguard_def split: if_splits option.splits)
  have "ncore pe s2 = ncore pe s1" by (rule thread_mut_core [OF s2]) simp
  also have "\<dots> = ncore pe st" by (rule frame_mut_core [OF s1]) simp
  finally have core: "ncore pe s2 = ncore pe st" .
  have held2: "held pe {t} no_pending s2" "at_pos pe s2 t f fn pc"
    using holding_parts(2,3) [OF hold] by (simp_all add: held_cong [OF core] at_pos_cong [OF core])
  have "not_live st ch" using fin by (simp add: not_live_def)
  then have live: "not_live s2 ch" using not_live_cong [OF core] by simp
  have "ch \<noteq> t" using live held2(2) by (auto simp: not_live_core [of _ _ pe] at_pos_def in_hand_def)
  then have "holding pe c t f fn pc (remove_thread ch s2)"
    using held_remove [OF held2(1) live] at_pos_remove [OF held2] holding_parts(1,4) [OF hold]
    by (simp add: holding_def)
  from yieldsD [OF yields_proceed [OF this nxt] out] show ?thesis .
qed

end
