(* ===== verification/Net_Invariant.thy ===== *)
theory Net_Invariant
  imports Net_Keep_Create
begin

text \<open>
  Token conservation of the Petri-net engine: every transition the engine fires keeps the token
  invariant, and the initial marking satisfies it.
\<close>

subsection \<open>The transitions of a statement\<close>

definition next_is :: "petri_engine \<Rightarrow> fire_ctx \<Rightarrow> place_key option \<Rightarrow> bool" where
  "next_is pe c nxt \<longleftrightarrow> (\<forall>k. nxt = Some k \<longrightarrow> fc_next c = place_for pe k)"

lemma next_is_Some [simp]: "next_is pe c (Some k) \<longleftrightarrow> fc_next c = place_for pe k"
  by (simp add: next_is_def)

lemma nquiet_Ok [simp]: "nquiet m = Ok (Some st, be) \<longleftrightarrow> m = Ok (Some st) \<and> be = []"
  by (auto simp: nquiet_def)

text \<open>One operation at a control token in hand; the arc's output is the key of its translation.\<close>

lemma stmt_fire:
  assumes hold: "holding pe c t fr f i st" and nok: "next_ok pe f i"
    and op: "(op, arc, nxt) \<in> set (stmt_ops cap f i sop)" and nxt: "next_is pe c nxt"
    and fire: "fire_op pe c op st = Ok (Some st', be)"
  shows "net_inv pe st'"
proof (cases sop)
  case Nop
  then show ?thesis using op nxt fire yieldsD [OF proceed_inv [OF hold]] by auto
next
  case (AssignLocal d e)
  then show ?thesis using op nxt fire yieldsD [OF assign_inv [OF hold]] by auto
next
  case (ReadShared r d)
  then show ?thesis using op nxt fire yieldsD [OF read_var_inv [OF hold]] by auto
next
  case (WriteShared r e)
  then show ?thesis using op nxt fire yieldsD [OF store_inv [OF hold, of _ "PlVar r"]] by auto
next
  case (AtomicLoad r d)
  then show ?thesis using op nxt fire yieldsD [OF load_inv [OF hold]] by auto
next
  case (AtomicStore r e)
  then show ?thesis using op nxt fire yieldsD [OF store_inv [OF hold, of _ "PlAtomic r"]] by auto
next
  case (AtomicCas r ex des d)
  then show ?thesis using op nxt fire yieldsD [OF cas_inv [OF hold]] by auto
next
  case (MutexLock r)
  then show ?thesis using op nxt fire yieldsD [OF grant_inv [OF hold]] yieldsD [OF lock_block_inv [OF hold nok]] by auto
next
  case (MutexUnlock r)
  then show ?thesis using op nxt fire yieldsD [OF unlock_inv [OF hold]] by auto
next
  case (ChannelSend ch e)
  then show ?thesis
    using op nxt fire yieldsD [OF send_register_inv [OF hold nok]] yieldsD [OF send_pair_inv [OF hold]]
      yieldsD [OF send_buf_inv [OF hold]] yieldsD [OF send_buf_block_inv [OF hold nok]]
    by (auto split: if_splits)
next
  case (ChannelRecv ch d)
  then show ?thesis
    using op nxt fire yieldsD [OF recv_register_inv [OF hold nok]] yieldsD [OF recv_pair_inv [OF hold]]
      yieldsD [OF recv_buf_inv [OF hold]] yieldsD [OF recv_buf_block_inv [OF hold nok]]
    by (auto split: if_splits)
next
  case (CondvarWait cv l)
  then show ?thesis using op nxt fire yieldsD [OF wait_inv [OF hold nok]] by auto
next
  case (CondvarNotify cv)
  then show ?thesis
    using op nxt fire yieldsD [OF notify_hit_inv [OF hold]] yieldsD [OF notify_miss_inv [OF hold]] by auto
next
  case (CondvarNotifyAll cv)
  then show ?thesis using op nxt fire yieldsD [OF notify_all_inv [OF hold]] by auto
next
  case (SemaphoreAcquire r n)
  then show ?thesis
    using op nxt fire yieldsD [OF acquire_inv [OF hold]] yieldsD [OF acquire_block_inv [OF hold nok]] by auto
next
  case (SemaphoreRelease r n)
  then show ?thesis using op nxt fire yieldsD [OF release_inv [OF hold]] by auto
next
  case (Call g args d)
  then show ?thesis using op nxt fire call_inv [OF hold nok] by auto
next
  case (Spawn g h)
  then show ?thesis using op nxt fire spawn_inv [OF hold] by auto
next
  case (Scope gs)
  then show ?thesis using op nxt fire scope_inv [OF hold _ nok] by auto
next
  case (Join h)
  then show ?thesis
    using op nxt fire join_ready_inv [OF hold] yieldsD [OF join_block_inv [OF hold nok]] by auto
next
  case (Goto u)
  then show ?thesis using op nxt fire yieldsD [OF proceed_inv [OF hold]] by auto
next
  case (Branch e u v)
  then show ?thesis using op nxt fire yieldsD [OF branch_inv [OF hold]] by auto
next
  case (Switch v cs d)
  then show ?thesis
    using op nxt fire yieldsD [OF switch_case_inv [OF hold]] yieldsD [OF switch_default_inv [OF hold]] by auto
next
  case (Return e)
  then show ?thesis using op fire return_inner_inv [OF hold] return_final_inv [OF hold] by auto
next
  case (UnsupportedOp u)
  then show ?thesis using op by simp
qed

lemma stmt_ops_arc:
  "(op, arc, nxt) \<in> set (stmt_ops cap f i sop) \<Longrightarrow> arc = KControl (PlControl f i) \<or> (\<exists>k. arc = KChoose (PlControl f i) k)"
  by (cases sop) (auto split: if_splits)

text \<open>The return at the end of a body needs no place to go on at.\<close>

lemma return_fire:
  assumes "holding pe c t fr f i st" "(op, arc, nxt) \<in> set (stmt_ops cap f i (Return e))"
    "fire_op pe c op st = Ok (Some st', be)"
  shows "net_inv pe st'"
  using assms(2,3) return_inner_inv [OF assms(1)] return_final_inv [OF assms(1)] by auto

subsection \<open>The transitions of the net\<close>

lemma program_arcs_cases:
  assumes "x \<in> set (program_arcs P)"
  obtains (stmt) fn i op arc nxt og where "x = (op, arc, nxt, og)" "fn \<in> set (p_functions P)" "i < length (f_body fn)"
      "(op, arc, nxt) \<in> set (stmt_ops (res_capacity P) (f_id fn) i (st_op (f_body fn ! i)))"
  | (ret) fn op arc nxt og where "x = (op, arc, nxt, og)" "fn \<in> set (p_functions P)"
      "(op, arc, nxt) \<in> set (stmt_ops (\<lambda>_. 0) (f_id fn) (length (f_body fn)) (Return None))"
  | (res) r where "x \<in> set (resource_arcs P r)"
proof -
  consider (f) fn where "fn \<in> set (p_functions P)" "x \<in> set (function_arcs P fn)" | r where "x \<in> set (resource_arcs P r)"
    using assms by (auto simp: program_arcs_def)
  then show thesis
  proof cases
    case f
    then consider i where "i < length (f_body fn)" "x \<in> set (stmt_arcs P (f_id fn) (origin_module P (f_id fn)) i (st_op (f_body fn ! i)))"
      | "x \<in> set (return_arcs (f_id fn) (f_module fn) (length (f_body fn)))"
      by (auto simp: function_arcs_def in_set_enumerate_eq)
    then show thesis
      using stmt [OF _ f(1)] ret [OF _ f(1)]
      by cases (auto simp: stmt_arcs_def return_arcs_def with_origin_def)
  qed (rule res)
qed

lemma resource_arcs_cases:
  assumes "x \<in> set (resource_arcs P r)"
  shows "\<exists>op k og. x = (op, KWait k, None, og) \<and>
    op \<in> {NLockWaitAcquire r, NSemGrant r, NBufferDeliver r, NBufferRecvWait r}"
proof -
  obtain rs where rs: "resource_of P r = Ok rs" using assms
    by (cases "resource_of P r") (auto simp: resource_arcs_def)
  with assms show ?thesis by (cases "r_kind rs") (auto simp: resource_arcs_def split: if_splits)
qed

lemma control_tokens_in: "(t, f) \<in> set (control_tokens st p) \<Longrightarrow> TControl t f \<in> set (place_tokens st p)"
  by (auto simp: control_tokens_def List.map_filter_def split: net_token.splits)

text \<open>Taking the control token of a binding of a statement's transition.\<close>

lemma control_taken:
  assumes ok: "places_ok pe" and inv: "net_inv pe st"
    and arc: "arc_matches (place_for pe) (tr_binding tr) arc" "arc = KControl (PlControl f i) \<or> (\<exists>k. arc = KChoose (PlControl f i) k)"
    and bind: "bind \<in> set (net_bindings st (tr_binding tr))"
  shows "\<exists>t fr. bind_control bind = Some (t, fr) \<and>
    (\<forall>c. fc_control c = Some (t, fr) \<longrightarrow> holding pe c t fr f i (take_control bind (tr_binding tr) st))"
proof -
  obtain p t fr where p: "place_for pe (PlControl f i) = Some p" "TControl t fr \<in> set (place_tokens st p)"
    and b: "bind_control bind = Some (t, fr)" "control_place bind (tr_binding tr) = Some p"
    using arc bind by (cases "tr_binding tr"; cases arc) (auto dest: control_tokens_in split: list.splits)
  let ?s = "snd (take_token p (TControl t fr) st)"
  from held_take [OF ok inv [unfolded net_inv_def] p, of t]
  have s: "held pe {t} no_pending ?s" "at_pos pe ?s t fr f i" by auto
  have "take_control bind (tr_binding tr) st = net_mark_reached fr ?s" using b by (simp add: take_control_def)
  then have core: "ncore pe (take_control bind (tr_binding tr) st) = ncore pe ?s" by simp
  then show ?thesis
    using s ok b by (simp add: holding_def held_cong [OF core] at_pos_cong [OF core])
qed

theorem fire_keeps:
  assumes wf: "net_wf pe" and inv: "net_inv pe st" and cand: "(tr, bind) \<in> set (net_candidates pe st)"
    and fire: "net_fire pe st tr bind = Ok (Some st', be)"
  shows "net_inv pe st'"
proof -
  have ok: "places_ok pe" using wf by (simp add: net_wf_def)
  from cand have tr: "tr \<in> set (pn_transitions (pe_net pe))" and bind: "bind \<in> set (net_bindings st (tr_binding tr))"
    by (auto simp: net_candidates_def)
  from wf tr obtain x where x: "x \<in> set (program_arcs (pe_program pe))" "tr_matches (place_for pe) tr x"
    by (auto simp: net_wf_def)
  from fire obtain at where fire': "fire_op pe \<lparr>fc_control = bind_control bind, fc_bind = bind, fc_next = tr_next tr, fc_at = at\<rparr>
      (tr_op tr) (take_control bind (tr_binding tr) st) = Ok (Some st', be)" (is "fire_op pe ?c _ ?st = _")
    by (auto simp: net_fire_def Let_def)
  have nxt: "next_is pe ?c nxt" if "x = (op, arc, nxt, og)" for op arc nxt og
    using x(2) that by (cases nxt) (auto simp: tr_matches_def next_is_def)
  have held: "\<exists>t fr. holding pe ?c t fr f i ?st"
    if "x = (op, arc, nxt, og)" "(op, arc, nxt) \<in> set (stmt_ops cap f i sop)" for op arc nxt og cap f i sop
  proof -
    have "arc_matches (place_for pe) (tr_binding tr) arc" using x(2) that(1) by (simp add: tr_matches_def)
    from control_taken [OF ok inv this stmt_ops_arc [OF that(2)] bind] obtain t fr where
      c: "bind_control bind = Some (t, fr)" "\<forall>c. fc_control c = Some (t, fr) \<longrightarrow> holding pe c t fr f i ?st" by blast
    from c(2) [rule_format, of ?c] c(1) show ?thesis by auto
  qed
  from x(1) show ?thesis
  proof (cases rule: program_arcs_cases)
    case (stmt fn i op arc nxt' og)
    from held [OF stmt(1,4)] obtain t fr where "holding pe ?c t fr (f_id fn) i ?st" by blast
    moreover have "next_ok pe (f_id fn) i"
      using wf stmt(2,3) by (auto simp: net_wf_def next_ok_def ctrl_place_def)
    moreover have "tr_op tr = op" using x(2) stmt(1) by (simp add: tr_matches_def)
    ultimately show ?thesis using stmt_fire [OF _ _ stmt(4) nxt [OF stmt(1)]] fire' by blast
  next
    case (ret fn op arc nxt' og)
    from held [OF ret(1,3)] obtain t fr where "holding pe ?c t fr (f_id fn) (length (f_body fn)) ?st" by blast
    moreover have "tr_op tr = op" using x(2) ret(1) by (simp add: tr_matches_def)
    ultimately show ?thesis using return_fire [OF _ ret(3)] fire' by blast
  next
    case (res r)
    obtain op arc nxt' og where x': "x = (op, arc, nxt', og)" by (cases x)
    with x(2) have op: "tr_op tr = op" and arc: "arc_matches (place_for pe) (tr_binding tr) arc"
      by (simp_all add: tr_matches_def)
    from resource_arcs_cases [OF res] x' obtain k where k: "arc = KWait k"
      and ops: "op \<in> {NLockWaitAcquire r, NSemGrant r, NBufferDeliver r, NBufferRecvWait r}" by auto
    from arc k bind obtain y where y: "bind = FWait y" by (cases "tr_binding tr") auto
    then have st: "?st = st" by (simp add: take_control_def)
    have "fc_bind ?c = FWait y" using y by simp
    note rules = lock_wait_inv [OF ok inv this] sem_grant_inv [OF ok inv this] deliver_inv [OF ok inv this]
      recv_wait_inv [OF ok inv this]
    from ops consider "op = NLockWaitAcquire r" | "op = NSemGrant r" | "op = NBufferDeliver r" | "op = NBufferRecvWait r"
      by blast
    then show ?thesis using fire' st op rules [THEN yieldsD] by cases auto
  qed
qed

end
