(* ===== verification/Net_Observe.thy ===== *)
theory Net_Observe
  imports Net_Step Sem_System
begin

text \<open>
  What the explorer observes of a net state (\<open>src/src/petri/exec.rs\<close>): predicates, blocked
  threads, instances, deadlock snapshots and the rendered state, and the net engine as an instance
  of the interface \<open>TransitionSystem\<close>. \<open>esc\<close> stands for \<open>serde_json::to_string\<close> on strings. The
  constant detail texts of blocked records are not modelled.
\<close>

subsection \<open>Predicates\<close>

definition net_thread_holds :: "petri_engine \<Rightarrow> net_state \<Rightarrow> thread_id \<Rightarrow> resource_id \<Rightarrow> bool backend_result" where
  "net_thread_holds pe st t r =
     rbind (resource_of (pe_program pe) r) (\<lambda>res. Ok (case r_kind res of
         KMutex \<Rightarrow> (case Option.bind (place_for pe (PlMutex r)) (bt_get (ns_marking st)) of
             Some toks \<Rightarrow> TMutex (MHeld t) \<in> set toks | None \<Rightarrow> False)
       | KSemaphore \<Rightarrow> (case Option.bind (place_for pe (PlSemaphore r)) (read_data st) of
             Some (VInt n) \<Rightarrow> n < r_permits res | _ \<Rightarrow> False)
       | _ \<Rightarrow> False))"

definition net_executes :: "net_state \<Rightarrow> function_id \<Rightarrow> net_thread \<Rightarrow> bool" where
  "net_executes st f t \<longleftrightarrow> list_ex (\<lambda>i. case bt_get (nst_frames (ns_store st)) i of
      Some fr \<Rightarrow> nf_function fr = f | None \<Rightarrow> False) (nt_stack t)"

definition net_some_thread_holds ::
  "petri_engine \<Rightarrow> net_state \<Rightarrow> function_id \<Rightarrow> resource_id list \<Rightarrow> bool backend_result" where
  "net_some_thread_holds pe st f rs =
     anyM (\<lambda>(i, t). if net_executes st f t then allM (net_thread_holds pe st i) rs else Ok False)
       (nst_threads (ns_store st))"

definition net_completed_count :: "net_state \<Rightarrow> function_id \<Rightarrow> nat" where
  "net_completed_count st f =
     (case bt_get (nst_completed_functions (ns_store st)) f of Some n \<Rightarrow> n | None \<Rightarrow> 0)"

definition net_read_var :: "petri_engine \<Rightarrow> net_state \<Rightarrow> resource_id \<Rightarrow> cvalue option" where
  "net_read_var pe st r = (case place_for pe (PlVar r) of
      Some p \<Rightarrow> read_data st p
    | None \<Rightarrow> (case place_for pe (PlAtomic r) of Some p \<Rightarrow> read_data st p | None \<Rightarrow> None))"

definition net_mutex_at :: "petri_engine \<Rightarrow> net_state \<Rightarrow> resource_id \<Rightarrow> mutex_token option" where
  "net_mutex_at pe st r = Option.bind (place_for pe (PlMutex r)) (read_mutex st)"

definition net_channel_at :: "petri_engine \<Rightarrow> net_state \<Rightarrow> resource_id \<Rightarrow> cvalue option" where
  "net_channel_at pe st r = Option.bind (place_for pe (PlChannel r)) (read_data st)"

definition net_mutex_exclusive :: "petri_engine \<Rightarrow> net_state \<Rightarrow> resource_id \<Rightarrow> bool backend_result" where
  "net_mutex_exclusive pe st r =
     rbind (resource_of (pe_program pe) r) (\<lambda>res. Ok (case r_kind res of
         KMutex \<Rightarrow> True
       | KSemaphore \<Rightarrow> (case Option.bind (place_for pe (PlSemaphore r)) (read_data st) of
             None \<Rightarrow> True | Some (VInt n) \<Rightarrow> n \<ge> 0 | Some _ \<Rightarrow> False)
       | _ \<Rightarrow> False))"

fun net_satisfied :: "petri_engine \<Rightarrow> net_state \<Rightarrow> predicate \<Rightarrow> bool backend_result" where
  "net_satisfied pe st PTrue = Ok True"
| "net_satisfied pe st PFalse = Ok False"
| "net_satisfied pe st (VarEq r v) = Ok (net_read_var pe st r = Some v)"
| "net_satisfied pe st (VarCmp r p v) = Ok (case net_read_var pe st r of
      None \<Rightarrow> False
    | Some w \<Rightarrow> (case compare_values p w v of Some b \<Rightarrow> b | None \<Rightarrow> False))"
| "net_satisfied pe st (FunctionCompleted f) = Ok (net_completed_count st f \<ge> 1)"
| "net_satisfied pe st (FunctionCompletedAtLeast f n) = Ok (net_completed_count st f \<ge> n)"
| "net_satisfied pe st (ScopeCompleted f i) = Ok ((f, i) \<in> set (nst_completed_scopes (ns_store st)))"
| "net_satisfied pe st (StatementReached f i) = Ok ((f, i) \<in> set (nst_reached (ns_store st)))"
| "net_satisfied pe st (MutexFree r) = Ok (net_mutex_at pe st r = Some MFree)"
| "net_satisfied pe st (MutexHeld r) = Ok (case net_mutex_at pe st r of
      Some (MHeld t) \<Rightarrow> True | _ \<Rightarrow> False)"
| "net_satisfied pe st (ChannelEmpty r) = Ok (case net_channel_at pe st r of
      None \<Rightarrow> True | Some v \<Rightarrow> v = VArray [])"
| "net_satisfied pe st (ChannelAtLeast r n) = Ok (case net_channel_at pe st r of
      Some (VArray a) \<Rightarrow> length a \<ge> n | _ \<Rightarrow> False)"
| "net_satisfied pe st (HoldsAll f rs) = net_some_thread_holds pe st f rs"
| "net_satisfied pe st (MutexExclusive r) = net_mutex_exclusive pe st r"
| "net_satisfied pe st (NeverHoldsAll f rs) =
     rbind (net_some_thread_holds pe st f rs) (\<lambda>b. Ok (\<not> b))"
| "net_satisfied pe st (PNot p) = rbind (net_satisfied pe st p) (\<lambda>b. Ok (\<not> b))"
| "net_satisfied pe st (PAnd ps) = allM (net_satisfied pe st) ps"
| "net_satisfied pe st (POr ps) = anyM (net_satisfied pe st) ps"

subsection \<open>Blocked threads\<close>

definition net_blocked_on ::
  "petri_engine \<Rightarrow> thread_id \<Rightarrow> block_kind \<Rightarrow> resource_id \<Rightarrow> thread_id option \<Rightarrow> nat
     \<Rightarrow> blocked_record option backend_result" where
  "net_blocked_on pe t k r holder waiting =
     rbind (resource_fqn (pe_program pe) r) (\<lambda>n.
       Ok (Some \<lparr>br_thread = t, br_kind = k, br_resource = Some r, br_resource_name = Some n,
           br_holder = holder, br_waiting = waiting\<rparr>))"

definition net_blocked_plain :: "thread_id \<Rightarrow> block_kind \<Rightarrow> blocked_record option backend_result" where
  "net_blocked_plain t k = Ok (Some \<lparr>br_thread = t, br_kind = k, br_resource = None,
     br_resource_name = None, br_holder = None, br_waiting = 0\<rparr>)"

definition net_holder_of :: "petri_engine \<Rightarrow> net_state \<Rightarrow> resource_id \<Rightarrow> thread_id option" where
  "net_holder_of pe st r = (case net_mutex_at pe st r of Some (MHeld h) \<Rightarrow> Some h | _ \<Rightarrow> None)"

definition waiting_at :: "petri_engine \<Rightarrow> net_state \<Rightarrow> place_key \<Rightarrow> nat" where
  "waiting_at pe st k = (case place_for pe k of Some p \<Rightarrow> length (place_tokens st p) | None \<Rightarrow> 0)"

text \<open>Locks and condition variables share one arm: the holder is looked up under the key's own id.\<close>

fun net_block_entry ::
  "petri_engine \<Rightarrow> net_state \<Rightarrow> thread_id \<Rightarrow> place_key \<Rightarrow> blocked_record option backend_result" where
  "net_block_entry pe st t (PlLockWait r) = with_place pe (PlLockWait r) (\<lambda>p.
     net_blocked_on pe t BLock r (net_holder_of pe st r) (length (place_tokens st p)))"
| "net_block_entry pe st t (PlCondvar r) = with_place pe (PlCondvar r) (\<lambda>p.
     net_blocked_on pe t BCondvar r (net_holder_of pe st r) (length (place_tokens st p)))"
| "net_block_entry pe st t (PlChannelSend c) =
     net_blocked_on pe t BChannelSend c None (waiting_at pe st (PlChannelSend c))"
| "net_block_entry pe st t (PlChannelRecv c) =
     net_blocked_on pe t BChannelRecv c None (waiting_at pe st (PlChannelRecv c))"
| "net_block_entry pe st t (PlSemWait r) =
     net_blocked_on pe t BSemaphore r None (waiting_at pe st (PlSemWait r))"
| "net_block_entry pe st t (PlJoinWait f i) = net_blocked_plain t BJoin"
| "net_block_entry pe st t (PlScopeWait f i) = net_blocked_plain t BScope"
| "net_block_entry pe st t _ = Ok None"

definition net_blocked :: "petri_engine \<Rightarrow> net_state \<Rightarrow> blocked_record list backend_result" where
  "net_blocked pe st = gatherM (\<lambda>(i, t).
     if i \<in> set (nst_finished (ns_store st)) then Ok None
     else case nt_blocked_at t of None \<Rightarrow> Ok None | Some k \<Rightarrow> net_block_entry pe st i k)
     (nst_threads (ns_store st))"

subsection \<open>Instances and deadlock snapshots\<close>

definition net_instances :: "net_state \<Rightarrow> instance_state list backend_result" where
  "net_instances st = mapM (\<lambda>(i, t).
     rbind (case net_current_frame st i of
         Some f \<Rightarrow> rbind (net_frame_of st f) (\<lambda>fr. Ok (nf_function fr, Some (nf_pc fr), ''running''))
       | None \<Rightarrow> Ok (nt_entry_function t, None, ''finished''))
       (\<lambda>(f, sid, status). Ok \<lparr>is_thread = i, is_frame = net_current_frame st i, is_function = f,
            is_sid = sid, is_status = status\<rparr>)) (nst_threads (ns_store st))"

text \<open>The names of the mutexes whose place holds the given token.\<close>

definition mutexes_with :: "petri_engine \<Rightarrow> net_state \<Rightarrow> mutex_token \<Rightarrow> string list backend_result" where
  "mutexes_with pe st m = gatherM (\<lambda>pl. case pl_key pl of
      PlMutex r \<Rightarrow> (if TMutex m \<in> set (place_tokens st (pl_id pl))
        then rbind (resource_fqn (pe_program pe) r) (\<lambda>n. Ok (Some n)) else Ok None)
    | _ \<Rightarrow> Ok None) (pn_places (pe_net pe))"

definition wait_on :: "petri_engine \<Rightarrow> string \<Rightarrow> resource_id \<Rightarrow> doom_wait backend_result" where
  "wait_on pe kind r = rbind (resource_fqn (pe_program pe) r)
     (\<lambda>n. Ok \<lparr>dw_kind = kind, dw_resource = Some n\<rparr>)"

fun net_doom_wait :: "petri_engine \<Rightarrow> place_key \<Rightarrow> doom_wait backend_result" where
  "net_doom_wait pe (PlLockWait r) = wait_on pe ''mutex'' r"
| "net_doom_wait pe (PlSemWait r) = wait_on pe ''semaphore'' r"
| "net_doom_wait pe (PlChannelSend r) = wait_on pe ''channel_send'' r"
| "net_doom_wait pe (PlChannelRecv r) = wait_on pe ''channel_recv'' r"
| "net_doom_wait pe (PlCondvar r) = wait_on pe ''condvar'' r"
| "net_doom_wait pe (PlJoinWait f i) = Ok \<lparr>dw_kind = ''join'', dw_resource = None\<rparr>"
| "net_doom_wait pe (PlScopeWait f i) = Ok \<lparr>dw_kind = ''scope'', dw_resource = None\<rparr>"
| "net_doom_wait pe _ = Ok \<lparr>dw_kind = ''unknown'', dw_resource = None\<rparr>"

definition net_doom_thread ::
  "petri_engine \<Rightarrow> net_state \<Rightarrow> thread_id \<times> net_thread \<Rightarrow> doom_thread backend_result" where
  "net_doom_thread pe st p = (case p of (i, t) \<Rightarrow>
     rbind (mutexes_with pe st (MHeld i)) (\<lambda>holds.
     rbind (case net_current_frame st i of
         Some f \<Rightarrow> rbind (net_frame_of st f) (\<lambda>fr.
           rbind (function_of (pe_program pe) (nf_function fr)) (\<lambda>fn.
           rbind (function_fqn (pe_program pe) (nf_function fr)) (\<lambda>n.
             Ok (n, map_option st_sid (nth_opt (f_body fn) (nf_pc fr))))))
       | None \<Rightarrow> rbind (function_fqn (pe_program pe) (nt_entry_function t)) (\<lambda>n. Ok (n, None)))
       (\<lambda>(f, at_sid).
     rbind (case nt_blocked_at t of
         Some k \<Rightarrow> rbind (net_doom_wait pe k) (\<lambda>w. Ok (Some w)) | None \<Rightarrow> Ok None) (\<lambda>w.
     rbind (function_fqn (pe_program pe) (nt_entry_function t)) (\<lambda>entry.
       Ok \<lparr>dt_thread = u32 i, dt_entry_function = entry, dt_function = f,
           dt_at_sid = at_sid, dt_holds = sort holds, dt_waiting_on = w\<rparr>)))))"

definition net_doom_snapshot :: "petri_engine \<Rightarrow> net_state \<Rightarrow> doom_state backend_result" where
  "net_doom_snapshot pe st =
     rbind (mutexes_with pe st MFree) (\<lambda>free.
     rbind (mapM (net_doom_thread pe st) (nst_threads (ns_store st))) (\<lambda>ts.
       Ok \<lparr>ds_threads = ts, ds_free_resources = sort free\<rparr>))"

subsection \<open>Rendering\<close>

definition net_handle_ids :: "net_state \<Rightarrow> handle_id list" where
  "net_handle_ids st = remdups (sort
     (concat (map (\<lambda>f. bt_values (nf_handles f)) (bt_values (nst_frames (ns_store st)))) @
      concat (map (\<lambda>t. bt_keys (nt_handle_children t)) (bt_values (nst_threads (ns_store st))))))"

definition net_tname :: "net_state \<Rightarrow> thread_id \<Rightarrow> string" where
  "net_tname st = rank_name ''T'' ''T?'' (bt_keys (nst_threads (ns_store st)))"
definition net_fname :: "net_state \<Rightarrow> frame_id \<Rightarrow> string" where
  "net_fname st = rank_name ''F'' ''F?'' (bt_keys (nst_frames (ns_store st)))"
definition net_sname :: "net_state \<Rightarrow> scope_id \<Rightarrow> string" where
  "net_sname st = rank_name ''S'' ''S?'' (bt_keys (nst_scopes (ns_store st)))"
definition net_hname :: "net_state \<Rightarrow> handle_id \<Rightarrow> string" where
  "net_hname st = rank_name ''h'' ''h?'' (net_handle_ids st)"

text \<open>The derived \<open>Debug\<close> text of a place key.\<close>

definition debug_site :: "string \<Rightarrow> function_id \<Rightarrow> nat \<Rightarrow> string" where
  "debug_site name f i = name @ '' { function: FunctionId('' @ show_nat f @ ''), sid: '' @ show_nat i @ '' }''"

definition debug_res :: "string \<Rightarrow> resource_id \<Rightarrow> string" where
  "debug_res name r = name @ ''(ResourceId('' @ show_nat r @ ''))''"

fun debug_key :: "place_key \<Rightarrow> string" where
  "debug_key (PlControl f i) = debug_site ''Control'' f i"
| "debug_key (PlVar r) = debug_res ''Var'' r"
| "debug_key (PlAtomic r) = debug_res ''Atomic'' r"
| "debug_key (PlMutex r) = debug_res ''Mutex'' r"
| "debug_key (PlSemaphore r) = debug_res ''Semaphore'' r"
| "debug_key (PlChannel r) = debug_res ''Channel'' r"
| "debug_key (PlChannelSend r) = debug_res ''ChannelSend'' r"
| "debug_key (PlChannelRecv r) = debug_res ''ChannelRecv'' r"
| "debug_key (PlCondvar r) = debug_res ''Condvar'' r"
| "debug_key (PlLockWait r) = debug_res ''LockWait'' r"
| "debug_key (PlSemWait r) = debug_res ''SemWait'' r"
| "debug_key (PlJoinWait f i) = debug_site ''JoinWait'' f i"
| "debug_key (PlScopeWait f i) = debug_site ''ScopeWait'' f i"

fun render_token :: "(cvalue \<Rightarrow> string) \<Rightarrow> net_state \<Rightarrow> net_token \<Rightarrow> string" where
  "render_token enc st (TControl t f) = ''C('' @ net_tname st t @ '','' @ net_fname st f @ '')''"
| "render_token enc st (TData v) = ''D('' @ enc v @ '')''"
| "render_token enc st (TMutex MFree) = ''M(free)''"
| "render_token enc st (TMutex (MHeld t)) = ''M(held:'' @ net_tname st t @ '')''"
| "render_token enc st (TLockWait t f) = ''L('' @ net_tname st t @ '')''"
| "render_token enc st (TCondvarWait t f l) = ''CV('' @ net_tname st t @ '',r'' @ show_nat l @ '')''"
| "render_token enc st (TSendWait t f v) = ''S('' @ net_tname st t @ '','' @ enc v @ '')''"
| "render_token enc st (TRecvWait t f) = ''R('' @ net_tname st t @ '')''"
| "render_token enc st (TSemWait t f n) = ''Q('' @ net_tname st t @ '','' @ show_int n @ '')''"
| "render_token enc st (TJoinWait t f) = ''J('' @ net_tname st t @ '')''"
| "render_token enc st (TScopeWait t f) = ''W('' @ net_tname st t @ '')''"

definition render_place :: "(cvalue \<Rightarrow> string) \<Rightarrow> net_state \<Rightarrow> place \<Rightarrow> string" where
  "render_place enc st pl =
    (let toks = place_tokens st (pl_id pl) in
     if toks = [] then []
     else ''P'' @ debug_key (pl_key pl) @ ''=['' @ commas (map (render_token enc st) toks) @ '']'' @ nl)"

definition net_render_frame :: "(cvalue \<Rightarrow> string) \<Rightarrow> net_state \<Rightarrow> frame_id \<times> net_frame \<Rightarrow> string" where
  "net_render_frame enc st p = (case p of (i, fr) \<Rightarrow>
     ''frame '' @ net_fname st i @ '' fn='' @ show_nat (nf_function fr) @ '' pc='' @ show_nat (nf_pc fr) @
     '' locals={'' @ commas (sort (map (\<lambda>(k, v). show_nat k @ ''='' @ enc v) (nf_locals fr))) @
     ''} handles={'' @ commas (sort (map (\<lambda>(k, h). k @ ''->'' @ net_hname st h) (nf_handles fr))) @ ''} '' @
     (case nf_ret fr of
        Some r \<Rightarrow> ''ret(pc='' @ show_nat (na_pc_next r) @ '',dst='' @ debug_slot (na_dst r) @ '')''
      | None \<Rightarrow> ''ret(none)'') @ nl)"

definition show_bool :: "bool \<Rightarrow> string" where
  "show_bool b = (if b then ''true'' else ''false'')"

definition net_render_thread :: "net_state \<Rightarrow> thread_id \<times> net_thread \<Rightarrow> string" where
  "net_render_thread st p = (case p of (i, t) \<Rightarrow>
     ''thread '' @ net_tname st i @ '' entry=f'' @ show_nat (nt_entry_function t) @
     '' stack=['' @ commas (map (net_fname st) (nt_stack t)) @
     ''] finished='' @ show_bool (i \<in> set (nst_finished (ns_store st))) @
     '' children=['' @ commas (sort (map (\<lambda>(h, c). net_hname st h @ ''->'' @ net_tname st c)
        (nt_handle_children t))) @
     ''] scope='' @ (case nt_parent_scope t of Some s \<Rightarrow> net_sname st s | None \<Rightarrow> ''-'') @ nl)"

definition net_render_scope :: "net_state \<Rightarrow> net_scope \<Rightarrow> string" where
  "net_render_scope st s =
     ''scope '' @ net_sname st (nc_id s) @ '' owner='' @ net_tname st (nc_owner s) @ '' frame='' @
     net_fname st (nc_owner_frame s) @ '' sid='' @ show_nat (nc_owner_sid s) @ '' remaining=['' @
     commas (sort (map (net_tname st) (nc_remaining s))) @ '']'' @ nl"

definition render_net :: "petri_net \<Rightarrow> net_state \<Rightarrow> (cvalue \<Rightarrow> string) \<Rightarrow> string" where
  "render_net net st enc =
     concat (map (render_place enc st) (pn_places net)) @
     concat (map (net_render_frame enc st) (nst_frames (ns_store st))) @
     concat (map (net_render_thread st) (nst_threads (ns_store st))) @
     concat (map (net_render_scope st) (bt_values (nst_scopes (ns_store st)))) @
     ''completed fn='' @ debug_counts (nst_completed_functions (ns_store st)) @ '' scopes='' @
     debug_pairs (nst_completed_scopes (ns_store st)) @ '' reached='' @
     debug_pairs (nst_reached (ns_store st)) @ nl"

definition net_canonical :: "(string \<Rightarrow> string) \<Rightarrow> petri_engine \<Rightarrow> net_state \<Rightarrow> string" where
  "net_canonical esc pe st = render_net (pe_net pe) st (canonical esc)"

definition net_state_key :: "petri_engine \<Rightarrow> net_state \<Rightarrow> string" where
  "net_state_key pe st = render_net (pe_net pe) st value_key"

definition petri_system :: "(string \<Rightarrow> string) \<Rightarrow> petri_engine \<Rightarrow> net_state tsystem" where
  "petri_system esc pe =
     \<lparr>ts_program = pe_program pe, ts_initial = net_initial pe,
      ts_successors = net_successors pe, ts_is_finished = net_is_finished,
      ts_blocked = net_blocked pe, ts_instances = net_instances,
      ts_doom_snapshot = net_doom_snapshot pe, ts_satisfied = net_satisfied pe,
      ts_canonical = (\<lambda>st. Ok (net_canonical esc pe st)),
      ts_state_key = (\<lambda>st. Ok (net_state_key pe st))\<rparr>"

end
