(* ===== verification/Net_System.thy ===== *)
theory Net_System
  imports Net_Invariant Net_Observe System_Interface
begin

text \<open>
  The net the builder makes is well formed, as long as it has at most \<open>2^32\<close> places: place
  identifiers are the low 32 bits of the number of places before. Then keys, identifiers and
  positions in the list of places determine each other.
\<close>

subsection \<open>Places\<close>

definition bplaces :: "builder \<Rightarrow> bool" where
  "bplaces b \<longleftrightarrow> (length (bd_places b) \<le> 2 ^ 32 \<longrightarrow>
     (\<forall>k p. places_of b k = Some p \<longleftrightarrow> p < length (bd_places b) \<and> pl_key (bd_places b ! p) = k) \<and>
     (\<forall>p<length (bd_places b). pl_id (bd_places b ! p) = p))"

lemma bplaces_empty: "bplaces builder_empty"
  by (simp add: bplaces_def builder_empty_def places_of_def)

lemma bplaces_add [simp]: "bplaces (b\<lparr>bd_transitions := ts\<rparr>) = bplaces b"
  by (simp add: bplaces_def)

lemma bplaces_place:
  assumes "b_place k b = (p, b')" "bplaces b"
  shows "bplaces b'"
proof (cases "places_of b k")
  case (Some q)
  with assms show ?thesis by (simp add: b_place_def places_of_def)
next
  case None
  let ?n = "length (bd_places b)"
  have b': "bd_places b' = bd_places b @ [\<lparr>pl_id = u32 ?n, pl_key = k\<rparr>]"
    "places_of b' = (places_of b)(k := Some (u32 ?n))"
    using assms(1) None by (auto simp: b_place_def places_of_def Let_def fun_eq_iff)
  show ?thesis
  proof (unfold bplaces_def, intro impI)
    assume small: "length (bd_places b') \<le> 2 ^ 32"
    then have n: "u32 ?n = ?n" using b'(1) by (simp add: u32_def)
    from small b'(1) assms(2) have old:
      "places_of b l = Some q \<longleftrightarrow> q < ?n \<and> pl_key (bd_places b ! q) = l"
      "q < ?n \<Longrightarrow> pl_id (bd_places b ! q) = q" for l q by (simp_all add: bplaces_def)
    have "(places_of b' l = Some q) = (q < length (bd_places b') \<and> pl_key (bd_places b' ! q) = l)" for l q
      using old(1) [of l q] old(1) [of k q] None n
      by (cases "l = k"; cases "q = ?n") (auto simp: b' nth_append less_Suc_eq)
    moreover have "pl_id (bd_places b' ! q) = q" if "q < length (bd_places b')" for q
      using that old(2) [of q] n by (cases "q = ?n") (auto simp: b'(1) nth_append)
    ultimately show "(\<forall>l q. (places_of b' l = Some q) = (q < length (bd_places b') \<and> pl_key (bd_places b' ! q) = l)) \<and>
      (\<forall>q<length (bd_places b'). pl_id (bd_places b' ! q) = q)" by blast
  qed
qed

lemma bplaces_ctrl: "b_ctrl f i b = (p, b') \<Longrightarrow> bplaces b \<Longrightarrow> bplaces b'"
  unfolding b_ctrl_def by (rule bplaces_place)

lemma bplaces_snd: "bplaces b \<Longrightarrow> bplaces (snd (b_place k b))"
  by (metis bplaces_place prod.collapse)

lemma bplaces_made: "b_place k b = (p, b') \<Longrightarrow> bplaces b \<longrightarrow> bplaces b'"
  by (simp add: bplaces_place)

lemma bplaces_made_ctrl: "b_ctrl f i b = (p, b') \<Longrightarrow> bplaces b \<longrightarrow> bplaces b'"
  by (simp add: bplaces_ctrl)

lemma bplaces_ctrls: "b_ctrls xs b = (ps, b') \<Longrightarrow> bplaces b \<Longrightarrow> bplaces b'"
  by (induction xs b arbitrary: ps b' rule: b_ctrls.induct) (force dest: bplaces_ctrl split: prod.splits)+

lemma bplaces_case: "bplaces b \<Longrightarrow> bplaces (b_case v f inp og c b)"
  by (auto simp: b_case_def b_move_def b_add_def intro: bplaces_ctrl split: prod.splits)

lemma bplaces_switch: "bplaces b \<Longrightarrow> bplaces (b_switch v cs d f inp og b)"
proof -
  assume "bplaces b"
  then have "bplaces (fold (b_case v f inp og) cs b)"
    by (induction cs arbitrary: b) (simp_all add: bplaces_case)
  then show ?thesis
    by (auto simp: b_switch_def b_move_def b_add_def Let_def intro: bplaces_ctrl split: prod.splits)
qed

lemma bplaces_op:
  assumes "build_op P f i inp fall og op b = Ok b'" "bplaces b"
  shows "bplaces b'"
proof (cases op)
  case (ChannelSend c e)
  with assms(1) obtain res where "resource_of P c = Ok res" by (auto simp: b_send_def)
  with assms \<open>op = ChannelSend c e\<close> show ?thesis
    by (auto simp: b_send_def b_move_def b_add_def Let_def dest!: bplaces_made split: prod.split_asm if_split_asm)
next
  case (ChannelRecv c d)
  with assms(1) obtain res where "resource_of P c = Ok res" by (auto simp: b_recv_def)
  with assms \<open>op = ChannelRecv c d\<close> show ?thesis
    by (auto simp: b_recv_def b_move_def b_add_def Let_def dest!: bplaces_made split: prod.split_asm if_split_asm)
next
  case (Switch v cs d)
  with assms show ?thesis using bplaces_switch by auto
next
  case (Scope fs)
  with assms show ?thesis
    by (auto simp: b_scope_def b_move_def b_add_def dest!: bplaces_made dest: bplaces_ctrls split: prod.splits)
qed (use assms in \<open>auto simp: b_resource_move_def b_lock_def b_wait_def b_notify_def b_acquire_def b_join_def
    b_branch_def b_return_def b_move_def b_add_def dest!: bplaces_made bplaces_made_ctrl split: prod.splits\<close>)

lemma bplaces_stmt: "build_stmt P f i stmt b = Ok b' \<Longrightarrow> bplaces b \<Longrightarrow> bplaces b'"
  by (auto simp: build_stmt_def dest!: bplaces_op bplaces_made_ctrl split: prod.splits)

lemma bplaces_function:
  assumes "build_function P f b = Ok b'" "bplaces b"
  shows "bplaces b'"
proof -
  from assms(1) obtain b1 where b1: "foldM (\<lambda>(si, stmt). build_stmt P f si stmt) (enumerate 0 (f_body f)) b = Ok b1"
    and b': "b' = (let (inp, b) = b_ctrl (f_id f) (length (f_body f)) b1 in b_return None inp
         \<lparr>or_module = f_module f, or_function = f_id f, or_sid = None, or_phase = Statement\<rparr> b)"
    by (clarsimp simp: build_function_def Let_def) (metis (no_types, lifting) case_prod_conv outc.inject(1) prod.exhaust)
  have "bplaces b1"
    by (rule foldM_invariant [where I = bplaces, OF b1 assms(2)]) (auto intro: bplaces_stmt split: prod.splits)
  then show ?thesis unfolding b' by (auto simp: b_return_def b_add_def dest!: bplaces_made_ctrl split: prod.splits)
qed

lemma bplaces_resource:
  assumes "build_resource P r b = Ok b'" "bplaces b"
  shows "bplaces b'"
proof -
  obtain rs where "resource_of P r = Ok rs" using assms(1) by (auto simp: build_resource_def)
  with assms show ?thesis by (cases "r_kind rs")
    (auto simp: build_resource_def b_waiters_def b_channel_def b_add_def bplaces_snd dest!: bplaces_made
      split: prod.split_asm if_split_asm)
qed

subsection \<open>The net of a program\<close>

definition small_net :: "petri_engine \<Rightarrow> bool" where
  "small_net pe \<longleftrightarrow> length (pn_places (pe_net pe)) \<le> 2 ^ 32"

lemma small_net_code [code]: "small_net pe \<longleftrightarrow> int (length (pn_places (pe_net pe))) \<le> 4294967296"
  by (simp add: small_net_def)

text \<open>Keys, identifiers and positions of places.\<close>

definition places_exact :: "petri_engine \<Rightarrow> bool" where
  "places_exact pe \<longleftrightarrow>
     (\<forall>k p. place_for pe k = Some p \<longleftrightarrow> p < length (pn_places (pe_net pe)) \<and> pl_key (pn_places (pe_net pe) ! p) = k) \<and>
     (\<forall>p<length (pn_places (pe_net pe)). pl_id (pn_places (pe_net pe) ! p) = p)"

lemma engine_wf:
  assumes eng: "engine_with_monitor P bounds mon = Ok pe" and small: "small_net pe"
  shows "net_wf pe \<and> places_exact pe"
proof -
  from eng obtain net where net: "net_build P = Ok net" and pe: "pe_program pe = P" "pe_net pe = net"
    by (auto simp: engine_with_monitor_def)
  from net obtain b b' where b: "foldM (build_function P) (p_functions P) builder_empty = Ok b"
    and b': "foldM (build_resource P) (map r_id (p_resources P)) b = Ok b'"
    and net': "net = \<lparr>pn_places = bd_places b', pn_place_of = bd_place_of b',
      pn_transitions = bd_transitions b', pn_entry = p_entry P\<rparr>"
    by (auto simp: net_build_def)
  have at: "place_for pe = places_of b'" by (simp add: place_for_def places_of_def pe net' fun_eq_iff)
  have "bplaces b" by (rule foldM_invariant [where I = bplaces, OF b bplaces_empty]) (rule bplaces_function)
  then have "bplaces b'" by (intro foldM_invariant [where I = bplaces, OF b']) (auto intro: bplaces_resource)
  with small have exact: "places_exact pe"
    by (simp add: places_exact_def bplaces_def small_net_def at) (simp add: pe net')
  then have ok: "places_ok pe" by (auto simp: places_exact_def places_ok_def)
  have "\<exists>x\<in>set (program_arcs P). tr_matches (place_for pe) tr x" if "tr \<in> set (pn_transitions net)" for tr
    using net_build_arcs [OF net] that unfolding place_for_def pe by (metis in_set_conv_nth list_all2_conv_all_nth)
  moreover have "place_for pe (PlControl (f_id fn) i) \<noteq> None" if fn: "fn \<in> set (p_functions P)" "i \<le> length (f_body fn)" for fn i
  proof -
    have "places_of b (PlControl (f_id fn) i) \<noteq> None"
      by (rule foldM_places [OF b _ fn(1)]) (use build_function_adds adds_keeps fn(2) in blast)+
    moreover have "keeps (places_of b) (places_of b')"
    proof (rule foldM_invariant [where I = "\<lambda>x. keeps (places_of b) (places_of x)", OF b' keeps_refl])
      fix r x y assume "keeps (places_of b) (places_of x)" "build_resource P r x = Ok y"
      then show "keeps (places_of b) (places_of y)"
        using build_resource_adds [of P r x y] adds_keeps [of x "resource_arcs P r" y]
          keeps_trans [of "places_of b" "places_of x" "places_of y"] by simp
    qed
    ultimately show ?thesis unfolding at by (auto dest: keepsD)
  qed
  ultimately show ?thesis using ok exact by (simp add: net_wf_def pe)
qed

subsection \<open>The initial marking\<close>

text \<open>No thread and no frame yet, and only data on the places.\<close>

definition blank :: "net_state \<Rightarrow> bool" where
  "blank st \<longleftrightarrow> ns_store st = ns_store net_empty \<and> (\<forall>p. \<forall>x\<in>set (place_tokens st p). tok_thread x = None)"

lemma place_tokens_single: "place_tokens (set_single p x st) q = (if q = p then [x] else place_tokens st q)"
  by (simp add: set_single_def place_tokens_def)

lemma blank_set: "blank st \<Longrightarrow> tok_thread x = None \<Longrightarrow> blank (set_single p x st)"
  by (simp add: blank_def place_tokens_single)

lemma init_place_blank: "net_init_place P pl st = Ok st' \<Longrightarrow> blank st \<Longrightarrow> blank st'"
  by (cases "pl_key pl")
    (auto simp: net_init_place_def set_data_def set_mutex_token_def blank_set split: option.split_asm)

lemma blank_inv:
  assumes "blank st"
  shows "held pe {} no_pending st" "c_nt (ncore pe st) = 0" "c_nf (ncore pe st) = 0"
proof -
  have "of_thread t (tokens_at pe st k) = []" for t k
    using assms by (auto simp: blank_def tokens_at_def of_thread_def filter_empty_conv split: option.split)
  then have core: "c_tok (ncore pe st) = (\<lambda>k t. [])" by (simp add: fun_eq_iff)
  have st: "ns_store st = ns_store net_empty" using assms by (simp add: blank_def)
  have "core_inv pe (\<lambda>_. None) {} no_pending (ncore pe st)"
    unfolding core_inv_def located_def core
    by (auto simp: ncore_def st net_empty_def live_def stacks_ok_def scopes_ok_def bt_ok_def Let_def)
  then show "held pe {} no_pending st" by (auto simp: held_def)
  show "c_nt (ncore pe st) = 0" "c_nf (ncore pe st) = 0"
    by (simp_all add: ncore_def st net_empty_def net_alloc_default_def Let_def)
qed

lemma initial_inv:
  assumes wf: "net_wf pe" and init: "net_initial pe = Ok st"
  shows "net_inv pe st"
proof -
  let ?e = "p_entry (pe_program pe)"
  have ok: "places_ok pe" using wf by (simp add: net_wf_def)
  from init obtain s fn where s: "foldM (net_init_place (pe_program pe)) (pn_places (pe_net pe)) net_empty = Ok s"
    and cases: "is_transparent_nobody fn \<and> st = net_completion pe ?e (mark_finished 0
        (insert_thread 0 (net_new_thread ?e [] None) (upd_alloc (\<lambda>a. a\<lparr>na_thread := 1\<rparr>) s))) \<or>
      (\<exists>ls start. ctrl_place pe ?e 0 = Some start \<and> st = place_control pe start 0 0
        (upd_nthread 0 (\<lambda>th. th\<lparr>nt_stack := nt_stack th @ [0]\<rparr>) (insert_frame 0 (net_new_frame 0 ?e ls None)
          (upd_alloc (\<lambda>a. a\<lparr>na_frame := 1\<rparr>)
            (insert_thread 0 (net_new_thread ?e [] None) (upd_alloc (\<lambda>a. a\<lparr>na_thread := 1\<rparr>) s))))))"
    by (auto simp: net_initial_def Let_def split: if_splits)
  have "blank s"
    by (rule foldM_invariant [where I = blank, OF s]) (use init_place_blank in \<open>auto simp: blank_def net_empty_def place_tokens_def\<close>)
  note b = blank_inv [OF this, of pe] and st = \<open>blank s\<close>
  from b(1) obtain L where L: "core_inv pe L {} no_pending (ncore pe s)" by (auto simp: held_def)
  note sorted = held_sorted [OF b(1)]
  have zero: "na_thread (nst_alloc (ns_store s)) = 0" "na_frame (nst_alloc (ns_store s)) = 0"
    using b(2,3) by (simp_all add: ncore_def Let_def)
  have alloc: "upd_alloc (\<lambda>a. a\<lparr>na_thread := 1\<rparr>) s = upd_alloc (\<lambda>a. a\<lparr>na_thread := Suc (na_thread a)\<rparr>) s"
    "upd_alloc (\<lambda>a. a\<lparr>na_frame := 1\<rparr>) (insert_thread 0 th (upd_alloc g s)) =
     upd_alloc (\<lambda>a. a\<lparr>na_frame := Suc (na_frame a)\<rparr>) (insert_thread 0 th (upd_alloc g s))"
    if "\<And>a. na_frame (g a) = na_frame a" for th g
    using zero that by (simp_all add: upd_alloc_def upd_nstore_def insert_thread_def)
  from cases show ?thesis
  proof (elim disjE conjE exE)
    assume "st = net_completion pe ?e (mark_finished 0
        (insert_thread 0 (net_new_thread ?e [] None) (upd_alloc (\<lambda>a. a\<lparr>na_thread := 1\<rparr>) s)))"
    then have "ncore pe st = nobody_core None (ncore pe s)"
      using ncore_nobody [OF sorted zero(1) [symmetric], of pe ?e None] alloc(1) [of id] by simp
    with core_inv_nobody [OF L, of None] show ?thesis by (auto simp: net_inv_def held_def)
  next
    fix ls start assume start: "ctrl_place pe ?e 0 = Some start"
    let ?s = "upd_nthread 0 (\<lambda>th. th\<lparr>nt_stack := nt_stack th @ [0]\<rparr>) (insert_frame 0 (net_new_frame 0 ?e ls None)
          (upd_alloc (\<lambda>a. a\<lparr>na_frame := 1\<rparr>)
            (insert_thread 0 (net_new_thread ?e [] None) (upd_alloc (\<lambda>a. a\<lparr>na_thread := 1\<rparr>) s))))"
    assume st: "st = place_control pe start 0 0 ?s"
    have "ncore pe ?s = spawn_core None ?e (ncore pe s)"
      using ncore_spawn [OF sorted zero [symmetric], of pe ?e ls None] alloc(1) [of id]
        alloc(2) [of "\<lambda>a. a\<lparr>na_thread := Suc (na_thread a)\<rparr>" "net_new_thread ?e [] None"] by simp
    with core_inv_spawn [OF L, of None no_pending ?e] b(2,3)
    have "held pe {0} no_pending ?s" "at_pos pe ?s 0 0 ?e 0" by (auto simp: held_def at_pos_def)
    with place_control_inv [OF ok, of 0 ?s 0 ?e 0 0 start] start show ?thesis by (simp add: st ctrl_place_def)
  qed
qed

section \<open>The engine as a transition system\<close>

text \<open>
  The Petri-net engine as a transition system: it provides the interface \<open>transition_system\<close>, its
  reachable states satisfy the token invariant, and what the invariant means for the tokens of a
  thread on all the places.
\<close>

interpretation petri: transition_system "petri_system esc pe" for esc pe
  by unfold_locales (simp_all add: petri_system_def)

lemma petri_simps [simp]:
  "ts_initial (petri_system esc pe) = net_initial pe" "ts_successors (petri_system esc pe) = net_successors pe"
  "ts_is_finished (petri_system esc pe) = net_is_finished"
  by (simp_all add: petri_system_def)

text \<open>A step of the system fires one transition with one binding.\<close>

lemma petri_step:
  assumes "sys_step (petri_system esc pe) st l st'"
  shows "\<exists>tr bind be. (tr, bind) \<in> set (net_candidates pe st) \<and> net_fire pe st tr bind = Ok (Some st', be)"
proof -
  from assms obtain rs where rs: "mapM (net_try pe st) (net_candidates pe st) = Ok rs"
    and "\<lparr>step_lab = l, step_state = st'\<rparr> \<in> set (concat (map fst rs))"
    by (auto simp: sys_step_iff net_successors_def)
  then obtain r where r: "r \<in> set rs" "\<lparr>step_lab = l, step_state = st'\<rparr> \<in> set (fst r)" by auto
  from mapM_Ok_set [OF rs r(1)] obtain tr bind where c: "(tr, bind) \<in> set (net_candidates pe st)"
    "net_try pe st (tr, bind) = Ok r" by auto
  from c(2) obtain v be where v: "net_fire pe st tr bind = Ok (v, be)" "fst r = (case v of None \<Rightarrow> []
      | Some s \<Rightarrow> (case binding_ids bind of (t, f) \<Rightarrow>
          [\<lparr>step_lab = with_binding t f (label_new (tr_origin tr)), step_state = s\<rparr>]))"
    by (auto simp: net_try_def)
  with r(2) have "v = Some st'" by (auto split: option.splits prod.splits)
  with c(1) v(1) show ?thesis by blast
qed

lemma net_reachable_inv:
  assumes wf: "net_wf pe" and st: "reachable (petri_system esc pe) st"
  shows "net_inv pe st"
  using st
proof (induction rule: reachable.induct)
  case (reachable_init s)
  then show ?case using initial_inv [OF wf] by simp
next
  case (reachable_step s l t)
  then show ?case using petri_step fire_keeps [OF wf] by blast
qed

subsection \<open>Finished states\<close>

lemma held_live: "at_pos pe st t f fn pc \<Longrightarrow> \<not> not_live st t"
  by (simp add: at_pos_def in_hand_def not_live_core [of _ _ pe])

lemma fired_live:
  assumes wf: "net_wf pe" and inv: "net_inv pe st" and cand: "(tr, bind) \<in> set (net_candidates pe st)"
    and fire: "net_fire pe st tr bind = Ok (Some st', be)"
  shows "\<exists>t. \<not> not_live st t"
proof -
  have ok: "places_ok pe" using wf by (simp add: net_wf_def)
  have taken: "\<not> not_live st t"
    if "place_for pe k = Some p" "x \<in> set (place_tokens st p)" "tok_thread x = Some t" for k p x t
  proof -
    from held_take [OF ok inv [unfolded net_inv_def] that] held_live have
      "\<not> not_live (snd (take_token p x st)) t" by blast
    then show ?thesis using same_threads_take by (simp add: same_threads_def)
  qed
  from cand have tr: "tr \<in> set (pn_transitions (pe_net pe))" and bind: "bind \<in> set (net_bindings st (tr_binding tr))"
    by (auto simp: net_candidates_def)
  from wf tr obtain op arc nxt og where x: "(op, arc, nxt, og) \<in> set (program_arcs (pe_program pe))"
    "tr_matches (place_for pe) tr (op, arc, nxt, og)" by (auto simp: net_wf_def)
  then have m: "tr_op tr = op" "arc_matches (place_for pe) (tr_binding tr) arc" by (simp_all add: tr_matches_def)
  show ?thesis
  proof (cases arc)
    case (KWait k)
    with m bind obtain p y where y: "tr_binding tr = BWait p" "place_for pe k = Some p" "bind = FWait y"
      "y \<in> set (place_tokens st p)" by (cases "tr_binding tr") auto
    have "\<exists>r. op \<in> {NLockWaitAcquire r, NSemGrant r, NBufferDeliver r, NBufferRecvWait r}"
      using x(1)
    proof (cases rule: program_arcs_cases)
      case (res r)
      then show ?thesis using resource_arcs_cases by fastforce
    qed (use KWait stmt_ops_arc in fastforce)+
    then obtain t where "tok_thread y = Some t"
      using fire m(1) y(3) by (cases y) (auto simp: net_fire_def Let_def fire_lock_wait_def fire_sem_grant_def
        fire_deliver_def fire_recv_wait_def with_wait_def with_place_def)
    with taken y show ?thesis by blast
  next
    case (KControl k)
    with m bind obtain p t f where "place_for pe k = Some p" "TControl t f \<in> set (place_tokens st p)"
      by (cases "tr_binding tr") (auto dest: control_tokens_in)
    with taken show ?thesis by fastforce
  next
    case (KChoose k l)
    with m bind obtain p t f where "place_for pe k = Some p" "TControl t f \<in> set (place_tokens st p)"
      by (cases "tr_binding tr") (auto dest: control_tokens_in)
    with taken show ?thesis by fastforce
  qed
qed

lemma finished_not_live: "net_is_finished st \<Longrightarrow> not_live st t"
proof (cases "bt_get (nst_threads (ns_store st)) t")
  case (Some th)
  assume "net_is_finished st"
  moreover have "t \<in> set (bt_keys (nst_threads (ns_store st)))"
    using Some by (force simp: bt_get_def bt_keys_def dest: map_of_SomeD)
  ultimately show ?thesis by (simp add: net_is_finished_def not_live_def list_all_iff)
qed (simp add: not_live_def)

subsection \<open>The tokens of a thread\<close>

definition thread_tokens :: "petri_engine \<Rightarrow> net_state \<Rightarrow> thread_id \<Rightarrow> (place_key \<times> net_token) list" where
  "thread_tokens pe st t = concat (map (\<lambda>pl. map (Pair (pl_key pl))
     (filter (\<lambda>x. tok_thread x = Some t) (place_tokens st (pl_id pl)))) (pn_places (pe_net pe)))"

lemma concat_single:
  "distinct (map g xs) \<Longrightarrow>
   concat (map (\<lambda>x. if g x = k then [y] else []) xs) = (if k \<in> set (map g xs) then [y] else [])"
proof (induction xs)
  case (Cons x xs)
  then show ?case by (cases "g x = k") (auto split: if_splits)
qed simp

lemma thread_tokens_located:
  assumes exact: "places_exact pe" and L: "located L (ncore pe st)"
  shows "thread_tokens pe st t = (case L t of Some (k, x) \<Rightarrow> [(k, x)] | None \<Rightarrow> [])"
proof -
  let ?pls = "pn_places (pe_net pe)"
  have inner: "map (Pair (pl_key pl)) (filter (\<lambda>x. tok_thread x = Some t) (place_tokens st (pl_id pl))) =
      (case L t of Some (k, x) \<Rightarrow> if pl_key pl = k then [(k, x)] else [] | None \<Rightarrow> [])" if pl: "pl \<in> set ?pls" for pl
  proof -
    from pl obtain p where p: "p < length ?pls" "pl = ?pls ! p" by (auto simp: in_set_conv_nth)
    with exact have "place_for pe (pl_key pl) = Some (pl_id pl)" by (simp add: places_exact_def)
    then have "of_thread t (place_tokens st (pl_id pl)) = c_tok (ncore pe st) (pl_key pl) t"
      by (simp add: tokens_at_def)
    also have "\<dots> = (case L t of Some (k', x) \<Rightarrow> if k' = pl_key pl then [x] else [] | None \<Rightarrow> [])"
      using L unfolding located_def by blast
    finally show ?thesis by (auto simp: of_thread_def split: option.splits)
  qed
  have "thread_tokens pe st t = concat (map (\<lambda>pl. case L t of
      Some (k, x) \<Rightarrow> if pl_key pl = k then [(k, x)] else [] | None \<Rightarrow> []) ?pls)"
    unfolding thread_tokens_def by (rule arg_cong [of _ _ concat]) (rule map_cong [OF refl inner])
  moreover have "distinct (map pl_key ?pls)"
    using exact unfolding places_exact_def distinct_conv_nth by (metis length_map nth_map option.inject)
  moreover have "k \<in> set (map pl_key ?pls)" if "L t = Some (k, x)" for k x
  proof -
    have "c_tok (ncore pe st) k t = [x]"
      using L that by (simp add: located_def del: c_tok_ncore)
    then obtain p where "place_for pe k = Some p"
      by (cases "place_for pe k") (auto simp: tokens_at_def of_thread_def)
    with exact have "p < length ?pls" "pl_key (?pls ! p) = k" by (auto simp: places_exact_def)
    then show ?thesis using nth_mem by force
  qed
  ultimately show ?thesis
  proof (cases "L t")
    case (Some q)
    obtain k x where "q = (k, x)" by (cases q)
    with Some \<open>thread_tokens pe st t = _\<close> \<open>distinct _\<close> \<open>\<And>k x. L t = Some (k, x) \<Longrightarrow> k \<in> _\<close>
    show ?thesis using concat_single [of pl_key ?pls k "(k, x)"] by simp
  qed simp
qed

end
