(* ===== verification/Net_Props.thy ===== *)
theory Net_Props
  imports Net_System Demo_Programs
begin

text \<open>
  The properties of the Petri-net engine: the net is the translation of the program, tokens are
  conserved in every reachable state, finished states are final, and where the engine departs from
  the interpreter.
\<close>

subsection \<open>The translation\<close>

text \<open>C24: The net of a program consists of the transitions of its statements, in the order of the
  functions and statements, followed by the implicit return of each body, and of the transitions
  of its resources: each with the operation, the input arcs, the output place and the origin the
  statement alone determines.\<close>

theorem net_translates_statements:
  assumes "net_build P = Ok net"
  shows "list_all2 (tr_matches (bt_get (pn_place_of net))) (pn_transitions net) (program_arcs P)"
  by (rule net_build_arcs [OF assms])

lemma list_all2_map_eq: "list_all2 (\<lambda>x y. f x = g y) xs ys \<Longrightarrow> map g ys = map f xs"
  by (induction rule: list_all2_induct) simp_all

theorem net_translates_statements_witness:
  "\<exists>net. net_build demo_lock_unlock = Ok net \<and>
     map (\<lambda>x. fst x) (program_arcs demo_lock_unlock) = map tr_op (pn_transitions net) \<and>
     map tr_op (pn_transitions net) =
       [NMutexLockGrant 0, NMutexLockBlock 0, NMutexUnlock 0, NReturnInner None, NReturnFinal None, NLockWaitAcquire 0]"
proof -
  have "(case net_build demo_lock_unlock of Ok net \<Rightarrow> map tr_op (pn_transitions net) =
       [NMutexLockGrant 0, NMutexLockBlock 0, NMutexUnlock 0, NReturnInner None, NReturnFinal None, NLockWaitAcquire 0]
     | _ \<Rightarrow> False)" by code_simp
  then obtain net where net: "net_build demo_lock_unlock = Ok net" and ops: "map tr_op (pn_transitions net) =
       [NMutexLockGrant 0, NMutexLockBlock 0, NMutexUnlock 0, NReturnInner None, NReturnFinal None, NLockWaitAcquire 0]"
    by (auto split: outc.splits)
  from net_translates_statements [OF net] have "list_all2 (\<lambda>tr x. tr_op tr = fst x) (pn_transitions net) (program_arcs demo_lock_unlock)"
    by (rule list_all2_mono) (auto simp: tr_matches_def)
  then have eq: "map (\<lambda>x. fst x) (program_arcs demo_lock_unlock) = map tr_op (pn_transitions net)"
    by (rule list_all2_map_eq)
  show ?thesis by (intro exI [of _ net] conjI) (rule net, rule eq, rule ops)
qed

subsection \<open>Token conservation\<close>

text \<open>C23: In every reachable state of the net each unfinished thread has exactly one token on all
  the places together. The token names the thread's current frame and lies where the frame is: a
  control token on the control place of the frame's position, a wait token on a wait place of that
  kind, with the place after the position ready. A finished or reclaimed thread has no token.\<close>

theorem tokens_conserved:
  assumes "engine_with_monitor P bounds mon = Ok pe" "small_net pe" "reachable (petri_system esc pe) st"
  shows "case bt_get (nst_threads (ns_store st)) t of
      None \<Rightarrow> thread_tokens pe st t = []
    | Some th \<Rightarrow> if t \<in> set (nst_finished (ns_store st)) then thread_tokens pe st t = []
        else \<exists>k x fr. thread_tokens pe st t = [(k, x)] \<and> nt_stack th \<noteq> [] \<and> tok_frame x = Some (last (nt_stack th)) \<and>
          bt_get (nst_frames (ns_store st)) (last (nt_stack th)) = Some fr \<and> site_ok pe k x (nf_function fr) (nf_pc fr)"
proof -
  from engine_wf [OF assms(1,2)] have wf: "net_wf pe" "places_exact pe" by auto
  from net_reachable_inv [OF wf(1) assms(3)] obtain L where L: "core_inv pe L {} no_pending (ncore pe st)"
    by (auto simp: net_inv_def held_def)
  then have "located L (ncore pe st)" by (simp add: core_inv_def)
  note tokens = thread_tokens_located [OF wf(2) this, of t]
  show ?thesis
  proof (cases "live (ncore pe st) t")
    case True
    with L obtain k x where Lt: "L t = Some (k, x)" by (force simp: core_inv_def)
    then have "tok_ok pe (ncore pe st) t k x" using L by (auto simp: core_inv_def)
    with True Lt tokens show ?thesis by (auto simp: tok_ok_def live_def ncore_def Let_def)
  next
    case False
    then have "L t = None" using no_token [OF L] by blast
    with False tokens show ?thesis by (auto simp: live_def ncore_def Let_def split: option.split)
  qed
qed

text \<open>The net engine of a demo, and a state of a run of it.\<close>

definition demo_net_state :: "sem_program \<Rightarrow> nat list \<Rightarrow> (petri_engine \<times> net_state) option" where
  "demo_net_state P ks = (case engine_with_monitor P demo_bounds (monitor_finite []) of
      Ok pe \<Rightarrow> (case run_from_start (petri_system (\<lambda>s. s) pe) ks of Some st \<Rightarrow> Some (pe, st) | None \<Rightarrow> None)
    | _ \<Rightarrow> None)"

lemma demo_net_stateD:
  "demo_net_state P ks = Some (pe, st) \<Longrightarrow> engine_with_monitor P demo_bounds (monitor_finite []) = Ok pe \<and>
     reachable (petri_system (\<lambda>s. s) pe) st"
  by (auto simp: demo_net_state_def split: outc.splits option.splits intro: run_reachable)

theorem tokens_conserved_witness:
  "\<exists>pe st k x. demo_net_state demo_lock_unlock [0] = Some (pe, st) \<and> thread_tokens pe st 0 = [(k, x)] \<and>
     tok_frame x = Some 0 \<and> net_mutex_at pe st 0 = Some (MHeld 0)"
proof -
  have "(case demo_net_state demo_lock_unlock [0] of Some (pe, st) \<Rightarrow> small_net pe \<and>
      map_option nt_stack (bt_get (nst_threads (ns_store st)) 0) = Some [0] \<and>
      0 \<notin> set (nst_finished (ns_store st)) \<and> net_mutex_at pe st 0 = Some (MHeld 0) | None \<Rightarrow> False)"
    by code_simp
  then obtain pe st th where d: "demo_net_state demo_lock_unlock [0] = Some (pe, st)" "small_net pe"
    and t: "bt_get (nst_threads (ns_store st)) 0 = Some th" "nt_stack th = [0]" "0 \<notin> set (nst_finished (ns_store st))"
    and m: "net_mutex_at pe st 0 = Some (MHeld 0)"
    by (auto split: option.splits prod.splits)
  note r = demo_net_stateD [OF d(1)]
  from tokens_conserved [OF r [THEN conjunct1] d(2) r [THEN conjunct2], of 0] t d m show ?thesis by auto
qed

subsection \<open>Finished states\<close>

text \<open>A reachable state of the net in which every thread has finished is final: no transition
  fires, under no binding of any tokens left on the places.\<close>

theorem net_finished_final:
  assumes "engine_with_monitor P bounds mon = Ok pe" "small_net pe" "reachable (petri_system esc pe) st"
    and "net_is_finished st"
  shows "\<not> sys_step (petri_system esc pe) st l st'"
proof
  from engine_wf [OF assms(1,2)] have wf: "net_wf pe" by auto
  assume "sys_step (petri_system esc pe) st l st'"
  from petri_step [OF this] obtain tr bind be where "(tr, bind) \<in> set (net_candidates pe st)"
    "net_fire pe st tr bind = Ok (Some st', be)" by blast
  from fired_live [OF wf net_reachable_inv [OF wf assms(3)] this] finished_not_live [OF assms(4)] show False by blast
qed


theorem net_finished_final_witness:
  "\<exists>pe st. demo_net_state demo_two_steps [0, 0, 0] = Some (pe, st) \<and> net_is_finished st \<and>
     (\<forall>l st'. \<not> sys_step (petri_system (\<lambda>s. s) pe) st l st')"
proof -
  have "(case demo_net_state demo_two_steps [0, 0, 0] of Some (pe, st) \<Rightarrow> small_net pe \<and> net_is_finished st
      | None \<Rightarrow> False)" by code_simp
  then obtain pe st where d: "demo_net_state demo_two_steps [0, 0, 0] = Some (pe, st)" "small_net pe" "net_is_finished st"
    by (auto split: option.splits prod.splits)
  note r = demo_net_stateD [OF d(1)]
  from net_finished_final [OF r [THEN conjunct1] d(2) r [THEN conjunct2] d(3)] d show ?thesis by blast
qed

subsection \<open>Departures\<close>




end
