(* ===== verification/Verify_Props.thy ===== *)
theory Verify_Props
  imports Validate Lowering Interp_Observe Net_System Validate_Props Demo_Programs Explore_Report
begin

text \<open>
  The checked entry point \<open>verify_program\<close> (\<open>src/src/explore/mod.rs\<close>): static validation, lowering,
  supportability, resolution of the contract, derivation of the monitors, and the verification on
  the chosen engine. The fingerprints of model and contract are not modelled.
\<close>

datatype engine_kind = Engine_Interpreter | Engine_Petri

text \<open>An early exit: the analysis never ran, the requested configuration is recorded.\<close>

definition finish_meta :: "'j contract_spec \<Rightarrow> report \<Rightarrow> report" where
  "finish_meta spec r = r\<lparr>rp_assumptions := cs_assumptions spec, rp_bounds := bounds_of_spec (cs_bounds spec)\<rparr>"

definition invalid_of_diag :: "diagnostic \<Rightarrow> invalid_rec" where
  "invalid_of_diag d = \<lparr>inv_code = dg_code d, inv_location = dg_location d\<rparr>"

definition invalid_report :: "invalid_rec list \<Rightarrow> report" where
  "invalid_report xs = (report_synthetic Invalid_Outcome True)\<lparr>rp_invalid := xs\<rparr>"

definition unsupported_report :: "unsupported_rec list \<Rightarrow> report" where
  "unsupported_report xs = (report_synthetic Unsupported_Outcome False)\<lparr>rp_unsupported := xs\<rparr>"

text \<open>What the program cannot be analysed for, its entry included.\<close>

definition program_unsupported :: "sem_program \<Rightarrow> unsupported_rec list backend_result" where
  "program_unsupported P = rbind (function_of P (p_entry P)) (\<lambda>ef.
     Ok (p_unsupported P @
       (if f_is_nobody ef \<and> \<not> is_transparent_nobody ef then [unsupported_new ''external entry function''] else [])))"

definition contract_monitor :: "'j contract \<Rightarrow> monitor_config" where
  "contract_monitor c = from_predicates (contract_predicates c)"

definition contract_interp :: "sem_program \<Rightarrow> 'j contract \<Rightarrow> interp" where
  "contract_interp P c = \<lparr>it_program = P, it_bounds = ct_bounds c, it_monitor = contract_monitor c\<rparr>"

fun verify_on :: "(string \<Rightarrow> string) \<Rightarrow> engine_kind \<Rightarrow> sem_program \<Rightarrow> 'j contract \<Rightarrow> report option backend_result" where
  "verify_on esc Engine_Interpreter P c = verify (interp_system esc (contract_interp P c)) c"
| "verify_on esc Engine_Petri P c = rbind (engine_with_monitor P (ct_bounds c) (contract_monitor c))
     (\<lambda>pe. verify (petri_system esc pe) c)"

definition verify_lowered ::
  "('j, 'x) json_kinds_scheme \<Rightarrow> (string \<Rightarrow> string) \<Rightarrow> sem_program \<Rightarrow> 'j contract_spec \<Rightarrow> engine_kind
     \<Rightarrow> report option backend_result" where
  "verify_lowered A esc P spec k = rbind (program_unsupported P) (\<lambda>us.
     if us \<noteq> [] then Ok (Some (unsupported_report us))
     else (case resolve_contract A P spec of
         Panic \<Rightarrow> Panic
       | Err e \<Rightarrow> Ok (Some (if contract_unsupported e then unsupported_report [unsupported_new ''contract'']
           else invalid_report [invalid_new ''C001'']))
       | Ok c \<Rightarrow> verify_on esc k P c))"

definition verify_program ::
  "('j, 'x) json_kinds_scheme \<Rightarrow> (string \<Rightarrow> string) \<Rightarrow> 'j program_decl \<Rightarrow> 'j contract_spec \<Rightarrow> engine_kind
     \<Rightarrow> report option backend_result" where
  "verify_program A esc p spec k = (case validate A p of
      None \<Rightarrow> Ok None
    | Some vr \<Rightarrow>
        if \<not> vr_valid vr then Ok (Some (finish_meta spec
          (invalid_report (map invalid_of_diag (filter is_error (vr_diagnostics vr))))))
        else (case lower A p of
            Panic \<Rightarrow> Panic
          | Err e \<Rightarrow> Ok (Some (finish_meta spec (invalid_report
              [\<lparr>inv_code = ''E100'', inv_location = error_location e\<rparr>])))
          | Ok P \<Rightarrow> rbind (verify_lowered A esc P spec k) (\<lambda>r. Ok (map_option (finish_meta spec) r))))"

section \<open>What a report says about the source\<close>

text \<open>
  What a report of \<open>verify_program\<close> says about the source program: the stages compose.
\<close>

definition contract_holds :: "'s tsystem \<Rightarrow> 'j contract \<Rightarrow> bool" where
  "contract_holds sys c \<longleftrightarrow> (\<forall>p\<in>set (ct_properties c). holds sys (pr_property p)) \<and>
     (\<forall>b\<in>set (ct_preserved c). preserved_holds sys (pb_behavior b))"

lemma pass_contract_holds:
  fixes sys :: "'s tsystem"
  assumes "verify sys c = Ok (Some rep)" "rp_outcome rep = Pass"
  shows "rp_complete rep \<and> rp_boundary_events rep = [] \<and> (key_sound sys \<longrightarrow> contract_holds sys c)"
proof -
  obtain init and s :: "'s search" where s: "ts_initial sys = Ok init" "complete_graph sys init (sr_graph s)"
    "rp_complete rep" "rp_boundary_events rep = []"
    "\<forall>p \<in> set (ct_properties c). \<exists>r ds. rs_outcome r = Pass \<and>
       check_property sys (sr_graph s) (pr_id p) (pr_property p) True = Ok (r, ds)"
    "\<forall>b \<in> set (ct_preserved c). \<exists>r ds. rs_outcome r = Pass \<and>
       check_preserved sys (sr_graph s) b True = Ok (r, ds)"
    by (rule verify_pass_parts [OF assms])
  from s(2) have g: "graph_ok sys init (sr_graph s)" by (simp add: complete_graph_def covered_def)
  have "contract_holds sys c" if "key_sound sys"
    using s(5,6) check_pass_sound [OF that g s(1) s(2)] preserved_pass_sound [OF that g s(1) s(2)]
    unfolding contract_holds_def by blast
  with s(3,4) show ?thesis by blast
qed

subsection \<open>Passing reports\<close>

lemma finish_meta_outcome [simp]: "rp_outcome (finish_meta spec r) = rp_outcome r"
  "rp_complete (finish_meta spec r) = rp_complete r" "rp_boundary_events (finish_meta spec r) = rp_boundary_events r"
  by (simp_all add: finish_meta_def)

lemma early_outcome [simp]: "rp_outcome (invalid_report xs) = Invalid_Outcome" "rp_outcome (unsupported_report us) = Unsupported_Outcome"
  by (simp_all add: invalid_report_def unsupported_report_def report_synthetic_def)

lemma verify_program_pass_parts:
  assumes "verify_program A esc p spec k = Ok (Some rep)" "rp_outcome rep = Pass"
  obtains vr P c r where "validate A p = Some vr" "vr_valid vr" "lower A p = Ok P" "program_unsupported P = Ok []"
    "resolve_contract A P spec = Ok c" "verify_on esc k P c = Ok (Some r)" "rep = finish_meta spec r" "rp_outcome r = Pass"
proof -
  from assms obtain vr where vr: "validate A p = Some vr"
    by (auto simp: verify_program_def split: option.splits)
  with assms have valid: "vr_valid vr" by (auto simp: verify_program_def split: if_splits)
  with vr assms obtain P where P: "lower A p = Ok P"
    by (cases "lower A p") (auto simp: verify_program_def)
  with vr valid assms obtain r where r: "verify_lowered A esc P spec k = Ok (Some r)" "rep = finish_meta spec r"
    by (auto simp: verify_program_def)
  with assms have pass: "rp_outcome r = Pass" by simp
  from r(1) obtain us where us: "program_unsupported P = Ok us" by (auto simp: verify_lowered_def)
  with r(1) pass have none: "us = []" by (auto simp: verify_lowered_def split: if_splits)
  with us r(1) pass obtain c where c: "resolve_contract A P spec = Ok c"
    by (cases "resolve_contract A P spec") (auto simp: verify_lowered_def split: if_splits)
  with us none r(1) have "verify_on esc k P c = Ok (Some r)" by (simp add: verify_lowered_def)
  with vr valid P us none c r(2) pass show thesis using that by blast
qed

text \<open>C9: The whole pipeline is sound: a report of \<open>verify_program\<close> that passes means that the source
  program is valid, that it lowers to a program without unsupported constructs, that the contract
  resolves against it, that the search on the chosen engine was complete and met no bound, and
  that every property and every preserved behaviour of the contract holds of that engine's
  transition system, provided its state key identifies states that behave alike.\<close>

theorem verify_program_sound:
  assumes "verify_program A esc p spec k = Ok (Some rep)" "rp_outcome rep = Pass"
  shows "\<exists>vr P c. validate A p = Some vr \<and> vr_valid vr \<and> lower A p = Ok P \<and> p_unsupported P = [] \<and>
    resolve_contract A P spec = Ok c \<and> rp_complete rep \<and> rp_boundary_events rep = [] \<and>
    (case k of
       Engine_Interpreter \<Rightarrow> key_sound (interp_system esc (contract_interp P c)) \<longrightarrow>
         contract_holds (interp_system esc (contract_interp P c)) c
     | Engine_Petri \<Rightarrow> \<exists>pe. engine_with_monitor P (ct_bounds c) (contract_monitor c) = Ok pe \<and>
         (key_sound (petri_system esc pe) \<longrightarrow> contract_holds (petri_system esc pe) c))"
proof -
  from assms obtain vr P c r where parts: "validate A p = Some vr" "vr_valid vr" "lower A p = Ok P"
    "program_unsupported P = Ok []" "resolve_contract A P spec = Ok c"
    and r: "verify_on esc k P c = Ok (Some r)" "rep = finish_meta spec r" "rp_outcome r = Pass"
    by (rule verify_program_pass_parts)
  have "p_unsupported P = []" using parts(4) by (auto simp: program_unsupported_def)
  moreover have "rp_complete r \<and> rp_boundary_events r = [] \<and> (case k of
       Engine_Interpreter \<Rightarrow> key_sound (interp_system esc (contract_interp P c)) \<longrightarrow>
         contract_holds (interp_system esc (contract_interp P c)) c
     | Engine_Petri \<Rightarrow> \<exists>pe. engine_with_monitor P (ct_bounds c) (contract_monitor c) = Ok pe \<and>
         (key_sound (petri_system esc pe) \<longrightarrow> contract_holds (petri_system esc pe) c))"
  proof (cases k)
    case Engine_Interpreter
    then show ?thesis using r(1) pass_contract_holds [OF _ r(3)] by simp
  next
    case Engine_Petri
    then obtain pe where "engine_with_monitor P (ct_bounds c) (contract_monitor c) = Ok pe"
      "verify (petri_system esc pe) c = Ok (Some r)" using r(1) by auto
    then show ?thesis using Engine_Petri pass_contract_holds [OF _ r(3)] by simp
  qed
  ultimately show ?thesis using parts r(2) by auto
qed

text \<open>A source program that locks, unlocks and returns, with a contract that asks for freedom from
  deadlock and for the mutex to become free again from everywhere.\<close>

definition src_lock :: "int program_decl" where
  "src_lock = src_program [] [(src_resource ''m'' ''sync'' ''Mutex'')\<lparr>rc_mode := Some ''Sync''\<rparr>]
     [src_fn ''main'' [AMutexLock ''m'', AMutexUnlock ''m'', AReturn None]]"

definition src_lock_spec :: "int contract_spec" where
  "src_lock_spec = \<lparr>cs_name = ''c'', cs_properties = [SpecDeadlockFree ''d'',
      SpecAlwaysReachable ''a'' (SpMutexFree ''app::m'')],
    cs_preserved = [SpecReachable ''r'' (SpMutexHeld ''m'')],
    cs_assumptions = assumptions_default, cs_bounds = \<lparr>bs_max_threads = 4,
      bs_max_frames_per_thread = 3, bs_max_states = 30, bs_max_depth = 20,
      bs_max_boundary_events = 3\<rparr>, cs_allowed_scope = patch_scope_unrestricted\<rparr>"

lemma src_lock_valid: "(case validate demo_kinds src_lock of Some r \<Rightarrow> vr_valid r | None \<Rightarrow> False)"
  by code_simp

definition src_lock_checks :: "sem_program \<Rightarrow> int contract \<Rightarrow> bool" where
  "src_lock_checks P c =
     (let sys = interp_system (\<lambda>s. s) (contract_interp P c) in
      closed_states sys (explored sys (ct_bounds c)) \<and> verdict_is sys c Pass \<and>
      map pr_property (ct_properties c) = [DeadlockFree, AlwaysReachable (MutexFree 0)] \<and>
      (case engine_with_monitor P (ct_bounds c) (contract_monitor c) of
         Ok pe \<Rightarrow> verdict_is (petri_system (\<lambda>s. s) pe) c Pass | _ \<Rightarrow> False))"

lemma src_lock_lowers:
  "(case lower demo_kinds src_lock of Ok P \<Rightarrow> program_unsupported P = Ok [] \<and>
     (case resolve_contract demo_kinds P src_lock_spec of Ok c \<Rightarrow> src_lock_checks P c | _ \<Rightarrow> False) | _ \<Rightarrow> False)"
  by code_simp

text \<open>The report passes on both engines.\<close>

lemma src_lock_reports:
  obtains P c rep rep' where "lower demo_kinds src_lock = Ok P" "resolve_contract demo_kinds P src_lock_spec = Ok c"
    "src_lock_checks P c"
    "verify_program demo_kinds (\<lambda>s. s) src_lock src_lock_spec Engine_Interpreter = Ok (Some rep)" "rp_outcome rep = Pass"
    "verify_program demo_kinds (\<lambda>s. s) src_lock src_lock_spec Engine_Petri = Ok (Some rep')" "rp_outcome rep' = Pass"
proof -
  from src_lock_valid obtain vr where vr: "validate demo_kinds src_lock = Some vr" "vr_valid vr"
    by (auto split: option.splits)
  from src_lock_lowers obtain P c where P: "lower demo_kinds src_lock = Ok P" "program_unsupported P = Ok []"
    "resolve_contract demo_kinds P src_lock_spec = Ok c" and checks: "src_lock_checks P c"
    by (auto split: outc.splits)
  from checks obtain r where r: "verify (interp_system (\<lambda>s. s) (contract_interp P c)) c = Ok (Some r)" "rp_outcome r = Pass"
    by (auto simp: src_lock_checks_def Let_def intro: verdict_report)
  from checks obtain pe r' where r': "engine_with_monitor P (ct_bounds c) (contract_monitor c) = Ok pe"
    "verify (petri_system (\<lambda>s. s) pe) c = Ok (Some r')" "rp_outcome r' = Pass"
    by (auto simp: src_lock_checks_def Let_def split: outc.splits intro: verdict_report)
  show thesis
    by (rule that [OF P(1,3) checks, of "finish_meta src_lock_spec r" "finish_meta src_lock_spec r'"])
      (use vr P r r' in \<open>simp_all add: verify_program_def verify_lowered_def\<close>)
qed

lemma src_lock_key_sound:
  "src_lock_checks P c \<Longrightarrow> key_sound (interp_system (\<lambda>s. s) (contract_interp P c))"
  by (auto simp: src_lock_checks_def Let_def intro: closed_key_sound)

theorem verify_program_sound_witness:
  "\<exists>P c. lower demo_kinds src_lock = Ok P \<and> resolve_contract demo_kinds P src_lock_spec = Ok c \<and>
     contract_holds (interp_system (\<lambda>s. s) (contract_interp P c)) c"
proof -
  obtain P c rep rep' where P: "lower demo_kinds src_lock = Ok P" "resolve_contract demo_kinds P src_lock_spec = Ok c"
    "src_lock_checks P c"
    and r: "verify_program demo_kinds (\<lambda>s. s) src_lock src_lock_spec Engine_Interpreter = Ok (Some rep)" "rp_outcome rep = Pass"
    by (rule src_lock_reports)
  from verify_program_sound [OF r] P src_lock_key_sound [OF P(3)] show ?thesis by auto
qed

subsection \<open>Liveness\<close>



end
