(* ===== verification/Repair_Patch.thy ===== *)
theory Repair_Patch
  imports Contract Ast
begin

text \<open>
  Structured patches (\<open>src/src/repair/patch.rs\<close>): a patch names a function, guards it by a content
  hash, and lists changes of its body; and what applying one does to a program. The JSON text that
  serde writes for a function is a parameter, as bytes. Texts of errors are not kept.
\<close>

unbundle bit_operations_syntax

subsection \<open>Patches\<close>

datatype patch_change = SwapStatements string string | DeleteStatement string

record cir_patch =
  cp_id :: string
  cp_module :: string
  cp_function :: string
  cp_original_hash :: string
  cp_changes :: "patch_change list"
  cp_provenance :: "string list"

datatype patch_error =
    UnknownModule string
  | UnknownFn string
  | HashMismatch string string
  | UnknownSid string
  | DuplicateChange
  | IllegalChange

text \<open>The texts that serde and the derived \<open>Debug\<close> write.\<close>

record 'j serial =
  ser_function :: "'j function_decl \<Rightarrow> 8 word list option"
  ser_program :: "'j program_decl \<Rightarrow> 8 word list option"
  ser_changes :: "patch_change list \<Rightarrow> string"
  debug_changes :: "patch_change list \<Rightarrow> string"

subsection \<open>Content hashes\<close>

text \<open>FNV-1a with 64 bits; the product wraps.\<close>

definition fnv_basis :: "64 word" where "fnv_basis = 0xcbf29ce484222325"
definition fnv_prime :: "64 word" where "fnv_prime = 0x100000001b3"

definition fnv1a :: "8 word list \<Rightarrow> 64 word" where
  "fnv1a bs = foldl (\<lambda>h b. (h XOR ucast b) * fnv_prime) fnv_basis bs"

definition hex_digit :: "nat \<Rightarrow> char" where
  "hex_digit d = char_of (if d < 10 then 48 + d else 87 + d)"

text \<open>\<open>{h:016x}\<close>.\<close>

definition hex16 :: "64 word \<Rightarrow> string" where
  "hex16 h = map (\<lambda>i. hex_digit (unat (drop_bit (4 * i) h AND 15))) (rev [0..<16])"

definition content_hash :: "8 word list \<Rightarrow> string" where
  "content_hash bs = hex16 (fnv1a bs)"

text \<open>The same on integers, for evaluation.\<close>

definition fnv_step :: "int \<Rightarrow> 8 word \<Rightarrow> int" where
  "fnv_step h b = (h XOR uint b) * 0x100000001b3 mod 18446744073709551616"

lemma uint_fnv: "uint (foldl (\<lambda>h b. (h XOR ucast b) * fnv_prime) h bs) = foldl fnv_step (uint h) bs"
proof (induction bs arbitrary: h)
  case (Cons b bs)
  have "uint (ucast b :: 64 word) = uint b" by (simp add: uint_up_ucast is_up)
  then have "uint ((h XOR ucast b) * fnv_prime) = fnv_step (uint h) b"
    by (simp add: fnv_step_def fnv_prime_def uint_word_arith_bintrs(3) take_bit_eq_mod uint_xor)
  with Cons show ?case by simp
qed simp

lemma hex_digit_at: "unat (drop_bit (4 * i) h AND 15 :: 64 word) = nat (uint h div 16 ^ i mod 16)"
proof -
  have "(15 :: 64 word) = mask 4" by (simp add: mask_eq_exp_minus_1)
  then have "drop_bit (4 * i) h AND 15 = take_bit 4 (drop_bit (4 * i) h)" by (simp add: take_bit_eq_mask)
  moreover have "take_bit 64 (uint h) = uint h"
    using uint_lt2p [of h] by (intro take_bit_int_eq_self) simp_all
  ultimately have "uint (drop_bit (4 * i) h AND 15) = take_bit 4 (drop_bit (4 * i) (uint h))"
    by (simp add: unsigned_take_bit_eq unsigned_drop_bit_eq)
  then show ?thesis
    by (simp add: drop_bit_eq_div take_bit_eq_mod power_mult flip: nat_uint_eq)
qed

fun hex_int :: "nat \<Rightarrow> int \<Rightarrow> string" where
  "hex_int 0 i = []"
| "hex_int (Suc n) i = hex_int n (i div 16) @ [hex_digit (nat (i mod 16))]"

lemma hex_int_digits: "hex_int n i = map (\<lambda>k. hex_digit (nat (i div 16 ^ k mod 16))) (rev [0..<n])"
proof (induction n arbitrary: i)
  case (Suc n)
  have "[0..<Suc n] = 0 # map Suc [0..<n]" by (simp only: map_Suc_upt upt_conv_Cons)
  moreover have "i div 16 div 16 ^ k = i div 16 ^ Suc k" for k by (simp add: zdiv_zmult2_eq)
  ultimately show ?case using Suc by (simp add: rev_map)
qed simp

lemma content_hash_int: "content_hash bs = hex_int 16 (foldl fnv_step 0xcbf29ce484222325 bs)"
proof -
  have "uint fnv_basis = 0xcbf29ce484222325" by (simp add: fnv_basis_def)
  then show ?thesis
    unfolding content_hash_def hex16_def hex_digit_at fnv1a_def hex_int_digits by (simp only: uint_fnv)
qed

lemma content_hash_code [code]:
  "content_hash [] = hex_int 16 0xcbf29ce484222325"
  "content_hash (b # bs) = hex_int 16 (foldl fnv_step (fnv_step 0xcbf29ce484222325 b) bs)"
  by (simp_all only: content_hash_int foldl.simps)

definition find_function ::
  "'j program_decl \<Rightarrow> string \<Rightarrow> string \<Rightarrow> (patch_error, 'j function_decl) outc" where
  "find_function p m f =
     rbind (ok_or (UnknownModule m) (lookup_module_decl p m)) (\<lambda>md.
       ok_or (UnknownFn f) (find (\<lambda>fd. fd_name fd = f) (md_functions md)))"

definition function_hash ::
  "('j, 'x) serial_scheme \<Rightarrow> 'j program_decl \<Rightarrow> string \<Rightarrow> string \<Rightarrow> (patch_error, string) outc" where
  "function_hash W p m f = rbind (find_function p m f) (\<lambda>fd.
     rbind (ok_or IllegalChange (ser_function W fd)) (\<lambda>bs. Ok (content_hash bs)))"

subsection \<open>Changes\<close>

definition is_control_target :: "'j function_decl \<Rightarrow> string \<Rightarrow> bool" where
  "is_control_target f sid = list_ex (\<lambda>s. case sm_op s of
      AGoto t \<Rightarrow> t = sid
    | ABranch _ t e \<Rightarrow> t = sid \<or> e = sid
    | ASwitch _ cases d \<Rightarrow> list_ex (\<lambda>t. t = sid) (bt_values cases) \<or> d = sid
    | ASelect bs d \<Rightarrow> list_ex (\<lambda>b. sb_target b = sid) bs \<or> d = Some sid
    | _ \<Rightarrow> False) (fd_body f)"

definition stmt_position :: "'j function_decl \<Rightarrow> string \<Rightarrow> (patch_error, nat) outc" where
  "stmt_position f sid = ok_or (UnknownSid sid) (position (\<lambda>s. sm_sid s = sid) (fd_body f))"

definition is_mutex_lock :: "op \<Rightarrow> bool" where
  "is_mutex_lock x = (case x of AMutexLock _ \<Rightarrow> True | _ \<Rightarrow> False)"

definition swap_at :: "nat \<Rightarrow> nat \<Rightarrow> 'a list \<Rightarrow> 'a list" where
  "swap_at i j xs = xs[i := xs ! j, j := xs ! i]"

definition apply_swap ::
  "'j function_decl \<Rightarrow> string \<Rightarrow> string \<Rightarrow> (patch_error, 'j function_decl) outc" where
  "apply_swap f a b =
     rbind (stmt_position f a) (\<lambda>ia. rbind (stmt_position f b) (\<lambda>ib.
     if ia = ib then Err IllegalChange
     else if \<not> is_mutex_lock (sm_op (fd_body f ! ia)) \<or> \<not> is_mutex_lock (sm_op (fd_body f ! ib)) then Err IllegalChange
     else if \<bar>int ia - int ib\<bar> \<noteq> 1 then Err IllegalChange
     else if is_control_target f a \<or> is_control_target f b then Err IllegalChange
     else Ok (f\<lparr>fd_body := swap_at ia ib (fd_body f)\<rparr>)))"

definition remove_at :: "nat \<Rightarrow> 'a list \<Rightarrow> 'a list" where
  "remove_at i xs = take i xs @ drop (Suc i) xs"

definition apply_delete :: "'j function_decl \<Rightarrow> string \<Rightarrow> (patch_error, 'j function_decl) outc" where
  "apply_delete f sid =
     rbind (stmt_position f sid) (\<lambda>i.
     if is_control (fd_body f ! i) then Err IllegalChange
     else if is_control_target f sid then Err IllegalChange
     else Ok (f\<lparr>fd_body := remove_at i (fd_body f)\<rparr>))"

fun change_ids :: "patch_change \<Rightarrow> string list" where
  "change_ids (SwapStatements a b) = [a, b]"
| "change_ids (DeleteStatement s) = [s]"

fun apply_change :: "patch_change \<Rightarrow> 'j function_decl \<Rightarrow> (patch_error, 'j function_decl) outc" where
  "apply_change (SwapStatements a b) f = apply_swap f a b"
| "apply_change (DeleteStatement s) f = apply_delete f s"

text \<open>The identifiers of one change, added to those touched before; \<open>None\<close> for a repeated one.\<close>

fun touch :: "string list \<Rightarrow> string list \<Rightarrow> string list option" where
  "touch [] touched = Some touched"
| "touch (i # ids) touched = (if i \<in> set touched then None else touch ids (i # touched))"

text \<open>The loop over the changes. \<open>seen\<close> holds the changes themselves where the code keeps their \<open>Debug\<close>
  texts, which differ for different changes.\<close>

fun apply_changes ::
  "patch_change list \<Rightarrow> patch_change list \<Rightarrow> string list \<Rightarrow> 'j function_decl \<Rightarrow> (patch_error, 'j function_decl) outc" where
  "apply_changes [] seen touched f = Ok f"
| "apply_changes (c # cs) seen touched f =
     (if c \<in> set seen then Err DuplicateChange
      else (case touch (change_ids c) touched of
          None \<Rightarrow> Err DuplicateChange
        | Some touched' \<Rightarrow> rbind (apply_change c f) (apply_changes cs (c # seen) touched')))"

fun diff_line :: "string \<Rightarrow> patch_change \<Rightarrow> string" where
  "diff_line f (SwapStatements a b) = ''- '' @ f @ '': swap '' @ a @ '' <-> '' @ b"
| "diff_line f (DeleteStatement s) = ''- '' @ f @ '': delete '' @ s"

definition render_diff :: "string \<Rightarrow> patch_change list \<Rightarrow> string" where
  "render_diff f cs = intercalate nl (map (diff_line f) cs)"

subsection \<open>Applying a patch\<close>

text \<open>A mutable borrow of the first element that satisfies a test, written back.\<close>

fun update_first :: "('a \<Rightarrow> bool) \<Rightarrow> ('a \<Rightarrow> 'a) \<Rightarrow> 'a list \<Rightarrow> 'a list" where
  "update_first p g [] = []"
| "update_first p g (x # xs) = (if p x then g x # xs else x # update_first p g xs)"

definition put_function :: "string \<Rightarrow> string \<Rightarrow> 'j function_decl \<Rightarrow> 'j program_decl \<Rightarrow> 'j program_decl" where
  "put_function m f fd p = p\<lparr>pg_modules := update_first (\<lambda>md. md_name md = m)
     (\<lambda>md. md\<lparr>md_functions := update_first (\<lambda>g. fd_name g = f) (\<lambda>_. fd) (md_functions md)\<rparr>) (pg_modules p)\<rparr>"

definition patch_apply ::
  "('j, 'x) serial_scheme \<Rightarrow> 'j program_decl \<Rightarrow> cir_patch \<Rightarrow> (patch_error, 'j program_decl \<times> string) outc" where
  "patch_apply W p c =
     rbind (function_hash W p (cp_module c) (cp_function c)) (\<lambda>actual.
     if actual \<noteq> cp_original_hash c then Err (HashMismatch (cp_original_hash c) actual)
     else rbind (find_function p (cp_module c) (cp_function c)) (\<lambda>f.
       rbind (apply_changes (cp_changes c) [] [] f) (\<lambda>f'.
         Ok (put_function (cp_module c) (cp_function c) f' p, render_diff (cp_function c) (cp_changes c)))))"

definition change_allowed :: "patch_scope \<Rightarrow> patch_change \<Rightarrow> bool" where
  "change_allowed s c = (case c of
      SwapStatements _ _ \<Rightarrow> sp_allow_lock_reorder s
    | DeleteStatement _ \<Rightarrow> sp_allow_statement_delete s)"

definition check_allowed :: "patch_scope \<Rightarrow> cir_patch \<Rightarrow> (patch_error, unit) outc" where
  "check_allowed s c =
     (if \<not> allows_module s (cp_module c) then Err IllegalChange
      else if \<not> allows_function s (cp_module c) (cp_function c) then Err IllegalChange
      else if \<not> list_all (change_allowed s) (cp_changes c) then Err IllegalChange
      else Ok ())"

end
