(* ===== verification/Repair_Loop.thy ===== *)
theory Repair_Loop
  imports Repair_Patch Verify_Props
begin

text \<open>
  The candidate providers (\<open>src/src/repair/candidates.rs\<close>) and the repair loop \<open>run_repair\<close>
  (\<open>src/src/repair/mod.rs\<close>). A provider is its state with the function \<open>next_candidate\<close>. Reading the
  patch file is input; the patches it holds are the state of the file provider. The reasons of the
  rounds are kept as data, not as text.
\<close>

subsection \<open>Contexts and providers\<close>

record node_history =
  nh_depth :: nat
  nh_edits :: "string list"
  nh_outcome :: outcome

record 'j repair_context =
  rc_program :: "'j program_decl"
  rc_spec :: "'j contract_spec"
  rc_round :: nat
  rc_depth :: nat
  rc_report :: "report option"
  rc_history :: "node_history list"

type_synonym ('p, 'j) provider = "'j repair_context \<Rightarrow> 'p \<Rightarrow> cir_patch option \<times> 'p"

definition relevant_resources :: "'j repair_context \<Rightarrow> string list" where
  "relevant_resources ctx = (case rc_report ctx of
      None \<Rightarrow> []
    | Some r \<Rightarrow> concat (map (\<lambda>d. List.map_filter br_resource_name (di_blocked d)) (rp_diagnostics r)))"

subsection \<open>Swaps of adjacent lock acquisitions\<close>

record lock_order =
  lo_targets :: "(string \<times> string \<times> string \<times> string) list"
  lo_cursor :: nat
  lo_use_diagnostics :: bool

definition swap_target ::
  "'j module_decl \<Rightarrow> 'j function_decl \<Rightarrow> nat \<Rightarrow> (string \<times> string \<times> string \<times> string) option" where
  "swap_target m f i =
     (let a = fd_body f ! i; b = fd_body f ! Suc i in
      case (sm_op a, sm_op b) of
        (AMutexLock ra, AMutexLock rb) \<Rightarrow>
          if ra = rb then None
          else if is_control_target f (sm_sid a) \<or> is_control_target f (sm_sid b) then None
          else Some (md_name m, fd_name f, sm_sid a, sm_sid b)
      | _ \<Rightarrow> None)"

definition lock_targets :: "'j program_decl \<Rightarrow> patch_scope \<Rightarrow> (string \<times> string \<times> string \<times> string) list" where
  "lock_targets p scope = concat (map (\<lambda>m. concat (map (\<lambda>f.
      if \<not> allows_function scope (md_name m) (fd_name f) then []
      else List.map_filter (swap_target m f) [0..<length (fd_body f) - 1]) (md_functions m))) (pg_modules p))"

definition lock_order_new :: "'j program_decl \<Rightarrow> patch_scope \<Rightarrow> lock_order" where
  "lock_order_new p scope = \<lparr>lo_targets = lock_targets p scope, lo_cursor = 0, lo_use_diagnostics = False\<rparr>"

definition composite_new :: "'j program_decl \<Rightarrow> patch_scope \<Rightarrow> bool \<Rightarrow> lock_order" where
  "composite_new p scope diag = \<lparr>lo_targets = lock_targets p scope, lo_cursor = 0, lo_use_diagnostics = diag\<rparr>"

definition swap_patch :: "string \<Rightarrow> string \<Rightarrow> string \<Rightarrow> string \<Rightarrow> string \<Rightarrow> string \<Rightarrow> cir_patch" where
  "swap_patch m f a b hash why =
     \<lparr>cp_id = ''lockorder:'' @ m @ '':'' @ f @ '':'' @ a @ ''-'' @ b, cp_module = m, cp_function = f,
      cp_original_hash = hash, cp_changes = [SwapStatements a b], cp_provenance = [why]\<rparr>"

definition hash_or_stop ::
  "('j, 'x) serial_scheme \<Rightarrow> 'j repair_context \<Rightarrow> string \<Rightarrow> string \<Rightarrow> (string \<Rightarrow> cir_patch) \<Rightarrow> cir_patch option" where
  "hash_or_stop W ctx m f mk = (case function_hash W (rc_program ctx) m f of Ok h \<Rightarrow> Some (mk h) | _ \<Rightarrow> None)"

definition lock_order_next :: "('j, 'x) serial_scheme \<Rightarrow> (lock_order, 'j) provider" where
  "lock_order_next W ctx s =
     (if lo_cursor s < length (lo_targets s) then
        (case lo_targets s ! lo_cursor s of (m, f, a, b) \<Rightarrow>
          (if \<not> sp_allow_lock_reorder (cs_allowed_scope (rc_spec ctx)) then None
           else hash_or_stop W ctx m f (\<lambda>h. swap_patch m f a b h
             ''unify lock acquisition order for adjacent mutex locks''),
           s\<lparr>lo_cursor := Suc (lo_cursor s)\<rparr>))
      else (None, s))"

definition lock_at :: "'j program_decl \<Rightarrow> string \<Rightarrow> 'j function_decl \<Rightarrow> string \<Rightarrow> string option" where
  "lock_at p m f sid = Option.bind (find (\<lambda>s. sm_sid s = sid) (fd_body f)) (\<lambda>s. case sm_op s of
      AMutexLock r \<Rightarrow> map_option (\<lambda>(owner, rd). fqn (md_name owner) (rc_name rd)) (lookup_resource_decl p m r)
    | _ \<Rightarrow> None)"

definition lock_pair_fqns ::
  "'j program_decl \<Rightarrow> string \<Rightarrow> string \<Rightarrow> string \<Rightarrow> string \<Rightarrow> (string \<times> string) option" where
  "lock_pair_fqns p m f a b = Option.bind (lookup_function_decl p m f) (\<lambda>(_, fd).
     Option.bind (lock_at p m fd a) (\<lambda>ra. map_option (Pair ra) (lock_at p m fd b)))"

text \<open>Whether diagnostics that name resources rule a swap out.\<close>

definition irrelevant_swap :: "string list \<Rightarrow> 'j program_decl \<Rightarrow> string \<times> string \<times> string \<times> string \<Rightarrow> bool" where
  "irrelevant_swap relevant p t = (case t of (m, f, a, b) \<Rightarrow> relevant \<noteq> [] \<and>
     (case lock_pair_fqns p m f a b of
        Some (ra, rb) \<Rightarrow> ra \<notin> set relevant \<and> rb \<notin> set relevant
      | None \<Rightarrow> False))"

text \<open>The cursor of the next target that is not ruled out, if any.\<close>

function composite_seek :: "string list \<Rightarrow> 'j program_decl \<Rightarrow> (string \<times> string \<times> string \<times> string) list \<Rightarrow> nat \<Rightarrow> nat" where
  "composite_seek relevant p ts i =
     (if i < length ts \<and> irrelevant_swap relevant p (ts ! i) then composite_seek relevant p ts (Suc i) else i)"
  by pat_completeness auto
termination by (relation "measure (\<lambda>(_, _, ts, i). length ts - i)") auto

declare composite_seek.simps [simp del]

definition composite_next :: "('j, 'x) serial_scheme \<Rightarrow> (lock_order, 'j) provider" where
  "composite_next W ctx s =
     (if \<not> sp_allow_lock_reorder (cs_allowed_scope (rc_spec ctx)) then (None, s)
      else
        let relevant = (if lo_use_diagnostics s then relevant_resources ctx else []);
            i = composite_seek relevant (rc_program ctx) (lo_targets s) (lo_cursor s) in
        if i < length (lo_targets s) then
          (case lo_targets s ! i of (m, f, a, b) \<Rightarrow>
            (hash_or_stop W ctx m f (\<lambda>h. swap_patch m f a b h
               (if lo_use_diagnostics s
                then ''heuristic: swap an adjacent mutex acquisition involving a blocked resource''
                else ''heuristic: swap an adjacent pair of mutex acquisitions'')),
             s\<lparr>lo_cursor := Suc i\<rparr>))
        else (None, s\<lparr>lo_cursor := i\<rparr>))"

subsection \<open>Patches from a file\<close>

record file_patch_spec =
  fs_module :: string
  fs_function :: string
  fs_id :: "string option"
  fs_original_hash :: "string option"
  fs_changes :: "patch_change list"
  fs_provenance :: "string list"

record file_provider =
  fp_patches :: "cir_patch list"
  fp_cursor :: nat

definition file_patch :: "nat \<Rightarrow> file_patch_spec \<Rightarrow> cir_patch" where
  "file_patch i s = \<lparr>cp_id = (case fs_id s of Some n \<Rightarrow> n | None \<Rightarrow> ''file['' @ show_nat i @ '']''),
     cp_module = fs_module s, cp_function = fs_function s,
     cp_original_hash = (case fs_original_hash s of Some h \<Rightarrow> h | None \<Rightarrow> []),
     cp_changes = fs_changes s, cp_provenance = fs_provenance s\<rparr>"

definition file_provider_new :: "file_patch_spec list \<Rightarrow> file_provider" where
  "file_provider_new specs = \<lparr>fp_patches = map (\<lambda>(i, s). file_patch i s) (enumerate 0 specs), fp_cursor = 0\<rparr>"

definition file_next :: "('j, 'x) serial_scheme \<Rightarrow> (file_provider, 'j) provider" where
  "file_next W ctx s =
     (if fp_cursor s < length (fp_patches s) then
        let c = fp_patches s ! fp_cursor s in
        (if cp_original_hash c = []
         then hash_or_stop W ctx (cp_module c) (cp_function c) (\<lambda>h. c\<lparr>cp_original_hash := h\<rparr>)
         else Some c, s\<lparr>fp_cursor := Suc (fp_cursor s)\<rparr>)
      else (None, s))"

subsection \<open>The repair loop\<close>

datatype repair_outcome = Repaired | Already_Satisfied | No_Acceptable_Candidate | Budget_Exhausted
  | Analysis_Unknown | Repair_Invalid | Repair_Unsupported | Invalid_Config

datatype round_reason = Duplicate_Candidate | Disallowed patch_error | Patch_Rejected patch_error
  | Static_Invalid nat | Lowering_Failed | Unsupported_Constructs "string list"
  | Contract_Unsupported | Contract_Unbound | Verified_Pass | Verification_Not_Passed

record round_record =
  rr_round :: nat
  rr_candidate :: string
  rr_accepted :: bool
  rr_reason :: round_reason
  rr_outcome :: "outcome option"
  rr_diff :: "string option"

record 'j repair_report =
  ra_outcome :: repair_outcome
  ra_tried :: nat
  ra_rounds :: "round_record list"
  ra_accepted :: "cir_patch option"
  ra_program :: "'j program_decl option"
  ra_report :: "report option"

definition content_key :: "('j, 'x) serial_scheme \<Rightarrow> cir_patch \<Rightarrow> string" where
  "content_key W c = cp_module c @ ''::'' @ cp_function c @ ''::'' @ ser_changes W (cp_changes c)"

definition reject_round :: "nat \<Rightarrow> cir_patch \<Rightarrow> round_reason \<Rightarrow> outcome option \<Rightarrow> string option \<Rightarrow> round_record" where
  "reject_round k c why oc d = \<lparr>rr_round = k, rr_candidate = cp_id c, rr_accepted = False, rr_reason = why,
     rr_outcome = oc, rr_diff = d\<rparr>"

text \<open>What becomes of one candidate that is no duplicate: rejected with a round, or accepted.\<close>

datatype 'j judged = Rejected round_record | Accepted "'j program_decl" report string

definition judge_lowered ::
  "('j, 'x) json_kinds_scheme \<Rightarrow> (string \<Rightarrow> string) \<Rightarrow> 'j contract_spec \<Rightarrow> nat \<Rightarrow> cir_patch \<Rightarrow> 'j program_decl
     \<Rightarrow> string \<Rightarrow> sem_program \<Rightarrow> 'j judged option backend_result" where
  "judge_lowered A esc spec k c p' diff P =
     (if p_unsupported P \<noteq> [] then
        Ok (Some (Rejected (reject_round k c (Unsupported_Constructs (map un_construct (p_unsupported P))) None (Some diff))))
      else (case resolve_contract A P spec of
          Panic \<Rightarrow> Panic
        | Err e \<Rightarrow> Ok (Some (Rejected (if contract_unsupported e
              then reject_round k c Contract_Unsupported (Some Unsupported_Outcome) (Some diff)
              else reject_round k c Contract_Unbound (Some Invalid_Outcome) (Some diff))))
        | Ok _ \<Rightarrow> rbind (verify_program A esc p' spec Engine_Petri) (\<lambda>r. case r of
              None \<Rightarrow> Ok None
            | Some rep \<Rightarrow> Ok (Some (if rp_outcome rep = Pass then Accepted p' rep diff
                else Rejected (reject_round k c Verification_Not_Passed (Some (rp_outcome rep)) (Some diff)))))))"

definition judge_candidate ::
  "('j, 'y) serial_scheme \<Rightarrow> ('j, 'x) json_kinds_scheme \<Rightarrow> (string \<Rightarrow> string) \<Rightarrow> 'j program_decl \<Rightarrow> 'j contract_spec
     \<Rightarrow> nat \<Rightarrow> cir_patch \<Rightarrow> 'j judged option backend_result" where
  "judge_candidate W A esc p spec k c = (case check_allowed (cs_allowed_scope spec) c of
      Panic \<Rightarrow> Panic
    | Err e \<Rightarrow> Ok (Some (Rejected (reject_round k c (Disallowed e) None None)))
    | Ok _ \<Rightarrow> (case patch_apply W p c of
        Panic \<Rightarrow> Panic
      | Err e \<Rightarrow> Ok (Some (Rejected (reject_round k c (Patch_Rejected e) None None)))
      | Ok (p', diff) \<Rightarrow> (case validate A p' of
          None \<Rightarrow> Ok None
        | Some vr \<Rightarrow>
            if \<not> vr_valid vr then Ok (Some (Rejected (reject_round k c
              (Static_Invalid (length (filter is_error (vr_diagnostics vr)))) None (Some diff))))
            else (case lower A p' of
                Panic \<Rightarrow> Panic
              | Err _ \<Rightarrow> Ok (Some (Rejected (reject_round k c Lowering_Failed None (Some diff))))
              | Ok P \<Rightarrow> judge_lowered A esc spec k c p' diff P))))"

record repair_state =
  rs_tried :: "string list"
  rs_count :: nat
  rs_rounds :: "round_record list"
  rs_unknown :: bool

definition repair_end :: "repair_outcome \<Rightarrow> repair_state \<Rightarrow> 'j repair_report" where
  "repair_end oc st = \<lparr>ra_outcome = (if rs_unknown st then Analysis_Unknown else oc), ra_tried = rs_count st,
     ra_rounds = rs_rounds st, ra_accepted = None, ra_program = None, ra_report = None\<rparr>"

definition repair_context_at :: "'j program_decl \<Rightarrow> 'j contract_spec \<Rightarrow> nat \<Rightarrow> 'j repair_context" where
  "repair_context_at p spec k = \<lparr>rc_program = p, rc_spec = spec, rc_round = k, rc_depth = 0,
     rc_report = None, rc_history = []\<rparr>"

definition add_round :: "round_record \<Rightarrow> repair_state \<Rightarrow> repair_state" where
  "add_round r st = st\<lparr>rs_rounds := rs_rounds st @ [r]\<rparr>"

text \<open>The rounds \<open>k\<close>, \<open>k + 1\<close>, \<open>...\<close>, as many as the first argument says.\<close>

fun repair_rounds ::
  "nat \<Rightarrow> ('j, 'y) serial_scheme \<Rightarrow> ('j, 'x) json_kinds_scheme \<Rightarrow> (string \<Rightarrow> string) \<Rightarrow> ('p, 'j) provider
     \<Rightarrow> 'j program_decl \<Rightarrow> 'j contract_spec \<Rightarrow> nat \<Rightarrow> 'p \<Rightarrow> repair_state \<Rightarrow> 'j repair_report option backend_result" where
  "repair_rounds 0 W A esc nxt p spec k ps st = Ok (Some (repair_end Budget_Exhausted st))"
| "repair_rounds (Suc n) W A esc nxt p spec k ps st =
     (case nxt (repair_context_at p spec k) ps of
        (None, _) \<Rightarrow> Ok (Some (repair_end No_Acceptable_Candidate st))
      | (Some c, ps') \<Rightarrow>
          if content_key W c \<in> set (rs_tried st)
          then repair_rounds n W A esc nxt p spec (Suc k) ps'
            (add_round (reject_round k c Duplicate_Candidate None None) st)
          else
            let st1 = st\<lparr>rs_tried := content_key W c # rs_tried st, rs_count := Suc (rs_count st)\<rparr> in
            rbind (judge_candidate W A esc p spec k c) (\<lambda>j. case j of
                None \<Rightarrow> Ok None
              | Some (Accepted p' rep diff) \<Rightarrow> Ok (Some \<lparr>ra_outcome = Repaired, ra_tried = rs_count st1,
                  ra_rounds = rs_rounds st1 @ [\<lparr>rr_round = k, rr_candidate = cp_id c, rr_accepted = True,
                    rr_reason = Verified_Pass, rr_outcome = Some Pass, rr_diff = Some diff\<rparr>],
                  ra_accepted = Some c, ra_program = Some p', ra_report = Some rep\<rparr>)
              | Some (Rejected r) \<Rightarrow> repair_rounds n W A esc nxt p spec (Suc k) ps'
                  (add_round r (st1\<lparr>rs_unknown := rs_unknown st1 \<or> rr_outcome r = Some Unknown\<rparr>))))"

definition run_repair ::
  "('j, 'y) serial_scheme \<Rightarrow> ('j, 'x) json_kinds_scheme \<Rightarrow> (string \<Rightarrow> string) \<Rightarrow> ('p, 'j) provider
     \<Rightarrow> 'j program_decl \<Rightarrow> 'j contract_spec \<Rightarrow> 'p \<Rightarrow> nat \<Rightarrow> 'j repair_report option backend_result" where
  "run_repair W A esc nxt p spec ps budget = repair_rounds budget W A esc nxt p spec 0 ps
     \<lparr>rs_tried = [], rs_count = 0, rs_rounds = [], rs_unknown = False\<rparr>"

end
