(* ===== verification/Repair_Search.thy ===== *)
theory Repair_Search
  imports Repair_Loop
begin

text \<open>
  The budgeted search for a chain of patches (\<open>run_search\<close> of \<open>src/src/repair/search.rs\<close>): nodes are
  verified programs, proposals are patches of a node's program. The outer loop runs with fuel, one
  unit for each node that can be queued. The identity of the binary, the text that tells how to
  reproduce a run and the replay of a stored artifact are not modelled, but for the terminal facts
  that the replay derives.
\<close>

datatype repair_strategy = Single | Composite | Diagnostic

record search_config =
  sc_strategy :: repair_strategy
  sc_candidate_budget :: nat
  sc_verification_budget :: nat
  sc_max_depth :: nat
  sc_max_total_edits :: nat

definition search_config_default :: search_config where
  "search_config_default = \<lparr>sc_strategy = Diagnostic, sc_candidate_budget = 64,
     sc_verification_budget = 64, sc_max_depth = 4, sc_max_total_edits = 4\<rparr>"

record applied_edit =
  ae_module :: string
  ae_function :: string
  ae_changes :: "patch_change list"
  ae_provenance :: "string list"
  ae_original_hash :: string
  ae_parent_fp :: string
  ae_program_fp :: string

record node_report =
  nr_id :: nat
  nr_parent :: "nat option"
  nr_depth :: nat
  nr_total_edits :: nat
  nr_fingerprint :: string
  nr_incoming :: "applied_edit option"
  nr_report :: report
  nr_note :: "string option"

record attempt_report =
  am_id :: nat
  am_parent :: nat
  am_patch :: "cir_patch option"
  am_result :: string
  am_reused :: "nat option"
  am_fingerprint :: "string option"
  am_outcome :: "outcome option"

record 'j search_report =
  sp_strategy :: repair_strategy
  sp_outcome :: repair_outcome
  sp_stop_reason :: string
  sp_saw_unknown :: bool
  sp_truncation :: "string option"
  sp_bounds :: analysis_bounds
  sp_proposals :: nat
  sp_unique_programs :: nat
  sp_verifications :: nat
  sp_cache_hits :: nat
  sp_states :: nat
  sp_nodes :: "node_report list"
  sp_attempts :: "attempt_report list"
  sp_chain :: "applied_edit list"
  sp_accepted_node :: "nat option"
  sp_program :: "'j program_decl option"
  sp_report :: "report option"

definition program_fingerprint :: "('j, 'x) serial_scheme \<Rightarrow> 'j program_decl \<Rightarrow> string" where
  "program_fingerprint W p = content_hash (case ser_program W p of Some bs \<Rightarrow> bs | None \<Rightarrow> [])"

record 'j search_node =
  sn_parent :: "nat option"
  sn_depth :: nat
  sn_total_edits :: nat
  sn_program :: "'j program_decl"
  sn_fingerprint :: string
  sn_report :: report
  sn_incoming :: "cir_patch option"

definition empty_report :: "repair_strategy \<Rightarrow> repair_outcome \<Rightarrow> string \<Rightarrow> analysis_bounds \<Rightarrow> 'j search_report" where
  "empty_report s oc why b = \<lparr>sp_strategy = s, sp_outcome = oc, sp_stop_reason = why, sp_saw_unknown = False,
     sp_truncation = None, sp_bounds = b, sp_proposals = 0, sp_unique_programs = 0, sp_verifications = 0,
     sp_cache_hits = 0, sp_states = 0, sp_nodes = [], sp_attempts = [], sp_chain = [], sp_accepted_node = None,
     sp_program = None, sp_report = None\<rparr>"

subsection \<open>The terminal classification\<close>

record terminal_facts =
  tf_root_unknown :: bool
  tf_candidate_budget_hit :: bool
  tf_verification_budget_hit :: bool
  tf_depth_truncated :: bool
  tf_edits_truncated :: bool
  tf_saw_unknown :: bool

definition classify :: "terminal_facts \<Rightarrow> repair_outcome \<times> string \<times> string option" where
  "classify t =
     (if tf_root_unknown t then (Analysis_Unknown, ''root-unknown'', None)
      else if tf_candidate_budget_hit t then (Budget_Exhausted, ''candidate-budget'', None)
      else if tf_verification_budget_hit t then (Budget_Exhausted, ''verification-budget'', None)
      else if tf_depth_truncated t \<and> tf_edits_truncated t then
        (Budget_Exhausted, ''max-depth+max-total-edits'', Some ''max-depth+max-total-edits'')
      else if tf_depth_truncated t then (Budget_Exhausted, ''max-depth'', Some ''max-depth'')
      else if tf_edits_truncated t then (Budget_Exhausted, ''max-total-edits'', Some ''max-total-edits'')
      else if tf_saw_unknown t then (Analysis_Unknown, ''analysis-unknown'', None)
      else (No_Acceptable_Candidate, ''no-acceptable-candidate'', None))"

definition node_is_expandable :: "repair_strategy \<Rightarrow> node_report \<Rightarrow> bool" where
  "node_is_expandable s n \<longleftrightarrow> rp_outcome (nr_report n) = Fail \<and> (nr_id n = 0 \<or> s \<noteq> Single)"

text \<open>\<open>derive_terminal_facts\<close>: the facts read off a recorded run.\<close>

definition derive_terminal_facts :: "search_config \<Rightarrow> 'j search_report \<Rightarrow> terminal_facts" where
  "derive_terminal_facts cfg r =
     (let nodes = sp_nodes r; expandable = node_is_expandable (sc_strategy cfg);
          vhit = list_ex (\<lambda>x. am_result x = ''budget-blocked'') (sp_attempts r);
          can_expand = list_ex (\<lambda>n. expandable n \<and> nr_depth n < sc_max_depth cfg \<and>
            nr_total_edits n < sc_max_total_edits cfg) nodes
      in \<lparr>tf_root_unknown = (case nodes of [n] \<Rightarrow> rp_outcome (nr_report n) = Unknown | _ \<Rightarrow> False),
          tf_candidate_budget_hit = (\<not> vhit \<and> sp_proposals r \<ge> sc_candidate_budget cfg \<and> can_expand),
          tf_verification_budget_hit = vhit,
          tf_depth_truncated = list_ex (\<lambda>n. expandable n \<and> nr_depth n \<ge> sc_max_depth cfg) nodes,
          tf_edits_truncated = list_ex (\<lambda>n. expandable n \<and> nr_depth n < sc_max_depth cfg \<and>
            nr_total_edits n \<ge> sc_max_total_edits cfg) nodes,
          tf_saw_unknown = list_ex (\<lambda>n. rp_outcome (nr_report n) = Unknown) nodes\<rparr>)"

subsection \<open>The state of the search\<close>

record 'j search_state =
  sh_nodes :: "'j search_node list"
  sh_reports :: "node_report list"
  sh_attempts :: "attempt_report list"
  sh_by_fp :: "(string, nat) btree"
  sh_proposals :: nat
  sh_verifications :: nat
  sh_cache_hits :: nat
  sh_states :: nat
  sh_candidate_hit :: bool
  sh_verification_hit :: bool
  sh_depth_truncated :: bool
  sh_edits_truncated :: bool
  sh_saw_unknown :: bool
  sh_queue :: "nat list"

definition search_finish ::
  "search_config \<Rightarrow> analysis_bounds \<Rightarrow> repair_outcome \<Rightarrow> string \<Rightarrow> string option \<Rightarrow> 'j search_state
     \<Rightarrow> applied_edit list \<Rightarrow> 'j program_decl option \<Rightarrow> report option \<Rightarrow> 'j search_report" where
  "search_finish cfg b oc why trunc st chain p r = \<lparr>sp_strategy = sc_strategy cfg, sp_outcome = oc,
     sp_stop_reason = why, sp_saw_unknown = sh_saw_unknown st, sp_truncation = trunc, sp_bounds = b,
     sp_proposals = sh_proposals st, sp_unique_programs = length (sh_nodes st),
     sp_verifications = sh_verifications st, sp_cache_hits = sh_cache_hits st, sp_states = sh_states st,
     sp_nodes = sh_reports st, sp_attempts = sh_attempts st, sp_chain = chain, sp_accepted_node = None,
     sp_program = p, sp_report = r\<rparr>"

definition node_from_report ::
  "nat \<Rightarrow> nat option \<Rightarrow> nat \<Rightarrow> nat \<Rightarrow> string \<Rightarrow> applied_edit option \<Rightarrow> report \<Rightarrow> node_report" where
  "node_from_report i parent d e fp inc r = \<lparr>nr_id = i, nr_parent = parent, nr_depth = d, nr_total_edits = e,
     nr_fingerprint = fp, nr_incoming = inc, nr_report = r, nr_note = None\<rparr>"

definition applied_edit_of ::
  "('j, 'x) serial_scheme \<Rightarrow> cir_patch \<Rightarrow> string \<Rightarrow> string \<Rightarrow> 'j program_decl \<Rightarrow> applied_edit" where
  "applied_edit_of W c pfp cfp parent = \<lparr>ae_module = cp_module c, ae_function = cp_function c,
     ae_changes = cp_changes c, ae_provenance = cp_provenance c,
     ae_original_hash = (case function_hash W parent (cp_module c) (cp_function c) of
         Ok h \<Rightarrow> h | _ \<Rightarrow> cp_original_hash c),
     ae_parent_fp = pfp, ae_program_fp = cfp\<rparr>"

text \<open>The way from the root to a node. Parents come before their children, so the number of nodes
  bounds the way.\<close>

fun ancestor_ids :: "nat \<Rightarrow> 'j search_node list \<Rightarrow> nat \<Rightarrow> nat list" where
  "ancestor_ids 0 nodes i = []"
| "ancestor_ids (Suc n) nodes i = i # (case sn_parent (nodes ! i) of None \<Rightarrow> [] | Some j \<Rightarrow> ancestor_ids n nodes j)"

definition way_to :: "'j search_node list \<Rightarrow> nat \<Rightarrow> nat list" where
  "way_to nodes i = rev (ancestor_ids (length nodes) nodes i)"

definition edit_text :: "('j, 'x) serial_scheme \<Rightarrow> cir_patch \<Rightarrow> string" where
  "edit_text W c = cp_module c @ '':'' @ cp_function c @ '':'' @ debug_changes W (cp_changes c)"

definition ancestor_history :: "('j, 'x) serial_scheme \<Rightarrow> 'j search_node list \<Rightarrow> nat \<Rightarrow> node_history list" where
  "ancestor_history W nodes nid = map (\<lambda>i. let n = nodes ! i in
     \<lparr>nh_depth = sn_depth n, nh_edits = (case sn_incoming n of None \<Rightarrow> [] | Some c \<Rightarrow> [edit_text W c]),
      nh_outcome = rp_outcome (sn_report n)\<rparr>) (way_to nodes nid)"

definition chain_edit :: "('j, 'x) serial_scheme \<Rightarrow> 'j search_node list \<Rightarrow> nat \<Rightarrow> applied_edit option" where
  "chain_edit W nodes i = (let n = nodes ! i in map_option (\<lambda>c.
     applied_edit_of W c (case sn_parent n of Some p \<Rightarrow> sn_fingerprint (nodes ! p) | None \<Rightarrow> [])
       (sn_fingerprint n) (case sn_parent n of Some p \<Rightarrow> sn_program (nodes ! p) | None \<Rightarrow> sn_program n))
     (sn_incoming n))"

definition build_chain :: "('j, 'x) serial_scheme \<Rightarrow> 'j search_node list \<Rightarrow> nat \<Rightarrow> applied_edit list" where
  "build_chain W nodes target = List.map_filter (chain_edit W nodes) (way_to nodes target)"

definition patch_from_edit :: "string \<Rightarrow> applied_edit \<Rightarrow> cir_patch" where
  "patch_from_edit i e = \<lparr>cp_id = i, cp_module = ae_module e, cp_function = ae_function e,
     cp_original_hash = ae_original_hash e, cp_changes = ae_changes e, cp_provenance = ae_provenance e\<rparr>"

subsection \<open>One proposal\<close>

datatype attempt_flow = Reused nat outcome | Verified nat bool | Declined string | Budget_Blocked string

definition add_node ::
  "'j search_node \<Rightarrow> applied_edit option \<Rightarrow> string option \<Rightarrow> 'j search_state \<Rightarrow> 'j search_state" where
  "add_node n inc note st = (let i = length (sh_nodes st) in
     st\<lparr>sh_nodes := sh_nodes st @ [n], sh_by_fp := bt_insert (sn_fingerprint n) i (sh_by_fp st),
        sh_reports := sh_reports st @ [(node_from_report i (sn_parent n) (sn_depth n) (sn_total_edits n)
          (sn_fingerprint n) inc (sn_report n))\<lparr>nr_note := note\<rparr>]\<rparr>)"

definition report_accepted :: "report \<Rightarrow> bool" where
  "report_accepted r \<longleftrightarrow> rp_outcome r = Pass \<and> rp_complete r"

definition child_node ::
  "'j search_state \<Rightarrow> string \<Rightarrow> cir_patch \<Rightarrow> 'j program_decl \<Rightarrow> string \<Rightarrow> report \<Rightarrow> 'j search_node" where
  "child_node st pfp c p' cfp r =
     (let parent = (case bt_get (sh_by_fp st) pfp of Some i \<Rightarrow> i | None \<Rightarrow> 0); pn = sh_nodes st ! parent in
      \<lparr>sn_parent = Some parent, sn_depth = Suc (sn_depth pn),
       sn_total_edits = sn_total_edits pn + length (cp_changes c), sn_program = p', sn_fingerprint = cfp,
       sn_report = r, sn_incoming = Some c\<rparr>)"

definition child_note :: "report \<Rightarrow> string option" where
  "child_note r = (if report_accepted r then Some ''accepted'' else if rp_outcome r = Fail then None
     else if rp_outcome r = Unknown then Some ''analysis unknown; not expanded'' else Some ''not expanded'')"

definition attempt_verify ::
  "('j, 'y) serial_scheme \<Rightarrow> ('j, 'x) json_kinds_scheme \<Rightarrow> (string \<Rightarrow> string) \<Rightarrow> 'j contract_spec \<Rightarrow> 'j search_node
     \<Rightarrow> cir_patch \<Rightarrow> 'j program_decl \<Rightarrow> 'j search_state \<Rightarrow> (attempt_flow \<times> 'j search_state) option backend_result" where
  "attempt_verify W A esc spec node c p' st =
     rbind (verify_program A esc p' spec Engine_Petri) (\<lambda>r. case r of
        None \<Rightarrow> Ok None
      | Some rep \<Rightarrow>
          let cfp = program_fingerprint W p';
              st1 = st\<lparr>sh_verifications := Suc (sh_verifications st),
                sh_states := sh_states st + rp_states_explored rep\<rparr>
          in Ok (Some (Verified (length (sh_nodes st)) (report_accepted rep),
            add_node (child_node st1 (sn_fingerprint node) c p' cfp rep)
              (Some (applied_edit_of W c (sn_fingerprint node) cfp (sn_program node))) (child_note rep) st1)))"

definition attempt_outcome ::
  "('j, 'y) serial_scheme \<Rightarrow> ('j, 'x) json_kinds_scheme \<Rightarrow> (string \<Rightarrow> string) \<Rightarrow> 'j contract_spec \<Rightarrow> search_config
     \<Rightarrow> 'j search_node \<Rightarrow> cir_patch \<Rightarrow> 'j search_state \<Rightarrow> (attempt_flow \<times> 'j search_state) option backend_result" where
  "attempt_outcome W A esc spec cfg node c st = (case check_allowed (cs_allowed_scope spec) c of
      Panic \<Rightarrow> Panic
    | Err _ \<Rightarrow> Ok (Some (Declined ''denied'', st))
    | Ok _ \<Rightarrow> (case patch_apply W (sn_program node) c of
        Panic \<Rightarrow> Panic
      | Err _ \<Rightarrow> Ok (Some (Declined ''apply-error'', st))
      | Ok (p', _) \<Rightarrow> (case validate A p' of
          None \<Rightarrow> Ok None
        | Some vr \<Rightarrow>
            if \<not> vr_valid vr then Ok (Some (Declined ''static-invalid'', st))
            else (case bt_get (sh_by_fp st) (program_fingerprint W p') of
                Some i \<Rightarrow> Ok (Some (Reused i (rp_outcome (sn_report (sh_nodes st ! i))), st))
              | None \<Rightarrow>
                  if sh_verifications st \<ge> sc_verification_budget cfg
                  then Ok (Some (Budget_Blocked (program_fingerprint W p'), st\<lparr>sh_verification_hit := True\<rparr>))
                  else attempt_verify W A esc spec node c p' st))))"

definition add_attempt ::
  "nat \<Rightarrow> cir_patch \<Rightarrow> string \<Rightarrow> nat option \<Rightarrow> string option \<Rightarrow> outcome option \<Rightarrow> 'j search_state \<Rightarrow> 'j search_state" where
  "add_attempt nid c res reused fp oc st = st\<lparr>sh_attempts := sh_attempts st @ [\<lparr>am_id = length (sh_attempts st),
     am_parent = nid, am_patch = Some c, am_result = res, am_reused = reused, am_fingerprint = fp,
     am_outcome = oc\<rparr>]\<rparr>"

subsection \<open>Expanding a node\<close>

text \<open>How a proposal or the expansion of a node ends: go on, leave all loops, or the accepted node.\<close>

datatype 'st search_flow = Go 'st | Leave 'st | Found nat 'st

definition after_verified :: "search_config \<Rightarrow> nat \<Rightarrow> 'j search_state \<Rightarrow> 'j search_state" where
  "after_verified cfg i st = (let oc = rp_outcome (sn_report (sh_nodes st ! i)) in
     if oc = Fail then (if sc_strategy cfg \<noteq> Single then st\<lparr>sh_queue := sh_queue st @ [i]\<rparr> else st)
     else if oc = Unknown then st\<lparr>sh_saw_unknown := True\<rparr> else st)"

definition record_attempt ::
  "search_config \<Rightarrow> nat \<Rightarrow> cir_patch \<Rightarrow> attempt_flow \<Rightarrow> 'j search_state \<Rightarrow> 'j search_state search_flow" where
  "record_attempt cfg nid c fl st = (case fl of
      Reused i oc \<Rightarrow> Go (add_attempt nid c ''reused'' (Some i) (Some (sn_fingerprint (sh_nodes st ! i))) (Some oc)
        (st\<lparr>sh_cache_hits := Suc (sh_cache_hits st)\<rparr>))
    | Verified i acc \<Rightarrow>
        let n = sh_nodes st ! i;
            st1 = add_attempt nid c ''verified'' None (Some (sn_fingerprint n)) (Some (rp_outcome (sn_report n))) st
        in if acc then Found i st1 else Go (after_verified cfg i st1)
    | Declined res \<Rightarrow> Go (add_attempt nid c res None None None st)
    | Budget_Blocked fp \<Rightarrow> Leave (add_attempt nid c ''budget-blocked'' None (Some fp) None st))"

definition strategy_provider ::
  "('j, 'y) serial_scheme \<Rightarrow> repair_strategy \<Rightarrow> 'j program_decl \<Rightarrow> patch_scope \<Rightarrow> (lock_order, 'j) provider \<times> lock_order" where
  "strategy_provider W s p scope = (case s of
      Single \<Rightarrow> (lock_order_next W, lock_order_new p scope)
    | Composite \<Rightarrow> (composite_next W, composite_new p scope False)
    | Diagnostic \<Rightarrow> (composite_next W, composite_new p scope True))"

definition search_context ::
  "('j, 'y) serial_scheme \<Rightarrow> 'j contract_spec \<Rightarrow> 'j search_node list \<Rightarrow> nat \<Rightarrow> 'j repair_context" where
  "search_context W spec nodes nid = (let n = nodes ! nid in
     \<lparr>rc_program = sn_program n, rc_spec = spec, rc_round = sn_depth n, rc_depth = sn_depth n,
      rc_report = Some (sn_report n), rc_history = ancestor_history W nodes nid\<rparr>)"

text \<open>The inner loop. The first argument is what is left of the candidate budget.\<close>

fun propose ::
  "nat \<Rightarrow> ('j, 'y) serial_scheme \<Rightarrow> ('j, 'x) json_kinds_scheme \<Rightarrow> (string \<Rightarrow> string) \<Rightarrow> 'j contract_spec \<Rightarrow> search_config
     \<Rightarrow> ('p, 'j) provider \<Rightarrow> 'j repair_context \<Rightarrow> nat \<Rightarrow> 'j search_node \<Rightarrow> 'p \<Rightarrow> 'j search_state
     \<Rightarrow> 'j search_state search_flow option backend_result" where
  "propose 0 W A esc spec cfg nxt ctx nid node ps st = Ok (Some (Leave (st\<lparr>sh_candidate_hit := True\<rparr>)))"
| "propose (Suc n) W A esc spec cfg nxt ctx nid node ps st = (case nxt ctx ps of
      (None, _) \<Rightarrow> Ok (Some (Go st))
    | (Some c, ps') \<Rightarrow>
        rbind (attempt_outcome W A esc spec cfg node c (st\<lparr>sh_proposals := Suc (sh_proposals st)\<rparr>)) (\<lambda>r. case r of
            None \<Rightarrow> Ok None
          | Some (fl, st1) \<Rightarrow> (case record_attempt cfg nid c fl st1 of
                Go st2 \<Rightarrow> propose n W A esc spec cfg nxt ctx nid node ps' st2
              | fl' \<Rightarrow> Ok (Some fl'))))"

definition note_node :: "nat \<Rightarrow> string \<Rightarrow> 'j search_state \<Rightarrow> 'j search_state" where
  "note_node nid note st = st\<lparr>sh_reports := update_first (\<lambda>r. nr_id r = nid) (\<lambda>r. r\<lparr>nr_note := Some note\<rparr>) (sh_reports st)\<rparr>"

definition expand_node ::
  "('j, 'y) serial_scheme \<Rightarrow> ('j, 'x) json_kinds_scheme \<Rightarrow> (string \<Rightarrow> string) \<Rightarrow> 'j contract_spec \<Rightarrow> search_config
     \<Rightarrow> nat \<Rightarrow> 'j search_state \<Rightarrow> 'j search_state search_flow option backend_result" where
  "expand_node W A esc spec cfg nid st = (let node = sh_nodes st ! nid in
     if sn_depth node \<ge> sc_max_depth cfg
     then Ok (Some (Go (note_node nid ''not expanded: max_depth'' (st\<lparr>sh_depth_truncated := True\<rparr>))))
     else if sn_total_edits node \<ge> sc_max_total_edits cfg
     then Ok (Some (Go (note_node nid ''not expanded: max_total_edits'' (st\<lparr>sh_edits_truncated := True\<rparr>))))
     else (case strategy_provider W (sc_strategy cfg) (sn_program node) (cs_allowed_scope spec) of (nxt, ps) \<Rightarrow>
       propose (sc_candidate_budget cfg - sh_proposals st) W A esc spec cfg nxt
         (search_context W spec (sh_nodes st) nid) nid node ps st))"

text \<open>The outer loop; \<open>None\<close> when the fuel runs out.\<close>

fun search_nodes ::
  "nat \<Rightarrow> ('j, 'y) serial_scheme \<Rightarrow> ('j, 'x) json_kinds_scheme \<Rightarrow> (string \<Rightarrow> string) \<Rightarrow> 'j contract_spec \<Rightarrow> search_config
     \<Rightarrow> 'j search_state \<Rightarrow> 'j search_state search_flow option backend_result" where
  "search_nodes fuel W A esc spec cfg st = (case sh_queue st of
      [] \<Rightarrow> Ok (Some (Leave st))
    | nid # rest \<Rightarrow> (case fuel of
        0 \<Rightarrow> Ok None
      | Suc n \<Rightarrow> rbind (expand_node W A esc spec cfg nid (st\<lparr>sh_queue := rest\<rparr>)) (\<lambda>r. case r of
            Some (Go st') \<Rightarrow> search_nodes n W A esc spec cfg st'
          | fl \<Rightarrow> Ok fl)))"

declare search_nodes.simps [simp del]

subsection \<open>The search\<close>

definition search_start :: "('j, 'y) serial_scheme \<Rightarrow> 'j program_decl \<Rightarrow> report \<Rightarrow> 'j search_state" where
  "search_start W p r = (let fp = program_fingerprint W p in
     add_node \<lparr>sn_parent = None, sn_depth = 0, sn_total_edits = 0, sn_program = p, sn_fingerprint = fp,
         sn_report = r, sn_incoming = None\<rparr> None None
       \<lparr>sh_nodes = [], sh_reports = [], sh_attempts = [], sh_by_fp = [], sh_proposals = 0,
        sh_verifications = 1, sh_cache_hits = 0, sh_states = rp_states_explored r, sh_candidate_hit = False,
        sh_verification_hit = False, sh_depth_truncated = False, sh_edits_truncated = False,
        sh_saw_unknown = (rp_outcome r = Unknown), sh_queue = [0]\<rparr>)"

definition live_facts :: "'j search_state \<Rightarrow> terminal_facts" where
  "live_facts st = \<lparr>tf_root_unknown = False, tf_candidate_budget_hit = sh_candidate_hit st,
     tf_verification_budget_hit = sh_verification_hit st, tf_depth_truncated = sh_depth_truncated st,
     tf_edits_truncated = sh_edits_truncated st, tf_saw_unknown = sh_saw_unknown st\<rparr>"

definition search_end ::
  "('j, 'y) serial_scheme \<Rightarrow> search_config \<Rightarrow> analysis_bounds \<Rightarrow> 'j search_state search_flow \<Rightarrow> 'j search_report" where
  "search_end W cfg b fl = (case fl of
      Found i st \<Rightarrow> (search_finish cfg b Repaired ''solved'' None st (build_chain W (sh_nodes st) i)
        (Some (sn_program (sh_nodes st ! i))) (Some (sn_report (sh_nodes st ! i))))\<lparr>sp_accepted_node := Some i\<rparr>
    | Leave st \<Rightarrow> (case classify (live_facts st) of (oc, why, trunc) \<Rightarrow> search_finish cfg b oc why trunc st [] None None)
    | Go st \<Rightarrow> (case classify (live_facts st) of (oc, why, trunc) \<Rightarrow> search_finish cfg b oc why trunc st [] None None))"

definition run_search ::
  "('j, 'y) serial_scheme \<Rightarrow> ('j, 'x) json_kinds_scheme \<Rightarrow> (string \<Rightarrow> string) \<Rightarrow> 'j program_decl \<Rightarrow> 'j contract_spec
     \<Rightarrow> search_config \<Rightarrow> 'j search_report option backend_result" where
  "run_search W A esc p spec cfg = (let b = bounds_of_spec (cs_bounds spec) in
     if sc_verification_budget cfg = 0
     then Ok (Some (empty_report (sc_strategy cfg) Invalid_Config ''verification-budget-zero'' b))
     else rbind (verify_program A esc p spec Engine_Petri) (\<lambda>r. case r of
        None \<Rightarrow> Ok None
      | Some rep \<Rightarrow>
          let st = search_start W p rep; stop = (\<lambda>oc why. Ok (Some (search_finish cfg b oc why None st [] None None))) in
          if report_accepted rep then stop Already_Satisfied ''already-satisfied''
          else if rp_outcome rep = Invalid_Outcome then stop Repair_Invalid ''root-invalid''
          else if rp_outcome rep = Unsupported_Outcome then stop Repair_Unsupported ''root-unsupported''
          else if rp_outcome rep = Unknown then stop Analysis_Unknown ''root-unknown''
          else rbind (search_nodes (sc_verification_budget cfg) W A esc spec cfg st) (\<lambda>fl.
            Ok (map_option (search_end W cfg b) fl))))"

end
