(* ===== verification/Patch_Laws.thy ===== *)
theory Patch_Laws
  imports Repair_Patch "HOL-Library.Multiset"
begin

text \<open>
  What a patch does: it rearranges or drops ordinary statements of one function, and every jump of
  the function still leads to the same statement; a swap undoes itself.
\<close>

subsection \<open>Lists with two elements exchanged, or one removed\<close>

lemma mset_swap_at: "i < length xs \<Longrightarrow> j < length xs \<Longrightarrow> mset (swap_at i j xs) = mset xs"
  by (simp add: swap_at_def mset_swap)

lemma filter_update:
  "i < length xs \<Longrightarrow> \<not> P (xs ! i) \<Longrightarrow> \<not> P y \<Longrightarrow> filter P (xs[i := y]) = filter P xs"
  by (induction xs arbitrary: i) (auto split: nat.splits)

lemma filter_swap_at:
  "i < length xs \<Longrightarrow> j < length xs \<Longrightarrow> \<not> P (xs ! i) \<Longrightarrow> \<not> P (xs ! j) \<Longrightarrow> filter P (swap_at i j xs) = filter P xs"
  by (cases "i = j") (simp_all add: swap_at_def filter_update)

lemma swap_at_commute: "i \<noteq> j \<Longrightarrow> swap_at i j xs = swap_at j i xs"
  by (simp add: swap_at_def list_update_swap)

lemma swap_at_twice: "i < length xs \<Longrightarrow> j < length xs \<Longrightarrow> swap_at j i (swap_at i j xs) = xs"
  by (cases "i = j") (auto simp: swap_at_def list_eq_iff_nth_eq nth_list_update)

lemma remove_at_parts: "i < length xs \<Longrightarrow> xs = take i xs @ xs ! i # drop (Suc i) xs"
  by (rule id_take_nth_drop)

lemma filter_remove_at: "i < length xs \<Longrightarrow> \<not> P (xs ! i) \<Longrightarrow> filter P (remove_at i xs) = filter P xs"
  unfolding remove_at_def
  by (metis append_self_conv2 filter.simps(2) filter_append remove_at_parts)

lemma mset_remove_at: "mset (remove_at i xs) \<subseteq># mset xs"
proof (cases "i < length xs")
  case True
  have "mset xs = mset (remove_at i xs) + {#xs ! i#}"
    by (subst remove_at_parts [OF True]) (simp add: remove_at_def)
  then show ?thesis by simp
qed (simp add: remove_at_def)

subsection \<open>One change\<close>

lemma control_target_iff:
  "is_control_target f t \<longleftrightarrow> (\<exists>s\<in>set (filter is_control (fd_body f)). t \<in> set (stmt_successors s None))"
  unfolding is_control_target_def list_ex_iff
  by (rule iffI; elim bexE; rule_tac x = s in bexI)
    (auto simp: is_control_def stmt_successors_def list_ex_iff split: op.splits option.splits)

definition jumps_kept :: "stmt list \<Rightarrow> stmt list \<Rightarrow> bool" where
  "jumps_kept xs ys \<longleftrightarrow> filter is_control ys = filter is_control xs \<and>
     (\<forall>s\<in>set xs. \<forall>t\<in>set (stmt_successors s None). is_control s \<longrightarrow>
        filter (\<lambda>s. sm_sid s = t) ys = filter (\<lambda>s. sm_sid s = t) xs)"

lemma jumps_kept_refl [simp]: "jumps_kept xs xs"
  by (simp add: jumps_kept_def)

lemma jumps_kept_trans: "jumps_kept xs ys \<Longrightarrow> jumps_kept ys zs \<Longrightarrow> jumps_kept xs zs"
proof -
  assume xy: "jumps_kept xs ys" and yz: "jumps_kept ys zs"
  have "s \<in> set ys" if "s \<in> set xs" "is_control s" for s
  proof -
    have "s \<in> set (filter is_control xs)" using that by simp
    then have "s \<in> set (filter is_control ys)" using xy by (simp only: jumps_kept_def)
    then show ?thesis by simp
  qed
  with xy yz show "jumps_kept xs zs" by (auto simp: jumps_kept_def)
qed

lemma position_sid: "stmt_position f s = Ok i \<Longrightarrow> i < length (fd_body f) \<and> sm_sid (fd_body f ! i) = s \<and>
    (\<forall>k<i. sm_sid (fd_body f ! k) \<noteq> s)"
  by (auto simp: stmt_position_def dest: position_Some)

lemma mutex_lock_plain: "is_mutex_lock (sm_op s) \<Longrightarrow> \<not> is_control s"
  by (auto simp: is_mutex_lock_def is_control_def split: op.splits)

lemma swap_effect:
  assumes "apply_swap f a b = Ok f'"
  obtains i j where "stmt_position f a = Ok i" "stmt_position f b = Ok j" "i \<noteq> j"
    "is_mutex_lock (sm_op (fd_body f ! i))" "is_mutex_lock (sm_op (fd_body f ! j))" "\<bar>int i - int j\<bar> = 1"
    "\<not> is_control_target f a" "\<not> is_control_target f b" "f' = f\<lparr>fd_body := swap_at i j (fd_body f)\<rparr>"
  using assms by (auto simp: apply_swap_def split: if_splits)

lemma target_kept:
  assumes "\<not> is_control_target f a" "s \<in> set (fd_body f)" "is_control s" "t \<in> set (stmt_successors s None)"
  shows "t \<noteq> a"
  using assms by (auto simp: control_target_iff)

lemma apply_change_effect:
  assumes "apply_change c f = Ok f'"
  shows "\<exists>body. f' = f\<lparr>fd_body := body\<rparr> \<and> mset body \<subseteq># mset (fd_body f) \<and> jumps_kept (fd_body f) body \<and>
    ((\<exists>a b. c = SwapStatements a b) \<longrightarrow> mset body = mset (fd_body f))"
proof (cases c)
  case (SwapStatements a b)
  with assms obtain i j where ij: "stmt_position f a = Ok i" "stmt_position f b = Ok j"
    "is_mutex_lock (sm_op (fd_body f ! i))" "is_mutex_lock (sm_op (fd_body f ! j))"
    "\<not> is_control_target f a" "\<not> is_control_target f b" "f' = f\<lparr>fd_body := swap_at i j (fd_body f)\<rparr>"
    by (auto elim: swap_effect)
  note p = position_sid [OF ij(1)] position_sid [OF ij(2)]
  have "jumps_kept (fd_body f) (swap_at i j (fd_body f))"
    using p mutex_lock_plain [OF ij(3)] mutex_lock_plain [OF ij(4)] target_kept [OF ij(5)] target_kept [OF ij(6)]
    unfolding jumps_kept_def by (blast intro: filter_swap_at)
  then show ?thesis using ij(7) p by (intro exI [of _ "swap_at i j (fd_body f)"]) (simp add: mset_swap_at)
next
  case (DeleteStatement d)
  with assms obtain i where i: "stmt_position f d = Ok i" "\<not> is_control (fd_body f ! i)" "\<not> is_control_target f d"
    "f' = f\<lparr>fd_body := remove_at i (fd_body f)\<rparr>"
    by (auto simp: apply_delete_def split: if_splits)
  note p = position_sid [OF i(1)]
  have "jumps_kept (fd_body f) (remove_at i (fd_body f))"
    using p i(2) target_kept [OF i(3)] unfolding jumps_kept_def by (blast intro: filter_remove_at)
  then show ?thesis using i(4) DeleteStatement
    by (intro exI [of _ "remove_at i (fd_body f)"]) (simp add: mset_remove_at)
qed

lemma apply_changes_effect:
  assumes "apply_changes cs seen touched f = Ok f'"
  shows "\<exists>body. f' = f\<lparr>fd_body := body\<rparr> \<and> mset body \<subseteq># mset (fd_body f) \<and> jumps_kept (fd_body f) body \<and>
    ((\<forall>c\<in>set cs. \<exists>a b. c = SwapStatements a b) \<longrightarrow> mset body = mset (fd_body f))"
  using assms
proof (induction cs seen touched f rule: apply_changes.induct)
  case (1 seen touched f)
  then show ?case by (intro exI [of _ "fd_body f"]) simp
next
  case (2 c cs seen touched f)
  then obtain touched' g where t: "touch (change_ids c) touched = Some touched'" "c \<notin> set seen"
    "apply_change c f = Ok g" "apply_changes cs (c # seen) touched' g = Ok f'"
    by (auto split: if_splits option.splits)
  from apply_change_effect [OF t(3)] obtain b where b: "g = f\<lparr>fd_body := b\<rparr>" "mset b \<subseteq># mset (fd_body f)"
    "jumps_kept (fd_body f) b" "(\<exists>x y. c = SwapStatements x y) \<longrightarrow> mset b = mset (fd_body f)" by blast
  from "2.IH" [OF t(2,1,3,4)] b(1) obtain b' where "f' = f\<lparr>fd_body := b'\<rparr>" "mset b' \<subseteq># mset b"
    "jumps_kept b b'" "(\<forall>c\<in>set cs. \<exists>x y. c = SwapStatements x y) \<longrightarrow> mset b' = mset b" by auto
  with b show ?case by (intro exI [of _ b']) (auto intro: jumps_kept_trans)
qed

subsection \<open>A patch\<close>

text \<open>The function that a patch names: the first of its name in the first module of its name.\<close>

definition splits_at :: "('a \<Rightarrow> bool) \<Rightarrow> 'a list \<Rightarrow> 'a list \<Rightarrow> 'a \<Rightarrow> 'a list \<Rightarrow> bool" where
  "splits_at P xs as x bs \<longleftrightarrow> xs = as @ x # bs \<and> (\<forall>a\<in>set as. \<not> P a) \<and> P x"

lemma find_splits: "find P xs = Some x \<Longrightarrow> \<exists>as bs. splits_at P xs as x bs"
proof (induction xs)
  case (Cons y ys)
  show ?case
  proof (cases "P y")
    case False
    with Cons obtain as bs where "splits_at P ys as x bs" by auto
    with False show ?thesis by (intro exI [of _ "y # as"] exI [of _ bs]) (simp add: splits_at_def)
  qed (use Cons.prems in \<open>auto simp: splits_at_def intro: exI [of _ "[]"]\<close>)
qed simp

lemma splits_find: "splits_at P xs as x bs \<Longrightarrow> find P xs = Some x"
proof -
  have "(\<forall>a\<in>set as. \<not> P a) \<Longrightarrow> P x \<Longrightarrow> find P (as @ x # bs) = Some x" by (induction as) auto
  then show "splits_at P xs as x bs \<Longrightarrow> find P xs = Some x" by (auto simp: splits_at_def)
qed

lemma splits_update: "splits_at P xs as x bs \<Longrightarrow> update_first P g xs = as @ g x # bs"
proof -
  have "(\<forall>a\<in>set as. \<not> P a) \<Longrightarrow> P x \<Longrightarrow> update_first P g (as @ x # bs) = as @ g x # bs" by (induction as) auto
  then show "splits_at P xs as x bs \<Longrightarrow> update_first P g xs = as @ g x # bs" by (auto simp: splits_at_def)
qed

definition located_function ::
  "'j program_decl \<Rightarrow> string \<Rightarrow> string \<Rightarrow> 'j module_decl list \<Rightarrow> 'j module_decl \<Rightarrow> 'j module_decl list
     \<Rightarrow> 'j function_decl list \<Rightarrow> 'j function_decl \<Rightarrow> 'j function_decl list \<Rightarrow> bool" where
  "located_function p m f ms1 md ms2 fs1 fd fs2 \<longleftrightarrow>
     splits_at (\<lambda>x. md_name x = m) (pg_modules p) ms1 md ms2 \<and>
     splits_at (\<lambda>x. fd_name x = f) (md_functions md) fs1 fd fs2"

lemma find_function_located:
  "find_function p m f = Ok fd \<Longrightarrow> \<exists>ms1 md ms2 fs1 fs2. located_function p m f ms1 md ms2 fs1 fd fs2"
  by (auto simp: find_function_def lookup_module_decl_def located_function_def dest!: find_splits)

lemma located_find: "located_function p m f ms1 md ms2 fs1 fd fs2 \<Longrightarrow> find_function p m f = Ok fd"
  by (auto simp: find_function_def lookup_module_decl_def located_function_def dest!: splits_find)

lemma located_put:
  assumes "located_function p m f ms1 md ms2 fs1 fd fs2" "fd_name g = f"
  shows "put_function m f g p = p\<lparr>pg_modules := ms1 @ md\<lparr>md_functions := fs1 @ g # fs2\<rparr> # ms2\<rparr>"
    "located_function (put_function m f g p) m f ms1 (md\<lparr>md_functions := fs1 @ g # fs2\<rparr>) ms2 fs1 g fs2"
proof -
  from assms(1) show put: "put_function m f g p = p\<lparr>pg_modules := ms1 @ md\<lparr>md_functions := fs1 @ g # fs2\<rparr> # ms2\<rparr>"
    unfolding put_function_def located_function_def
    by (elim conjE) (simp only: splits_update)
  show "located_function (put_function m f g p) m f ms1 (md\<lparr>md_functions := fs1 @ g # fs2\<rparr>) ms2 fs1 g fs2"
    unfolding put using assms by (simp add: located_function_def splits_at_def)
qed

lemma patch_apply_parts:
  assumes "patch_apply W p c = Ok (p', d)"
  obtains f g where "find_function p (cp_module c) (cp_function c) = Ok f"
    "function_hash W p (cp_module c) (cp_function c) = Ok (cp_original_hash c)"
    "apply_changes (cp_changes c) [] [] f = Ok g" "p' = put_function (cp_module c) (cp_function c) g p"
    "d = render_diff (cp_function c) (cp_changes c)"
  using assms by (auto simp: patch_apply_def split: if_splits)

text \<open>The text of a patch does not matter, only what it names.\<close>

lemma patch_apply_cong:
  assumes "cp_module c = cp_module c'" "cp_function c = cp_function c'"
    "cp_original_hash c = cp_original_hash c'" "cp_changes c = cp_changes c'"
  shows "patch_apply W p c = patch_apply W p c'"
  unfolding patch_apply_def assms by (rule refl)

subsection \<open>Undoing a swap\<close>

lemma position_first:
  "i < length xs \<Longrightarrow> P (xs ! i) \<Longrightarrow> (\<And>k. k < i \<Longrightarrow> \<not> P (xs ! k)) \<Longrightarrow> position P xs = Some i"
proof -
  assume a: "i < length xs" "P (xs ! i)" "\<And>k. k < i \<Longrightarrow> \<not> P (xs ! k)"
  then obtain j where j: "position P xs = Some j" using position_None [of P xs] by (metis nth_mem option.exhaust)
  from position_Some [OF this] a have "\<not> j < i" "\<not> i < j" by auto
  then show "position P xs = Some i" using j by simp
qed

lemma apply_swap_again:
  assumes "apply_swap f a b = Ok f'"
  shows "apply_swap f' a b = Ok f"
proof -
  from assms obtain i j where s: "stmt_position f a = Ok i" "stmt_position f b = Ok j" "i \<noteq> j"
    "is_mutex_lock (sm_op (fd_body f ! i))" "is_mutex_lock (sm_op (fd_body f ! j))" "\<bar>int i - int j\<bar> = 1"
    "\<not> is_control_target f a" "\<not> is_control_target f b" "f' = f\<lparr>fd_body := swap_at i j (fd_body f)\<rparr>"
    by (rule swap_effect)
  note p = position_sid [OF s(1)] position_sid [OF s(2)]
  have adj: "j = Suc i \<or> i = Suc j" using s(6) by arith
  have neq: "a \<noteq> b" using s(1-3) by auto
  let ?xs = "swap_at i j (fd_body f)"
  have at: "?xs ! i = fd_body f ! j" "?xs ! j = fd_body f ! i" "length ?xs = length (fd_body f)"
    "\<And>k. k \<noteq> i \<Longrightarrow> k \<noteq> j \<Longrightarrow> ?xs ! k = fd_body f ! k"
    using p s(3) by (auto simp: swap_at_def nth_list_update)
  have "sm_sid (?xs ! k) \<noteq> a" if "k < j" for k
    using that adj p at neq by (cases "k = i") (auto simp: less_Suc_eq)
  then have pa: "stmt_position f' a = Ok j"
    using p at by (simp add: stmt_position_def s(9) position_first)
  have "sm_sid (?xs ! k) \<noteq> b" if "k < i" for k
    using that adj p at neq by (cases "k = j") (auto simp: less_Suc_eq)
  then have pb: "stmt_position f' b = Ok i"
    using p at by (simp add: stmt_position_def s(9) position_first)
  have plain: "\<not> is_control (fd_body f ! i)" "\<not> is_control (fd_body f ! j)"
    using s(4,5) mutex_lock_plain by auto
  have "filter is_control ?xs = filter is_control (fd_body f)" using p plain by (simp add: filter_swap_at)
  then have "\<not> is_control_target f' a" "\<not> is_control_target f' b"
    using s(7,8) by (simp_all add: control_target_iff s(9))
  then show ?thesis using pa pb s(3-6) at p
    by (simp add: apply_swap_def s(9) abs_minus_commute swap_at_twice)
qed

end
