(* ===== verification/Search_Laws.thy ===== *)
theory Search_Laws
  imports Repair_Search Patch_Laws
begin

text \<open>
  The invariant of the repair search: every node is a verified program that its chain of allowed
  patches leads to, fingerprints index the nodes, and the queue with the nodes taken off it are
  exactly the nodes that may be expanded. It gives that the search returns, that an accepted chain
  replays, and that the terminal facts can be read off the record.
\<close>

subsection \<open>Nodes\<close>

definition child_ok ::
  "('j, 'y) serial_scheme \<Rightarrow> ('j, 'x) json_kinds_scheme \<Rightarrow> 'j contract_spec \<Rightarrow> search_config
     \<Rightarrow> 'j search_node \<Rightarrow> 'j search_node \<Rightarrow> bool" where
  "child_ok W A spec cfg pn n \<longleftrightarrow> (\<exists>c d vr. sn_incoming n = Some c \<and>
     check_allowed (cs_allowed_scope spec) c = Ok () \<and> patch_apply W (sn_program pn) c = Ok (sn_program n, d) \<and>
     validate A (sn_program n) = Some vr \<and> vr_valid vr \<and>
     sn_depth n = Suc (sn_depth pn) \<and> sn_depth pn < sc_max_depth cfg \<and>
     sn_total_edits n = sn_total_edits pn + length (cp_changes c) \<and> sn_total_edits pn < sc_max_total_edits cfg)"

definition snode_ok ::
  "('j, 'y) serial_scheme \<Rightarrow> ('j, 'x) json_kinds_scheme \<Rightarrow> (string \<Rightarrow> string) \<Rightarrow> 'j program_decl \<Rightarrow> 'j contract_spec
     \<Rightarrow> search_config \<Rightarrow> 'j search_node list \<Rightarrow> nat \<Rightarrow> bool" where
  "snode_ok W A esc p spec cfg nodes i \<longleftrightarrow> (let n = nodes ! i in
     sn_fingerprint n = program_fingerprint W (sn_program n) \<and>
     verify_program A esc (sn_program n) spec Engine_Petri = Ok (Some (sn_report n)) \<and>
     (case sn_parent n of
        None \<Rightarrow> i = 0 \<and> sn_incoming n = None \<and> sn_program n = p \<and> sn_depth n = 0 \<and> sn_total_edits n = 0
      | Some j \<Rightarrow> j < i \<and> child_ok W A spec cfg (nodes ! j) n))"

definition report_matches :: "nat \<Rightarrow> 'j search_node \<Rightarrow> node_report \<Rightarrow> bool" where
  "report_matches i n r \<longleftrightarrow> nr_id r = i \<and> nr_depth r = sn_depth n \<and> nr_total_edits r = sn_total_edits n \<and>
     nr_report r = sn_report n"

definition nodes_inv ::
  "('j, 'y) serial_scheme \<Rightarrow> ('j, 'x) json_kinds_scheme \<Rightarrow> (string \<Rightarrow> string) \<Rightarrow> 'j program_decl \<Rightarrow> 'j contract_spec
     \<Rightarrow> search_config \<Rightarrow> 'j search_state \<Rightarrow> bool" where
  "nodes_inv W A esc p spec cfg st \<longleftrightarrow> sh_nodes st \<noteq> [] \<and>
     (\<forall>i<length (sh_nodes st). snode_ok W A esc p spec cfg (sh_nodes st) i) \<and>
     (\<forall>fp i. bt_get (sh_by_fp st) fp = Some i \<longleftrightarrow> i < length (sh_nodes st) \<and> sn_fingerprint (sh_nodes st ! i) = fp) \<and>
     length (sh_nodes st) = sh_verifications st \<and> sh_verifications st \<le> sc_verification_budget cfg \<and>
     sh_proposals st \<le> sc_candidate_budget cfg \<and> length (sh_reports st) = length (sh_nodes st) \<and>
     (\<forall>i<length (sh_nodes st). report_matches i (sh_nodes st ! i) (sh_reports st ! i))"

definition expandable_at :: "search_config \<Rightarrow> 'j search_node list \<Rightarrow> nat \<Rightarrow> bool" where
  "expandable_at cfg nodes i \<longleftrightarrow> i < length nodes \<and> rp_outcome (sn_report (nodes ! i)) = Fail \<and>
     (i = 0 \<or> sc_strategy cfg \<noteq> Single)"

definition blocked_attempt :: "'j search_state \<Rightarrow> bool" where
  "blocked_attempt st \<longleftrightarrow> (\<exists>x\<in>set (sh_attempts st). am_result x = ''budget-blocked'')"

definition unknown_seen :: "'j search_state \<Rightarrow> bool" where
  "unknown_seen st \<longleftrightarrow> (\<exists>n\<in>set (sh_nodes st). rp_outcome (sn_report n) = Unknown)"

text \<open>\<open>D\<close> are the nodes taken off the queue so far.\<close>

definition queue_inv :: "search_config \<Rightarrow> nat set \<Rightarrow> 'j search_state \<Rightarrow> bool" where
  "queue_inv cfg D st \<longleftrightarrow> distinct (sh_queue st) \<and> set (sh_queue st) \<inter> D = {} \<and> finite D \<and>
     D \<union> set (sh_queue st) = {i. expandable_at cfg (sh_nodes st) i} \<and>
     sh_saw_unknown st = unknown_seen st \<and>
     sh_depth_truncated st = (\<exists>i\<in>D. sn_depth (sh_nodes st ! i) \<ge> sc_max_depth cfg) \<and>
     sh_edits_truncated st = (\<exists>i\<in>D. sn_depth (sh_nodes st ! i) < sc_max_depth cfg \<and>
       sn_total_edits (sh_nodes st ! i) \<ge> sc_max_total_edits cfg) \<and>
     \<not> sh_candidate_hit st \<and> \<not> sh_verification_hit st \<and> \<not> blocked_attempt st"

definition within_bounds :: "search_config \<Rightarrow> 'j search_node \<Rightarrow> bool" where
  "within_bounds cfg n \<longleftrightarrow> sn_depth n < sc_max_depth cfg \<and> sn_total_edits n < sc_max_total_edits cfg"

subsection \<open>Adding a node\<close>

lemma snode_ok_append:
  assumes "snode_ok W A esc p spec cfg nodes i" "i < length nodes"
  shows "snode_ok W A esc p spec cfg (nodes @ [n]) i"
  using assms by (auto simp: snode_ok_def Let_def nth_append split: option.splits)

lemma add_node_simps [simp]:
  "sh_nodes (add_node n inc note st) = sh_nodes st @ [n]"
  "sh_attempts (add_node n inc note st) = sh_attempts st"
  "sh_by_fp (add_node n inc note st) = bt_insert (sn_fingerprint n) (length (sh_nodes st)) (sh_by_fp st)"
  "sh_proposals (add_node n inc note st) = sh_proposals st"
  "sh_verifications (add_node n inc note st) = sh_verifications st"
  "sh_candidate_hit (add_node n inc note st) = sh_candidate_hit st"
  "sh_verification_hit (add_node n inc note st) = sh_verification_hit st"
  "sh_depth_truncated (add_node n inc note st) = sh_depth_truncated st"
  "sh_edits_truncated (add_node n inc note st) = sh_edits_truncated st"
  "sh_saw_unknown (add_node n inc note st) = sh_saw_unknown st"
  "sh_queue (add_node n inc note st) = sh_queue st"
  by (simp_all add: add_node_def Let_def)

lemma add_node_reports:
  assumes "length (sh_reports st) = length (sh_nodes st)"
    and "\<forall>i<length (sh_nodes st). report_matches i (sh_nodes st ! i) (sh_reports st ! i)"
  shows "length (sh_reports (add_node n inc note st)) = Suc (length (sh_nodes st)) \<and>
    (\<forall>i<Suc (length (sh_nodes st)). report_matches i ((sh_nodes st @ [n]) ! i) (sh_reports (add_node n inc note st) ! i))"
  using assms by (auto simp: add_node_def Let_def nth_append less_Suc_eq report_matches_def node_from_report_def)

lemma expandable_append:
  "expandable_at cfg (nodes @ [n]) i \<longleftrightarrow> expandable_at cfg nodes i \<or>
     (i = length nodes \<and> rp_outcome (sn_report n) = Fail \<and> (nodes = [] \<or> sc_strategy cfg \<noteq> Single))"
  by (auto simp: expandable_at_def nth_append)

text \<open>A child of the node \<open>nid\<close>, verified: its fingerprint is new, and the parent is found by its own.\<close>

lemma nodes_inv_child:
  assumes inv: "nodes_inv W A esc p spec cfg st" and nid: "nid < length (sh_nodes st)"
    and budget: "sh_verifications st < sc_verification_budget cfg"
    and new: "bt_get (sh_by_fp st) (program_fingerprint W p') = None"
    and c: "check_allowed (cs_allowed_scope spec) c = Ok ()"
      "patch_apply W (sn_program (sh_nodes st ! nid)) c = Ok (p', d)" "validate A p' = Some vr" "vr_valid vr"
    and rep: "verify_program A esc p' spec Engine_Petri = Ok (Some rep)"
    and bounds: "within_bounds cfg (sh_nodes st ! nid)"
    and st1: "st1 = st\<lparr>sh_verifications := Suc (sh_verifications st), sh_states := x\<rparr>"
  shows "nodes_inv W A esc p spec cfg (add_node (child_node st1 (sn_fingerprint (sh_nodes st ! nid)) c p'
    (program_fingerprint W p') rep) inc note st1)"
proof -
  let ?n = "child_node st1 (sn_fingerprint (sh_nodes st ! nid)) c p' (program_fingerprint W p') rep"
  have idx: "\<And>fp i. bt_get (sh_by_fp st) fp = Some i \<longleftrightarrow> i < length (sh_nodes st) \<and> sn_fingerprint (sh_nodes st ! i) = fp"
    using inv by (simp add: nodes_inv_def)
  then have "bt_get (sh_by_fp st) (sn_fingerprint (sh_nodes st ! nid)) = Some nid" using nid by simp
  then have n: "sn_parent ?n = Some nid" "sn_depth ?n = Suc (sn_depth (sh_nodes st ! nid))"
    "sn_total_edits ?n = sn_total_edits (sh_nodes st ! nid) + length (cp_changes c)" "sn_program ?n = p'"
    "sn_fingerprint ?n = program_fingerprint W p'" "sn_report ?n = rep" "sn_incoming ?n = Some c"
    by (simp_all add: child_node_def st1 Let_def)
  have "snode_ok W A esc p spec cfg (sh_nodes st @ [?n]) (length (sh_nodes st))"
    using n nid c rep bounds by (auto simp: snode_ok_def child_ok_def within_bounds_def nth_append)
  then have nodes: "\<forall>i<Suc (length (sh_nodes st)). snode_ok W A esc p spec cfg (sh_nodes st @ [?n]) i"
    using snode_ok_append [of W A esc p spec cfg "sh_nodes st"] inv by (simp add: nodes_inv_def less_Suc_eq)
  have keys: "bt_get (bt_insert (program_fingerprint W p') (length (sh_nodes st)) (sh_by_fp st)) fp = Some i \<longleftrightarrow>
    i < Suc (length (sh_nodes st)) \<and> sn_fingerprint ((sh_nodes st @ [?n]) ! i) = fp" for fp i
    using idx [of fp i] idx [of "program_fingerprint W p'" i] new n(5) by (auto simp: nth_append less_Suc_eq)
  have reps: "length (sh_reports (add_node ?n inc note st1)) = Suc (length (sh_nodes st1)) \<and>
    (\<forall>i<Suc (length (sh_nodes st1)). report_matches i ((sh_nodes st1 @ [?n]) ! i) (sh_reports (add_node ?n inc note st1) ! i))"
    by (rule add_node_reports) (use inv in \<open>simp_all add: nodes_inv_def st1\<close>)
  show ?thesis using inv nodes keys reps n(5) budget by (simp add: nodes_inv_def st1)
qed

subsection \<open>One proposal\<close>

lemma attempt_cases:
  assumes "attempt_outcome W A esc spec cfg node c st = Ok (Some (fl, st1))"
  obtains (Reused) i oc where "fl = Reused i oc" "st1 = st"
  | (Declined) res where "fl = Declined res" "res \<noteq> ''budget-blocked''" "st1 = st"
  | (Blocked) fp where "fl = Budget_Blocked fp" "st1 = st\<lparr>sh_verification_hit := True\<rparr>"
  | (Verified) p' d vr rep inc nt x where "fl = Verified (length (sh_nodes st)) (report_accepted rep)"
      "check_allowed (cs_allowed_scope spec) c = Ok ()" "patch_apply W (sn_program node) c = Ok (p', d)"
      "validate A p' = Some vr" "vr_valid vr" "bt_get (sh_by_fp st) (program_fingerprint W p') = None"
      "sh_verifications st < sc_verification_budget cfg" "verify_program A esc p' spec Engine_Petri = Ok (Some rep)"
      "st1 = (let st' = st\<lparr>sh_verifications := Suc (sh_verifications st), sh_states := x\<rparr> in
         add_node (child_node st' (sn_fingerprint node) c p' (program_fingerprint W p') rep) inc nt st')"
proof (cases "check_allowed (cs_allowed_scope spec) c")
  case (Ok u)
  show thesis
  proof (cases "patch_apply W (sn_program node) c")
    case (Ok pd)
    obtain p' d where pd: "pd = (p', d)" by (cases pd)
    from assms \<open>check_allowed _ c = Ok u\<close> Ok pd obtain vr where vr: "validate A p' = Some vr"
      by (cases "validate A p'") (auto simp: attempt_outcome_def)
    note allowed = \<open>check_allowed _ c = Ok u\<close>
    show thesis
    proof (cases "vr_valid vr")
      case False
      with assms allowed Ok pd vr show thesis by (intro that(2) [of "''static-invalid''"]) (simp_all add: attempt_outcome_def)
    next
      case True
      show thesis
      proof (cases "bt_get (sh_by_fp st) (program_fingerprint W p')")
        case (Some i)
        with assms allowed Ok pd vr True show thesis
          by (intro that(1) [of i "rp_outcome (sn_report (sh_nodes st ! i))"]) (auto simp: attempt_outcome_def)
      next
        case None
        show thesis
        proof (cases "sh_verifications st \<ge> sc_verification_budget cfg")
          case over: True
          with assms allowed Ok pd vr True None show thesis
            by (intro that(3) [of "program_fingerprint W p'"]) (simp_all add: attempt_outcome_def)
        next
          case False
          with assms allowed Ok pd vr True None have att: "attempt_verify W A esc spec node c p' st = Ok (Some (fl, st1))"
            by (simp add: attempt_outcome_def)
          then obtain rep where rep: "verify_program A esc p' spec Engine_Petri = Ok (Some rep)"
            by (auto simp: attempt_verify_def split: option.splits)
          with att allowed Ok pd vr True None False show thesis
            by (intro that(4) [where x = "sh_states st + rp_states_explored rep" and nt = "child_note rep"
                and inc = "Some (applied_edit_of W c (sn_fingerprint node) (program_fingerprint W p') (sn_program node))",
                OF _ _ Ok [unfolded pd] vr True None _ rep]) (auto simp: attempt_verify_def Let_def)
        qed
      qed
    qed
  next
    case (Err e)
    with assms \<open>check_allowed _ c = Ok u\<close> show thesis
      by (intro that(2) [of "''apply-error''"]) (simp_all add: attempt_outcome_def)
  next
    case Panic
    with assms \<open>check_allowed _ c = Ok u\<close> show thesis by (simp add: attempt_outcome_def)
  qed
next
  case (Err e)
  with assms show thesis by (intro that(2) [of "''denied''"]) (simp_all add: attempt_outcome_def)
next
  case Panic
  with assms show thesis by (simp add: attempt_outcome_def)
qed

definition extends :: "'j search_state \<Rightarrow> 'j search_state \<Rightarrow> bool" where
  "extends st st' \<longleftrightarrow> (\<exists>ns. sh_nodes st' = sh_nodes st @ ns)"

lemma extends_refl [simp]: "extends st st"
  by (simp add: extends_def)

lemma extends_trans: "extends a b \<Longrightarrow> extends b c \<Longrightarrow> extends a c"
  by (auto simp: extends_def)

lemma extends_nth: "extends st st' \<Longrightarrow> i < length (sh_nodes st) \<Longrightarrow> sh_nodes st' ! i = sh_nodes st ! i \<and> i < length (sh_nodes st')"
  by (auto simp: extends_def nth_append)

lemma nodes_inv_eq:
  assumes "nodes_inv W A esc p spec cfg st" "sh_nodes st' = sh_nodes st" "sh_by_fp st' = sh_by_fp st"
    "sh_verifications st' = sh_verifications st" "sh_proposals st' \<le> sc_candidate_budget cfg"
    "sh_reports st' = sh_reports st"
  shows "nodes_inv W A esc p spec cfg st'"
  using assms by (simp add: nodes_inv_def)

lemma queue_inv_eq:
  assumes "queue_inv cfg D st" "sh_nodes st' = sh_nodes st" "sh_queue st' = sh_queue st"
    "sh_saw_unknown st' = sh_saw_unknown st" "sh_depth_truncated st' = sh_depth_truncated st"
    "sh_edits_truncated st' = sh_edits_truncated st" "sh_candidate_hit st' = sh_candidate_hit st"
    "sh_verification_hit st' = sh_verification_hit st" "blocked_attempt st' = blocked_attempt st"
  shows "queue_inv cfg D st'"
  using assms by (simp add: queue_inv_def unknown_seen_def)

lemma blocked_attempt_simps [simp]:
  "blocked_attempt (st\<lparr>sh_proposals := x\<rparr>) = blocked_attempt st"
  "blocked_attempt (st\<lparr>sh_cache_hits := x\<rparr>) = blocked_attempt st"
  "blocked_attempt (st\<lparr>sh_states := x\<rparr>) = blocked_attempt st"
  "blocked_attempt (st\<lparr>sh_verifications := x\<rparr>) = blocked_attempt st"
  "blocked_attempt (st\<lparr>sh_verification_hit := b\<rparr>) = blocked_attempt st"
  "blocked_attempt (st\<lparr>sh_queue := q\<rparr>) = blocked_attempt st"
  "blocked_attempt (add_node n inc note st) = blocked_attempt st"
  by (simp_all add: blocked_attempt_def)

lemma add_attempt_simps [simp]:
  "sh_nodes (add_attempt n c r u f oc st) = sh_nodes st"
  "sh_by_fp (add_attempt n c r u f oc st) = sh_by_fp st"
  "sh_verifications (add_attempt n c r u f oc st) = sh_verifications st"
  "sh_proposals (add_attempt n c r u f oc st) = sh_proposals st"
  "sh_reports (add_attempt n c r u f oc st) = sh_reports st"
  "sh_queue (add_attempt n c r u f oc st) = sh_queue st"
  "sh_saw_unknown (add_attempt n c r u f oc st) = sh_saw_unknown st"
  "sh_depth_truncated (add_attempt n c r u f oc st) = sh_depth_truncated st"
  "sh_edits_truncated (add_attempt n c r u f oc st) = sh_edits_truncated st"
  "sh_candidate_hit (add_attempt n c r u f oc st) = sh_candidate_hit st"
  "sh_verification_hit (add_attempt n c r u f oc st) = sh_verification_hit st"
  "blocked_attempt (add_attempt n c r u f oc st) \<longleftrightarrow> blocked_attempt st \<or> r = ''budget-blocked''"
  by (auto simp: add_attempt_def blocked_attempt_def)

lemma after_verified_simps [simp]:
  "sh_nodes (after_verified cfg i st) = sh_nodes st"
  "sh_by_fp (after_verified cfg i st) = sh_by_fp st"
  "sh_verifications (after_verified cfg i st) = sh_verifications st"
  "sh_proposals (after_verified cfg i st) = sh_proposals st"
  "sh_reports (after_verified cfg i st) = sh_reports st"
  by (simp_all add: after_verified_def Let_def)

text \<open>What is known when the loops are left for a budget: the record shows which one.\<close>

definition left_for :: "search_config \<Rightarrow> 'j search_state \<Rightarrow> bool" where
  "left_for cfg st \<longleftrightarrow> sh_saw_unknown st = unknown_seen st \<and>
     ((sh_verification_hit st \<and> \<not> sh_candidate_hit st \<and> blocked_attempt st) \<or>
      (\<not> sh_verification_hit st \<and> sh_candidate_hit st \<and> \<not> blocked_attempt st \<and>
       sh_proposals st \<ge> sc_candidate_budget cfg \<and>
       (\<exists>i. expandable_at cfg (sh_nodes st) i \<and> within_bounds cfg (sh_nodes st ! i))))"

fun flow_ok ::
  "('j, 'y) serial_scheme \<Rightarrow> ('j, 'x) json_kinds_scheme \<Rightarrow> (string \<Rightarrow> string) \<Rightarrow> 'j program_decl \<Rightarrow> 'j contract_spec
     \<Rightarrow> search_config \<Rightarrow> nat set \<Rightarrow> 'j search_state search_flow \<Rightarrow> bool" where
  "flow_ok W A esc p spec cfg D (Go st) \<longleftrightarrow> nodes_inv W A esc p spec cfg st \<and> queue_inv cfg D st"
| "flow_ok W A esc p spec cfg D (Leave st) \<longleftrightarrow> nodes_inv W A esc p spec cfg st \<and> left_for cfg st"
| "flow_ok W A esc p spec cfg D (Found i st) \<longleftrightarrow> nodes_inv W A esc p spec cfg st \<and> i < length (sh_nodes st) \<and>
     report_accepted (sn_report (sh_nodes st ! i))"

fun flow_state :: "'st search_flow \<Rightarrow> 'st" where
  "flow_state (Go st) = st"
| "flow_state (Leave st) = st"
| "flow_state (Found i st) = st"

text \<open>A verified child that is not accepted is queued exactly when it may be expanded.\<close>

lemma queue_inv_child:
  assumes inv: "queue_inv cfg D st" and ne: "sh_nodes st \<noteq> []"
    and st1: "sh_nodes st1 = sh_nodes st @ [n]" "sh_queue st1 = sh_queue st"
      "sh_saw_unknown st1 = sh_saw_unknown st" "sh_depth_truncated st1 = sh_depth_truncated st"
      "sh_edits_truncated st1 = sh_edits_truncated st" "sh_candidate_hit st1 = sh_candidate_hit st"
      "sh_verification_hit st1 = sh_verification_hit st" "blocked_attempt st1 = blocked_attempt st"
  shows "queue_inv cfg D (after_verified cfg (length (sh_nodes st)) st1)"
proof -
  let ?k = "length (sh_nodes st)" and ?st2 = "after_verified cfg (length (sh_nodes st)) st1"
  have old: "i < ?k" if "i \<in> D \<union> set (sh_queue st)" for i
    using that inv by (auto simp: queue_inv_def expandable_at_def)
  have q: "sh_queue ?st2 = sh_queue st @ (if rp_outcome (sn_report n) = Fail \<and> sc_strategy cfg \<noteq> Single then [?k] else [])"
    "sh_saw_unknown ?st2 = (sh_saw_unknown st \<or> rp_outcome (sn_report n) = Unknown)"
    "sh_depth_truncated ?st2 = sh_depth_truncated st" "sh_edits_truncated ?st2 = sh_edits_truncated st"
    "sh_candidate_hit ?st2 = sh_candidate_hit st" "sh_verification_hit ?st2 = sh_verification_hit st"
    "blocked_attempt ?st2 = blocked_attempt st"
    using st1 by (auto simp: after_verified_def Let_def blocked_attempt_def nth_append)
  have D: "(sh_nodes st @ [n]) ! i = sh_nodes st ! i" if "i \<in> D" for i using old that by (simp add: nth_append)
  have "{i. expandable_at cfg (sh_nodes st @ [n]) i} = {i. expandable_at cfg (sh_nodes st) i} \<union>
      (if rp_outcome (sn_report n) = Fail \<and> sc_strategy cfg \<noteq> Single then {?k} else {})"
    using ne by (auto simp: expandable_append)
  moreover have "?k \<notin> D" "?k \<notin> set (sh_queue st)" using old by blast+
  moreover have "unknown_seen ?st2 \<longleftrightarrow> unknown_seen st \<or> rp_outcome (sn_report n) = Unknown"
    by (auto simp: unknown_seen_def st1)
  ultimately show ?thesis
    using inv D unfolding queue_inv_def q by (auto simp: st1)
qed

lemma record_attempt_ok:
  assumes nodes: "nodes_inv W A esc p spec cfg st" and queue: "queue_inv cfg D st"
    and nid: "nid < length (sh_nodes st)" and bounds: "within_bounds cfg (sh_nodes st ! nid)"
    and left: "sh_proposals st < sc_candidate_budget cfg"
    and att: "attempt_outcome W A esc spec cfg (sh_nodes st ! nid) c (st\<lparr>sh_proposals := Suc (sh_proposals st)\<rparr>) = Ok (Some (fl, st1))"
  shows "flow_ok W A esc p spec cfg D (record_attempt cfg nid c fl st1) \<and>
    sh_proposals (flow_state (record_attempt cfg nid c fl st1)) = Suc (sh_proposals st) \<and>
    extends st (flow_state (record_attempt cfg nid c fl st1))"
proof -
  let ?s = "st\<lparr>sh_proposals := Suc (sh_proposals st)\<rparr>"
  have s: "nodes_inv W A esc p spec cfg ?s" by (rule nodes_inv_eq [OF nodes]) (use left in simp_all)
  have sq: "queue_inv cfg D ?s" by (rule queue_inv_eq [OF queue]) simp_all
  from att show ?thesis
  proof (cases rule: attempt_cases)
    case (Reused i oc)
    have "nodes_inv W A esc p spec cfg (add_attempt nid c ''reused'' (Some i) (Some (sn_fingerprint (sh_nodes ?s ! i)))
      (Some oc) (?s\<lparr>sh_cache_hits := Suc (sh_cache_hits ?s)\<rparr>))"
      by (rule nodes_inv_eq [OF s]) (use left in simp_all)
    moreover have "queue_inv cfg D (add_attempt nid c ''reused'' (Some i) (Some (sn_fingerprint (sh_nodes ?s ! i)))
      (Some oc) (?s\<lparr>sh_cache_hits := Suc (sh_cache_hits ?s)\<rparr>))"
      by (rule queue_inv_eq [OF sq]) simp_all
    ultimately show ?thesis using Reused by (simp add: record_attempt_def extends_def)
  next
    case (Declined res)
    have "nodes_inv W A esc p spec cfg (add_attempt nid c res None None None ?s)"
      by (rule nodes_inv_eq [OF s]) (use left in simp_all)
    moreover have "queue_inv cfg D (add_attempt nid c res None None None ?s)"
      by (rule queue_inv_eq [OF sq]) (use Declined(2) in simp_all)
    ultimately show ?thesis using Declined by (simp add: record_attempt_def extends_def)
  next
    case (Blocked fp)
    have "nodes_inv W A esc p spec cfg (add_attempt nid c ''budget-blocked'' None (Some fp) None st1)"
      by (rule nodes_inv_eq [OF s]) (use left Blocked(2) in simp_all)
    moreover have "left_for cfg (add_attempt nid c ''budget-blocked'' None (Some fp) None st1)"
      using sq Blocked(2) by (simp add: left_for_def queue_inv_def unknown_seen_def)
    ultimately show ?thesis using Blocked by (simp add: record_attempt_def extends_def)
  next
    case (Verified p' d vr rep inc nt x)
    let ?t = "?s\<lparr>sh_verifications := Suc (sh_verifications ?s), sh_states := x\<rparr>"
    let ?n = "child_node ?t (sn_fingerprint (sh_nodes st ! nid)) c p' (program_fingerprint W p') rep"
    have st1: "st1 = add_node ?n inc nt ?t" using Verified(9) by (simp add: Let_def)
    have "nodes_inv W A esc p spec cfg (add_node (child_node ?t (sn_fingerprint (sh_nodes ?s ! nid)) c p'
        (program_fingerprint W p') rep) inc nt ?t)"
      by (rule nodes_inv_child [OF s]) (use nid bounds Verified(2-8) in simp_all)
    then have inv1: "nodes_inv W A esc p spec cfg st1" by (simp add: st1)
    let ?st2 = "add_attempt nid c ''verified'' None (Some (sn_fingerprint (sh_nodes st1 ! length (sh_nodes st))))
      (Some (rp_outcome (sn_report (sh_nodes st1 ! length (sh_nodes st))))) st1"
    have inv2: "nodes_inv W A esc p spec cfg ?st2" "nodes_inv W A esc p spec cfg (after_verified cfg (length (sh_nodes st)) ?st2)"
      by (rule nodes_inv_eq [OF inv1]; use left st1 in simp)+
    have q2: "queue_inv cfg D (after_verified cfg (length (sh_nodes ?s)) ?st2)"
      by (rule queue_inv_child [OF sq]) (use nid in \<open>auto simp: st1\<close>)
    have rep: "sn_report ?n = rep" by (simp add: child_node_def Let_def)
    then have "record_attempt cfg nid c fl st1 = (if report_accepted rep then Found (length (sh_nodes st)) ?st2
      else Go (after_verified cfg (length (sh_nodes st)) ?st2))"
      using Verified(1) by (simp add: record_attempt_def Let_def)
    then show ?thesis using inv2 q2 rep st1 by (simp add: extends_def nth_append)
  qed
qed

subsection \<open>Expanding a node\<close>

lemma propose_ok:
  assumes "propose n W A esc spec cfg nxt ctx nid node ps st = Ok (Some fl)"
    and "nodes_inv W A esc p spec cfg st" "queue_inv cfg D st" "nid \<in> D" "node = sh_nodes st ! nid"
    and "within_bounds cfg node" "n = sc_candidate_budget cfg - sh_proposals st"
  shows "flow_ok W A esc p spec cfg D fl \<and> extends st (flow_state fl) \<and>
    (case fl of Go st' \<Rightarrow> sh_proposals st' < sc_candidate_budget cfg | _ \<Rightarrow> True)"
  using assms
proof (induction n W A esc spec cfg nxt ctx nid node ps st rule: propose.induct)
  case (1 W A esc spec cfg nxt ctx nid node ps st)
  let ?s = "st\<lparr>sh_candidate_hit := True\<rparr>"
  have "nodes_inv W A esc p spec cfg ?s" by (rule nodes_inv_eq [OF "1.prems"(2)]) (use "1.prems" in \<open>simp_all add: nodes_inv_def\<close>)
  moreover have "left_for cfg ?s"
    using "1.prems" by (auto simp: left_for_def queue_inv_def unknown_seen_def blocked_attempt_def)
  ultimately show ?case using "1.prems"(1) by (auto simp: extends_def)
next
  case (2 n W A esc spec cfg nxt ctx nid node ps st)
  obtain oc ps' where nxt: "nxt ctx ps = (oc, ps')" by (cases "nxt ctx ps")
  have less: "sh_proposals st < sc_candidate_budget cfg" using "2.prems"(7) by arith
  have nid: "nid < length (sh_nodes st)" using "2.prems"(3,4) by (auto simp: queue_inv_def expandable_at_def)
  show ?case
  proof (cases oc)
    case None
    with nxt "2.prems"(1) have "fl = Go st" by simp
    with "2.prems"(2,3) less show ?thesis by simp
  next
    case (Some c)
    let ?s = "st\<lparr>sh_proposals := Suc (sh_proposals st)\<rparr>"
    from "2.prems"(1) nxt Some obtain fl1 st1 where
      att: "attempt_outcome W A esc spec cfg node c ?s = Ok (Some (fl1, st1))"
      by (auto split: option.splits)
    have rec: "flow_ok W A esc p spec cfg D (record_attempt cfg nid c fl1 st1) \<and>
      sh_proposals (flow_state (record_attempt cfg nid c fl1 st1)) = Suc (sh_proposals st) \<and>
      extends st (flow_state (record_attempt cfg nid c fl1 st1))"
      by (rule record_attempt_ok [OF "2.prems"(2,3) nid _ less]) (use att "2.prems"(5,6) in simp_all)
    show ?thesis
    proof (cases "record_attempt cfg nid c fl1 st1")
      case (Go st2)
      have "propose n W A esc spec cfg nxt ctx nid node ps' st2 = Ok (Some fl)"
        using "2.prems"(1) nxt Some att Go by simp
      moreover have "node = sh_nodes st2 ! nid"
        using rec Go "2.prems"(5) extends_nth [OF _ nid, of st2] by simp
      ultimately have "flow_ok W A esc p spec cfg D fl \<and> extends st2 (flow_state fl) \<and>
        (case fl of Go st' \<Rightarrow> sh_proposals st' < sc_candidate_budget cfg | _ \<Rightarrow> True)"
        using rec Go "2.prems"(4,6,7) att Some nxt
        by (intro "2.IH" [OF nxt [symmetric] Some att refl refl Go]) simp_all
      with rec Go show ?thesis by (auto intro: extends_trans)
    next
      case (Leave st2)
      then have "fl = Leave st2" using "2.prems"(1) nxt Some att by simp
      with rec Leave show ?thesis by simp
    next
      case (Found i st2)
      then have "fl = Found i st2" using "2.prems"(1) nxt Some att by simp
      with rec Found show ?thesis by simp
    qed
  qed
qed

lemma note_node_inv:
  assumes "nodes_inv W A esc p spec cfg st"
  shows "nodes_inv W A esc p spec cfg (note_node nid t st)"
proof -
  have len: "length (update_first P g xs) = length xs" for P and g :: "node_report \<Rightarrow> node_report" and xs
    by (induction xs) auto
  have upd: "report_matches i n (update_first P (\<lambda>r. r\<lparr>nr_note := Some t\<rparr>) xs ! i)"
    if "report_matches i n (xs ! i)" "i < length xs" for i n P and xs :: "node_report list"
  proof -
    have "\<exists>r. update_first P (\<lambda>r. r\<lparr>nr_note := Some t\<rparr>) xs ! i = (xs ! i)\<lparr>nr_note := r\<rparr>"
      using that(2)
    proof (induction xs arbitrary: i)
      case (Cons x xs)
      show ?case
      proof (cases i)
        case 0
        then show ?thesis by (cases x) (auto intro: exI [of _ "nr_note x"])
      next
        case (Suc k)
        have "\<exists>r. (xs ! k) = (xs ! k)\<lparr>nr_note := r\<rparr>" by (intro exI [of _ "nr_note (xs ! k)"]) simp
        with Suc Cons show ?thesis by auto
      qed
    qed simp
    with that(1) show ?thesis by (auto simp: report_matches_def)
  qed
  show ?thesis using assms by (auto simp: nodes_inv_def note_node_def len intro!: upd)
qed

lemma note_node_simps [simp]:
  "sh_nodes (note_node nid t st) = sh_nodes st" "sh_queue (note_node nid t st) = sh_queue st"
  "sh_proposals (note_node nid t st) = sh_proposals st" "sh_attempts (note_node nid t st) = sh_attempts st"
  "sh_saw_unknown (note_node nid t st) = sh_saw_unknown st"
  "sh_depth_truncated (note_node nid t st) = sh_depth_truncated st"
  "sh_edits_truncated (note_node nid t st) = sh_edits_truncated st"
  "sh_candidate_hit (note_node nid t st) = sh_candidate_hit st"
  "sh_verification_hit (note_node nid t st) = sh_verification_hit st"
  by (simp_all add: note_node_def)

text \<open>A node has been expanded only if some of the candidate budget was left at its end.\<close>

definition spent_ok :: "search_config \<Rightarrow> nat set \<Rightarrow> 'j search_state \<Rightarrow> bool" where
  "spent_ok cfg D st \<longleftrightarrow> ((\<exists>i\<in>D. within_bounds cfg (sh_nodes st ! i)) \<longrightarrow> sh_proposals st < sc_candidate_budget cfg)"

lemma expand_node_ok:
  assumes exp: "expand_node W A esc spec cfg nid (st\<lparr>sh_queue := rest\<rparr>) = Ok (Some fl)"
    and inv: "nodes_inv W A esc p spec cfg st" "queue_inv cfg D st" "spent_ok cfg D st" "sh_queue st = nid # rest"
  shows "flow_ok W A esc p spec cfg (insert nid D) fl \<and>
    (case fl of Go st' \<Rightarrow> spent_ok cfg (insert nid D) st' | _ \<Rightarrow> True)"
proof -
  let ?s = "st\<lparr>sh_queue := rest\<rparr>" and ?D = "insert nid D" and ?n = "sh_nodes st ! nid"
  have s: "nodes_inv W A esc p spec cfg ?s" by (rule nodes_inv_eq [OF inv(1)]) (use inv(1) in \<open>simp_all add: nodes_inv_def\<close>)
  have Q: "distinct rest" "nid \<notin> set rest" "set rest \<inter> ?D = {}" "finite ?D" "nid \<notin> D"
    "?D \<union> set rest = {i. expandable_at cfg (sh_nodes st) i}"
    using inv(2,4) by (auto simp: queue_inv_def)
  show ?thesis
  proof (cases "within_bounds cfg ?n")
    case True
    then have "queue_inv cfg ?D ?s"
      using inv(2,4) Q by (auto simp: queue_inv_def within_bounds_def unknown_seen_def)
    moreover obtain nxt ps where pv: "strategy_provider W (sc_strategy cfg) (sn_program ?n) (cs_allowed_scope spec) = (nxt, ps)"
      by (cases "strategy_provider W (sc_strategy cfg) (sn_program ?n) (cs_allowed_scope spec)")
    moreover have "propose (sc_candidate_budget cfg - sh_proposals ?s) W A esc spec cfg nxt
        (search_context W spec (sh_nodes ?s) nid) nid ?n ps ?s = Ok (Some fl)"
      using exp True pv by (auto simp: expand_node_def Let_def within_bounds_def)
    ultimately have "flow_ok W A esc p spec cfg ?D fl \<and> extends ?s (flow_state fl) \<and>
      (case fl of Go st' \<Rightarrow> sh_proposals st' < sc_candidate_budget cfg | _ \<Rightarrow> True)"
      using True by (intro propose_ok [OF _ s]) simp_all
    then show ?thesis by (cases fl) (simp_all add: spent_ok_def)
  next
    case False
    show ?thesis
    proof (cases "sn_depth ?n \<ge> sc_max_depth cfg")
      case True
      let ?t = "note_node nid ''not expanded: max_depth'' (?s\<lparr>sh_depth_truncated := True\<rparr>)"
      have "fl = Go ?t" using exp True by (simp add: expand_node_def)
      moreover have "nodes_inv W A esc p spec cfg ?t"
        by (intro note_node_inv nodes_inv_eq [OF s]) (use s in \<open>simp_all add: nodes_inv_def\<close>)
      moreover have "queue_inv cfg ?D ?t"
        using inv(2,4) Q True by (auto simp: queue_inv_def unknown_seen_def blocked_attempt_def)
      moreover have "spent_ok cfg ?D ?t" using inv(3) False by (simp add: spent_ok_def)
      ultimately show ?thesis by simp
    next
      case shallow: False
      with False have over: "sn_total_edits ?n \<ge> sc_max_total_edits cfg" by (simp add: within_bounds_def)
      let ?t = "note_node nid ''not expanded: max_total_edits'' (?s\<lparr>sh_edits_truncated := True\<rparr>)"
      have "fl = Go ?t" using exp shallow over by (simp add: expand_node_def)
      moreover have "nodes_inv W A esc p spec cfg ?t"
        by (intro note_node_inv nodes_inv_eq [OF s]) (use s in \<open>simp_all add: nodes_inv_def\<close>)
      moreover have "queue_inv cfg ?D ?t"
        using inv(2,4) Q shallow over by (auto simp: queue_inv_def unknown_seen_def blocked_attempt_def)
      moreover have "spent_ok cfg ?D ?t" using inv(3) False by (simp add: spent_ok_def)
      ultimately show ?thesis by simp
    qed
  qed
qed

subsection \<open>The whole search\<close>

lemma report_matches_expandable:
  assumes "nodes_inv W A esc p spec cfg st" "i < length (sh_nodes st)"
  shows "node_is_expandable (sc_strategy cfg) (sh_reports st ! i) = expandable_at cfg (sh_nodes st) i"
  using assms by (auto simp: nodes_inv_def report_matches_def node_is_expandable_def expandable_at_def)

text \<open>A test of the node reports is a test of the nodes.\<close>

lemma list_ex_reports:
  assumes "nodes_inv W A esc p spec cfg st"
    and "\<And>i. i < length (sh_nodes st) \<Longrightarrow> P (sh_reports st ! i) = Q i"
  shows "list_ex P (sh_reports st) \<longleftrightarrow> (\<exists>i<length (sh_nodes st). Q i)"
  using assms by (auto simp: nodes_inv_def list_ex_length)

lemma derived_facts:
  assumes "nodes_inv W A esc p spec cfg st" "sp_nodes r = sh_reports st" "sp_attempts r = sh_attempts st"
    "sp_proposals r = sh_proposals st"
  shows "tf_verification_budget_hit (derive_terminal_facts cfg r) = blocked_attempt st"
    "tf_candidate_budget_hit (derive_terminal_facts cfg r) \<longleftrightarrow> \<not> blocked_attempt st \<and>
      sh_proposals st \<ge> sc_candidate_budget cfg \<and> (\<exists>i. expandable_at cfg (sh_nodes st) i \<and> within_bounds cfg (sh_nodes st ! i))"
    "tf_depth_truncated (derive_terminal_facts cfg r) \<longleftrightarrow>
      (\<exists>i. expandable_at cfg (sh_nodes st) i \<and> sn_depth (sh_nodes st ! i) \<ge> sc_max_depth cfg)"
    "tf_edits_truncated (derive_terminal_facts cfg r) \<longleftrightarrow>
      (\<exists>i. expandable_at cfg (sh_nodes st) i \<and> sn_depth (sh_nodes st ! i) < sc_max_depth cfg \<and>
        sn_total_edits (sh_nodes st ! i) \<ge> sc_max_total_edits cfg)"
    "tf_saw_unknown (derive_terminal_facts cfg r) = unknown_seen st"
    "tf_root_unknown (derive_terminal_facts cfg r) \<longleftrightarrow> length (sh_nodes st) = 1 \<and>
      rp_outcome (sn_report (sh_nodes st ! 0)) = Unknown"
proof -
  have rm: "report_matches i (sh_nodes st ! i) (sh_reports st ! i)" if "i < length (sh_nodes st)" for i
    using assms(1) that by (simp add: nodes_inv_def)
  have len: "length (sh_reports st) = length (sh_nodes st)" using assms(1) by (simp add: nodes_inv_def)
  note expandable = report_matches_expandable [OF assms(1)]
  have ex: "(\<exists>i<length (sh_nodes st). expandable_at cfg (sh_nodes st) i \<and> R i) \<longleftrightarrow>
    (\<exists>i. expandable_at cfg (sh_nodes st) i \<and> R i)" for R
    by (auto simp: expandable_at_def)
  show "tf_verification_budget_hit (derive_terminal_facts cfg r) = blocked_attempt st"
    by (simp add: derive_terminal_facts_def Let_def blocked_attempt_def list_ex_iff assms(3))
  have "list_ex (\<lambda>n. node_is_expandable (sc_strategy cfg) n \<and> nr_depth n < sc_max_depth cfg \<and>
      nr_total_edits n < sc_max_total_edits cfg) (sh_reports st) \<longleftrightarrow>
    (\<exists>i<length (sh_nodes st). expandable_at cfg (sh_nodes st) i \<and> within_bounds cfg (sh_nodes st ! i))"
    by (rule list_ex_reports [OF assms(1)]) (use rm expandable in \<open>simp add: report_matches_def within_bounds_def\<close>)
  then show "tf_candidate_budget_hit (derive_terminal_facts cfg r) \<longleftrightarrow> \<not> blocked_attempt st \<and>
      sh_proposals st \<ge> sc_candidate_budget cfg \<and> (\<exists>i. expandable_at cfg (sh_nodes st) i \<and> within_bounds cfg (sh_nodes st ! i))"
    by (simp add: derive_terminal_facts_def Let_def blocked_attempt_def list_ex_iff [of _ "sh_attempts st"] assms(2-4) ex)
  have "list_ex (\<lambda>n. node_is_expandable (sc_strategy cfg) n \<and> nr_depth n \<ge> sc_max_depth cfg) (sh_reports st) \<longleftrightarrow>
    (\<exists>i<length (sh_nodes st). expandable_at cfg (sh_nodes st) i \<and> sn_depth (sh_nodes st ! i) \<ge> sc_max_depth cfg)"
    by (rule list_ex_reports [OF assms(1)]) (use rm expandable in \<open>simp add: report_matches_def\<close>)
  then show "tf_depth_truncated (derive_terminal_facts cfg r) \<longleftrightarrow>
      (\<exists>i. expandable_at cfg (sh_nodes st) i \<and> sn_depth (sh_nodes st ! i) \<ge> sc_max_depth cfg)"
    by (simp add: derive_terminal_facts_def Let_def assms(2) ex)
  have "list_ex (\<lambda>n. node_is_expandable (sc_strategy cfg) n \<and> nr_depth n < sc_max_depth cfg \<and>
      nr_total_edits n \<ge> sc_max_total_edits cfg) (sh_reports st) \<longleftrightarrow>
    (\<exists>i<length (sh_nodes st). expandable_at cfg (sh_nodes st) i \<and> sn_depth (sh_nodes st ! i) < sc_max_depth cfg \<and>
      sn_total_edits (sh_nodes st ! i) \<ge> sc_max_total_edits cfg)"
    by (rule list_ex_reports [OF assms(1)]) (use rm expandable in \<open>simp add: report_matches_def\<close>)
  then show "tf_edits_truncated (derive_terminal_facts cfg r) \<longleftrightarrow>
      (\<exists>i. expandable_at cfg (sh_nodes st) i \<and> sn_depth (sh_nodes st ! i) < sc_max_depth cfg \<and>
        sn_total_edits (sh_nodes st ! i) \<ge> sc_max_total_edits cfg)"
    by (simp add: derive_terminal_facts_def Let_def assms(2) ex)
  have "list_ex (\<lambda>n. rp_outcome (nr_report n) = Unknown) (sh_reports st) \<longleftrightarrow>
    (\<exists>i<length (sh_nodes st). rp_outcome (sn_report (sh_nodes st ! i)) = Unknown)"
    by (rule list_ex_reports [OF assms(1)]) (use rm in \<open>simp add: report_matches_def\<close>)
  moreover have "unknown_seen st \<longleftrightarrow> (\<exists>i<length (sh_nodes st). rp_outcome (sn_report (sh_nodes st ! i)) = Unknown)"
    by (auto simp: unknown_seen_def set_conv_nth)
  ultimately show "tf_saw_unknown (derive_terminal_facts cfg r) = unknown_seen st"
    by (simp add: derive_terminal_facts_def Let_def assms(2))
  show "tf_root_unknown (derive_terminal_facts cfg r) \<longleftrightarrow> length (sh_nodes st) = 1 \<and>
      rp_outcome (sn_report (sh_nodes st ! 0)) = Unknown"
  proof (cases "length (sh_nodes st) = 1")
    case True
    then obtain r0 where "sh_reports st = [r0]" using len by (metis One_nat_def length_0_conv length_Suc_conv)
    with True rm [of 0] show ?thesis by (simp add: derive_terminal_facts_def Let_def assms(2) report_matches_def)
  next
    case False
    then have "\<forall>r0. sh_reports st \<noteq> [r0]" using len by auto
    with False show ?thesis by (simp add: derive_terminal_facts_def Let_def assms(2) split: list.split)
  qed
qed

text \<open>How the loops end: with an accepted node, with the queue empty, or for a budget.\<close>

definition ended_ok ::
  "('j, 'y) serial_scheme \<Rightarrow> ('j, 'x) json_kinds_scheme \<Rightarrow> (string \<Rightarrow> string) \<Rightarrow> 'j program_decl \<Rightarrow> 'j contract_spec
     \<Rightarrow> search_config \<Rightarrow> 'j search_state search_flow \<Rightarrow> bool" where
  "ended_ok W A esc p spec cfg fl \<longleftrightarrow> (case fl of
      Go st \<Rightarrow> False
    | Leave st \<Rightarrow> nodes_inv W A esc p spec cfg st \<and>
        (left_for cfg st \<or> (\<exists>D. queue_inv cfg D st \<and> spent_ok cfg D st \<and> sh_queue st = []))
    | Found i st \<Rightarrow> nodes_inv W A esc p spec cfg st \<and> i < length (sh_nodes st) \<and>
        report_accepted (sn_report (sh_nodes st ! i)))"

lemma search_nodes_simps:
  "sh_queue st = [] \<Longrightarrow> search_nodes n W A esc spec cfg st = Ok (Some (Leave st))"
  "sh_queue st = i # q \<Longrightarrow> search_nodes 0 W A esc spec cfg st = Ok None"
  "sh_queue st = i # q \<Longrightarrow> search_nodes (Suc n) W A esc spec cfg st =
     rbind (expand_node W A esc spec cfg i (st\<lparr>sh_queue := q\<rparr>)) (\<lambda>r. case r of
         Some (Go st') \<Rightarrow> search_nodes n W A esc spec cfg st'
       | fl \<Rightarrow> Ok fl)"
  by (subst search_nodes.simps; simp)+

lemma search_nodes_ok:
  assumes "search_nodes fuel W A esc spec cfg st = Ok (Some fl)"
    and "nodes_inv W A esc p spec cfg st" "queue_inv cfg D st" "spent_ok cfg D st"
  shows "ended_ok W A esc p spec cfg fl"
  using assms
proof (induction fuel arbitrary: st D)
  case 0
  then show ?case by (cases "sh_queue st") (auto simp: ended_ok_def search_nodes_simps)
next
  case (Suc n)
  show ?case
  proof (cases "sh_queue st")
    case Nil
    with Suc.prems show ?thesis by (auto simp: ended_ok_def search_nodes_simps)
  next
    case (Cons nid rest)
    from Suc.prems(1) Cons obtain r where r: "expand_node W A esc spec cfg nid (st\<lparr>sh_queue := rest\<rparr>) = Ok r"
      and go: "(case r of Some (Go st') \<Rightarrow> search_nodes n W A esc spec cfg st' | fl \<Rightarrow> Ok fl) = Ok (Some fl)"
      by (auto simp: search_nodes_simps)
    from go obtain fl' where r': "r = Some fl'" by (cases r) auto
    with r have fl': "expand_node W A esc spec cfg nid (st\<lparr>sh_queue := rest\<rparr>) = Ok (Some fl')" by simp
    note ok = expand_node_ok [OF fl' Suc.prems(2-4) Cons]
    show ?thesis
    proof (cases fl')
      case (Go st')
      with go r' ok show ?thesis by (intro Suc.IH [of st' "insert nid D"]) simp_all
    qed (use go r' ok in \<open>auto simp: ended_ok_def\<close>)
  qed
qed

text \<open>The start of the loops.\<close>

lemma search_start_ok:
  assumes "verify_program A esc p spec Engine_Petri = Ok (Some rep)" "sc_verification_budget cfg \<noteq> 0"
  shows "nodes_inv W A esc p spec cfg (search_start W p rep)"
  using assms
  by (auto simp: nodes_inv_def search_start_def Let_def snode_ok_def add_node_def report_matches_def node_from_report_def
      bt_get_def split: if_splits)

lemma search_start_queue:
  assumes "rp_outcome rep = Fail"
  shows "queue_inv cfg {} (search_start W p rep)" "spent_ok cfg {} (search_start W p rep)"
  using assms
  by (auto simp: queue_inv_def spent_ok_def search_start_def Let_def add_node_def expandable_at_def unknown_seen_def blocked_attempt_def)

subsection \<open>Returning\<close>

lemma propose_returns:
  assumes "\<And>p'. verify_program A esc p' spec Engine_Petri \<noteq> Ok None" "\<And>p'. validate A p' \<noteq> None"
  shows "propose n W A esc spec cfg nxt ctx nid node ps st \<noteq> Ok None"
proof (induction n arbitrary: ps st)
  case (Suc n)
  have "attempt_outcome W A esc spec cfg node c s \<noteq> Ok None" for c s
  proof
    assume "attempt_outcome W A esc spec cfg node c s = Ok None"
    then obtain p' where "validate A p' = None \<or> verify_program A esc p' spec Engine_Petri = Ok None"
      by (auto simp: attempt_outcome_def attempt_verify_def Let_def split: outc.splits option.splits prod.splits if_splits)
    with assms show False by blast
  qed
  with Suc show ?case
    by (auto split: prod.splits option.splits search_flow.splits)
qed simp

lemma search_nodes_returns:
  assumes "\<And>p'. verify_program A esc p' spec Engine_Petri \<noteq> Ok None" "\<And>p'. validate A p' \<noteq> None"
    and "nodes_inv W A esc p spec cfg st" "queue_inv cfg D st" "spent_ok cfg D st"
    and "sc_verification_budget cfg \<le> fuel + card D"
  shows "search_nodes fuel W A esc spec cfg st \<noteq> Ok None"
  using assms(3-)
proof (induction fuel arbitrary: st D)
  case 0
  have "sh_queue st = []"
  proof (rule ccontr)
    assume "sh_queue st \<noteq> []"
    then obtain i where i: "i \<in> set (sh_queue st)" by (cases "sh_queue st") auto
    then have "insert i D \<subseteq> {..<length (sh_nodes st)}" "i \<notin> D" "finite D"
      using "0.prems"(2) by (auto simp: queue_inv_def expandable_at_def)
    then have "Suc (card D) \<le> length (sh_nodes st)"
      by (metis card_insert_disjoint card_lessThan card_mono finite_lessThan)
    with "0.prems" show False by (simp add: nodes_inv_def)
  qed
  then show ?case by (simp add: search_nodes_simps)
next
  case (Suc n)
  show ?case
  proof (cases "sh_queue st")
    case Nil
    then show ?thesis by (simp add: search_nodes_simps)
  next
    case (Cons nid rest)
    have D: "nid \<notin> D" "finite D" using Suc.prems(2) Cons by (auto simp: queue_inv_def)
    have "expand_node W A esc spec cfg nid (st\<lparr>sh_queue := rest\<rparr>) \<noteq> Ok None"
      by (simp add: expand_node_def Let_def propose_returns [OF assms(1,2)] split: prod.split)
    moreover have "search_nodes n W A esc spec cfg st' \<noteq> Ok None"
      if "expand_node W A esc spec cfg nid (st\<lparr>sh_queue := rest\<rparr>) = Ok (Some (Go st'))" for st'
      using expand_node_ok [OF that Suc.prems(1-3) Cons] D Suc.prems(4) by (intro Suc.IH [of st' "insert nid D"]) auto
    ultimately show ?thesis using Cons
      by (auto simp: search_nodes_simps split: option.splits search_flow.splits)
  qed
qed

subsection \<open>Chains\<close>

text \<open>Applying a recorded chain of edits to a program.\<close>

definition apply_edit :: "('j, 'y) serial_scheme \<Rightarrow> applied_edit \<Rightarrow> 'j program_decl \<Rightarrow> (patch_error, 'j program_decl) outc" where
  "apply_edit W e p = rbind (patch_apply W p (patch_from_edit [] e)) (\<lambda>(p', _). Ok p')"

lemma ancestor_ids_fuel:
  assumes "\<And>i j. i < length nodes \<Longrightarrow> sn_parent (nodes ! i) = Some j \<Longrightarrow> j < i"
    and "i < length nodes" "i < n" "i < m"
  shows "ancestor_ids n nodes i = ancestor_ids m nodes i"
  using assms(2-)
proof (induction i arbitrary: n m rule: less_induct)
  case (less i)
  obtain n' m' where nm: "n = Suc n'" "m = Suc m'" using less.prems by (cases n; cases m) auto
  show ?case
  proof (cases "sn_parent (nodes ! i)")
    case (Some j)
    with assms(1) less.prems have j: "j < i" by blast
    have "ancestor_ids n' nodes j = ancestor_ids m' nodes j"
      by (rule less.IH [OF j]) (use less.prems j nm in linarith)+
    with nm Some show ?thesis by simp
  qed (simp add: nm)
qed

lemma way_to_step:
  assumes "\<And>i j. i < length nodes \<Longrightarrow> sn_parent (nodes ! i) = Some j \<Longrightarrow> j < i" "i < length nodes"
  shows "way_to nodes i = (case sn_parent (nodes ! i) of None \<Rightarrow> [] | Some j \<Rightarrow> way_to nodes j) @ [i]"
proof -
  obtain n where n: "length nodes = Suc n" using assms(2) by (cases "length nodes") auto
  show ?thesis
  proof (cases "sn_parent (nodes ! i)")
    case (Some j)
    with assms have j: "j < i" by blast
    have "ancestor_ids n nodes j = ancestor_ids (Suc n) nodes j"
      by (rule ancestor_ids_fuel [OF assms(1)]) (use assms(2) n j in linarith)+
    then show ?thesis using Some by (simp add: way_to_def n)
  qed (simp add: way_to_def n)
qed

lemma foldM_append: "foldM f (xs @ ys) s = rbind (foldM f xs s) (foldM f ys)"
proof (induction xs arbitrary: s)
  case (Cons x xs)
  then have "foldM f (xs @ ys) = (\<lambda>s. rbind (foldM f xs s) (foldM f ys))" by (rule ext)
  then show ?case by (simp add: rbind_assoc)
qed simp

text \<open>The chain of a node leads from the input program to the node's program, within the bounds and
  with allowed changes only.\<close>

lemma chain_replays:
  assumes inv: "nodes_inv W A esc p spec cfg st" and "i < length (sh_nodes st)"
  shows "foldM (apply_edit W) (build_chain W (sh_nodes st) i) p = Ok (sn_program (sh_nodes st ! i)) \<and>
    length (build_chain W (sh_nodes st) i) = sn_depth (sh_nodes st ! i) \<and>
    (\<forall>e\<in>set (build_chain W (sh_nodes st) i). check_allowed (cs_allowed_scope spec) (patch_from_edit [] e) = Ok ())"
  using assms(2)
proof (induction i rule: less_induct)
  case (less i)
  let ?nodes = "sh_nodes st" and ?n = "sh_nodes st ! i"
  have ok: "snode_ok W A esc p spec cfg ?nodes i" if "i < length ?nodes" for i
    using inv that by (simp add: nodes_inv_def)
  have parents: "\<And>i j. i < length ?nodes \<Longrightarrow> sn_parent (?nodes ! i) = Some j \<Longrightarrow> j < i"
  proof -
    fix i j assume "i < length ?nodes" "sn_parent (?nodes ! i) = Some j"
    with ok [of i] show "j < i" by (simp add: snode_ok_def Let_def)
  qed
  note way = way_to_step [OF parents less.prems]
  show ?case
  proof (cases "sn_parent ?n")
    case None
    with ok [OF less.prems] way show ?thesis
      by (auto simp: snode_ok_def Let_def build_chain_def chain_edit_def map_filter_def)
  next
    case (Some j)
    with parents less.prems have j: "j < i" "j < length ?nodes" by (blast, force)
    from ok [OF less.prems] Some obtain c d vr where c: "sn_incoming ?n = Some c"
      "check_allowed (cs_allowed_scope spec) c = Ok ()" "patch_apply W (sn_program (?nodes ! j)) c = Ok (sn_program ?n, d)"
      "sn_depth ?n = Suc (sn_depth (?nodes ! j))"
      by (auto simp: snode_ok_def child_ok_def Let_def)
    let ?e = "applied_edit_of W c (sn_fingerprint (?nodes ! j)) (sn_fingerprint ?n) (sn_program (?nodes ! j))"
    have chain: "build_chain W ?nodes i = build_chain W ?nodes j @ [?e]"
      using way Some c(1) by (simp add: build_chain_def map_filter_def chain_edit_def Let_def)
    have h: "function_hash W (sn_program (?nodes ! j)) (cp_module c) (cp_function c) = Ok (cp_original_hash c)"
      using c(3) by (auto elim: patch_apply_parts)
    have "patch_apply W (sn_program (?nodes ! j)) (patch_from_edit [] ?e) = patch_apply W (sn_program (?nodes ! j)) c"
      by (rule patch_apply_cong) (simp_all add: patch_from_edit_def applied_edit_of_def h)
    then have "apply_edit W ?e (sn_program (?nodes ! j)) = Ok (sn_program ?n)"
      using c(3) by (simp add: apply_edit_def)
    moreover have "check_allowed (cs_allowed_scope spec) (patch_from_edit [] ?e) = Ok ()"
      using c(2) by (auto simp: check_allowed_def patch_from_edit_def applied_edit_of_def split: if_splits)
    ultimately show ?thesis using less.IH [OF j] c(4) by (simp add: chain foldM_append)
  qed
qed

end
