(* ===== verification/Repair_Props.thy ===== *)
theory Repair_Props
  imports Search_Laws Explore_Props
begin

text \<open>The properties of patches, of the repair loop and of the budgeted search.\<close>

subsection \<open>A program to repair\<close>

text \<open>One thread that takes two locks; the contract asks that the second one is never held alone. The
  JSON text of a function is stood for by the last characters of its statements' identifiers.\<close>

definition first_sid :: "int function_decl \<Rightarrow> 8 word list" where
  "first_sid f = map (\<lambda>s. word_of_nat (of_char (last (sm_sid s)))) (take 1 (fd_body f))"

definition demo_serial :: "int serial" where
  "demo_serial = \<lparr>ser_function = (\<lambda>f. Some (first_sid f)),
     ser_program = (\<lambda>p. Some (concat (map (\<lambda>m. concat (map first_sid (md_functions m))) (pg_modules p)))),
     ser_changes = (\<lambda>cs. concat (concat (map change_ids cs))), debug_changes = (\<lambda>_. [])\<rparr>"

definition src_two_locks :: "int program_decl" where
  "src_two_locks = src_program []
     [(src_resource ''a'' ''sync'' ''Mutex'')\<lparr>rc_mode := Some ''Sync''\<rparr>,
      (src_resource ''b'' ''sync'' ''Mutex'')\<lparr>rc_mode := Some ''Sync''\<rparr>]
     [src_fn ''main'' [AMutexLock ''b'', AMutexLock ''a'', AMutexUnlock ''b'', AMutexUnlock ''a'', AReturn None]]"

definition two_locks_spec :: "int contract_spec" where
  "two_locks_spec = \<lparr>cs_name = ''c'', cs_properties = [SpecSafety ''s'' (SpOr [SpMutexFree ''app::b'', SpMutexHeld ''app::a''])],
    cs_preserved = [], cs_assumptions = assumptions_default, cs_bounds = \<lparr>bs_max_threads = 4,
      bs_max_frames_per_thread = 3, bs_max_states = 30, bs_max_depth = 20,
      bs_max_boundary_events = 3\<rparr>, cs_allowed_scope = patch_scope_unrestricted\<rparr>"

definition two_locks_hash :: string where
  "two_locks_hash = (case function_hash demo_serial src_two_locks ''app'' ''main'' of Ok h \<Rightarrow> h | _ \<Rightarrow> [])"

definition two_locks_patch :: cir_patch where
  "two_locks_patch = swap_patch ''app'' ''main'' ''s0'' ''s1'' two_locks_hash ''demo''"

lemma two_locks_patched:
  "(case patch_apply demo_serial src_two_locks two_locks_patch of Ok (p', d) \<Rightarrow>
     (case function_hash demo_serial p' ''app'' ''main'' of Ok h \<Rightarrow> True | _ \<Rightarrow> False) | _ \<Rightarrow> False)"
  by code_simp

lemma two_locks_parts: "cp_changes two_locks_patch = [SwapStatements ''s0'' ''s1'']"
  "cp_module two_locks_patch = ''app''" "cp_function two_locks_patch = ''main''"
  by (simp_all add: two_locks_patch_def swap_patch_def)

subsection \<open>Patches\<close>

text \<open>C13: A patch that applies changes the body of one function, the first of its name in the first
  module of its name, and nothing else, and only if the function has the recorded hash. The new body
  has no statement the old one had not, no jump is dropped, added or moved past another, and
  every jump target names the same statements as before. A patch of swaps keeps all statements.\<close>

theorem patch_effect:
  assumes "patch_apply W p c = Ok (p', d)"
  shows "\<exists>ms1 m ms2 fs1 f fs2 body.
    located_function p (cp_module c) (cp_function c) ms1 m ms2 fs1 f fs2 \<and>
    function_hash W p (cp_module c) (cp_function c) = Ok (cp_original_hash c) \<and>
    p' = p\<lparr>pg_modules := ms1 @ m\<lparr>md_functions := fs1 @ f\<lparr>fd_body := body\<rparr> # fs2\<rparr> # ms2\<rparr> \<and>
    mset body \<subseteq># mset (fd_body f) \<and> jumps_kept (fd_body f) body \<and>
    ((\<forall>x\<in>set (cp_changes c). \<exists>a b. x = SwapStatements a b) \<longrightarrow> mset body = mset (fd_body f))"
proof -
  from assms obtain f g where f: "find_function p (cp_module c) (cp_function c) = Ok f"
    "function_hash W p (cp_module c) (cp_function c) = Ok (cp_original_hash c)"
    "apply_changes (cp_changes c) [] [] f = Ok g" "p' = put_function (cp_module c) (cp_function c) g p"
    by (rule patch_apply_parts)
  from find_function_located [OF f(1)] obtain ms1 m ms2 fs1 fs2
    where loc: "located_function p (cp_module c) (cp_function c) ms1 m ms2 fs1 f fs2" by blast
  from apply_changes_effect [OF f(3)] obtain body where body: "g = f\<lparr>fd_body := body\<rparr>"
    "mset body \<subseteq># mset (fd_body f)" "jumps_kept (fd_body f) body"
    "(\<forall>x\<in>set (cp_changes c). \<exists>a b. x = SwapStatements a b) \<longrightarrow> mset body = mset (fd_body f)" by blast
  have "fd_name g = cp_function c" using loc body(1) by (simp add: located_function_def splits_at_def)
  from located_put(1) [OF loc this] f(2,4) loc body show ?thesis by blast
qed

theorem patch_effect_witness:
  "\<exists>p' d ms1 m ms2 fs1 f fs2 body. patch_apply demo_serial src_two_locks two_locks_patch = Ok (p', d) \<and>
     p' = src_two_locks\<lparr>pg_modules := ms1 @ m\<lparr>md_functions := fs1 @ f\<lparr>fd_body := body\<rparr> # fs2\<rparr> # ms2\<rparr> \<and>
     mset body = mset (fd_body f) \<and> jumps_kept (fd_body f) body"
proof -
  from two_locks_patched obtain p' d where a: "patch_apply demo_serial src_two_locks two_locks_patch = Ok (p', d)"
    by (auto split: outc.splits prod.splits)
  have "\<forall>x\<in>set (cp_changes two_locks_patch). \<exists>a b. x = SwapStatements a b" by (simp add: two_locks_parts)
  with patch_effect [OF a] a show ?thesis by blast
qed

text \<open>C36: A swap undoes itself: the same change, guarded by the hash of the patched function, leads back
  to the program before.\<close>

theorem swap_undone:
  assumes "patch_apply W p c = Ok (p', d)" "cp_changes c = [SwapStatements a b]"
    and "function_hash W p' (cp_module c) (cp_function c) = Ok h"
  shows "patch_apply W p' (c\<lparr>cp_original_hash := h\<rparr>) = Ok (p, d)"
proof -
  from assms(1) obtain f g where f: "find_function p (cp_module c) (cp_function c) = Ok f"
    "apply_changes (cp_changes c) [] [] f = Ok g" "p' = put_function (cp_module c) (cp_function c) g p"
    "d = render_diff (cp_function c) (cp_changes c)"
    by (rule patch_apply_parts)
  from f(2) assms(2) have swap: "a \<noteq> b" "apply_swap f a b = Ok g" by (auto split: if_splits)
  from find_function_located [OF f(1)] obtain ms1 m ms2 fs1 fs2
    where loc: "located_function p (cp_module c) (cp_function c) ms1 m ms2 fs1 f fs2" by blast
  have name: "fd_name f = cp_function c" "fd_name g = cp_function c"
    using loc swap(2) by (auto simp: located_function_def splits_at_def elim: swap_effect)
  have put: "p' = p\<lparr>pg_modules := ms1 @ m\<lparr>md_functions := fs1 @ g # fs2\<rparr> # ms2\<rparr>"
    "located_function p' (cp_module c) (cp_function c) ms1 (m\<lparr>md_functions := fs1 @ g # fs2\<rparr>) ms2 fs1 g fs2"
    using located_put [OF loc name(2)] f(3) by simp_all
  have "put_function (cp_module c) (cp_function c) f p' = p"
    using located_put(1) [OF put(2) name(1)] put(1) loc
    by (simp add: located_function_def splits_at_def)
  then show ?thesis
    using located_find [OF put(2)] apply_swap_again [OF swap(2)] swap(1) assms(2,3) f(4)
    by (simp add: patch_apply_def)
qed

theorem swap_undone_witness:
  "\<exists>p' d h. patch_apply demo_serial src_two_locks two_locks_patch = Ok (p', d) \<and>
     patch_apply demo_serial p' (two_locks_patch\<lparr>cp_original_hash := h\<rparr>) = Ok (src_two_locks, d)"
proof -
  from two_locks_patched obtain p' d h where a: "patch_apply demo_serial src_two_locks two_locks_patch = Ok (p', d)"
    "function_hash demo_serial p' (cp_module two_locks_patch) (cp_function two_locks_patch) = Ok h"
    by (auto simp: two_locks_parts split: outc.splits prod.splits)
  from swap_undone [OF a(1) two_locks_parts(1) a(2)] a(1) show ?thesis by blast
qed

subsection \<open>Verified programs\<close>

lemma verify_returns: "verify sys c \<noteq> Ok None"
  using verify_search_returns [of sys _ _ "ct_bounds c"]
  by (auto simp: verify_def split: outc.splits option.splits)

lemma validate_some: "validate A p \<noteq> None"
  using validate_total [of A p] by (auto simp: validate_def opt_append_eq_Some)

lemma verify_program_returns: "verify_program A esc p spec k \<noteq> Ok None"
  using validate_some [of A p]
  by (cases k) (auto simp: verify_program_def verify_lowered_def verify_returns split: option.splits outc.splits if_splits)

lemma petri_pass:
  assumes "verify_program A esc p spec Engine_Petri = Ok (Some rep)" "rp_outcome rep = Pass"
  shows "rp_complete rep \<and> (\<exists>P c pe. lower A p = Ok P \<and> resolve_contract A P spec = Ok c \<and>
    engine_with_monitor P (ct_bounds c) (contract_monitor c) = Ok pe \<and>
    (key_sound (petri_system esc pe) \<longrightarrow> contract_holds (petri_system esc pe) c))"
proof -
  from assms obtain vr P c r where parts: "lower A p = Ok P" "resolve_contract A P spec = Ok c"
    and r: "verify_on esc Engine_Petri P c = Ok (Some r)" "rep = finish_meta spec r" "rp_outcome r = Pass"
    by (rule verify_program_pass_parts)
  from r(1) obtain pe where pe: "engine_with_monitor P (ct_bounds c) (contract_monitor c) = Ok pe"
    "verify (petri_system esc pe) c = Ok (Some r)" by auto
  from pass_contract_holds [OF pe(2) r(3)] parts pe(1) r(2) show ?thesis by auto
qed

subsection \<open>The repair loop\<close>

lemma judge_accepted:
  assumes "judge_candidate W A esc p spec k c = Ok (Some (Accepted p' rep d))"
  shows "check_allowed (cs_allowed_scope spec) c = Ok () \<and> patch_apply W p c = Ok (p', d) \<and>
    verify_program A esc p' spec Engine_Petri = Ok (Some rep) \<and> rp_outcome rep = Pass"
  using assms
  by (auto simp: judge_candidate_def judge_lowered_def split: outc.splits option.splits if_splits prod.splits)

lemma repair_rounds_accepted:
  assumes "repair_rounds n W A esc nxt p spec k ps st = Ok (Some r)" "ra_outcome r = Repaired"
  shows "\<exists>c p' d rep. ra_accepted r = Some c \<and> ra_program r = Some p' \<and> ra_report r = Some rep \<and>
    check_allowed (cs_allowed_scope spec) c = Ok () \<and> patch_apply W p c = Ok (p', d) \<and>
    verify_program A esc p' spec Engine_Petri = Ok (Some rep) \<and> rp_outcome rep = Pass"
  using assms
proof (induction n W A esc nxt p spec k ps st rule: repair_rounds.induct)
  case (1 W A esc nxt p spec k ps st)
  then show ?case by (auto simp: repair_end_def split: if_splits)
next
  case (2 n W A esc nxt p spec k ps st)
  obtain oc ps' where nxt: "nxt (repair_context_at p spec k) ps = (oc, ps')"
    by (cases "nxt (repair_context_at p spec k) ps")
  show ?case
  proof (cases oc)
    case None
    with 2 nxt show ?thesis by (auto simp: repair_end_def split: if_splits)
  next
    case (Some c)
    show ?thesis
    proof (cases "content_key W c \<in> set (rs_tried st)")
      case True
      with "2.prems" "2.IH"(1) [OF nxt [symmetric] Some True] nxt Some show ?thesis by simp
    next
      case False
      let ?st1 = "st\<lparr>rs_tried := content_key W c # rs_tried st, rs_count := Suc (rs_count st)\<rparr>"
      from "2.prems"(1) nxt Some False obtain j where j: "judge_candidate W A esc p spec k c = Ok (Some j)"
        by (auto simp: Let_def split: option.splits)
      show ?thesis
      proof (cases j)
        case (Rejected x)
        with "2.prems" "2.IH"(2) [OF nxt [symmetric] Some False refl j refl Rejected] nxt Some False j show ?thesis
          by (simp add: Let_def)
      next
        case (Accepted p' rep d)
        with "2.prems" nxt Some False j judge_accepted [of W A esc p spec k c p' rep d] show ?thesis
          by (auto simp: Let_def)
      qed
    qed
  qed
qed

text \<open>C11: What the repair loop accepts is a repair: the accepted patch is within the allowed scope and
  applies to the input program, and the program it gives passes a complete verification on the net
  engine, so its lowering satisfies the whole contract, provided the state key identifies states
  that behave alike.\<close>

theorem repaired_verified:
  assumes "run_repair W A esc nxt p spec ps budget = Ok (Some r)" "ra_outcome r = Repaired"
  shows "\<exists>c p' d rep P cc pe. ra_accepted r = Some c \<and> ra_program r = Some p' \<and> ra_report r = Some rep \<and>
    check_allowed (cs_allowed_scope spec) c = Ok () \<and> patch_apply W p c = Ok (p', d) \<and>
    verify_program A esc p' spec Engine_Petri = Ok (Some rep) \<and> rp_outcome rep = Pass \<and> rp_complete rep \<and>
    lower A p' = Ok P \<and> resolve_contract A P spec = Ok cc \<and>
    engine_with_monitor P (ct_bounds cc) (contract_monitor cc) = Ok pe \<and>
    (key_sound (petri_system esc pe) \<longrightarrow> contract_holds (petri_system esc pe) cc)"
proof -
  from repair_rounds_accepted [OF assms(1) [unfolded run_repair_def] assms(2)] obtain c p' d rep where
    r: "ra_accepted r = Some c" "ra_program r = Some p'" "ra_report r = Some rep"
    "check_allowed (cs_allowed_scope spec) c = Ok ()" "patch_apply W p c = Ok (p', d)"
    "verify_program A esc p' spec Engine_Petri = Ok (Some rep)" "rp_outcome rep = Pass" by blast
  from petri_pass [OF r(6,7)] r show ?thesis by blast
qed

theorem repaired_verified_witness:
  "\<exists>r c p' rep. run_repair demo_serial demo_kinds (\<lambda>s. s) (lock_order_next demo_serial) src_two_locks two_locks_spec
       (lock_order_new src_two_locks patch_scope_unrestricted) 1 = Ok (Some r) \<and>
     ra_accepted r = Some c \<and> ra_program r = Some p' \<and>
     verify_program demo_kinds (\<lambda>s. s) p' two_locks_spec Engine_Petri = Ok (Some rep) \<and> rp_outcome rep = Pass"
proof -
  have "(case run_repair demo_serial demo_kinds (\<lambda>s. s) (lock_order_next demo_serial) src_two_locks two_locks_spec
     (lock_order_new src_two_locks patch_scope_unrestricted) 1 of Ok (Some r) \<Rightarrow> ra_outcome r = Repaired | _ \<Rightarrow> False)"
    by code_simp
  then obtain r where r: "run_repair demo_serial demo_kinds (\<lambda>s. s) (lock_order_next demo_serial) src_two_locks
     two_locks_spec (lock_order_new src_two_locks patch_scope_unrestricted) 1 = Ok (Some r)" "ra_outcome r = Repaired"
    by (auto split: outc.splits option.splits)
  from repaired_verified [OF r] r(1) show ?thesis by blast
qed

subsection \<open>The search\<close>

lemma run_search_cases:
  assumes "run_search W A esc p spec cfg = Ok (Some r)"
  obtains (zero) "sp_outcome r = Invalid_Config"
  | (early) rep oc where "sp_outcome r = oc" "oc \<in> {Already_Satisfied, Repair_Invalid, Repair_Unsupported}"
  | (unknown) rep where "verify_program A esc p spec Engine_Petri = Ok (Some rep)" "rp_outcome rep = Unknown"
      "sc_verification_budget cfg \<noteq> 0"
      "r = search_finish cfg (bounds_of_spec (cs_bounds spec)) Analysis_Unknown ''root-unknown'' None
        (search_start W p rep) [] None None"
  | (searched) rep fl where "verify_program A esc p spec Engine_Petri = Ok (Some rep)" "rp_outcome rep = Fail"
      "sc_verification_budget cfg \<noteq> 0"
      "search_nodes (sc_verification_budget cfg) W A esc spec cfg (search_start W p rep) = Ok (Some fl)"
      "r = search_end W cfg (bounds_of_spec (cs_bounds spec)) fl"
proof (cases "sc_verification_budget cfg = 0")
  case True
  with assms have "sp_outcome r = Invalid_Config" by (auto simp: run_search_def empty_report_def)
  then show thesis by (rule zero)
next
  case False
  with assms obtain rep where rep: "verify_program A esc p spec Engine_Petri = Ok (Some rep)"
    by (auto simp: run_search_def Let_def split: option.splits)
  show thesis
  proof (cases "rp_outcome rep")
    case Pass
    with petri_pass [OF rep] have "report_accepted rep" by (simp add: report_accepted_def)
    with assms False rep show thesis by (intro early) (auto simp: run_search_def Let_def search_finish_def)
  next
    case Fail
    with assms False rep show thesis
      by (auto simp: run_search_def Let_def report_accepted_def intro: searched)
  next
    case Unknown
    with assms False rep show thesis
      by (intro unknown [OF rep Unknown False]) (simp add: run_search_def Let_def report_accepted_def)
  next
    case Invalid_Outcome
    with assms False rep show thesis
      by (intro early) (auto simp: run_search_def Let_def search_finish_def report_accepted_def)
  next
    case Unsupported_Outcome
    with assms False rep show thesis
      by (intro early) (auto simp: run_search_def Let_def search_finish_def report_accepted_def)
  qed
qed

lemma searched_ended:
  assumes "verify_program A esc p spec Engine_Petri = Ok (Some rep)" "rp_outcome rep = Fail"
    "sc_verification_budget cfg \<noteq> 0"
    "search_nodes (sc_verification_budget cfg) W A esc spec cfg (search_start W p rep) = Ok (Some fl)"
  shows "ended_ok W A esc p spec cfg fl"
  by (rule search_nodes_ok [OF assms(4) search_start_ok [OF assms(1,3)] search_start_queue [OF assms(2)]])

lemma classify_not_repaired: "fst (classify t) \<notin> {Repaired, Already_Satisfied, Repair_Invalid, Repair_Unsupported, Invalid_Config}"
  by (simp add: classify_def)

lemma search_finish_simps [simp]:
  "sp_outcome (search_finish cfg b oc why tr st ch q rp) = oc"
  "sp_stop_reason (search_finish cfg b oc why tr st ch q rp) = why"
  "sp_truncation (search_finish cfg b oc why tr st ch q rp) = tr"
  "sp_saw_unknown (search_finish cfg b oc why tr st ch q rp) = sh_saw_unknown st"
  "sp_nodes (search_finish cfg b oc why tr st ch q rp) = sh_reports st"
  "sp_attempts (search_finish cfg b oc why tr st ch q rp) = sh_attempts st"
  "sp_proposals (search_finish cfg b oc why tr st ch q rp) = sh_proposals st"
  "sp_verifications (search_finish cfg b oc why tr st ch q rp) = sh_verifications st"
  "sp_chain (search_finish cfg b oc why tr st ch q rp) = ch"
  "sp_program (search_finish cfg b oc why tr st ch q rp) = q"
  "sp_report (search_finish cfg b oc why tr st ch q rp) = rp"
  by (simp_all add: search_finish_def)

text \<open>C12: The chain of edits that a search accepts replays: applied in order to the input program, each
  edit guarded by its recorded hash, it gives the accepted program; every edit is within the allowed
  scope, the chain is no longer than the depth bound, the accepted program passes a complete
  verification with the recorded report, and the run stayed within both budgets.\<close>

theorem search_chain_replays:
  assumes "run_search W A esc p spec cfg = Ok (Some r)" "sp_outcome r = Repaired"
  shows "\<exists>p' rep. sp_program r = Some p' \<and> sp_report r = Some rep \<and>
    foldM (apply_edit W) (sp_chain r) p = Ok p' \<and> length (sp_chain r) \<le> sc_max_depth cfg \<and>
    (\<forall>e\<in>set (sp_chain r). check_allowed (cs_allowed_scope spec) (patch_from_edit [] e) = Ok ()) \<and>
    verify_program A esc p' spec Engine_Petri = Ok (Some rep) \<and> rp_outcome rep = Pass \<and> rp_complete rep \<and>
    sp_verifications r \<le> sc_verification_budget cfg \<and> sp_proposals r \<le> sc_candidate_budget cfg"
  using assms(1)
proof (cases rule: run_search_cases)
  case (searched rep fl)
  from searched_ended [OF searched(1-4)] have ended: "ended_ok W A esc p spec cfg fl" .
  show ?thesis
  proof (cases fl)
    case (Found i st)
    with ended have inv: "nodes_inv W A esc p spec cfg st" and i: "i < length (sh_nodes st)"
      and acc: "report_accepted (sn_report (sh_nodes st ! i))" by (simp_all add: ended_ok_def)
    have ok: "snode_ok W A esc p spec cfg (sh_nodes st) i" using inv i by (simp add: nodes_inv_def)
    then have "sn_depth (sh_nodes st ! i) \<le> sc_max_depth cfg"
      by (auto simp: snode_ok_def child_ok_def Let_def split: option.splits)
    moreover have "verify_program A esc (sn_program (sh_nodes st ! i)) spec Engine_Petri = Ok (Some (sn_report (sh_nodes st ! i)))"
      using ok by (simp add: snode_ok_def Let_def)
    moreover have "sh_verifications st \<le> sc_verification_budget cfg" "sh_proposals st \<le> sc_candidate_budget cfg"
      using inv by (simp_all add: nodes_inv_def)
    ultimately show ?thesis using chain_replays [OF inv i] acc searched(5) Found
      by (simp add: search_end_def report_accepted_def)
  next
    case (Leave st)
    with assms(2) searched(5) classify_not_repaired [of "live_facts st"] show ?thesis
      by (simp add: search_end_def split: prod.splits)
  next
    case (Go st)
    with ended show ?thesis by (simp add: ended_ok_def)
  qed
qed (use assms(2) in auto)

theorem search_chain_replays_witness:
  "\<exists>r p'. run_search demo_serial demo_kinds (\<lambda>s. s) src_two_locks two_locks_spec search_config_default = Ok (Some r) \<and>
     sp_program r = Some p' \<and> foldM (apply_edit demo_serial) (sp_chain r) src_two_locks = Ok p'"
proof -
  have "(case run_search demo_serial demo_kinds (\<lambda>s. s) src_two_locks two_locks_spec search_config_default
     of Ok (Some r) \<Rightarrow> sp_outcome r = Repaired | _ \<Rightarrow> False)" by code_simp
  then obtain r where r: "run_search demo_serial demo_kinds (\<lambda>s. s) src_two_locks two_locks_spec search_config_default = Ok (Some r)"
    "sp_outcome r = Repaired" by (auto split: outc.splits option.splits)
  from search_chain_replays [OF r] r(1) show ?thesis by blast
qed

lemma left_classified:
  assumes "nodes_inv W A esc p spec cfg st" "left_for cfg st" "rp_outcome (sn_report (sh_nodes st ! 0)) = Fail"
    and "sp_nodes r = sh_reports st" "sp_attempts r = sh_attempts st" "sp_proposals r = sh_proposals st"
  shows "classify (live_facts st) = classify (derive_terminal_facts cfg r)"
proof -
  note d = derived_facts [OF assms(1,4-6)]
  from assms(2) show ?thesis unfolding left_for_def
    by (elim conjE disjE) (simp_all add: classify_def d live_facts_def assms(3))
qed

lemma drained_classified:
  assumes "nodes_inv W A esc p spec cfg st" "queue_inv cfg D st" "spent_ok cfg D st" "sh_queue st = []"
    and "rp_outcome (sn_report (sh_nodes st ! 0)) = Fail"
    and "sp_nodes r = sh_reports st" "sp_attempts r = sh_attempts st" "sp_proposals r = sh_proposals st"
  shows "classify (live_facts st) = classify (derive_terminal_facts cfg r)"
proof -
  note d = derived_facts [OF assms(1,6-8)]
  have D: "expandable_at cfg (sh_nodes st) i \<longleftrightarrow> i \<in> D" for i
    using assms(2,4) by (auto simp: queue_inv_def)
  have spent: "\<not> (sh_proposals st \<ge> sc_candidate_budget cfg \<and> (\<exists>i. i \<in> D \<and> within_bounds cfg (sh_nodes st ! i)))"
    using assms(3) by (auto simp: spent_ok_def)
  have flags: "sh_saw_unknown st = unknown_seen st" "\<not> sh_candidate_hit st" "\<not> sh_verification_hit st" "\<not> blocked_attempt st"
    "sh_depth_truncated st = (\<exists>i. i \<in> D \<and> sn_depth (sh_nodes st ! i) \<ge> sc_max_depth cfg)"
    "sh_edits_truncated st = (\<exists>i. i \<in> D \<and> sn_depth (sh_nodes st ! i) < sc_max_depth cfg \<and>
       sn_total_edits (sh_nodes st ! i) \<ge> sc_max_total_edits cfg)"
    using assms(2) by (auto simp: queue_inv_def)
  have "\<not> tf_candidate_budget_hit (derive_terminal_facts cfg r)" unfolding d D using spent by blast
  moreover have "tf_depth_truncated (derive_terminal_facts cfg r) = sh_depth_truncated st"
    "tf_edits_truncated (derive_terminal_facts cfg r) = sh_edits_truncated st"
    "tf_saw_unknown (derive_terminal_facts cfg r) = sh_saw_unknown st"
    unfolding d D flags by (rule refl)+
  moreover have "\<not> tf_verification_budget_hit (derive_terminal_facts cfg r)" "\<not> tf_root_unknown (derive_terminal_facts cfg r)"
    unfolding d using flags(4) assms(5) by simp_all
  ultimately show ?thesis using flags(2,3) by (simp add: classify_def live_facts_def)
qed

text \<open>C14: The terminal classification of a search that repairs nothing can be read off its record: the
  outcome, the reason, the truncation and the unknown flag that the run reports are the ones that
  \<open>classify\<close> gives for the facts \<open>derive_terminal_facts\<close> finds in the recorded nodes and attempts.\<close>

theorem terminal_facts_agree:
  assumes "run_search W A esc p spec cfg = Ok (Some r)"
    and "sp_outcome r \<in> {No_Acceptable_Candidate, Budget_Exhausted, Analysis_Unknown}"
  shows "(sp_outcome r, sp_stop_reason r, sp_truncation r) = classify (derive_terminal_facts cfg r) \<and>
    sp_saw_unknown r = tf_saw_unknown (derive_terminal_facts cfg r)"
  using assms(1)
proof (cases rule: run_search_cases)
  case (unknown rep)
  note inv = search_start_ok [OF unknown(1,3), of W]
  have st: "sh_saw_unknown (search_start W p rep)" "length (sh_nodes (search_start W p rep)) = 1"
    "rp_outcome (sn_report (sh_nodes (search_start W p rep) ! 0)) = Unknown" "unknown_seen (search_start W p rep)"
    using unknown(2) by (simp_all add: search_start_def Let_def add_node_def unknown_seen_def)
  have "sp_nodes r = sh_reports (search_start W p rep)" "sp_attempts r = sh_attempts (search_start W p rep)"
    "sp_proposals r = sh_proposals (search_start W p rep)" by (simp_all add: unknown(4))
  note d = derived_facts [OF inv this]
  have "tf_root_unknown (derive_terminal_facts cfg r)" "tf_saw_unknown (derive_terminal_facts cfg r)"
    using d(5,6) st by simp_all
  moreover have "sp_outcome r = Analysis_Unknown" "sp_stop_reason r = ''root-unknown''" "sp_truncation r = None" "sp_saw_unknown r"
    using st(1) by (simp_all add: unknown(4))
  ultimately show ?thesis by (simp add: classify_def)
next
  case (searched rep fl)
  from searched_ended [OF searched(1-4)] have ended: "ended_ok W A esc p spec cfg fl" .
  show ?thesis
  proof (cases fl)
    case (Leave st)
    with ended have inv: "nodes_inv W A esc p spec cfg st"
      and how: "left_for cfg st \<or> (\<exists>D. queue_inv cfg D st \<and> spent_ok cfg D st \<and> sh_queue st = [])"
      by (simp_all add: ended_ok_def)
    from inv have "snode_ok W A esc p spec cfg (sh_nodes st) 0"
      unfolding nodes_inv_def by (metis length_greater_0_conv)
    then have root: "rp_outcome (sn_report (sh_nodes st ! 0)) = Fail"
      using searched(1,2) by (auto simp: snode_ok_def Let_def split: option.splits)
    have r: "sp_nodes r = sh_reports st" "sp_attempts r = sh_attempts st" "sp_proposals r = sh_proposals st"
      "sp_saw_unknown r = sh_saw_unknown st"
      "(sp_outcome r, sp_stop_reason r, sp_truncation r) = classify (live_facts st)"
      using searched(5) Leave by (simp_all add: search_end_def split: prod.split)
    have "classify (live_facts st) = classify (derive_terminal_facts cfg r)"
      using how left_classified [OF inv _ root r(1-3)] drained_classified [OF inv _ _ _ root r(1-3)] by blast
    moreover have "sh_saw_unknown st = unknown_seen st" using how by (auto simp: left_for_def queue_inv_def)
    ultimately show ?thesis using r derived_facts(5) [OF inv r(1-3)] by simp
  qed (use assms(2) searched(5) ended in \<open>auto simp: ended_ok_def search_end_def\<close>)
qed (use assms(2) in auto)

theorem terminal_facts_agree_witness:
  "\<exists>r. run_search demo_serial demo_kinds (\<lambda>s. s) src_two_locks two_locks_spec
       (search_config_default\<lparr>sc_candidate_budget := 0\<rparr>) = Ok (Some r) \<and>
     classify (derive_terminal_facts (search_config_default\<lparr>sc_candidate_budget := 0\<rparr>) r) =
       (Budget_Exhausted, ''candidate-budget'', sp_truncation r)"
proof -
  have "(case run_search demo_serial demo_kinds (\<lambda>s. s) src_two_locks two_locks_spec
       (search_config_default\<lparr>sc_candidate_budget := 0\<rparr>) of
     Ok (Some r) \<Rightarrow> sp_outcome r = Budget_Exhausted \<and> sp_stop_reason r = ''candidate-budget'' | _ \<Rightarrow> False)" by code_simp
  then obtain r where r: "run_search demo_serial demo_kinds (\<lambda>s. s) src_two_locks two_locks_spec
      (search_config_default\<lparr>sc_candidate_budget := 0\<rparr>) = Ok (Some r)"
    "sp_outcome r = Budget_Exhausted" "sp_stop_reason r = ''candidate-budget''" by (auto split: outc.splits option.splits)
  from terminal_facts_agree [OF r(1)] r show ?thesis by auto
qed

text \<open>C35: The search always ends: its loops never run out of fuel, so no configuration, program or
  contract lets it run forever.\<close>

theorem search_ends: "run_search W A esc p spec cfg \<noteq> Ok None"
proof
  assume none: "run_search W A esc p spec cfg = Ok None"
  then have budget: "sc_verification_budget cfg \<noteq> 0"
    by (cases "sc_verification_budget cfg = 0") (simp_all add: run_search_def)
  with none obtain y where y: "verify_program A esc p spec Engine_Petri = Ok y" by (auto simp: run_search_def Let_def)
  with verify_program_returns [of A esc p spec Engine_Petri] obtain rep where "y = Some rep" by (cases y) auto
  with y have rep1: "verify_program A esc p spec Engine_Petri = Ok (Some rep)" by simp
  from none budget rep1 have "search_nodes (sc_verification_budget cfg) W A esc spec cfg (search_start W p rep) = Ok None \<and>
    rp_outcome rep \<noteq> Unknown \<and> rp_outcome rep \<noteq> Invalid_Outcome \<and> rp_outcome rep \<noteq> Unsupported_Outcome \<and> \<not> report_accepted rep"
    by (simp add: run_search_def Let_def split: if_splits)
  note rep = rep1 budget this [THEN conjunct1] this [THEN conjunct2, THEN conjunct1]
    this [THEN conjunct2, THEN conjunct2, THEN conjunct1] this [THEN conjunct2, THEN conjunct2, THEN conjunct2]
  have "rp_outcome rep = Fail"
    using rep(4-6) petri_pass [OF rep(1)] by (cases "rp_outcome rep") (auto simp: report_accepted_def)
  note q = search_start_queue [OF this, of cfg W p]
  have "search_nodes (sc_verification_budget cfg) W A esc spec cfg (search_start W p rep) \<noteq> Ok None"
    by (rule search_nodes_returns [OF verify_program_returns validate_some search_start_ok [OF rep(1,2)] q]) simp
  with rep(3) show False by simp
qed

end
